(* ===== verification/Std_Map.thy ===== *)
theory Std_Map
  imports Prelude
begin

text \<open>
  The ordered associative container \<^verbatim>\<open>std::map<K, V>\<close>.

  The program stores every table of its maintenance database, every record in those tables and
  every parsed parameter set in a \<^verbatim>\<open>std::map\<close>, and it serialises them by iterating in key order,
  so the model keeps the order: a map is the list of its entries, and \<open>smap_wf\<close> says that the
  keys strictly increase.  For \<open>string\<close> keys the order is the one of
  \<^verbatim>\<open>std::string::operator<\<close>: lexicographic on unsigned characters, a prefix first.

  The interface the other theories use is the locale \<open>ordered_map\<close>; \<open>smap_find\<close>, \<open>smap_put\<close>
  and \<open>smap_erase\<close> are its interpretation.
\<close>

type_synonym ('k, 'v) smap = "('k \<times> 'v) list"

definition smap_wf :: "('k::linorder, 'v) smap \<Rightarrow> bool" where
  "smap_wf m \<longleftrightarrow> sorted_wrt (<) (map fst m)"

definition smap_find :: "('k::linorder, 'v) smap \<Rightarrow> 'k \<Rightarrow> 'v option" where
  "smap_find m k = map_of m k"

fun smap_put :: "'k::linorder \<Rightarrow> 'v \<Rightarrow> ('k, 'v) smap \<Rightarrow> ('k, 'v) smap" where
  "smap_put k v [] = [(k, v)]"
| "smap_put k v (e # m) =
     (if fst e < k then e # smap_put k v m
      else if fst e = k then (k, v) # m
      else (k, v) # e # m)"

definition smap_erase :: "'k::linorder \<Rightarrow> ('k, 'v) smap \<Rightarrow> ('k, 'v) smap" where
  "smap_erase k m = filter (\<lambda>e. fst e \<noteq> k) m"

text \<open>\<open>smap_count\<close> is \<^verbatim>\<open>m.count(k) != 0\<close>, \<open>smap_merge\<close> the copy loop
  \<^verbatim>\<open>for (auto& [k, v] : src) dst[k] = v;\<close>, and \<open>smap_get\<close> the lookup with a default.\<close>

definition smap_count :: "('k::linorder, 'v) smap \<Rightarrow> 'k \<Rightarrow> bool" where
  "smap_count m k \<longleftrightarrow> smap_find m k \<noteq> None"

definition smap_get :: "'v \<Rightarrow> ('k::linorder, 'v) smap \<Rightarrow> 'k \<Rightarrow> 'v" where
  "smap_get d m k = (case smap_find m k of None \<Rightarrow> d | Some v \<Rightarrow> v)"

definition smap_merge :: "('k::linorder, 'v) smap \<Rightarrow> ('k, 'v) smap \<Rightarrow> ('k, 'v) smap" where
  "smap_merge dst src = fold (\<lambda>(k, v) m. smap_put k v m) src dst"

subsection \<open>The interface\<close>

locale ordered_map =
  fixes empty :: "'m"
    and find :: "'m \<Rightarrow> 'k::linorder \<Rightarrow> 'v option"
    and put :: "'k \<Rightarrow> 'v \<Rightarrow> 'm \<Rightarrow> 'm"
    and erase :: "'k \<Rightarrow> 'm \<Rightarrow> 'm"
    and entries :: "'m \<Rightarrow> ('k \<times> 'v) list"
    and wf :: "'m \<Rightarrow> bool"
  assumes find_empty: "find empty k = None"
    and find_put: "find (put k v m) k' = (if k' = k then Some v else find m k')"
    and find_erase: "find (erase k m) k' = (if k' = k then None else find m k')"
    and wf_empty: "wf empty"
    and wf_put: "wf m \<Longrightarrow> wf (put k v m)"
    and wf_erase: "wf m \<Longrightarrow> wf (erase k m)"
    and entries_sorted: "wf m \<Longrightarrow> sorted_wrt (<) (map fst (entries m))"
    and entries_find: "wf m \<Longrightarrow> (k, v) \<in> set (entries m) \<longleftrightarrow> find m k = Some v"
begin

lemma find_put_same: "find (put k v m) k = Some v"
  by (simp add: find_put)

lemma find_put_other: "k' \<noteq> k \<Longrightarrow> find (put k v m) k' = find m k'"
  by (simp add: find_put)

lemma put_frame: "find (put k v m) k' \<noteq> find m k' \<Longrightarrow> k' = k"
  by (auto simp: find_put split: if_splits)

lemma wf_puts: "wf m \<Longrightarrow> wf (fold (\<lambda>(k, v) m. put k v m) es m)"
  by (induction es arbitrary: m) (auto simp: wf_put)

lemma find_puts:
  "find (fold (\<lambda>(k, v) m. put k v m) es m) k
     = (case map_of (rev es) k of None \<Rightarrow> find m k | Some v \<Rightarrow> Some v)"
proof (induction es arbitrary: m)
  case Nil
  show ?case by simp
next
  case (Cons e es)
  obtain a b where e: "e = (a, b)" by fastforce
  show ?case
    by (simp add: e Cons find_put map_add_def split: option.splits)
qed

lemma entries_distinct: "wf m \<Longrightarrow> distinct (map fst (entries m))"
  using entries_sorted strict_sorted_iff by blast

end

subsection \<open>The sorted list implements it\<close>

lemma smap_wf_Nil [simp]: "smap_wf []"
  by (simp add: smap_wf_def)

lemma smap_wf_Cons: "smap_wf (e # m) \<longleftrightarrow> (\<forall>x \<in> set m. fst e < fst x) \<and> smap_wf m"
  by (auto simp: smap_wf_def)

lemma smap_find_Nil [simp]: "smap_find [] k = None"
  by (simp add: smap_find_def)

lemma smap_find_Cons: "smap_find (e # m) k = (if k = fst e then Some (snd e) else smap_find m k)"
  by (simp add: smap_find_def)

lemma smap_find_put [simp]:
  "smap_find (smap_put k v m) k' = (if k' = k then Some v else smap_find m k')"
  by (induction k v m rule: smap_put.induct) (auto simp: smap_find_Cons)

lemma fst_set_smap_put: "fst ` set (smap_put k v m) = insert k (fst ` set m)"
  by (induction k v m rule: smap_put.induct) auto

lemma smap_wf_put [simp]: "smap_wf m \<Longrightarrow> smap_wf (smap_put k v m)"
proof (induction k v m rule: smap_put.induct)
  case (1 k v)
  show ?case by (simp add: smap_wf_Cons)
next
  case (2 k v e m)
  then have wf: "smap_wf m" and lt: "\<forall>x \<in> set m. fst e < fst x"
    by (simp_all add: smap_wf_Cons)
  consider "fst e < k" | "fst e = k" | "k < fst e"
    by (meson linorder_cases)
  then show ?case
  proof cases
    case 1
    have "fst e < fst x" if "x \<in> set (smap_put k v m)" for x
    proof -
      have "fst x \<in> insert k (fst ` set m)"
        using that fst_set_smap_put [of k v m] by blast
      with lt 1 show ?thesis by auto
    qed
    with 1 2 wf show ?thesis by (simp add: smap_wf_Cons)
  next
    case 2
    with wf lt show ?thesis by (auto simp: smap_wf_Cons)
  next
    case 3
    with wf lt show ?thesis by (fastforce simp: smap_wf_Cons)
  qed
qed

lemma smap_find_erase [simp]:
  "smap_find (smap_erase k m) k' = (if k' = k then None else smap_find m k')"
  by (induction m) (auto simp: smap_erase_def smap_find_Cons)

lemma smap_wf_erase [simp]: "smap_wf m \<Longrightarrow> smap_wf (smap_erase k m)"
  by (induction m) (auto simp: smap_erase_def smap_wf_Cons)

lemma smap_wf_distinct: "smap_wf m \<Longrightarrow> distinct (map fst m)"
  using strict_sorted_iff by (auto simp: smap_wf_def)

lemma smap_find_entry: "smap_wf m \<Longrightarrow> smap_find m k = Some v \<longleftrightarrow> (k, v) \<in> set m"
  by (simp add: smap_find_def smap_wf_distinct)

interpretation smap: ordered_map "[]" smap_find smap_put smap_erase "\<lambda>m. m" smap_wf
  by unfold_locales (auto simp: smap_find_entry smap_wf_def [symmetric])

subsection \<open>Facts about the entry list\<close>

lemma smap_find_in_set: "smap_find m k = Some v \<Longrightarrow> (k, v) \<in> set m"
  by (simp add: smap_find_def map_of_SomeD)

lemma smap_put_append:
  "\<forall>x \<in> set m. fst x < k \<Longrightarrow> smap_put k v m = m @ [(k, v)]"
  by (induction m) auto

text \<open>Re-inserting the entries in order, as a deserialiser does, rebuilds the list.\<close>

lemma smap_rebuild_aux:
  "smap_wf (acc @ m) \<Longrightarrow> fold (\<lambda>(k, v) a. smap_put k v a) m acc = acc @ m"
proof (induction m arbitrary: acc)
  case Nil
  show ?case by simp
next
  case (Cons e m)
  obtain k v where e: "e = (k, v)" by fastforce
  have "\<forall>x \<in> set acc. fst x < k"
    using Cons.prems by (auto simp: e smap_wf_def sorted_wrt_append)
  then have "smap_put k v acc = acc @ [(k, v)]"
    by (rule smap_put_append)
  with Cons.IH [of "acc @ [(k, v)]"] Cons.prems show ?case
    by (simp add: e)
qed

lemma smap_rebuild [simp]: "smap_wf m \<Longrightarrow> fold (\<lambda>(k, v) a. smap_put k v a) m [] = m"
  using smap_rebuild_aux [of "[]" m] by simp

lemma map_of_rev_distinct: "distinct (map fst m) \<Longrightarrow> map_of (rev m) = map_of m"
  by (subst map_of_inject_set) (auto simp: rev_map [symmetric])

lemma smap_merge_find:
  "smap_wf src \<Longrightarrow> smap_find (smap_merge dst src) k
     = (case smap_find src k of None \<Rightarrow> smap_find dst k | Some v \<Rightarrow> Some v)"
  using map_of_rev_distinct [OF smap_wf_distinct, of src]
  by (simp add: smap_merge_def smap.find_puts smap_find_def [of src])

lemma smap_wf_merge [simp]: "smap_wf dst \<Longrightarrow> smap_wf (smap_merge dst src)"
  by (simp add: smap_merge_def smap.wf_puts)

lemma smap_ext:
  assumes "smap_wf m" and "smap_wf n" and "\<And>k. smap_find m k = smap_find n k"
  shows "m = n"
proof -
  have eq: "set m = set n"
    using smap_find_entry [OF assms(1)] smap_find_entry [OF assms(2)] assms(3)
    by (simp add: set_eq_iff)
  have "inj_on fst (set m \<union> set n)"
    using smap_wf_distinct [OF assms(1)] by (simp add: eq [symmetric] distinct_map)
  then show ?thesis
    using assms(1,2) eq
    by (intro map_sorted_distinct_set_unique [of fst])
       (auto simp: smap_wf_def strict_sorted_iff)
qed

lemma smap_find_below: "\<forall>x \<in> set m. k < fst x \<Longrightarrow> smap_find m k = None"
  by (induction m) (auto simp: smap_find_Cons)

lemma length_smap_put:
  "smap_wf m \<Longrightarrow>
     length (smap_put k v m) = (if smap_find m k = None then Suc (length m) else length m)"
proof (induction k v m rule: smap_put.induct)
  case (2 k v e m)
  then have wf: "smap_wf m" and lt: "\<forall>x \<in> set m. fst e < fst x"
    by (simp_all add: smap_wf_Cons)
  show ?case
  proof (cases "k < fst e")
    case True
    then have "smap_find m k = None"
      using lt by (intro smap_find_below) auto
    with True show ?thesis by (auto simp: smap_find_Cons)
  next
    case False
    with 2 wf show ?thesis by (auto simp: smap_find_Cons)
  qed
qed simp

lemma smap_get_put [simp]:
  "smap_get d (smap_put k v m) k' = (if k' = k then v else smap_get d m k')"
  by (simp add: smap_get_def)

lemma smap_count_put [simp]: "smap_count (smap_put k v m) k' \<longleftrightarrow> k' = k \<or> smap_count m k'"
  by (simp add: smap_count_def)

text \<open>A map filled by a sequence of assignments \<^verbatim>\<open>m[k] = v;\<close> to an empty map.\<close>

definition smap_of :: "('k::linorder \<times> 'v) list \<Rightarrow> ('k, 'v) smap" where
  "smap_of es = smap_merge [] es"

lemma smap_wf_of [simp]: "smap_wf (smap_of es)"
  by (simp add: smap_of_def)

lemma smap_find_of: "smap_find (smap_of es) k = map_of (rev es) k"
  by (simp add: smap_of_def smap_merge_def smap.find_puts split: option.splits)

lemma smap_get_of: "smap_get d (smap_of es) k = (case map_of (rev es) k of None \<Rightarrow> d | Some v \<Rightarrow> v)"
  by (simp add: smap_get_def smap_find_of)

lemma smap_of_set: "(k, v) \<in> set (smap_of es) \<Longrightarrow> (k, v) \<in> set es"
  by (metis map_of_SomeD set_rev smap_find_entry smap_find_of smap_wf_of)

lemma smap_put_ne [simp]: "smap_put k v m \<noteq> []"
  by (cases m) auto

end
