(* ===== verification/Std_String.thy ===== *)
theory Std_String
  imports Prelude
begin

text \<open>
  The part of the C++ string library the program uses: character classes of the C locale,
  searching (\<^verbatim>\<open>std::string::find\<close>), slicing, trimming, whitespace tokenisation
  (\<^verbatim>\<open>std::istringstream >> tok\<close>), decimal printing (\<^verbatim>\<open>std::to_string\<close>) and the parsing
  functions of the \<^verbatim>\<open>std::stoi\<close> family.  \<^verbatim>\<open>npos\<close> is \<open>None\<close>; an exception thrown by a parsing
  function is \<open>None\<close> too, since every caller catches it.
\<close>

abbreviation code :: "char \<Rightarrow> nat" where
  "code c \<equiv> of_char c"

abbreviation dquote :: char where
  "dquote \<equiv> CHR 0x22"

subsection \<open>Character classes\<close>

definition is_space :: "char \<Rightarrow> bool" where
  "is_space c \<longleftrightarrow> code c = 32 \<or> 9 \<le> code c \<and> code c \<le> 13"

definition is_digit :: "char \<Rightarrow> bool" where
  "is_digit c \<longleftrightarrow> 48 \<le> code c \<and> code c \<le> 57"

definition is_upper :: "char \<Rightarrow> bool" where
  "is_upper c \<longleftrightarrow> 65 \<le> code c \<and> code c \<le> 90"

definition is_lower :: "char \<Rightarrow> bool" where
  "is_lower c \<longleftrightarrow> 97 \<le> code c \<and> code c \<le> 122"

definition is_alpha :: "char \<Rightarrow> bool" where
  "is_alpha c \<longleftrightarrow> is_upper c \<or> is_lower c"

definition is_alnum :: "char \<Rightarrow> bool" where
  "is_alnum c \<longleftrightarrow> is_alpha c \<or> is_digit c"

lemmas ctype_defs = is_space_def is_digit_def is_upper_def is_lower_def is_alpha_def is_alnum_def

subsection \<open>Searching\<close>

fun find_first :: "('a \<Rightarrow> bool) \<Rightarrow> 'a list \<Rightarrow> nat option" where
  "find_first P [] = None"
| "find_first P (x # xs) = (if P x then Some 0 else map_option Suc (find_first P xs))"

definition find_char :: "char \<Rightarrow> string \<Rightarrow> nat \<Rightarrow> nat option" where
  "find_char c s pos = map_option ((+) pos) (find_first (\<lambda>x. x = c) (drop pos s))"

fun find_prefix :: "string \<Rightarrow> string \<Rightarrow> nat option" where
  "find_prefix n [] = (if n = [] then Some 0 else None)"
| "find_prefix n (c # s) =
     (if take (length n) (c # s) = n then Some 0 else map_option Suc (find_prefix n s))"

definition find_str :: "string \<Rightarrow> string \<Rightarrow> nat \<Rightarrow> nat option" where
  "find_str n s pos =
     (if pos \<le> length s then map_option ((+) pos) (find_prefix n (drop pos s)) else None)"

definition contains :: "string \<Rightarrow> string \<Rightarrow> bool" where
  "contains n s \<longleftrightarrow> find_str n s 0 \<noteq> None"

definition substr :: "string \<Rightarrow> nat \<Rightarrow> nat \<Rightarrow> string" where
  "substr s pos n = take n (drop pos s)"

definition starts_with :: "string \<Rightarrow> string \<Rightarrow> bool" where
  "starts_with s p \<longleftrightarrow> length p \<le> length s \<and> take (length p) s = p"

lemma find_first_None: "find_first P xs = None \<longleftrightarrow> (\<forall>x \<in> set xs. \<not> P x)"
  by (induction xs) auto

lemma find_first_SomeD:
  "find_first P xs = Some i \<Longrightarrow> i < length xs \<and> P (xs ! i) \<and> (\<forall>j < i. \<not> P (xs ! j))"
proof (induction xs arbitrary: i)
  case (Cons x xs)
  show ?case
  proof (cases "P x")
    case True
    with Cons.prems show ?thesis by simp
  next
    case False
    with Cons.prems obtain k where k: "find_first P xs = Some k" "i = Suc k"
      by auto
    with False Cons.IH [of k] show ?thesis
      by (auto simp: nth_Cons split: nat.splits)
  qed
qed simp

lemma find_first_skip:
  "\<forall>x \<in> set xs. \<not> P x \<Longrightarrow> find_first P (xs @ ys) = map_option ((+) (length xs)) (find_first P ys)"
  by (cases "find_first P ys"; induction xs) auto

lemma find_first_hit: "\<forall>x \<in> set xs. \<not> P x \<Longrightarrow> P y \<Longrightarrow> find_first P (xs @ y # ys) = Some (length xs)"
  by (simp add: find_first_skip)

lemma find_char_hit: "c \<notin> set xs \<Longrightarrow> find_char c (xs @ c # ys) 0 = Some (length xs)"
  by (auto simp: find_char_def intro!: find_first_hit)

lemma find_char_None: "find_char c s i = None \<longleftrightarrow> c \<notin> set (drop i s)"
  by (auto simp: find_char_def find_first_None)

lemma find_char_miss: "c \<notin> set xs \<Longrightarrow> find_char c xs 0 = None"
  by (simp add: find_char_None)

lemma find_first_takeWhile:
  "find_first P xs = Some i \<Longrightarrow> take i xs = takeWhile (\<lambda>x. \<not> P x) xs"
  by (induction xs arbitrary: i) (auto split: if_splits)

lemma find_prefix_skip:
  "c \<notin> set xs \<Longrightarrow>
     find_prefix (c # n) (xs @ ys) = map_option ((+) (length xs)) (find_prefix (c # n) ys)"
  by (cases "find_prefix (c # n) ys"; induction xs) auto

lemma find_prefix_SomeD:
  "find_prefix n s = Some i \<Longrightarrow> i \<le> length s \<and> take (length n) (drop i s) = n"
  by (induction n s arbitrary: i rule: find_prefix.induct) (auto split: if_splits)

lemma find_prefix_NoneD:
  "find_prefix n s = None \<Longrightarrow> \<not> (\<exists>a b. s = a @ n @ b)"
proof (induction n s rule: find_prefix.induct)
  case (2 n c s)
  show ?case
  proof
    assume "\<exists>a b. c # s = a @ n @ b"
    then obtain a b where ab: "c # s = a @ n @ b" by blast
    show False
    proof (cases a)
      case Nil
      with ab have "take (length n) (c # s) = n" by simp
      with 2(2) show ?thesis by simp
    next
      case (Cons x a')
      with ab have "s = a' @ n @ b" by simp
      with 2 show ?thesis by (auto split: if_splits)
    qed
  qed
qed (simp split: if_splits)

subsection \<open>Trimming and whitespace tokenisation\<close>

definition trim :: "string \<Rightarrow> string" where
  "trim s = rev (dropWhile is_space (rev (dropWhile is_space s)))"

fun ws_tokens_aux :: "string \<Rightarrow> string \<Rightarrow> string list" where
  "ws_tokens_aux acc [] = (if acc = [] then [] else [rev acc])"
| "ws_tokens_aux acc (c # s) =
     (if is_space c then (if acc = [] then ws_tokens_aux [] s else rev acc # ws_tokens_aux [] s)
      else ws_tokens_aux (c # acc) s)"

definition ws_tokens :: "string \<Rightarrow> string list" where
  "ws_tokens s = ws_tokens_aux [] s"

lemma trim_no_space: "s = [] \<or> \<not> is_space (hd s) \<and> \<not> is_space (last s) \<Longrightarrow> trim s = s"
proof -
  assume h: "s = [] \<or> \<not> is_space (hd s) \<and> \<not> is_space (last s)"
  have 1: "dropWhile is_space s = s"
    using h by (cases s) auto
  have 2: "dropWhile is_space (rev s) = rev s"
    using h by (cases s rule: rev_cases) auto
  show ?thesis
    by (simp add: trim_def 1 2)
qed

lemma trim_clean: "\<forall>c \<in> set s. \<not> is_space c \<Longrightarrow> trim s = s"
  by (rule trim_no_space) (cases s, auto)

lemma trim_Nil [simp]: "trim [] = []"
  by (simp add: trim_def)

lemma dropWhile_rev_hd:
  "s \<noteq> [] \<Longrightarrow> \<not> P (hd s) \<Longrightarrow> dropWhile P (rev s) \<noteq> [] \<and> last (dropWhile P (rev s)) = hd s"
  by (cases s) (auto simp: dropWhile_append)

lemma trim_ends:
  assumes "trim s \<noteq> []"
  shows "\<not> is_space (hd (trim s)) \<and> \<not> is_space (last (trim s))"
proof -
  let ?l = "dropWhile is_space s"
  let ?r = "dropWhile is_space (rev ?l)"
  have r: "?r \<noteq> []"
    using assms by (simp add: trim_def)
  then have l: "?l \<noteq> []"
    by (metis dropWhile.simps(1) rev.simps(1))
  have 1: "\<not> is_space (hd ?r)"
    using r hd_dropWhile by blast
  have "\<not> is_space (hd ?l)"
    using l hd_dropWhile by blast
  then have "last ?r = hd ?l"
    using dropWhile_rev_hd [OF l] by blast
  with \<open>\<not> is_space (hd ?l)\<close> 1 r show ?thesis
    by (simp add: trim_def hd_rev last_rev)
qed

lemma trim_idem [simp]: "trim (trim s) = trim s"
  using trim_ends [of s] by (intro trim_no_space) blast

lemma ws_tokens_aux_clean:
  "\<forall>c \<in> set acc. \<not> is_space c \<Longrightarrow> t \<in> set (ws_tokens_aux acc s) \<Longrightarrow>
     t \<noteq> [] \<and> (\<forall>c \<in> set t. \<not> is_space c)"
proof (induction acc s rule: ws_tokens_aux.induct)
  case (1 acc)
  then show ?case by (simp split: if_splits)
next
  case (2 acc c s)
  show ?case
  proof (cases "is_space c")
    case True
    show ?thesis
    proof (cases "acc = []")
      case True
      with \<open>is_space c\<close> "2.IH"(1) "2.prems"(2) show ?thesis by simp
    next
      case False
      with \<open>is_space c\<close> "2.prems"(2) consider "t = rev acc" | "t \<in> set (ws_tokens_aux [] s)"
        by auto
      then show ?thesis
        using False \<open>is_space c\<close> "2.IH"(2) "2.prems"(1) by cases simp_all
    qed
  next
    case False
    with "2.IH"(3) "2.prems" show ?thesis by simp
  qed
qed

lemma ws_tokens_aux_word:
  "\<forall>c \<in> set w. \<not> is_space c \<Longrightarrow> ws_tokens_aux acc (w @ s) = ws_tokens_aux (rev w @ acc) s"
  by (induction w arbitrary: acc) auto

lemma ws_tokens_clean: "t \<in> set (ws_tokens s) \<Longrightarrow> t \<noteq> [] \<and> (\<forall>c \<in> set t. \<not> is_space c)"
  using ws_tokens_aux_clean [of "[]"] by (simp add: ws_tokens_def)

subsection \<open>Decimal numbers\<close>

definition digit_char :: "nat \<Rightarrow> char" where
  "digit_char d = char_of (48 + d)"

definition digit_val :: "char \<Rightarrow> nat" where
  "digit_val c = code c - 48"

fun nat_to_string :: "nat \<Rightarrow> string" where
  "nat_to_string n =
     (if n < 10 then [digit_char n] else nat_to_string (n div 10) @ [digit_char (n mod 10)])"

declare nat_to_string.simps [simp del]

definition int_to_string :: "int \<Rightarrow> string" where
  "int_to_string i = (if i < 0 then CHR ''-'' # nat_to_string (nat (- i)) else nat_to_string (nat i))"

definition dec_value :: "string \<Rightarrow> nat" where
  "dec_value ds = foldl (\<lambda>a c. a * 10 + digit_val c) 0 ds"

text \<open>\<open>strto_dec\<close> is the common front end of \<^verbatim>\<open>strtol\<close>, \<^verbatim>\<open>strtoll\<close> and \<^verbatim>\<open>strtoull\<close> in base 10:
  blanks, an optional sign, then the longest run of digits, which must not be empty.\<close>

definition strto_dec :: "string \<Rightarrow> (bool \<times> nat) option" where
  "strto_dec s =
     (let t = dropWhile is_space s;
          (neg, u) = (case t of [] \<Rightarrow> (False, t)
                      | c # r \<Rightarrow> if c = CHR ''-'' then (True, r)
                                  else if c = CHR ''+'' then (False, r) else (False, t));
          ds = takeWhile is_digit u
      in if ds = [] then None else Some (neg, dec_value ds))"

definition sto_int :: "nat \<Rightarrow> string \<Rightarrow> int option" where
  "sto_int w s = (case strto_dec s of None \<Rightarrow> None
     | Some (neg, n) \<Rightarrow>
         (let v = (if neg then - int n else int n)
          in if - (2 ^ (w - 1)) \<le> v \<and> v < 2 ^ (w - 1) then Some v else None))"

abbreviation stoi :: "string \<Rightarrow> int option" where
  "stoi \<equiv> sto_int 32"

abbreviation stoll :: "string \<Rightarrow> int option" where
  "stoll \<equiv> sto_int 64"

definition stoull :: "string \<Rightarrow> u64 option" where
  "stoull s = (case strto_dec s of None \<Rightarrow> None
     | Some (neg, n) \<Rightarrow> if n < 2 ^ 64 then Some (if neg then - of_nat n else of_nat n) else None)"

lemma code_digit_char [simp]: "d < 10 \<Longrightarrow> code (digit_char d) = 48 + d"
  by (simp add: digit_char_def)

lemma is_digit_digit_char [simp]: "d < 10 \<Longrightarrow> is_digit (digit_char d)"
  by (simp add: is_digit_def)

lemma digit_val_digit_char [simp]: "d < 10 \<Longrightarrow> digit_val (digit_char d) = d"
  by (simp add: digit_val_def)

lemma nat_to_string_digits: "\<forall>c \<in> set (nat_to_string n). is_digit c"
  by (induction n rule: nat_to_string.induct) (subst nat_to_string.simps, simp)

lemma nat_to_string_ne [simp]: "nat_to_string n \<noteq> []"
  by (subst nat_to_string.simps) simp

lemma dec_value_snoc: "dec_value (ds @ [c]) = dec_value ds * 10 + digit_val c"
  by (simp add: dec_value_def)

lemma dec_value_nat_to_string [simp]: "dec_value (nat_to_string n) = n"
proof (induction n rule: nat_to_string.induct)
  case (1 n)
  show ?case
  proof (cases "n < 10")
    case True
    then show ?thesis by (subst nat_to_string.simps) (simp add: dec_value_def)
  next
    case False
    with 1 show ?thesis by (subst nat_to_string.simps) (simp add: dec_value_snoc)
  qed
qed

lemma digit_not_space: "is_digit c \<Longrightarrow> \<not> is_space c"
  by (auto simp: is_digit_def is_space_def)

lemma digit_not_sign: "is_digit c \<Longrightarrow> c \<noteq> CHR ''-'' \<and> c \<noteq> CHR ''+''"
  by (auto simp: is_digit_def)

lemma strto_dec_digits:
  assumes "ds \<noteq> []" and "\<forall>c \<in> set ds. is_digit c" and "r = [] \<or> \<not> is_digit (hd r)"
  shows "strto_dec (ds @ r) = Some (False, dec_value ds)"
    and "strto_dec (CHR ''-'' # ds @ r) = Some (True, dec_value ds)"
proof -
  obtain d ds' where ds: "ds = d # ds'" using assms(1) by (cases ds) auto
  have d: "is_digit d" "\<not> is_space d" "d \<noteq> CHR ''-''" "d \<noteq> CHR ''+''"
    using assms(2) digit_not_space digit_not_sign by (auto simp: ds)
  have tw: "takeWhile is_digit (ds @ r) = ds"
    using assms(2,3) by (cases r) (auto simp: takeWhile_append2)
  show "strto_dec (ds @ r) = Some (False, dec_value ds)"
    using d tw by (simp add: strto_dec_def ds)
  have "\<not> is_space (CHR ''-'')" by (simp add: is_space_def)
  then show "strto_dec (CHR ''-'' # ds @ r) = Some (True, dec_value ds)"
    using d tw by (simp add: strto_dec_def ds)
qed

lemma sto_int_to_string [codec_simps]:
  assumes "- (2 ^ (w - 1)) \<le> i" and "i < 2 ^ (w - 1)"
  shows "sto_int w (int_to_string i) = Some i"
  using assms strto_dec_digits [of "nat_to_string (nat i)" "[]"]
    strto_dec_digits [of "nat_to_string (nat (- i))" "[]"]
  by (auto simp: sto_int_def int_to_string_def nat_to_string_digits)

end
