(* ===== verification/Maintenance_Records.thy ===== *)
theory Maintenance_Records
  imports Std_Map Std_String
begin

text \<open>
  The record types of the local maintenance database
  (\<^verbatim>\<open>code/include/hq/cerberus_local_maintenance_db.hpp\<close>) and their flat-map codecs
  \<^verbatim>\<open>to_map\<close> / \<^verbatim>\<open>from_map\<close> (\<^verbatim>\<open>code/src/cerberus_local_maintenance_db.cpp\<close>).

  Every table of the database stores flat string maps; the three structures
  \<open>TrustPolicy\<close>, \<open>InferenceRecord\<close> and \<open>FileVaultRecord\<close> are written through
  \<^verbatim>\<open>to_map\<close> and read back through \<^verbatim>\<open>from_map\<close>.  The contract between the two is the
  locale \<open>map_codec\<close>, interpreted for each structure.
\<close>

type_synonym str_map = "(string, string) smap"

subsection \<open>Trust policy\<close>

record TrustPolicy =
  tp_policy_id :: string
  tp_deployment_model :: string
  tp_credential_authority :: string
  tp_central_service_role :: string
  tp_medusaserv_role :: string
  tp_psiforcedb_role :: string
  tp_psmdb_owner_scope :: string
  tp_proprietary_boundary :: string
  tp_plaintext_storage :: string
  tp_maintenance_encryption_layer :: string
  tp_psmdb_recovery :: string
  tp_psmdb_reenrollment_model :: string
  tp_hash_suite :: string
  tp_pqc_profile :: string
  tp_hardware_binding :: string
  tp_authority_scope :: string
  tp_rbpc_pin_source :: string
  tp_rbpc_word_source :: string
  tp_rbpc_confirmation_window_seconds :: string
  tp_rbpc_failure_burn_threshold :: string
  tp_temporary_onboarding :: string
  tp_audit_scope :: string
  tp_step_up_model :: string
  tp_record_class :: string
  tp_created_at :: string
  tp_updated_at :: string

definition TrustPolicy_to_map :: "TrustPolicy \<Rightarrow> str_map" where
  "TrustPolicy_to_map r = smap_of [
     (''policy_id'', tp_policy_id r),
     (''deployment_model'', tp_deployment_model r),
     (''credential_authority'', tp_credential_authority r),
     (''central_service_role'', tp_central_service_role r),
     (''medusaserv_role'', tp_medusaserv_role r),
     (''psiforcedb_role'', tp_psiforcedb_role r),
     (''psmdb_owner_scope'', tp_psmdb_owner_scope r),
     (''proprietary_boundary'', tp_proprietary_boundary r),
     (''plaintext_storage'', tp_plaintext_storage r),
     (''maintenance_encryption_layer'', tp_maintenance_encryption_layer r),
     (''psmdb_recovery'', tp_psmdb_recovery r),
     (''psmdb_reenrollment_model'', tp_psmdb_reenrollment_model r),
     (''hash_suite'', tp_hash_suite r),
     (''pqc_profile'', tp_pqc_profile r),
     (''hardware_binding'', tp_hardware_binding r),
     (''authority_scope'', tp_authority_scope r),
     (''rbpc_pin_source'', tp_rbpc_pin_source r),
     (''rbpc_word_source'', tp_rbpc_word_source r),
     (''rbpc_confirmation_window_seconds'', tp_rbpc_confirmation_window_seconds r),
     (''rbpc_failure_burn_threshold'', tp_rbpc_failure_burn_threshold r),
     (''temporary_onboarding'', tp_temporary_onboarding r),
     (''audit_scope'', tp_audit_scope r),
     (''step_up_model'', tp_step_up_model r),
     (''record_class'', tp_record_class r),
     (''created_at'', tp_created_at r),
     (''updated_at'', tp_updated_at r)]"

definition TrustPolicy_from_map :: "str_map \<Rightarrow> TrustPolicy" where
  "TrustPolicy_from_map m = \<lparr>
     tp_policy_id = smap_get [] m ''policy_id'',
     tp_deployment_model = smap_get [] m ''deployment_model'',
     tp_credential_authority = smap_get [] m ''credential_authority'',
     tp_central_service_role = smap_get [] m ''central_service_role'',
     tp_medusaserv_role = smap_get [] m ''medusaserv_role'',
     tp_psiforcedb_role = smap_get [] m ''psiforcedb_role'',
     tp_psmdb_owner_scope = smap_get [] m ''psmdb_owner_scope'',
     tp_proprietary_boundary = smap_get [] m ''proprietary_boundary'',
     tp_plaintext_storage = smap_get [] m ''plaintext_storage'',
     tp_maintenance_encryption_layer = smap_get [] m ''maintenance_encryption_layer'',
     tp_psmdb_recovery = smap_get [] m ''psmdb_recovery'',
     tp_psmdb_reenrollment_model = smap_get [] m ''psmdb_reenrollment_model'',
     tp_hash_suite = smap_get [] m ''hash_suite'',
     tp_pqc_profile = smap_get [] m ''pqc_profile'',
     tp_hardware_binding = smap_get [] m ''hardware_binding'',
     tp_authority_scope = smap_get [] m ''authority_scope'',
     tp_rbpc_pin_source = smap_get [] m ''rbpc_pin_source'',
     tp_rbpc_word_source = smap_get [] m ''rbpc_word_source'',
     tp_rbpc_confirmation_window_seconds = smap_get [] m ''rbpc_confirmation_window_seconds'',
     tp_rbpc_failure_burn_threshold = smap_get [] m ''rbpc_failure_burn_threshold'',
     tp_temporary_onboarding = smap_get [] m ''temporary_onboarding'',
     tp_audit_scope = smap_get [] m ''audit_scope'',
     tp_step_up_model = smap_get [] m ''step_up_model'',
     tp_record_class = smap_get [] m ''record_class'',
     tp_created_at = smap_get [] m ''created_at'',
     tp_updated_at = smap_get [] m ''updated_at''\<rparr>"

definition default_policy :: TrustPolicy where
  "default_policy = \<lparr>
     tp_policy_id = ''cerberus_rbpc_trust_default'',
     tp_deployment_model = ''component_optional'',
     tp_credential_authority = ''server_isolated'',
     tp_central_service_role = ''relay_directory_update_only'',
     tp_medusaserv_role = ''open_protocol_verifier'',
     tp_psiforcedb_role = ''sealed_psmdb_authority_when_installed'',
     tp_psmdb_owner_scope = ''d_hargreaves_only'',
     tp_proprietary_boundary = ''sealed_vault_private'',
     tp_plaintext_storage = ''forbidden'',
     tp_maintenance_encryption_layer = ''lamia_fabrica_owned_required'',
     tp_psmdb_recovery = ''forbidden'',
     tp_psmdb_reenrollment_model = ''rebuild_not_recover'',
     tp_hash_suite = ''BLAKE3+SHA256'',
     tp_pqc_profile = ''hybrid_pqc_required'',
     tp_hardware_binding = ''required'',
     tp_authority_scope = ''local_login_pfql_medusaserv_psiforcedb_admin'',
     tp_rbpc_pin_source = ''system_issued'',
     tp_rbpc_word_source = ''user_memorized'',
     tp_rbpc_confirmation_window_seconds = ''30'',
     tp_rbpc_failure_burn_threshold = ''3'',
     tp_temporary_onboarding = ''sealed_expiring_consumed_local'',
     tp_audit_scope = ''local_psmdb'',
     tp_step_up_model = ''partial_disclosure_rbpc'',
     tp_record_class = ''rbpc_trust_policy'',
     tp_created_at = [],
     tp_updated_at = []\<rparr>"

definition keeps_local_authority :: "TrustPolicy \<Rightarrow> bool" where
  "keeps_local_authority p \<longleftrightarrow>
     tp_plaintext_storage p = ''forbidden'' \<and>
     tp_psmdb_recovery p = ''forbidden'' \<and>
     tp_credential_authority p \<noteq> ''central_only''"

subsection \<open>Inference history record\<close>

record InferenceRecord =
  ir_inference_id :: string
  ir_session_id :: string
  ir_prompt :: string
  ir_result_summary :: string
  ir_status :: string
  ir_timestamp :: string
  ir_generation_time_ms :: string
  ir_width :: string
  ir_height :: string
  ir_num_steps :: string
  ir_guidance_scale :: string
  ir_encoder_name :: string
  ir_post_processor_name :: string
  ir_gpu_backend_name :: string
  ir_text_encode_used_npu :: string
  ir_denoise_used_gpu :: string
  ir_vae_decode_used_gpu :: string
  ir_post_process_used_npu :: string
  ir_unet_denoise_used_npu :: string
  ir_npu_cheap_ops_percent :: string
  ir_recovery_attempts :: string
  ir_node_id :: string

definition InferenceRecord_to_map :: "InferenceRecord \<Rightarrow> str_map" where
  "InferenceRecord_to_map r = smap_of [
     (''inference_id'', ir_inference_id r),
     (''session_id'', ir_session_id r),
     (''prompt'', ir_prompt r),
     (''result_summary'', ir_result_summary r),
     (''status'', ir_status r),
     (''timestamp'', ir_timestamp r),
     (''generation_time_ms'', ir_generation_time_ms r),
     (''width'', ir_width r),
     (''height'', ir_height r),
     (''num_steps'', ir_num_steps r),
     (''guidance_scale'', ir_guidance_scale r),
     (''encoder_name'', ir_encoder_name r),
     (''post_processor_name'', ir_post_processor_name r),
     (''gpu_backend_name'', ir_gpu_backend_name r),
     (''text_encode_used_npu'', ir_text_encode_used_npu r),
     (''denoise_used_gpu'', ir_denoise_used_gpu r),
     (''vae_decode_used_gpu'', ir_vae_decode_used_gpu r),
     (''post_process_used_npu'', ir_post_process_used_npu r),
     (''unet_denoise_used_npu'', ir_unet_denoise_used_npu r),
     (''npu_cheap_ops_percent'', ir_npu_cheap_ops_percent r),
     (''recovery_attempts'', ir_recovery_attempts r),
     (''node_id'', ir_node_id r),
     (''record_class'', ''inference_record''),
     (''plaintext_storage'', ''forbidden'')]"

definition InferenceRecord_from_map :: "str_map \<Rightarrow> InferenceRecord" where
  "InferenceRecord_from_map m = \<lparr>
     ir_inference_id = smap_get [] m ''inference_id'',
     ir_session_id = smap_get [] m ''session_id'',
     ir_prompt = smap_get [] m ''prompt'',
     ir_result_summary = smap_get [] m ''result_summary'',
     ir_status = smap_get [] m ''status'',
     ir_timestamp = smap_get [] m ''timestamp'',
     ir_generation_time_ms = smap_get [] m ''generation_time_ms'',
     ir_width = smap_get [] m ''width'',
     ir_height = smap_get [] m ''height'',
     ir_num_steps = smap_get [] m ''num_steps'',
     ir_guidance_scale = smap_get [] m ''guidance_scale'',
     ir_encoder_name = smap_get [] m ''encoder_name'',
     ir_post_processor_name = smap_get [] m ''post_processor_name'',
     ir_gpu_backend_name = smap_get [] m ''gpu_backend_name'',
     ir_text_encode_used_npu = smap_get [] m ''text_encode_used_npu'',
     ir_denoise_used_gpu = smap_get [] m ''denoise_used_gpu'',
     ir_vae_decode_used_gpu = smap_get [] m ''vae_decode_used_gpu'',
     ir_post_process_used_npu = smap_get [] m ''post_process_used_npu'',
     ir_unet_denoise_used_npu = smap_get [] m ''unet_denoise_used_npu'',
     ir_npu_cheap_ops_percent = smap_get [] m ''npu_cheap_ops_percent'',
     ir_recovery_attempts = smap_get [] m ''recovery_attempts'',
     ir_node_id = smap_get [] m ''node_id''\<rparr>"

subsection \<open>File vault record\<close>

record FileVaultRecord =
  fv_file_id :: string
  fv_project_name :: string
  fv_folder_path :: string
  fv_original_name :: string
  fv_encrypted_disk_path :: string
  fv_size_bytes :: string
  fv_mime_type :: string
  fv_thumbnail_base64 :: string
  fv_created_at :: string
  fv_last_accessed :: string
  fv_jwt_audience :: string
  fv_permission_level :: string
  fv_encryption_iv :: string
  fv_encryption_tag :: string
  fv_status :: string
  fv_node_id :: string

definition FileVaultRecord_to_map :: "FileVaultRecord \<Rightarrow> str_map" where
  "FileVaultRecord_to_map r = smap_of [
     (''file_id'', fv_file_id r),
     (''project_name'', fv_project_name r),
     (''folder_path'', fv_folder_path r),
     (''original_name'', fv_original_name r),
     (''encrypted_disk_path'', fv_encrypted_disk_path r),
     (''size_bytes'', fv_size_bytes r),
     (''mime_type'', fv_mime_type r),
     (''thumbnail_base64'', fv_thumbnail_base64 r),
     (''created_at'', fv_created_at r),
     (''last_accessed'', fv_last_accessed r),
     (''jwt_audience'', fv_jwt_audience r),
     (''permission_level'', fv_permission_level r),
     (''encryption_iv'', fv_encryption_iv r),
     (''encryption_tag'', fv_encryption_tag r),
     (''status'', fv_status r),
     (''node_id'', fv_node_id r),
     (''record_class'', ''file_vault_record''),
     (''plaintext_storage'', ''forbidden'')]"

definition FileVaultRecord_from_map :: "str_map \<Rightarrow> FileVaultRecord" where
  "FileVaultRecord_from_map m = \<lparr>
     fv_file_id = smap_get [] m ''file_id'',
     fv_project_name = smap_get [] m ''project_name'',
     fv_folder_path = smap_get [] m ''folder_path'',
     fv_original_name = smap_get [] m ''original_name'',
     fv_encrypted_disk_path = smap_get [] m ''encrypted_disk_path'',
     fv_size_bytes = smap_get [] m ''size_bytes'',
     fv_mime_type = smap_get [] m ''mime_type'',
     fv_thumbnail_base64 = smap_get [] m ''thumbnail_base64'',
     fv_created_at = smap_get [] m ''created_at'',
     fv_last_accessed = smap_get [] m ''last_accessed'',
     fv_jwt_audience = smap_get [] m ''jwt_audience'',
     fv_permission_level = smap_get [] m ''permission_level'',
     fv_encryption_iv = smap_get [] m ''encryption_iv'',
     fv_encryption_tag = smap_get [] m ''encryption_tag'',
     fv_status = smap_get [] m ''status'',
     fv_node_id = smap_get [] m ''node_id''\<rparr>"

subsection \<open>RBPC state\<close>

text \<open>The per-node PIN state with its burn policy; \<^verbatim>\<open>int\<close> and \<^verbatim>\<open>std::time_t\<close> are integers whose
  ranges are stated where a conversion depends on them.\<close>

record RBPCState =
  rs_node_id :: string
  rs_pin_hash :: string
  rs_salt :: string
  rs_failed_attempts :: int
  rs_burned :: bool
  rs_last_auth_timestamp :: int
  rs_created_at :: int

definition is_active :: "RBPCState \<Rightarrow> bool" where
  "is_active st \<longleftrightarrow> \<not> rs_burned st \<and> rs_failed_attempts st < 3"

subsection \<open>The codec contract\<close>

locale map_codec =
  fixes to_map :: "'r \<Rightarrow> str_map"
    and from_map :: "str_map \<Rightarrow> 'r"
  assumes from_to: "from_map (to_map r) = r"
    and to_wf: "smap_wf (to_map r)"
    and to_keys: "(k, v) \<in> set (to_map r) \<Longrightarrow> k \<noteq> []"
begin

lemma to_map_inject: "to_map r = to_map r' \<Longrightarrow> r = r'"
  by (metis from_to)

lemma to_map_find_ne: "smap_find (to_map r) [] = None"
  by (metis not_None_eq smap_find_in_set to_keys)

text \<open>Storing a structure in a table and loading it returns it; other rows are untouched.\<close>

lemma load_store:
  "map_option from_map (smap_find (smap_put k (to_map r) t) k')
     = (if k' = k then Some r else map_option from_map (smap_find t k'))"
  by (simp add: from_to)

end

lemma smap_of_keys: "(k, v) \<in> set (smap_of es) \<Longrightarrow> k \<in> fst ` set es"
  by (metis fst_conv image_eqI smap_of_set)

interpretation trust_policy: map_codec TrustPolicy_to_map TrustPolicy_from_map
proof
  show "TrustPolicy_from_map (TrustPolicy_to_map r) = r" for r
    by (simp add: TrustPolicy_to_map_def TrustPolicy_from_map_def smap_get_of)
qed (auto simp: TrustPolicy_to_map_def dest: smap_of_keys)

interpretation inference_record: map_codec InferenceRecord_to_map InferenceRecord_from_map
proof
  show "InferenceRecord_from_map (InferenceRecord_to_map r) = r" for r
    by (simp add: InferenceRecord_to_map_def InferenceRecord_from_map_def smap_get_of)
qed (auto simp: InferenceRecord_to_map_def dest: smap_of_keys)

interpretation file_vault_record: map_codec FileVaultRecord_to_map FileVaultRecord_from_map
proof
  show "FileVaultRecord_from_map (FileVaultRecord_to_map r) = r" for r
    by (simp add: FileVaultRecord_to_map_def FileVaultRecord_from_map_def smap_get_of)
qed (auto simp: FileVaultRecord_to_map_def dest: smap_of_keys)

end
