(* ===== verification/Maintenance_DB.thy ===== *)
theory Maintenance_DB
  imports Maintenance_Records
begin

text \<open>
  The in-memory part of the local maintenance database: class \<^verbatim>\<open>LocalMaintenanceDB\<close> of
  \<^verbatim>\<open>code/src/cerberus_local_maintenance_db.cpp\<close>.

  The state record has one field per data member.  Every operation is one definition that takes
  the state and returns the new one (with the C++ return value first); the system clock is the
  argument \<open>now\<close>, in seconds since the epoch.  The mutex of the class makes each operation one
  atomic step, so a history of calls is a sequence of these functions.  Disk persistence is in
  \<open>Maintenance_Store\<close>.
\<close>

type_synonym table = "(string, str_map) smap"

record SyncRecord =
  sr_table :: string
  sr_key :: string
  sr_record :: str_map
  sr_queued_at :: int

record MaintenanceDB =
  db_initialized :: bool
  db_path :: string
  db_key :: "byte list"
  db_offline :: bool
  db_dirty :: bool
  db_licenses :: table
  db_extension_entries :: table
  db_revenue_records :: table
  db_reviews :: table
  db_extension_stats :: table
  db_credential_records :: table
  db_audit_events :: table
  db_rbpc_state_records :: table
  db_vip_keys :: table
  db_onboarding_grants :: table
  db_preferences :: str_map
  db_revoked_hashes :: str_map
  db_trust_policy :: "TrustPolicy option"
  db_inference_records :: table
  db_file_vault_records :: table
  db_sync_queue :: "SyncRecord list"

definition empty_db :: MaintenanceDB where
  "empty_db = \<lparr>
     db_initialized = False, db_path = [], db_key = [], db_offline = False, db_dirty = False,
     db_licenses = [], db_extension_entries = [], db_revenue_records = [], db_reviews = [],
     db_extension_stats = [], db_credential_records = [], db_audit_events = [],
     db_rbpc_state_records = [], db_vip_keys = [], db_onboarding_grants = [],
     db_preferences = [], db_revoked_hashes = [], db_trust_policy = None,
     db_inference_records = [], db_file_vault_records = [], db_sync_queue = []\<rparr>"

subsection \<open>Dirty flag, offline mode and the sync queue\<close>

definition mark_dirty :: "MaintenanceDB \<Rightarrow> MaintenanceDB" where
  "mark_dirty db = db\<lparr>db_dirty := True\<rparr>"

definition set_offline_mode :: "bool \<Rightarrow> MaintenanceDB \<Rightarrow> MaintenanceDB" where
  "set_offline_mode b db = db\<lparr>db_offline := b\<rparr>"

definition pending_sync_count :: "MaintenanceDB \<Rightarrow> nat" where
  "pending_sync_count db = length (db_sync_queue db)"

definition queue_for_sync ::
  "int \<Rightarrow> string \<Rightarrow> string \<Rightarrow> str_map \<Rightarrow> MaintenanceDB \<Rightarrow> MaintenanceDB" where
  "queue_for_sync now tbl key rec db =
     db\<lparr>db_sync_queue := db_sync_queue db @
          [\<lparr>sr_table = tbl, sr_key = key, sr_record = rec, sr_queued_at = now\<rparr>]\<rparr>"

text \<open>The tail \<^verbatim>\<open>mark_dirty_(); if (offline_mode_) queue_for_sync(...);\<close> of the store
  operations.\<close>

definition commit_row ::
  "int \<Rightarrow> string \<Rightarrow> string \<Rightarrow> str_map \<Rightarrow> MaintenanceDB \<Rightarrow> MaintenanceDB" where
  "commit_row now tbl key rec db =
     (let db1 = mark_dirty db
      in if db_offline db1 then queue_for_sync now tbl key rec db1 else db1)"

text \<open>The replay callback is supplied by the caller; it may keep a state of its own, succeed,
  fail, or throw (\<open>None\<close>).  The loop keeps the records that were not replayed, in order.\<close>

type_synonym 's callback = "string \<Rightarrow> string \<Rightarrow> str_map \<Rightarrow> 's \<Rightarrow> bool option \<times> 's"

fun replay_loop ::
  "'s callback \<Rightarrow> nat \<Rightarrow> nat \<Rightarrow> SyncRecord list \<Rightarrow> 's \<Rightarrow> nat \<times> SyncRecord list \<times> 's" where
  "replay_loop cb limit replayed [] s = (replayed, [], s)"
| "replay_loop cb limit replayed (r # rs) s =
     (if replayed < limit then
        (case cb (sr_table r) (sr_key r) (sr_record r) s of
           (Some True, s') \<Rightarrow> replay_loop cb limit (Suc replayed) rs s'
         | (_, s') \<Rightarrow>
             (let (n, rem, s'') = replay_loop cb limit replayed rs s' in (n, r # rem, s'')))
      else (let (n, rem, s'') = replay_loop cb limit replayed rs s in (n, r # rem, s'')))"

definition replay_sync_queue ::
  "'s callback \<Rightarrow> nat \<Rightarrow> MaintenanceDB \<Rightarrow> 's \<Rightarrow> nat \<times> MaintenanceDB \<times> 's" where
  "replay_sync_queue cb max_records db s =
     (if db_sync_queue db = [] then (0, db, s)
      else let limit = (if max_records = 0 then length (db_sync_queue db)
                        else min max_records (length (db_sync_queue db)));
               (n, rem, s') = replay_loop cb limit 0 (db_sync_queue db) s
           in (n, db\<lparr>db_sync_queue := rem\<rparr>, s'))"

subsection \<open>Licences\<close>

definition license_key :: "string \<Rightarrow> string \<Rightarrow> string" where
  "license_key extension_id user_id = extension_id @ '':'' @ user_id"

definition store_license ::
  "int \<Rightarrow> string \<Rightarrow> string \<Rightarrow> string \<Rightarrow> string \<Rightarrow> int \<Rightarrow> str_map \<Rightarrow> MaintenanceDB
     \<Rightarrow> bool \<times> MaintenanceDB" where
  "store_license now extension_id license_key_hash user_id license_type expires_at metadata db =
     (if \<not> db_initialized db \<or> extension_id = [] \<or> license_key_hash = [] then (False, db)
      else let rec = smap_merge (smap_of [
                 (''extension_id'', extension_id),
                 (''license_key_hash'', license_key_hash),
                 (''user_id'', user_id),
                 (''license_type'', license_type),
                 (''expires_at'', int_to_string expires_at)]) metadata;
               key = license_key extension_id user_id
           in (True, commit_row now ''licenses'' key rec
                 (db\<lparr>db_licenses := smap_put key rec (db_licenses db)\<rparr>)))"

definition load_license :: "string \<Rightarrow> string \<Rightarrow> MaintenanceDB \<Rightarrow> str_map" where
  "load_license extension_id user_id db =
     smap_get [] (db_licenses db) (license_key extension_id user_id)"

definition revoke_license ::
  "int \<Rightarrow> string \<Rightarrow> string \<Rightarrow> MaintenanceDB \<Rightarrow> bool \<times> MaintenanceDB" where
  "revoke_license now license_key_hash reason db =
     (if \<not> db_initialized db then (False, db)
      else let r = (if reason = [] then ''revoked'' else reason)
           in (True, commit_row now ''license_revocations'' license_key_hash
                 (smap_of [(''hash'', license_key_hash), (''reason'', r)])
                 (db\<lparr>db_revoked_hashes := smap_put license_key_hash r (db_revoked_hashes db)\<rparr>)))"

definition is_license_revoked :: "string \<Rightarrow> MaintenanceDB \<Rightarrow> bool" where
  "is_license_revoked license_key_hash db \<longleftrightarrow> smap_count (db_revoked_hashes db) license_key_hash"

subsection \<open>Extension store, revenue, reviews, statistics\<close>

definition store_extension_entry ::
  "int \<Rightarrow> str_map \<Rightarrow> MaintenanceDB \<Rightarrow> bool \<times> MaintenanceDB" where
  "store_extension_entry now entry db =
     (if \<not> db_initialized db \<or> entry = [] then (False, db)
      else case smap_find entry ''extension_id'' of
             None \<Rightarrow> (False, db)
           | Some i \<Rightarrow>
               if i = [] then (False, db)
               else (True, commit_row now ''extension_entries'' i entry
                       (db\<lparr>db_extension_entries := smap_put i entry (db_extension_entries db)\<rparr>)))"

definition load_extension_entry :: "string \<Rightarrow> MaintenanceDB \<Rightarrow> str_map" where
  "load_extension_entry extension_id db = smap_get [] (db_extension_entries db) extension_id"

definition field_is :: "str_map \<Rightarrow> string \<Rightarrow> string \<Rightarrow> bool" where
  "field_is rec k v \<longleftrightarrow> smap_find rec k = Some v"

definition search_extension_entries ::
  "string \<Rightarrow> str_map \<Rightarrow> MaintenanceDB \<Rightarrow> str_map list" where
  "search_extension_entries query filters db =
     filter (\<lambda>entry. list_all (\<lambda>(fk, fv). field_is entry fk fv) filters \<and>
                     (query = [] \<or> list_ex (\<lambda>(k, v). contains query k \<or> contains query v) entry))
            (map snd (db_extension_entries db))"

definition store_revenue_share_record ::
  "int \<Rightarrow> str_map \<Rightarrow> MaintenanceDB \<Rightarrow> bool \<times> MaintenanceDB" where
  "store_revenue_share_record now rec db =
     (if \<not> db_initialized db \<or> rec = [] then (False, db)
      else let key = (case smap_find rec ''record_id'' of Some i \<Rightarrow> i
                      | None \<Rightarrow> ''rev_'' @ nat_to_string (length (db_revenue_records db)))
           in (True, commit_row now ''revenue_records'' key rec
                 (db\<lparr>db_revenue_records := smap_put key rec (db_revenue_records db)\<rparr>)))"

definition load_revenue_share_records :: "string \<Rightarrow> string \<Rightarrow> MaintenanceDB \<Rightarrow> str_map list" where
  "load_revenue_share_records extension_id user_id db =
     filter (\<lambda>rec. (extension_id = [] \<or> field_is rec ''extension_id'' extension_id) \<and>
                   (user_id = [] \<or> field_is rec ''user_id'' user_id))
            (map snd (db_revenue_records db))"

definition store_review :: "int \<Rightarrow> str_map \<Rightarrow> MaintenanceDB \<Rightarrow> bool \<times> MaintenanceDB" where
  "store_review now review db =
     (if \<not> db_initialized db \<or> review = [] then (False, db)
      else let key = (case smap_find review ''review_id'' of Some i \<Rightarrow> i
                      | None \<Rightarrow> ''review_'' @ nat_to_string (length (db_reviews db)))
           in (True, commit_row now ''reviews'' key review
                 (db\<lparr>db_reviews := smap_put key review (db_reviews db)\<rparr>)))"

text \<open>The bounded table scan: rows that do not match are skipped, and the scan stops as soon as
  \<open>limit\<close> rows were collected when \<open>limit\<close> is positive.\<close>

fun scan_limit :: "int \<Rightarrow> ('a \<Rightarrow> 'b option) \<Rightarrow> nat \<Rightarrow> 'a list \<Rightarrow> 'b list" where
  "scan_limit limit f n [] = []"
| "scan_limit limit f n (x # xs) =
     (case f x of None \<Rightarrow> scan_limit limit f n xs
      | Some y \<Rightarrow> y # (if 0 < limit \<and> limit \<le> int (Suc n) then []
                        else scan_limit limit f (Suc n) xs))"

definition load_reviews :: "string \<Rightarrow> int \<Rightarrow> MaintenanceDB \<Rightarrow> str_map list" where
  "load_reviews extension_id limit db =
     scan_limit limit
       (\<lambda>(k, rec). if extension_id = [] \<or> field_is rec ''extension_id'' extension_id
                   then Some rec else None) 0 (db_reviews db)"

definition update_extension_stats ::
  "int \<Rightarrow> string \<Rightarrow> str_map \<Rightarrow> MaintenanceDB \<Rightarrow> bool \<times> MaintenanceDB" where
  "update_extension_stats now extension_id stats db =
     (if \<not> db_initialized db \<or> extension_id = [] then (False, db)
      else (True, commit_row now ''extension_stats'' extension_id stats
              (db\<lparr>db_extension_stats := smap_put extension_id stats (db_extension_stats db)\<rparr>)))"

definition get_extension_stats :: "string \<Rightarrow> MaintenanceDB \<Rightarrow> str_map" where
  "get_extension_stats extension_id db = smap_get [] (db_extension_stats db) extension_id"

subsection \<open>VIP keys\<close>

definition store_vip_key ::
  "int \<Rightarrow> string \<Rightarrow> string \<Rightarrow> string \<Rightarrow> int \<Rightarrow> MaintenanceDB \<Rightarrow> bool \<times> MaintenanceDB" where
  "store_vip_key now key_hash encrypted_metadata encrypted_key expiration_timestamp db =
     (if \<not> db_initialized db \<or> key_hash = [] then (False, db)
      else let rec = smap_of [
                 (''key_hash'', key_hash),
                 (''encrypted_metadata'', encrypted_metadata),
                 (''encrypted_key'', encrypted_key),
                 (''expiration_timestamp'', int_to_string expiration_timestamp),
                 (''record_class'', ''vip_key''),
                 (''plaintext_storage'', ''forbidden'')]
           in (True, commit_row now ''vip_keys'' key_hash rec
                 (db\<lparr>db_vip_keys := smap_put key_hash rec (db_vip_keys db)\<rparr>)))"

definition load_vip_key :: "string \<Rightarrow> MaintenanceDB \<Rightarrow> str_map" where
  "load_vip_key key_hash db = smap_get [] (db_vip_keys db) key_hash"

definition vip_key_exists :: "string \<Rightarrow> MaintenanceDB \<Rightarrow> bool" where
  "vip_key_exists key_hash db \<longleftrightarrow> smap_count (db_vip_keys db) key_hash"

definition update_vip_key_status ::
  "int \<Rightarrow> string \<Rightarrow> str_map \<Rightarrow> MaintenanceDB \<Rightarrow> bool \<times> MaintenanceDB" where
  "update_vip_key_status now key_hash status_data db =
     (if \<not> db_initialized db \<or> key_hash = [] then (False, db)
      else case smap_find (db_vip_keys db) key_hash of
             None \<Rightarrow> (False, db)
           | Some rec \<Rightarrow>
               (let rec' = smap_merge rec status_data
                in (True, commit_row now ''vip_keys'' key_hash rec'
                      (db\<lparr>db_vip_keys := smap_put key_hash rec' (db_vip_keys db)\<rparr>))))"

definition get_all_vip_key_hashes :: "MaintenanceDB \<Rightarrow> string list" where
  "get_all_vip_key_hashes db = map fst (db_vip_keys db)"

subsection \<open>Onboarding grants\<close>

definition store_onboarding_grant ::
  "int \<Rightarrow> str_map \<Rightarrow> MaintenanceDB \<Rightarrow> bool \<times> MaintenanceDB" where
  "store_onboarding_grant now grant db =
     (if \<not> db_initialized db \<or> grant = [] then (False, db)
      else let key = (case smap_find grant ''grant_id'' of Some i \<Rightarrow> i
                      | None \<Rightarrow> ''grant_'' @ nat_to_string (length (db_onboarding_grants db)));
               safe1 = smap_put ''plaintext_storage'' ''forbidden''
                         (smap_put ''record_class'' ''rbpc_onboarding_grant'' grant);
               safe = (if smap_count safe1 ''consumed'' then safe1
                       else smap_put ''consumed'' ''false'' safe1)
           in (True, commit_row now ''onboarding_grants'' key safe
                 (db\<lparr>db_onboarding_grants := smap_put key safe (db_onboarding_grants db)\<rparr>)))"

definition load_onboarding_grant :: "string \<Rightarrow> MaintenanceDB \<Rightarrow> str_map" where
  "load_onboarding_grant grant_id db = smap_get [] (db_onboarding_grants db) grant_id"

definition consume_onboarding_grant ::
  "int \<Rightarrow> string \<Rightarrow> string \<Rightarrow> string \<Rightarrow> MaintenanceDB \<Rightarrow> bool \<times> MaintenanceDB" where
  "consume_onboarding_grant now grant_id consumed_by reason db =
     (if \<not> db_initialized db \<or> grant_id = [] then (False, db)
      else case smap_find (db_onboarding_grants db) grant_id of
             None \<Rightarrow> (False, db)
           | Some grant \<Rightarrow>
               (let grant' = smap_put ''consumed_at'' (int_to_string now)
                     (smap_put ''consumed_reason'' (if reason = [] then ''consumed'' else reason)
                     (smap_put ''consumed_by'' consumed_by
                     (smap_put ''consumed'' ''true'' grant)))
                in (True, db\<lparr>db_onboarding_grants :=
                            smap_put grant_id grant' (db_onboarding_grants db)\<rparr>)))"

definition load_onboarding_grants_for_user ::
  "string \<Rightarrow> bool \<Rightarrow> MaintenanceDB \<Rightarrow> str_map list" where
  "load_onboarding_grants_for_user user_id include_consumed db =
     filter (\<lambda>grant. field_is grant ''user_id'' user_id \<and>
                     (include_consumed \<or> \<not> field_is grant ''consumed'' ''true''))
            (map snd (db_onboarding_grants db))"

subsection \<open>Trust policy\<close>

definition store_trust_policy ::
  "int \<Rightarrow> TrustPolicy \<Rightarrow> MaintenanceDB \<Rightarrow> bool \<times> MaintenanceDB" where
  "store_trust_policy now policy db =
     (if \<not> db_initialized db then (False, db)
      else (True, commit_row now ''trust_policy'' ''trust_policy'' (TrustPolicy_to_map policy)
              (db\<lparr>db_trust_policy := Some policy\<rparr>)))"

definition load_trust_policy :: "MaintenanceDB \<Rightarrow> TrustPolicy" where
  "load_trust_policy db = (case db_trust_policy db of Some p \<Rightarrow> p | None \<Rightarrow> \<lparr>
     tp_policy_id = ''cerberus_rbpc_trust_default'',
     tp_deployment_model = ''component_optional'',
     tp_credential_authority = ''server_isolated'',
     tp_central_service_role = ''relay_directory_update_only'',
     tp_medusaserv_role = ''open_protocol_verifier'',
     tp_psiforcedb_role = ''sealed_psmdb_authority_when_installed'',
     tp_psmdb_owner_scope = ''d_hargreaves_only'',
     tp_proprietary_boundary = ''sealed_vault_private'',
     tp_plaintext_storage = ''forbidden'',
     tp_maintenance_encryption_layer = ''lamia_fabrica_owned_required'',
     tp_psmdb_recovery = ''forbidden'',
     tp_psmdb_reenrollment_model = ''rebuild_not_recover'',
     tp_hash_suite = ''BLAKE3+SHA256'',
     tp_pqc_profile = ''hybrid_pqc_required'',
     tp_hardware_binding = ''required'',
     tp_authority_scope = ''local_login_pfql_medusaserv_psiforcedb_admin'',
     tp_rbpc_pin_source = ''system_issued'',
     tp_rbpc_word_source = ''user_memorized'',
     tp_rbpc_confirmation_window_seconds = ''30'',
     tp_rbpc_failure_burn_threshold = ''3'',
     tp_temporary_onboarding = ''sealed_expiring_consumed_local'',
     tp_audit_scope = ''local_psmdb'',
     tp_step_up_model = ''partial_disclosure_rbpc'',
     tp_record_class = ''rbpc_trust_policy'',
     tp_created_at = [],
     tp_updated_at = []\<rparr>)"

subsection \<open>Credential records\<close>

definition keep_or :: "string \<Rightarrow> string \<Rightarrow> str_map \<Rightarrow> str_map" where
  "keep_or k d m = smap_put k (if smap_count m k then smap_get [] m k else d) m"

definition credential_safe :: "int \<Rightarrow> str_map \<Rightarrow> str_map" where
  "credential_safe now rec =
     (let s1 = smap_put ''record_class'' ''rbpc_credential_commitments''
                (smap_put ''proprietary_boundary'' ''sealed_vault_private''
                (smap_put ''credential_authority'' ''server_isolated''
                (smap_put ''plaintext_storage'' ''forbidden'' rec)));
          s2 = keep_or ''pqc_profile'' ''hybrid_pqc_required''
                (keep_or ''hash_suite'' ''BLAKE3+SHA256'' s1);
          s3 = smap_put ''step_up_model'' ''partial_disclosure_rbpc''
                (smap_put ''hardware_binding'' ''required'' s2);
          s4 = (if smap_count s3 ''created_at'' then s3
                else smap_put ''created_at'' (int_to_string now) s3)
      in smap_put ''updated_at'' (int_to_string now) s4)"

definition store_credential_record ::
  "int \<Rightarrow> str_map \<Rightarrow> MaintenanceDB \<Rightarrow> bool \<times> MaintenanceDB" where
  "store_credential_record now rec db =
     (if \<not> db_initialized db \<or> rec = [] then (False, db)
      else case (smap_find rec ''user_id'', smap_find rec ''token_id'') of
             (Some u, Some tok) \<Rightarrow>
               (let key = u @ '':'' @ tok; safe = credential_safe now rec
                in (True, commit_row now ''credential_records'' key safe
                      (db\<lparr>db_credential_records := smap_put key safe (db_credential_records db)\<rparr>)))
           | _ \<Rightarrow> (False, db))"

definition load_credential_record :: "string \<Rightarrow> string \<Rightarrow> MaintenanceDB \<Rightarrow> str_map" where
  "load_credential_record user_id token_id db =
     smap_get [] (db_credential_records db) (user_id @ '':'' @ token_id)"

subsection \<open>RBPC state with the burn policy\<close>

definition bool_string :: "bool \<Rightarrow> string" where
  "bool_string b = (if b then ''true'' else ''false'')"

definition rbpc_to_map :: "RBPCState \<Rightarrow> str_map" where
  "rbpc_to_map st = smap_of [
     (''node_id'', rs_node_id st),
     (''pin_hash'', rs_pin_hash st),
     (''salt'', rs_salt st),
     (''failed_attempts'', int_to_string (rs_failed_attempts st)),
     (''burned'', bool_string (rs_burned st)),
     (''last_auth_timestamp'', int_to_string (rs_last_auth_timestamp st)),
     (''created_at'', int_to_string (rs_created_at st)),
     (''plaintext_storage'', ''forbidden''),
     (''record_class'', ''rbpc_state'')]"

definition save_rbpc_state :: "int \<Rightarrow> RBPCState \<Rightarrow> MaintenanceDB \<Rightarrow> bool \<times> MaintenanceDB" where
  "save_rbpc_state now st db =
     (if \<not> db_initialized db \<or> rs_node_id st = [] \<or> rs_pin_hash st = [] then (False, db)
      else (True, commit_row now ''rbpc_state'' (rs_node_id st) (rbpc_to_map st)
              (db\<lparr>db_rbpc_state_records :=
                    smap_put (rs_node_id st) (rbpc_to_map st) (db_rbpc_state_records db)\<rparr>)))"

definition or_zero :: "int option \<Rightarrow> int" where
  "or_zero v = (case v of None \<Rightarrow> 0 | Some i \<Rightarrow> i)"

definition rbpc_from_map :: "string \<Rightarrow> str_map \<Rightarrow> RBPCState" where
  "rbpc_from_map node_id rec = \<lparr>
     rs_node_id = node_id,
     rs_pin_hash = smap_get [] rec ''pin_hash'',
     rs_salt = smap_get [] rec ''salt'',
     rs_failed_attempts = or_zero (stoi (smap_get [] rec ''failed_attempts'')),
     rs_burned = (smap_get [] rec ''burned'' = ''true''),
     rs_last_auth_timestamp = or_zero (stoll (smap_get [] rec ''last_auth_timestamp'')),
     rs_created_at = or_zero (stoll (smap_get [] rec ''created_at''))\<rparr>"

definition load_rbpc_state :: "string \<Rightarrow> MaintenanceDB \<Rightarrow> RBPCState option" where
  "load_rbpc_state node_id db =
     map_option (rbpc_from_map node_id) (smap_find (db_rbpc_state_records db) node_id)"

text \<open>\<open>smap_touch\<close> is the side effect of reading \<^verbatim>\<open>rec[k]\<close>: a missing key appears with the empty
  string.  The sum \<^verbatim>\<open>attempts + 1\<close> is kept unbounded; in C++ it is undefined at \<^verbatim>\<open>INT_MAX\<close>.\<close>

definition smap_touch :: "string \<Rightarrow> str_map \<Rightarrow> str_map" where
  "smap_touch k m = (if smap_count m k then m else smap_put k [] m)"

definition bump_failed :: "string \<Rightarrow> str_map \<Rightarrow> str_map" where
  "bump_failed node_id rec =
     (if rec = [] then smap_of [
          (''node_id'', node_id),
          (''failed_attempts'', ''1''),
          (''burned'', ''false''),
          (''plaintext_storage'', ''forbidden''),
          (''record_class'', ''rbpc_state'')]
      else let attempts = or_zero (stoi (smap_get [] rec ''failed_attempts''));
               rec1 = smap_put ''failed_attempts'' (int_to_string (attempts + 1)) rec;
               threshold = (case stoi (smap_get [] rec1 ''burn_threshold'') of
                              None \<Rightarrow> 3 | Some v \<Rightarrow> v);
               rec2 = smap_touch ''burn_threshold'' rec1
           in if threshold \<le> attempts + 1 then smap_put ''burned'' ''true'' rec2 else rec2)"

definition increment_rbpc_failed_attempts ::
  "string \<Rightarrow> MaintenanceDB \<Rightarrow> bool \<times> MaintenanceDB" where
  "increment_rbpc_failed_attempts node_id db =
     (True, db\<lparr>db_rbpc_state_records :=
              smap_put node_id (bump_failed node_id (smap_get [] (db_rbpc_state_records db) node_id))
                (db_rbpc_state_records db)\<rparr>)"

definition burn_record :: "string \<Rightarrow> str_map \<Rightarrow> str_map" where
  "burn_record node_id rec =
     smap_put ''record_class'' ''rbpc_state''
       (smap_put ''plaintext_storage'' ''forbidden''
       (smap_put ''burned'' ''true''
         (if rec = [] then smap_of [(''node_id'', node_id), (''failed_attempts'', ''3'')] else rec)))"

definition set_rbpc_burned :: "string \<Rightarrow> MaintenanceDB \<Rightarrow> bool \<times> MaintenanceDB" where
  "set_rbpc_burned node_id db =
     (True, db\<lparr>db_rbpc_state_records :=
              smap_put node_id (burn_record node_id (smap_get [] (db_rbpc_state_records db) node_id))
                (db_rbpc_state_records db)\<rparr>)"

subsection \<open>Audit events\<close>

definition store_audit_event ::
  "int \<Rightarrow> str_map \<Rightarrow> MaintenanceDB \<Rightarrow> bool \<times> MaintenanceDB" where
  "store_audit_event now event db =
     (if \<not> db_initialized db then (False, db)
      else if \<not> smap_count event ''user_id'' \<or> \<not> smap_count event ''event_type'' then (False, db)
      else let event_id = (case smap_find event ''event_id'' of
                 None \<Rightarrow> ''audit_'' @ nat_to_string (length (db_audit_events db))
               | Some i \<Rightarrow> if i = [] then ''audit_'' @ nat_to_string (length (db_audit_events db))
                           else i);
               rec1 = smap_put ''credential_material_present'' ''false''
                     (smap_put ''plaintext_storage'' ''forbidden''
                     (smap_put ''audit_scope'' ''local_psmdb''
                     (smap_put ''record_class'' ''rbpc_audit_event''
                     (smap_put ''event_id'' event_id event))));
               rec = (if smap_count rec1 ''timestamp'' then rec1
                      else smap_put ''timestamp'' (int_to_string now) rec1)
           in (True, commit_row now ''audit_events'' event_id rec
                 (db\<lparr>db_audit_events := smap_put event_id rec (db_audit_events db)\<rparr>)))"

definition load_audit_events :: "string \<Rightarrow> string \<Rightarrow> int \<Rightarrow> MaintenanceDB \<Rightarrow> str_map list" where
  "load_audit_events user_id token_id limit db =
     scan_limit limit
       (\<lambda>(k, ev). if (user_id = [] \<or> field_is ev ''user_id'' user_id) \<and>
                     (token_id = [] \<or> field_is ev ''token_id'' token_id)
                  then Some ev else None) 0 (db_audit_events db)"

subsection \<open>Preferences\<close>

definition store_preference :: "string \<Rightarrow> string \<Rightarrow> MaintenanceDB \<Rightarrow> bool \<times> MaintenanceDB" where
  "store_preference key value db =
     (if \<not> db_initialized db \<or> key = [] then (False, db)
      else (True, mark_dirty (db\<lparr>db_preferences := smap_put key value (db_preferences db)\<rparr>)))"

definition load_preference :: "string \<Rightarrow> MaintenanceDB \<Rightarrow> string" where
  "load_preference key db = smap_get [] (db_preferences db) key"

subsection \<open>Inference history\<close>

definition store_inference_record ::
  "int \<Rightarrow> InferenceRecord \<Rightarrow> MaintenanceDB \<Rightarrow> bool \<times> MaintenanceDB" where
  "store_inference_record now r db =
     (if \<not> db_initialized db \<or> ir_inference_id r = [] then (False, db)
      else (True, commit_row now ''inference_records'' (ir_inference_id r) (InferenceRecord_to_map r)
              (db\<lparr>db_inference_records := smap_put (ir_inference_id r) (InferenceRecord_to_map r)
                    (db_inference_records db)\<rparr>)))"

definition load_inference_record :: "string \<Rightarrow> MaintenanceDB \<Rightarrow> InferenceRecord option" where
  "load_inference_record inference_id db =
     map_option InferenceRecord_from_map (smap_find (db_inference_records db) inference_id)"

definition query_inference_records ::
  "int \<Rightarrow> int \<Rightarrow> nat \<Rightarrow> MaintenanceDB \<Rightarrow> InferenceRecord list" where
  "query_inference_records since until limit db =
     scan_limit (int limit)
       (\<lambda>(k, m). case smap_find m ''timestamp'' of None \<Rightarrow> None
          | Some s \<Rightarrow> (case stoll s of None \<Rightarrow> None
              | Some ts \<Rightarrow> if since \<le> ts \<and> ts \<le> until
                           then Some (InferenceRecord_from_map m) else None)) 0
       (db_inference_records db)"

definition clear_inference_records :: "MaintenanceDB \<Rightarrow> bool \<times> MaintenanceDB" where
  "clear_inference_records db = (True, mark_dirty (db\<lparr>db_inference_records := []\<rparr>))"

subsection \<open>File vault\<close>

definition store_file_record ::
  "int \<Rightarrow> FileVaultRecord \<Rightarrow> MaintenanceDB \<Rightarrow> bool \<times> MaintenanceDB" where
  "store_file_record now r db =
     (if \<not> db_initialized db \<or> fv_file_id r = [] then (False, db)
      else (True, commit_row now ''file_vault'' (fv_file_id r) (FileVaultRecord_to_map r)
              (db\<lparr>db_file_vault_records := smap_put (fv_file_id r) (FileVaultRecord_to_map r)
                    (db_file_vault_records db)\<rparr>)))"

definition load_file_record :: "string \<Rightarrow> MaintenanceDB \<Rightarrow> FileVaultRecord option" where
  "load_file_record file_id db =
     map_option FileVaultRecord_from_map (smap_find (db_file_vault_records db) file_id)"

definition update_file_status ::
  "int \<Rightarrow> string \<Rightarrow> string \<Rightarrow> MaintenanceDB \<Rightarrow> bool \<times> MaintenanceDB" where
  "update_file_status now file_id status db =
     (case smap_find (db_file_vault_records db) file_id of
        None \<Rightarrow> (False, db)
      | Some m \<Rightarrow>
          (let m' = smap_put ''status'' status m
           in (True, commit_row now ''file_vault'' file_id m'
                 (db\<lparr>db_file_vault_records := smap_put file_id m' (db_file_vault_records db)\<rparr>))))"

definition delete_file_record ::
  "int \<Rightarrow> string \<Rightarrow> MaintenanceDB \<Rightarrow> bool \<times> MaintenanceDB" where
  "delete_file_record now file_id db =
     (case smap_find (db_file_vault_records db) file_id of
        None \<Rightarrow> (False, db)
      | Some m \<Rightarrow>
          (let m' = smap_put ''status'' ''deleted'' m
           in (True, commit_row now ''file_vault'' file_id m'
                 (db\<lparr>db_file_vault_records := smap_put file_id m' (db_file_vault_records db)\<rparr>))))"

definition update_file_accessed ::
  "int \<Rightarrow> string \<Rightarrow> MaintenanceDB \<Rightarrow> bool \<times> MaintenanceDB" where
  "update_file_accessed now file_id db =
     (case smap_find (db_file_vault_records db) file_id of
        None \<Rightarrow> (False, db)
      | Some m \<Rightarrow>
          (True, mark_dirty (db\<lparr>db_file_vault_records :=
             smap_put file_id (smap_put ''last_accessed'' (int_to_string now) m)
               (db_file_vault_records db)\<rparr>)))"

definition query_files_by_project ::
  "string \<Rightarrow> string \<Rightarrow> string \<Rightarrow> MaintenanceDB \<Rightarrow> FileVaultRecord list" where
  "query_files_by_project project_name folder_path status_filter db =
     map FileVaultRecord_from_map
       (filter (\<lambda>m. field_is m ''project_name'' project_name \<and>
                    (folder_path = [] \<or> field_is m ''folder_path'' folder_path) \<and>
                    (status_filter = [] \<or> field_is m ''status'' status_filter))
               (map snd (db_file_vault_records db)))"

fun collect_projects :: "string list \<Rightarrow> str_map list \<Rightarrow> string list" where
  "collect_projects out [] = out"
| "collect_projects out (m # ms) =
     (if field_is m ''status'' ''deleted'' then collect_projects out ms
      else case smap_find m ''project_name'' of
             None \<Rightarrow> collect_projects out ms
           | Some p \<Rightarrow> if p \<in> set out then collect_projects out ms
                        else collect_projects (out @ [p]) ms)"

definition list_projects :: "MaintenanceDB \<Rightarrow> string list" where
  "list_projects db = collect_projects [] (map snd (db_file_vault_records db))"

definition count_status :: "string \<Rightarrow> str_map list \<Rightarrow> nat" where
  "count_status s ms = length (filter (\<lambda>m. field_is m ''status'' s) ms)"

text \<open>\<^verbatim>\<open>total_size\<close> is a \<^verbatim>\<open>std::size_t\<close>: the sum wraps, and a negative literal is accepted by
  \<^verbatim>\<open>std::stoull\<close>.\<close>

definition total_size_of :: "str_map list \<Rightarrow> u64" where
  "total_size_of ms = foldl (\<lambda>acc m. case smap_find m ''size_bytes'' of None \<Rightarrow> acc
     | Some s \<Rightarrow> (case stoull s of None \<Rightarrow> acc | Some v \<Rightarrow> acc + v)) 0 ms"

definition file_vault_stats :: "MaintenanceDB \<Rightarrow> str_map" where
  "file_vault_stats db =
     (let ms = map snd (db_file_vault_records db)
      in smap_of [
           (''total_count'', nat_to_string (length (db_file_vault_records db))),
           (''active_count'', nat_to_string (count_status ''active'' ms)),
           (''quarantined_count'', nat_to_string (count_status ''quarantined'' ms)),
           (''deleted_count'', nat_to_string (count_status ''deleted'' ms)),
           (''total_size_bytes'', nat_to_string (unat (total_size_of ms)))])"

end
