(* ===== verification/Maintenance_Ops.thy ===== *)
theory Maintenance_Ops
  imports Maintenance_DB
begin

text \<open>
  Histories of calls on the maintenance database, and what every call keeps.

  \<open>db_op\<close> has one constructor per state-changing public operation of
  \<^verbatim>\<open>LocalMaintenanceDB\<close> (the operations on the disk image are in \<open>Maintenance_Store\<close>);
  \<open>run_op\<close> dispatches to the definition of the operation and \<open>run_ops\<close> runs a history.  The
  theory proves the well-formedness invariant of the tables, which writes the sync queue logs, and what a
  replay of the queue does.
\<close>

datatype db_op =
    SetOffline bool
  | StoreLicense int string string string string int str_map
  | RevokeLicense int string string
  | StoreExtensionEntry int str_map
  | StoreRevenue int str_map
  | StoreReview int str_map
  | UpdateExtensionStats int string str_map
  | StoreVipKey int string string string int
  | UpdateVipKeyStatus int string str_map
  | StoreGrant int str_map
  | ConsumeGrant int string string string
  | StoreTrustPolicy int TrustPolicy
  | StoreCredential int str_map
  | SaveRbpc int RBPCState
  | IncrementRbpc string
  | BurnRbpc string
  | StoreAudit int str_map
  | StorePreference string string
  | StoreInference int InferenceRecord
  | ClearInference
  | StoreFile int FileVaultRecord
  | UpdateFileStatus int string string
  | DeleteFile int string
  | UpdateFileAccessed int string

fun run_op :: "db_op \<Rightarrow> MaintenanceDB \<Rightarrow> bool \<times> MaintenanceDB" where
  "run_op (SetOffline b) db = (True, set_offline_mode b db)"
| "run_op (StoreLicense now e h u ty ex md) db = store_license now e h u ty ex md db"
| "run_op (RevokeLicense now h r) db = revoke_license now h r db"
| "run_op (StoreExtensionEntry now m) db = store_extension_entry now m db"
| "run_op (StoreRevenue now m) db = store_revenue_share_record now m db"
| "run_op (StoreReview now m) db = store_review now m db"
| "run_op (UpdateExtensionStats now e m) db = update_extension_stats now e m db"
| "run_op (StoreVipKey now h em ek ex) db = store_vip_key now h em ek ex db"
| "run_op (UpdateVipKeyStatus now h m) db = update_vip_key_status now h m db"
| "run_op (StoreGrant now m) db = store_onboarding_grant now m db"
| "run_op (ConsumeGrant now g who r) db = consume_onboarding_grant now g who r db"
| "run_op (StoreTrustPolicy now p) db = store_trust_policy now p db"
| "run_op (StoreCredential now m) db = store_credential_record now m db"
| "run_op (SaveRbpc now st) db = save_rbpc_state now st db"
| "run_op (IncrementRbpc n) db = increment_rbpc_failed_attempts n db"
| "run_op (BurnRbpc n) db = set_rbpc_burned n db"
| "run_op (StoreAudit now m) db = store_audit_event now m db"
| "run_op (StorePreference k v) db = store_preference k v db"
| "run_op (StoreInference now r) db = store_inference_record now r db"
| "run_op ClearInference db = clear_inference_records db"
| "run_op (StoreFile now r) db = store_file_record now r db"
| "run_op (UpdateFileStatus now f s) db = update_file_status now f s db"
| "run_op (DeleteFile now f) db = delete_file_record now f db"
| "run_op (UpdateFileAccessed now f) db = update_file_accessed now f db"

fun run_ops :: "db_op list \<Rightarrow> MaintenanceDB \<Rightarrow> MaintenanceDB" where
  "run_ops [] db = db"
| "run_ops (c # cs) db = run_ops cs (snd (run_op c db))"

text \<open>The maps the caller passes in are \<^verbatim>\<open>std::map\<close> values, that is, ordered.\<close>

fun op_args_wf :: "db_op \<Rightarrow> bool" where
  "op_args_wf (StoreLicense now e h u ty ex md) = smap_wf md"
| "op_args_wf (StoreExtensionEntry now m) = smap_wf m"
| "op_args_wf (StoreRevenue now m) = smap_wf m"
| "op_args_wf (StoreReview now m) = smap_wf m"
| "op_args_wf (UpdateExtensionStats now e m) = smap_wf m"
| "op_args_wf (UpdateVipKeyStatus now h m) = smap_wf m"
| "op_args_wf (StoreGrant now m) = smap_wf m"
| "op_args_wf (StoreCredential now m) = smap_wf m"
| "op_args_wf (StoreAudit now m) = smap_wf m"
| "op_args_wf _ = True"

subsection \<open>Operations as a bundle of rewrite rules\<close>

lemmas store_op_defs =
  store_license_def revoke_license_def store_extension_entry_def store_revenue_share_record_def
  store_review_def update_extension_stats_def store_vip_key_def update_vip_key_status_def
  store_onboarding_grant_def consume_onboarding_grant_def store_trust_policy_def
  store_credential_record_def save_rbpc_state_def increment_rbpc_failed_attempts_def
  set_rbpc_burned_def store_audit_event_def store_preference_def store_inference_record_def
  clear_inference_records_def store_file_record_def update_file_status_def
  delete_file_record_def update_file_accessed_def set_offline_mode_def

lemma commit_row_fields [simp]:
  "db_initialized (commit_row now t k r db) = db_initialized db"
  "db_path (commit_row now t k r db) = db_path db"
  "db_key (commit_row now t k r db) = db_key db"
  "db_offline (commit_row now t k r db) = db_offline db"
  "db_dirty (commit_row now t k r db) = True"
  "db_licenses (commit_row now t k r db) = db_licenses db"
  "db_extension_entries (commit_row now t k r db) = db_extension_entries db"
  "db_revenue_records (commit_row now t k r db) = db_revenue_records db"
  "db_reviews (commit_row now t k r db) = db_reviews db"
  "db_extension_stats (commit_row now t k r db) = db_extension_stats db"
  "db_credential_records (commit_row now t k r db) = db_credential_records db"
  "db_audit_events (commit_row now t k r db) = db_audit_events db"
  "db_rbpc_state_records (commit_row now t k r db) = db_rbpc_state_records db"
  "db_vip_keys (commit_row now t k r db) = db_vip_keys db"
  "db_onboarding_grants (commit_row now t k r db) = db_onboarding_grants db"
  "db_preferences (commit_row now t k r db) = db_preferences db"
  "db_revoked_hashes (commit_row now t k r db) = db_revoked_hashes db"
  "db_trust_policy (commit_row now t k r db) = db_trust_policy db"
  "db_inference_records (commit_row now t k r db) = db_inference_records db"
  "db_file_vault_records (commit_row now t k r db) = db_file_vault_records db"
  by (simp_all add: commit_row_def mark_dirty_def queue_for_sync_def Let_def)

lemma commit_row_queue:
  "db_sync_queue (commit_row now t k r db) =
     (if db_offline db
      then db_sync_queue db @ [\<lparr>sr_table = t, sr_key = k, sr_record = r, sr_queued_at = now\<rparr>]
      else db_sync_queue db)"
  by (simp add: commit_row_def mark_dirty_def queue_for_sync_def)

lemma mark_dirty_fields [simp]:
  "db_initialized (mark_dirty db) = db_initialized db"
  "db_offline (mark_dirty db) = db_offline db"
  "db_sync_queue (mark_dirty db) = db_sync_queue db"
  "db_dirty (mark_dirty db) = True"
  "db_preferences (mark_dirty db) = db_preferences db"
  "db_inference_records (mark_dirty db) = db_inference_records db"
  "db_file_vault_records (mark_dirty db) = db_file_vault_records db"
  by (simp_all add: mark_dirty_def)

subsection \<open>Well-formed tables\<close>

definition rows_wf :: "table \<Rightarrow> bool" where
  "rows_wf t \<longleftrightarrow> smap_wf t \<and> (\<forall>e \<in> set t. smap_wf (snd e))"

definition db_wf :: "MaintenanceDB \<Rightarrow> bool" where
  "db_wf db \<longleftrightarrow>
     rows_wf (db_licenses db) \<and> rows_wf (db_extension_entries db) \<and>
     rows_wf (db_revenue_records db) \<and> rows_wf (db_reviews db) \<and>
     rows_wf (db_extension_stats db) \<and> rows_wf (db_credential_records db) \<and>
     rows_wf (db_audit_events db) \<and> rows_wf (db_rbpc_state_records db) \<and>
     rows_wf (db_vip_keys db) \<and> rows_wf (db_onboarding_grants db) \<and>
     rows_wf (db_inference_records db) \<and> rows_wf (db_file_vault_records db) \<and>
     smap_wf (db_preferences db) \<and> smap_wf (db_revoked_hashes db)"

lemma set_smap_put_subset: "set (smap_put k v m) \<subseteq> insert (k, v) (set m)"
  by (induction k v m rule: smap_put.induct) auto

lemma rows_wf_Nil [simp]: "rows_wf []"
  by (simp add: rows_wf_def)

lemma rows_wf_put [simp]: "rows_wf t \<Longrightarrow> smap_wf r \<Longrightarrow> rows_wf (smap_put k r t)"
  using set_smap_put_subset [of k r t] by (fastforce simp: rows_wf_def)

lemma rows_wf_find: "rows_wf t \<Longrightarrow> smap_find t k = Some r \<Longrightarrow> smap_wf r"
  by (force simp: rows_wf_def dest: smap_find_in_set)

lemma rows_wf_get: "rows_wf t \<Longrightarrow> smap_wf (smap_get [] t k)"
  by (auto simp: smap_get_def intro: rows_wf_find split: option.splits)

lemma smap_wf_touch [simp]: "smap_wf m \<Longrightarrow> smap_wf (smap_touch k m)"
  by (simp add: smap_touch_def)

lemma smap_wf_bump_failed [simp]: "smap_wf r \<Longrightarrow> smap_wf (bump_failed n r)"
  by (simp add: bump_failed_def Let_def)

lemma smap_wf_burn_record [simp]: "smap_wf r \<Longrightarrow> smap_wf (burn_record n r)"
  by (simp add: burn_record_def)

lemma smap_wf_credential_safe [simp]: "smap_wf r \<Longrightarrow> smap_wf (credential_safe now r)"
  by (simp add: credential_safe_def keep_or_def Let_def)

lemma smap_wf_to_maps [simp]:
  "smap_wf (rbpc_to_map st)"
  "smap_wf (InferenceRecord_to_map ir)"
  "smap_wf (FileVaultRecord_to_map fv)"
  "smap_wf (TrustPolicy_to_map tp)"
  by (simp_all add: rbpc_to_map_def inference_record.to_wf file_vault_record.to_wf
      trust_policy.to_wf)

lemma db_wf_empty: "db_wf empty_db"
  by (simp add: db_wf_def empty_db_def)

lemma run_op_wf: "db_wf db \<Longrightarrow> op_args_wf c \<Longrightarrow> db_wf (snd (run_op c db))"
  by (cases c)
     (auto simp: store_op_defs db_wf_def Let_def mark_dirty_def rows_wf_get
        intro!: rows_wf_put smap_wf_put smap_wf_merge elim: rows_wf_find split: option.splits)

text \<open>Well-formedness of the maintenance database is an invariant: from any well-formed state,
  every history of state-changing calls with ordered-map arguments keeps every table, and every row
  of every table, a strictly key-ordered map.\<close>

theorem run_ops_wf:
  "db_wf db \<Longrightarrow> \<forall>c \<in> set cs. op_args_wf c \<Longrightarrow> db_wf (run_ops cs db)"
  by (induction cs arbitrary: db) (auto intro: run_op_wf)

theorem run_ops_wf_witness:
  "db_wf (run_ops [StoreReview 7 [(''review_id'', ''r'')], BurnRbpc ''n'']
     (empty_db\<lparr>db_initialized := True\<rparr>))"
  by (rule run_ops_wf) (simp_all add: db_wf_def empty_db_def smap_wf_def)

text \<open>A write that reports failure has no effect: whenever one of the operations of \<open>db_op\<close> returns
  \<^verbatim>\<open>false\<close>, the whole state (tables, dirty flag, sync queue) is unchanged.  (\<^verbatim>\<open>initialize\<close> is not one of
  them: it clears path and key when it fails, see \<open>Maintenance_Store\<close>.)\<close>

theorem failed_op_no_effect:
  "fst (run_op c db) \<or> snd (run_op c db) = db"
  by (cases c) (auto simp: store_op_defs Let_def split: option.splits)

subsection \<open>The sync queue\<close>

text \<open>\<open>table_row\<close> reads the row that a queued record names back from the state;
  \<open>synced_op\<close> lists the operations whose body ends in \<^verbatim>\<open>queue_for_sync\<close>.\<close>

definition table_row :: "string \<Rightarrow> string \<Rightarrow> MaintenanceDB \<Rightarrow> str_map option" where
  "table_row t k db =
     (if t = ''licenses'' then smap_find (db_licenses db) k
      else if t = ''license_revocations'' then
        map_option (\<lambda>r. smap_of [(''hash'', k), (''reason'', r)]) (smap_find (db_revoked_hashes db) k)
      else if t = ''extension_entries'' then smap_find (db_extension_entries db) k
      else if t = ''revenue_records'' then smap_find (db_revenue_records db) k
      else if t = ''reviews'' then smap_find (db_reviews db) k
      else if t = ''extension_stats'' then smap_find (db_extension_stats db) k
      else if t = ''vip_keys'' then smap_find (db_vip_keys db) k
      else if t = ''onboarding_grants'' then smap_find (db_onboarding_grants db) k
      else if t = ''trust_policy'' then map_option TrustPolicy_to_map (db_trust_policy db)
      else if t = ''credential_records'' then smap_find (db_credential_records db) k
      else if t = ''rbpc_state'' then smap_find (db_rbpc_state_records db) k
      else if t = ''audit_events'' then smap_find (db_audit_events db) k
      else if t = ''inference_records'' then smap_find (db_inference_records db) k
      else if t = ''file_vault'' then smap_find (db_file_vault_records db) k
      else None)"

fun synced_op :: "db_op \<Rightarrow> bool" where
  "synced_op (SetOffline b) = False"
| "synced_op (ConsumeGrant now g who r) = False"
| "synced_op (IncrementRbpc n) = False"
| "synced_op (BurnRbpc n) = False"
| "synced_op (StorePreference k v) = False"
| "synced_op ClearInference = False"
| "synced_op (UpdateFileAccessed now f) = False"
| "synced_op _ = True"

definition queued_faithfully :: "MaintenanceDB \<Rightarrow> MaintenanceDB \<Rightarrow> bool" where
  "queued_faithfully db db' \<longleftrightarrow>
     (\<exists>r. db_sync_queue db' = db_sync_queue db @ [r] \<and>
          table_row (sr_table r) (sr_key r) db' = Some (sr_record r))"

text \<open>What the sync queue logs: when one of the operations that call \<^verbatim>\<open>queue_for_sync\<close> succeeds in
  offline mode exactly one record is appended and it is the row as it now stands in its table; in
  every other case the queue is unchanged.  Six operations that change a table never queue anything:
  preferences, consuming a grant, counting and burning in the RBPC state, clearing the inference
  records and the access time of a file.\<close>

theorem sync_queue_contract:
  "if fst (run_op c db) \<and> db_offline db \<and> synced_op c
   then queued_faithfully db (snd (run_op c db))
   else db_sync_queue (snd (run_op c db)) = db_sync_queue db"
  by (cases c)
     (auto simp: store_op_defs Let_def queued_faithfully_def commit_row_queue table_row_def
        split: option.splits)

fun dirtying_op :: "db_op \<Rightarrow> bool" where
  "dirtying_op (SetOffline b) = False"
| "dirtying_op (ConsumeGrant now g who r) = False"
| "dirtying_op (IncrementRbpc n) = False"
| "dirtying_op (BurnRbpc n) = False"
| "dirtying_op _ = True"

lemma run_op_dirty:
  "db_dirty (snd (run_op c db)) \<longleftrightarrow> db_dirty db \<or> fst (run_op c db) \<and> dirtying_op c"
  by (cases c) (auto simp: store_op_defs Let_def split: option.splits)

text \<open>A trace of a replay: for every record of the queue whether it was accepted, and the state of
  the callback before every record and at the end.  As long as fewer than \<open>limit\<close> records have been
  accepted the callback is called on the next record, which is marked when the answer is \<^verbatim>\<open>true\<close> (an
  exception is \<open>None\<close>); afterwards it is not called any more.\<close>

definition replay_trace ::
  "'s callback \<Rightarrow> nat \<Rightarrow> nat \<Rightarrow> SyncRecord list \<Rightarrow> bool list \<Rightarrow> 's list \<Rightarrow> bool" where
  "replay_trace cb limit n q marks ss \<longleftrightarrow>
     length marks = length q \<and> length ss = Suc (length q) \<and>
     (\<forall>i < length q.
        if n + length (filter (\<lambda>m. m) (take i marks)) < limit
        then (case cb (sr_table (q ! i)) (sr_key (q ! i)) (sr_record (q ! i)) (ss ! i) of
                (res, s1) \<Rightarrow> marks ! i = (res = Some True) \<and> ss ! Suc i = s1)
        else \<not> marks ! i \<and> ss ! Suc i = ss ! i)"

definition unmarked :: "bool list \<Rightarrow> 'a list \<Rightarrow> 'a list" where
  "unmarked marks q = map fst (filter (\<lambda>(r, m). \<not> m) (zip q marks))"

lemma replay_trace_Cons:
  "replay_trace cb l n (r # rs) (m # ms) (s # ss) \<longleftrightarrow>
     ss \<noteq> [] \<and> replay_trace cb l (if m then Suc n else n) rs ms ss \<and>
     (if n < l
      then (case cb (sr_table r) (sr_key r) (sr_record r) s of
              (res, s1) \<Rightarrow> m = (res = Some True) \<and> hd ss = s1)
      else \<not> m \<and> hd ss = s)"
  by (cases ss) (auto simp: replay_trace_def All_less_Suc2 split: prod.splits)

lemma replay_loop_trace:
  "replay_loop cb l n q s = (m, rem, s') \<Longrightarrow>
     \<exists>marks ss. replay_trace cb l n q marks ss \<and> hd ss = s \<and> last ss = s' \<and>
       m = n + length (filter (\<lambda>m. m) marks) \<and> rem = unmarked marks q"
proof (induction q arbitrary: n s m rem)
  case Nil
  then have "replay_trace cb l n [] [] [s]" by (simp add: replay_trace_def)
  with Nil show ?case by (intro exI [of _ "[]"] exI [of _ "[s]"]) (simp add: unmarked_def)
next
  case (Cons r rs)
  obtain res s1 where cb: "cb (sr_table r) (sr_key r) (sr_record r) s = (res, s1)"
    by fastforce
  define acc where "acc \<longleftrightarrow> n < l \<and> res = Some True"
  define s2 where "s2 = (if n < l then s1 else s)"
  obtain m' rem' where rest: "replay_loop cb l (if acc then Suc n else n) rs s2 = (m', rem', s')"
      and out: "m = m'" "rem = (if acc then rem' else r # rem')"
    using Cons.prems cb by (auto simp: acc_def s2_def split: if_splits option.splits bool.splits prod.splits)
  from Cons.IH [OF rest] obtain marks ss where tr: "replay_trace cb l (if acc then Suc n else n) rs marks ss"
      and ends: "hd ss = s2" "last ss = s'" "m' = (if acc then Suc n else n) + length (filter (\<lambda>m. m) marks)"
      and rem': "rem' = unmarked marks rs"
    by blast
  from tr have "ss \<noteq> []" by (auto simp: replay_trace_def)
  with tr ends cb have "replay_trace cb l n (r # rs) (acc # marks) (s # ss)"
    by (auto simp: replay_trace_Cons acc_def s2_def)
  with ends out rem' \<open>ss \<noteq> []\<close> show ?case
    by (intro exI [of _ "acc # marks"] exI [of _ "s # ss"]) (auto simp: unmarked_def)
qed

lemma replay_trace_min:
  assumes "length q \<le> k"
  shows "replay_trace cb (min l k) 0 q marks ss \<longleftrightarrow> replay_trace cb l 0 q marks ss"
proof -
  have "length (filter (\<lambda>m. m) (take i marks)) < k" if "i < length q" for i
    using that assms length_filter_le [of "\<lambda>m. m" "take i marks"] by simp
  then show ?thesis by (auto simp: replay_trace_def)
qed

lemma replay_loop_ok:
  "(\<And>t k r s. fst (cb t k r s) = Some True) \<Longrightarrow> n + length q \<le> l \<Longrightarrow>
     \<exists>s'. replay_loop cb l n q s = (n + length q, [], s')"
proof (induction q arbitrary: n s)
  case (Cons r rs)
  obtain s1 where cb: "cb (sr_table r) (sr_key r) (sr_record r) s = (Some True, s1)"
    using Cons.prems(1) by (metis prod.collapse)
  from Cons.IH [of "Suc n" s1] Cons.prems
  obtain s2 where "replay_loop cb l (Suc n) rs s1 = (Suc n + length rs, [], s2)"
    by auto
  with cb Cons.prems(2) show ?case by simp
qed simp

text \<open>C4. What a replay of the sync queue does, record by record: the callback is called on the queued
  records in order, each time in the state the previous call left, until \<^verbatim>\<open>max_records\<close> records (the
  whole queue when it is 0) have been accepted; a record leaves the queue exactly when the callback
  returned \<^verbatim>\<open>true\<close> for it, a refused or throwing one and every one not tried stays, in order; the number
  returned is the number accepted, and nothing else of the database changes.\<close>

theorem replay_exact:
  assumes "replay_sync_queue cb max_records db s = (n, db', s')"
  shows "\<exists>marks ss.
     replay_trace cb (if max_records = 0 then length (db_sync_queue db) else max_records) 0
       (db_sync_queue db) marks ss \<and> hd ss = s \<and> last ss = s' \<and>
     n = length (filter (\<lambda>m. m) marks) \<and>
     db' = db\<lparr>db_sync_queue := unmarked marks (db_sync_queue db)\<rparr>"
proof (cases "db_sync_queue db = []")
  case True
  with assms show ?thesis
    by (intro exI [of _ "[]"] exI [of _ "[s]"])
       (auto simp: replay_sync_queue_def replay_trace_def unmarked_def)
next
  case False
  let ?q = "db_sync_queue db"
  obtain m rem s1 where loop: "replay_loop cb (if max_records = 0 then length ?q
      else min max_records (length ?q)) 0 ?q s = (m, rem, s1)"
    by (metis prod_cases3)
  with False assms have res: "n = m" "db' = db\<lparr>db_sync_queue := rem\<rparr>" "s1 = s'"
    by (simp_all add: replay_sync_queue_def)
  from replay_loop_trace [OF loop] show ?thesis
    unfolding res by (cases "max_records = 0") (simp_all add: replay_trace_min, blast+)
qed

definition demo_queue :: "SyncRecord list" where
  "demo_queue = map (\<lambda>t. \<lparr>sr_table = t, sr_key = [], sr_record = [], sr_queued_at = 1\<rparr>)
     [''a'', ''b'', ''c'']"

definition demo_callback :: "string list callback" where
  "demo_callback t k r s = (if t = ''b'' then None else Some True, t # s)"

theorem replay_exact_witness:
  "replay_sync_queue demo_callback 2 (empty_db\<lparr>db_sync_queue := demo_queue\<rparr>) []
     = (2, empty_db\<lparr>db_sync_queue := [demo_queue ! 1]\<rparr>, [''c'', ''b'', ''a''])
   \<and> (\<exists>marks ss. replay_trace demo_callback 2 0 demo_queue marks ss \<and>
        last ss = [''c'', ''b'', ''a''] \<and> length (filter (\<lambda>m. m) marks) = 2)"
proof -
  have run: "replay_sync_queue demo_callback 2 (empty_db\<lparr>db_sync_queue := demo_queue\<rparr>) []
     = (2, empty_db\<lparr>db_sync_queue := [demo_queue ! 1]\<rparr>, [''c'', ''b'', ''a''])"
    by (simp add: replay_sync_queue_def empty_db_def demo_queue_def demo_callback_def)
  obtain marks ss where "replay_trace demo_callback 2 0 demo_queue marks ss"
      "last ss = [''c'', ''b'', ''a'']" "length (filter (\<lambda>m. m) marks) = 2"
    using replay_exact [OF run] by auto
  with run show ?thesis by blast
qed

text \<open>Once the server accepts every record, an unbounded replay drains the queue completely and
  reports exactly the number of records that were pending.\<close>

theorem replay_drains:
  assumes "\<And>t k r s. fst (cb t k r s) = Some True"
  shows "\<exists>db' s'. replay_sync_queue cb 0 db s = (pending_sync_count db, db', s')
           \<and> db_sync_queue db' = []"
proof -
  obtain s' where "replay_loop cb (length (db_sync_queue db)) 0 (db_sync_queue db) s
      = (length (db_sync_queue db), [], s')"
    using replay_loop_ok [of cb 0 "db_sync_queue db" "length (db_sync_queue db)" s] assms
    by auto
  then show ?thesis
    by (simp add: replay_sync_queue_def pending_sync_count_def)
qed

theorem replay_drains_witness:
  "\<exists>db' s'. replay_sync_queue (\<lambda>t k r s. (Some True, Suc s)) 0
       (empty_db\<lparr>db_sync_queue := [\<lparr>sr_table = ''a'', sr_key = [], sr_record = [], sr_queued_at = 1\<rparr>]\<rparr>)
       (0::nat) = (1, db', s') \<and> db_sync_queue db' = []"
  using replay_drains [of "\<lambda>t k r s. (Some True, Suc s)"
      "empty_db\<lparr>db_sync_queue := [\<lparr>sr_table = ''a'', sr_key = [], sr_record = [], sr_queued_at = 1\<rparr>]\<rparr>" 0]
  by (simp add: pending_sync_count_def)

end
