(* ===== verification/Maintenance_Laws.thy ===== *)
theory Maintenance_Laws
  imports Maintenance_Ops
begin

text \<open>
  What the readers of the maintenance database see.

  The locale \<open>record_store\<close> is the contract between a table that stores structures and its
  clients: a store of a valid structure succeeds on a ready database and afterwards the structure is
  what a load of its key returns, every other key being untouched.  It is interpreted for the
  inference history, the file vault and the RBPC state; the last-writer-wins law for whole histories
  is proved once, in the locale.
\<close>

locale record_store =
  fixes store :: "int \<Rightarrow> 'r \<Rightarrow> 'db \<Rightarrow> bool \<times> 'db"
    and load :: "string \<Rightarrow> 'db \<Rightarrow> 'r option"
    and key :: "'r \<Rightarrow> string"
    and valid :: "'r \<Rightarrow> bool"
    and ready :: "'db \<Rightarrow> bool"
  assumes store_ok: "ready db \<Longrightarrow> valid r \<Longrightarrow> fst (store now r db)"
    and store_ready: "ready db \<Longrightarrow> valid r \<Longrightarrow> ready (snd (store now r db))"
    and load_store: "ready db \<Longrightarrow> valid r \<Longrightarrow>
          load k (snd (store now r db)) = (if k = key r then Some r else load k db)"
begin

lemma load_store_same: "ready db \<Longrightarrow> valid r \<Longrightarrow> load (key r) (snd (store now r db)) = Some r"
  by (simp add: load_store)

lemma load_history:
  assumes "ready db" and "\<forall>e \<in> set es. valid (snd e)"
  shows "load k (fold (\<lambda>(now, r) d. snd (store now r d)) es db)
     = (case filter (\<lambda>e. key (snd e) = k) es of [] \<Rightarrow> load k db
        | es' \<Rightarrow> Some (snd (last es')))"
  using assms
proof (induction es arbitrary: db)
  case (Cons e es)
  obtain now r where e: "e = (now, r)" by fastforce
  have "ready (snd (store now r db))"
    using Cons.prems by (simp add: e store_ready)
  with Cons.IH [of "snd (store now r db)"] Cons.prems show ?case
    by (auto simp: e load_store split: list.splits)
qed simp

end

subsection \<open>RBPC state round trip\<close>

definition rbpc_in_range :: "RBPCState \<Rightarrow> bool" where
  "rbpc_in_range st \<longleftrightarrow>
     - (2 ^ 31) \<le> rs_failed_attempts st \<and> rs_failed_attempts st < 2 ^ 31 \<and>
     - (2 ^ 63) \<le> rs_last_auth_timestamp st \<and> rs_last_auth_timestamp st < 2 ^ 63 \<and>
     - (2 ^ 63) \<le> rs_created_at st \<and> rs_created_at st < 2 ^ 63"

lemma rbpc_from_to_map:
  "rbpc_in_range st \<Longrightarrow> rbpc_from_map (rs_node_id st) (rbpc_to_map st) = st"
  by (simp add: rbpc_from_map_def rbpc_to_map_def smap_get_of rbpc_in_range_def or_zero_def
      sto_int_to_string bool_string_def)

subsection \<open>Interpretations\<close>

interpretation inference_store: record_store store_inference_record load_inference_record
  ir_inference_id "\<lambda>r. ir_inference_id r \<noteq> []" db_initialized
  by unfold_locales
     (auto simp: store_inference_record_def load_inference_record_def inference_record.from_to)

interpretation file_store: record_store store_file_record load_file_record
  fv_file_id "\<lambda>r. fv_file_id r \<noteq> []" db_initialized
  by unfold_locales
     (auto simp: store_file_record_def load_file_record_def file_vault_record.from_to)

interpretation rbpc_store: record_store save_rbpc_state load_rbpc_state
  rs_node_id "\<lambda>st. rs_node_id st \<noteq> [] \<and> rs_pin_hash st \<noteq> [] \<and> rbpc_in_range st" db_initialized
  by unfold_locales (auto simp: save_rbpc_state_def load_rbpc_state_def rbpc_from_to_map)

text \<open>The RBPC state survives its textual encoding: on an initialised database, a state with a
  node id and a PIN commitment whose counters fit their C++ types is stored, and loading its node
  returns exactly that state, while the states of all other nodes are unchanged.\<close>

theorem rbpc_save_load:
  assumes "db_initialized db" and "rs_node_id st \<noteq> []" and "rs_pin_hash st \<noteq> []"
    and "rbpc_in_range st"
  shows "fst (save_rbpc_state now st db) \<and>
         load_rbpc_state k (snd (save_rbpc_state now st db))
           = (if k = rs_node_id st then Some st else load_rbpc_state k db)"
  using assms rbpc_store.store_ok [of db st now] rbpc_store.load_store [of db st k now] by simp

definition sample_state :: RBPCState where
  "sample_state = \<lparr>rs_node_id = ''n1'', rs_pin_hash = ''h'', rs_salt = ''s'',
     rs_failed_attempts = 2, rs_burned = False, rs_last_auth_timestamp = - 5, rs_created_at = 1700\<rparr>"

theorem rbpc_save_load_witness:
  "load_rbpc_state ''n1'' (snd (save_rbpc_state 9 sample_state (empty_db\<lparr>db_initialized := True\<rparr>)))
     = Some sample_state"
  using rbpc_save_load [of "empty_db\<lparr>db_initialized := True\<rparr>" sample_state 9 "''n1''"]
  by (simp add: sample_state_def rbpc_in_range_def)

text \<open>The inference history is last-writer-wins: after any sequence of stores of records with a
  non-empty id, loading an id returns the last record stored under it, and an id that was not stored
  is answered as before.\<close>

theorem inference_history_last_writer:
  assumes "db_initialized db" and "\<forall>e \<in> set es. ir_inference_id (snd e) \<noteq> []"
  shows "load_inference_record k (fold (\<lambda>(now, r) d. snd (store_inference_record now r d)) es db)
     = (case filter (\<lambda>e. ir_inference_id (snd e) = k) es of [] \<Rightarrow> load_inference_record k db
        | es' \<Rightarrow> Some (snd (last es')))"
  using assms by (rule inference_store.load_history)

definition sample_inference :: "string \<Rightarrow> string \<Rightarrow> InferenceRecord" where
  "sample_inference i st = (InferenceRecord_from_map [])\<lparr>ir_inference_id := i, ir_status := st\<rparr>"

theorem inference_history_last_writer_witness:
  "load_inference_record ''1'' (fold (\<lambda>(now, r) d. snd (store_inference_record now r d))
      [(1, sample_inference ''1'' ''failed''), (2, sample_inference ''2'' ''success''),
       (3, sample_inference ''1'' ''success'')] (empty_db\<lparr>db_initialized := True\<rparr>))
    = Some (sample_inference ''1'' ''success'')"
  using inference_history_last_writer [of "empty_db\<lparr>db_initialized := True\<rparr>"
      "[(1, sample_inference ''1'' ''failed''), (2, sample_inference ''2'' ''success''),
        (3, sample_inference ''1'' ''success'')]" "''1''"]
  by (simp add: sample_inference_def)

subsection \<open>The burn policy\<close>

text \<open>\<open>rbpc_view\<close> is the abstract state of a node's record: the failure counter and the burned flag.
  The abstract step counts one failure and burns at the third.\<close>

definition rbpc_view :: "str_map \<Rightarrow> int \<times> bool" where
  "rbpc_view rec = (or_zero (stoi (smap_get [] rec ''failed_attempts'')),
                    smap_get [] rec ''burned'' = ''true'')"

definition no_threshold :: "str_map \<Rightarrow> bool" where
  "no_threshold rec \<longleftrightarrow> stoi (smap_get [] rec ''burn_threshold'') = None"

definition rbpc_row :: "string \<Rightarrow> MaintenanceDB \<Rightarrow> str_map" where
  "rbpc_row n db = smap_get [] (db_rbpc_state_records db) n"

lemma sto_int_Nil: "sto_int w [] = None"
  by (simp add: sto_int_def strto_dec_def)

lemma smap_get_touch [simp]: "smap_get [] (smap_touch k m) k' = smap_get [] m k'"
  by (simp add: smap_touch_def smap_count_def smap_get_def)

lemma bump_failed_view:
  assumes "rbpc_view rec = (a, b)" and "no_threshold rec" and "- (2 ^ 31) \<le> a" and "a + 1 < 2 ^ 31"
  shows "rbpc_view (bump_failed n rec) = (a + 1, b \<or> 3 \<le> a + 1) \<and> no_threshold (bump_failed n rec)"
proof (cases "rec = []")
  case True
  with assms(1) have "a = 0" "\<not> b"
    by (simp_all add: rbpc_view_def smap_get_def sto_int_Nil or_zero_def)
  moreover have "stoi ''1'' = Some 1"
    by (simp add: sto_int_def strto_dec_def is_space_def is_digit_def dec_value_def digit_val_def)
  ultimately show ?thesis
    using True
    by (simp add: bump_failed_def rbpc_view_def no_threshold_def smap_get_of sto_int_Nil or_zero_def)
next
  case False
  have "stoi (int_to_string (a + 1)) = Some (a + 1)"
    using assms(3,4) by (intro sto_int_to_string) auto
  with False assms(1,2) show ?thesis
    by (auto simp: bump_failed_def rbpc_view_def no_threshold_def or_zero_def Let_def)
qed

lemma increment_row:
  "rbpc_row n (snd (increment_rbpc_failed_attempts n db)) = bump_failed n (rbpc_row n db)"
  by (simp add: rbpc_row_def increment_rbpc_failed_attempts_def)

text \<open>Three strikes: for a node whose record carries no explicit threshold, \<open>k\<close> calls of
  \<^verbatim>\<open>increment_rbpc_failed_attempts\<close> add exactly \<open>k\<close> to the failure counter and the node is
  burned as soon as the counter has reached three, and stays burned; this holds for a node with no
  record as well (counter zero, not burned).\<close>

theorem rbpc_three_strikes:
  assumes "rbpc_view (rbpc_row n db) = (a, b)" and "no_threshold (rbpc_row n db)"
    and "- (2 ^ 31) \<le> a" and "a + int k < 2 ^ 31"
  shows "rbpc_view (rbpc_row n (run_ops (replicate k (IncrementRbpc n)) db))
           = (a + int k, b \<or> 0 < k \<and> 3 \<le> a + int k)"
  using assms
proof (induction k arbitrary: db a b)
  case (Suc k)
  let ?db = "snd (increment_rbpc_failed_attempts n db)"
  have step: "rbpc_view (rbpc_row n ?db) = (a + 1, b \<or> 3 \<le> a + 1) \<and> no_threshold (rbpc_row n ?db)"
    using bump_failed_view [OF Suc.prems(1-3), of n] Suc.prems(4) by (simp add: increment_row)
  show ?case
    using Suc.IH [of ?db "a + 1" "b \<or> 3 \<le> a + 1"] step Suc.prems(3,4) by auto
qed simp

theorem rbpc_three_strikes_witness:
  "rbpc_view (rbpc_row ''n'' (run_ops (replicate 3 (IncrementRbpc ''n'')) empty_db)) = (3, True)"
  using rbpc_three_strikes [of "''n''" empty_db 0 False 3]
  by (simp add: rbpc_row_def rbpc_view_def no_threshold_def smap_get_def empty_db_def sto_int_Nil
      or_zero_def)

subsection \<open>Bounded queries\<close>

lemma scan_limit_unbounded: "l \<le> 0 \<Longrightarrow> scan_limit l f n xs = List.map_filter f xs"
  by (induction l f n xs rule: scan_limit.induct) (auto simp: map_filter_simps split: option.splits)

lemma scan_limit_bounded:
  "int n < l \<Longrightarrow> scan_limit l f n xs = take (nat l - n) (List.map_filter f xs)"
proof (induction l f n xs rule: scan_limit.induct)
  case (2 l f n x xs)
  show ?case
  proof (cases "f x")
    case None
    with 2 show ?thesis by (simp add: map_filter_simps)
  next
    case (Some y)
    have suc: "nat l - n = Suc (nat l - Suc n)"
      using "2.prems" by simp
    show ?thesis
    proof (cases "l \<le> int (Suc n)")
      case True
      then have "nat l - Suc n = 0" by simp
      with True Some suc "2.prems" show ?thesis by (simp add: map_filter_simps)
    next
      case False
      with Some suc "2.IH"(2) show ?thesis by (simp add: map_filter_simps)
    qed
  qed
qed (simp add: map_filter_simps)

definition in_window :: "int \<Rightarrow> int \<Rightarrow> str_map \<Rightarrow> bool" where
  "in_window since until m \<longleftrightarrow>
     (\<exists>s ts. smap_find m ''timestamp'' = Some s \<and> stoll s = Some ts \<and> since \<le> ts \<and> ts \<le> until)"

lemma map_filter_if: "List.map_filter f xs = map g (filter P xs)"
  if "\<And>x. f x = (if P x then Some (g x) else None)"
  by (induction xs) (simp_all add: map_filter_simps that)

text \<open>A history query returns exactly the records whose timestamp parses and lies in the closed
  window, in id order, cut to the first \<^verbatim>\<open>limit\<close> of them (\<^verbatim>\<open>limit == 0\<close> meaning no cut); a
  record without a readable timestamp is never returned.\<close>

theorem query_inference_records_spec:
  "query_inference_records since until limit db =
     (let hits = map (InferenceRecord_from_map \<circ> snd)
                   (filter (in_window since until \<circ> snd) (db_inference_records db))
      in if limit = 0 then hits else take limit hits)"
proof -
  let ?f = "\<lambda>(k, m). case smap_find m ''timestamp'' of None \<Rightarrow> None
          | Some s \<Rightarrow> (case stoll s of None \<Rightarrow> None
              | Some ts \<Rightarrow> if since \<le> ts \<and> ts \<le> until
                           then Some (InferenceRecord_from_map m) else None)"
  have f: "?f (x :: string \<times> str_map) = (if (in_window since until \<circ> snd) x
             then Some ((InferenceRecord_from_map \<circ> snd) x) else None)" for x
    by (cases x) (auto simp: in_window_def split: option.splits)
  show ?thesis
    using map_filter_if [where f = ?f and xs = "db_inference_records db", OF f]
      scan_limit_unbounded [of 0 ?f 0 "db_inference_records db"]
      scan_limit_bounded [of 0 "int limit" ?f "db_inference_records db"]
    by (auto simp: query_inference_records_def Let_def comp_def)
qed

subsection \<open>File vault\<close>

lemma from_map_put_status:
  "FileVaultRecord_from_map (smap_put ''status'' v m) = (FileVaultRecord_from_map m)\<lparr>fv_status := v\<rparr>"
  by (simp add: FileVaultRecord_from_map_def)

lemma query_status:
  assumes "x \<in> set (query_files_by_project p d s db)" and "s \<noteq> []"
  shows "fv_status x = s"
  using assms
  by (auto simp: query_files_by_project_def field_is_def FileVaultRecord_from_map_def smap_get_def)

text \<open>Deleting a vault file is a soft delete: a known file stays loadable with all its metadata
  and status \<^verbatim>\<open>deleted\<close>, every other file is untouched, and no query for active files returns a
  record that is not active; an unknown id is rejected.\<close>

theorem delete_file_soft:
  "(case load_file_record f db of
      None \<Rightarrow> delete_file_record now f db = (False, db)
    | Some r \<Rightarrow> fst (delete_file_record now f db) \<and>
        load_file_record g (snd (delete_file_record now f db))
          = (if g = f then Some (r\<lparr>fv_status := ''deleted''\<rparr>) else load_file_record g db) \<and>
        list_all (\<lambda>x. fv_status x = ''active'')
          (query_files_by_project p d ''active'' (snd (delete_file_record now f db))))"
  by (auto simp: load_file_record_def delete_file_record_def Let_def from_map_put_status list_all_iff
      split: option.splits dest: query_status)

definition live_project :: "string \<Rightarrow> str_map \<Rightarrow> bool" where
  "live_project p m \<longleftrightarrow> \<not> field_is m ''status'' ''deleted'' \<and> field_is m ''project_name'' p"

lemma collect_projects_spec:
  "distinct out \<Longrightarrow> distinct (collect_projects out ms) \<and>
     set (collect_projects out ms) = set out \<union> {p. \<exists>m \<in> set ms. live_project p m}"
proof (induction out ms rule: collect_projects.induct)
  case (2 out m ms)
  then show ?case
    by (auto simp: live_project_def field_is_def split: option.splits if_splits)
qed simp

text \<open>\<^verbatim>\<open>list_projects\<close> lists each project once, and lists precisely the projects that have at
  least one file that is not marked deleted.\<close>

theorem list_projects_spec:
  "distinct (list_projects db) \<and>
   set (list_projects db) = {p. \<exists>m \<in> snd ` set (db_file_vault_records db). live_project p m}"
  using collect_projects_spec [of "[]" "map snd (db_file_vault_records db)"]
  by (simp add: list_projects_def)

subsection \<open>Licences\<close>

lemma license_key_inject:
  assumes "CHR '':'' \<notin> set e" and "CHR '':'' \<notin> set e'"
  shows "license_key e u = license_key e' u' \<longleftrightarrow> e = e' \<and> u = u'"
proof
  let ?P = "\<lambda>c. c \<noteq> CHR '':''"
  assume eq: "license_key e u = license_key e' u'"
  have "takeWhile ?P (license_key e u) = e" "takeWhile ?P (license_key e' u') = e'"
    using assms by (auto simp: license_key_def intro!: takeWhile_append_stop)
  with eq show "e = e' \<and> u = u'"
    by (auto simp: license_key_def)
qed simp

text \<open>A stored licence is found again under its extension and user, with the caller's metadata
  taking precedence over the standard fields, and, as long as extension ids contain no colon, the
  licences of every other extension and user are unchanged.\<close>

theorem license_store_load:
  assumes "db_initialized db" and "e \<noteq> []" and "h \<noteq> []" and "smap_wf md"
    and "CHR '':'' \<notin> set e" and "CHR '':'' \<notin> set e'"
  shows "(let db' = snd (store_license now e h u ty ex md db) in
    smap_find (load_license e u db') ''license_key_hash'' =
      (case smap_find md ''license_key_hash'' of None \<Rightarrow> Some h | Some v \<Rightarrow> Some v) \<and>
    (e' = e \<and> u' = u \<or> load_license e' u' db' = load_license e' u' db))"
  using assms
  by (auto simp: store_license_def load_license_def Let_def license_key_inject smap_merge_find
      smap_find_of split: option.splits)

theorem license_store_load_witness:
  "smap_find (load_license ''ext'' ''bob''
      (snd (store_license 1 ''ext'' ''abc'' ''bob'' ''pro'' 99 [] (empty_db\<lparr>db_initialized := True\<rparr>))))
      ''license_key_hash'' = Some ''abc''"
  using license_store_load [of "empty_db\<lparr>db_initialized := True\<rparr>" "''ext''" "''abc''" "[]" "''ext''"
      1 "''bob''" "''pro''" 99 "''bob''"]
  by (simp add: Let_def)

text \<open>Without that restriction the composed key is ambiguous: a licence stored for user
  \<^verbatim>\<open>b:c\<close> of extension \<^verbatim>\<open>a\<close> is what a lookup for user \<^verbatim>\<open>c\<close> of extension \<^verbatim>\<open>a:b\<close> returns.\<close>

lemma license_key_collision:
  "load_license (e @ '':'' @ x) u
     (snd (store_license now e h (x @ '':'' @ u) ty ex md db))
   = load_license e (x @ '':'' @ u) (snd (store_license now e h (x @ '':'' @ u) ty ex md db))"
  by (simp add: load_license_def license_key_def)

end
