(* ===== verification/Maintenance_Store.thy ===== *)
theory Maintenance_Store
  imports Maintenance_Laws
begin

text \<open>
  Persistence of the maintenance database: the byte format, its reader, the encrypted file and
  the life cycle (\<^verbatim>\<open>serialize_table_\<close>, \<^verbatim>\<open>deserialize_all_\<close>, \<^verbatim>\<open>flush_to_disk_\<close>, \<^verbatim>\<open>load_from_disk_\<close>,
  \<^verbatim>\<open>initialize\<close>, \<^verbatim>\<open>shutdown\<close> of \<^verbatim>\<open>code/src/cerberus_local_maintenance_db.cpp\<close>).

  A read position in a buffer is the list of the bytes still to come.  The AES-256-GCM library
  that the code loads at run time is the argument \<open>lf\<close>; what the code relies on is the predicate
  \<open>lfssl_sound\<close>.  The disk is a record with the file contents, which paths open for reading and
  writing, and how many bytes a path takes before writing fails.
\<close>

unbundle bit_operations_syntax

subsection \<open>Big-endian 32-bit numbers\<close>

definition pack_u32 :: "u32 \<Rightarrow> byte list" where
  "pack_u32 v = [ucast (drop_bit 24 v AND 0xFF), ucast (drop_bit 16 v AND 0xFF),
                 ucast (drop_bit 8 v AND 0xFF), ucast (v AND 0xFF)]"

subsection \<open>Writers\<close>

definition size_u32 :: "'a list \<Rightarrow> u32" where
  "size_u32 xs = of_nat (length xs)"

definition put_str :: "string \<Rightarrow> byte list" where
  "put_str s = pack_u32 (size_u32 s) @ bytes_of_string s"

definition put_entries :: "('a \<Rightarrow> byte list) \<Rightarrow> (string, 'a) smap \<Rightarrow> byte list" where
  "put_entries put tbl = pack_u32 (size_u32 tbl) @ concat (map (\<lambda>(k, v). put_str k @ put v) tbl)"

definition serialize_map :: "str_map \<Rightarrow> byte list" where
  "serialize_map = put_entries put_str"

definition serialize_table :: "table \<Rightarrow> byte list" where
  "serialize_table = put_entries serialize_map"

definition kMagic :: u32 where "kMagic = 0x4C434D44"
definition kVersion :: u32 where "kVersion = 1"

definition serialize_all :: "MaintenanceDB \<Rightarrow> byte list" where
  "serialize_all db =
     pack_u32 kMagic @ pack_u32 kVersion @
     serialize_table (db_licenses db) @ serialize_table (db_extension_entries db) @
     serialize_table (db_revenue_records db) @ serialize_table (db_reviews db) @
     serialize_table (db_extension_stats db) @ serialize_table (db_credential_records db) @
     serialize_table (db_audit_events db) @ serialize_table (db_rbpc_state_records db) @
     serialize_table (db_vip_keys db) @ serialize_table (db_onboarding_grants db) @
     serialize_table (db_inference_records db) @ serialize_table (db_file_vault_records db) @
     serialize_map (db_preferences db) @ serialize_map (db_revoked_hashes db) @
     (case db_trust_policy db of
        Some p \<Rightarrow> pack_u32 1 @ serialize_map (TrustPolicy_to_map p)
      | None \<Rightarrow> pack_u32 0)"

subsection \<open>Readers\<close>

text \<open>A read past the end yields zero or the empty string and does not advance.\<close>

fun read_u32 :: "byte list \<Rightarrow> u32 \<times> byte list" where
  "read_u32 (a # b # c # d # bs) = (unpack_u32 a b c d, bs)"
| "read_u32 bs = (0, bs)"

definition read_str :: "byte list \<Rightarrow> string \<times> byte list" where
  "read_str bs =
     (let (sz, bs1) = read_u32 bs
      in if length bs1 < unat sz then ([], bs1)
         else (string_of_bytes (take (unat sz) bs1), drop (unat sz) bs1))"

fun read_entries ::
  "(byte list \<Rightarrow> 'a \<times> byte list) \<Rightarrow> nat \<Rightarrow> (string, 'a) smap \<Rightarrow> byte list
     \<Rightarrow> (string, 'a) smap \<times> byte list" where
  "read_entries rd 0 m bs = (m, bs)"
| "read_entries rd (Suc n) m bs =
     (let (key, bs1) = read_str bs; (val, bs2) = rd bs1
      in read_entries rd n (if key \<noteq> [] then smap_put key val m else m) bs2)"

definition read_map :: "byte list \<Rightarrow> str_map \<times> byte list" where
  "read_map bs = (let (count, bs1) = read_u32 bs in read_entries read_str (unat count) [] bs1)"

definition read_map_of_maps :: "byte list \<Rightarrow> table \<times> byte list" where
  "read_map_of_maps bs =
     (let (count, bs1) = read_u32 bs in read_entries read_map (unat count) [] bs1)"

definition deserialize_all :: "byte list \<Rightarrow> MaintenanceDB \<Rightarrow> bool \<times> MaintenanceDB" where
  "deserialize_all inp db =
     (if length inp < 4 then (False, db)
      else let (magic, b0) = read_u32 inp in
        if magic \<noteq> kMagic then (False, db)
        else let (version, b1) = read_u32 b0;
          (licenses, b2) = read_map_of_maps b1;
          (extension_entries, b3) = read_map_of_maps b2;
          (revenue_records, b4) = read_map_of_maps b3;
          (reviews, b5) = read_map_of_maps b4;
          (extension_stats, b6) = read_map_of_maps b5;
          (credential_records, b7) = read_map_of_maps b6;
          (audit_events, b8) = read_map_of_maps b7;
          (rbpc_state_records, b9) = read_map_of_maps b8;
          (vip_keys, b10) = read_map_of_maps b9;
          (onboarding_grants, b11) = read_map_of_maps b10;
          (inference_records, b12) = read_map_of_maps b11;
          (file_vault_records, b13) = read_map_of_maps b12;
          (preferences, b14) = read_map b13;
          (revoked_hashes, b15) = read_map b14;
          (flag, b16) = read_u32 b15
        in (True, db\<lparr>
          db_licenses := licenses, db_extension_entries := extension_entries,
          db_revenue_records := revenue_records, db_reviews := reviews,
          db_extension_stats := extension_stats, db_credential_records := credential_records,
          db_audit_events := audit_events, db_rbpc_state_records := rbpc_state_records,
          db_vip_keys := vip_keys, db_onboarding_grants := onboarding_grants,
          db_inference_records := inference_records, db_file_vault_records := file_vault_records,
          db_preferences := preferences, db_revoked_hashes := revoked_hashes,
          db_trust_policy := (if flag \<noteq> 0 then Some (TrustPolicy_from_map (fst (read_map b16)))
                              else db_trust_policy db)\<rparr>))"

subsection \<open>The encrypted file\<close>

record lfssl =
  lf_available :: bool
  lf_encrypt :: "byte list \<Rightarrow> byte list \<Rightarrow> byte list \<Rightarrow> byte list option"
  lf_decrypt :: "byte list \<Rightarrow> byte list \<Rightarrow> byte list \<Rightarrow> byte list option"

record disk =
  dk_files :: "string \<Rightarrow> byte list option"
  dk_readable :: "string \<Rightarrow> bool"
  dk_writable :: "string \<Rightarrow> bool"
  dk_room :: "string \<Rightarrow> nat"

definition file_exists :: "string \<Rightarrow> disk \<Rightarrow> bool" where
  "file_exists path dk \<longleftrightarrow> path \<noteq> [] \<and> dk_files dk path \<noteq> None"

text \<open>\<^verbatim>\<open>ofstream\<close> with \<^verbatim>\<open>trunc\<close>, one \<^verbatim>\<open>write\<close> and \<^verbatim>\<open>good()\<close>: the old content is gone as soon as the
  file opens, and a write that does not fit leaves a truncated file.\<close>

definition write_file :: "string \<Rightarrow> byte list \<Rightarrow> disk \<Rightarrow> bool \<times> disk" where
  "write_file path out dk =
     (if \<not> dk_writable dk path then (False, dk)
      else (length out \<le> dk_room dk path,
            dk\<lparr>dk_files := (dk_files dk)(path \<mapsto> take (dk_room dk path) out)\<rparr>))"

definition file_image :: "byte list \<Rightarrow> byte list \<Rightarrow> byte list" where
  "file_image nonce ciphertext =
     pack_u32 (size_u32 nonce) @ nonce @ pack_u32 (size_u32 ciphertext) @ ciphertext"

text \<open>\<open>rng\<close> is what \<^verbatim>\<open>random_bytes\<close> delivers for the nonce, \<open>None\<close> on its error code.\<close>

definition flush_to_disk ::
  "lfssl \<Rightarrow> byte list option \<Rightarrow> MaintenanceDB \<Rightarrow> disk \<Rightarrow> bool \<times> disk" where
  "flush_to_disk lf rng db dk =
     (if db_path db = [] then (True, dk)
      else if \<not> lf_available lf then (False, dk)
      else case rng of None \<Rightarrow> (False, dk)
        | Some nonce \<Rightarrow>
            (case lf_encrypt lf (db_key db) nonce (serialize_all db) of
               None \<Rightarrow> (False, dk)
             | Some ciphertext \<Rightarrow>
                 if ciphertext = [] then (False, dk)
                 else write_file (db_path db) (file_image nonce ciphertext) dk))"

text \<open>An \<^verbatim>\<open>ifstream\<close> is the bytes to come and its fail state.  \<^verbatim>\<open>read(buf, n)\<close> into a zeroed buffer
  delivers a short read padded with zeros, the number of bytes read, and fails the stream.\<close>

type_synonym istream = "byte list \<times> bool"

definition stream_read :: "nat \<Rightarrow> istream \<Rightarrow> byte list \<times> nat \<times> istream" where
  "stream_read n s =
     (case s of (bs, failed) \<Rightarrow>
        if failed then (replicate n 0, 0, s)
        else if n \<le> length bs then (take n bs, n, drop n bs, False)
        else (bs @ replicate (n - length bs) 0, length bs, [], True))"

definition read_be32 :: "istream \<Rightarrow> u32 \<times> istream" where
  "read_be32 s = (case stream_read 4 s of (buf, _, s') \<Rightarrow> (fst (read_u32 buf), s'))"

definition load_from_disk :: "lfssl \<Rightarrow> MaintenanceDB \<Rightarrow> disk \<Rightarrow> bool \<times> MaintenanceDB" where
  "load_from_disk lf db dk =
     (if db_path db = [] then (True, db)
      else case dk_files dk (db_path db) of
        None \<Rightarrow> (True, db)
      | Some content \<Rightarrow>
          if \<not> dk_readable dk (db_path db) then (False, db)
          else let (nonce_len, s1) = read_be32 (content, False) in
            if nonce_len \<noteq> 12 then (False, db)
            else let (nonce, _, s2) = stream_read 12 s1; (cipher_len, s3) = read_be32 s2 in
              if cipher_len < 16 \<or> 0x0FFFFFFF < cipher_len then (False, db)
              else let (ciphertext, got, s4) = stream_read (unat cipher_len) s3 in
                if got \<noteq> unat cipher_len then (False, db)
                else if \<not> lf_available lf then (False, db)
                else case lf_decrypt lf (db_key db) nonce ciphertext of
                       None \<Rightarrow> (False, db)
                     | Some plaintext \<Rightarrow>
                         if plaintext = [] then (False, db) else deserialize_all plaintext db)"

subsection \<open>Life cycle\<close>

definition initialize ::
  "lfssl \<Rightarrow> string \<Rightarrow> byte list \<Rightarrow> disk \<Rightarrow> MaintenanceDB \<Rightarrow> bool \<times> MaintenanceDB" where
  "initialize lf path key dk db =
     (if db_initialized db then (True, db)
      else if length key \<noteq> 32 then (False, db)
      else let db1 = db\<lparr>db_path := path, db_key := key\<rparr> in
        if file_exists path dk then
          (case load_from_disk lf db1 dk of
             (True, db2) \<Rightarrow> (True, db2\<lparr>db_initialized := True\<rparr>)
           | (False, db2) \<Rightarrow> (False, db2\<lparr>db_path := [], db_key := []\<rparr>))
        else (True, db1\<lparr>db_initialized := True\<rparr>))"

definition clear_tables :: "MaintenanceDB \<Rightarrow> MaintenanceDB" where
  "clear_tables db = db\<lparr>
     db_key := [], db_licenses := [], db_credential_records := [], db_audit_events := [],
     db_rbpc_state_records := [], db_preferences := [], db_revoked_hashes := [],
     db_trust_policy := None, db_sync_queue := [], db_inference_records := [],
     db_file_vault_records := [], db_initialized := False\<rparr>"

definition shutdown ::
  "lfssl \<Rightarrow> byte list option \<Rightarrow> MaintenanceDB \<Rightarrow> disk \<Rightarrow> MaintenanceDB \<times> disk" where
  "shutdown lf rng db dk =
     (if \<not> db_initialized db then (db, dk)
      else let dk' = (if db_dirty db then snd (flush_to_disk lf rng (db\<lparr>db_dirty := False\<rparr>) dk) else dk)
           in (clear_tables (db\<lparr>db_dirty := False\<rparr>), dk'))"

subsection \<open>The codec law\<close>

text \<open>A writer and a reader form a codec when reading back what was written, followed by anything,
  yields the value and leaves the rest.  The law lifts to counted tables.\<close>

lemma low_byte_mask: "(0xFF :: u32) = mask 8"
  by (simp add: mask_eq_exp_minus_1)

lemma ucast_low_byte: "(ucast (w AND 0xFF :: u32) :: byte) = ucast w"
  unfolding low_byte_mask by (rule bit_word_eqI) (simp add: bit_simps)

lemma unpack_pack [codec_simps]: "read_u32 (pack_u32 v @ rest) = (v, rest)"
  by (simp add: pack_u32_def ucast_low_byte unpack_bytes)

lemma length_pack_u32 [simp]: "length (pack_u32 v) = 4"
  by (simp add: pack_u32_def)

lemma unat_size_u32: "length xs < 2 ^ 32 \<Longrightarrow> unat (size_u32 xs) = length xs"
  by (simp add: size_u32_def unat_of_nat)

definition fits :: "'a list \<Rightarrow> bool" where
  "fits xs \<longleftrightarrow> length xs < 2 ^ 32"

lemma unat_size_fits [simp]: "fits xs \<Longrightarrow> unat (size_u32 xs) = length xs"
  by (simp add: unat_size_u32 fits_def)

locale stream_codec =
  fixes put :: "'a \<Rightarrow> byte list"
    and get :: "byte list \<Rightarrow> 'a \<times> byte list"
    and ok :: "'a \<Rightarrow> bool"
  assumes get_put: "ok x \<Longrightarrow> get (put x @ rest) = (x, rest)"
begin

lemma put_prefix_free:
  assumes "ok x" and "ok y" and "put x @ r = put y @ s"
  shows "x = y \<and> r = s"
  using assms get_put by (metis prod.inject)

end

lemma read_put_str [codec_simps]: "fits s \<Longrightarrow> read_str (put_str s @ rest) = (s, rest)"
  by (simp add: read_str_def put_str_def unpack_pack)

interpretation str_codec: stream_codec put_str read_str fits
  by unfold_locales (rule read_put_str)

definition entries_ok :: "('a \<Rightarrow> bool) \<Rightarrow> (string, 'a) smap \<Rightarrow> bool" where
  "entries_ok ok m \<longleftrightarrow> smap_wf m \<and> fits m \<and> list_all (\<lambda>(k, v). k \<noteq> [] \<and> fits k \<and> ok v) m"

context stream_codec
begin

lemma read_entries_put:
  "list_all (\<lambda>(k, v). k \<noteq> [] \<and> fits k \<and> ok v) m \<Longrightarrow>
   read_entries get (length m) acc (concat (map (\<lambda>(k, v). put_str k @ put v) m) @ rest)
     = (fold (\<lambda>(k, v). smap_put k v) m acc, rest)"
  by (induction m arbitrary: acc) (auto simp: read_put_str get_put)

lemma read_table_put:
  assumes "entries_ok ok m"
  shows "(let (count, bs1) = read_u32 (put_entries put m @ rest)
          in read_entries get (unat count) [] bs1) = (m, rest)"
  using assms by (simp add: put_entries_def unpack_pack entries_ok_def read_entries_put smap_rebuild)

end

definition map_ok :: "str_map \<Rightarrow> bool" where
  "map_ok = entries_ok fits"

definition table_ok :: "table \<Rightarrow> bool" where
  "table_ok = entries_ok map_ok"

interpretation map_codec': stream_codec serialize_map read_map map_ok
  unfolding serialize_map_def map_ok_def
  by unfold_locales (use str_codec.read_table_put in \<open>simp add: read_map_def\<close>)

interpretation table_codec: stream_codec serialize_table read_map_of_maps table_ok
  unfolding serialize_table_def table_ok_def
  by unfold_locales (use map_codec'.read_table_put in \<open>simp add: read_map_of_maps_def\<close>)

lemmas codec_laws = unpack_pack map_codec'.get_put table_codec.get_put

subsection \<open>Reading back what was written\<close>

definition db_storable :: "MaintenanceDB \<Rightarrow> bool" where
  "db_storable db \<longleftrightarrow>
     table_ok (db_licenses db) \<and> table_ok (db_extension_entries db) \<and>
     table_ok (db_revenue_records db) \<and> table_ok (db_reviews db) \<and>
     table_ok (db_extension_stats db) \<and> table_ok (db_credential_records db) \<and>
     table_ok (db_audit_events db) \<and> table_ok (db_rbpc_state_records db) \<and>
     table_ok (db_vip_keys db) \<and> table_ok (db_onboarding_grants db) \<and>
     table_ok (db_inference_records db) \<and> table_ok (db_file_vault_records db) \<and>
     map_ok (db_preferences db) \<and> map_ok (db_revoked_hashes db) \<and>
     (case db_trust_policy db of None \<Rightarrow> True | Some p \<Rightarrow> map_ok (TrustPolicy_to_map p))"

definition restore_tables :: "MaintenanceDB \<Rightarrow> MaintenanceDB \<Rightarrow> MaintenanceDB" where
  "restore_tables src db = db\<lparr>
     db_licenses := db_licenses src, db_extension_entries := db_extension_entries src,
     db_revenue_records := db_revenue_records src, db_reviews := db_reviews src,
     db_extension_stats := db_extension_stats src,
     db_credential_records := db_credential_records src,
     db_audit_events := db_audit_events src, db_rbpc_state_records := db_rbpc_state_records src,
     db_vip_keys := db_vip_keys src, db_onboarding_grants := db_onboarding_grants src,
     db_inference_records := db_inference_records src,
     db_file_vault_records := db_file_vault_records src,
     db_preferences := db_preferences src, db_revoked_hashes := db_revoked_hashes src,
     db_trust_policy := (if db_trust_policy src = None then db_trust_policy db
                         else db_trust_policy src)\<rparr>"

lemma deserialize_serialize_all:
  assumes "db_storable db"
  shows "deserialize_all (serialize_all db) db0 = (True, restore_tables db db0)"
  using assms
  by (cases "db_trust_policy db")
     (simp_all add: db_storable_def serialize_all_def deserialize_all_def codec_laws restore_tables_def
       codec_laws [where rest = "[]", simplified] trust_policy.from_to)

lemma deserialize_all_false: "deserialize_all inp db = (False, db') \<Longrightarrow> db' = db"
  by (auto simp: deserialize_all_def Let_def split: if_splits prod.splits)

subsection \<open>The file on disk\<close>

text \<open>What the code relies on of the AES-256-GCM library: decryption under the same key and nonce
  inverts encryption, and the ciphertext is the plaintext plus a 16-byte tag.\<close>

definition lfssl_sound :: "lfssl \<Rightarrow> bool" where
  "lfssl_sound lf \<longleftrightarrow> (\<forall>k n p c. lf_encrypt lf k n p = Some c \<longrightarrow>
     lf_decrypt lf k n c = Some p \<and> length c = length p + 16)"

lemma lfssl_soundD:
  assumes "lfssl_sound lf" and "lf_encrypt lf k n p = Some c"
  shows "lf_decrypt lf k n c = Some p" and "length c = length p + 16"
  using assms by (auto simp: lfssl_sound_def)

lemma stream_read_exact [simp]: "length xs = n \<Longrightarrow> stream_read n (xs @ ys, False) = (xs, n, ys, False)"
  by (simp add: stream_read_def)

lemma read_be32_pack [simp]: "read_be32 (pack_u32 v @ bs, False) = (v, bs, False)"
  using unpack_pack [of v "[]"] by (simp add: read_be32_def)

lemma load_image:
  assumes "db_path db \<noteq> []" and "dk_files dk (db_path db) = Some (file_image nonce c)"
    and "dk_readable dk (db_path db)" and "lf_available lf"
    and nonce: "length nonce = 12" and len: "16 \<le> length c" "length c \<le> 0x0FFFFFFF"
    and "lf_decrypt lf (db_key db) nonce c = Some p" and "p \<noteq> []"
  shows "load_from_disk lf db dk = deserialize_all p db"
proof -
  have u: "unat (size_u32 c) = length c"
    using len by (intro unat_size_u32) simp
  have bounds: "\<not> size_u32 c < 16" "\<not> 0x0FFFFFFF < size_u32 c"
    using len by (simp_all add: word_less_nat_alt u)
  have n12: "size_u32 nonce = 12"
    by (simp add: size_u32_def nonce)
  have rd: "stream_read (length c) (c, False) = (c, length c, [], False)"
    using stream_read_exact [of c "length c" "[]"] by simp
  show ?thesis
    using assms bounds
    by (simp add: load_from_disk_def file_image_def n12 u rd)
qed

lemma length_file_image [simp]: "length (file_image n c) = 8 + length n + length c"
  by (simp add: file_image_def)

lemma serialize_all_ne [simp]: "serialize_all db \<noteq> []"
  by (simp add: serialize_all_def pack_u32_def)

lemma flush_writes_image:
  assumes "lfssl_sound lf" and "lf_available lf" and "db_path db \<noteq> []"
    and "lf_encrypt lf (db_key db) nonce (serialize_all db) = Some c"
    and "dk_writable dk (db_path db)" and "8 + length nonce + length c \<le> dk_room dk (db_path db)"
  shows "flush_to_disk lf (Some nonce) db dk
    = (True, dk\<lparr>dk_files := (dk_files dk)(db_path db \<mapsto> file_image nonce c)\<rparr>)"
proof -
  have "c \<noteq> []"
    using lfssl_soundD(2) [OF assms(1,4)] by auto
  then show ?thesis
    using assms by (simp add: flush_to_disk_def write_file_def)
qed

lemma reopen_after_flush:
  assumes lf: "lfssl_sound lf" "lf_available lf"
    and db: "db_initialized db" "db_dirty db" "db_storable db"
    and path: "db_path db \<noteq> []" and key: "length (db_key db) = 32"
    and nonce: "length nonce = 12"
    and enc: "lf_encrypt lf (db_key db) nonce (serialize_all db) \<noteq> None"
    and size: "length (serialize_all db) + 16 \<le> 0x0FFFFFFF"
    and disk: "dk_writable dk (db_path db)" "dk_readable dk (db_path db)"
      "length (serialize_all db) + 36 \<le> dk_room dk (db_path db)"
  shows "(case shutdown lf (Some nonce) db dk of (db1, dk1) \<Rightarrow>
    db_key db1 = [] \<and>
    initialize lf (db_path db) (db_key db) dk1 empty_db
      = (True, (restore_tables db empty_db)
                 \<lparr>db_path := db_path db, db_key := db_key db, db_initialized := True\<rparr>))"
proof -
  let ?db = "db\<lparr>db_dirty := False\<rparr>"
  have ser: "serialize_all ?db = serialize_all db"
    by (simp add: serialize_all_def)
  obtain c where c: "lf_encrypt lf (db_key db) nonce (serialize_all db) = Some c"
    using enc by auto
  note dec = lfssl_soundD [OF lf(1) c]
  let ?dk = "dk\<lparr>dk_files := (dk_files dk)(db_path db \<mapsto> file_image nonce c)\<rparr>"
  have fl: "flush_to_disk lf (Some nonce) ?db dk = (True, ?dk)"
    using flush_writes_image [of lf ?db nonce c dk] lf path c disk nonce dec by (simp add: ser)
  let ?e = "empty_db\<lparr>db_path := db_path db, db_key := db_key db\<rparr>"
  have "load_from_disk lf ?e ?dk = deserialize_all (serialize_all db) ?e"
    by (rule load_image [where nonce = nonce and c = c])
       (use path disk lf nonce dec size in simp_all)
  then have ld: "load_from_disk lf ?e ?dk = (True, restore_tables db ?e)"
    using deserialize_serialize_all [OF db(3)] by simp
  then show ?thesis
    using fl db path key
    by (simp add: shutdown_def initialize_def file_exists_def clear_tables_def Let_def ld
        restore_tables_def empty_db_def)
qed

text \<open>C13. Shutting down and reopening loses nothing: a dirty database whose keys are non-empty and
  whose strings and tables fit the 32-bit counts is written by \<^verbatim>\<open>shutdown\<close> and comes back, table by
  table and with its trust policy, when a fresh object is initialised with the same path and key;
  the object that was shut down has forgotten its key.\<close>

theorem shutdown_reopen:
  assumes lf: "lfssl_sound lf" "lf_available lf"
    and db: "db_initialized db" "db_dirty db" "db_storable db"
    and path: "db_path db \<noteq> []" and key: "length (db_key db) = 32"
    and nonce: "length nonce = 12"
    and enc: "lf_encrypt lf (db_key db) nonce (serialize_all db) \<noteq> None"
    and size: "length (serialize_all db) + 16 \<le> 0x0FFFFFFF"
    and disk: "dk_writable dk (db_path db)" "dk_readable dk (db_path db)"
      "length (serialize_all db) + 36 \<le> dk_room dk (db_path db)"
  shows "(case shutdown lf (Some nonce) db dk of (db1, dk1) \<Rightarrow>
    db_key db1 = [] \<and>
    initialize lf (db_path db) (db_key db) dk1 empty_db
      = (True, (restore_tables db empty_db)
                 \<lparr>db_path := db_path db, db_key := db_key db, db_initialized := True\<rparr>))"
  using assms by (rule reopen_after_flush)

definition demo_cipher :: lfssl where
  "demo_cipher = \<lparr>lf_available = True,
     lf_encrypt = (\<lambda>k n p. Some (map (\<lambda>b. b XOR 0x5A) p @ replicate 16 0)),
     lf_decrypt = (\<lambda>k n c. Some (map (\<lambda>b. b XOR 0x5A) (take (length c - 16) c)))\<rparr>"

lemma demo_cipher_sound: "lfssl_sound demo_cipher"
  by (auto simp: lfssl_sound_def demo_cipher_def comp_def ac_simps)

definition demo_disk :: disk where
  "demo_disk = \<lparr>dk_files = Map.empty, dk_readable = (\<lambda>_. True), dk_writable = (\<lambda>_. True),
     dk_room = (\<lambda>_. 1000000)\<rparr>"

definition demo_db :: MaintenanceDB where
  "demo_db = empty_db\<lparr>db_initialized := True, db_dirty := True, db_path := ''/db'',
     db_key := replicate 32 7, db_preferences := [(''theme'', ''dark'')]\<rparr>"

lemmas demo_defs = demo_cipher_def demo_disk_def demo_db_def

theorem shutdown_reopen_witness:
  "db_preferences (snd (initialize demo_cipher ''/db'' (replicate 32 7)
     (snd (shutdown demo_cipher (Some (replicate 12 1)) demo_db demo_disk)) empty_db))
   = [(''theme'', ''dark'')]"
proof -
  have "db_storable demo_db"
    by (simp add: demo_db_def empty_db_def db_storable_def table_ok_def map_ok_def entries_ok_def
        fits_def smap_wf_def)
  moreover have "length (serialize_all demo_db) = 85"
    by (simp add: serialize_all_def demo_db_def empty_db_def serialize_table_def serialize_map_def
        put_entries_def put_str_def)
  ultimately show ?thesis
    using shutdown_reopen [of demo_cipher demo_db "replicate 12 1" demo_disk] demo_cipher_sound
    by (simp add: demo_defs empty_db_def restore_tables_def split: prod.splits)
qed

subsection \<open>Sessions\<close>

text \<open>The dirty flag is what decides whether \<^verbatim>\<open>shutdown\<close> writes.  \<open>marked_op\<close> excludes the three calls
  that change a table without setting it (\<open>burn_not_durable\<close> below).\<close>

fun marked_op :: "db_op \<Rightarrow> bool" where
  "marked_op (ConsumeGrant now g who r) = False"
| "marked_op (IncrementRbpc n) = False"
| "marked_op (BurnRbpc n) = False"
| "marked_op _ = True"

lemma run_op_keeps:
  "db_initialized (snd (run_op c db)) = db_initialized db"
  "db_path (snd (run_op c db)) = db_path db"
  "db_key (snd (run_op c db)) = db_key db"
  by (cases c; auto simp: store_op_defs Let_def mark_dirty_def split: option.splits)+

lemma run_ops_keeps [simp]:
  "db_initialized (run_ops cs db) = db_initialized db"
  "db_path (run_ops cs db) = db_path db"
  "db_key (run_ops cs db) = db_key db"
  by (induction cs arbitrary: db) (simp_all add: run_op_keeps)

lemma run_op_clean:
  assumes "marked_op c" and "\<not> db_dirty (snd (run_op c db))"
  shows "(snd (run_op c db))\<lparr>db_offline := b\<rparr> = db\<lparr>db_offline := b\<rparr>"
  using assms by (cases c) (auto simp: store_op_defs Let_def split: option.splits if_splits)

lemma run_ops_dirty_mono: "db_dirty db \<Longrightarrow> db_dirty (run_ops cs db)"
  by (induction cs arbitrary: db) (simp_all add: run_op_dirty)

lemma run_ops_clean:
  "list_all marked_op cs \<Longrightarrow> \<not> db_dirty (run_ops cs db) \<Longrightarrow>
     (run_ops cs db)\<lparr>db_offline := b\<rparr> = db\<lparr>db_offline := b\<rparr>"
proof (induction cs arbitrary: db)
  case (Cons c cs)
  then have "\<not> db_dirty (snd (run_op c db))"
    using run_ops_dirty_mono [of "snd (run_op c db)" cs] by auto
  with Cons run_op_clean [of c db b] show ?case by simp
qed simp

lemma deserialize_all_keeps:
  assumes "deserialize_all inp db = (ok, db')"
  shows "db_dirty db' = db_dirty db" "db_offline db' = db_offline db"
    "db_sync_queue db' = db_sync_queue db" "db_path db' = db_path db" "db_key db' = db_key db"
  using assms by (auto simp: deserialize_all_def Let_def split: if_splits prod.splits)

lemma load_from_disk_keeps:
  assumes "load_from_disk lf db dk = (ok, db')"
  shows "db_dirty db' = db_dirty db" "db_offline db' = db_offline db"
    "db_sync_queue db' = db_sync_queue db" "db_path db' = db_path db" "db_key db' = db_key db"
  using assms
  by (auto simp: load_from_disk_def Let_def dest: deserialize_all_keeps
      split: if_splits prod.splits option.splits)

lemma initialize_opened:
  assumes "initialize lf path key dk empty_db = (True, db)"
  shows "db_initialized db" "\<not> db_dirty db" "\<not> db_offline db" "db_sync_queue db = []"
    "db_path db = path" "db_key db = key" "length key = 32"
  using assms load_from_disk_keeps [of lf "empty_db\<lparr>db_path := path, db_key := key\<rparr>" dk]
  by (fastforce simp: initialize_def empty_db_def Let_def split: if_splits prod.splits bool.splits)+

lemma restore_tables_content:
  "(restore_tables db empty_db)\<lparr>db_path := db_path db, db_key := db_key db, db_initialized := True\<rparr>
     = db\<lparr>db_initialized := True, db_dirty := False, db_offline := False, db_sync_queue := []\<rparr>"
  by (simp add: restore_tables_def empty_db_def)

text \<open>C1. What a session wrote is there in the next one: open a database with \<^verbatim>\<open>initialize\<close>, make any
  history of calls on it, shut it down, and open it again with the same path and key.  The second
  object has every table and the trust policy exactly as the history left them, whether anything was
  written or not (a session that changed nothing leaves the file alone).  The offline switch and the queue
  of pending sync records are not tables and not in the file.  The history may not contain
  the three calls that forget the dirty flag (\<^verbatim>\<open>consume_onboarding_grant\<close>,
  \<^verbatim>\<open>increment_rbpc_failed_attempts\<close>, \<^verbatim>\<open>set_rbpc_burned\<close>); the final tables fit the file format (keys not
  empty, 32-bit counts, at most 0x0FFFFFFF bytes), the cipher works and the disk has room.\<close>

theorem session_durable:
  assumes lf: "lfssl_sound lf" "lf_available lf"
    and opened: "initialize lf path key dk empty_db = (True, db)" and path: "path \<noteq> []"
    and calls: "list_all marked_op cs" and ok: "db_storable (run_ops cs db)"
    and nonce: "length nonce = 12"
    and enc: "lf_encrypt lf key nonce (serialize_all (run_ops cs db)) \<noteq> None"
    and size: "length (serialize_all (run_ops cs db)) + 16 \<le> 0x0FFFFFFF"
    and disk: "dk_writable dk path" "dk_readable dk path"
      "length (serialize_all (run_ops cs db)) + 36 \<le> dk_room dk path"
  shows "\<exists>offline queue. initialize lf path key (snd (shutdown lf (Some nonce) (run_ops cs db) dk)) empty_db
    = (True, (run_ops cs db)\<lparr>db_dirty := False, db_offline := offline, db_sync_queue := queue\<rparr>)"
proof (cases "db_dirty (run_ops cs db)")
  case True
  note op = initialize_opened [OF opened]
  from reopen_after_flush [of lf "run_ops cs db" nonce dk] show ?thesis
    using lf True ok path nonce enc size disk op restore_tables_content [of "run_ops cs db"]
    by (intro exI [of _ False] exI [of _ "[]"]) (auto split: prod.splits)
next
  case False
  note op = initialize_opened [OF opened]
  from run_ops_clean [OF calls False, of False]
  have "(run_ops cs db)\<lparr>db_dirty := False, db_offline := False, db_sync_queue := []\<rparr>
      = db\<lparr>db_dirty := False, db_offline := False, db_sync_queue := []\<rparr>"
    by (cases db; cases "run_ops cs db") simp
  also have "\<dots> = db" using op by simp
  finally show ?thesis
    using False opened op by (intro exI [of _ False] exI [of _ "[]"]) (simp add: shutdown_def)
qed

theorem session_durable_witness:
  "\<exists>offline queue. initialize demo_cipher ''/db'' (replicate 32 7)
     (snd (shutdown demo_cipher (Some (replicate 12 1))
        (run_ops [SetOffline True, StorePreference ''theme'' ''dark'']
           (empty_db\<lparr>db_initialized := True, db_path := ''/db'', db_key := replicate 32 7\<rparr>)) demo_disk)) empty_db
   = (True, empty_db\<lparr>db_initialized := True, db_path := ''/db'', db_key := replicate 32 7,
        db_preferences := [(''theme'', ''dark'')], db_offline := offline, db_sync_queue := queue\<rparr>)"
proof -
  let ?db = "empty_db\<lparr>db_initialized := True, db_path := ''/db'', db_key := replicate 32 7\<rparr>"
  let ?cs = "[SetOffline True, StorePreference ''theme'' ''dark'']"
  have run: "run_ops ?cs ?db = ?db\<lparr>db_offline := True, db_dirty := True,
      db_preferences := [(''theme'', ''dark'')]\<rparr>"
    by (simp add: set_offline_mode_def store_preference_def mark_dirty_def empty_db_def)
  have "db_storable (run_ops ?cs ?db)"
    unfolding run by (simp add: empty_db_def db_storable_def table_ok_def map_ok_def entries_ok_def
        fits_def smap_wf_def)
  moreover have "length (serialize_all (run_ops ?cs ?db)) = 85"
    unfolding run by (simp add: serialize_all_def empty_db_def serialize_table_def serialize_map_def
        put_entries_def put_str_def)
  moreover have "initialize demo_cipher ''/db'' (replicate 32 7) demo_disk empty_db = (True, ?db)"
    by (simp add: initialize_def file_exists_def demo_disk_def empty_db_def)
  ultimately show ?thesis
    using session_durable [of demo_cipher "''/db''" "replicate 32 7" demo_disk ?db ?cs "replicate 12 1"]
      demo_cipher_sound run
    by (simp add: demo_cipher_def demo_disk_def empty_db_def)
qed

subsection \<open>Opening fails closed\<close>






subsection \<open>What persistence misses\<close>

text \<open>Burning is not durable.  On a database with no pending writes, burning a node, counting a
  failed attempt or consuming an onboarding grant changes the tables in memory but not the dirty flag:
  \<^verbatim>\<open>shutdown\<close> writes nothing, and a reopened database shows the state as it was on disk, whereas
  every other successful state-changing call makes \<^verbatim>\<open>shutdown\<close> flush.\<close>

theorem burn_not_durable:
  assumes "db_initialized db" and "\<not> db_dirty db"
  shows "snd (shutdown lf rng (snd (set_rbpc_burned n db)) dk) = dk
    \<and> map_option rs_burned (load_rbpc_state n (snd (set_rbpc_burned n db))) = Some True
    \<and> snd (shutdown lf rng (snd (increment_rbpc_failed_attempts n db)) dk) = dk
    \<and> snd (shutdown lf rng (snd (consume_onboarding_grant now g who r db)) dk) = dk
    \<and> (fst (run_op c db) \<and> dirtying_op c \<longrightarrow>
         snd (shutdown lf rng (snd (run_op c db)) dk)
           = (if db_initialized (snd (run_op c db))
              then snd (flush_to_disk lf rng ((snd (run_op c db))\<lparr>db_dirty := False\<rparr>) dk) else dk))"
  using assms
  by (simp add: shutdown_def Let_def run_op_dirty set_rbpc_burned_def increment_rbpc_failed_attempts_def
      consume_onboarding_grant_def load_rbpc_state_def rbpc_from_map_def burn_record_def
      split: option.splits)

theorem burn_not_durable_witness:
  "snd (shutdown demo_cipher None
      (snd (set_rbpc_burned ''node'' (empty_db\<lparr>db_initialized := True\<rparr>))) demo_disk) = demo_disk"
  using burn_not_durable [of "empty_db\<lparr>db_initialized := True\<rparr>" demo_cipher None "''node''" demo_disk]
  by (simp add: empty_db_def)

text \<open>\<^verbatim>\<open>shutdown\<close> clears the licences, credentials and history but neither the VIP keys, the
  onboarding grants, the extension entries, the revenue records, the reviews nor the statistics: an
  object reused for another, new database starts with those rows of the previous one.\<close>

theorem shutdown_leaks_tables:
  assumes "db_initialized db" and "\<not> file_exists path dk'" and "length key = 32"
  shows "(case initialize lf path key dk' (fst (shutdown lf rng db dk)) of (ok, db') \<Rightarrow>
    ok \<and> db_path db' = path \<and> db_key db' = key
    \<and> db_licenses db' = [] \<and> db_credential_records db' = [] \<and> db_rbpc_state_records db' = []
    \<and> db_vip_keys db' = db_vip_keys db \<and> db_onboarding_grants db' = db_onboarding_grants db
    \<and> db_extension_entries db' = db_extension_entries db
    \<and> db_revenue_records db' = db_revenue_records db
    \<and> db_reviews db' = db_reviews db \<and> db_extension_stats db' = db_extension_stats db)"
  using assms by (simp add: initialize_def shutdown_def clear_tables_def Let_def)

theorem shutdown_leaks_tables_witness:
  "vip_key_exists ''k'' (snd (initialize demo_cipher ''/other'' (replicate 32 9) demo_disk
     (fst (shutdown demo_cipher None (demo_db\<lparr>db_vip_keys := [(''k'', [])]\<rparr>) demo_disk))))"
  using shutdown_leaks_tables [of "demo_db\<lparr>db_vip_keys := [(''k'', [])]\<rparr>" "''/other''" demo_disk
      "replicate 32 9" demo_cipher None demo_disk]
  by (simp add: demo_defs file_exists_def vip_key_exists_def smap_count_def smap_find_def
      split: prod.splits)

end
