(* ===== verification/Float32.thy ===== *)
theory Float32
  imports Prelude "HOL-Library.Log_Nat"
begin

text \<open>
  Single-precision arithmetic.  A \<^verbatim>\<open>float\<close> is a rational number, an infinity or not a number; every
  operation computes exactly and rounds once to 24 significant bits, ties to even, with gradual underflow
  below \<open>2 powi - 126\<close> and overflow to infinity at \<open>2 ^ 128\<close>, as the standard evaluation without
  contraction does.  The two zeros are identified: no operation of the program divides by zero or looks at
  a sign bit.
\<close>

subsection \<open>Rounding\<close>

definition round_half_even :: "rat \<Rightarrow> int" where
  "round_half_even x =
     (let f = \<lfloor>x\<rfloor>; d = x - of_int f
      in if d < 1 / 2 then f else if 1 / 2 < d then f + 1 else if even f then f else f + 1)"

fun int_bits :: "int \<Rightarrow> int" where
  "int_bits n = (if n \<le> 0 then 0 else 1 + int_bits (n div 2))"

declare int_bits.simps [simp del]

definition f32_exponent :: "rat \<Rightarrow> int" where
  "f32_exponent x =
     (case quotient_of x of (n, d) \<Rightarrow>
        let e = int_bits n - int_bits d
        in if 2 powi e \<le> x then e else e - 1)"

datatype float32 = F_NaN | F_Inf bool | F_Fin rat

definition f_quantum :: "rat \<Rightarrow> rat" where
  "f_quantum x = 2 powi (max (f32_exponent x - 23) (- 149))"

definition f_magnitude :: "rat \<Rightarrow> rat" where
  "f_magnitude x = of_int (round_half_even (x / f_quantum x)) * f_quantum x"

definition f_round :: "rat \<Rightarrow> float32" where
  "f_round x =
     (if x = 0 then F_Fin 0
      else let v = f_magnitude \<bar>x\<bar>
           in if 2 ^ 128 \<le> v then F_Inf (x < 0) else F_Fin (if x < 0 then - v else v))"

subsection \<open>Operations\<close>

fun f_add :: "float32 \<Rightarrow> float32 \<Rightarrow> float32" where
  "f_add (F_Fin x) (F_Fin y) = f_round (x + y)"
| "f_add (F_Inf s) (F_Inf t) = (if s = t then F_Inf s else F_NaN)"
| "f_add (F_Inf s) (F_Fin y) = F_Inf s"
| "f_add (F_Fin x) (F_Inf t) = F_Inf t"
| "f_add F_NaN b = F_NaN"
| "f_add a F_NaN = F_NaN"

fun f_neg :: "float32 \<Rightarrow> float32" where
  "f_neg (F_Fin x) = F_Fin (- x)"
| "f_neg (F_Inf s) = F_Inf (\<not> s)"
| "f_neg F_NaN = F_NaN"

definition f_sub :: "float32 \<Rightarrow> float32 \<Rightarrow> float32" where
  "f_sub a b = f_add a (f_neg b)"

fun f_mul :: "float32 \<Rightarrow> float32 \<Rightarrow> float32" where
  "f_mul (F_Fin x) (F_Fin y) = f_round (x * y)"
| "f_mul (F_Inf s) (F_Inf t) = F_Inf (s \<noteq> t)"
| "f_mul (F_Inf s) (F_Fin y) = (if y = 0 then F_NaN else F_Inf (s \<noteq> (y < 0)))"
| "f_mul (F_Fin x) (F_Inf t) = (if x = 0 then F_NaN else F_Inf ((x < 0) \<noteq> t))"
| "f_mul F_NaN b = F_NaN"
| "f_mul a F_NaN = F_NaN"

fun f_div :: "float32 \<Rightarrow> float32 \<Rightarrow> float32" where
  "f_div (F_Fin x) (F_Fin y) =
     (if y = 0 then (if x = 0 then F_NaN else F_Inf (x < 0)) else f_round (x / y))"
| "f_div (F_Inf s) (F_Inf t) = F_NaN"
| "f_div (F_Inf s) (F_Fin y) = F_Inf (s \<noteq> (y < 0))"
| "f_div (F_Fin x) (F_Inf t) = F_Fin 0"
| "f_div F_NaN b = F_NaN"
| "f_div a F_NaN = F_NaN"

fun f_less :: "float32 \<Rightarrow> float32 \<Rightarrow> bool" where
  "f_less (F_Fin x) (F_Fin y) = (x < y)"
| "f_less (F_Inf s) (F_Inf t) = (s \<and> \<not> t)"
| "f_less (F_Inf s) (F_Fin y) = s"
| "f_less (F_Fin x) (F_Inf t) = (\<not> t)"
| "f_less F_NaN b = False"
| "f_less a F_NaN = False"

definition f_leq :: "float32 \<Rightarrow> float32 \<Rightarrow> bool" where
  "f_leq a b \<longleftrightarrow> a \<noteq> F_NaN \<and> b \<noteq> F_NaN \<and> \<not> f_less b a"

definition f_max :: "float32 \<Rightarrow> float32 \<Rightarrow> float32" where
  "f_max a b = (if f_less a b then b else a)"

definition f_clamp :: "float32 \<Rightarrow> float32 \<Rightarrow> float32 \<Rightarrow> float32" where
  "f_clamp v lo hi = (if f_less v lo then lo else if f_less hi v then hi else v)"

fun f_abs :: "float32 \<Rightarrow> float32" where
  "f_abs (F_Fin x) = F_Fin \<bar>x\<bar>"
| "f_abs (F_Inf s) = F_Inf False"
| "f_abs F_NaN = F_NaN"

definition f_of_u32 :: "u32 \<Rightarrow> float32" where
  "f_of_u32 n = f_round (of_nat (unat n))"

text \<open>\<^verbatim>\<open>exp2f\<close> of an integral argument that is not negative.\<close>

definition f_exp2 :: "nat \<Rightarrow> float32" where
  "f_exp2 n = (if n < 128 then F_Fin (2 ^ n) else F_Inf False)"

text \<open>The bits of a \<^verbatim>\<open>float\<close> in memory.\<close>

definition f_of_bits :: "u32 \<Rightarrow> float32" where
  "f_of_bits w =
     (let s = bit w 31; e = unat (take_bit 8 (drop_bit 23 w)); f = unat (take_bit 23 w);
          v = (if e = 0 then of_nat f * 2 powi (- 149)
               else of_nat (2 ^ 23 + f) * 2 powi (int e - 150)) :: rat
      in if e = 255 then (if f = 0 then F_Inf s else F_NaN) else F_Fin (if s then - v else v))"

subsection \<open>The exponent\<close>

lemma floorlog_rat:
  assumes "0 < n"
  shows "2 powi (int (floorlog 2 n) - 1) \<le> (of_nat n :: rat)" and "(of_nat n :: rat) < 2 powi int (floorlog 2 n)"
proof -
  have fl: "1 \<le> floorlog 2 n"
    using assms by (simp add: floorlog_def)
  have "2 ^ (floorlog 2 n - 1) \<le> n" "n < 2 ^ floorlog 2 n"
    using floorlog_bounds [of n 2] assms by simp_all
  then have "(of_nat (2 ^ (floorlog 2 n - 1)) :: rat) \<le> of_nat n" "(of_nat n :: rat) < of_nat (2 ^ floorlog 2 n)"
    by (simp_all only: of_nat_le_iff of_nat_less_iff)
  then show "2 powi (int (floorlog 2 n) - 1) \<le> (of_nat n :: rat)" "(of_nat n :: rat) < 2 powi int (floorlog 2 n)"
    using fl by (simp_all add: power_int_def nat_diff_distrib)
qed

lemma int_bits_floorlog: "int_bits n = int (floorlog 2 (nat n))"
proof (induction n rule: int_bits.induct)
  case (1 n)
  then show ?case
    using compute_floorlog [of 2 "nat n"] by (simp add: int_bits.simps [of n] nat_div_distrib)
qed

lemma f32_exponent_bounds:
  assumes "0 < x"
  shows "2 powi f32_exponent x \<le> x" and "x < 2 powi (f32_exponent x + 1)"
proof -
  obtain n d where q: "quotient_of x = (n, d)" by (cases "quotient_of x")
  have d: "0 < d" and x: "x = of_int n / of_int d"
    using quotient_of_denom_pos [OF q] quotient_of_div [OF q] by simp_all
  with assms have n: "0 < n"
    by (simp add: zero_less_divide_iff)
  let ?a = "int (floorlog 2 (nat n))" and ?b = "int (floorlog 2 (nat d))"
  have nb: "2 powi (?a - 1) \<le> (of_int n :: rat)" "(of_int n :: rat) < 2 powi ?a"
    using floorlog_rat [of "nat n"] n by simp_all
  have db: "2 powi (?b - 1) \<le> (of_int d :: rat)" "(of_int d :: rat) < 2 powi ?b"
    using floorlog_rat [of "nat d"] d by simp_all
  have "2 powi (?a - 1) / 2 powi ?b \<le> x"
    unfolding x using nb db d n by (intro frac_le) simp_all
  moreover have "(2 :: rat) powi (?a - 1) / 2 powi ?b = 2 powi (?a - ?b - 1)"
    using power_int_diff [of "2 :: rat" "?a - 1" ?b] by (simp add: algebra_simps)
  ultimately have lo: "2 powi (?a - ?b - 1) \<le> x"
    by simp
  have "x < 2 powi ?a / 2 powi (?b - 1)"
    unfolding x using nb db n by (intro frac_less2 frac_less) simp_all
  moreover have "(2 :: rat) powi ?a / 2 powi (?b - 1) = 2 powi (?a - ?b + 1)"
    using power_int_diff [of "2 :: rat" ?a "?b - 1"] by (simp add: algebra_simps)
  ultimately have hi: "x < 2 powi (?a - ?b + 1)"
    by simp
  show "2 powi f32_exponent x \<le> x" "x < 2 powi (f32_exponent x + 1)"
    using lo hi by (simp_all add: f32_exponent_def q Let_def int_bits_floorlog)
qed

lemma f32_exponent_le:
  assumes "0 < x" and "x \<le> 2 powi k"
  shows "f32_exponent x \<le> k"
proof (rule ccontr)
  assume "\<not> f32_exponent x \<le> k"
  then have "(2 :: rat) powi k < 2 powi f32_exponent x"
    by (simp add: power_int_strict_increasing)
  then show False
    using f32_exponent_bounds(1) [OF assms(1)] assms(2) by simp
qed

subsection \<open>Bounds of rounded results\<close>

lemma round_half_even_mono_int:
  assumes "x \<le> of_int m"
  shows "round_half_even x \<le> m"
proof (cases "\<lfloor>x\<rfloor> = m")
  case True
  then have "x = of_int m"
    using assms of_int_floor_le [of x] by simp
  then show ?thesis
    by (simp add: round_half_even_def Let_def)
next
  case False
  then have "\<lfloor>x\<rfloor> + 1 \<le> m"
    using floor_mono [OF assms] by simp
  then show ?thesis
    by (auto simp: round_half_even_def Let_def)
qed

lemma round_half_even_nonneg: "0 \<le> x \<Longrightarrow> 0 \<le> round_half_even x"
  by (simp add: round_half_even_def Let_def)

lemma f_quantum_pos: "0 < f_quantum x"
  by (simp add: f_quantum_def)

lemma f_magnitude_bounds:
  assumes "0 < x" and "x \<le> 2 ^ k"
  shows "0 \<le> f_magnitude x" and "f_magnitude x \<le> 2 ^ k"
proof -
  let ?q = "max (f32_exponent x - 23) (- 149)"
  have q: "?q \<le> int k"
    using f32_exponent_le [OF assms(1), of "int k"] assms(2) by simp
  then have "(2 :: rat) ^ k = of_int (2 ^ nat (int k - ?q)) * 2 powi ?q"
    using power_int_add [of "2 :: rat" "int k - ?q" ?q] by (simp add: power_int_def)
  then have "x / f_quantum x \<le> of_int (2 ^ nat (int k - ?q))"
    using assms(2) by (simp add: f_quantum_def divide_le_eq)
  then have "of_int (round_half_even (x / f_quantum x)) \<le> (of_int (2 ^ nat (int k - ?q)) :: rat)"
    by (simp only: of_int_le_iff round_half_even_mono_int)
  then have "f_magnitude x \<le> of_int (2 ^ nat (int k - ?q)) * f_quantum x"
    unfolding f_magnitude_def using f_quantum_pos by (intro mult_right_mono) (auto intro: less_imp_le)
  then show "f_magnitude x \<le> 2 ^ k"
    using \<open>(2 :: rat) ^ k = _\<close> by (simp add: f_quantum_def)
  show "0 \<le> f_magnitude x"
    using assms(1) f_quantum_pos [of x] by (simp add: f_magnitude_def round_half_even_nonneg)
qed

lemma f_round_bounded:
  assumes "\<bar>x\<bar> \<le> 2 ^ k" and "k < 128"
  shows "\<exists>v. f_round x = F_Fin v \<and> \<bar>v\<bar> \<le> 2 ^ k \<and> (0 \<le> x \<longrightarrow> 0 \<le> v) \<and> (x \<le> 0 \<longrightarrow> v \<le> 0)"
proof (cases "x = 0")
  case False
  then have m: "0 \<le> f_magnitude \<bar>x\<bar>" "f_magnitude \<bar>x\<bar> \<le> 2 ^ k"
    using f_magnitude_bounds [of "\<bar>x\<bar>" k] assms(1) by simp_all
  moreover have "(2 :: rat) ^ k < 2 ^ 128"
    using assms(2) by (intro power_strict_increasing) simp_all
  ultimately show ?thesis
    using False by (auto simp: f_round_def Let_def)
qed (simp add: f_round_def)

lemma f_round_not_NaN [simp]: "f_round x \<noteq> F_NaN"
  by (simp add: f_round_def Let_def)

lemma f_clamp_cases:
  assumes "v \<noteq> F_NaN" and "lo \<le> hi"
  shows "\<exists>x. f_clamp v (F_Fin lo) (F_Fin hi) = F_Fin x \<and> lo \<le> x \<and> x \<le> hi"
  using assms by (cases v) (auto simp: f_clamp_def)

lemma f_clamp_NaN [simp]: "f_clamp F_NaN lo hi = F_NaN"
  by (cases lo; cases hi) (simp_all add: f_clamp_def)

lemma f_clamp_id: "lo \<le> x \<Longrightarrow> x \<le> hi \<Longrightarrow> f_clamp (F_Fin x) (F_Fin lo) (F_Fin hi) = F_Fin x"
  by (simp add: f_clamp_def)

lemma round_half_even_ge: "of_int m \<le> x \<Longrightarrow> m \<le> round_half_even x"
  using le_floor_iff [of m x] by (auto simp: round_half_even_def Let_def)

lemma f_round_pos:
  assumes "1 \<le> x" and "x \<le> 2 ^ k" and "k < 128"
  shows "\<exists>v. f_round x = F_Fin v \<and> 0 < v \<and> v \<le> 2 ^ k"
proof -
  have "(2 :: rat) powi (- 149) \<le> 1"
    by (simp add: power_int_minus inverse_le_1_iff)
  moreover have "(2 :: rat) powi (f32_exponent x - 23) \<le> 2 powi f32_exponent x"
    by (intro power_int_increasing) simp_all
  ultimately have "f_quantum x \<le> x"
    using f32_exponent_bounds(1) [of x] assms(1) by (auto simp: f_quantum_def max_def)
  then have "(of_int 1 :: rat) \<le> of_int (round_half_even (x / f_quantum x))"
    using f_quantum_pos [of x] by (simp only: of_int_le_iff) (intro round_half_even_ge, simp)
  then have "0 < f_magnitude x"
    using f_quantum_pos [of x] by (simp add: f_magnitude_def)
  then show ?thesis
    using f_round_bounded [of x k] assms by (auto simp: f_round_def Let_def split: if_splits)
qed

text \<open>Finite values of bounded magnitude, and what the operations do to the bound.\<close>

definition fin_le :: "nat \<Rightarrow> float32 \<Rightarrow> bool" where
  "fin_le k v \<longleftrightarrow> (\<exists>x. v = F_Fin x \<and> \<bar>x\<bar> \<le> 2 ^ k)"

lemma fin_le_not_NaN: "fin_le k v \<Longrightarrow> v \<noteq> F_NaN"
  by (auto simp: fin_le_def)

lemma fin_le_mono:
  assumes "fin_le k v" and "k \<le> l"
  shows "fin_le l v"
proof -
  have "(2 :: rat) ^ k \<le> 2 ^ l"
    using assms(2) by (intro power_increasing) simp_all
  then have "\<bar>x\<bar> \<le> 2 ^ l" if "\<bar>x\<bar> \<le> 2 ^ k" for x :: rat
    using that by (rule order_trans [rotated])
  then show ?thesis
    using assms(1) unfolding fin_le_def by blast
qed

lemma fin_le_mul:
  assumes "fin_le k u" and "fin_le l v" and "k + l < 128"
  shows "fin_le (k + l) (f_mul u v)"
proof -
  obtain x y where xy: "u = F_Fin x" "v = F_Fin y" "\<bar>x\<bar> \<le> 2 ^ k" "\<bar>y\<bar> \<le> 2 ^ l"
    using assms by (auto simp: fin_le_def)
  then have "\<bar>x * y\<bar> \<le> 2 ^ (k + l)"
    unfolding abs_mult power_add by (intro mult_mono) simp_all
  then show ?thesis
    using f_round_bounded [of "x * y" "k + l"] assms(3) xy by (auto simp: fin_le_def)
qed

lemma fin_le_add:
  assumes "fin_le k u" and "fin_le k v" and "k < 127"
  shows "fin_le (Suc k) (f_add u v)"
proof -
  obtain x y where xy: "u = F_Fin x" "v = F_Fin y" "\<bar>x\<bar> \<le> 2 ^ k" "\<bar>y\<bar> \<le> 2 ^ k"
    using assms by (auto simp: fin_le_def)
  then have "\<bar>x + y\<bar> \<le> 2 ^ Suc k"
    using abs_triangle_ineq [of x y] by simp
  then show ?thesis
    using f_round_bounded [of "x + y" "Suc k"] assms(3) xy by (auto simp: fin_le_def)
qed

lemma fin_le_neg: "fin_le k v \<Longrightarrow> fin_le k (f_neg v)"
  by (auto simp: fin_le_def)

lemma fin_le_sub: "fin_le k u \<Longrightarrow> fin_le k v \<Longrightarrow> k < 127 \<Longrightarrow> fin_le (Suc k) (f_sub u v)"
  unfolding f_sub_def by (intro fin_le_add fin_le_neg)

lemma fin_le_sum:
  "fin_le k u \<Longrightarrow> \<forall>v \<in> set vs. fin_le k v \<Longrightarrow> k + length vs < 128 \<Longrightarrow> fin_le (k + length vs) (foldl f_add u vs)"
proof (induction vs arbitrary: k u)
  case (Cons v vs)
  have "fin_le (Suc k) (f_add u v)" "\<forall>v \<in> set vs. fin_le (Suc k) v"
    using Cons.prems by (auto intro: fin_le_add fin_le_mono)
  from Cons.IH [OF this] show ?case
    using Cons.prems(3) by simp
qed simp

end
