(* ===== verification/Tiered_Memory.thy ===== *)
theory Tiered_Memory
  imports Std_Map Std_String Float32
begin

text \<open>
  The four-tier memory manager: \<^verbatim>\<open>code/include/hq/tiered_memory_manager.hpp\<close> and
  \<^verbatim>\<open>code/src/tiered_memory_manager.cpp\<close>, in the build without HIP and without \<^verbatim>\<open>numa.h\<close>.

  The state record has the members of \<^verbatim>\<open>TieredMemoryManager::Impl\<close> together with the heap and the
  spill directory, so that migrations move data.  Sizes, counters and handles are 64-bit words and
  wrap as \<^verbatim>\<open>std::size_t\<close> does.  The operating system is the argument \<open>ev\<close>: whether and where
  \<^verbatim>\<open>aligned_alloc\<close> finds a block, and what becomes of a spill file that is created or written.  Each
  public call is one atomic step.  The registry is an ordered map; the code uses an unordered one
  and iterates it only to release everything.
\<close>

unbundle bit_operations_syntax

subsection \<open>Data\<close>

datatype MemoryTier = Hot | Warm | Cool | Cold

datatype TierError = OutOfMemory | InvalidHandle | MigrationFailed | TierUnavailable
  | AlignmentError | InvalidSize

datatype tm_error = Tier TierError | HookThrew

type_synonym TierHandle = u64
type_synonym address = nat
type_synonym heap = "address \<Rightarrow> byte list option"
type_synonym files = "string \<Rightarrow> byte list option"

record TierAllocation =
  ta_handle :: TierHandle
  ta_tier :: MemoryTier
  ta_ptr :: "address option"
  ta_device_ptr :: "address option"
  ta_size :: u64
  ta_align :: u64

definition null_alloc :: TierAllocation where
  "null_alloc = \<lparr>ta_handle = 0, ta_tier = Cold, ta_ptr = None, ta_device_ptr = None,
     ta_size = 0, ta_align = 0\<rparr>"

text \<open>The watermark fractions and the GPU budget of the configuration are never read in this build and
  are left out.\<close>

record TieredMemoryConfig =
  cf_warm_capacity :: u64
  cf_cool_capacity :: u64
  cf_cold_capacity :: u64
  cf_hot_alignment :: u64
  cf_warm_alignment :: u64
  cf_cool_alignment :: u64
  cf_cold_alignment :: u64
  cf_cold_spill_dir :: string

definition default_config :: TieredMemoryConfig where
  "default_config = \<lparr>cf_warm_capacity = 2 ^ 30, cf_cool_capacity = 512 * 2 ^ 20,
     cf_cold_capacity = 4 * 2 ^ 40, cf_hot_alignment = 256, cf_warm_alignment = 64,
     cf_cool_alignment = 64, cf_cold_alignment = 512, cf_cold_spill_dir = ''/tmp/cerberus_cold''\<rparr>"

record PmrResource =
  pr_capacity :: u64
  pr_default_align :: u64
  pr_allocated :: u64

record TierAccounting =
  ac_allocated :: u64
  ac_peak :: u64
  ac_alloc_count :: u64
  ac_free_count :: u64
  ac_migration_in :: u64
  ac_migration_out :: u64
  ac_capacity :: u64
  ac_available :: bool

type_synonym compute_hook = "byte list \<Rightarrow> byte list \<Rightarrow> u64 \<Rightarrow> MemoryTier \<Rightarrow> MemoryTier \<Rightarrow> byte list option"

record Tmm =
  tm_cfg :: TieredMemoryConfig
  tm_compute_hook :: "compute_hook option"
  tm_migrations :: "(TierHandle \<times> MemoryTier \<times> MemoryTier) list"
  tm_cool_res :: PmrResource
  tm_warm_res :: PmrResource
  tm_registry :: "(TierHandle, TierAllocation) smap"
  tm_next_handle :: TierHandle
  tm_acct :: "MemoryTier \<Rightarrow> TierAccounting"
  tm_lru :: "MemoryTier \<Rightarrow> TierHandle list"
  tm_cold_files :: "(TierHandle, string) smap"
  tm_heap :: heap
  tm_files :: files

datatype spill_result = SpillNoOpen | SpillPartial "byte list" | SpillOk

record tm_env =
  ev_malloc :: "heap \<Rightarrow> u64 \<Rightarrow> u64 \<Rightarrow> (address \<times> byte list) option"
  ev_spill :: "files \<Rightarrow> string \<Rightarrow> u64 \<Rightarrow> spill_result"
  ev_write :: "files \<Rightarrow> string \<Rightarrow> byte list \<Rightarrow> byte list option"
  ev_mkdir :: "string \<Rightarrow> bool"

subsection \<open>Alignment and the two memory resources\<close>

definition align_up :: "u64 \<Rightarrow> u64 \<Rightarrow> u64" where
  "align_up v a = (v + a - 1) AND NOT (a - 1)"

definition pmr_size :: "PmrResource \<Rightarrow> u64 \<Rightarrow> u64 \<Rightarrow> u64" where
  "pmr_size r bytes alignment = align_up bytes (max alignment (pr_default_align r))"

text \<open>\<open>None\<close> is the \<^verbatim>\<open>std::bad_alloc\<close> that \<^verbatim>\<open>do_allocate\<close> throws.\<close>

definition do_allocate ::
  "tm_env \<Rightarrow> u64 \<Rightarrow> u64 \<Rightarrow> PmrResource \<Rightarrow> heap \<Rightarrow> (address \<times> PmrResource \<times> heap) option" where
  "do_allocate ev bytes alignment r hp =
     (let actual = pmr_size r bytes alignment
      in if 0 < pr_capacity r \<and> pr_capacity r < pr_allocated r + actual then None
         else case ev_malloc ev hp (max alignment (pr_default_align r)) actual of
                None \<Rightarrow> None
              | Some (p, blk) \<Rightarrow>
                  Some (p, r\<lparr>pr_allocated := pr_allocated r + actual\<rparr>, hp(p \<mapsto> blk)))"

definition do_deallocate :: "address \<Rightarrow> u64 \<Rightarrow> u64 \<Rightarrow> PmrResource \<Rightarrow> heap \<Rightarrow> PmrResource \<times> heap" where
  "do_deallocate p bytes alignment r hp =
     (let actual = pmr_size r bytes alignment
      in (r\<lparr>pr_allocated := (if actual \<le> pr_allocated r then pr_allocated r - actual else 0)\<rparr>,
          hp(p := None)))"

subsection \<open>Construction\<close>

definition fresh_accounting :: "u64 \<Rightarrow> bool \<Rightarrow> TierAccounting" where
  "fresh_accounting cap avail = \<lparr>ac_allocated = 0, ac_peak = 0, ac_alloc_count = 0, ac_free_count = 0,
     ac_migration_in = 0, ac_migration_out = 0, ac_capacity = cap, ac_available = avail\<rparr>"

definition new_tmm :: "tm_env \<Rightarrow> TieredMemoryConfig \<Rightarrow> heap \<Rightarrow> files \<Rightarrow> Tmm" where
  "new_tmm ev cfg hp fs =
     (let cold = ev_mkdir ev (cf_cold_spill_dir cfg)
      in \<lparr>tm_cfg = cfg, tm_compute_hook = None, tm_migrations = [],
          tm_cool_res = \<lparr>pr_capacity = cf_cool_capacity cfg,
                         pr_default_align = cf_cool_alignment cfg, pr_allocated = 0\<rparr>,
          tm_warm_res = \<lparr>pr_capacity = cf_warm_capacity cfg,
                         pr_default_align = cf_warm_alignment cfg, pr_allocated = 0\<rparr>,
          tm_registry = [], tm_next_handle = 1,
          tm_acct = (\<lambda>t. case t of
              Hot \<Rightarrow> fresh_accounting 0 False
            | Warm \<Rightarrow> fresh_accounting (cf_warm_capacity cfg) True
            | Cool \<Rightarrow> fresh_accounting (cf_cool_capacity cfg) True
            | Cold \<Rightarrow> fresh_accounting (if cold then cf_cold_capacity cfg else 0) cold),
          tm_lru = (\<lambda>t. []), tm_cold_files = [], tm_heap = hp, tm_files = fs\<rparr>)"

subsection \<open>Allocation\<close>

definition tier_alignment :: "TieredMemoryConfig \<Rightarrow> MemoryTier \<Rightarrow> u64" where
  "tier_alignment cfg t = (case t of Hot \<Rightarrow> cf_hot_alignment cfg | Warm \<Rightarrow> cf_warm_alignment cfg
     | Cool \<Rightarrow> cf_cool_alignment cfg | Cold \<Rightarrow> cf_cold_alignment cfg)"

definition default_align :: "MemoryTier \<Rightarrow> Tmm \<Rightarrow> u64" where
  "default_align t s = (case t of Warm \<Rightarrow> pr_default_align (tm_warm_res s)
     | Cool \<Rightarrow> pr_default_align (tm_cool_res s) | _ \<Rightarrow> 64)"

definition aligned_size :: "MemoryTier \<Rightarrow> u64 \<Rightarrow> u64 \<Rightarrow> Tmm \<Rightarrow> u64" where
  "aligned_size t sz align s = align_up sz (max align (default_align t s))"

fun hex_digits :: "nat \<Rightarrow> string" where
  "hex_digits n = (let d = (''0123456789abcdef'' ! (n mod 16))
                   in if n < 16 then [d] else hex_digits (n div 16) @ [d])"

declare hex_digits.simps [simp del]

definition path_join :: "string \<Rightarrow> string \<Rightarrow> string" where
  "path_join dir name = (if dir = [] \<or> last dir = CHR ''/'' then dir @ name else dir @ ''/'' @ name)"

definition spill_path :: "TieredMemoryConfig \<Rightarrow> TierHandle \<Rightarrow> string" where
  "spill_path cfg h = path_join (cf_cold_spill_dir cfg) (''cerberus_'' @ hex_digits (unat h) @ ''.spill'')"

definition update_acct :: "MemoryTier \<Rightarrow> (TierAccounting \<Rightarrow> TierAccounting) \<Rightarrow> Tmm \<Rightarrow> Tmm" where
  "update_acct t f s = s\<lparr>tm_acct := (tm_acct s)(t := f (tm_acct s t))\<rparr>"

text \<open>The backing store of one tier: the branch on \<^verbatim>\<open>tier\<close> in the body of the allocation loop.  The
  descriptor carries handle 0 until one is assigned.\<close>

definition back_tier ::
  "tm_env \<Rightarrow> MemoryTier \<Rightarrow> TierAllocation \<Rightarrow> Tmm \<Rightarrow> TierAllocation option \<times> Tmm" where
  "back_tier ev t a s = (case t of
      Hot \<Rightarrow> (None, s)
    | Warm \<Rightarrow> (case do_allocate ev (ta_size a) (ta_align a) (tm_warm_res s) (tm_heap s) of
         None \<Rightarrow> (None, s)
       | Some (p, r, hp) \<Rightarrow> (Some (a\<lparr>ta_ptr := Some p\<rparr>), s\<lparr>tm_warm_res := r, tm_heap := hp\<rparr>))
    | Cool \<Rightarrow> (case do_allocate ev (ta_size a) (ta_align a) (tm_cool_res s) (tm_heap s) of
         None \<Rightarrow> (None, s)
       | Some (p, r, hp) \<Rightarrow> (Some (a\<lparr>ta_ptr := Some p\<rparr>), s\<lparr>tm_cool_res := r, tm_heap := hp\<rparr>))
    | Cold \<Rightarrow>
        (let h = tm_next_handle s; path = spill_path (tm_cfg s) h
         in case ev_spill ev (tm_files s) path (ta_size a) of
              SpillNoOpen \<Rightarrow> (None, s)
            | SpillPartial bs \<Rightarrow> (None, s\<lparr>tm_files := (tm_files s)(path \<mapsto> bs)\<rparr>)
            | SpillOk \<Rightarrow>
                (Some (a\<lparr>ta_ptr := None, ta_handle := h\<rparr>),
                 s\<lparr>tm_next_handle := h + 1,
                   tm_files := (tm_files s)(path \<mapsto> replicate (unat (ta_size a)) 0),
                   tm_cold_files := smap_put h path (tm_cold_files s)\<rparr>)))"

text \<open>Handle, accounting, registry and LRU list of a block whose backing store exists.  \<^verbatim>\<open>emplace\<close>
  keeps an existing entry.\<close>

definition assign_handle :: "TierAllocation \<Rightarrow> Tmm \<Rightarrow> TierAllocation \<times> Tmm" where
  "assign_handle a s =
     (if ta_handle a = 0 then (a\<lparr>ta_handle := tm_next_handle s\<rparr>,
                               s\<lparr>tm_next_handle := tm_next_handle s + 1\<rparr>)
      else (a, s))"

definition account_alloc :: "u64 \<Rightarrow> TierAccounting \<Rightarrow> TierAccounting" where
  "account_alloc n acc =
     (let cur = ac_allocated acc + n
      in acc\<lparr>ac_allocated := cur, ac_peak := max (ac_peak acc) cur,
             ac_alloc_count := ac_alloc_count acc + 1\<rparr>)"

definition register_alloc :: "TierAllocation \<Rightarrow> Tmm \<Rightarrow> Tmm" where
  "register_alloc a s =
     s\<lparr>tm_registry := (if smap_count (tm_registry s) (ta_handle a) then tm_registry s
                        else smap_put (ta_handle a) a (tm_registry s)),
       tm_lru := (tm_lru s)(ta_tier a := ta_handle a # tm_lru s (ta_tier a))\<rparr>"

definition commit_alloc :: "TierAllocation \<Rightarrow> u64 \<Rightarrow> Tmm \<Rightarrow> TierAllocation \<times> Tmm" where
  "commit_alloc a n s =
     (let (a', s1) = assign_handle a s;
          s2 = update_acct (ta_tier a') (account_alloc n) s1
      in (a', register_alloc a' s2))"

definition try_tier ::
  "tm_env \<Rightarrow> u64 \<Rightarrow> u64 \<Rightarrow> MemoryTier \<Rightarrow> Tmm \<Rightarrow> TierAllocation option \<times> Tmm" where
  "try_tier ev sz alignment t s =
     (let acc = tm_acct s t;
          effective = (if alignment = 0 then tier_alignment (tm_cfg s) t else alignment);
          n = aligned_size t sz effective s
      in if \<not> ac_available acc then (None, s)
         else if 0 < ac_capacity acc \<and> ac_capacity acc < ac_allocated acc + n then (None, s)
         else case back_tier ev t \<lparr>ta_handle = 0, ta_tier = t, ta_ptr = None, ta_device_ptr = None,
                                   ta_size = sz, ta_align = effective\<rparr> s of
                (None, s1) \<Rightarrow> (None, s1)
              | (Some a, s1) \<Rightarrow> (case commit_alloc a n s1 of (a', s2) \<Rightarrow> (Some a', s2)))"

fun allocate_from ::
  "tm_env \<Rightarrow> u64 \<Rightarrow> u64 \<Rightarrow> MemoryTier list \<Rightarrow> Tmm \<Rightarrow> (tm_error, TierAllocation) expected \<times> Tmm" where
  "allocate_from ev sz alignment [] s = (Inl (Tier OutOfMemory), s)"
| "allocate_from ev sz alignment (t # ts) s =
     (case try_tier ev sz alignment t s of
        (Some a, s1) \<Rightarrow> (Inr a, s1)
      | (None, s1) \<Rightarrow> allocate_from ev sz alignment ts s1)"

fun tiers_from :: "MemoryTier \<Rightarrow> MemoryTier list" where
  "tiers_from Hot = [Hot, Warm, Cool, Cold]"
| "tiers_from Warm = [Warm, Cool, Cold]"
| "tiers_from Cool = [Cool, Cold]"
| "tiers_from Cold = [Cold]"

definition allocate ::
  "tm_env \<Rightarrow> u64 \<Rightarrow> MemoryTier \<Rightarrow> u64 \<Rightarrow> Tmm \<Rightarrow> (tm_error, TierAllocation) expected \<times> Tmm" where
  "allocate ev sz preferred alignment s =
     (if sz = 0 then (Inl (Tier InvalidSize), s)
      else allocate_from ev sz alignment (tiers_from preferred) s)"

subsection \<open>Release\<close>

definition remove_lru :: "MemoryTier \<Rightarrow> TierHandle \<Rightarrow> Tmm \<Rightarrow> Tmm" where
  "remove_lru t h s = s\<lparr>tm_lru := (tm_lru s)(t := filter (\<lambda>x. x \<noteq> h) (tm_lru s t))\<rparr>"

definition release_cold_file :: "TierHandle \<Rightarrow> Tmm \<Rightarrow> Tmm" where
  "release_cold_file h s = (case smap_find (tm_cold_files s) h of
      None \<Rightarrow> s
    | Some path \<Rightarrow> s\<lparr>tm_files := (tm_files s)(path := None),
                       tm_cold_files := smap_erase h (tm_cold_files s)\<rparr>)"

definition release_memory :: "TierAllocation \<Rightarrow> Tmm \<Rightarrow> Tmm" where
  "release_memory a s = (case (ta_tier a, ta_ptr a) of
      (Warm, Some p) \<Rightarrow> (case do_deallocate p (ta_size a) (ta_align a) (tm_warm_res s) (tm_heap s) of
          (r, hp) \<Rightarrow> s\<lparr>tm_warm_res := r, tm_heap := hp\<rparr>)
    | (Cool, Some p) \<Rightarrow> (case do_deallocate p (ta_size a) (ta_align a) (tm_cool_res s) (tm_heap s) of
          (r, hp) \<Rightarrow> s\<lparr>tm_cool_res := r, tm_heap := hp\<rparr>)
    | _ \<Rightarrow> s)"

definition account_free :: "u64 \<Rightarrow> TierAccounting \<Rightarrow> TierAccounting" where
  "account_free n acc =
     acc\<lparr>ac_allocated := (if n \<le> ac_allocated acc then ac_allocated acc - n else 0),
         ac_free_count := ac_free_count acc + 1\<rparr>"

definition free_handle :: "TierHandle \<Rightarrow> Tmm \<Rightarrow> (tm_error, unit) expected \<times> Tmm" where
  "free_handle h s = (case smap_find (tm_registry s) h of
      None \<Rightarrow> (Inl (Tier InvalidHandle), s)
    | Some a \<Rightarrow>
        (let s1 = remove_lru (ta_tier a) h s;
             s2 = (if ta_tier a = Cold then release_cold_file h s1 else release_memory a s1);
             s3 = s2\<lparr>tm_registry := smap_erase h (tm_registry s2)\<rparr>;
             n = aligned_size (ta_tier a) (ta_size a) (ta_align a) s3
         in (Inr (), update_acct (ta_tier a) (account_free n) s3)))"

definition query :: "TierHandle \<Rightarrow> Tmm \<Rightarrow> (tm_error, TierAllocation) expected" where
  "query h s = (case smap_find (tm_registry s) h of
      None \<Rightarrow> Inl (Tier InvalidHandle) | Some a \<Rightarrow> Inr a)"

text \<open>The destructor frees every handle.\<close>

definition destroy :: "Tmm \<Rightarrow> Tmm" where
  "destroy s = fold (\<lambda>h s. snd (free_handle h s)) (map fst (tm_registry s)) s"

definition drop_entry :: "TierHandle \<times> TierAllocation \<Rightarrow> Tmm \<Rightarrow> Tmm" where
  "drop_entry e s = (case e of (h, a) \<Rightarrow>
     if ta_tier a = Cold
     then (case smap_find (tm_cold_files s) h of None \<Rightarrow> s
           | Some path \<Rightarrow> s\<lparr>tm_files := (tm_files s)(path := None)\<rparr>)
     else release_memory a s)"

definition reset_for_testing :: "Tmm \<Rightarrow> Tmm" where
  "reset_for_testing s =
     (let s1 = fold drop_entry (tm_registry s) s
      in s1\<lparr>tm_registry := [], tm_lru := (\<lambda>t. []), tm_cold_files := [],
            tm_acct := (\<lambda>t. fresh_accounting (ac_capacity (tm_acct s1 t)) (ac_available (tm_acct s1 t)))\<rparr>)"

subsection \<open>Migration\<close>

definition hotter :: "MemoryTier \<Rightarrow> MemoryTier" where
  "hotter t = (case t of Hot \<Rightarrow> Hot | Warm \<Rightarrow> Hot | Cool \<Rightarrow> Warm | Cold \<Rightarrow> Cool)"

definition colder :: "MemoryTier \<Rightarrow> MemoryTier" where
  "colder t = (case t of Hot \<Rightarrow> Warm | Warm \<Rightarrow> Cool | Cool \<Rightarrow> Cold | Cold \<Rightarrow> Cold)"

definition block_at :: "address \<Rightarrow> Tmm \<Rightarrow> byte list" where
  "block_at p s = (case tm_heap s p of None \<Rightarrow> [] | Some blk \<Rightarrow> blk)"

text \<open>Writing \<open>bs\<close> at the start of a block; bytes past its end would be a buffer overrun.\<close>

definition overlay :: "byte list \<Rightarrow> byte list \<Rightarrow> byte list" where
  "overlay bs blk = take (length blk) (bs @ drop (length bs) blk)"

text \<open>\<^verbatim>\<open>memcpy\<close>, or the compute hook in its place; \<open>None\<close> is a hook that throws.\<close>

definition transfer :: "TierAllocation \<Rightarrow> TierAllocation \<Rightarrow> Tmm \<Rightarrow> Tmm option" where
  "transfer src dst s = (case (ta_ptr src, ta_ptr dst) of
      (Some p, Some q) \<Rightarrow>
        (case tm_compute_hook s of
           None \<Rightarrow> Some (s\<lparr>tm_heap := (tm_heap s)(q \<mapsto>
               overlay (take (unat (ta_size src)) (block_at p s)) (block_at q s))\<rparr>)
         | Some hook \<Rightarrow>
             (case hook (block_at p s) (block_at q s) (ta_size src) (ta_tier src) (ta_tier dst) of
                None \<Rightarrow> None
              | Some bs \<Rightarrow> Some (s\<lparr>tm_heap := (tm_heap s)(q \<mapsto> overlay bs (block_at q s))\<rparr>)))
    | _ \<Rightarrow> Some s)"

definition load_spill :: "TierHandle \<Rightarrow> TierAllocation \<Rightarrow> TierAllocation \<Rightarrow> Tmm \<Rightarrow> Tmm" where
  "load_spill h src dst s = (case (smap_find (tm_cold_files s) h, ta_ptr dst) of
      (Some path, Some q) \<Rightarrow>
        (case tm_files s path of
           None \<Rightarrow> s
         | Some content \<Rightarrow>
             s\<lparr>tm_heap := (tm_heap s)(q \<mapsto>
                overlay (take (unat (ta_size src)) content) (block_at q s))\<rparr>)
    | _ \<Rightarrow> s)"

definition store_spill :: "tm_env \<Rightarrow> TierAllocation \<Rightarrow> TierAllocation \<Rightarrow> Tmm \<Rightarrow> Tmm" where
  "store_spill ev src dst s = (case (smap_find (tm_cold_files s) (ta_handle dst), ta_ptr src) of
      (Some path, Some p) \<Rightarrow>
        (case ev_write ev (tm_files s) path (take (unat (ta_size src)) (block_at p s)) of
           None \<Rightarrow> s
         | Some content \<Rightarrow> s\<lparr>tm_files := (tm_files s)(path \<mapsto> content)\<rparr>)
    | _ \<Rightarrow> s)"

text \<open>The \<^verbatim>\<open>on_migrate\<close> notification (logged in \<open>tm_migrations\<close>), migration counters, and the registry swap that gives the original handle the new block
  and drops the temporary handle, followed by the release of the old block and its accounting.\<close>

definition count_migration :: "TierHandle \<Rightarrow> MemoryTier \<Rightarrow> MemoryTier \<Rightarrow> Tmm \<Rightarrow> Tmm" where
  "count_migration h t t' s =
     update_acct t' (\<lambda>c. c\<lparr>ac_migration_in := ac_migration_in c + 1\<rparr>)
       (update_acct t (\<lambda>c. c\<lparr>ac_migration_out := ac_migration_out c + 1\<rparr>)
         (s\<lparr>tm_migrations := tm_migrations s @ [(h, t, t')]\<rparr>))"

definition swap_entry :: "TierHandle \<Rightarrow> TierAllocation \<Rightarrow> TierAllocation \<Rightarrow> Tmm \<Rightarrow> Tmm" where
  "swap_entry h old new s =
     (let s1 = remove_lru (ta_tier old) h s;
          s2 = s1\<lparr>tm_registry :=
                 smap_erase (ta_handle new) (smap_put h (new\<lparr>ta_handle := h\<rparr>) (tm_registry s1))\<rparr>
      in remove_lru (ta_tier new) (ta_handle new) s2)"

definition account_min_free :: "u64 \<Rightarrow> TierAccounting \<Rightarrow> TierAccounting" where
  "account_min_free n acc =
     acc\<lparr>ac_allocated := ac_allocated acc - min (ac_allocated acc) n,
         ac_free_count := ac_free_count acc + 1\<rparr>"

definition settle_old :: "MemoryTier \<Rightarrow> TierAllocation \<Rightarrow> Tmm \<Rightarrow> Tmm" where
  "settle_old t old s =
     update_acct t (account_min_free (aligned_size (ta_tier old) (ta_size old) (ta_align old) s)) s"

definition current_entry :: "TierHandle \<Rightarrow> Tmm \<Rightarrow> TierAllocation" where
  "current_entry h s = smap_get null_alloc (tm_registry s) h"

definition with_query :: "TierHandle \<Rightarrow> Tmm \<Rightarrow> (tm_error, TierAllocation) expected \<times> Tmm" where
  "with_query h s = (query h s, s)"

definition promote_swap ::
  "TierHandle \<Rightarrow> MemoryTier \<Rightarrow> TierAllocation \<Rightarrow> TierAllocation \<Rightarrow> Tmm \<Rightarrow> Tmm" where
  "promote_swap h t old new s =
     settle_old t old
       (if (ta_tier old = Warm \<or> ta_tier old = Cool) \<and> ta_ptr old \<noteq> None
        then release_memory old (swap_entry h old new s)
        else if ta_tier old = Hot then swap_entry h old new s
        else release_cold_file h (swap_entry h old new s))"

definition demote_swap ::
  "TierHandle \<Rightarrow> MemoryTier \<Rightarrow> TierAllocation \<Rightarrow> TierAllocation \<Rightarrow> Tmm \<Rightarrow> Tmm" where
  "demote_swap h t old new s = settle_old t old (release_memory old (swap_entry h old new s))"

definition promote :: "tm_env \<Rightarrow> TierHandle \<Rightarrow> Tmm \<Rightarrow> (tm_error, TierAllocation) expected \<times> Tmm" where
  "promote ev h s = (case smap_find (tm_registry s) h of
      None \<Rightarrow> (Inl (Tier InvalidHandle), s)
    | Some src \<Rightarrow>
        if ta_tier src = Hot then (Inr src, s)
        else case allocate ev (ta_size src) (hotter (ta_tier src)) (ta_align src) s of
          (Inl _, s1) \<Rightarrow> (Inl (Tier MigrationFailed), s1)
        | (Inr new, s1) \<Rightarrow>
            (case (if ta_tier src = Cold then Some (load_spill h src new s1) else transfer src new s1) of
               None \<Rightarrow> (Inl HookThrew, s1)
             | Some s2 \<Rightarrow>
                 with_query h (promote_swap h (ta_tier src)
                   (current_entry h (count_migration h (ta_tier src) (ta_tier new) s2)) new
                   (count_migration h (ta_tier src) (ta_tier new) s2))))"

definition demote :: "tm_env \<Rightarrow> TierHandle \<Rightarrow> Tmm \<Rightarrow> (tm_error, TierAllocation) expected \<times> Tmm" where
  "demote ev h s = (case smap_find (tm_registry s) h of
      None \<Rightarrow> (Inl (Tier InvalidHandle), s)
    | Some src \<Rightarrow>
        if ta_tier src = Cold then (Inr src, s)
        else if \<not> ac_available (tm_acct s (colder (ta_tier src))) then (Inl (Tier TierUnavailable), s)
        else case allocate ev (ta_size src) (colder (ta_tier src)) (ta_align src) s of
            (Inl _, s1) \<Rightarrow> (Inl (Tier MigrationFailed), s1)
          | (Inr new, s1) \<Rightarrow>
              (case (if colder (ta_tier src) = Cold
                     then Some (if ta_ptr new = None then store_spill ev src new s1 else s1)
                     else transfer src new s1) of
                 None \<Rightarrow> (Inl HookThrew, s1)
               | Some s2 \<Rightarrow>
                   with_query h (demote_swap h (ta_tier src)
                     (current_entry h (count_migration h (ta_tier src) (ta_tier new) s2)) new
                     (count_migration h (ta_tier src) (ta_tier new) s2))))"

subsection \<open>Pressure eviction and telemetry\<close>

text \<open>Conversions and divisions of \<^verbatim>\<open>float\<close> round to 24 significant bits, ties to even.  The values that
  occur here are zero or between \<open>2 powi - 64\<close> and \<open>2 powi 64\<close>, inside the normal range.\<close>

definition f32 :: "rat \<Rightarrow> rat" where
  "f32 x = (if x \<le> 0 then 0
            else let u = 2 powi (f32_exponent x - 23) in of_int (round_half_even (x / u)) * u)"

definition f32_of_size :: "u64 \<Rightarrow> rat" where
  "f32_of_size n = f32 (of_nat (unat n))"

definition fill_ratio :: "TierAccounting \<Rightarrow> rat" where
  "fill_ratio acc = f32 (f32_of_size (ac_allocated acc) / f32_of_size (ac_capacity acc))"

text \<open>The eviction loop, with fuel for the number of iterations; \<open>None\<close> means it is still running.  The target
  is any \<^verbatim>\<open>float\<close>: nothing is at most a NaN.\<close>

fun evict_loop ::
  "tm_env \<Rightarrow> nat \<Rightarrow> MemoryTier \<Rightarrow> float32 \<Rightarrow> nat \<Rightarrow> Tmm \<Rightarrow> ((tm_error, nat) expected \<times> Tmm) option" where
  "evict_loop ev 0 t target evicted s = None"
| "evict_loop ev (Suc fuel) t target evicted s =
     (if f_leq (F_Fin (fill_ratio (tm_acct s t))) target then Some (Inr evicted, s)
      else if tm_lru s t = [] then Some (Inr evicted, s)
      else let victim = last (tm_lru s t) in
        if victim = 0 then Some (Inr evicted, s)
        else case demote ev victim s of
               (Inl HookThrew, s1) \<Rightarrow> Some (Inl HookThrew, s1)
             | (Inl (Tier e), s1) \<Rightarrow> Some (Inr evicted, s1)
             | (Inr a, s1) \<Rightarrow> evict_loop ev fuel t target (Suc evicted) s1)"

definition pressure_evict ::
  "tm_env \<Rightarrow> nat \<Rightarrow> MemoryTier \<Rightarrow> float32 \<Rightarrow> Tmm \<Rightarrow> ((tm_error, nat) expected \<times> Tmm) option" where
  "pressure_evict ev fuel t target s =
     (if \<not> ac_available (tm_acct s t) then Some (Inl (Tier TierUnavailable), s)
      else if ac_capacity (tm_acct s t) = 0 then Some (Inr 0, s)
      else evict_loop ev fuel t target 0 s)"

record TierStats =
  ts_tier :: MemoryTier
  ts_available :: bool
  ts_capacity :: u64
  ts_allocated :: u64
  ts_peak :: u64
  ts_alloc_count :: u64
  ts_free_count :: u64
  ts_migration_in :: u64
  ts_migration_out :: u64
  ts_fill_pct :: rat

definition stats :: "MemoryTier \<Rightarrow> Tmm \<Rightarrow> TierStats" where
  "stats t s = (let acc = tm_acct s t in
     \<lparr>ts_tier = t, ts_available = ac_available acc, ts_capacity = ac_capacity acc,
      ts_allocated = ac_allocated acc, ts_peak = ac_peak acc,
      ts_alloc_count = ac_alloc_count acc, ts_free_count = ac_free_count acc,
      ts_migration_in = ac_migration_in acc, ts_migration_out = ac_migration_out acc,
      ts_fill_pct = (if 0 < ac_capacity acc then f32 (fill_ratio acc * 100) else 0)\<rparr>)"

definition all_stats :: "Tmm \<Rightarrow> TierStats list" where
  "all_stats s = [stats Hot s, stats Warm s, stats Cool s, stats Cold s]"

definition tier_available :: "MemoryTier \<Rightarrow> Tmm \<Rightarrow> bool" where
  "tier_available t s = ac_available (tm_acct s t)"

definition register_compute_hook ::
  "compute_hook option \<Rightarrow> Tmm \<Rightarrow> (string, unit) expected \<times> Tmm" where
  "register_compute_hook hook s = (case hook of
      None \<Rightarrow> (Inl ''null hook'', s) | Some f \<Rightarrow> (Inr (), s\<lparr>tm_compute_hook := Some f\<rparr>))"

definition predict_pressure :: "MemoryTier \<Rightarrow> Tmm \<Rightarrow> u64" where
  "predict_pressure t s =
     (let cap = ac_capacity (tm_acct s t); used = ac_allocated (tm_acct s t)
      in if cap \<le> used then 0 else cap - used)"

end
