(* ===== verification/Tiered_Laws.thy ===== *)
theory Tiered_Laws
  imports Tiered_Memory
begin

text \<open>
  Correctness of the four-tier memory manager: the arithmetic of \<^verbatim>\<open>align_up\<close>, the invariant that ties
  the registry, the LRU lists, the counters, the memory resources and the heap together, and what
  each operation keeps of it; then what migrations do to the data, and termination of eviction.
\<close>

unbundle bit_operations_syntax

subsection \<open>Alignment\<close>

lemma word_and_not_diff: "x AND NOT m = x - (x AND m)" for x m :: "'a::len word"
proof -
  have "(x AND m) + (x AND NOT m) = (x AND m) OR (x AND NOT m)"
    by (rule disjunctive_add) (simp add: bit_simps)
  also have "\<dots> = x"
    by (rule bit_word_eqI) (auto simp: bit_simps)
  finally show ?thesis
    by (simp add: algebra_simps)
qed

lemma align_up_bounds:
  assumes "0 < a" and "unat v + unat a \<le> 2 ^ 64"
  shows "unat v \<le> unat (align_up v a)" and "unat (align_up v a) < unat v + unat a"
proof -
  let ?m = "a - 1"
  have m: "unat ?m = unat a - 1" and a: "0 < unat a"
    using assms(1) by (simp_all add: unat_minus_one word_greater_zero_iff unat_gt_0)
  have s: "unat (v + ?m) = unat v + unat ?m"
    using assms(2) a by (simp add: unat_word_ariths m)
  have eq: "align_up v a = (v + ?m) - ((v + ?m) AND ?m)"
    unfolding align_up_def word_and_not_diff by (simp only: add_diff_eq)
  have le: "(v + ?m) AND ?m \<le> v + ?m" "(v + ?m) AND ?m \<le> ?m"
    by (rule word_and_le2, rule word_and_le1)
  have "unat (align_up v a) = unat (v + ?m) - unat ((v + ?m) AND ?m)"
    unfolding eq by (rule unat_sub) (rule le)
  moreover have "unat ((v + ?m) AND ?m) \<le> unat ?m"
    using le by (simp add: word_le_nat_alt)
  ultimately show "unat v \<le> unat (align_up v a)" "unat (align_up v a) < unat v + unat a"
    using s m a by simp_all
qed

subsection \<open>Sums over a map\<close>

lemma smap_put_sum:
  fixes f :: "'k::linorder \<times> 'v \<Rightarrow> nat"
  assumes "smap_wf m"
  shows "sum_list (map f (smap_put k v m)) + (case smap_find m k of None \<Rightarrow> 0 | Some w \<Rightarrow> f (k, w))
       = sum_list (map f m) + f (k, v)"
  using assms
proof (induction k v m rule: smap_put.induct)
  case (2 k v e m)
  then show ?case
    by (cases e) (auto simp: smap_wf_def smap_find_def split: option.splits if_splits
        dest!: map_of_SomeD)
qed (simp add: smap_find_def)

lemma smap_erase_sum:
  fixes f :: "'k::linorder \<times> 'v \<Rightarrow> nat"
  assumes "smap_wf m"
  shows "sum_list (map f (smap_erase k m)) + (case smap_find m k of None \<Rightarrow> 0 | Some w \<Rightarrow> f (k, w))
       = sum_list (map f m)"
  using assms
proof (induction m)
  case (Cons e m)
  then show ?case
    by (cases e) (auto simp: smap_wf_def smap_find_def smap_erase_def split: option.splits if_splits
        dest!: map_of_SomeD)
qed (simp add: smap_find_def smap_erase_def)

subsection \<open>The invariant\<close>

definition tier_size :: "Tmm \<Rightarrow> TierAllocation \<Rightarrow> nat" where
  "tier_size s a = unat (aligned_size (ta_tier a) (ta_size a) (ta_align a) s)"

definition cost :: "MemoryTier \<Rightarrow> Tmm \<Rightarrow> TierAllocation \<Rightarrow> nat" where
  "cost t s a = (if ta_tier a = t then tier_size s a else 0)"

definition used :: "MemoryTier \<Rightarrow> Tmm \<Rightarrow> nat" where
  "used t s = sum_list (map (\<lambda>e. cost t s (snd e)) (tm_registry s))"

definition in_ram :: "TierAllocation \<Rightarrow> bool" where
  "in_ram a \<longleftrightarrow> ta_tier a = Warm \<or> ta_tier a = Cool"

definition align_ok :: "u64 \<Rightarrow> bool" where
  "align_ok a \<longleftrightarrow> 0 < a \<and> unat a \<le> 2 ^ 32"

definition size_ok :: "u64 \<Rightarrow> bool" where
  "size_ok n \<longleftrightarrow> 0 < n \<and> unat n \<le> 2 ^ 62"

definition inv_cfg :: "Tmm \<Rightarrow> bool" where
  "inv_cfg s \<longleftrightarrow>
     (\<forall>t. ac_available (tm_acct s t) \<longrightarrow> size_ok (ac_capacity (tm_acct s t))) \<and>
     \<not> ac_available (tm_acct s Hot) \<and>
     pr_capacity (tm_warm_res s) = ac_capacity (tm_acct s Warm) \<and>
     pr_capacity (tm_cool_res s) = ac_capacity (tm_acct s Cool) \<and>
     (\<forall>t. align_ok (tier_alignment (tm_cfg s) t) \<and> align_ok (default_align t s))"

definition block_wf :: "Tmm \<Rightarrow> TierHandle \<Rightarrow> TierAllocation \<Rightarrow> bool" where
  "block_wf s h a \<longleftrightarrow> ta_handle a = h \<and> 0 < h \<and> h < tm_next_handle s \<and>
     ac_available (tm_acct s (ta_tier a)) \<and> size_ok (ta_size a) \<and> align_ok (ta_align a)"

definition inv_reg :: "Tmm \<Rightarrow> bool" where
  "inv_reg s \<longleftrightarrow> 0 < tm_next_handle s \<and> smap_wf (tm_registry s) \<and>
     (\<forall>h a. smap_find (tm_registry s) h = Some a \<longrightarrow> block_wf s h a)"

definition inv_lru :: "Tmm \<Rightarrow> bool" where
  "inv_lru s \<longleftrightarrow> (\<forall>t. distinct (tm_lru s t) \<and>
     (\<forall>h \<in> set (tm_lru s t). \<exists>a. smap_find (tm_registry s) h = Some a \<and> ta_tier a = t))"

definition inv_acct :: "Tmm \<Rightarrow> bool" where
  "inv_acct s \<longleftrightarrow> (\<forall>t. unat (ac_allocated (tm_acct s t)) = used t s \<and>
     (ac_available (tm_acct s t) \<longrightarrow> ac_allocated (tm_acct s t) \<le> ac_capacity (tm_acct s t)))"

definition inv_pmr :: "Tmm \<Rightarrow> bool" where
  "inv_pmr s \<longleftrightarrow> pr_allocated (tm_warm_res s) = ac_allocated (tm_acct s Warm) \<and>
     pr_allocated (tm_cool_res s) = ac_allocated (tm_acct s Cool)"

definition backed :: "heap \<Rightarrow> TierAllocation \<Rightarrow> bool" where
  "backed hp a \<longleftrightarrow> (case ta_ptr a of
      None \<Rightarrow> \<not> in_ram a
    | Some p \<Rightarrow> in_ram a \<and> (\<exists>blk. hp p = Some blk \<and> unat (ta_size a) \<le> length blk))"

definition inv_heap :: "Tmm \<Rightarrow> bool" where
  "inv_heap s \<longleftrightarrow>
     (\<forall>h a. smap_find (tm_registry s) h = Some a \<longrightarrow> backed (tm_heap s) a) \<and>
     (\<forall>h h' a a' p. smap_find (tm_registry s) h = Some a \<longrightarrow> smap_find (tm_registry s) h' = Some a' \<longrightarrow>
        ta_ptr a = Some p \<longrightarrow> ta_ptr a' = Some p \<longrightarrow> h = h')"

definition tm_inv :: "Tmm \<Rightarrow> bool" where
  "tm_inv s \<longleftrightarrow> inv_cfg s \<and> inv_reg s \<and> inv_lru s \<and> inv_acct s \<and> inv_pmr s \<and> inv_heap s"

lemmas tm_inv_defs = tm_inv_def inv_cfg_def inv_reg_def inv_lru_def inv_acct_def inv_pmr_def inv_heap_def

text \<open>What is assumed of \<^verbatim>\<open>aligned_alloc\<close>: a block it returns is not in use and has the size asked for.\<close>

definition env_ok :: "tm_env \<Rightarrow> bool" where
  "env_ok ev \<longleftrightarrow> (\<forall>hp al n p blk. ev_malloc ev hp al n = Some (p, blk) \<longrightarrow>
     hp p = None \<and> length blk = unat n)"

lemma env_okD: "env_ok ev \<Longrightarrow> ev_malloc ev hp al n = Some (p, blk) \<Longrightarrow> hp p = None \<and> length blk = unat n"
  by (simp add: env_ok_def)

lemma size_ok_pos: "size_ok n \<Longrightarrow> 0 < unat n"
  by (simp add: size_ok_def unat_gt_0 word_greater_zero_iff)

lemma aligned_size_bounds:
  assumes "size_ok n" and "align_ok a" and "align_ok (default_align t s)"
  shows "unat n \<le> unat (aligned_size t n a s)" and "unat (aligned_size t n a s) < 2 ^ 63"
proof -
  let ?a = "max a (default_align t s)"
  have a: "align_ok ?a"
    using assms by (simp add: max_def)
  then have "unat n + unat ?a \<le> 2 ^ 62 + 2 ^ 32" and pos: "0 < ?a"
    using assms(1) by (simp_all add: align_ok_def size_ok_def)
  then show "unat n \<le> unat (aligned_size t n a s)" "unat (aligned_size t n a s) < 2 ^ 63"
    using align_up_bounds [OF pos, of n] by (simp_all add: aligned_size_def)
qed

subsection \<open>Allocation\<close>

text \<open>\<open>added a n s s'\<close>: the state \<open>s'\<close> is \<open>s\<close> with one new block \<open>a\<close> that costs \<open>n\<close> bytes.\<close>

definition added :: "TierAllocation \<Rightarrow> u64 \<Rightarrow> Tmm \<Rightarrow> Tmm \<Rightarrow> bool" where
  "added a n s s' \<longleftrightarrow>
     ta_handle a = tm_next_handle s \<and> tm_next_handle s' = tm_next_handle s + 1 \<and>
     tm_cfg s' = tm_cfg s \<and> tm_compute_hook s' = tm_compute_hook s \<and>
     tm_registry s' = smap_put (ta_handle a) a (tm_registry s) \<and>
     tm_lru s' = (tm_lru s)(ta_tier a := ta_handle a # tm_lru s (ta_tier a)) \<and>
     tm_acct s' = (tm_acct s)(ta_tier a := account_alloc n (tm_acct s (ta_tier a))) \<and>
     n = aligned_size (ta_tier a) (ta_size a) (ta_align a) s \<and>
     ac_available (tm_acct s (ta_tier a)) \<and>
     ac_allocated (tm_acct s (ta_tier a)) + n \<le> ac_capacity (tm_acct s (ta_tier a)) \<and>
     tm_warm_res s' = (tm_warm_res s)\<lparr>pr_allocated := pr_allocated (tm_warm_res s) +
        (if ta_tier a = Warm then n else 0)\<rparr> \<and>
     tm_cool_res s' = (tm_cool_res s)\<lparr>pr_allocated := pr_allocated (tm_cool_res s) +
        (if ta_tier a = Cool then n else 0)\<rparr> \<and>
     (case ta_ptr a of
        None \<Rightarrow> ta_tier a = Cold \<and> tm_heap s' = tm_heap s \<and>
          tm_cold_files s' = smap_put (ta_handle a) (spill_path (tm_cfg s) (ta_handle a)) (tm_cold_files s)
      | Some p \<Rightarrow> in_ram a \<and> tm_heap s p = None \<and> tm_cold_files s' = tm_cold_files s \<and>
          (\<exists>blk. tm_heap s' = (tm_heap s)(p \<mapsto> blk) \<and> length blk = unat n))"

lemma reg_block: "inv_reg s \<Longrightarrow> smap_find (tm_registry s) h = Some a \<Longrightarrow> block_wf s h a"
  by (simp add: inv_reg_def)

lemma fresh_handle:
  assumes "inv_reg s"
  shows "smap_find (tm_registry s) (tm_next_handle s) = None"
  using reg_block [OF assms, of "tm_next_handle s"] by (cases "smap_find (tm_registry s) (tm_next_handle s)")
    (auto simp: block_wf_def)

lemma try_tier_None: "try_tier ev sz al t s = (None, s') \<Longrightarrow> \<exists>f. s' = s\<lparr>tm_files := f\<rparr>"
  by (auto simp: try_tier_def back_tier_def Let_def intro: exI [of _ "tm_files s"]
      split: if_splits MemoryTier.splits option.splits prod.splits spill_result.splits)

definition request :: "u64 \<Rightarrow> u64 \<Rightarrow> MemoryTier \<Rightarrow> Tmm \<Rightarrow> TierAllocation" where
  "request sz al t s = \<lparr>ta_handle = 0, ta_tier = t, ta_ptr = None, ta_device_ptr = None, ta_size = sz,
     ta_align = (if al = 0 then tier_alignment (tm_cfg s) t else al)\<rparr>"

lemma request_sel [simp]:
  "ta_handle (request sz al t s) = 0" "ta_tier (request sz al t s) = t"
  "ta_ptr (request sz al t s) = None" "ta_size (request sz al t s) = sz"
  "ta_align (request sz al t s) = (if al = 0 then tier_alignment (tm_cfg s) t else al)"
  by (simp_all add: request_def)

lemma try_tier_SomeE:
  assumes "try_tier ev sz al t s = (Some a, s')"
  obtains b s1 where "ac_available (tm_acct s t)"
    and "ac_capacity (tm_acct s t) = 0 \<or>
         ac_allocated (tm_acct s t) + aligned_size t sz (ta_align (request sz al t s)) s
           \<le> ac_capacity (tm_acct s t)"
    and "back_tier ev t (request sz al t s) s = (Some b, s1)"
    and "commit_alloc b (aligned_size t sz (ta_align (request sz al t s)) s) s1 = (a, s')"
  using assms
  by (auto simp: try_tier_def Let_def request_def word_greater_zero_iff not_less
      split: if_splits prod.splits option.splits)

lemma back_warm:
  assumes "back_tier ev Warm b s = (Some a, s')"
  obtains p blk where "ev_malloc ev (tm_heap s) (max (ta_align b) (default_align Warm s))
      (aligned_size Warm (ta_size b) (ta_align b) s) = Some (p, blk)"
    and "a = b\<lparr>ta_ptr := Some p\<rparr>"
    and "s' = s\<lparr>tm_warm_res := (tm_warm_res s)\<lparr>pr_allocated := pr_allocated (tm_warm_res s) +
        aligned_size Warm (ta_size b) (ta_align b) s\<rparr>, tm_heap := (tm_heap s)(p \<mapsto> blk)\<rparr>"
  using assms
  by (auto simp: back_tier_def do_allocate_def Let_def pmr_size_def aligned_size_def default_align_def
      split: if_splits option.splits)

lemma back_cool:
  assumes "back_tier ev Cool b s = (Some a, s')"
  obtains p blk where "ev_malloc ev (tm_heap s) (max (ta_align b) (default_align Cool s))
      (aligned_size Cool (ta_size b) (ta_align b) s) = Some (p, blk)"
    and "a = b\<lparr>ta_ptr := Some p\<rparr>"
    and "s' = s\<lparr>tm_cool_res := (tm_cool_res s)\<lparr>pr_allocated := pr_allocated (tm_cool_res s) +
        aligned_size Cool (ta_size b) (ta_align b) s\<rparr>, tm_heap := (tm_heap s)(p \<mapsto> blk)\<rparr>"
  using assms
  by (auto simp: back_tier_def do_allocate_def Let_def pmr_size_def aligned_size_def default_align_def
      split: if_splits option.splits)

lemma back_cold:
  assumes "back_tier ev Cold b s = (Some a, s')"
  obtains f where "a = b\<lparr>ta_ptr := None, ta_handle := tm_next_handle s\<rparr>"
    and "s' = s\<lparr>tm_next_handle := tm_next_handle s + 1, tm_files := f,
      tm_cold_files := smap_put (tm_next_handle s) (spill_path (tm_cfg s) (tm_next_handle s)) (tm_cold_files s)\<rparr>"
  using assms by (auto simp: back_tier_def Let_def split: spill_result.splits)

lemmas commit_defs = commit_alloc_def assign_handle_def register_alloc_def update_acct_def

lemma try_tier_added:
  assumes res: "try_tier ev sz al t s = (Some a, s')"
    and inv: "inv_cfg s" "inv_reg s" and ev: "env_ok ev"
  shows "added a (aligned_size t sz (ta_align a) s) s s' \<and> ta_tier a = t \<and> ta_size a = sz \<and>
    ta_align a = (if al = 0 then tier_alignment (tm_cfg s) t else al)"
proof -
  have nh: "tm_next_handle s \<noteq> 0"
    using inv(2) by (auto simp: inv_reg_def)
  have cnt: "\<not> smap_count (tm_registry s) (tm_next_handle s)"
    using fresh_handle [OF inv(2)] by (simp add: smap_count_def)
  obtain b s1 where av: "ac_available (tm_acct s t)"
    and room: "ac_capacity (tm_acct s t) = 0 \<or>
         ac_allocated (tm_acct s t) + aligned_size t sz (ta_align (request sz al t s)) s
           \<le> ac_capacity (tm_acct s t)"
    and bk: "back_tier ev t (request sz al t s) s = (Some b, s1)"
    and com: "commit_alloc b (aligned_size t sz (ta_align (request sz al t s)) s) s1 = (a, s')"
    using res by (rule try_tier_SomeE)
  have cap: "ac_capacity (tm_acct s t) \<noteq> 0"
    using inv(1) av by (auto simp: inv_cfg_def size_ok_def)
  consider "t = Warm" | "t = Cool" | "t = Cold"
    using av inv(1) by (cases t) (auto simp: inv_cfg_def)
  then show ?thesis
  proof cases
    case 1
    from bk [unfolded 1] obtain p blk where pb:
      "ev_malloc ev (tm_heap s) (max (ta_align (request sz al t s)) (default_align t s))
        (aligned_size t sz (ta_align (request sz al t s)) s) = Some (p, blk)"
      and b: "b = (request sz al t s)\<lparr>ta_ptr := Some p\<rparr>"
      and s1: "s1 = s\<lparr>tm_warm_res := (tm_warm_res s)\<lparr>pr_allocated := pr_allocated (tm_warm_res s) +
        aligned_size t sz (ta_align (request sz al t s)) s\<rparr>, tm_heap := (tm_heap s)(p \<mapsto> blk)\<rparr>"
      by (rule back_warm) (simp add: 1)
    show ?thesis
      using com room cap av nh cnt env_okD [OF ev pb] 1
      by (auto simp: b s1 commit_defs added_def in_ram_def)
  next
    case 2
    from bk [unfolded 2] obtain p blk where pb:
      "ev_malloc ev (tm_heap s) (max (ta_align (request sz al t s)) (default_align t s))
        (aligned_size t sz (ta_align (request sz al t s)) s) = Some (p, blk)"
      and b: "b = (request sz al t s)\<lparr>ta_ptr := Some p\<rparr>"
      and s1: "s1 = s\<lparr>tm_cool_res := (tm_cool_res s)\<lparr>pr_allocated := pr_allocated (tm_cool_res s) +
        aligned_size t sz (ta_align (request sz al t s)) s\<rparr>, tm_heap := (tm_heap s)(p \<mapsto> blk)\<rparr>"
      by (rule back_cool) (simp add: 2)
    show ?thesis
      using com room cap av nh cnt env_okD [OF ev pb] 2
      by (auto simp: b s1 commit_defs added_def in_ram_def)
  next
    case 3
    from bk [unfolded 3] show ?thesis
      by (rule back_cold)
         (use com room cap av nh cnt 3 in \<open>auto simp: commit_defs added_def\<close>)
  qed
qed

definition same_layout :: "Tmm \<Rightarrow> Tmm \<Rightarrow> bool" where
  "same_layout s s' \<longleftrightarrow> tm_cfg s' = tm_cfg s \<and>
     pr_default_align (tm_warm_res s') = pr_default_align (tm_warm_res s) \<and>
     pr_default_align (tm_cool_res s') = pr_default_align (tm_cool_res s)"

lemma same_layout_simps:
  assumes "same_layout s s'"
  shows "default_align t s' = default_align t s" and "aligned_size t n a s' = aligned_size t n a s"
    and "cost t s' b = cost t s b"
  using assms by (simp_all add: same_layout_def default_align_def aligned_size_def tier_size_def cost_def
      split: MemoryTier.splits)

lemma used_put:
  assumes "smap_wf (tm_registry s)" and "same_layout s s'"
    and "tm_registry s' = smap_put h a (tm_registry s)"
  shows "used t s' + (case smap_find (tm_registry s) h of None \<Rightarrow> 0 | Some b \<Rightarrow> cost t s b)
       = used t s + cost t s a"
  using smap_put_sum [OF assms(1), of "\<lambda>e. cost t s (snd e)" h a]
  by (simp add: used_def assms(3) same_layout_simps [OF assms(2)] cong: option.case_cong)

lemma used_erase:
  assumes "smap_wf (tm_registry s)" and "same_layout s s'"
    and "tm_registry s' = smap_erase h (tm_registry s)"
  shows "used t s' + (case smap_find (tm_registry s) h of None \<Rightarrow> 0 | Some b \<Rightarrow> cost t s b) = used t s"
  using smap_erase_sum [OF assms(1), of "\<lambda>e. cost t s (snd e)" h]
  by (simp add: used_def assms(3) same_layout_simps [OF assms(2)] cong: option.case_cong)

lemma added_layout: "added a n s s' \<Longrightarrow> same_layout s s'"
  by (simp add: added_def same_layout_def)

lemma account_alloc_sel [simp]:
  "ac_available (account_alloc n c) = ac_available c" "ac_capacity (account_alloc n c) = ac_capacity c"
  "ac_allocated (account_alloc n c) = ac_allocated c + n"
  by (simp_all add: account_alloc_def Let_def)

lemma added_cfg:
  assumes "added a n s s'" and "inv_cfg s"
  shows "inv_cfg s'"
  using assms same_layout_simps(1) [OF added_layout [OF assms(1)]]
  by (auto simp: inv_cfg_def added_def)

lemma added_size:
  assumes "added a n s s'" and "tm_inv s" and "size_ok (ta_size a)" and "align_ok (ta_align a)"
  shows "unat (ac_allocated (tm_acct s (ta_tier a)) + n)
       = unat (ac_allocated (tm_acct s (ta_tier a))) + unat n"
    and "unat (ta_size a) \<le> unat n"
proof -
  let ?acc = "tm_acct s (ta_tier a)"
  have n: "n = aligned_size (ta_tier a) (ta_size a) (ta_align a) s" and av: "ac_available ?acc"
    using assms(1) by (simp_all add: added_def)
  have dok: "align_ok (default_align (ta_tier a) s)" and "unat (ac_capacity ?acc) \<le> 2 ^ 62"
    and "ac_allocated ?acc \<le> ac_capacity ?acc"
    using assms(2) av by (auto simp: tm_inv_def inv_cfg_def inv_acct_def size_ok_def)
  with aligned_size_bounds [OF assms(3,4) dok] show "unat (ac_allocated ?acc + n) = unat (ac_allocated ?acc) + unat n"
    and "unat (ta_size a) \<le> unat n"
    by (simp_all add: n unat_word_ariths word_le_nat_alt)
qed

definition handles_left :: "Tmm \<Rightarrow> bool" where
  "handles_left s \<longleftrightarrow> tm_next_handle s \<noteq> - 1"

lemma u64_less_succ: "w < w + 1" if "w \<noteq> - 1" for w :: u64
proof -
  have "unat w \<noteq> unat (- 1 :: u64)"
    using that by (simp only: word_unat_eq_iff [symmetric] not_False_eq_True)
  moreover have "unat (- 1 :: u64) = 2 ^ 64 - 1"
    by (simp add: unsigned_minus_1_eq_mask mask_eq_exp_minus_1)
  moreover have "unat w < 2 ^ 64"
    using unsigned_less [of w, where 'a = nat] by simp
  ultimately show ?thesis
    by (simp add: word_less_nat_alt unat_word_ariths)
qed

lemma next_handle_less: "handles_left s \<Longrightarrow> tm_next_handle s < tm_next_handle s + 1"
  by (simp add: handles_left_def u64_less_succ)

lemma lru_entry:
  "inv_lru s \<Longrightarrow> h \<in> set (tm_lru s t) \<Longrightarrow> \<exists>a. smap_find (tm_registry s) h = Some a \<and> ta_tier a = t"
  by (simp add: inv_lru_def)

lemma added_find:
  "added a n s s' \<Longrightarrow> smap_find (tm_registry s') h =
     (if h = tm_next_handle s then Some a else smap_find (tm_registry s) h)"
  by (simp add: added_def)

lemma added_reg:
  assumes "added a n s s'" and "inv_reg s" and "handles_left s"
    and "size_ok (ta_size a)" and "align_ok (ta_align a)"
  shows "inv_reg s'"
proof -
  have lt: "tm_next_handle s < tm_next_handle s'" and wf: "smap_wf (tm_registry s')"
    and pos: "0 < tm_next_handle s"
    using assms next_handle_less by (auto simp: added_def inv_reg_def)
  have "block_wf s' h b" if "smap_find (tm_registry s') h = Some b" for h b
  proof (cases "h = tm_next_handle s")
    case True
    then show ?thesis
      using that assms lt pos by (auto simp: added_find block_wf_def added_def)
  next
    case False
    then have "block_wf s h b"
      using that assms by (simp add: added_find reg_block)
    then show ?thesis
      using assms(1) lt by (auto simp: block_wf_def added_def intro: less_trans)
  qed
  then show ?thesis
    using wf lt pos by (auto simp: inv_reg_def intro: less_trans)
qed

lemma added_lru:
  assumes "added a n s s'" and "inv_lru s" and "inv_reg s"
  shows "inv_lru s'"
proof -
  have fresh: "tm_next_handle s \<notin> set (tm_lru s t)" for t
    using lru_entry [OF assms(2)] fresh_handle [OF assms(3)] by fastforce
  have h: "ta_handle a = tm_next_handle s"
    and l: "tm_lru s' = (tm_lru s)(ta_tier a := ta_handle a # tm_lru s (ta_tier a))"
    using assms(1) by (simp_all add: added_def)
  show ?thesis
    using assms(2) fresh unfolding inv_lru_def added_find [OF assms(1)] l h by auto
qed

lemma added_acct:
  assumes "added a n s s'" and "tm_inv s" and "size_ok (ta_size a)" and "align_ok (ta_align a)"
  shows "inv_acct s'"
proof -
  have inv: "inv_acct s" "inv_reg s"
    using assms(2) by (simp_all add: tm_inv_def)
  have u: "used t s' = used t s + cost t s a" for t
    using used_put [of s s' "ta_handle a" a t] added_layout [OF assms(1)] assms(1) inv(2)
      fresh_handle [OF inv(2)] by (simp add: added_def inv_reg_def)
  have c: "cost t s a = (if ta_tier a = t then unat n else 0)" for t
    using assms(1) by (simp add: cost_def tier_size_def added_def)
  show ?thesis
    using inv(1) added_size(1) [OF assms] assms(1)
    by (auto simp: inv_acct_def u c added_def)
qed

lemma added_pmr: "added a n s s' \<Longrightarrow> inv_pmr s \<Longrightarrow> inv_pmr s'"
  by (auto simp: added_def inv_pmr_def)

lemma backed_upd: "backed hp a \<Longrightarrow> hp p = None \<Longrightarrow> backed (hp(p \<mapsto> blk)) a"
  by (auto simp: backed_def split: option.splits)

lemma added_heap:
  assumes "added a n s s'" and "inv_heap s" and "unat (ta_size a) \<le> unat n"
  shows "inv_heap s'"
proof (cases "ta_ptr a")
  case None
  then have "tm_heap s' = tm_heap s" "backed (tm_heap s) a"
    using assms(1) by (auto simp: added_def backed_def in_ram_def)
  with assms(2) None show ?thesis
    by (auto simp: inv_heap_def added_find [OF assms(1)])
next
  case (Some p)
  then obtain blk where free: "tm_heap s p = None" and hp: "tm_heap s' = (tm_heap s)(p \<mapsto> blk)"
    and a: "backed ((tm_heap s)(p \<mapsto> blk)) a"
    using assms by (auto simp: added_def backed_def)
  have other: "ta_ptr b \<noteq> Some p" if "smap_find (tm_registry s) h = Some b" for h b
    using that assms(2) free by (fastforce simp: inv_heap_def backed_def split: option.splits)
  show ?thesis
    using assms(2) a Some free other
    by (auto simp: inv_heap_def added_find [OF assms(1)] hp intro: backed_upd)
qed

lemma added_inv:
  assumes "added a n s s'" and "tm_inv s" and "handles_left s"
    and "size_ok (ta_size a)" and "align_ok (ta_align a)"
  shows "tm_inv s'"
  using assms added_cfg [OF assms(1)] added_reg [OF assms(1)] added_lru [OF assms(1)]
    added_acct [OF assms(1,2,4,5)] added_pmr [OF assms(1)] added_heap [OF assms(1)]
    added_size(2) [OF assms(1,2,4,5)]
  by (simp add: tm_inv_def)

lemma layout_files [simp]:
  "default_align t (s\<lparr>tm_files := f\<rparr>) = default_align t s"
  "aligned_size t n al (s\<lparr>tm_files := f\<rparr>) = aligned_size t n al s"
  "cost t (s\<lparr>tm_files := f\<rparr>) a = cost t s a"
  by (rule same_layout_simps, simp add: same_layout_def)+

lemma inv_files [simp]:
  "inv_cfg (s\<lparr>tm_files := f\<rparr>) = inv_cfg s" "inv_reg (s\<lparr>tm_files := f\<rparr>) = inv_reg s"
  "tm_inv (s\<lparr>tm_files := f\<rparr>) = tm_inv s" "handles_left (s\<lparr>tm_files := f\<rparr>) = handles_left s"
  by (simp_all add: tm_inv_defs block_wf_def used_def handles_left_def)

lemma allocate_from_Inl:
  "allocate_from ev sz al ts s = (Inl e, s') \<Longrightarrow> e = Tier OutOfMemory \<and> (\<exists>f. s' = s\<lparr>tm_files := f\<rparr>)"
proof (induction ts arbitrary: s)
  case Nil
  then show ?case by (auto intro: exI [of _ "tm_files s"])
next
  case (Cons t ts)
  then show ?case
    by (auto split: prod.splits option.splits dest!: try_tier_None Cons.IH)
qed

lemma allocate_from_Inr:
  "allocate_from ev sz al ts s = (Inr a, s') \<Longrightarrow> inv_cfg s \<Longrightarrow> inv_reg s \<Longrightarrow> env_ok ev \<Longrightarrow>
   \<exists>f n. added a n (s\<lparr>tm_files := f\<rparr>) s' \<and> ta_tier a \<in> set ts \<and> ta_size a = sz \<and>
     ta_align a = (if al = 0 then tier_alignment (tm_cfg s) (ta_tier a) else al)"
proof (induction ts arbitrary: s)
  case (Cons t ts)
  show ?case
  proof (cases "try_tier ev sz al t s")
    case (Pair r s1)
    show ?thesis
    proof (cases r)
      case None
      then obtain f where s1: "s1 = s\<lparr>tm_files := f\<rparr>"
        using Pair try_tier_None by metis
      have "allocate_from ev sz al ts s1 = (Inr a, s')"
        using Cons.prems(1) Pair None by simp
      from Cons.IH [OF this] show ?thesis
        using Cons.prems by (auto simp: s1)
    next
      case (Some b)
      then have b: "b = a" "s1 = s'"
        using Cons.prems(1) Pair by simp_all
      have "try_tier ev sz al t s = (Some a, s')"
        using Pair Some b by simp
      from try_tier_added [OF this Cons.prems(2-4)] show ?thesis
        by (intro exI [of _ "tm_files s"] exI [of _ "aligned_size t sz (ta_align a) s"])
           (elim conjE, simp)
    qed
  qed
qed simp

lemma allocate_Inl:
  "allocate ev sz t al s = (Inl e, s') \<Longrightarrow> \<exists>f. s' = s\<lparr>tm_files := f\<rparr>"
  by (auto simp: allocate_def split: if_splits intro: exI [of _ "tm_files s"] dest: allocate_from_Inl)

lemma allocate_Inr:
  assumes "allocate ev sz t al s = (Inr a, s')" and "tm_inv s" and "env_ok ev"
  obtains f n where "added a n (s\<lparr>tm_files := f\<rparr>) s'" and "ta_tier a \<in> set (tiers_from t)"
    and "ta_size a = sz" and "sz \<noteq> 0"
    and "ta_align a = (if al = 0 then tier_alignment (tm_cfg s) (ta_tier a) else al)"
  using assms allocate_from_Inr [of ev sz al "tiers_from t" s a s']
  by (auto simp: allocate_def tm_inv_def split: if_splits)

lemma allocate_inv:
  assumes "allocate ev sz t al s = (r, s')" and "tm_inv s" and "env_ok ev" and "handles_left s"
    and "unat sz \<le> 2 ^ 62" and "unat al \<le> 2 ^ 32"
  shows "tm_inv s'"
proof (cases r)
  case (Inl e)
  then show ?thesis
    using allocate_Inl assms by fastforce
next
  case (Inr a)
  with assms(1) have "allocate ev sz t al s = (Inr a, s')" by simp
  then obtain f n where ad: "added a n (s\<lparr>tm_files := f\<rparr>) s'" and "ta_size a = sz" "sz \<noteq> 0"
    and al: "ta_align a = (if al = 0 then tier_alignment (tm_cfg s) (ta_tier a) else al)"
    using assms(2,3) by (rule allocate_Inr)
  moreover have "align_ok (ta_align a)"
    using assms(2,6) al by (auto simp: align_ok_def tm_inv_def inv_cfg_def word_greater_zero_iff)
  ultimately show ?thesis
    using added_inv [OF ad] assms by (simp add: size_ok_def word_greater_zero_iff)
qed

subsection \<open>Dropping and renaming a block\<close>

text \<open>\<open>dropped h a s s'\<close>: block \<open>a\<close> with handle \<open>h\<close> is released; \<open>renamed h' h s s'\<close>: the block of \<open>h'\<close>
  goes under the unused handle \<open>h\<close> and leaves the LRU lists.  A migration is an allocation, a drop and
  a renaming.\<close>

definition dropped :: "TierHandle \<Rightarrow> TierAllocation \<Rightarrow> Tmm \<Rightarrow> Tmm \<Rightarrow> bool" where
  "dropped h a s s' \<longleftrightarrow>
     (let t = ta_tier a; n = aligned_size t (ta_size a) (ta_align a) s in
      tm_cfg s' = tm_cfg s \<and> tm_next_handle s' = tm_next_handle s \<and>
      tm_registry s' = smap_erase h (tm_registry s) \<and>
      tm_lru s' = (tm_lru s)(t := filter (\<lambda>x. x \<noteq> h) (tm_lru s t)) \<and>
      tm_acct s' = (tm_acct s)(t := account_free n (tm_acct s t)) \<and>
      tm_warm_res s' = (if t = Warm then fst (do_deallocate 0 (ta_size a) (ta_align a) (tm_warm_res s) (tm_heap s))
                        else tm_warm_res s) \<and>
      tm_cool_res s' = (if t = Cool then fst (do_deallocate 0 (ta_size a) (ta_align a) (tm_cool_res s) (tm_heap s))
                        else tm_cool_res s) \<and>
      tm_heap s' = (case ta_ptr a of None \<Rightarrow> tm_heap s | Some p \<Rightarrow> (tm_heap s)(p := None)))"

definition renamed :: "TierHandle \<Rightarrow> TierAllocation \<Rightarrow> Tmm \<Rightarrow> Tmm \<Rightarrow> bool" where
  "renamed h new s s' \<longleftrightarrow>
     tm_cfg s' = tm_cfg s \<and> tm_next_handle s' = tm_next_handle s \<and> tm_acct s' = tm_acct s \<and>
     tm_warm_res s' = tm_warm_res s \<and> tm_cool_res s' = tm_cool_res s \<and> tm_heap s' = tm_heap s \<and>
     tm_registry s' = smap_put h (new\<lparr>ta_handle := h\<rparr>) (smap_erase (ta_handle new) (tm_registry s)) \<and>
     tm_lru s' = (tm_lru s)(ta_tier new := filter (\<lambda>x. x \<noteq> ta_handle new) (tm_lru s (ta_tier new)))"

lemma dropped_layout: "dropped h a s s' \<Longrightarrow> same_layout s s'"
  by (auto simp: dropped_def same_layout_def Let_def do_deallocate_def)

lemma account_free_sel [simp]:
  "ac_available (account_free n c) = ac_available c" "ac_capacity (account_free n c) = ac_capacity c"
  "ac_allocated (account_free n c) = (if n \<le> ac_allocated c then ac_allocated c - n else 0)"
  by (simp_all add: account_free_def)

lemma dropped_cfg:
  assumes "dropped h a s s'" and "inv_cfg s"
  shows "inv_cfg s'"
  using assms same_layout_simps(1) [OF dropped_layout [OF assms(1)]]
  by (auto simp: inv_cfg_def dropped_def Let_def do_deallocate_def)

lemma dropped_sel:
  assumes "dropped h a s s'"
  shows "ac_available (tm_acct s' t) = ac_available (tm_acct s t)"
    and "ac_capacity (tm_acct s' t) = ac_capacity (tm_acct s t)"
    and "tm_next_handle s' = tm_next_handle s"
    and "smap_find (tm_registry s') g = (if g = h then None else smap_find (tm_registry s) g)"
    and "tm_heap s' = (case ta_ptr a of None \<Rightarrow> tm_heap s | Some p \<Rightarrow> (tm_heap s)(p := None))"
  using assms by (simp_all add: dropped_def Let_def smap_find_erase)

lemma dropped_block: "dropped h a s s' \<Longrightarrow> block_wf s' g b = block_wf s g b"
  by (simp add: block_wf_def dropped_sel)

lemma dropped_reg:
  assumes "dropped h a s s'" and "inv_reg s"
  shows "inv_reg s'"
proof -
  have "smap_wf (tm_registry s')"
    using assms by (simp add: dropped_def Let_def inv_reg_def)
  then show ?thesis
    using assms(2) by (auto simp: inv_reg_def dropped_sel [OF assms(1)] dropped_block [OF assms(1)] split: if_splits)
qed

lemma dropped_lru:
  assumes "dropped h a s s'" and "inv_lru s" and "smap_find (tm_registry s) h = Some a"
  shows "inv_lru s'"
proof -
  have "h \<notin> set (tm_lru s t)" if "t \<noteq> ta_tier a" for t
    using lru_entry [OF assms(2)] assms(3) that by fastforce
  then show ?thesis
    using assms by (auto simp: inv_lru_def dropped_def Let_def smap_find_erase)
qed

lemma dropped_acct:
  assumes "dropped h a s s'" and "inv_acct s" and "inv_reg s"
    and "smap_find (tm_registry s) h = Some a"
  shows "inv_acct s'"
proof -
  let ?n = "aligned_size (ta_tier a) (ta_size a) (ta_align a) s"
  have u: "used t s' + cost t s a = used t s" for t
    using used_erase [of s s' h t] dropped_layout [OF assms(1)] assms
    by (simp add: dropped_def Let_def inv_reg_def)
  have c: "cost t s a = (if ta_tier a = t then unat ?n else 0)" for t
    by (simp add: cost_def tier_size_def)
  have al: "unat (ac_allocated (tm_acct s t)) = used t s" for t
    using assms(2) by (simp add: inv_acct_def)
  have le: "?n \<le> ac_allocated (tm_acct s (ta_tier a))"
    using u [of "ta_tier a"] by (simp add: word_le_nat_alt al c)
  have "unat (ac_allocated (tm_acct s' t)) = used t s'" for t
    using u [of t] assms(1) le by (auto simp: dropped_def Let_def c unat_sub al)
  moreover have "ac_allocated (tm_acct s' t) \<le> ac_allocated (tm_acct s t)" for t
    using assms(1) le by (auto simp: dropped_def Let_def word_le_nat_alt unat_sub)
  ultimately show ?thesis
    using assms(2) unfolding inv_acct_def dropped_sel(1,2) [OF assms(1)] by (meson order_trans)
qed

lemma dropped_pmr: "dropped h a s s' \<Longrightarrow> inv_pmr s \<Longrightarrow> inv_pmr s'"
  by (auto simp: dropped_def inv_pmr_def Let_def do_deallocate_def pmr_size_def aligned_size_def
      default_align_def)

lemma heap_inv_entry: "inv_heap s \<Longrightarrow> smap_find (tm_registry s) h = Some a \<Longrightarrow> backed (tm_heap s) a"
  by (simp add: inv_heap_def)

lemma heap_inv_unique:
  "inv_heap s \<Longrightarrow> smap_find (tm_registry s) h = Some a \<Longrightarrow> smap_find (tm_registry s) h' = Some a' \<Longrightarrow>
   ta_ptr a = Some p \<Longrightarrow> ta_ptr a' = Some p \<Longrightarrow> h = h'"
  unfolding inv_heap_def by blast

lemma backed_free: "backed hp b \<Longrightarrow> ta_ptr b \<noteq> Some p \<Longrightarrow> backed (hp(p := None)) b"
  by (auto simp: backed_def split: option.splits)

lemma dropped_heap:
  assumes dr: "dropped h a s s'" and inv: "inv_heap s" and a: "smap_find (tm_registry s) h = Some a"
  shows "inv_heap s'"
proof -
  have "backed (tm_heap s') b" if b: "smap_find (tm_registry s) g = Some b" and "g \<noteq> h" for g b
  proof (cases "ta_ptr a")
    case None
    then show ?thesis
      using heap_inv_entry [OF inv b] by (simp add: dropped_sel(5) [OF dr])
  next
    case (Some p)
    then have "ta_ptr b \<noteq> Some p"
      using heap_inv_unique [OF inv a b] \<open>g \<noteq> h\<close> by auto
    then show ?thesis
      using heap_inv_entry [OF inv b] Some by (simp add: dropped_sel(5) [OF dr] backed_free)
  qed
  then show ?thesis
    using heap_inv_unique [OF inv] unfolding inv_heap_def dropped_sel(4) [OF dr]
    by (metis option.distinct(1))
qed

lemma dropped_inv:
  assumes "dropped h a s s'" and "tm_inv s" and "smap_find (tm_registry s) h = Some a"
  shows "tm_inv s'"
  using assms dropped_cfg [OF assms(1)] dropped_reg [OF assms(1)] dropped_lru [OF assms(1)]
    dropped_acct [OF assms(1)] dropped_pmr [OF assms(1)] dropped_heap [OF assms(1)]
  by (simp add: tm_inv_def)

end
