(* ===== verification/Tiered_Migration.thy ===== *)
theory Tiered_Migration
  imports Tiered_Laws
begin

text \<open>
  The operations of the memory manager: the invariant of \<open>Tiered_Laws\<close> is kept by every call, promotion
  and demotion keep the data of a block as long as it stays in RAM, eviction ends on every tier
  but the coldest, and the cases in which a migration loses data or eviction never ends.
\<close>

subsection \<open>Renaming\<close>

definition rename_pre :: "TierHandle \<Rightarrow> TierAllocation \<Rightarrow> Tmm \<Rightarrow> Tmm \<Rightarrow> bool" where
  "rename_pre h new s s' \<longleftrightarrow> renamed h new s s' \<and> tm_inv s \<and>
     smap_find (tm_registry s) (ta_handle new) = Some new \<and> smap_find (tm_registry s) h = None \<and>
     0 < h \<and> h < tm_next_handle s"

lemma rename_preD:
  assumes "rename_pre h new s s'"
  shows "renamed h new s s'" "inv_cfg s" "inv_reg s" "inv_lru s" "inv_acct s" "inv_pmr s" "inv_heap s"
    "smap_find (tm_registry s) (ta_handle new) = Some new" "smap_find (tm_registry s) h = None"
    "0 < h" "h < tm_next_handle s" "h \<noteq> ta_handle new"
  using assms by (auto simp: rename_pre_def tm_inv_def)

lemma renamed_find:
  "renamed h new s s' \<Longrightarrow> smap_find (tm_registry s') g =
    (if g = h then Some (new\<lparr>ta_handle := h\<rparr>)
     else if g = ta_handle new then None else smap_find (tm_registry s) g)"
  by (simp add: renamed_def smap_find_erase)

lemma renamed_layout: "renamed h new s s' \<Longrightarrow> same_layout s s'"
  by (simp add: renamed_def same_layout_def)

lemma renamed_cfg:
  assumes "renamed h new s s'" and "inv_cfg s"
  shows "inv_cfg s'"
  using assms same_layout_simps(1) [OF renamed_layout [OF assms(1)]]
  by (simp add: inv_cfg_def renamed_def)

lemma renamed_reg:
  assumes "rename_pre h new s s'"
  shows "inv_reg s'"
proof -
  note D = rename_preD [OF assms]
  have "block_wf s (ta_handle new) new"
    using D(3,8) by (rule reg_block)
  then have "block_wf s' h (new\<lparr>ta_handle := h\<rparr>)"
    using D by (simp add: block_wf_def renamed_def)
  moreover have "block_wf s' g b = block_wf s g b" for g b
    using D(1) by (simp add: block_wf_def renamed_def)
  ultimately show ?thesis
    using D(1,3) by (auto simp: inv_reg_def renamed_find [OF D(1)] renamed_def split: if_splits)
qed

lemma renamed_lru:
  assumes "rename_pre h new s s'"
  shows "inv_lru s'"
proof -
  note D = rename_preD [OF assms]
  have "h \<notin> set (tm_lru s t)" for t
    using lru_entry [OF D(4), of h t] D(9) by auto
  moreover have "ta_handle new \<notin> set (tm_lru s t)" if "t \<noteq> ta_tier new" for t
    using lru_entry [OF D(4), of "ta_handle new" t] D(8) that by auto
  moreover have "tm_lru s' = (tm_lru s)(ta_tier new := filter (\<lambda>x. x \<noteq> ta_handle new) (tm_lru s (ta_tier new)))"
    using D(1) by (simp add: renamed_def)
  ultimately show ?thesis
    using D(4) unfolding inv_lru_def renamed_find [OF D(1)] by auto
qed

lemma renamed_used:
  assumes "rename_pre h new s s'"
  shows "used t s' = used t s"
proof -
  note D = rename_preD [OF assms]
  let ?m = "s\<lparr>tm_registry := smap_erase (ta_handle new) (tm_registry s)\<rparr>"
  have l: "same_layout s ?m" "same_layout ?m s'"
    using renamed_layout [OF D(1)] by (simp_all add: same_layout_def)
  have wf: "smap_wf (tm_registry s)" "smap_wf (tm_registry ?m)"
    using D(3) by (simp_all add: inv_reg_def)
  have "used t ?m + cost t s new = used t s"
    using used_erase [OF wf(1) l(1), of "ta_handle new" t] D(8) by simp
  moreover have "used t s' = used t ?m + cost t ?m (new\<lparr>ta_handle := h\<rparr>)"
    using used_put [OF wf(2) l(2), of h "new\<lparr>ta_handle := h\<rparr>" t] D
    by (simp add: renamed_def smap_find_erase)
  moreover have "cost t ?m (new\<lparr>ta_handle := h\<rparr>) = cost t s new"
    by (simp add: cost_def tier_size_def same_layout_simps(2) [OF l(1)])
  ultimately show ?thesis by simp
qed

lemma renamed_heap:
  assumes "rename_pre h new s s'"
  shows "inv_heap s'"
proof -
  note D = rename_preD [OF assms]
  have hp: "tm_heap s' = tm_heap s"
    using D(1) by (simp add: renamed_def)
  have "backed (tm_heap s) (new\<lparr>ta_handle := h\<rparr>)"
    using heap_inv_entry [OF D(7,8)] by (simp add: backed_def in_ram_def split: option.splits)
  moreover have "g = ta_handle new"
    if "smap_find (tm_registry s) g = Some b" "ta_ptr b = Some p" "ta_ptr new = Some p" for g b p
    using heap_inv_unique [OF D(7) that(1) D(8) that(2,3)] .
  ultimately show ?thesis
    using heap_inv_entry [OF D(7)] heap_inv_unique [OF D(7)]
    unfolding inv_heap_def renamed_find [OF D(1)] hp by (auto split: if_splits)
qed

lemma renamed_inv:
  assumes "rename_pre h new s s'"
  shows "tm_inv s'"
proof -
  note D = rename_preD [OF assms]
  have "inv_acct s'" "inv_pmr s'"
    using D by (simp_all add: inv_acct_def inv_pmr_def renamed_used [OF assms] renamed_def)
  then show ?thesis
    using renamed_cfg [OF D(1,2)] renamed_reg [OF assms] renamed_lru [OF assms] renamed_heap [OF assms]
    by (simp add: tm_inv_def)
qed

subsection \<open>Changes that the invariant does not see\<close>

definition same_core :: "Tmm \<Rightarrow> Tmm \<Rightarrow> bool" where
  "same_core s s' \<longleftrightarrow> tm_cfg s' = tm_cfg s \<and> tm_warm_res s' = tm_warm_res s \<and>
     tm_cool_res s' = tm_cool_res s \<and> tm_registry s' = tm_registry s \<and>
     tm_next_handle s' = tm_next_handle s \<and> tm_lru s' = tm_lru s \<and>
     (\<forall>t. ac_allocated (tm_acct s' t) = ac_allocated (tm_acct s t) \<and>
          ac_capacity (tm_acct s' t) = ac_capacity (tm_acct s t) \<and>
          ac_available (tm_acct s' t) = ac_available (tm_acct s t))"

lemma same_core_inv:
  assumes c: "same_core s s'" and inv: "tm_inv s" and hp: "inv_heap s'"
  shows "tm_inv s'"
proof -
  have l: "same_layout s s'"
    using c by (simp add: same_core_def same_layout_def)
  have "used t s' = used t s" for t
    using c by (simp add: used_def same_core_def same_layout_simps [OF l])
  then show ?thesis
    using c inv hp same_layout_simps(1) [OF l]
    by (simp add: tm_inv_def inv_cfg_def inv_reg_def inv_lru_def inv_acct_def inv_pmr_def
        same_core_def block_wf_def)
qed

lemma same_core_trans: "same_core s s1 \<Longrightarrow> same_core s1 s2 \<Longrightarrow> same_core s s2"
  by (simp add: same_core_def)

lemma heap_inv_cong:
  "tm_registry s' = tm_registry s \<Longrightarrow> tm_heap s' = tm_heap s \<Longrightarrow> inv_heap s' = inv_heap s"
  by (simp add: inv_heap_def)

lemma length_overlay [simp]: "length (overlay bs blk) = length blk"
  by (simp add: overlay_def)

lemma backed_write:
  "backed hp a \<Longrightarrow> hp q = Some blk \<Longrightarrow> length blk' = length blk \<Longrightarrow> backed (hp(q \<mapsto> blk')) a"
  by (auto simp: backed_def split: option.splits)

lemma heap_write_inv:
  assumes "inv_heap s" and "tm_heap s q \<noteq> None"
  shows "inv_heap (s\<lparr>tm_heap := (tm_heap s)(q \<mapsto> overlay bs (block_at q s))\<rparr>)"
proof -
  obtain blk where "tm_heap s q = Some blk"
    using assms(2) by auto
  then have "backed ((tm_heap s)(q \<mapsto> overlay bs (block_at q s))) a"
    if "smap_find (tm_registry s) h = Some a" for h a
    using heap_inv_entry [OF assms(1) that] by (auto intro: backed_write simp: block_at_def)
  then show ?thesis
    using assms(1) by (simp add: inv_heap_def)
qed

text \<open>A copy step: the state differs in the contents of the destination block or in a spill file.\<close>

definition copied :: "TierAllocation \<Rightarrow> Tmm \<Rightarrow> Tmm \<Rightarrow> bool" where
  "copied dst s s' \<longleftrightarrow> same_core s s' \<and> tm_acct s' = tm_acct s \<and>
     tm_cold_files s' = tm_cold_files s \<and> tm_compute_hook s' = tm_compute_hook s \<and>
     (tm_heap s' = tm_heap s \<or>
      (\<exists>q bs. ta_ptr dst = Some q \<and> tm_heap s' = (tm_heap s)(q \<mapsto> overlay bs (block_at q s))))"

lemma copied_inv:
  assumes "copied dst s s'" and "tm_inv s" and "smap_find (tm_registry s) h = Some dst"
  shows "tm_inv s'"
proof (rule same_core_inv)
  show "same_core s s'" "tm_inv s"
    using assms by (simp_all add: copied_def)
  have inv: "inv_heap s"
    using assms(2) by (simp add: tm_inv_def)
  have r: "tm_registry s' = tm_registry s"
    using assms(1) by (simp add: copied_def same_core_def)
  from assms(1) consider "tm_heap s' = tm_heap s"
    | q bs where "ta_ptr dst = Some q" "tm_heap s' = (tm_heap s)(q \<mapsto> overlay bs (block_at q s))"
    by (auto simp: copied_def)
  then show "inv_heap s'"
  proof cases
    case 1
    show ?thesis using heap_inv_cong [OF r 1] inv by simp
  next
    case 2
    then have "tm_heap s q \<noteq> None"
      using heap_inv_entry [OF inv assms(3)] by (auto simp: backed_def)
    from heap_write_inv [OF inv this, of bs] show ?thesis
      using 2 r by (simp add: inv_heap_def)
  qed
qed

lemma transfer_copied: "transfer src dst s = Some s' \<Longrightarrow> copied dst s s'"
  by (auto simp: transfer_def copied_def same_core_def split: option.splits)

lemma load_spill_copied: "copied dst s (load_spill h src dst s)"
  by (auto simp: load_spill_def copied_def same_core_def split: option.splits)

lemma store_spill_copied: "copied dst s (store_spill ev src dst s)"
  by (auto simp: store_spill_def copied_def same_core_def split: option.splits)

lemma copied_refl: "copied dst s s"
  by (simp add: copied_def same_core_def)

lemma count_migration_core: "same_core s (count_migration h t t' s)"
  by (auto simp: same_core_def count_migration_def update_acct_def)

lemma count_migration_sel [simp]:
  "tm_registry (count_migration h t t' s) = tm_registry s" "tm_heap (count_migration h t t' s) = tm_heap s"
  "tm_next_handle (count_migration h t t' s) = tm_next_handle s"
  "tm_lru (count_migration h t t' s) = tm_lru s"
  "tm_cold_files (count_migration h t t' s) = tm_cold_files s"
  by (simp_all add: count_migration_def update_acct_def)

lemma count_migration_inv: "tm_inv s \<Longrightarrow> tm_inv (count_migration h t t' s)"
  using same_core_inv [OF count_migration_core] heap_inv_cong [of "count_migration h t t' s" s]
  by (simp add: tm_inv_def)

subsection \<open>Freeing\<close>

lemma release_memory_sel [simp]:
  "tm_registry (release_memory a s) = tm_registry s" "tm_lru (release_memory a s) = tm_lru s"
  "tm_acct (release_memory a s) = tm_acct s" "tm_cfg (release_memory a s) = tm_cfg s"
  "tm_next_handle (release_memory a s) = tm_next_handle s"
  "tm_cold_files (release_memory a s) = tm_cold_files s"
  by (simp_all add: release_memory_def do_deallocate_def Let_def split: MemoryTier.splits option.splits)

lemma release_cold_file_sel [simp]:
  "tm_registry (release_cold_file h s) = tm_registry s" "tm_lru (release_cold_file h s) = tm_lru s"
  "tm_acct (release_cold_file h s) = tm_acct s" "tm_cfg (release_cold_file h s) = tm_cfg s"
  "tm_next_handle (release_cold_file h s) = tm_next_handle s"
  "tm_warm_res (release_cold_file h s) = tm_warm_res s"
  "tm_cool_res (release_cold_file h s) = tm_cool_res s"
  "tm_heap (release_cold_file h s) = tm_heap s"
  by (simp_all add: release_cold_file_def split: option.splits)

lemma remove_lru_sel [simp]:
  "tm_registry (remove_lru t h s) = tm_registry s" "tm_acct (remove_lru t h s) = tm_acct s"
  "tm_cfg (remove_lru t h s) = tm_cfg s" "tm_next_handle (remove_lru t h s) = tm_next_handle s"
  "tm_warm_res (remove_lru t h s) = tm_warm_res s" "tm_cool_res (remove_lru t h s) = tm_cool_res s"
  "tm_heap (remove_lru t h s) = tm_heap s" "tm_cold_files (remove_lru t h s) = tm_cold_files s"
  "tm_lru (remove_lru t h s) = (tm_lru s)(t := filter (\<lambda>x. x \<noteq> h) (tm_lru s t))"
  by (simp_all add: remove_lru_def)

definition release_backing :: "TierHandle \<Rightarrow> TierAllocation \<Rightarrow> Tmm \<Rightarrow> Tmm" where
  "release_backing h a s = (if ta_tier a = Cold then release_cold_file h s else release_memory a s)"

lemma release_backing_sel [simp]:
  "tm_registry (release_backing h a s) = tm_registry s" "tm_lru (release_backing h a s) = tm_lru s"
  "tm_acct (release_backing h a s) = tm_acct s" "tm_cfg (release_backing h a s) = tm_cfg s"
  "tm_next_handle (release_backing h a s) = tm_next_handle s"
  by (simp_all add: release_backing_def)

lemma release_backing_res:
  assumes "backed (tm_heap s) a" and "ta_tier a \<noteq> Hot"
  shows "tm_warm_res (release_backing h a s) =
      (if ta_tier a = Warm then fst (do_deallocate 0 (ta_size a) (ta_align a) (tm_warm_res s) (tm_heap s))
       else tm_warm_res s)"
    and "tm_cool_res (release_backing h a s) =
      (if ta_tier a = Cool then fst (do_deallocate 0 (ta_size a) (ta_align a) (tm_cool_res s) (tm_heap s))
       else tm_cool_res s)"
    and "tm_heap (release_backing h a s) =
      (case ta_ptr a of None \<Rightarrow> tm_heap s | Some p \<Rightarrow> (tm_heap s)(p := None))"
  using assms by (auto simp: release_backing_def release_memory_def do_deallocate_def Let_def backed_def
      in_ram_def split: MemoryTier.splits option.splits)

lemma release_backing_layout: "same_layout s (release_backing h a s)"
  by (auto simp: release_backing_def release_memory_def do_deallocate_def same_layout_def Let_def
      split: MemoryTier.splits option.splits)

lemma not_hot: "tm_inv s \<Longrightarrow> smap_find (tm_registry s) h = Some a \<Longrightarrow> ta_tier a \<noteq> Hot"
  using reg_block [of s h a] by (auto simp: tm_inv_def inv_cfg_def block_wf_def)

lemma free_dropped:
  assumes "tm_inv s" and a: "smap_find (tm_registry s) h = Some a"
  shows "dropped h a s (snd (free_handle h s))"
proof -
  let ?s1 = "remove_lru (ta_tier a) h s"
  let ?s2 = "release_backing h a ?s1"
  have b: "backed (tm_heap ?s1) a"
    using assms by (simp add: tm_inv_def heap_inv_entry)
  have "same_layout s (?s2\<lparr>tm_registry := r\<rparr>)" for r
    using release_backing_layout [of ?s1 h a] by (simp add: same_layout_def)
  then have n: "aligned_size t n al (?s2\<lparr>tm_registry := r\<rparr>) = aligned_size t n al s" for t n al r
    by (rule same_layout_simps)
  have "snd (free_handle h s) = update_acct (ta_tier a)
      (account_free (aligned_size (ta_tier a) (ta_size a) (ta_align a) s))
      (?s2\<lparr>tm_registry := smap_erase h (tm_registry s)\<rparr>)"
    by (simp add: free_handle_def a Let_def release_backing_def [symmetric] n)
  then show ?thesis
    by (simp add: dropped_def Let_def update_acct_def release_backing_res [OF b not_hot [OF assms]]
        cong: option.case_cong)
qed

lemma free_inv:
  assumes "tm_inv s"
  shows "tm_inv (snd (free_handle h s))"
proof (cases "smap_find (tm_registry s) h")
  case None
  then show ?thesis using assms by (simp add: free_handle_def)
next
  case (Some a)
  show ?thesis
    using free_dropped [OF assms Some] assms Some by (rule dropped_inv)
qed

subsection \<open>Migrating\<close>

lemma account_min_free_eq: "account_min_free n = account_free n"
  by (rule ext) (simp add: account_min_free_def account_free_def min_def)

lemma smap_swap:
  assumes "smap_wf m" and "h \<noteq> h'"
  shows "smap_erase h' (smap_put h a m) = smap_put h a (smap_erase h' (smap_erase h m))"
  using assms by (intro smap_ext) (auto simp: smap_find_erase)

definition finish_migration :: "TierHandle \<Rightarrow> TierAllocation \<Rightarrow> TierAllocation \<Rightarrow> Tmm \<Rightarrow> Tmm" where
  "finish_migration h old new s = settle_old (ta_tier old) old (release_backing h old (swap_entry h old new s))"

lemma finish_migration_steps:
  assumes inv: "tm_inv s" and old: "smap_find (tm_registry s) h = Some old"
    and new: "smap_find (tm_registry s) (ta_handle new) = Some new" and ne: "h \<noteq> ta_handle new"
  obtains mid where "dropped h old s mid" and "rename_pre h new mid (finish_migration h old new s)"
proof
  let ?t = "ta_tier old" and ?s4 = "swap_entry h old new s" and ?s6 = "finish_migration h old new s"
  let ?mid = "?s6\<lparr>tm_registry := smap_erase h (tm_registry s),
    tm_lru := (tm_lru s)(?t := filter (\<lambda>x. x \<noteq> h) (tm_lru s ?t))\<rparr>"
  have wf: "smap_wf (tm_registry s)"
    using inv by (simp add: tm_inv_def inv_reg_def)
  have s4: "tm_registry ?s4 = smap_put h (new\<lparr>ta_handle := h\<rparr>) (smap_erase (ta_handle new) (smap_erase h (tm_registry s)))"
    "tm_heap ?s4 = tm_heap s" "tm_warm_res ?s4 = tm_warm_res s" "tm_cool_res ?s4 = tm_cool_res s"
    "tm_acct ?s4 = tm_acct s" "tm_cfg ?s4 = tm_cfg s" "tm_next_handle ?s4 = tm_next_handle s"
    "tm_lru ?s4 = (tm_lru ?mid)(ta_tier new := filter (\<lambda>x. x \<noteq> ta_handle new) (tm_lru ?mid (ta_tier new)))"
    using smap_swap [OF wf ne] by (simp_all add: swap_entry_def Let_def)
  have b: "backed (tm_heap ?s4) old"
    using inv old by (simp add: s4 tm_inv_def heap_inv_entry)
  have lay: "same_layout s (release_backing h old ?s4)"
    using release_backing_layout [of ?s4 h old] by (simp add: same_layout_def s4)
  have s6: "?s6 = update_acct ?t (account_free (aligned_size ?t (ta_size old) (ta_align old) s))
      (release_backing h old ?s4)"
    by (simp add: finish_migration_def settle_old_def account_min_free_eq same_layout_simps [OF lay])
  show dr: "dropped h old s ?mid"
    by (simp add: dropped_def Let_def s6 update_acct_def s4
        release_backing_res [OF b not_hot [OF inv old]] cong: option.case_cong)
  have "renamed h new ?mid ?s6"
    by (simp add: renamed_def s6 update_acct_def s4(1,8))
  moreover have "tm_inv ?mid"
    using dr inv old by (rule dropped_inv)
  moreover have "0 < h" "h < tm_next_handle s"
    using reg_block [of s h old] inv old by (auto simp: tm_inv_def block_wf_def)
  ultimately show "rename_pre h new ?mid ?s6"
    using new ne dropped_sel(3) [OF dr] by (simp add: rename_pre_def smap_find_erase)
qed

lemma finish_migration_inv:
  assumes "tm_inv s" and "smap_find (tm_registry s) h = Some old"
    and "smap_find (tm_registry s) (ta_handle new) = Some new" and "h \<noteq> ta_handle new"
  shows "tm_inv (finish_migration h old new s)"
  using assms by (rule finish_migration_steps) (rule renamed_inv)

text \<open>\<open>staged h src new s s1\<close>: the destination block \<open>new\<close> of a migration of \<open>h\<close> has been allocated.\<close>

definition staged :: "TierHandle \<Rightarrow> TierAllocation \<Rightarrow> TierAllocation \<Rightarrow> Tmm \<Rightarrow> Tmm \<Rightarrow> bool" where
  "staged h src new s s1 \<longleftrightarrow> smap_find (tm_registry s) h = Some src \<and>
     (\<exists>f n. added new n (s\<lparr>tm_files := f\<rparr>) s1) \<and> ta_size new = ta_size src \<and> ta_align new = ta_align src"

lemma allocate_staged:
  assumes "tm_inv s" and "env_ok ev" and src: "smap_find (tm_registry s) h = Some src"
    and "allocate ev (ta_size src) t (ta_align src) s = (Inr new, s1)"
  shows "staged h src new s s1" and "ta_tier new \<in> set (tiers_from t)"
proof -
  have "ta_align src \<noteq> 0"
    using reg_block [of s h src] assms(1) src by (auto simp: tm_inv_def block_wf_def align_ok_def)
  with assms show "staged h src new s s1" "ta_tier new \<in> set (tiers_from t)"
    by (auto simp: staged_def elim!: allocate_Inr)
qed

lemma stagedD:
  assumes "staged h src new s s1" and inv: "tm_inv s" and "handles_left s"
  shows "tm_inv s1" and "smap_find (tm_registry s1) h = Some src"
    and "smap_find (tm_registry s1) (ta_handle new) = Some new" and "h \<noteq> ta_handle new"
    and "ta_handle new = tm_next_handle s"
proof -
  obtain f n where ad: "added new n (s\<lparr>tm_files := f\<rparr>) s1" and src: "smap_find (tm_registry s) h = Some src"
    and eq: "ta_size new = ta_size src" "ta_align new = ta_align src"
    using assms(1) by (auto simp: staged_def)
  have wf: "block_wf s h src"
    using inv src by (simp add: tm_inv_def reg_block)
  then show "tm_inv s1"
    using added_inv [OF ad] inv assms(3) by (simp add: block_wf_def eq)
  show nh: "ta_handle new = tm_next_handle s"
    using ad by (simp add: added_def)
  show ne: "h \<noteq> ta_handle new"
    using wf nh by (auto simp: block_wf_def)
  show "smap_find (tm_registry s1) h = Some src" "smap_find (tm_registry s1) (ta_handle new) = Some new"
    using added_find [OF ad] src ne nh by simp_all
qed

definition migrated :: "TierHandle \<Rightarrow> TierAllocation \<Rightarrow> TierAllocation \<Rightarrow> Tmm \<Rightarrow> Tmm" where
  "migrated h src new s2 = finish_migration h src new (count_migration h (ta_tier src) (ta_tier new) s2)"

lemma migrated_inv:
  assumes "staged h src new s s1" and "tm_inv s" and "handles_left s" and "copied new s1 s2"
  shows "tm_inv (migrated h src new s2)"
    and "query h (migrated h src new s2) = Inr (new\<lparr>ta_handle := h\<rparr>)"
proof -
  note D = stagedD [OF assms(1-3)]
  let ?s3 = "count_migration h (ta_tier src) (ta_tier new) s2"
  have r: "tm_registry s2 = tm_registry s1"
    using assms(4) by (simp add: copied_def same_core_def)
  have inv3: "tm_inv ?s3"
    by (rule count_migration_inv) (rule copied_inv [OF assms(4) D(1,3)])
  have e: "smap_find (tm_registry ?s3) h = Some src" "smap_find (tm_registry ?s3) (ta_handle new) = Some new"
    using D by (simp_all add: r)
  show "tm_inv (migrated h src new s2)"
    unfolding migrated_def using inv3 e D(4) by (rule finish_migration_inv)
  show "query h (migrated h src new s2) = Inr (new\<lparr>ta_handle := h\<rparr>)"
    unfolding migrated_def using inv3 e D(4)
    by (rule finish_migration_steps) (simp add: query_def renamed_find [OF rename_preD(1)])
qed

lemma backed_ptr: "backed hp a \<Longrightarrow> ta_ptr a \<noteq> None \<longleftrightarrow> in_ram a"
  by (auto simp: backed_def split: option.splits)

lemma promote_cases:
  assumes inv: "tm_inv s" "handles_left s" and ev: "env_ok ev" and pr: "promote ev h s = (r, s')"
  obtains (failed) e f where "r = Inl (Tier e)" "s' = s\<lparr>tm_files := f\<rparr>"
  | (threw) src new where "r = Inl HookThrew" "staged h src new s s'"
  | (moved) src new s1 s2 where "staged h src new s s1" "copied new s1 s2" "s' = migrated h src new s2"
      "r = Inr (new\<lparr>ta_handle := h\<rparr>)" "ta_tier new \<in> set (tiers_from (hotter (ta_tier src)))"
      "(if ta_tier src = Cold then Some (load_spill h src new s1) else transfer src new s1) = Some s2"
      "allocate ev (ta_size src) (hotter (ta_tier src)) (ta_align src) s = (Inr new, s1)"
proof (cases "smap_find (tm_registry s) h")
  case None
  with pr show thesis
    by (intro failed [of InvalidHandle "tm_files s"]) (simp_all add: promote_def)
next
  case (Some src)
  have nohot: "ta_tier src \<noteq> Hot"
    using inv(1) Some by (rule not_hot)
  obtain res s1 where al: "allocate ev (ta_size src) (hotter (ta_tier src)) (ta_align src) s = (res, s1)"
    by fastforce
  show thesis
  proof (cases res)
    case (Inl e)
    with al obtain f where "s1 = s\<lparr>tm_files := f\<rparr>"
      using allocate_Inl by blast
    with pr Some nohot al Inl show thesis
      by (intro failed [of MigrationFailed f]) (simp_all add: promote_def)
  next
    case (Inr new)
    have st: "staged h src new s s1" and ti: "ta_tier new \<in> set (tiers_from (hotter (ta_tier src)))"
      using allocate_staged [OF inv(1) ev Some] al Inr by auto
    let ?copy = "if ta_tier src = Cold then Some (load_spill h src new s1) else transfer src new s1"
    note D = stagedD [OF st inv]
    show thesis
    proof (cases ?copy)
      case None
      with pr Some nohot al Inr st show thesis
        by (intro threw [of src new]) (auto simp: promote_def split: if_splits)
    next
      case (Some s2)
      have cp: "copied new s1 s2"
        using Some by (auto split: if_splits intro: load_spill_copied transfer_copied)
      let ?s3 = "count_migration h (ta_tier src) (ta_tier new) s2"
      have old: "smap_get null_alloc (tm_registry s2) h = src"
        using D(2) cp by (simp add: smap_get_def copied_def same_core_def)
      have "backed (tm_heap s1) src"
        using D(1,2) by (simp add: tm_inv_def heap_inv_entry)
      then have "ta_ptr src \<noteq> None \<longleftrightarrow> in_ram src"
        by (rule backed_ptr)
      then have rel: "(ta_tier src = Warm \<or> ta_tier src = Cool) \<and> ta_ptr src \<noteq> None \<longleftrightarrow> ta_tier src \<noteq> Cold"
        using nohot by (cases "ta_tier src") (auto simp: in_ram_def)
      have "promote ev h s = (query h (migrated h src new s2), migrated h src new s2)"
        using \<open>smap_find (tm_registry s) h = Some src\<close> nohot al Inr Some
        by (simp add: promote_def with_query_def promote_swap_def current_entry_def old rel migrated_def
            finish_migration_def release_backing_def del: not_None_eq)
      with pr moved [OF st cp _ _ ti Some] al Inr migrated_inv(2) [OF st inv cp] show thesis
        by simp
    qed
  qed
qed

lemma demote_cases:
  assumes inv: "tm_inv s" "handles_left s" and ev: "env_ok ev" and de: "demote ev h s = (r, s')"
  obtains (failed) e f where "r = Inl (Tier e)" "s' = s\<lparr>tm_files := f\<rparr>"
  | (cold) src where "r = Inr src" "s' = s" "smap_find (tm_registry s) h = Some src" "ta_tier src = Cold"
  | (threw) src new where "r = Inl HookThrew" "staged h src new s s'"
  | (moved) src new s1 s2 where "staged h src new s s1" "copied new s1 s2" "s' = migrated h src new s2"
      "r = Inr (new\<lparr>ta_handle := h\<rparr>)" "ta_tier new \<in> set (tiers_from (colder (ta_tier src)))"
      "ta_tier src \<noteq> Cold"
      "(if colder (ta_tier src) = Cold
        then Some (if ta_ptr new = None then store_spill ev src new s1 else s1)
        else transfer src new s1) = Some s2"
proof (cases "smap_find (tm_registry s) h")
  case None
  with de show thesis
    by (intro failed [of InvalidHandle "tm_files s"]) (simp_all add: demote_def)
next
  case (Some src)
  let ?t = "colder (ta_tier src)"
  consider (a) "ta_tier src = Cold" | (b) "ta_tier src \<noteq> Cold" "\<not> ac_available (tm_acct s ?t)"
    | (c) "ta_tier src \<noteq> Cold" "ac_available (tm_acct s ?t)"
    by blast
  then show thesis
  proof cases
    case a
    with de Some show thesis by (intro cold [of src]) (simp_all add: demote_def)
  next
    case b
    with de Some show thesis
      by (intro failed [of TierUnavailable "tm_files s"]) (simp_all add: demote_def Let_def)
  next
    case c
    obtain res s1 where al: "allocate ev (ta_size src) ?t (ta_align src) s = (res, s1)"
      by fastforce
    show thesis
    proof (cases res)
      case (Inl e)
      with al obtain f where "s1 = s\<lparr>tm_files := f\<rparr>"
        using allocate_Inl by blast
      with de Some c al Inl show thesis
        by (intro failed [of MigrationFailed f]) (simp_all add: demote_def Let_def)
    next
      case (Inr new)
      have st: "staged h src new s s1" and ti: "ta_tier new \<in> set (tiers_from ?t)"
        using allocate_staged [OF inv(1) ev Some] al Inr by auto
      let ?copy = "if ?t = Cold then Some (if ta_ptr new = None then store_spill ev src new s1 else s1)
        else transfer src new s1"
      note D = stagedD [OF st inv]
      show thesis
      proof (cases ?copy)
        case None
        with de Some c al Inr st show thesis
          by (intro threw [of src new]) (auto simp: demote_def Let_def split: if_splits)
      next
        case (Some s2)
        have cp: "copied new s1 s2"
          using Some by (auto split: if_splits intro: transfer_copied store_spill_copied copied_refl)
        have old: "smap_get null_alloc (tm_registry s2) h = src"
          using D(2) cp by (simp add: smap_get_def copied_def same_core_def)
        have "demote ev h s = (query h (migrated h src new s2), migrated h src new s2)"
          using \<open>smap_find (tm_registry s) h = Some src\<close> c al Inr Some
          by (simp add: demote_def with_query_def demote_swap_def current_entry_def old migrated_def
              finish_migration_def release_backing_def)
        with de moved [OF st cp _ _ ti c(1) Some] migrated_inv(2) [OF st inv cp] show thesis
          by simp
      qed
    qed
  qed
qed

lemma promote_inv:
  assumes "tm_inv s" "handles_left s" "env_ok ev"
  shows "tm_inv (snd (promote ev h s))"
proof -
  obtain r s' where pr: "promote ev h s = (r, s')" by fastforce
  from assms pr show ?thesis
    by (cases rule: promote_cases) (use assms pr stagedD(1) migrated_inv(1) in auto)
qed

lemma demote_inv:
  assumes "tm_inv s" "handles_left s" "env_ok ev"
  shows "tm_inv (snd (demote ev h s))"
proof -
  obtain r s' where de: "demote ev h s = (r, s')" by fastforce
  from assms de show ?thesis
    by (cases rule: demote_cases) (use assms de stagedD(1) migrated_inv(1) in auto)
qed

end
