(* ===== verification/Tiered_Props.thy ===== *)
theory Tiered_Props
  imports Tiered_Migration
begin

text \<open>
  The properties of the four-tier memory manager: every history of calls within bounds keeps the invariant, freeing
  undoes allocating, migrations within RAM keep the data of all blocks, eviction ends on every tier
  but the coldest; and the proved defects: eviction of the coldest tier never ends, a block that
  went through the coldest tier comes back without its data, migrated blocks leave the LRU lists for
  good, and a size near the top of the address space wraps to an empty block.
\<close>

subsection \<open>Handles\<close>

definition cfg_ok :: "TieredMemoryConfig \<Rightarrow> bool" where
  "cfg_ok cfg \<longleftrightarrow> size_ok (cf_warm_capacity cfg) \<and> size_ok (cf_cool_capacity cfg) \<and>
     size_ok (cf_cold_capacity cfg) \<and> align_ok (cf_hot_alignment cfg) \<and>
     align_ok (cf_warm_alignment cfg) \<and> align_ok (cf_cool_alignment cfg) \<and>
     align_ok (cf_cold_alignment cfg)"

definition handle_room :: "nat \<Rightarrow> Tmm \<Rightarrow> bool" where
  "handle_room k s \<longleftrightarrow> unat (tm_next_handle s) + k < 2 ^ 64"

lemma unat_minus_one_u64: "unat (- 1 :: u64) = 2 ^ 64 - 1"
  by (simp add: unsigned_minus_1_eq_mask mask_eq_exp_minus_1)

lemma handle_room_left: "handle_room (Suc k) s \<Longrightarrow> handles_left s"
  using unat_minus_one_u64 by (auto simp: handle_room_def handles_left_def)

lemma handle_room_next:
  assumes "handle_room (Suc k) s" and "tm_next_handle s' = tm_next_handle s \<or> tm_next_handle s' = tm_next_handle s + 1"
  shows "handle_room k s'"
  using assms by (auto simp: handle_room_def unat_word_ariths)

lemma new_tmm_inv: "cfg_ok cfg \<Longrightarrow> tm_inv (new_tmm ev cfg hp fs)"
  by (auto simp: tm_inv_defs new_tmm_def cfg_ok_def fresh_accounting_def Let_def used_def align_ok_def
      tier_alignment_def default_align_def smap_wf_def smap_find_def split: MemoryTier.splits if_splits)

lemma staged_next: "staged h src new s s1 \<Longrightarrow> tm_next_handle s1 = tm_next_handle s + 1"
  by (auto simp: staged_def added_def)

lemma migrated_next:
  assumes "staged h src new s s1" "tm_inv s" "handles_left s" "copied new s1 s2"
  shows "tm_next_handle (migrated h src new s2) = tm_next_handle s + 1"
proof -
  have "tm_next_handle (migrated h src new s2) = tm_next_handle s2"
    by (simp add: migrated_def finish_migration_def settle_old_def update_acct_def swap_entry_def Let_def)
  then show ?thesis
    using assms(4) staged_next [OF assms(1)] by (simp add: copied_def same_core_def)
qed

definition demo_env :: tm_env where
  "demo_env = \<lparr>ev_malloc = (\<lambda>hp al n. map_option (\<lambda>p. (p, replicate (unat n) 0xCD))
       (find (\<lambda>p. hp p = None) [0..<4])),
     ev_spill = (\<lambda>fs path n. SpillOk), ev_write = (\<lambda>fs path bs. Some bs), ev_mkdir = (\<lambda>d. True)\<rparr>"

lemma demo_env_ok: "env_ok demo_env"
  by (auto simp: env_ok_def demo_env_def find_Some_iff)

lemma default_config_ok: "cfg_ok default_config"
  by (simp add: cfg_ok_def default_config_def size_ok_def align_ok_def)

subsection \<open>Freeing undoes allocating\<close>

text \<open>Freeing a block right after it was allocated restores the registry, the LRU lists, the byte
  counters of all tiers and of both memory resources and the heap, and the handle is unknown
  afterwards.\<close>

theorem allocate_free_restores:
  assumes inv: "tm_inv s" and "env_ok ev" and "handles_left s"
    and "unat sz \<le> 2 ^ 62" and "unat al \<le> 2 ^ 32"
    and alloc: "allocate ev sz t al s = (Inr a, s1)"
    and freed: "free_handle (ta_handle a) s1 = (r, s2)"
  shows "r = Inr () \<and> query (ta_handle a) s2 = Inl (Tier InvalidHandle) \<and>
    tm_registry s2 = tm_registry s \<and> tm_lru s2 = tm_lru s \<and> tm_heap s2 = tm_heap s \<and>
    (\<forall>u. ac_allocated (tm_acct s2 u) = ac_allocated (tm_acct s u)) \<and>
    tm_warm_res s2 = tm_warm_res s \<and> tm_cool_res s2 = tm_cool_res s"
proof -
  obtain f n where ad: "added a n (s\<lparr>tm_files := f\<rparr>) s1"
    using alloc inv assms(2) by (rule allocate_Inr)
  have inv1: "tm_inv s1"
    using allocate_inv [OF alloc inv assms(2-5)] .
  let ?h = "tm_next_handle s"
  have h: "ta_handle a = ?h" and found: "smap_find (tm_registry s1) ?h = Some a"
    using ad added_find [OF ad] by (simp_all add: added_def)
  have fresh: "smap_find (tm_registry s) ?h = None"
    using inv by (simp add: tm_inv_def fresh_handle)
  have dr: "dropped ?h a s1 s2"
    using free_dropped [OF inv1 found] freed h by simp
  have inv2: "tm_inv s2"
    using free_inv [OF inv1, of ?h] freed h by simp
  have reg: "tm_registry s2 = tm_registry s"
  proof (rule smap_ext)
    show "smap_wf (tm_registry s2)" "smap_wf (tm_registry s)"
      using inv inv2 by (simp_all add: tm_inv_def inv_reg_def)
    show "smap_find (tm_registry s2) k = smap_find (tm_registry s) k" for k
      using dropped_sel(4) [OF dr] added_find [OF ad] fresh by simp
  qed
  have "?h \<notin> set (tm_lru s u)" for u
    using lru_entry [of s ?h u] inv fresh by (auto simp: tm_inv_def)
  then have lru: "tm_lru s2 = tm_lru s"
    using dr ad h by (auto simp: dropped_def added_def Let_def fun_eq_iff intro!: filter_True)
  have lay: "same_layout s s2"
    using dropped_layout [OF dr] added_layout [OF ad] by (simp add: same_layout_def)
  have "used u s2 = used u s" for u
    by (simp add: used_def reg same_layout_simps [OF lay])
  then have acct: "ac_allocated (tm_acct s2 u) = ac_allocated (tm_acct s u)" for u
    using inv inv2 by (simp add: tm_inv_def inv_acct_def word_unat_eq_iff)
  have heap: "tm_heap s2 = tm_heap s"
    using dropped_sel(5) [OF dr] ad by (auto simp: added_def split: option.splits)
  have "tm_warm_res s2 = tm_warm_res s" "tm_cool_res s2 = tm_cool_res s"
    using inv inv2 acct dr ad
    by (auto simp: tm_inv_def inv_pmr_def dropped_def added_def Let_def do_deallocate_def)
  moreover have "r = Inr ()"
    using freed found h by (auto simp: free_handle_def Let_def)
  ultimately show ?thesis
    using reg lru heap acct fresh h by (simp add: query_def)
qed

definition demo_config :: TieredMemoryConfig where
  "demo_config = \<lparr>cf_warm_capacity = 8, cf_cool_capacity = 8, cf_cold_capacity = 80,
     cf_hot_alignment = 1, cf_warm_alignment = 1, cf_cool_alignment = 1, cf_cold_alignment = 1,
     cf_cold_spill_dir = ''/s''\<rparr>"

lemma demo_config_ok: "cfg_ok demo_config"
  by (simp add: cfg_ok_def demo_config_def size_ok_def align_ok_def)

definition demo_tmm :: Tmm where
  "demo_tmm = new_tmm demo_env demo_config Map.empty Map.empty"

lemma demo_tmm_inv: "tm_inv demo_tmm" "handles_left demo_tmm"
  unfolding demo_tmm_def
  by (rule new_tmm_inv [OF demo_config_ok]) (simp add: handles_left_def new_tmm_def Let_def)

lemma demo_allocate:
  "(case fst (allocate demo_env 3 Cool 0 demo_tmm) of Inl _ \<Rightarrow> False | Inr a \<Rightarrow> ta_handle a = 1)"
  by code_simp

theorem allocate_free_restores_witness:
  "query 1 (snd (free_handle 1 (snd (allocate demo_env 3 Cool 0 demo_tmm))))
     = Inl (Tier InvalidHandle)"
proof -
  obtain a s1 where al: "allocate demo_env 3 Cool 0 demo_tmm = (Inr a, s1)" and "ta_handle a = 1"
    using demo_allocate by (cases "allocate demo_env 3 Cool 0 demo_tmm") (auto split: sum.splits)
  then show ?thesis
    using allocate_free_restores [OF demo_tmm_inv(1) demo_env_ok demo_tmm_inv(2) _ _ al, of "fst (free_handle 1 s1)"
        "snd (free_handle 1 s1)"]
    by simp
qed

subsection \<open>What a migration does\<close>

lemma migrated_state:
  assumes st: "staged h src new s s1" and inv: "tm_inv s" "handles_left s" and cp: "copied new s1 s2"
  shows "smap_find (tm_registry (migrated h src new s2)) g =
      (if g = h then Some (new\<lparr>ta_handle := h\<rparr>) else smap_find (tm_registry s) g)"
    and "tm_heap (migrated h src new s2) =
      (case ta_ptr src of None \<Rightarrow> tm_heap s2 | Some p \<Rightarrow> (tm_heap s2)(p := None))"
    and "tm_lru (migrated h src new s2) t = filter (\<lambda>x. x \<noteq> h) (tm_lru s t)"
proof -
  note D = stagedD [OF st inv]
  let ?s3 = "count_migration h (ta_tier src) (ta_tier new) s2"
  have r: "tm_registry s2 = tm_registry s1" "tm_lru s2 = tm_lru s1"
    using cp by (simp_all add: copied_def same_core_def)
  have inv3: "tm_inv ?s3"
    by (rule count_migration_inv) (rule copied_inv [OF cp D(1,3)])
  have e: "smap_find (tm_registry ?s3) h = Some src" "smap_find (tm_registry ?s3) (ta_handle new) = Some new"
    using D r by simp_all
  obtain mid where dr: "dropped h src ?s3 mid" and rn: "renamed h new mid (migrated h src new s2)"
    using inv3 e D(4) by (rule finish_migration_steps) (simp add: migrated_def rename_preD(1))
  obtain f n where ad: "added new n (s\<lparr>tm_files := f\<rparr>) s1"
    using st by (auto simp: staged_def)
  have fresh: "smap_find (tm_registry s) (tm_next_handle s) = None"
    using inv by (simp add: tm_inv_def fresh_handle)
  show "smap_find (tm_registry (migrated h src new s2)) g =
      (if g = h then Some (new\<lparr>ta_handle := h\<rparr>) else smap_find (tm_registry s) g)"
    using renamed_find [OF rn, of g] dropped_sel(4) [OF dr, of g] added_find [OF ad, of g] D(5) r fresh by simp
  show "tm_heap (migrated h src new s2) =
      (case ta_ptr src of None \<Rightarrow> tm_heap s2 | Some p \<Rightarrow> (tm_heap s2)(p := None))"
    using dropped_sel(5) [OF dr] rn by (simp add: renamed_def cong: option.case_cong)
  have nin: "tm_next_handle s \<notin> set (tm_lru s u)" for u
    using lru_entry [of s "tm_next_handle s" u] inv fresh by (auto simp: tm_inv_def)
  have f1: "filter (\<lambda>x. P x \<and> x \<noteq> tm_next_handle s) (tm_lru s u) = filter P (tm_lru s u)" for P u
    by (rule filter_cong) (use nin [of u] in auto)
  have f2: "filter (\<lambda>x. x \<noteq> tm_next_handle s) (tm_lru s u) = tm_lru s u" for u
    using f1 [of "\<lambda>_. True" u] by simp
  have f3: "filter (\<lambda>x. x \<noteq> h) (tm_lru s u) = tm_lru s u" if "u \<noteq> ta_tier src" for u
    using lru_entry [of s h u] inv st that by (auto simp: tm_inv_def staged_def intro!: filter_True)
  have "tm_lru mid = (tm_lru s1)(ta_tier src := filter (\<lambda>x. x \<noteq> h) (tm_lru s1 (ta_tier src)))"
    using dr r by (simp add: dropped_def Let_def)
  moreover have "tm_lru s1 = (tm_lru s)(ta_tier new := tm_next_handle s # tm_lru s (ta_tier new))"
    using ad by (simp add: added_def)
  moreover have "tm_lru (migrated h src new s2) =
      (tm_lru mid)(ta_tier new := filter (\<lambda>x. x \<noteq> tm_next_handle s) (tm_lru mid (ta_tier new)))"
    using rn D(5) by (simp add: renamed_def)
  ultimately show "tm_lru (migrated h src new s2) t = filter (\<lambda>x. x \<noteq> h) (tm_lru s t)"
    using D(4,5) by (auto simp: f1 f2 f3)
qed

text \<open>A migrated block can never be evicted again: after any promotion, and after any demotion
  of a block that was not in the coldest tier, the handle is on no LRU list, although the block stays
  registered.  The other handles keep their place.\<close>

theorem migration_leaves_lru:
  assumes "tm_inv s" and "handles_left s" and "env_ok ev"
    and "promote ev h s = (Inr a, s') \<or> demote ev h s = (Inr a, s') \<and> ta_tier b \<noteq> Cold"
    and "query h s = Inr b"
  shows "tm_lru s' t = filter (\<lambda>x. x \<noteq> h) (tm_lru s t) \<and> query h s' = Inr a"
proof -
  have b: "smap_find (tm_registry s) h = Some b"
    using assms(5) by (simp add: query_def split: option.splits)
  consider "promote ev h s = (Inr a, s')" | "demote ev h s = (Inr a, s')" "ta_tier b \<noteq> Cold"
    using assms(4) by blast
  then show ?thesis
  proof cases
    case 1
    from assms(1-3) 1 show ?thesis
      by (cases rule: promote_cases) (use assms migrated_state migrated_inv in auto)
  next
    case 2
    from assms(1-3) 2(1) show ?thesis
      by (cases rule: demote_cases) (use assms b 2 migrated_state migrated_inv in auto)
  qed
qed

lemma demo_promote: "\<not> isl (fst (promote demo_env 1 (snd (allocate demo_env 3 Cool 0 demo_tmm))))"
  by code_simp

lemma demo_query: "\<not> isl (query 1 (snd (allocate demo_env 3 Cool 0 demo_tmm)))"
  by code_simp

theorem migration_leaves_lru_witness:
  "let s = snd (allocate demo_env 3 Cool 0 demo_tmm); s' = snd (promote demo_env 1 s)
   in tm_lru s Cool = [1] \<and> tm_lru s' Cool = []"
proof -
  let ?s = "snd (allocate demo_env 3 Cool 0 demo_tmm)"
  have inv: "tm_inv ?s"
    using allocate_inv [of demo_env 3 Cool 0 demo_tmm] demo_tmm_inv demo_env_ok
    by (cases "allocate demo_env 3 Cool 0 demo_tmm") simp
  have left: "handles_left ?s" and lru: "tm_lru ?s Cool = [1]"
    unfolding handles_left_def by code_simp+
  obtain r s' where pr: "promote demo_env 1 ?s = (r, s')"
    by fastforce
  moreover obtain a where "r = Inr a"
    using demo_promote pr by (cases r) simp_all
  moreover obtain b where "query 1 ?s = Inr b"
    using demo_query by (cases "query 1 ?s") auto
  ultimately show ?thesis
    using migration_leaves_lru [OF inv left demo_env_ok, of 1 a s' b Cool] lru by (simp add: Let_def)
qed

subsection \<open>Data of a block\<close>

definition block_data :: "TierHandle \<Rightarrow> Tmm \<Rightarrow> byte list option" where
  "block_data h s = (case smap_find (tm_registry s) h of
      None \<Rightarrow> None
    | Some a \<Rightarrow> (case ta_ptr a of None \<Rightarrow> None
        | Some p \<Rightarrow> map_option (take (unat (ta_size a))) (tm_heap s p)))"

lemma overlay_take: "n \<le> length bs \<Longrightarrow> n \<le> length blk \<Longrightarrow> take n (overlay (take n bs) blk) = take n bs"
  by (simp add: overlay_def min_def)

lemma migrated_others:
  assumes st: "staged h src new s s1" and inv: "tm_inv s" "handles_left s" and cp: "copied new s1 s2"
    and g: "g \<noteq> h"
  shows "block_data g (migrated h src new s2) = block_data g s"
proof (cases "smap_find (tm_registry s) g")
  case None
  then show ?thesis
    using g by (simp add: block_data_def migrated_state(1) [OF st inv cp])
next
  case (Some b)
  obtain f n where ad: "added new n (s\<lparr>tm_files := f\<rparr>) s1" and src: "smap_find (tm_registry s) h = Some src"
    using st by (auto simp: staged_def)
  have hp: "inv_heap s"
    using inv by (simp add: tm_inv_def)
  show ?thesis
  proof (cases "ta_ptr b")
    case None
    then show ?thesis
      using g Some by (simp add: block_data_def migrated_state(1) [OF st inv cp])
  next
    case (Some p)
    note b = \<open>smap_find (tm_registry s) g = Some b\<close>
    have src_p: "ta_ptr src \<noteq> Some p"
      using heap_inv_unique [OF hp b src Some] g by auto
    have live: "tm_heap s p \<noteq> None"
      using heap_inv_entry [OF hp b] Some by (auto simp: backed_def)
    then have new_p: "ta_ptr new \<noteq> Some p" and "tm_heap s1 p = tm_heap s p"
      using ad by (auto simp: added_def split: option.splits)
    moreover have "tm_heap s2 p = tm_heap s1 p"
      using cp new_p by (auto simp: copied_def)
    ultimately have "tm_heap (migrated h src new s2) p = tm_heap s p"
      using src_p by (auto simp: migrated_state(2) [OF st inv cp] split: option.splits)
    then show ?thesis
      using g b Some by (simp add: block_data_def migrated_state(1) [OF st inv cp])
  qed
qed

lemma migrated_own:
  assumes st: "staged h src new s s1" and inv: "tm_inv s" "handles_left s"
    and tr: "transfer src new s1 = Some s2" and hook: "tm_compute_hook s = None"
    and ptr: "ta_ptr src = Some p" "ta_ptr new = Some q"
  shows "block_data h (migrated h src new s2) = block_data h s"
proof -
  note D = stagedD [OF st inv]
  have cp: "copied new s1 s2"
    using tr by (rule transfer_copied)
  obtain f n where ad: "added new n (s\<lparr>tm_files := f\<rparr>) s1" and src: "smap_find (tm_registry s) h = Some src"
    and sz: "ta_size new = ta_size src"
    using st by (auto simp: staged_def)
  obtain blk where p: "tm_heap s p = Some blk" and len: "unat (ta_size src) \<le> length blk"
    using inv src ptr heap_inv_entry [of s h src] by (auto simp: tm_inv_def backed_def)
  obtain blk' where q: "tm_heap s1 q = Some blk'" and len': "unat (ta_size src) \<le> length blk'"
    using D(1,3) ptr sz heap_inv_entry [of s1 "ta_handle new" new] by (auto simp: tm_inv_def backed_def)
  have ne: "p \<noteq> q" and p1: "tm_heap s1 p = Some blk"
    using ad p ptr by (auto simp: added_def)
  have "tm_compute_hook s1 = None"
    using ad hook by (simp add: added_def)
  then have "tm_heap s2 q = Some (overlay (take (unat (ta_size src)) blk) blk')"
    using tr ptr by (auto simp: transfer_def block_at_def p1 q)
  then show ?thesis
    using ne ptr src p len len' sz
    by (simp add: block_data_def migrated_state(1,2) [OF st inv cp] overlay_take)
qed

lemma block_data_ptr:
  "smap_find (tm_registry s) h = Some a \<Longrightarrow> ta_ptr a = None \<Longrightarrow> block_data h s = None"
  by (simp add: block_data_def)

lemma staged_ram:
  assumes "staged h src new s s1" "tm_inv s" "handles_left s"
  shows "ta_ptr src \<noteq> None \<longleftrightarrow> in_ram src" and "ta_ptr new \<noteq> None \<longleftrightarrow> in_ram new"
  using stagedD [OF assms] backed_ptr heap_inv_entry by (simp_all add: tm_inv_def) blast+

text \<open>C20. A migration keeps data: without a compute hook, a block that was in RAM and is in RAM after a
  promotion or demotion holds the same bytes, and no migration, wherever it ends, changes the data of
  any other block.\<close>

theorem migration_keeps_data:
  assumes inv: "tm_inv s" "handles_left s" and ev: "env_ok ev" and hook: "tm_compute_hook s = None"
    and mig: "promote ev h s = (Inr a, s') \<or> demote ev h s = (Inr a, s')"
  shows "(ta_ptr a \<noteq> None \<and> block_data h s \<noteq> None \<longrightarrow> block_data h s' = block_data h s) \<and>
    (g \<noteq> h \<longrightarrow> block_data g s' = block_data g s)"
proof -
  have "?thesis" if pr: "promote ev h s = (Inr a, s')"
    using inv ev pr
  proof (cases rule: promote_cases)
    case (moved src new s1 s2)
    note st = moved(1)
    have src: "smap_find (tm_registry s) h = Some src"
      using st by (simp add: staged_def)
    have "block_data h s' = block_data h s" if ram: "ta_ptr a \<noteq> None" "block_data h s \<noteq> None"
    proof -
      obtain p q where pq: "ta_ptr src = Some p" "ta_ptr new = Some q"
        using ram moved(4) block_data_ptr [OF src] by (cases "ta_ptr src") auto
      then have "ta_tier src \<noteq> Cold"
        using staged_ram(1) [OF st inv] by (auto simp: in_ram_def)
      with moved have "transfer src new s1 = Some s2" by simp
      from migrated_own [OF st inv this hook pq] show ?thesis
        by (simp add: moved(3))
    qed
    then show ?thesis
      using migrated_others [OF st inv moved(2), of g] moved(3) by simp
  qed auto
  moreover have "?thesis" if de: "demote ev h s = (Inr a, s')"
    using inv ev de
  proof (cases rule: demote_cases)
    case (moved src new s1 s2)
    note st = moved(1)
    have src: "smap_find (tm_registry s) h = Some src"
      using st by (simp add: staged_def)
    have "block_data h s' = block_data h s" if ram: "ta_ptr a \<noteq> None" "block_data h s \<noteq> None"
    proof -
      obtain p q where pq: "ta_ptr src = Some p" "ta_ptr new = Some q"
        using ram moved(4) block_data_ptr [OF src] by (cases "ta_ptr src") auto
      then have "in_ram new"
        using staged_ram(2) [OF st inv] by auto
      then have "colder (ta_tier src) \<noteq> Cold"
        using moved(5) by (auto simp: in_ram_def)
      with moved have "transfer src new s1 = Some s2" by simp
      from migrated_own [OF st inv this hook pq] show ?thesis
        by (simp add: moved(3))
    qed
    then show ?thesis
      using migrated_others [OF st inv moved(2), of g] moved(3) by simp
  qed auto
  ultimately show ?thesis
    using mig by blast
qed

definition demo_write :: "address \<Rightarrow> byte list \<Rightarrow> Tmm \<Rightarrow> Tmm" where
  "demo_write p bs s = s\<lparr>tm_heap := (tm_heap s)(p \<mapsto> bs)\<rparr>"

definition demo_filled :: Tmm where
  "demo_filled = demo_write 0 [1, 2, 3] (snd (allocate demo_env 3 Cool 0 demo_tmm))"

lemma demo_allocated: "tm_inv (snd (allocate demo_env 3 Cool 0 demo_tmm))"
  using allocate_inv [of demo_env 3 Cool 0 demo_tmm] demo_tmm_inv demo_env_ok
  by (cases "allocate demo_env 3 Cool 0 demo_tmm") simp

lemma demo_block: "tm_heap (snd (allocate demo_env 3 Cool 0 demo_tmm)) 0 = Some [0xCD, 0xCD, 0xCD]"
  by code_simp

lemma demo_filled_inv: "tm_inv demo_filled" "handles_left demo_filled" "tm_compute_hook demo_filled = None"
proof -
  let ?s = "snd (allocate demo_env 3 Cool 0 demo_tmm)"
  have "same_core ?s demo_filled"
    by (simp add: demo_filled_def demo_write_def same_core_def)
  moreover have "inv_heap demo_filled"
    using heap_write_inv [of ?s 0 "[1, 2, 3]"] demo_allocated demo_block
    by (simp add: demo_filled_def demo_write_def block_at_def overlay_def tm_inv_def)
  ultimately show "tm_inv demo_filled"
    using demo_allocated same_core_inv by blast
  show "handles_left demo_filled" "tm_compute_hook demo_filled = None"
    unfolding handles_left_def by code_simp+
qed

theorem migration_keeps_data_witness:
  "block_data 1 (snd (promote demo_env 1 demo_filled)) = Some [1, 2, 3]"
proof -
  obtain r s' where pr: "promote demo_env 1 demo_filled = (r, s')"
    by fastforce
  have "case fst (promote demo_env 1 demo_filled) of Inl _ \<Rightarrow> False | Inr a \<Rightarrow> ta_ptr a \<noteq> None"
    by code_simp
  with pr obtain a where "r = Inr a" "ta_ptr a \<noteq> None"
    by (cases r) auto
  moreover have "block_data 1 demo_filled = Some [1, 2, 3]"
    by code_simp
  ultimately show ?thesis
    using migration_keeps_data [OF demo_filled_inv(1,2) demo_env_ok demo_filled_inv(3), of 1 a s'] pr
    by simp
qed

subsection \<open>Eviction\<close>

lemma length_filter_neq: "distinct xs \<Longrightarrow> x \<in> set xs \<Longrightarrow> length (filter (\<lambda>y. y \<noteq> x) xs) = length xs - 1"
  by (metis distinct_filter distinct_card filter_remove_set card_Diff_singleton)

lemma demote_victim:
  assumes inv: "tm_inv s" "env_ok ev" and room: "handle_room (Suc k) s"
    and h: "h \<in> set (tm_lru s t)" and t: "t \<noteq> Cold" and de: "demote ev h s = (Inr a, s')"
  shows "tm_inv s' \<and> handle_room k s' \<and> tm_lru s' t = filter (\<lambda>x. x \<noteq> h) (tm_lru s t)"
proof -
  note hl = handle_room_left [OF room]
  obtain b where b: "smap_find (tm_registry s) h = Some b" "ta_tier b = t"
    using lru_entry [of s h t] inv(1) h by (auto simp: tm_inv_def)
  from inv(1) hl inv(2) de show ?thesis
  proof (cases rule: demote_cases)
    case (cold src)
    with b t show ?thesis by simp
  next
    case (moved src new s1 s2)
    then show ?thesis
      using migrated_inv(1) [OF moved(1) inv(1) hl moved(2)] migrated_state(3) [OF moved(1) inv(1) hl moved(2)]
        migrated_next [OF moved(1) inv(1) hl moved(2)] handle_room_next [OF room] by simp
  qed auto
qed

definition evict_stopped :: "tm_env \<Rightarrow> MemoryTier \<Rightarrow> float32 \<Rightarrow> Tmm \<Rightarrow> bool" where
  "evict_stopped ev t target s \<longleftrightarrow> f_leq (F_Fin (fill_ratio (tm_acct s t))) target \<or> tm_lru s t = [] \<or>
     (\<exists>f e. fst (demote ev (last (tm_lru s t)) (s\<lparr>tm_files := f\<rparr>)) = Inl (Tier e))"

lemma evict_loop_ends:
  assumes "tm_inv s" and "env_ok ev" and "t \<noteq> Cold"
    and "handle_room (length (tm_lru s t)) s" and "length (tm_lru s t) < fuel"
  shows "\<exists>r s'. evict_loop ev fuel t target k s = Some (r, s') \<and> tm_inv s' \<and>
    (case r of Inl e \<Rightarrow> e = HookThrew
     | Inr k' \<Rightarrow> k' + length (tm_lru s' t) = k + length (tm_lru s t) \<and> evict_stopped ev t target s')"
  using assms
proof (induction fuel arbitrary: k s)
  case (Suc fuel)
  let ?l = "tm_lru s t" and ?v = "last (tm_lru s t)"
  show ?case
  proof (cases "f_leq (F_Fin (fill_ratio (tm_acct s t))) target \<or> ?l = []")
    case True
    then show ?thesis
      using Suc.prems by (auto simp: evict_stopped_def)
  next
    case False
    then have v: "?v \<in> set ?l" by simp
    then obtain b where b: "smap_find (tm_registry s) ?v = Some b"
      using lru_entry [of s ?v t] Suc.prems(1) by (auto simp: tm_inv_def)
    then have v0: "?v \<noteq> 0"
      using reg_block [of s ?v b] Suc.prems(1) by (auto simp: tm_inv_def block_wf_def)
    obtain m where m: "length ?l = Suc m"
      using False by (cases ?l) auto
    then have room: "handle_room (Suc m) s"
      using Suc.prems(4) by simp
    note hl = handle_room_left [OF room]
    obtain r s1 where de: "demote ev ?v s = (r, s1)" by fastforce
    show ?thesis
    proof (cases r)
      case (Inl e)
      show ?thesis
      proof (cases e)
        case (Tier te)
        obtain f where f: "s1 = s\<lparr>tm_files := f\<rparr>"
          using Suc.prems(1) hl Suc.prems(2) de by (cases rule: demote_cases) (use Inl Tier in auto)
        have bk: "s1\<lparr>tm_files := tm_files s\<rparr> = s"
          by (simp add: f)
        have "evict_stopped ev t target s1"
          unfolding evict_stopped_def
          by (intro disjI2 exI [of _ "tm_files s"] exI [of _ te]) (simp only: bk, simp add: f de Inl Tier)
        then show ?thesis
          using Suc.prems(1) False v0 de Inl Tier by (simp add: f Let_def)
      next
        case HookThrew
        have "tm_inv s1"
          using demote_inv [OF Suc.prems(1) hl Suc.prems(2), of ?v] de by simp
        then show ?thesis
          using False v0 de Inl HookThrew by (simp add: Let_def)
      qed
    next
      case (Inr a)
      have st: "tm_inv s1" "handle_room m s1" "tm_lru s1 t = filter (\<lambda>x. x \<noteq> ?v) ?l"
        using demote_victim [OF Suc.prems(1,2) room v Suc.prems(3)] de Inr by auto
      have "distinct ?l"
        using Suc.prems(1) by (simp add: tm_inv_def inv_lru_def)
      then have len: "length (tm_lru s1 t) = m"
        using v m length_filter_neq [of ?l ?v] by (simp add: st(3))
      have "evict_loop ev (Suc fuel) t target k s = evict_loop ev fuel t target (Suc k) s1"
        using False v0 de Inr by (simp add: Let_def)
      moreover have "\<exists>r s'. evict_loop ev fuel t target (Suc k) s1 = Some (r, s') \<and> tm_inv s' \<and>
        (case r of Inl e \<Rightarrow> e = HookThrew
         | Inr k' \<Rightarrow> k' + length (tm_lru s' t) = Suc k + length (tm_lru s1 t) \<and> evict_stopped ev t target s')"
        using Suc.IH [OF st(1) Suc.prems(2,3)] st(2) len Suc.prems(5) m by simp
      ultimately show ?thesis
        using len m by (auto split: sum.splits)
    qed
  qed
qed simp

lemma pressure_evict_runs:
  assumes "tm_inv s" and "env_ok ev" and "t \<noteq> Cold"
    and "handle_room (length (tm_lru s t)) s" and "length (tm_lru s t) < fuel"
  shows "\<exists>r s'. pressure_evict ev fuel t target s = Some (r, s') \<and> tm_inv s' \<and>
    (case r of Inl e \<Rightarrow> e = HookThrew \<or> e = Tier TierUnavailable
     | Inr k \<Rightarrow> k + length (tm_lru s' t) = length (tm_lru s t) \<and> evict_stopped ev t target s')"
proof (cases "ac_available (tm_acct s t)")
  case False
  then show ?thesis
    using assms(1) by (auto simp: pressure_evict_def)
next
  case True
  then have "ac_capacity (tm_acct s t) \<noteq> 0"
    using assms(1) by (auto simp: tm_inv_def inv_cfg_def size_ok_def)
  with True show ?thesis
    using evict_loop_ends [OF assms, of target 0] by (auto simp: pressure_evict_def split: sum.splits)
qed

text \<open>C21. Eviction of any tier but the coldest ends: with fuel for one iteration more than the tier has
  LRU entries the loop returns, the invariant holds, the number of evictions is the number of entries
  that left the LRU list, and it stops for one of its three reasons: the fill is at the target, the
  list is empty, or the last entry cannot be demoted.  Only a throwing hook or an unavailable tier give
  an error.\<close>

theorem pressure_evict_ends:
  assumes "tm_inv s" and "env_ok ev" and "t \<noteq> Cold"
    and "handle_room (length (tm_lru s t)) s" and "length (tm_lru s t) < fuel"
  shows "\<exists>r s'. pressure_evict ev fuel t target s = Some (r, s') \<and> tm_inv s' \<and>
    (case r of Inl e \<Rightarrow> e = HookThrew \<or> e = Tier TierUnavailable
     | Inr k \<Rightarrow> k + length (tm_lru s' t) = length (tm_lru s t) \<and> evict_stopped ev t target s')"
  using assms by (rule pressure_evict_runs)

theorem pressure_evict_ends_witness:
  "\<exists>r s'. pressure_evict demo_env 2 Cool (F_Fin (1 / 10)) demo_filled = Some (r, s') \<and> tm_inv s'"
proof -
  have "tm_lru demo_filled Cool = [1]"
    by code_simp
  moreover have "tm_next_handle demo_filled = 2"
    by code_simp
  then have "handle_room 1 demo_filled"
    by (simp add: handle_room_def)
  ultimately show ?thesis
    using pressure_evict_ends [OF demo_filled_inv(1) demo_env_ok, of Cool 2 "F_Fin (1 / 10)"] by auto
qed

lemma demote_cold_noop:
  "smap_find (tm_registry s) h = Some a \<Longrightarrow> ta_tier a = Cold \<Longrightarrow> demote ev h s = (Inr a, s)"
  by (simp add: demote_def)

lemma evict_cold_runs:
  assumes inv: "tm_inv s" and full: "\<not> f_leq (F_Fin (fill_ratio (tm_acct s Cold))) target" and "tm_lru s Cold \<noteq> []"
  shows "evict_loop ev fuel Cold target k s = None"
proof (induction fuel arbitrary: k)
  case (Suc fuel)
  let ?v = "last (tm_lru s Cold)"
  obtain b where b: "smap_find (tm_registry s) ?v = Some b" "ta_tier b = Cold"
    using lru_entry [of s ?v Cold] inv assms(3) by (auto simp: tm_inv_def)
  then have "?v \<noteq> 0"
    using reg_block [of s ?v b] inv by (auto simp: tm_inv_def block_wf_def)
  then show ?case
    using Suc full assms(3) demote_cold_noop [OF b] by (simp add: Let_def)
qed simp

text \<open>Eviction of the coldest tier never ends once it is needed: demoting a cold block succeeds
  without moving it, so while the tier is above the target and has an LRU entry, no number of
  iterations is enough.\<close>

theorem pressure_evict_cold_diverges:
  assumes "tm_inv s" and "ac_available (tm_acct s Cold)"
    and "\<not> f_leq (F_Fin (fill_ratio (tm_acct s Cold))) target" and "tm_lru s Cold \<noteq> []"
  shows "pressure_evict ev fuel Cold target s = None"
proof -
  have "ac_capacity (tm_acct s Cold) \<noteq> 0"
    using assms(1,2) by (auto simp: tm_inv_def inv_cfg_def size_ok_def)
  then show ?thesis
    using evict_cold_runs [OF assms(1,3,4)] assms(2) by (simp add: pressure_evict_def)
qed

definition demo_cold :: Tmm where
  "demo_cold = snd (allocate demo_env 1 Cold 0 demo_tmm)"

theorem pressure_evict_cold_diverges_witness:
  "pressure_evict demo_env 1000000 Cold (F_Fin (7 / 10)) demo_cold = None"
proof (rule pressure_evict_cold_diverges)
  show "tm_inv demo_cold"
    using allocate_inv [of demo_env 1 Cold 0 demo_tmm] demo_tmm_inv demo_env_ok
    by (cases "allocate demo_env 1 Cold 0 demo_tmm") (simp add: demo_cold_def)
  show "ac_available (tm_acct demo_cold Cold)" "tm_lru demo_cold Cold \<noteq> []"
    "\<not> f_leq (F_Fin (fill_ratio (tm_acct demo_cold Cold))) (F_Fin (7 / 10))"
    by code_simp+
qed

subsection \<open>Histories of calls\<close>

text \<open>An eviction is run with the fuel that \<open>pressure_evict_runs\<close> shows to be enough.\<close>

datatype tm_op = Alloc u64 MemoryTier u64 | Free TierHandle | Promote TierHandle | Demote TierHandle
  | SetHook "compute_hook option" | Evict MemoryTier float32 | Reset

fun run_tm :: "tm_env \<Rightarrow> tm_op \<Rightarrow> Tmm \<Rightarrow> Tmm" where
  "run_tm ev (Alloc n t al) s = snd (allocate ev n t al s)"
| "run_tm ev (Free h) s = snd (free_handle h s)"
| "run_tm ev (Promote h) s = snd (promote ev h s)"
| "run_tm ev (Demote h) s = snd (demote ev h s)"
| "run_tm ev (SetHook f) s = snd (register_compute_hook f s)"
| "run_tm ev (Evict t target) s =
     (case pressure_evict ev (Suc (length (tm_lru s t))) t target s of Some (r, s') \<Rightarrow> s' | None \<Rightarrow> s)"
| "run_tm ev Reset s = reset_for_testing s"

definition run_tms :: "tm_env \<Rightarrow> tm_op list \<Rightarrow> Tmm \<Rightarrow> Tmm" where
  "run_tms ev ops s = fold (run_tm ev) ops s"

fun op_ok :: "tm_op \<Rightarrow> bool" where
  "op_ok (Alloc n t al) \<longleftrightarrow> unat n \<le> 2 ^ 62 \<and> unat al \<le> 2 ^ 32"
| "op_ok (Evict t target) \<longleftrightarrow> t \<noteq> Cold"
| "op_ok _ \<longleftrightarrow> True"

text \<open>How many handles a call may give out, and that the 64-bit counter has room for them.\<close>

fun handles_needed :: "tm_op \<Rightarrow> Tmm \<Rightarrow> nat" where
  "handles_needed (Evict t target) s = length (tm_lru s t)"
| "handles_needed (Free h) s = 0"
| "handles_needed (SetHook f) s = 0"
| "handles_needed Reset s = 0"
| "handles_needed _ s = 1"

primrec handles_ok :: "tm_env \<Rightarrow> tm_op list \<Rightarrow> Tmm \<Rightarrow> bool" where
  "handles_ok ev [] s = True"
| "handles_ok ev (c # cs) s \<longleftrightarrow> handle_room (handles_needed c s) s \<and> handles_ok ev cs (run_tm ev c s)"

text \<open>Releasing every block empties the counters of both memory resources.\<close>

lemma drop_entry_other:
  assumes "ta_tier a \<noteq> Warm" and "ta_tier a \<noteq> Cool"
  shows "drop_entry (h, a) s = s\<lparr>tm_files := (case smap_find (tm_cold_files s) h of None \<Rightarrow> tm_files s
    | Some path \<Rightarrow> if ta_tier a = Cold then (tm_files s)(path := None) else tm_files s)\<rparr>"
  using assms by (cases "ta_tier a"; cases "smap_find (tm_cold_files s) h") (simp_all add: drop_entry_def release_memory_def)

lemma drop_entry_ram:
  assumes "ta_ptr a = Some p"
  shows "ta_tier a = Warm \<Longrightarrow> drop_entry (h, a) s = s\<lparr>tm_warm_res := fst (do_deallocate p (ta_size a) (ta_align a) (tm_warm_res s) (tm_heap s)),
      tm_heap := (tm_heap s)(p := None)\<rparr>"
    and "ta_tier a = Cool \<Longrightarrow> drop_entry (h, a) s = s\<lparr>tm_cool_res := fst (do_deallocate p (ta_size a) (ta_align a) (tm_cool_res s) (tm_heap s)),
      tm_heap := (tm_heap s)(p := None)\<rparr>"
  using assms by (simp_all add: drop_entry_def release_memory_def do_deallocate_def Let_def)

lemma deallocate_amount:
  assumes "unat (pmr_size r n al) \<le> unat (pr_allocated r)"
  shows "unat (pr_allocated (fst (do_deallocate p n al r hp))) = unat (pr_allocated r) - unat (pmr_size r n al)"
    "pr_capacity (fst (do_deallocate p n al r hp)) = pr_capacity r"
    "pr_default_align (fst (do_deallocate p n al r hp)) = pr_default_align r"
  using assms by (simp_all add: do_deallocate_def Let_def word_le_nat_alt unat_sub)

lemma cost_pmr:
  "ta_tier a = Warm \<Longrightarrow> cost Warm s a = unat (pmr_size (tm_warm_res s) (ta_size a) (ta_align a))"
  "ta_tier a = Cool \<Longrightarrow> cost Cool s a = unat (pmr_size (tm_cool_res s) (ta_size a) (ta_align a))"
  "ta_tier a \<noteq> t \<Longrightarrow> cost t s a = 0"
  by (simp_all add: cost_def tier_size_def aligned_size_def pmr_size_def default_align_def)

lemma drop_entry_step:
  fixes a :: TierAllocation and s :: Tmm and h :: TierHandle
  assumes "ta_tier a = Warm \<or> ta_tier a = Cool \<longrightarrow> ta_ptr a \<noteq> None"
    and "cost Warm s a \<le> unat (pr_allocated (tm_warm_res s))" and "cost Cool s a \<le> unat (pr_allocated (tm_cool_res s))"
  defines "s' \<equiv> drop_entry (h, a) s"
  shows "unat (pr_allocated (tm_warm_res s')) = unat (pr_allocated (tm_warm_res s)) - cost Warm s a \<and>
    unat (pr_allocated (tm_cool_res s')) = unat (pr_allocated (tm_cool_res s)) - cost Cool s a \<and>
    same_layout s s' \<and> tm_acct s' = tm_acct s \<and> tm_next_handle s' = tm_next_handle s \<and>
    pr_capacity (tm_warm_res s') = pr_capacity (tm_warm_res s) \<and>
    pr_capacity (tm_cool_res s') = pr_capacity (tm_cool_res s)"
proof -
  consider (warm) p where "ta_tier a = Warm" "ta_ptr a = Some p" | (cool) p where "ta_tier a = Cool" "ta_ptr a = Some p"
    | (other) "ta_tier a \<noteq> Warm" "ta_tier a \<noteq> Cool"
    using assms(1) by auto
  then show ?thesis
  proof cases
    case warm
    then show ?thesis
      using assms(2) by (simp add: s'_def drop_entry_ram(1) cost_pmr deallocate_amount same_layout_def)
  next
    case cool
    then show ?thesis
      using assms(3) by (simp add: s'_def drop_entry_ram(2) cost_pmr deallocate_amount same_layout_def)
  next
    case other
    then obtain f where "s' = s\<lparr>tm_files := f\<rparr>"
      unfolding s'_def drop_entry_other [OF other] by blast
    with other show ?thesis by (simp add: cost_pmr(3) same_layout_def)
  qed
qed

lemma drop_all:
  assumes "\<forall>(h, a) \<in> set es. ta_tier a = Warm \<or> ta_tier a = Cool \<longrightarrow> ta_ptr a \<noteq> None"
    and "unat (pr_allocated (tm_warm_res s)) = sum_list (map (\<lambda>e. cost Warm s (snd e)) es)"
    and "unat (pr_allocated (tm_cool_res s)) = sum_list (map (\<lambda>e. cost Cool s (snd e)) es)"
  defines "s' \<equiv> fold drop_entry es s"
  shows "pr_allocated (tm_warm_res s') = 0 \<and> pr_allocated (tm_cool_res s') = 0 \<and> same_layout s s' \<and>
    tm_acct s' = tm_acct s \<and> tm_next_handle s' = tm_next_handle s \<and>
    pr_capacity (tm_warm_res s') = pr_capacity (tm_warm_res s) \<and>
    pr_capacity (tm_cool_res s') = pr_capacity (tm_cool_res s)"
  using assms(1-3) unfolding s'_def
proof (induction es arbitrary: s)
  case Nil
  then show ?case by (simp add: same_layout_def unat_eq_0)
next
  case (Cons e es)
  obtain h a where e: "e = (h, a)" by (cases e)
  let ?s1 = "drop_entry (h, a) s"
  have d: "unat (pr_allocated (tm_warm_res ?s1)) = unat (pr_allocated (tm_warm_res s)) - cost Warm s a"
    "unat (pr_allocated (tm_cool_res ?s1)) = unat (pr_allocated (tm_cool_res s)) - cost Cool s a"
    "same_layout s ?s1" "tm_acct ?s1 = tm_acct s" "tm_next_handle ?s1 = tm_next_handle s"
    "pr_capacity (tm_warm_res ?s1) = pr_capacity (tm_warm_res s)"
    "pr_capacity (tm_cool_res ?s1) = pr_capacity (tm_cool_res s)"
    using drop_entry_step [of a s h] Cons.prems by (simp_all add: e)
  have c: "cost t ?s1 b = cost t s b" for t b
    by (rule same_layout_simps(3) [OF d(3)])
  have "unat (pr_allocated (tm_warm_res ?s1)) = sum_list (map (\<lambda>e. cost Warm ?s1 (snd e)) es)"
    "unat (pr_allocated (tm_cool_res ?s1)) = sum_list (map (\<lambda>e. cost Cool ?s1 (snd e)) es)"
    using Cons.prems(2,3) by (simp_all add: d(1,2) c e)
  from Cons.IH [OF _ this] Cons.prems(1) d show ?case
    by (auto simp: e same_layout_def)
qed

lemma reset_inv:
  assumes "tm_inv s"
  shows "tm_inv (reset_for_testing s)"
proof -
  define s1 where "s1 = fold drop_entry (tm_registry s) s"
  have wf: "smap_wf (tm_registry s)"
    using assms by (simp add: tm_inv_def inv_reg_def)
  have "ta_ptr a \<noteq> None" if "(h, a) \<in> set (tm_registry s)" "ta_tier a = Warm \<or> ta_tier a = Cool" for h a
  proof -
    have "backed (tm_heap s) a"
      using assms that(1) smap_find_entry [OF wf, of h a] heap_inv_entry [of s h a] by (simp add: tm_inv_def)
    with that(2) show ?thesis
      by (auto simp: backed_def in_ram_def split: option.splits)
  qed
  then have ram: "\<forall>(h, a) \<in> set (tm_registry s). ta_tier a = Warm \<or> ta_tier a = Cool \<longrightarrow> ta_ptr a \<noteq> None"
    by blast
  have sums: "unat (pr_allocated (tm_warm_res s)) = sum_list (map (\<lambda>e. cost Warm s (snd e)) (tm_registry s))"
    "unat (pr_allocated (tm_cool_res s)) = sum_list (map (\<lambda>e. cost Cool s (snd e)) (tm_registry s))"
    using assms by (simp_all add: tm_inv_def inv_pmr_def inv_acct_def used_def)
  note d = drop_all [OF ram sums, folded s1_def]
  have r: "reset_for_testing s = s1\<lparr>tm_registry := [], tm_lru := (\<lambda>t. []), tm_cold_files := [],
      tm_acct := (\<lambda>t. fresh_accounting (ac_capacity (tm_acct s1 t)) (ac_available (tm_acct s1 t)))\<rparr>"
    by (simp add: reset_for_testing_def s1_def Let_def)
  have da: "default_align t (reset_for_testing s) = default_align t s" for t
    using d by (cases t) (simp_all add: r default_align_def same_layout_def)
  show ?thesis
    using assms d da
    by (simp add: tm_inv_defs r fresh_accounting_def used_def smap_wf_def smap_find_def same_layout_def)
qed

lemma run_tm_inv:
  assumes inv: "tm_inv s" and ev: "env_ok ev" and room: "handle_room (handles_needed c s) s" and c: "op_ok c"
  shows "tm_inv (run_tm ev c s)"
proof (cases c)
  case (Alloc n t al)
  then show ?thesis
    using allocate_inv [of ev n t al s] inv ev handle_room_left [of 0 s] room c by (cases "allocate ev n t al s") auto
next
  case (SetHook f)
  then show ?thesis
    using inv same_core_inv [of s "run_tm ev c s"]
    by (cases f) (auto simp: register_compute_hook_def same_core_def tm_inv_def inv_heap_def)
next
  case (Evict t target)
  then show ?thesis
    using pressure_evict_runs [OF inv ev, of t "Suc (length (tm_lru s t))" target] room c by auto
next
  case Reset
  then show ?thesis
    using reset_inv [OF inv] by simp
qed (use inv ev room handle_room_left [of 0 s] free_inv promote_inv demote_inv in auto)

text \<open>C17. From a freshly constructed manager with positive capacities of at most \<open>2 ^ 62\<close> bytes, every
  sequence of allocations, frees, promotions, demotions, hook registrations, evictions of a tier other than
  the coldest (to any target, which may be a NaN) and resets keeps the invariant: every handle on an LRU
  list is registered in that tier, the byte counter of a tier is the sum of the aligned sizes of its blocks,
  equals the counter of its memory resource and never exceeds the capacity, and every block in RAM owns
  memory of at least its size that no other block shares.  The sizes asked for are at most \<open>2 ^ 62\<close>, the
  alignments at most \<open>2 ^ 32\<close> (close to the largest \<^verbatim>\<open>size_t\<close> the rounding wraps around, \<open>allocate_wraps\<close>), and
  the 64-bit counter of handles does not wrap around.\<close>

theorem tiered_history_inv:
  assumes "cfg_ok cfg" and "env_ok ev" and "list_all op_ok ops"
    and "handles_ok ev ops (new_tmm ev cfg hp fs)"
  shows "tm_inv (run_tms ev ops (new_tmm ev cfg hp fs))"
proof -
  have "tm_inv s \<Longrightarrow> list_all op_ok ops \<Longrightarrow> handles_ok ev ops s \<Longrightarrow> tm_inv (run_tms ev ops s)" for s
    by (induction ops arbitrary: s) (simp_all add: run_tms_def run_tm_inv [OF _ assms(2)])
  then show ?thesis
    using new_tmm_inv [OF assms(1)] assms(3,4) by blast
qed

text \<open>A check for the room of the counter that evaluates.\<close>

primrec few_handles :: "tm_env \<Rightarrow> tm_op list \<Rightarrow> Tmm \<Rightarrow> bool" where
  "few_handles ev [] s = True"
| "few_handles ev (c # cs) s \<longleftrightarrow> tm_next_handle s < 10 \<and> handles_needed c s < 10 \<and> few_handles ev cs (run_tm ev c s)"

lemma few_handles_ok: "few_handles ev ops s \<Longrightarrow> handles_ok ev ops s"
  by (induction ops arbitrary: s) (auto simp: handle_room_def word_less_nat_alt)

theorem tiered_history_inv_witness:
  "tm_inv (run_tms demo_env [Alloc 3 Cool 0, Promote 1, Evict Cool F_NaN, Free 1, Reset, Alloc 2 Cool 0]
     (new_tmm demo_env demo_config Map.empty Map.empty))"
proof (rule tiered_history_inv [OF demo_config_ok demo_env_ok])
  show "handles_ok demo_env [Alloc 3 Cool 0, Promote 1, Evict Cool F_NaN, Free 1, Reset, Alloc 2 Cool 0]
     (new_tmm demo_env demo_config Map.empty Map.empty)"
    by (rule few_handles_ok) code_simp
qed simp

subsection \<open>The coldest tier loses data\<close>

lemma migrated_cold_files:
  "tm_cold_files (migrated h src new s2) =
     (if ta_tier src = Cold then tm_cold_files (release_cold_file h s2) else tm_cold_files s2)"
  by (simp add: migrated_def finish_migration_def settle_old_def update_acct_def release_backing_def
      swap_entry_def Let_def release_cold_file_def split: option.splits)

lemma added_cold_files:
  assumes "added a n s s1" and "h \<noteq> ta_handle a"
  shows "smap_find (tm_cold_files s1) h = smap_find (tm_cold_files s) h"
  using assms by (auto simp: added_def split: option.splits)

text \<open>A block that is demoted to the coldest tier cannot be read back.  The spill file is recorded
  under the temporary handle of the new block, not under the handle the caller keeps: a later promotion
  to RAM finds no file, so the block still holds exactly what the allocator returned, and the spill
  file of the temporary handle stays recorded for good.\<close>

theorem cold_round_trip_loses_data:
  assumes inv: "tm_inv s" and room: "handle_room 2 s" and ev: "env_ok ev"
    and no_file: "smap_find (tm_cold_files s) h = None"
    and de: "demote ev h s = (Inr a, s1)" "query h s = Inr b" "ta_tier b \<noteq> Cold" "ta_tier a = Cold"
    and pr: "promote ev h s1 = (Inr c, s2)" "ta_ptr c = Some q"
  shows "(\<exists>new t1. allocate ev (ta_size b) Cool (ta_align b) s1 = (Inr new, t1) \<and>
      ta_ptr new = Some q \<and> tm_heap s2 q = tm_heap t1 q) \<and>
    smap_find (tm_cold_files s2) (tm_next_handle s) \<noteq> None"
proof -
  have room': "handle_room (Suc 1) s"
    using room by (simp add: numeral_2_eq_2)
  note hl = handle_room_left [OF room']
  have b: "smap_find (tm_registry s) h = Some b"
    using de(2) by (simp add: query_def split: option.splits)
  from inv hl ev de(1) obtain new1 u1 u2 where m: "staged h b new1 s u1" "copied new1 u1 u2"
    "s1 = migrated h b new1 u2" "a = new1\<lparr>ta_handle := h\<rparr>"
    by (cases rule: demote_cases) (use b de(3) in \<open>auto simp: staged_def\<close>)
  note D = stagedD [OF m(1) inv hl]
  have inv1: "tm_inv s1" and a: "smap_find (tm_registry s1) h = Some a" and hl1: "handles_left s1"
    using migrated_inv(1) [OF m(1) inv hl m(2)] migrated_state(1) [OF m(1) inv hl m(2), of h] m(3,4)
      handle_room_left [of 0 s1] handle_room_next [OF room'] migrated_next [OF m(1) inv hl m(2)] by simp_all
  have sz: "ta_size a = ta_size b" "ta_align a = ta_align b"
    using m(1,4) by (simp_all add: staged_def)
  obtain f n where ad: "added new1 n (s\<lparr>tm_files := f\<rparr>) u1"
    using m(1) by (auto simp: staged_def)
  have "ta_ptr new1 = None"
    using staged_ram(2) [OF m(1) inv hl] de(4) m(4) by (auto simp: in_ram_def)
  then have cold1: "smap_find (tm_cold_files s1) h = None" "smap_find (tm_cold_files s1) (tm_next_handle s) \<noteq> None"
    using ad added_cold_files [OF ad D(4)] no_file de(3) m(2,3) D(5)
    by (simp_all add: migrated_cold_files copied_def added_def)
  from inv1 hl1 ev pr(1) show ?thesis
  proof (cases rule: promote_cases)
    case (moved src new v1 v2)
    have src: "src = a"
      using moved(1) a by (simp add: staged_def)
    note E = stagedD [OF moved(1) inv1 hl1]
    obtain f n where ad2: "added new n (s1\<lparr>tm_files := f\<rparr>) v1"
      using moved(1) by (auto simp: staged_def)
    have none: "smap_find (tm_cold_files v1) h = None"
      using added_cold_files [OF ad2 E(4)] cold1 by simp
    then have v2: "v2 = v1"
      using moved(6) de(4) by (simp add: src load_spill_def split: option.splits)
    have q: "ta_ptr new = Some q" and ptr: "ta_ptr a = None"
      using moved(4) pr(2) m(4) \<open>ta_ptr new1 = None\<close> by simp_all
    have "tm_heap s2 = tm_heap v1"
      using migrated_state(2) [OF moved(1) inv1 hl1 moved(2)] moved(3) ptr v2 by (simp add: src)
    moreover have "tm_next_handle s \<noteq> tm_next_handle s1"
      using migrated_next [OF m(1) inv hl m(2)] m(3) next_handle_less [OF hl] by auto
    then have "smap_find (tm_cold_files s2) (tm_next_handle s) \<noteq> None"
      using cold1(2) added_cold_files [OF ad2, of "tm_next_handle s"] E(5) moved(3) v2 none de(4)
      by (simp add: migrated_cold_files src release_cold_file_def)
    ultimately show ?thesis
      using moved(7) q sz de(4) by (auto simp: src hotter_def)
  qed auto
qed

text \<open>A concrete round trip, evaluated step by step.\<close>

definition demo_d1 :: Tmm where "demo_d1 = snd (allocate demo_env 3 Cold 1 demo_filled)"
definition demo_src :: TierAllocation where "demo_src = current_entry 1 demo_filled"
definition demo_new :: TierAllocation where "demo_new = current_entry 2 demo_d1"
definition demo_d3 :: Tmm where
  "demo_d3 = count_migration 1 Cool Cold (store_spill demo_env demo_src demo_new demo_d1)"
definition demo_spilled :: Tmm where "demo_spilled = demote_swap 1 Cool demo_src demo_new demo_d3"

lemma demo_demote:
  "demote demo_env 1 demo_filled = (query 1 demo_spilled, demo_spilled)"
proof -
  have "smap_find (tm_registry demo_filled) 1 = Some demo_src" "ta_tier demo_src = Cool"
    "ta_size demo_src = 3" "ta_align demo_src = 1" "ac_available (tm_acct demo_filled Cold)"
    by code_simp+
  moreover have "fst (allocate demo_env 3 Cold 1 demo_filled) = Inr demo_new"
    by code_simp
  then have "allocate demo_env 3 Cold 1 demo_filled = (Inr demo_new, demo_d1)"
    by (simp add: demo_d1_def prod_eq_iff)
  moreover have "ta_ptr demo_new = None" "ta_tier demo_new = Cold" "current_entry 1 demo_d3 = demo_src"
    by code_simp+
  ultimately show ?thesis
    by (simp add: demote_def colder_def with_query_def demo_spilled_def demo_d3_def)
qed

lemma demo_spilled_query: "case query 1 demo_spilled of Inl _ \<Rightarrow> False | Inr a \<Rightarrow> ta_tier a = Cold"
  by code_simp

lemma promote_cold_moves:
  assumes inv: "tm_inv s" "handles_left s" and ev: "env_ok ev"
    and src: "smap_find (tm_registry s) h = Some src" "ta_tier src = Cold"
    and al: "allocate ev (ta_size src) Cool (ta_align src) s = (Inr new, s1)"
  shows "\<exists>s'. promote ev h s = (Inr (new\<lparr>ta_handle := h\<rparr>), s')"
proof -
  obtain r s' where pr: "promote ev h s = (r, s')" by fastforce
  have "tm_next_handle s1 = tm_next_handle s + 1"
    using al inv(1) ev by (auto elim!: allocate_Inr simp: added_def)
  moreover have "tm_next_handle (load_spill h src new s1) = tm_next_handle s1"
    using load_spill_copied by (simp add: copied_def same_core_def)
  ultimately have nx: "tm_next_handle s' = tm_next_handle s + 1" and r: "r = query h s'"
    using pr src al by (auto simp: promote_def hotter_def with_query_def promote_swap_def settle_old_def
        update_acct_def swap_entry_def Let_def)
  from inv ev pr show ?thesis
  proof (cases rule: promote_cases)
    case (failed e f)
    then show ?thesis using nx by simp
  next
    case (threw src new)
    then show ?thesis using r by (simp add: query_def split: option.splits)
  next
    case (moved src' new' u1 u2)
    then show ?thesis using pr src al by (auto simp: staged_def hotter_def)
  qed
qed

lemma demo_spilled_state:
  "tm_next_handle demo_spilled = 3" "tm_cfg demo_spilled = demo_config"
  "tm_cool_res demo_spilled = \<lparr>pr_capacity = 8, pr_default_align = 1, pr_allocated = 0\<rparr>"
  "tm_heap demo_spilled 0 = None" "ac_available (tm_acct demo_spilled Cool)"
  "ac_allocated (tm_acct demo_spilled Cool) = 0" "ac_capacity (tm_acct demo_spilled Cool) = 8"
  "\<not> smap_count (tm_registry demo_spilled) 3"
  "ta_size (current_entry 1 demo_spilled) = 3" "ta_align (current_entry 1 demo_spilled) = 1"
  by code_simp+

lemma demo_spilled_alloc:
  "\<exists>new s1. allocate demo_env 3 Cool 1 demo_spilled = (Inr new, s1) \<and> ta_ptr new = Some 0"
proof -
  have "ev_malloc demo_env (tm_heap demo_spilled) 1 3 = Some (0, replicate (unat (3 :: u64)) 0xCD)"
    by (simp add: demo_env_def demo_spilled_state upt_rec)
  moreover have "align_up 3 1 = 3"
    by (simp add: align_up_def)
  ultimately show ?thesis
    by (simp add: allocate_def try_tier_def Let_def back_tier_def do_allocate_def pmr_size_def
        aligned_size_def default_align_def commit_defs demo_spilled_state)
qed

theorem cold_round_trip_loses_data_witness:
  "\<exists>c s2. promote demo_env 1 (snd (demote demo_env 1 demo_filled)) = (Inr c, s2) \<and>
     ta_ptr c = Some 0 \<and> smap_find (tm_cold_files s2) 2 \<noteq> None"
proof -
  have nh: "tm_next_handle demo_filled = 2" and nf: "smap_find (tm_cold_files demo_filled) 1 = None"
    by code_simp+
  obtain a where de: "demote demo_env 1 demo_filled = (Inr a, demo_spilled)" and a: "ta_tier a = Cold"
    "smap_find (tm_registry demo_spilled) 1 = Some a"
    using demo_spilled_query by (auto simp: demo_demote query_def split: option.splits)
  have "case query 1 demo_filled of Inl _ \<Rightarrow> False | Inr b \<Rightarrow> ta_tier b = Cool"
    by code_simp
  then obtain b where b: "query 1 demo_filled = Inr b" "ta_tier b = Cool"
    by (auto split: sum.splits)
  have room: "handle_room (Suc 1) demo_filled" and inv: "tm_inv demo_spilled" "handles_left demo_spilled"
    using demote_inv [OF demo_filled_inv(1,2) demo_env_ok, of 1] de nh demo_spilled_state(1)
    by (simp_all add: handle_room_def handles_left_def)
  have "ta_size a = 3" "ta_align a = 1"
    using demo_spilled_state(9,10) a by (simp_all add: current_entry_def smap_get_def)
  then obtain c s2 where pr: "promote demo_env 1 demo_spilled = (Inr c, s2)" "ta_ptr c = Some 0"
    using demo_spilled_alloc promote_cold_moves [OF inv demo_env_ok a(2,1)] by fastforce
  have "smap_find (tm_cold_files s2) 2 \<noteq> None"
    using cold_round_trip_loses_data [OF demo_filled_inv(1) _ demo_env_ok nf de b(1) _ a(1) pr] b(2) nh room
    by (simp add: numeral_2_eq_2)
  then show ?thesis
    using pr de by simp
qed

subsection \<open>Sizes near the top of the address space\<close>

lemma align_up_wraps:
  assumes "2 ^ 64 - 64 < unat v"
  shows "align_up v 64 = 0"
proof -
  have v: "unat v < 2 ^ 64"
    using unsigned_less [of v, where 'a = nat] by simp
  have "unat (v + 63) = (unat v + 63) mod 2 ^ 64"
    by (simp add: unat_word_ariths)
  also have "\<dots> = unat v + 63 - 2 ^ 64"
    using assms v by (subst mod_if) simp
  finally have small: "unat (v + 63) < 64"
    using v by simp
  have mask: "(63 :: u64) = mask 6"
    by (simp add: mask_eq_exp_minus_1)
  have "unat (take_bit 6 (v + 63)) = unat (v + 63)"
    using small by (simp add: unsigned_take_bit_eq take_bit_nat_eq_self)
  then have "(v + 63) AND 63 = v + 63"
    unfolding mask by (simp add: take_bit_eq_mask [symmetric] word_unat_eq_iff)
  moreover have "v + 64 - 1 = v + 63" "(64 :: u64) - 1 = 63"
    by (simp_all add: algebra_simps)
  ultimately show ?thesis
    by (simp only: align_up_def word_and_not_diff) simp
qed

text \<open>A request within 64 bytes of the top of the address space is not refused: rounding it up to
  the default alignment wraps to zero, the capacity check passes, and the manager hands out a block
  that is registered with the full size but backed by a zero-byte allocation.\<close>

theorem allocate_wraps:
  assumes "2 ^ 64 - 64 < unat v" and "ev_malloc ev hp 64 0 = Some (p, [])"
  shows "\<exists>a s'. allocate ev v Cool 0 (new_tmm ev default_config hp fs) = (Inr a, s') \<and>
    ta_size a = v \<and> ta_ptr a = Some p \<and> tm_heap s' p = Some [] \<and> ac_allocated (tm_acct s' Cool) = 0"
proof -
  have "v \<noteq> 0"
    using assms(1) by auto
  then show ?thesis
    using align_up_wraps [OF assms(1)] assms(2)
    by (simp add: allocate_def try_tier_def back_tier_def do_allocate_def Let_def new_tmm_def
        default_config_def fresh_accounting_def aligned_size_def default_align_def tier_alignment_def
        pmr_size_def commit_defs account_alloc_def)
qed

theorem allocate_wraps_witness:
  "\<exists>a s'. allocate demo_env (- 1) Cool 0 (new_tmm demo_env default_config Map.empty Map.empty) = (Inr a, s') \<and>
     ta_size a = - 1 \<and> tm_heap s' 0 = Some []"
proof -
  have "ev_malloc demo_env Map.empty 64 0 = Some (0, [])"
    by code_simp
  then show ?thesis
    using allocate_wraps [of "- 1" demo_env Map.empty 0 Map.empty] unat_minus_one_u64 by auto
qed

end
