(* ===== verification/User_Security.thy ===== *)
theory User_Security
  imports Maintenance_Records
begin

text \<open>
  PIN, memorable word and burn policy: \<^verbatim>\<open>code/src/cerberus_user_security.cpp\<close> and its header.

  The hash functions come from a library that is loaded at run time (\<^verbatim>\<open>CryptoBridge\<close>); they are the
  argument \<open>cr\<close>.  When the library is missing, \<^verbatim>\<open>CryptoBridge\<close> returns an empty digest.  A result
  string is a constructor of \<open>rbpc_result\<close>, with \<open>Accepted\<close> for the empty string that means success.
  The clock is the argument \<open>now\<close>.  Strings are bytes; \<^verbatim>\<open>char\<close> is signed, as on the build targets.
\<close>

record crypto =
  cr_sha256 :: "string \<Rightarrow> byte list"
  cr_hmac_sha256 :: "byte list \<Rightarrow> string \<Rightarrow> byte list"

subsection \<open>PIN derivation\<close>

definition blake3_like_fallback :: "crypto \<Rightarrow> byte list \<Rightarrow> byte list" where
  "blake3_like_fallback cr data =
     cr_sha256 cr (string_of_bytes (cr_sha256 cr (string_of_bytes data))
                   @ ''blake3_fallback_lamia_carbon_copy'')"

definition pin_generate :: "crypto \<Rightarrow> byte list \<Rightarrow> string" where
  "pin_generate cr master_hash =
     (if master_hash = [] then ''000000''
      else let h1 = blake3_like_fallback cr master_hash;
               hash = h1 @ blake3_like_fallback cr h1;
               pin = map (\<lambda>b. digit_char (unat b mod 10)) (take 6 hash)
           in pin @ map digit_char [length pin..<6])"

subsection \<open>Memorable word\<close>

datatype word_error = TooShort | TooLong | NoLetter | ControlCharacter

definition word_min_length :: nat where "word_min_length = 8"
definition word_max_length :: nat where "word_max_length = 40"

definition forbidden_char :: "char \<Rightarrow> bool" where
  "forbidden_char c \<longleftrightarrow> c = CHR ''='' \<or> code c < 32 \<or> 128 \<le> code c"

definition validate_word :: "string \<Rightarrow> word_error option" where
  "validate_word word =
     (if length word < word_min_length then Some TooShort
      else if word_max_length < length word then Some TooLong
      else if \<not> list_ex is_alpha word then Some NoLetter
      else if list_ex forbidden_char word then Some ControlCharacter
      else None)"

definition derive_commitment :: "crypto \<Rightarrow> string \<Rightarrow> byte list \<Rightarrow> byte list" where
  "derive_commitment cr word salt =
     cr_hmac_sha256 cr (cr_sha256 cr (word @ string_of_bytes salt))
       ''cerberus_rbpc_word_commitment_lamia_carbon''"

subsection \<open>State\<close>

record RBPCConfirmationSet =
  cs_node_id :: string
  cs_pin_commitment_hash :: string
  cs_word_commitment_hash :: string
  cs_word_salt :: string
  cs_hardware_anchor_hash :: string
  cs_vault_record_hash :: string
  cs_pqc_wrapping_key_id :: string
  cs_continuation_binding_hash :: string
  cs_created_at :: int

definition is_complete :: "RBPCConfirmationSet \<Rightarrow> bool" where
  "is_complete cs \<longleftrightarrow> cs_node_id cs \<noteq> [] \<and> cs_pin_commitment_hash cs \<noteq> [] \<and>
     cs_word_commitment_hash cs \<noteq> [] \<and> cs_word_salt cs \<noteq> [] \<and> cs_hardware_anchor_hash cs \<noteq> []"

record UserSecurity =
  us_states :: "(string, RBPCState) smap"
  us_confirmation_sets :: "(string, RBPCConfirmationSet) smap"

definition empty_security :: UserSecurity where
  "empty_security = \<lparr>us_states = [], us_confirmation_sets = []\<rparr>"

datatype rbpc_result =
    Accepted
  | NodeNotRegistered
  | NodeBurned
  | EmptyPinBurned
  | EmptyPin int
  | PinFailedBurned
  | PinFailed int
  | WordFailedBurned
  | WordFailed int
  | ConfirmationSetMissing
  | WordNotRegistered
  | InvalidWord word_error
  | StructuralCharacters
  | GeneratePinFirst
  | AlreadyRegisteredReauthOk
  | AlreadyRegistered

subsection \<open>Operations\<close>

definition put_state :: "string \<Rightarrow> RBPCState \<Rightarrow> UserSecurity \<Rightarrow> UserSecurity" where
  "put_state n st us = us\<lparr>us_states := smap_put n st (us_states us)\<rparr>"

definition generate_pin ::
  "crypto \<Rightarrow> int \<Rightarrow> string \<Rightarrow> byte list \<Rightarrow> UserSecurity \<Rightarrow> string option \<times> UserSecurity" where
  "generate_pin cr now node_id master_secret us =
     (if node_id = [] \<or> master_secret = [] then (None, us)
      else let pin = pin_generate cr (master_secret @ bytes_of_string node_id);
               salt = cr_sha256 cr (node_id @ string_of_bytes master_secret);
               commitment = string_of_bytes (cr_sha256 cr (pin @ string_of_bytes salt));
               cs = \<lparr>cs_node_id = node_id, cs_pin_commitment_hash = commitment,
                     cs_word_commitment_hash = [], cs_word_salt = [], cs_hardware_anchor_hash = [],
                     cs_vault_record_hash = [], cs_pqc_wrapping_key_id = [],
                     cs_continuation_binding_hash = [], cs_created_at = now\<rparr>;
               st = \<lparr>rs_node_id = node_id, rs_pin_hash = commitment, rs_salt = string_of_bytes salt,
                     rs_failed_attempts = 0, rs_burned = False, rs_last_auth_timestamp = 0,
                     rs_created_at = now\<rparr>
           in (Some pin, put_state node_id st
                 (us\<lparr>us_confirmation_sets := smap_put node_id cs (us_confirmation_sets us)\<rparr>)))"

text \<open>A failed attempt: count it, burn the node at the third, and report with one of two messages.\<close>

definition count_failure ::
  "string \<Rightarrow> RBPCState \<Rightarrow> rbpc_result \<Rightarrow> (int \<Rightarrow> rbpc_result) \<Rightarrow> UserSecurity \<Rightarrow> rbpc_result \<times> UserSecurity" where
  "count_failure n st burned_msg failed_msg us =
     (let k = rs_failed_attempts st + 1
      in if 3 \<le> k
         then (burned_msg, put_state n (st\<lparr>rs_failed_attempts := k, rs_burned := True\<rparr>) us)
         else (failed_msg k, put_state n (st\<lparr>rs_failed_attempts := k\<rparr>) us))"

definition accept :: "string \<Rightarrow> int \<Rightarrow> RBPCState \<Rightarrow> UserSecurity \<Rightarrow> rbpc_result \<times> UserSecurity" where
  "accept n now st us =
     (Accepted, put_state n (st\<lparr>rs_failed_attempts := 0, rs_last_auth_timestamp := now\<rparr>) us)"

definition pin_matches :: "crypto \<Rightarrow> RBPCState \<Rightarrow> string \<Rightarrow> bool" where
  "pin_matches cr st pin \<longleftrightarrow> string_of_bytes (cr_sha256 cr (pin @ rs_salt st)) = rs_pin_hash st"

definition verify_pin ::
  "crypto \<Rightarrow> int \<Rightarrow> string \<Rightarrow> string \<Rightarrow> UserSecurity \<Rightarrow> rbpc_result \<times> UserSecurity" where
  "verify_pin cr now node_id pin_attempt us =
     (case smap_find (us_states us) node_id of
        None \<Rightarrow> (NodeNotRegistered, us)
      | Some st \<Rightarrow>
          if rs_burned st \<or> \<not> is_active st then (NodeBurned, us)
          else if pin_attempt = [] then count_failure node_id st EmptyPinBurned EmptyPin us
          else if pin_matches cr st pin_attempt then accept node_id now st us
          else count_failure node_id st PinFailedBurned PinFailed us)"

definition structural_char :: "char \<Rightarrow> bool" where
  "structural_char c \<longleftrightarrow> c = dquote \<or> code c = 92 \<or> c = CHR ''{'' \<or> c = CHR ''}''"

definition register_memorable_word ::
  "crypto \<Rightarrow> string \<Rightarrow> string \<Rightarrow> byte list \<Rightarrow> UserSecurity \<Rightarrow> rbpc_result \<times> UserSecurity" where
  "register_memorable_word cr node_id word salt us =
     (case validate_word word of
        Some e \<Rightarrow> (InvalidWord e, us)
      | None \<Rightarrow>
          if list_ex structural_char word then (StructuralCharacters, us)
          else case smap_find (us_confirmation_sets us) node_id of
                 None \<Rightarrow> (GeneratePinFirst, us)
               | Some cs \<Rightarrow>
                   (let commitment = string_of_bytes (derive_commitment cr word salt)
                    in if cs_word_commitment_hash cs = []
                       then (Accepted, us\<lparr>us_confirmation_sets := smap_put node_id
                              (cs\<lparr>cs_word_commitment_hash := commitment,
                                  cs_hardware_anchor_hash := string_of_bytes salt,
                                  cs_word_salt := string_of_bytes salt\<rparr>) (us_confirmation_sets us)\<rparr>)
                       else if commitment = cs_word_commitment_hash cs
                            then (AlreadyRegisteredReauthOk, us)
                       else (AlreadyRegistered, us)))"

definition word_matches :: "crypto \<Rightarrow> RBPCState \<Rightarrow> RBPCConfirmationSet \<Rightarrow> string \<Rightarrow> bool" where
  "word_matches cr st cs word \<longleftrightarrow>
     (let salt = bytes_of_string (if cs_word_salt cs = [] then rs_salt st else cs_word_salt cs)
      in string_of_bytes (derive_commitment cr word salt) = cs_word_commitment_hash cs)"

definition verify_confirmation ::
  "crypto \<Rightarrow> int \<Rightarrow> string \<Rightarrow> string \<Rightarrow> string \<Rightarrow> UserSecurity \<Rightarrow> rbpc_result \<times> UserSecurity" where
  "verify_confirmation cr now node_id pin_attempt word_attempt us =
     (case smap_find (us_states us) node_id of
        None \<Rightarrow> (NodeNotRegistered, us)
      | Some st \<Rightarrow>
          if rs_burned st \<or> \<not> is_active st then (NodeBurned, us)
          else case smap_find (us_confirmation_sets us) node_id of
                 None \<Rightarrow> (ConfirmationSetMissing, us)
               | Some cs \<Rightarrow>
                   if cs_word_commitment_hash cs = [] then (WordNotRegistered, us)
                   else if \<not> pin_matches cr st pin_attempt
                     then count_failure node_id st PinFailedBurned PinFailed us
                   else if \<not> word_matches cr st cs word_attempt
                     then count_failure node_id st WordFailedBurned WordFailed us
                   else accept node_id now st us)"

definition node_is_burned :: "string \<Rightarrow> UserSecurity \<Rightarrow> bool" where
  "node_is_burned node_id us = (case smap_find (us_states us) node_id of
      None \<Rightarrow> False | Some st \<Rightarrow> rs_burned st \<or> \<not> is_active st)"

definition scrub_all :: "UserSecurity \<Rightarrow> UserSecurity" where
  "scrub_all us = empty_security"

end
