(* ===== verification/User_Security_Props.thy ===== *)
theory User_Security_Props
  imports User_Security
begin

text \<open>
  Properties of the PIN and memorable-word component: shape of a PIN, enrolment followed by
  confirmation, soundness of the two-factor check, the burn policy as a state machine, and two
  defects: a missing hash library makes every PIN acceptable, and issuing a PIN revives a burned node.
\<close>

subsection \<open>PINs\<close>

lemma digit_char_is_digit: "n < 10 \<Longrightarrow> is_digit (digit_char n)"
  by (simp add: is_digit_def digit_char_def)

text \<open>Whatever the digest function returns, a generated PIN has exactly six characters and all are
  decimal digits.\<close>

theorem pin_generate_six_digits:
  "length (pin_generate cr master) = 6 \<and> list_all is_digit (pin_generate cr master)"
proof -
  have "is_digit (digit_char (unat b mod 10))" for b :: byte
    by (rule digit_char_is_digit) simp
  moreover have "is_digit (digit_char i)" if "i < 6" for i
    using that by (intro digit_char_is_digit) simp
  moreover have "list_all is_digit ''000000''"
    by (simp add: is_digit_def)
  ultimately show ?thesis
    by (auto simp: pin_generate_def Let_def list_all_iff)
qed

lemma pin_generate_ne: "pin_generate cr master \<noteq> []"
  by (auto simp: pin_generate_def Let_def)

subsection \<open>Enrolment and confirmation\<close>

lemmas us_op_defs = generate_pin_def verify_pin_def verify_confirmation_def
  register_memorable_word_def count_failure_def accept_def put_state_def

text \<open>Enrolment works: after a PIN was issued and a word registered with a non-empty salt, the
  issued PIN is accepted, PIN and word together are accepted, and both leave the failure count at zero;
  the only thing needed of the hash library is that the commitment is not empty.\<close>

theorem enrol_then_confirm:
  assumes "generate_pin cr t0 n secret us0 = (Some pin, us1)"
    and "register_memorable_word cr n word salt us1 = (Accepted, us2)"
    and "salt \<noteq> []" and "derive_commitment cr word salt \<noteq> []"
  shows "fst (verify_pin cr t1 n pin us2) = Accepted \<and>
    fst (verify_confirmation cr t1 n pin word us2) = Accepted \<and>
    map_option rs_failed_attempts (smap_find (us_states (snd (verify_confirmation cr t1 n pin word us2))) n)
      = Some 0"
proof -
  let ?s = "string_of_bytes (cr_sha256 cr (n @ string_of_bytes secret))"
  have pin: "pin = pin_generate cr (secret @ bytes_of_string n)"
    using assms(1) by (auto simp: generate_pin_def Let_def split: if_splits)
  obtain st where st: "smap_find (us_states us1) n = Some st" "rs_salt st = ?s" "rs_failed_attempts st = 0"
    "\<not> rs_burned st" "rs_pin_hash st = string_of_bytes (cr_sha256 cr (pin @ ?s))"
    using assms(1) pin by (auto simp: generate_pin_def Let_def put_state_def split: if_splits)
  obtain cs0 where cs0: "smap_find (us_confirmation_sets us1) n = Some cs0" "cs_word_commitment_hash cs0 = []"
    using assms(1) by (auto simp: generate_pin_def Let_def put_state_def split: if_splits)
  have us2: "us_states us2 = us_states us1" "smap_find (us_confirmation_sets us2) n =
      Some (cs0\<lparr>cs_word_commitment_hash := string_of_bytes (derive_commitment cr word salt),
                cs_hardware_anchor_hash := string_of_bytes salt, cs_word_salt := string_of_bytes salt\<rparr>)"
    using assms(2) cs0 by (auto simp: register_memorable_word_def Let_def split: option.splits if_splits)
  have ne: "string_of_bytes salt \<noteq> []" "string_of_bytes (derive_commitment cr word salt) \<noteq> []"
    using assms(3,4) by (simp_all add: string_of_bytes_def)
  have "pin \<noteq> []" "is_active st" "pin_matches cr st pin"
    using st pin pin_generate_ne by (simp_all add: is_active_def pin_matches_def)
  then show ?thesis
    using st us2 ne
    by (simp add: verify_pin_def verify_confirmation_def accept_def put_state_def word_matches_def)
qed

text \<open>C27. The two-factor check is sound: a confirmation is accepted only for a registered node that is
  not burned and has a word, when the PIN hashes to the stored PIN commitment and the word derives the
  stored word commitment under its salt.\<close>

theorem confirmation_sound:
  assumes "verify_confirmation cr now n pin word us = (Accepted, us')"
  shows "\<exists>st cs. smap_find (us_states us) n = Some st \<and> \<not> rs_burned st \<and> rs_failed_attempts st < 3 \<and>
    smap_find (us_confirmation_sets us) n = Some cs \<and> cs_word_commitment_hash cs \<noteq> [] \<and>
    string_of_bytes (cr_sha256 cr (pin @ rs_salt st)) = rs_pin_hash st \<and>
    string_of_bytes (derive_commitment cr word (bytes_of_string
      (if cs_word_salt cs = [] then rs_salt st else cs_word_salt cs))) = cs_word_commitment_hash cs"
  using assms
  by (auto simp: verify_confirmation_def count_failure_def Let_def pin_matches_def word_matches_def
      is_active_def split: option.splits if_splits)

subsection \<open>The burn policy as a state machine\<close>

text \<open>The states reachable from an empty store by any calls, with any hash library at each of them.\<close>

inductive reachable :: "UserSecurity \<Rightarrow> bool" where
  start: "reachable empty_security"
| generate: "reachable us \<Longrightarrow> reachable (snd (generate_pin cr now n secret us))"
| pin: "reachable us \<Longrightarrow> reachable (snd (verify_pin cr now n p us))"
| word: "reachable us \<Longrightarrow> reachable (snd (register_memorable_word cr n w salt us))"
| confirm: "reachable us \<Longrightarrow> reachable (snd (verify_confirmation cr now n p w us))"
| scrub: "reachable us \<Longrightarrow> reachable (scrub_all us)"

definition state_ok :: "RBPCState \<Rightarrow> bool" where
  "state_ok st \<longleftrightarrow> 0 \<le> rs_failed_attempts st \<and> rs_failed_attempts st \<le> 3 \<and>
     (rs_burned st \<longleftrightarrow> rs_failed_attempts st = 3)"

definition states_ok :: "UserSecurity \<Rightarrow> bool" where
  "states_ok us \<longleftrightarrow> (\<forall>n st. smap_find (us_states us) n = Some st \<longrightarrow> state_ok st)"

lemma states_ok_put: "states_ok us \<Longrightarrow> state_ok st \<Longrightarrow> states_ok (put_state n st us)"
  by (simp add: states_ok_def put_state_def)

lemma states_ok_find: "states_ok us \<Longrightarrow> smap_find (us_states us) n = Some st \<Longrightarrow> state_ok st"
  by (simp add: states_ok_def)

lemma count_failure_ok:
  "states_ok us \<Longrightarrow> state_ok st \<Longrightarrow> is_active st \<Longrightarrow> states_ok (snd (count_failure n st b f us))"
  by (auto simp: count_failure_def Let_def state_ok_def is_active_def intro!: states_ok_put)

lemma accept_ok: "states_ok us \<Longrightarrow> state_ok st \<Longrightarrow> is_active st \<Longrightarrow> states_ok (snd (accept n now st us))"
  by (auto simp: accept_def state_ok_def is_active_def intro!: states_ok_put)

lemma reachable_states_ok: "reachable us \<Longrightarrow> states_ok us"
proof (induction rule: reachable.induct)
  case (generate us cr now n secret)
  have "states_ok (us\<lparr>us_confirmation_sets := c\<rparr>)" for c
    using generate.IH by (simp add: states_ok_def)
  then show ?case
    using generate.IH by (auto simp: generate_pin_def Let_def state_ok_def intro!: states_ok_put)
next
  case (pin us cr now n p)
  then show ?case
    by (auto simp: verify_pin_def dest: states_ok_find split: option.splits
        intro!: count_failure_ok accept_ok)
next
  case (word us cr n w salt)
  then show ?case
    by (auto simp: register_memorable_word_def Let_def states_ok_def split: option.splits)
next
  case (confirm us cr now n p w)
  then show ?case
    by (auto simp: verify_confirmation_def dest: states_ok_find split: option.splits
        intro!: count_failure_ok accept_ok)
qed (simp_all add: states_ok_def empty_security_def scrub_all_def smap_find_def)

datatype attempt = PinOnly string | PinAndWord string string

fun try_once :: "crypto \<Rightarrow> int \<Rightarrow> string \<Rightarrow> attempt \<Rightarrow> UserSecurity \<Rightarrow> rbpc_result \<times> UserSecurity" where
  "try_once cr now n (PinOnly p) us = verify_pin cr now n p us"
| "try_once cr now n (PinAndWord p w) us = verify_confirmation cr now n p w us"

fun try_all :: "crypto \<Rightarrow> int \<Rightarrow> string \<Rightarrow> attempt list \<Rightarrow> UserSecurity \<Rightarrow> rbpc_result list \<times> UserSecurity" where
  "try_all cr now n [] us = ([], us)"
| "try_all cr now n (a # as) us =
     (let (r, us1) = try_once cr now n a us; (rs, us2) = try_all cr now n as us1 in (r # rs, us2))"

text \<open>A wrong attempt: the PIN or the word does not match, and there is a word if one is given.\<close>

fun wrong :: "crypto \<Rightarrow> RBPCState \<Rightarrow> RBPCConfirmationSet option \<Rightarrow> attempt \<Rightarrow> bool" where
  "wrong cr st cs (PinOnly p) \<longleftrightarrow> p = [] \<or> \<not> pin_matches cr st p"
| "wrong cr st cs (PinAndWord p w) \<longleftrightarrow> (case cs of None \<Rightarrow> False
     | Some c \<Rightarrow> cs_word_commitment_hash c \<noteq> [] \<and> (\<not> pin_matches cr st p \<or> \<not> word_matches cr st c w))"

lemma burned_locked:
  "node_is_burned n us \<Longrightarrow> try_all cr now n as us = (replicate (length as) NodeBurned, us)"
proof (induction as)
  case (Cons a as)
  have "try_once cr now n a us = (NodeBurned, us)"
    using Cons.prems
    by (cases a) (auto simp: verify_pin_def verify_confirmation_def node_is_burned_def split: option.splits)
  with Cons show ?case by simp
qed simp

definition failed_state :: "RBPCState \<Rightarrow> RBPCState" where
  "failed_state st = st\<lparr>rs_failed_attempts := rs_failed_attempts st + 1,
     rs_burned := (rs_burned st \<or> 3 \<le> rs_failed_attempts st + 1)\<rparr>"

lemma wrong_failed_state [simp]: "wrong cr (failed_state st) cs a = wrong cr st cs a"
  by (cases a) (auto simp: failed_state_def pin_matches_def word_matches_def split: option.splits)

lemma wrong_once:
  assumes "smap_find (us_states us) n = Some st" and "is_active st"
    and "wrong cr st (smap_find (us_confirmation_sets us) n) a"
  shows "\<exists>r. try_once cr now n a us = (r, put_state n (failed_state st) us) \<and> r \<noteq> Accepted"
proof -
  have "put_state n (st\<lparr>rs_failed_attempts := k\<rparr>) us = put_state n (failed_state st) us"
    if "k = rs_failed_attempts st + 1" "\<not> 3 \<le> k" for k
    using that assms(2) by (cases st) (simp add: failed_state_def is_active_def)
  then have "\<exists>r. count_failure n st b f us = (r, put_state n (failed_state st) us) \<and> r \<noteq> Accepted"
    if "b \<noteq> Accepted" "\<And>k. f k \<noteq> Accepted" for b f
    using that by (auto simp: count_failure_def Let_def failed_state_def)
  note cf = this [of EmptyPinBurned EmptyPin] this [of PinFailedBurned PinFailed]
    this [of WordFailedBurned WordFailed]
  show ?thesis
    using assms cf
    by (cases a) (auto simp: verify_pin_def verify_confirmation_def is_active_def split: option.splits)
qed

lemma wrong_attempts:
  assumes "smap_find (us_states us) n = Some st" and "state_ok st"
    and "list_all (wrong cr st (smap_find (us_confirmation_sets us) n)) as"
  shows "\<exists>rs us' st'. try_all cr now n as us = (rs, us') \<and> Accepted \<notin> set rs \<and>
    smap_find (us_states us') n = Some st' \<and>
    rs_failed_attempts st' = min 3 (rs_failed_attempts st + int (length as)) \<and>
    (node_is_burned n us' \<longleftrightarrow> 3 \<le> rs_failed_attempts st + int (length as))"
  using assms
proof (induction as arbitrary: us st)
  case Nil
  then show ?case
    by (auto simp: node_is_burned_def state_ok_def is_active_def)
next
  case (Cons a as)
  show ?case
  proof (cases "is_active st")
    case False
    then have "node_is_burned n us" "rs_failed_attempts st = 3"
      using Cons.prems by (auto simp: node_is_burned_def state_ok_def is_active_def)
    then show ?thesis
      using Cons.prems(1) burned_locked [of n us cr now "a # as"]
      by (simp del: try_all.simps)
  next
    case True
    let ?us = "put_state n (failed_state st) us"
    obtain r where r: "try_once cr now n a us = (r, ?us)" "r \<noteq> Accepted"
      using wrong_once [OF Cons.prems(1) True, of cr a now] Cons.prems(3) by auto
    have ok: "state_ok (failed_state st)"
      using Cons.prems(2) True by (auto simp: failed_state_def state_ok_def is_active_def)
    have "smap_find (us_states ?us) n = Some (failed_state st)"
      "us_confirmation_sets ?us = us_confirmation_sets us"
      by (simp_all add: put_state_def)
    with Cons.IH [of ?us "failed_state st"] ok Cons.prems(3) obtain rs us' st' where
      "try_all cr now n as ?us = (rs, us')" "Accepted \<notin> set rs" "smap_find (us_states us') n = Some st'"
      "rs_failed_attempts st' = min 3 (rs_failed_attempts (failed_state st) + int (length as))"
      "node_is_burned n us' \<longleftrightarrow> 3 \<le> rs_failed_attempts (failed_state st) + int (length as)"
      by auto
    with r show ?thesis
      by (auto simp: failed_state_def add.commute add.left_commute)
  qed
qed

text \<open>C28. The burn policy: in every reachable state, a run of wrong attempts (PIN alone or PIN with word,
  in any mixture) on a node is never accepted, the failure count is the previous count plus the number of
  attempts, capped at three, and the node is burned exactly when that sum reaches three.\<close>

theorem burn_after_three_failures:
  assumes "reachable us" and "smap_find (us_states us) n = Some st"
    and "list_all (wrong cr st (smap_find (us_confirmation_sets us) n)) as"
  shows "\<exists>rs us' st'. try_all cr now n as us = (rs, us') \<and> Accepted \<notin> set rs \<and>
    smap_find (us_states us') n = Some st' \<and>
    rs_failed_attempts st' = min 3 (rs_failed_attempts st + int (length as)) \<and>
    (node_is_burned n us' \<longleftrightarrow> 3 \<le> rs_failed_attempts st + int (length as))"
  using wrong_attempts [OF assms(2) states_ok_find [OF reachable_states_ok [OF assms(1)] assms(2)] assms(3)] .

text \<open>A burned node stays locked: whatever is tried with whatever hash library, including the
  right PIN and word, every answer is the burned message and nothing changes.  Issuing a new PIN for
  the node, however, revives it: the next check of the new PIN is accepted.\<close>

theorem burned_node_locked_until_reissue:
  assumes "node_is_burned n us" and "n \<noteq> []" and "secret \<noteq> []"
  shows "try_all cr now n as us = (replicate (length as) NodeBurned, us) \<and>
    (\<exists>pin us'. generate_pin cr now n secret us = (Some pin, us') \<and> \<not> node_is_burned n us' \<and>
       fst (verify_pin cr now n pin us') = Accepted)"
proof -
  have "pin_generate cr (secret @ bytes_of_string n) \<noteq> []"
    by (rule pin_generate_ne)
  then show ?thesis
    using burned_locked [OF assms(1)] assms(2,3)
    by (simp add: generate_pin_def Let_def put_state_def node_is_burned_def is_active_def
        verify_pin_def pin_matches_def accept_def)
qed

text \<open>Without the hash library the PIN check fails open: when every digest is empty, a PIN issued
  earlier under the same conditions is stored as the empty commitment, and every non-empty attempt is
  accepted.\<close>

theorem pin_check_fails_open:
  assumes "\<And>m. cr_sha256 cr m = []" and "generate_pin cr t0 n secret us = (Some pin, us1)" and "p \<noteq> []"
  shows "fst (verify_pin cr t1 n p us1) = Accepted"
  using assms
  by (auto simp: generate_pin_def Let_def put_state_def verify_pin_def is_active_def pin_matches_def
      accept_def string_of_bytes_def split: if_splits)

subsection \<open>Witnesses\<close>

definition toy_crypto :: crypto where
  "toy_crypto = \<lparr>cr_sha256 = (\<lambda>m. [of_nat (length m)]), cr_hmac_sha256 = (\<lambda>k m. k)\<rparr>"

definition no_crypto :: crypto where
  "no_crypto = \<lparr>cr_sha256 = (\<lambda>m. []), cr_hmac_sha256 = (\<lambda>k m. [])\<rparr>"

definition demo_issued :: UserSecurity where
  "demo_issued = snd (generate_pin toy_crypto 0 ''node'' [1, 2] empty_security)"

definition demo_pin :: string where
  "demo_pin = pin_generate toy_crypto ([1, 2] @ bytes_of_string ''node'')"

lemma demo_generate: "generate_pin toy_crypto 0 ''node'' [1, 2] empty_security = (Some demo_pin, demo_issued)"
  by (simp add: demo_issued_def demo_pin_def generate_pin_def Let_def)

theorem enrol_then_confirm_witness:
  "fst (verify_confirmation toy_crypto 9 ''node'' demo_pin ''lamplight''
     (snd (register_memorable_word toy_crypto ''node'' ''lamplight'' [5] demo_issued))) = Accepted"
proof -
  have "fst (register_memorable_word toy_crypto ''node'' ''lamplight'' [5] demo_issued) = Accepted"
    by code_simp
  then show ?thesis
    using enrol_then_confirm [OF demo_generate, of "''lamplight''" "[5]"
        "snd (register_memorable_word toy_crypto ''node'' ''lamplight'' [5] demo_issued)" 9]
    by (simp add: prod_eq_iff derive_commitment_def toy_crypto_def string_of_bytes_def bytes_of_string_def)
qed

theorem confirmation_sound_witness:
  "\<exists>st. smap_find (us_states (snd (register_memorable_word toy_crypto ''node'' ''lamplight'' [5] demo_issued)))
     ''node'' = Some st \<and> string_of_bytes (cr_sha256 toy_crypto (demo_pin @ rs_salt st)) = rs_pin_hash st"
proof -
  have "fst (verify_confirmation toy_crypto 9 ''node'' demo_pin ''lamplight''
     (snd (register_memorable_word toy_crypto ''node'' ''lamplight'' [5] demo_issued))) = Accepted"
    by code_simp
  then show ?thesis
    using confirmation_sound [of toy_crypto 9 "''node''" demo_pin "''lamplight''"] by (metis prod.collapse)
qed

theorem burn_after_three_failures_witness:
  "node_is_burned ''node'' (snd (try_all toy_crypto 9 ''node'' [PinOnly [], PinOnly [], PinOnly []] demo_issued))"
proof -
  have "reachable demo_issued"
    unfolding demo_issued_def by (intro reachable.intros)
  moreover obtain st where "smap_find (us_states demo_issued) ''node'' = Some st" "rs_failed_attempts st = 0"
    by (auto simp: demo_issued_def generate_pin_def Let_def put_state_def)
  ultimately show ?thesis
    using burn_after_three_failures [of demo_issued "''node''" st toy_crypto "[PinOnly [], PinOnly [], PinOnly []]" 9]
    by auto
qed

definition demo_burned :: UserSecurity where
  "demo_burned = put_state ''node'' \<lparr>rs_node_id = ''node'', rs_pin_hash = ''h'', rs_salt = ''s'',
     rs_failed_attempts = 3, rs_burned = True, rs_last_auth_timestamp = 0, rs_created_at = 0\<rparr> empty_security"

theorem burned_node_locked_until_reissue_witness:
  "try_all toy_crypto 9 ''node'' [PinOnly ''123456''] demo_burned = ([NodeBurned], demo_burned)"
proof -
  have "node_is_burned ''node'' demo_burned"
    by (simp add: demo_burned_def node_is_burned_def put_state_def)
  then show ?thesis
    using burned_node_locked_until_reissue [of "''node''" demo_burned "[1]" toy_crypto 9 "[PinOnly ''123456'']"]
    by simp
qed

theorem pin_check_fails_open_witness:
  "fst (verify_pin no_crypto 9 ''node'' ''not the pin'' (snd (generate_pin no_crypto 0 ''node'' [1] empty_security)))
     = Accepted"
  using pin_check_fails_open [of no_crypto 0 "''node''" "[1]" empty_security
      "pin_generate no_crypto ([1] @ bytes_of_string ''node'')"
      "snd (generate_pin no_crypto 0 ''node'' [1] empty_security)" "''not the pin''" 9]
  by (simp add: no_crypto_def generate_pin_def Let_def)

end
