(* ===== verification/User_Lockout.thy ===== *)
theory User_Lockout
  imports User_Security_Props
begin

text \<open>
  The burn policy of the user security component as a small automaton per node, without a way out of
  the locked state, and the proof that the operations on the state tables implement it as long as the
  node is not enrolled anew: \<open>lock_of\<close> abstracts the tables to the lock of one node, \<open>us_event\<close> says what a
  call means for that node, and running any calls on the tables leaves the lock that running their events
  on the automaton leaves.
\<close>

subsection \<open>Refinement of step functions\<close>

fun trace :: "('o \<Rightarrow> 'c \<Rightarrow> 'e) \<Rightarrow> ('o \<Rightarrow> 'c \<Rightarrow> 'c) \<Rightarrow> 'o list \<Rightarrow> 'c \<Rightarrow> 'e list" where
  "trace ev step [] c = []"
| "trace ev step (op # ops) c = ev op c # trace ev step ops (step op c)"

locale step_refinement =
  fixes astep :: "'e \<Rightarrow> 'a \<Rightarrow> 'a"
    and cstep :: "'o \<Rightarrow> 'c \<Rightarrow> 'c"
    and event :: "'o \<Rightarrow> 'c \<Rightarrow> 'e"
    and abst :: "'c \<Rightarrow> 'a"
    and invar :: "'c \<Rightarrow> bool"
    and allowed :: "'o \<Rightarrow> bool"
  assumes invar_step: "invar c \<Longrightarrow> invar (cstep op c)"
    and abst_step: "invar c \<Longrightarrow> allowed op \<Longrightarrow> abst (cstep op c) = astep (event op c) (abst c)"
begin

lemma invar_run: "invar c \<Longrightarrow> invar (fold cstep ops c)"
  by (induction ops arbitrary: c) (simp_all add: invar_step)

lemma abst_run: "invar c \<Longrightarrow> list_all allowed ops \<Longrightarrow> abst (fold cstep ops c) = fold astep (trace event cstep ops c) (abst c)"
  by (induction ops arbitrary: c) (simp_all add: invar_step abst_step)

lemma run_append:
  "invar c \<Longrightarrow> list_all allowed ops' \<Longrightarrow> abst (fold cstep (ops @ ops') c)
     = fold astep (trace event cstep ops' (fold cstep ops c)) (abst (fold cstep ops c))"
  by (simp add: abst_run invar_run)

end

subsection \<open>The automaton\<close>

datatype lock = Unenrolled | Tries nat | Locked

datatype lock_event = Matched | Mismatched | Unrelated

fun lock_step :: "lock_event \<Rightarrow> lock \<Rightarrow> lock" where
  "lock_step Matched (Tries k) = Tries 0"
| "lock_step Mismatched (Tries k) = (if k < 2 then Tries (Suc k) else Locked)"
| "lock_step e l = l"

definition lock_of :: "string \<Rightarrow> UserSecurity \<Rightarrow> lock" where
  "lock_of m us =
     (case smap_find (us_states us) m of
        None \<Rightarrow> Unenrolled
      | Some st \<Rightarrow> if rs_burned st \<or> \<not> is_active st then Locked else Tries (nat (rs_failed_attempts st)))"

subsection \<open>Calls and what they mean for a node\<close>

datatype us_call =
    Generate int string "byte list"
  | Pin int string string
  | Word string string "byte list"
  | Confirm int string string string
  | Scrub

primrec us_exec :: "crypto \<Rightarrow> us_call \<Rightarrow> UserSecurity \<Rightarrow> UserSecurity" where
  "us_exec cr (Generate now n secret) us = snd (generate_pin cr now n secret us)"
| "us_exec cr (Pin now n p) us = snd (verify_pin cr now n p us)"
| "us_exec cr (Word n w salt) us = snd (register_memorable_word cr n w salt us)"
| "us_exec cr (Confirm now n p w) us = snd (verify_confirmation cr now n p w us)"
| "us_exec cr Scrub us = scrub_all us"

definition right_pin :: "crypto \<Rightarrow> string \<Rightarrow> string \<Rightarrow> UserSecurity \<Rightarrow> bool" where
  "right_pin cr n p us \<longleftrightarrow> (case smap_find (us_states us) n of None \<Rightarrow> False | Some st \<Rightarrow> pin_matches cr st p)"

definition has_word :: "string \<Rightarrow> UserSecurity \<Rightarrow> bool" where
  "has_word n us \<longleftrightarrow> (case smap_find (us_confirmation_sets us) n of None \<Rightarrow> False
     | Some cs \<Rightarrow> cs_word_commitment_hash cs \<noteq> [])"

definition right_word :: "crypto \<Rightarrow> string \<Rightarrow> string \<Rightarrow> UserSecurity \<Rightarrow> bool" where
  "right_word cr n w us \<longleftrightarrow>
     (case (smap_find (us_states us) n, smap_find (us_confirmation_sets us) n) of
        (Some st, Some cs) \<Rightarrow> word_matches cr st cs w
      | _ \<Rightarrow> False)"

fun us_event :: "crypto \<Rightarrow> string \<Rightarrow> us_call \<Rightarrow> UserSecurity \<Rightarrow> lock_event" where
  "us_event cr m (Generate now n secret) us = Unrelated"
| "us_event cr m (Pin now n p) us =
     (if n \<noteq> m then Unrelated else if p \<noteq> [] \<and> right_pin cr n p us then Matched else Mismatched)"
| "us_event cr m (Word n w salt) us = Unrelated"
| "us_event cr m (Confirm now n p w) us =
     (if n \<noteq> m \<or> \<not> has_word n us then Unrelated
      else if right_pin cr n p us \<and> right_word cr n w us then Matched else Mismatched)"
| "us_event cr m Scrub us = Unrelated"

text \<open>Calls that neither issue a new PIN for the node nor erase the tables.\<close>

fun keeps_enrolment :: "string \<Rightarrow> us_call \<Rightarrow> bool" where
  "keeps_enrolment m (Generate now n secret) = (n \<noteq> m)"
| "keeps_enrolment m Scrub = False"
| "keeps_enrolment m c = True"

subsection \<open>The refinement\<close>

lemma lock_of_put:
  "lock_of m (put_state n st us) =
     (if m = n then (if rs_burned st \<or> \<not> is_active st then Locked else Tries (nat (rs_failed_attempts st)))
      else lock_of m us)"
  by (simp add: lock_of_def put_state_def)

lemma lock_of_confirmation [simp]: "lock_of m (us\<lparr>us_confirmation_sets := c\<rparr>) = lock_of m us"
  by (simp add: lock_of_def)

lemma lock_of_open:
  "smap_find (us_states us) n = Some st \<Longrightarrow> \<not> rs_burned st \<Longrightarrow> is_active st \<Longrightarrow>
     lock_of n us = Tries (nat (rs_failed_attempts st))"
  by (simp add: lock_of_def)

lemma lock_of_failure:
  assumes "smap_find (us_states us) n = Some st" "\<not> rs_burned st" "is_active st" "state_ok st"
  shows "lock_of m (snd (count_failure n st b f us)) = (if m = n then lock_step Mismatched (lock_of m us) else lock_of m us)"
proof -
  have "0 \<le> rs_failed_attempts st" "rs_failed_attempts st < 3"
    using assms(2-4) by (auto simp: state_ok_def is_active_def)
  then show ?thesis
    using lock_of_open [OF assms(1-3)] assms(2)
    by (auto simp: count_failure_def Let_def lock_of_put is_active_def nat_add_distrib)
qed

lemma lock_of_accept:
  assumes "smap_find (us_states us) n = Some st" "\<not> rs_burned st" "is_active st"
  shows "lock_of m (snd (accept n now st us)) = (if m = n then lock_step Matched (lock_of m us) else lock_of m us)"
  using lock_of_open [OF assms] assms(2) by (simp add: accept_def lock_of_put is_active_def)

lemma lock_of_closed:
  assumes "smap_find (us_states us) n = None \<or> (\<exists>st. smap_find (us_states us) n = Some st \<and> (rs_burned st \<or> \<not> is_active st))"
  shows "lock_step e (lock_of n us) = lock_of n us"
  using assms by (cases e) (auto simp: lock_of_def)

lemma lock_of_generate:
  "n \<noteq> m \<Longrightarrow> lock_of m (snd (generate_pin cr now n secret us)) = lock_of m us"
  by (auto simp: generate_pin_def Let_def lock_of_put is_active_def)

lemma lock_of_pin:
  assumes "states_ok us"
  shows "lock_of m (snd (verify_pin cr now n p us)) = lock_step (us_event cr m (Pin now n p) us) (lock_of m us)"
proof (cases "\<exists>st. smap_find (us_states us) n = Some st \<and> \<not> rs_burned st \<and> is_active st")
  case True
  then obtain st where st: "smap_find (us_states us) n = Some st" "\<not> rs_burned st" "is_active st" by blast
  note ok = states_ok_find [OF assms st(1)]
  show ?thesis
    using st lock_of_failure [OF st ok] lock_of_accept [OF st]
    by (auto simp: verify_pin_def right_pin_def)
next
  case False
  then have "snd (verify_pin cr now n p us) = us"
    by (auto simp: verify_pin_def split: option.splits)
  moreover have "smap_find (us_states us) n = None
      \<or> (\<exists>st. smap_find (us_states us) n = Some st \<and> (rs_burned st \<or> \<not> is_active st))"
    using False by (cases "smap_find (us_states us) n") auto
  ultimately show ?thesis
    using lock_of_closed [of us n] by (cases "n = m") auto
qed

lemma lock_of_confirm:
  assumes "states_ok us"
  shows "lock_of m (snd (verify_confirmation cr now n p w us))
           = lock_step (us_event cr m (Confirm now n p w) us) (lock_of m us)"
proof (cases "\<exists>st. smap_find (us_states us) n = Some st \<and> \<not> rs_burned st \<and> is_active st")
  case True
  then obtain st where st: "smap_find (us_states us) n = Some st" "\<not> rs_burned st" "is_active st" by blast
  note ok = states_ok_find [OF assms st(1)]
  show ?thesis
    using st lock_of_failure [OF st ok] lock_of_accept [OF st]
    by (auto simp: verify_confirmation_def right_pin_def right_word_def has_word_def split: option.splits)
next
  case False
  then have "snd (verify_confirmation cr now n p w us) = us"
    by (auto simp: verify_confirmation_def split: option.splits)
  moreover have "smap_find (us_states us) n = None
      \<or> (\<exists>st. smap_find (us_states us) n = Some st \<and> (rs_burned st \<or> \<not> is_active st))"
    using False by (cases "smap_find (us_states us) n") auto
  ultimately show ?thesis
    using lock_of_closed [of us n] by (cases "n = m") auto
qed

lemma lock_of_word: "lock_of m (snd (register_memorable_word cr n w salt us)) = lock_of m us"
  by (simp add: register_memorable_word_def Let_def split: option.splits)

lemma us_exec_lock:
  "states_ok us \<Longrightarrow> keeps_enrolment m c \<Longrightarrow> lock_of m (us_exec cr c us) = lock_step (us_event cr m c us) (lock_of m us)"
  by (cases c) (simp_all add: lock_of_generate lock_of_pin lock_of_confirm lock_of_word del: us_event.simps(2,4))

lemma us_exec_ok: "states_ok us \<Longrightarrow> states_ok (us_exec cr c us)"
proof (cases c)
  case (Generate now n secret)
  assume "states_ok us"
  then have "states_ok (us\<lparr>us_confirmation_sets := x\<rparr>)" for x
    by (simp add: states_ok_def)
  with \<open>states_ok us\<close> show ?thesis
    by (auto simp: Generate generate_pin_def Let_def state_ok_def intro!: states_ok_put)
next
  case (Word n w salt)
  assume "states_ok us"
  then show ?thesis
    by (auto simp: Word register_memorable_word_def Let_def states_ok_def split: option.splits)
next
  case Scrub
  then show ?thesis
    by (simp add: scrub_all_def empty_security_def states_ok_def)
qed (auto simp: verify_pin_def verify_confirmation_def dest: states_ok_find split: option.splits intro!: count_failure_ok accept_ok)

interpretation lockout: step_refinement lock_step "us_exec cr" "us_event cr m" "lock_of m" states_ok "keeps_enrolment m"
  for cr m
  by unfold_locales (simp_all add: us_exec_ok us_exec_lock)

lemma reachable_lock_ok: "states_ok (fold (us_exec cr) history empty_security)"
  using lockout.invar_run [of empty_security cr history] by (simp add: states_ok_def empty_security_def)

lemma fold_locked: "fold lock_step es Locked = Locked"
proof (induction es)
  case (Cons e es)
  then show ?case by (cases e) simp_all
qed simp

lemma burned_iff_locked: "node_is_burned m us \<longleftrightarrow> lock_of m us = Locked"
  by (simp add: node_is_burned_def lock_of_def split: option.splits)

lemma locked_refuses:
  "lock_of m us = Locked \<Longrightarrow> verify_pin cr now m p us = (NodeBurned, us)"
  "lock_of m us = Locked \<Longrightarrow> verify_confirmation cr now m p w us = (NodeBurned, us)"
  by (auto simp: lock_of_def verify_pin_def verify_confirmation_def split: option.splits if_splits)

text \<open>C39. The tables implement the lock automaton, in which a match puts the counter back, the third
  mismatch in a row locks, and nothing leaves the locked state.  From every state that calls on an empty
  store reach, over any further calls that neither issue a new PIN for the node nor erase all tables, the
  lock of a node is what the automaton reaches on the events these calls mean for it, for every hash
  library.  The node counts as burned exactly when the automaton is locked; once burned it stays burned,
  and every PIN and every confirmation for it, also the right ones, is answered with the burned message
  and changes nothing.\<close>

theorem lockout_refinement:
  fixes m :: string and calls :: "us_call list" and cr :: crypto and history :: "us_call list"
  assumes "list_all (keeps_enrolment m) calls"
  defines "us \<equiv> fold (us_exec cr) history empty_security"
  defines "us' \<equiv> fold (us_exec cr) calls us"
  shows "lock_of m us' = fold lock_step (trace (us_event cr m) (us_exec cr) calls us) (lock_of m us)
    \<and> (node_is_burned m us' \<longleftrightarrow> lock_of m us' = Locked)
    \<and> (node_is_burned m us \<longrightarrow> node_is_burned m us' \<and>
         verify_pin cr now m p us' = (NodeBurned, us') \<and>
         verify_confirmation cr now m p w us' = (NodeBurned, us'))"
proof -
  have run: "lock_of m us' = fold lock_step (trace (us_event cr m) (us_exec cr) calls us) (lock_of m us)"
    unfolding us'_def us_def using reachable_lock_ok assms(1) by (rule lockout.abst_run)
  then have "lock_of m us' = Locked" if "lock_of m us = Locked"
    using that fold_locked by simp
  with run show ?thesis
    using locked_refuses [of m us'] by (simp add: burned_iff_locked)
qed

definition demo_history :: "us_call list" where
  "demo_history = [Generate 0 ''node'' [1], Pin 1 ''node'' [], Pin 2 ''node'' [], Pin 3 ''node'' []]"

theorem lockout_refinement_witness:
  "fst (verify_pin toy_crypto 6 ''node'' (pin_generate toy_crypto ([1] @ bytes_of_string ''node''))
     (fold (us_exec toy_crypto) [Generate 4 ''other'' [2], Pin 5 ''node'' []]
       (fold (us_exec toy_crypto) demo_history empty_security))) = NodeBurned"
proof -
  have "node_is_burned ''node'' (fold (us_exec toy_crypto) demo_history empty_security)"
    by (simp add: demo_history_def generate_pin_def verify_pin_def count_failure_def put_state_def is_active_def
        node_is_burned_def Let_def)
  moreover have "list_all (keeps_enrolment ''node'') [Generate 4 ''other'' [2], Pin 5 ''node'' []]"
    by simp
  note lockout_refinement [OF this, where cr = toy_crypto and history = demo_history and now = 6
      and p = "pin_generate toy_crypto ([1] @ bytes_of_string ''node'')"]
  ultimately show ?thesis
    by (metis fst_conv)
qed

text \<open>The calls that are left out: issuing a PIN opens the node again, whatever its state was.\<close>

lemma reissue_unlocks: "m \<noteq> [] \<Longrightarrow> secret \<noteq> [] \<Longrightarrow> lock_of m (us_exec cr (Generate now m secret) us) = Tries 0"
  by (auto simp: generate_pin_def Let_def lock_of_put is_active_def)

end
