(* ===== verification/Base64url.thy ===== *)
theory Base64url
  imports Std_String
begin

text \<open>
  The Base64-url codec of \<^verbatim>\<open>code/src/cerberus_jwt_session.cpp\<close>: \<^verbatim>\<open>base64url_encode\<close> and
  \<^verbatim>\<open>base64url_decode\<close>, with the shifts and masks of the source on bytes and on the 32-bit
  accumulator.  Decoding inverts encoding.
\<close>

unbundle bit_operations_syntax

subsection \<open>Encoder\<close>

definition b64_table :: string where
  "b64_table = ''ABCDEFGHIJKLMNOPQRSTUVWXYZabcdefghijklmnopqrstuvwxyz0123456789-_''"

definition b64_char :: "byte \<Rightarrow> char" where
  "b64_char w = b64_table ! unat w"

definition e0 :: "byte \<Rightarrow> byte" where
  "e0 a = drop_bit 2 (a AND 0xFC)"

definition e1 :: "byte \<Rightarrow> byte \<Rightarrow> byte" where
  "e1 a b = push_bit 4 (a AND 0x03) OR drop_bit 4 (b AND 0xF0)"

definition e2 :: "byte \<Rightarrow> byte \<Rightarrow> byte" where
  "e2 b c = push_bit 2 (b AND 0x0F) OR drop_bit 6 (c AND 0xC0)"

definition e3 :: "byte \<Rightarrow> byte" where
  "e3 c = c AND 0x3F"

fun base64url_encode :: "byte list \<Rightarrow> string" where
  "base64url_encode [] = []"
| "base64url_encode [a] = [b64_char (e0 a), b64_char (e1 a 0)]"
| "base64url_encode [a, b] = [b64_char (e0 a), b64_char (e1 a b), b64_char (e2 b 0)]"
| "base64url_encode (a # b # c # bs) =
     b64_char (e0 a) # b64_char (e1 a b) # b64_char (e2 b c) # b64_char (e3 c) # base64url_encode bs"

subsection \<open>Decoder\<close>

text \<open>The 256-entry table: letters, digits, \<^verbatim>\<open>+\<close> and \<^verbatim>\<open>-\<close> for 62, \<^verbatim>\<open>_\<close> for 63; all else is skipped.\<close>

definition b64_value :: "char \<Rightarrow> u32 option" where
  "b64_value ch =
     (if is_upper ch then Some (of_nat (code ch - 65))
      else if is_lower ch then Some (of_nat (code ch - 71))
      else if is_digit ch then Some (of_nat (code ch + 4))
      else if ch = CHR ''+'' \<or> ch = CHR ''-'' then Some 62
      else if ch = CHR ''_'' then Some 63
      else None)"

fun b64_loop :: "u32 \<Rightarrow> int \<Rightarrow> string \<Rightarrow> byte list" where
  "b64_loop val valb [] = []"
| "b64_loop val valb (ch # cs) =
     (case b64_value ch of
        None \<Rightarrow> b64_loop val valb cs
      | Some v \<Rightarrow>
          (let val' = push_bit 6 val + v; valb' = valb + 6
           in if 0 \<le> valb'
              then ucast (drop_bit (nat valb') val' AND 0xFF) # b64_loop val' (valb' - 8) cs
              else b64_loop val' valb' cs))"

definition base64url_decode :: "string \<Rightarrow> byte list" where
  "base64url_decode inp = b64_loop 0 (- 8) inp"

subsection \<open>Round trip\<close>

lemma b64_value_table: "i < 64 \<Longrightarrow> b64_value (b64_table ! i) = Some (of_nat i)"
proof -
  have "\<forall>i \<in> set [0..<64]. b64_value (b64_table ! i) = Some (of_nat i)"
    by code_simp
  then show "i < 64 \<Longrightarrow> b64_value (b64_table ! i) = Some (of_nat i)" by simp
qed

lemma b64_value_char: "w < 64 \<Longrightarrow> b64_value (b64_char w) = Some (ucast w)"
  by (simp add: b64_char_def b64_value_table word_less_nat_alt)

lemma byte_bits: "n < 8 \<Longrightarrow> n \<in> {0, 1, 2, 3, 4, 5, 6, 7 :: nat}"
  by auto

lemma byte_eqI:
  fixes v w :: byte
  assumes "bit v 0 = bit w 0" "bit v 1 = bit w 1" "bit v 2 = bit w 2" "bit v 3 = bit w 3"
    "bit v 4 = bit w 4" "bit v 5 = bit w 5" "bit v 6 = bit w 6" "bit v 7 = bit w 7"
  shows "v = w"
proof (rule bit_word_eqI)
  fix n assume "n < LENGTH(8)"
  then have "n \<in> {0, 1, 2, 3, 4, 5, 6, 7}"
    by (intro byte_bits) simp
  then show "bit v n = bit w n"
    using assms by auto
qed

lemma sextets_small: "e0 a < 64" "e1 a b < 64" "e2 b c < 64" "e3 c < 64"
proof -
  have small: "w < 64" if "\<not> bit w 6" "\<not> bit w 7" for w :: byte
  proof -
    have "w = w AND 0x3F"
      by (rule byte_eqI) (use that in \<open>simp_all add: bit_simps\<close>)
    also have "\<dots> \<le> 0x3F"
      by (rule word_and_le1)
    finally show ?thesis
      by (simp add: word_less_nat_alt word_le_nat_alt)
  qed
  show "e0 a < 64" "e1 a b < 64" "e2 b c < 64" "e3 c < 64"
    by (rule small; simp add: e0_def e1_def e2_def e3_def bit_simps)+
qed

lemma shift_add:
  fixes val :: u32
  assumes "w < (64 :: byte)"
  shows "push_bit 6 val + ucast w = push_bit 6 val OR ucast w"
proof (rule disjunctive_add_eq_or)
  have "unat w < 64"
    using assms by (simp add: word_less_nat_alt)
  then have "w = take_bit 6 w"
    by (simp add: word_unat_eq_iff unsigned_take_bit_eq take_bit_nat_eq_self)
  then have "\<not> bit w n" if "6 \<le> n" for n
    using that by (metis bit_take_bit_iff linorder_not_le)
  then show "push_bit 6 val AND (ucast w :: u32) = 0"
    by (intro bit_word_eqI) (auto simp: bit_simps)
qed

lemmas sextet_defs = e0_def e1_def e2_def e3_def

lemma decode_first:
  "ucast (drop_bit 4 (push_bit 6 (push_bit 6 val + ucast (e0 a)) + ucast (e1 a b)) AND 0xFF :: u32) = a"
  unfolding shift_add [OF sextets_small(1)] shift_add [OF sextets_small(2)]
  by (rule byte_eqI) (simp_all add: sextet_defs bit_simps)

lemma decode_second:
  "ucast (drop_bit 2 (push_bit 6 (push_bit 6 val + ucast (e1 a b)) + ucast (e2 b c)) AND 0xFF :: u32) = b"
  unfolding shift_add [OF sextets_small(2)] shift_add [OF sextets_small(3)]
  by (rule byte_eqI) (simp_all add: sextet_defs bit_simps)

lemma decode_third:
  "ucast (push_bit 6 (push_bit 6 val + ucast (e2 b c)) + ucast (e3 c) AND 0xFF :: u32) = c"
  unfolding shift_add [OF sextets_small(3)] shift_add [OF sextets_small(4)]
  by (rule byte_eqI) (simp_all add: sextet_defs bit_simps)

lemma b64_loop_encode: "b64_loop val (- 8) (base64url_encode bs) = bs"
  by (induction bs arbitrary: val rule: base64url_encode.induct)
     (simp_all add: b64_value_char sextets_small decode_first decode_second decode_third)

lemma decode_encode [simp]: "base64url_decode (base64url_encode bs) = bs"
  by (simp add: base64url_decode_def b64_loop_encode)

lemma encode_inject [simp]: "base64url_encode xs = base64url_encode ys \<longleftrightarrow> xs = ys"
  by (metis decode_encode)

lemma encode_Nil [simp]: "base64url_encode bs = [] \<longleftrightarrow> bs = []"
  by (cases bs rule: base64url_encode.cases) simp_all

definition is_base64url_char :: "char \<Rightarrow> bool" where
  "is_base64url_char c \<longleftrightarrow> is_alnum c \<or> c = CHR ''-'' \<or> c = CHR ''_''"

lemma b64_char_ok: "w < 64 \<Longrightarrow> is_base64url_char (b64_char w)"
proof -
  have "\<forall>i \<in> set [0..<64]. is_base64url_char (b64_table ! i)"
    by code_simp
  then show "w < 64 \<Longrightarrow> is_base64url_char (b64_char w)"
    by (simp add: b64_char_def word_less_nat_alt)
qed

lemma encode_alphabet: "list_all is_base64url_char (base64url_encode bs)"
  by (induction bs rule: base64url_encode.induct) (simp_all add: b64_char_ok sextets_small)

lemma encode_length: "length (base64url_encode bs) = (4 * length bs + 2) div 3"
  by (induction bs rule: base64url_encode.induct) simp_all

end
