(* ===== verification/Jwt_Session.thy ===== *)
theory Jwt_Session
  imports User_Security Base64url Std_Map
begin

text \<open>
  The session tokens of \<^verbatim>\<open>code/src/cerberus_jwt_session.cpp\<close>: the claim extractor, the
  structural check, and the operations of \<^verbatim>\<open>JWTSession\<close>.

  \<^verbatim>\<open>CryptoBridge::hmac_sha256\<close> lives in the external LFSSL library and is the field
  \<open>cr_hmac_sha256\<close> of the parameter \<open>crypto\<close>.  The clock readings and the random draws of
  \<^verbatim>\<open>generate_jti_\<close> are arguments of the operations that take them: where the source reads the
  clock twice, the operation has two arguments.  The error strings of \<^verbatim>\<open>validate_token\<close> and
  \<^verbatim>\<open>refresh_token\<close> are the constructors of \<open>jwt_error\<close>.
\<close>

abbreviation dot :: char where
  "dot \<equiv> CHR ''.''"

subsection \<open>Data\<close>

record SessionConfig =
  jwt_secret :: string
  token_lifetime :: u64
  require_pqc :: bool
  allowed_audiences :: "string list"

record JWTPayload =
  pl_sub :: string
  pl_iss :: string
  pl_aud :: "string list"
  pl_iat :: u64
  pl_exp :: u64
  pl_jti :: string
  pl_claims :: "(string, string) smap"

record JWTParts =
  encoded_header :: string
  encoded_payload :: string
  encoded_signature :: string
  signing_input :: string
  parts_complete :: bool

record JWTSession =
  js_config :: SessionConfig
  revoked_jtis :: "(string, u64) smap"

datatype jwt_error =
    Bad_structure | Bad_segments | Bad_signature | Bad_payload | Bad_audience | Token_expired
  | Token_revoked | Missing_jti

subsection \<open>Claims\<close>

definition is_expired :: "u64 \<Rightarrow> JWTPayload \<Rightarrow> bool" where
  "is_expired now p \<longleftrightarrow> pl_exp p \<le> now"

definition is_audience_allowed :: "JWTPayload \<Rightarrow> string list \<Rightarrow> bool" where
  "is_audience_allowed p allowed \<longleftrightarrow>
     allowed = [] \<or> list_ex (\<lambda>a. list_ex (\<lambda>allowed_a. a = allowed_a) allowed) (pl_aud p)"

text \<open>The extractor works on the text behind the last match.  \<open>after_key\<close> is the text behind the
  first colon that follows the first occurrence of the quoted key.\<close>

definition quoted :: "string \<Rightarrow> string" where
  "quoted k = dquote # k @ [dquote]"

definition after_char :: "char \<Rightarrow> string \<Rightarrow> string option" where
  "after_char c s = map_option (\<lambda>i. drop (i + 1) s) (find_char c s 0)"

definition after_key :: "string \<Rightarrow> string \<Rightarrow> string option" where
  "after_key key json =
     (case find_str (quoted key) json 0 of
        None \<Rightarrow> None
      | Some pos \<Rightarrow> after_char (CHR '':'') (drop (pos + length (quoted key)) json))"

definition extract_json_string_value :: "string \<Rightarrow> string \<Rightarrow> string" where
  "extract_json_string_value json key =
     (case after_key key json of
        None \<Rightarrow> []
      | Some r \<Rightarrow>
          (case after_char dquote r of
             None \<Rightarrow> []
           | Some v \<Rightarrow> (case find_char dquote v 0 of None \<Rightarrow> [] | Some q2 \<Rightarrow> substr v 0 q2)))"

definition u64_digits :: "string \<Rightarrow> u64" where
  "u64_digits ds = foldl (\<lambda>val c. val * 10 + of_nat (code c - 48)) 0 ds"

definition extract_json_u64 :: "string \<Rightarrow> string \<Rightarrow> u64" where
  "extract_json_u64 json key =
     (case after_key key json of
        None \<Rightarrow> 0
      | Some r \<Rightarrow> u64_digits (takeWhile is_digit (dropWhile is_space r)))"

lemma dropWhile_shorter: "dropWhile P xs = q # r \<Longrightarrow> length r < length xs"
  by (metis Suc_le_lessD length_Cons length_dropWhile_le)

text \<open>The scan of the audience array; every round consumes at least the two quotes of a string.\<close>

function aud_scan :: "string \<Rightarrow> string list" where
  "aud_scan body =
     (case dropWhile (\<lambda>c. c \<noteq> dquote) body of
        [] \<Rightarrow> []
      | q # r \<Rightarrow>
          (case find_char dquote r 0 of
             None \<Rightarrow> []
           | Some e \<Rightarrow>
               (if take e r \<noteq> [] then take e r # aud_scan (drop (e + 1) r)
                else aud_scan (drop (e + 1) r))))"
  by pat_completeness auto

termination
  by (relation "measure length") (auto dest: dropWhile_shorter)

declare aud_scan.simps [simp del]

definition extract_aud :: "string \<Rightarrow> string list" where
  "extract_aud json =
     (case find_str ''\"aud\"'' json 0 of
        None \<Rightarrow> []
      | Some aud_pos \<Rightarrow>
          (case after_char (CHR ''['') (drop aud_pos json) of
             None \<Rightarrow> []
           | Some r \<Rightarrow>
               (case find_char (CHR '']'') r 0 of
                  None \<Rightarrow> []
                | Some close_br \<Rightarrow> aud_scan (substr r 0 close_br))))"

definition extract_payload :: "string \<Rightarrow> JWTPayload" where
  "extract_payload json =
     \<lparr>pl_sub = extract_json_string_value json ''sub'',
      pl_iss = extract_json_string_value json ''iss'',
      pl_aud = extract_aud json,
      pl_iat = extract_json_u64 json ''iat'',
      pl_exp = extract_json_u64 json ''exp'',
      pl_jti = extract_json_string_value json ''jti'',
      pl_claims = []\<rparr>"

subsection \<open>Structure and signature\<close>

definition segments_ok :: "string \<Rightarrow> bool" where
  "segments_ok jwt \<longleftrightarrow>
     (case find_char dot jwt 0 of
        None \<Rightarrow> False
      | Some fst_dot \<Rightarrow>
          fst_dot \<noteq> 0 \<and>
          (case find_char dot jwt (fst_dot + 1) of
             None \<Rightarrow> False
           | Some snd_dot \<Rightarrow> snd_dot \<noteq> fst_dot + 1 \<and> snd_dot + 1 < length jwt))"

definition validate_jwt_structure :: "string \<Rightarrow> bool" where
  "validate_jwt_structure jwt \<longleftrightarrow>
     jwt \<noteq> [] \<and> length jwt \<le> 8192 \<and>
     length (filter (\<lambda>c. c = dot) jwt) = 2 \<and>
     segments_ok jwt \<and>
     list_all (\<lambda>c. c = dot \<or> is_base64url_char c) jwt"

definition no_parts :: JWTParts where
  "no_parts = \<lparr>encoded_header = [], encoded_payload = [], encoded_signature = [],
               signing_input = [], parts_complete = False\<rparr>"

definition make_parts :: "string \<Rightarrow> string \<Rightarrow> string \<Rightarrow> JWTParts" where
  "make_parts h p s =
     \<lparr>encoded_header = h, encoded_payload = p, encoded_signature = s,
      signing_input = h @ dot # p,
      parts_complete = (h \<noteq> [] \<and> p \<noteq> [] \<and> s \<noteq> [])\<rparr>"

definition split_jwt :: "string \<Rightarrow> JWTParts" where
  "split_jwt jwt =
     (case find_char dot jwt 0 of
        None \<Rightarrow> no_parts
      | Some first_dot \<Rightarrow>
          (case find_char dot jwt (first_dot + 1) of
             None \<Rightarrow> no_parts
           | Some second_dot \<Rightarrow>
               if find_char dot jwt (second_dot + 1) \<noteq> None then no_parts
               else make_parts (substr jwt 0 first_dot)
                      (substr jwt (first_dot + 1) (second_dot - first_dot - 1))
                      (drop (second_dot + 1) jwt)))"

text \<open>The comparison of the signatures looks at every character, whatever it has found so far.\<close>

definition xor_diff :: "string \<Rightarrow> string \<Rightarrow> byte" where
  "xor_diff xs ys = foldl (\<lambda>diff (a, b). diff OR (byte_of_char a XOR byte_of_char b)) 0 (zip xs ys)"

definition expected_signature :: "crypto \<Rightarrow> string \<Rightarrow> string \<Rightarrow> string" where
  "expected_signature cr secret inp = base64url_encode (cr_hmac_sha256 cr (bytes_of_string secret) inp)"

definition verify_hmac_signature :: "crypto \<Rightarrow> SessionConfig \<Rightarrow> JWTParts \<Rightarrow> bool" where
  "verify_hmac_signature cr cfg parts \<longleftrightarrow>
     jwt_secret cfg \<noteq> [] \<and>
     (let expected_b64 = expected_signature cr (jwt_secret cfg) (signing_input parts)
      in length (encoded_signature parts) = length expected_b64 \<and>
         xor_diff (encoded_signature parts) expected_b64 = 0)"

subsection \<open>Issuing\<close>

definition hex_digit :: "nat \<Rightarrow> char" where
  "hex_digit v = (if v < 10 then char_of (48 + v) else char_of (97 + (v - 10)))"

definition generate_jti :: "(nat \<Rightarrow> nat) \<Rightarrow> u64 \<Rightarrow> string" where
  "generate_jti draw now =
     ''cerberus_jti_'' @ map (\<lambda>i. hex_digit (draw i)) [0..<32] @ ''_'' @ nat_to_string (unat now)"

definition header_json :: "SessionConfig \<Rightarrow> string \<Rightarrow> u64 \<Rightarrow> u64 \<Rightarrow> string" where
  "header_json cfg sub now ex =
     ''{\"alg\":\"'' @ (if require_pqc cfg then ''PQC-DILITHIUM-5'' else ''HS256'') @
     ''\",\"typ\":\"JWT\",\"kid\":\"'' @ sub @ ''_key\",\"iat\":'' @ nat_to_string (unat now) @
     '',\"exp\":'' @ nat_to_string (unat ex) @ ''}''"

fun join_aud :: "string list \<Rightarrow> string" where
  "join_aud [] = []"
| "join_aud [a] = a"
| "join_aud (a # b # as) = a @ ''\",\"'' @ join_aud (b # as)"

definition aud_json :: "string list \<Rightarrow> string" where
  "aud_json aud =
     (if aud = [] then ''cerberus\",\"psiforcedb\"''
      else join_aud aud @ ''\"'' @ (if list_ex (\<lambda>a. a = ''psiforcedb'') aud then [] else '',\"psiforcedb\"''))"

definition payload_json :: "string \<Rightarrow> string list \<Rightarrow> u64 \<Rightarrow> u64 \<Rightarrow> string \<Rightarrow> string" where
  "payload_json sub aud now ex jti =
     ''{\"sub\":\"'' @ sub @ ''\",\"iss\":\"cerberus\",\"aud\":[\"'' @ aud_json aud @
     ''],\"iat\":'' @ nat_to_string (unat now) @ '',\"exp\":'' @ nat_to_string (unat ex) @
     '',\"jti\":\"'' @ jti @ ''\",\"offline_capable\":true,\"mode\":\"local\"}''"

definition sign_token :: "crypto \<Rightarrow> string \<Rightarrow> string \<Rightarrow> string \<Rightarrow> string" where
  "sign_token cr secret header payload =
     (let inp = base64url_encode (bytes_of_string header) @ dot # base64url_encode (bytes_of_string payload)
      in inp @ dot # expected_signature cr secret inp)"

definition create_token ::
    "crypto \<Rightarrow> SessionConfig \<Rightarrow> u64 \<Rightarrow> (nat \<Rightarrow> nat) \<Rightarrow> u64 \<Rightarrow> string \<Rightarrow> string list \<Rightarrow> string" where
  "create_token cr cfg now draw now_jti sub aud =
     (let ex = now + token_lifetime cfg
      in sign_token cr (jwt_secret cfg) (header_json cfg sub now ex)
           (payload_json sub aud now ex (generate_jti draw now_jti)))"

subsection \<open>Validating, refreshing, revoking\<close>

definition is_revoked :: "JWTSession \<Rightarrow> string \<Rightarrow> bool" where
  "is_revoked s jti \<longleftrightarrow> smap_find (revoked_jtis s) jti \<noteq> None"

definition invalidate_token :: "u64 \<Rightarrow> string \<Rightarrow> JWTSession \<Rightarrow> JWTSession" where
  "invalidate_token now jti s =
     (if jti = [] then s else s\<lparr>revoked_jtis := smap_put jti now (revoked_jtis s)\<rparr>)"

definition check_claims :: "JWTSession \<Rightarrow> u64 \<Rightarrow> u64 \<Rightarrow> JWTPayload \<Rightarrow> (jwt_error, JWTPayload) expected" where
  "check_claims s now now_at pld =
     (if \<not> is_audience_allowed pld (allowed_audiences (js_config s)) then Inl Bad_audience
      else if is_expired now pld then Inl Token_expired
      else if pl_jti pld \<noteq> [] \<and> is_revoked s (pl_jti pld) then Inl Token_revoked
      else Inr (pld\<lparr>pl_claims := smap_put ''validation_at'' (nat_to_string (unat now_at))
                                  (smap_put ''validation_result'' ''success'' (pl_claims pld))\<rparr>))"

definition validate_token ::
    "crypto \<Rightarrow> JWTSession \<Rightarrow> u64 \<Rightarrow> u64 \<Rightarrow> string \<Rightarrow> (jwt_error, JWTPayload) expected" where
  "validate_token cr s now now_at jwt =
     (if \<not> validate_jwt_structure jwt then Inl Bad_structure
      else if \<not> parts_complete (split_jwt jwt) then Inl Bad_segments
      else if \<not> verify_hmac_signature cr (js_config s) (split_jwt jwt) then Inl Bad_signature
      else if base64url_decode (encoded_payload (split_jwt jwt)) = [] then Inl Bad_payload
      else check_claims s now now_at
             (extract_payload (string_of_bytes (base64url_decode (encoded_payload (split_jwt jwt))))))"

definition refresh_token ::
    "crypto \<Rightarrow> u64 \<Rightarrow> u64 \<Rightarrow> u64 \<Rightarrow> (nat \<Rightarrow> nat) \<Rightarrow> u64 \<Rightarrow> u64 \<Rightarrow> string \<Rightarrow> JWTSession
       \<Rightarrow> (jwt_error, string \<times> string) expected \<times> JWTSession" where
  "refresh_token cr now now_at now_new draw now_jti now_inv jwt s =
     (case validate_token cr s now now_at jwt of
        Inl err \<Rightarrow> (Inl err, s)
      | Inr pld \<Rightarrow>
          if pl_jti pld = [] then (Inl Missing_jti, s)
          else (Inr (create_token cr (js_config s) now_new draw now_jti (pl_sub pld) (pl_aud pld), pl_jti pld),
                invalidate_token now_inv (pl_jti pld) s))"

end
