(* ===== verification/Jwt_Laws.thy ===== *)
theory Jwt_Laws
  imports Jwt_Session
begin

text \<open>
  Lemmas on the session tokens of \<open>Jwt_Session\<close>: the constant-time comparison is equality, a
  structurally valid token is three dot-free segments, and the claim extractor reads back the
  claims of a JSON text that is a sequence of quoted strings (\<open>json_text\<close>), which is what the
  payload of an issued token is.
\<close>

subsection \<open>The constant-time comparison\<close>

lemma xor_fold_zero:
  "length xs = length ys \<Longrightarrow>
     foldl (\<lambda>d (a, b). d OR (byte_of_char a XOR byte_of_char b)) d (zip xs ys) = 0
       \<longleftrightarrow> d = (0 :: byte) \<and> xs = ys"
proof (induction xs ys arbitrary: d rule: list_induct2)
  case (Cons a xs b ys)
  have "byte_of_char a XOR byte_of_char b = 0 \<longleftrightarrow> a = b"
    by (metis bit.xor_self char_of_byte_of_char xor.left_neutral xor.assoc xor.right_neutral)
  then have "d OR (byte_of_char a XOR byte_of_char b) = 0 \<longleftrightarrow> d = 0 \<and> a = b"
    by (simp add: or_eq_0_iff)
  with Cons.IH show ?case by auto
qed simp

lemma verify_hmac_signature_iff:
  "verify_hmac_signature cr cfg p \<longleftrightarrow>
     jwt_secret cfg \<noteq> [] \<and> encoded_signature p = expected_signature cr (jwt_secret cfg) (signing_input p)"
  by (auto simp: verify_hmac_signature_def Let_def xor_diff_def xor_fold_zero)

subsection \<open>Splitting a token\<close>

lemma find_char_from:
  "i = length pre \<Longrightarrow> c \<notin> set xs \<Longrightarrow> find_char c (pre @ xs @ c # ys) i = Some (length pre + length xs)"
  by (auto simp: find_char_def intro!: find_first_hit)

definition dot_free :: "string \<Rightarrow> bool" where
  "dot_free s \<longleftrightarrow> dot \<notin> set s"

lemma two_dots:
  assumes "dot_free h" "dot_free p"
  shows "find_char dot (h @ dot # p @ dot # s) 0 = Some (length h)"
    and "find_char dot (h @ dot # p @ dot # s) (length h + 1) = Some (length h + 1 + length p)"
  using assms find_char_hit [of dot h] find_char_from [of "length h + 1" "h @ [dot]" dot p s]
  by (simp_all add: dot_free_def)

lemma split_jwt_dots:
  assumes "dot_free h" "dot_free p" "dot_free s"
  shows "split_jwt (h @ dot # p @ dot # s) = make_parts h p s"
  using assms two_dots [of h p s]
  by (simp add: split_jwt_def find_char_None substr_def dot_free_def)

lemma segments_ok_dots:
  "dot_free h \<Longrightarrow> dot_free p \<Longrightarrow>
     segments_ok (h @ dot # p @ dot # s) \<longleftrightarrow> h \<noteq> [] \<and> p \<noteq> [] \<and> s \<noteq> []"
  by (simp add: segments_ok_def two_dots del: One_nat_def)

lemma dot_count_free: "dot_free s \<Longrightarrow> filter (\<lambda>c. c = dot) s = []"
  by (auto simp: dot_free_def filter_empty_conv)

lemma validate_jwt_structure_dots:
  assumes "dot_free h" "dot_free p" "dot_free s"
  shows "validate_jwt_structure (h @ dot # p @ dot # s) \<longleftrightarrow>
    h \<noteq> [] \<and> p \<noteq> [] \<and> s \<noteq> [] \<and> length h + length p + length s + 2 \<le> 8192 \<and>
    list_all is_base64url_char h \<and> list_all is_base64url_char p \<and> list_all is_base64url_char s"
proof -
  let ?j = "h @ dot # p @ dot # s"
  have seg: "list_all (\<lambda>c. c = dot \<or> is_base64url_char c) x \<longleftrightarrow> list_all is_base64url_char x"
    if "dot_free x" for x
    using that by (induction x) (simp_all add: dot_free_def, metis)
  have len: "length ?j = length h + length p + length s + 2"
    by simp
  have cnt: "length (filter (\<lambda>c. c = dot) ?j) = 2"
    using assms by (simp add: dot_count_free)
  have alph: "list_all (\<lambda>c. c = dot \<or> is_base64url_char c) ?j \<longleftrightarrow>
      list_all is_base64url_char h \<and> list_all is_base64url_char p \<and> list_all is_base64url_char s"
    using assms by (simp add: seg)
  have ne: "?j \<noteq> []" by simp
  show ?thesis
    unfolding validate_jwt_structure_def segments_ok_dots [OF assms(1,2)] len alph
    using cnt ne by blast
qed

lemma two_dots_split:
  assumes "length (filter (\<lambda>c. c = dot) jwt) = 2"
  shows "\<exists>h p s. dot_free h \<and> dot_free p \<and> dot_free s \<and> jwt = h @ dot # p @ dot # s"
proof -
  have *: "\<exists>x y. dot_free x \<and> t = x @ dot # y \<and> length (filter (\<lambda>c. c = dot) y) = n"
    if "length (filter (\<lambda>c. c = dot) t) = Suc n" for t n
  proof -
    have "\<not> dot_free t"
      using that dot_count_free [of t] by (intro notI) simp
    then have "dot \<in> set t"
      by (simp add: dot_free_def)
    then obtain x y where xy: "t = x @ dot # y" "dot \<notin> set x"
      by (meson split_list_first)
    then have "length (filter (\<lambda>c. c = dot) y) = n"
      using that dot_count_free [of x] by (simp add: dot_free_def)
    with xy show ?thesis
      unfolding dot_free_def by blast
  qed
  obtain h r where h: "dot_free h" "jwt = h @ dot # r" "length (filter (\<lambda>c. c = dot) r) = Suc 0"
    using * [of jwt "Suc 0"] assms by (auto simp: numeral_2_eq_2)
  obtain p s where p: "dot_free p" "r = p @ dot # s" "length (filter (\<lambda>c. c = dot) s) = 0"
    using * [OF h(3)] by auto
  have "dot_free s"
    using p(3) by (auto simp: dot_free_def filter_empty_conv)
  with h p show ?thesis by blast
qed

lemma validate_jwt_structureD:
  assumes "validate_jwt_structure jwt"
  obtains h p s where "dot_free h" "dot_free p" "dot_free s" "jwt = h @ dot # p @ dot # s"
  using two_dots_split [of jwt] assms by (auto simp: validate_jwt_structure_def)

lemma encode_dot_free [simp]: "dot_free (base64url_encode bs)"
proof -
  have "\<not> is_base64url_char dot"
    by (simp add: is_base64url_char_def ctype_defs)
  then show ?thesis
    using encode_alphabet [of bs] by (auto simp: dot_free_def list_all_iff)
qed

lemma hmac_dot_free [simp]: "dot_free (expected_signature cr k m)"
  by (simp add: expected_signature_def)


subsection \<open>Extracting claims\<close>

definition quote_free :: "string \<Rightarrow> bool" where
  "quote_free s \<longleftrightarrow> dquote \<notin> set s"

lemma quote_free_simps [simp]:
  "quote_free []" "quote_free (c # s) \<longleftrightarrow> c \<noteq> dquote \<and> quote_free s"
  "quote_free (s @ t) \<longleftrightarrow> quote_free s \<and> quote_free t"
  by (auto simp: quote_free_def)

text \<open>Text between quotes: a quoted string that differs from the key is skipped.\<close>

lemma find_quoted_gap:
  "quote_free s \<Longrightarrow>
     find_prefix (quoted k) (s @ t) = map_option ((+) (length s)) (find_prefix (quoted k) t)"
  by (simp add: quoted_def quote_free_def find_prefix_skip)

lemma take_quote_eq:
  assumes "quote_free s" "quote_free k" "s \<noteq> k"
  shows "take (Suc (length k)) (s @ dquote # t) \<noteq> k @ [dquote]"
proof
  assume "take (Suc (length k)) (s @ dquote # t) = k @ [dquote]"
  then have "s @ dquote # t = k @ dquote # drop (Suc (length k)) (s @ dquote # t)"
    by (metis append.assoc append_Cons append_Nil append_take_drop_id)
  then have "takeWhile (\<lambda>c. c \<noteq> dquote) (s @ dquote # t)
           = takeWhile (\<lambda>c. c \<noteq> dquote) (k @ dquote # drop (Suc (length k)) (s @ dquote # t))"
    by (rule arg_cong)
  moreover have "takeWhile (\<lambda>c. c \<noteq> dquote) (x @ dquote # y) = x" if "quote_free x" for x y
    using that by (intro takeWhile_append_stop) (auto simp: quote_free_def)
  ultimately show False
    using assms by simp
qed

lemma find_quoted_skip:
  assumes "quote_free s" "quote_free k" "s \<noteq> k"
  shows "find_prefix (quoted k) (dquote # s @ dquote # t)
           = map_option ((+) (Suc (length s))) (find_prefix (quoted k) (dquote # t))"
proof -
  have "take (length (quoted k)) (dquote # s @ dquote # t) \<noteq> quoted k"
    using take_quote_eq [OF assms] by (simp add: quoted_def)
  then have "find_prefix (quoted k) (dquote # s @ dquote # t)
      = map_option Suc (find_prefix (quoted k) (s @ dquote # t))"
    by simp
  with assms(1) show ?thesis
    by (simp add: find_quoted_gap option.map_comp comp_def)
qed

lemma find_quoted_hit: "find_prefix (quoted k) (dquote # k @ dquote # t) = Some 0"
  by (simp add: quoted_def)

text \<open>The text behind a quoted key, one segment of the JSON text at a time.\<close>

definition behind :: "string \<Rightarrow> string \<Rightarrow> string option" where
  "behind k s = map_option (\<lambda>i. drop (i + length (quoted k)) s) (find_prefix (quoted k) s)"

lemma drop_shift: "drop (length s + i + n) (s @ t) = drop (i + n) t"
  by simp

lemma behind_gap: "quote_free s \<Longrightarrow> behind k (s @ t) = behind k t"
  by (simp add: behind_def find_quoted_gap option.map_comp comp_def add.assoc)

lemma behind_skip:
  "quote_free s \<Longrightarrow> quote_free k \<Longrightarrow> s \<noteq> k \<Longrightarrow>
     behind k (dquote # s @ dquote # t) = behind k (dquote # t)"
  by (simp add: behind_def find_quoted_skip option.map_comp comp_def add.assoc del: find_prefix.simps)

lemma behind_hit: "behind k (dquote # k @ dquote # t) = Some t"
  by (simp add: behind_def find_quoted_hit) (simp add: quoted_def)

lemma after_char_hit: "c \<notin> set xs \<Longrightarrow> after_char c (xs @ c # ys) = Some ys"
  by (simp add: after_char_def find_char_hit)

lemma after_key_behind:
  "after_key k json = (case behind k json of None \<Rightarrow> None | Some r \<Rightarrow> after_char (CHR '':'') r)"
  by (auto simp: after_key_def behind_def find_str_def split: option.splits)

text \<open>A JSON text without escapes is a sequence of quoted strings, each after a gap without quotes.\<close>

fun json_text :: "(string \<times> string) list \<Rightarrow> string \<Rightarrow> string" where
  "json_text [] rest = rest"
| "json_text ((g, s) # ps) rest = g @ dquote # s @ dquote # json_text ps rest"

definition plain :: "string \<Rightarrow> (string \<times> string) list \<Rightarrow> bool" where
  "plain k ps \<longleftrightarrow> (\<forall>(g, s) \<in> set ps. quote_free g \<and> quote_free s \<and> g \<noteq> k \<and> s \<noteq> k)"

lemma plain_simps [simp]:
  "plain k []"
  "plain k ((g, s) # ps) \<longleftrightarrow> quote_free g \<and> quote_free s \<and> g \<noteq> k \<and> s \<noteq> k \<and> plain k ps"
  "plain k (ps @ qs) \<longleftrightarrow> plain k ps \<and> plain k qs"
  by (auto simp: plain_def)

lemma json_text_append: "json_text (ps @ qs) rest = json_text ps (json_text qs rest)"
  by (induction ps rest rule: json_text.induct) simp_all

lemma behind_quote_text:
  assumes "quote_free k" "plain k ps" "quote_free g" "g \<noteq> k"
  shows "behind k (dquote # json_text (ps @ (g, k) # qs) rest) = Some (json_text qs rest)"
  using assms(2)
proof (induction ps)
  case Nil
  with assms show ?case by (simp add: behind_skip behind_hit)
next
  case (Cons gs ps)
  with assms show ?case by (cases gs) (simp add: behind_skip)
qed

lemma behind_text:
  assumes "quote_free k" "plain k ps" "quote_free g" "g \<noteq> k"
  shows "behind k (json_text (ps @ (g, k) # qs) rest) = Some (json_text qs rest)"
proof (cases ps)
  case Nil
  with assms show ?thesis by (simp add: behind_gap behind_hit)
next
  case (Cons gs ps')
  with assms behind_quote_text [of k ps' g qs rest] show ?thesis
    by (cases gs) (simp add: behind_gap behind_skip)
qed

lemma extract_string_text:
  assumes "quote_free k" "plain k ps" "quote_free g" "g \<noteq> k" "quote_free v"
  shows "extract_json_string_value (json_text (ps @ (g, k) # ('':'', v) # qs) rest) k = v"
  using assms behind_text [OF assms(1-4), of "('':'', v) # qs" rest]
    after_char_hit [of "CHR '':''" "[]"] after_char_hit [of dquote "[]"] find_char_hit [of dquote v]
  by (simp add: extract_json_string_value_def after_key_behind substr_def quote_free_def)

lemma u64_digits_eq: "u64_digits ds = of_nat (dec_value ds)"
proof -
  have "foldl (\<lambda>val c. val * 10 + of_nat (code c - 48)) (of_nat a) ds
      = (of_nat (foldl (\<lambda>a c. a * 10 + digit_val c) a ds) :: u64)" for a
  proof (induction ds arbitrary: a)
    case (Cons c ds)
    from Cons [of "a * 10 + digit_val c"] show ?case
      by (simp add: digit_val_def)
  qed simp
  from this [of 0] show ?thesis
    by (simp add: u64_digits_def dec_value_def)
qed

lemma extract_u64_text:
  assumes "quote_free k" "plain k ps" "quote_free g" "g \<noteq> k" "\<not> is_digit c"
  shows "extract_json_u64 (json_text (ps @ (g, k) # (CHR '':'' # nat_to_string (unat n) @ c # g', s) # qs) rest) k = n"
proof -
  let ?r = "c # g' @ dquote # s @ dquote # json_text qs rest"
  let ?ds = "nat_to_string (unat n)"
  have ak: "after_key k (json_text (ps @ (g, k) # (CHR '':'' # ?ds @ c # g', s) # qs) rest) = Some (?ds @ ?r)"
    using behind_text [OF assms(1-4), of "(CHR '':'' # ?ds @ c # g', s) # qs" rest]
      after_char_hit [of "CHR '':''" "[]"]
    by (simp add: after_key_behind)
  have "dropWhile is_space (?ds @ ?r) = ?ds @ ?r"
    using nat_to_string_digits [of "unat n"] digit_not_space nat_to_string_ne [of "unat n"]
    by (cases ?ds) auto
  moreover have "takeWhile is_digit (?ds @ ?r) = ?ds"
    using nat_to_string_digits [of "unat n"] assms(5) by (intro takeWhile_append_stop)
  ultimately show ?thesis
    by (simp add: extract_json_u64_def ak u64_digits_eq)
qed

subsection \<open>The audience list\<close>

lemma aud_scan_text:
  assumes "quote_free rest" "\<forall>(g, s) \<in> set ps. quote_free g \<and> quote_free s"
  shows "aud_scan (json_text ps rest) = filter (\<lambda>s. s \<noteq> []) (map snd ps)"
  using assms(2)
proof (induction ps)
  case Nil
  have "dropWhile (\<lambda>c. c \<noteq> dquote) rest = []"
    using assms(1) by (auto simp: quote_free_def)
  then show ?case
    by (subst aud_scan.simps) (simp only: json_text.simps list.case map_is_Nil_conv filter.simps list.map)
next
  case (Cons gs ps)
  obtain g s where gs: "gs = (g, s)" by fastforce
  have qf: "quote_free g" "quote_free s"
    using Cons.prems by (auto simp: gs)
  have dw: "dropWhile (\<lambda>c. c \<noteq> dquote) (json_text (gs # ps) rest) = dquote # s @ dquote # json_text ps rest"
    using qf(1) by (simp add: gs) (intro dropWhile_append_stop, auto simp: quote_free_def)
  have "find_char dquote (s @ dquote # json_text ps rest) 0 = Some (length s)"
    using qf(2) by (simp add: find_char_hit quote_free_def)
  then show ?case
    using Cons.IH Cons.prems
    by (subst aud_scan.simps, subst dw) (simp add: gs)
qed

definition token_aud :: "string list \<Rightarrow> string list" where
  "token_aud aud =
     (if aud = [] then [''cerberus'', ''psiforcedb'']
      else if ''psiforcedb'' \<in> set aud then aud else aud @ [''psiforcedb''])"

fun aud_pairs :: "string list \<Rightarrow> (string \<times> string) list" where
  "aud_pairs [] = []"
| "aud_pairs (a # as) = ([], a) # map (Pair '','') as"

lemma join_aud_text:
  "as \<noteq> [] \<Longrightarrow> dquote # join_aud as @ dquote # t = json_text (aud_pairs as) t"
  by (induction as rule: join_aud.induct) simp_all

lemma aud_pairs_append: "as \<noteq> [] \<Longrightarrow> aud_pairs (as @ bs) = aud_pairs as @ map (Pair '','') bs"
  by (cases as) simp_all

lemma aud_json_text: "dquote # aud_json aud @ t = json_text (aud_pairs (token_aud aud)) t"
  using join_aud_text [of aud]
  by (auto simp: aud_json_def token_aud_def aud_pairs_append json_text_append list_ex_iff)

definition aud_ok :: "string \<Rightarrow> bool" where
  "aud_ok a \<longleftrightarrow> quote_free a \<and> a \<noteq> [] \<and> CHR '']'' \<notin> set a \<and> a \<notin> {''iat'', ''exp'', ''jti''}"

definition sub_ok :: "string \<Rightarrow> bool" where
  "sub_ok s \<longleftrightarrow> quote_free s \<and> s \<notin> {''iss'', ''aud'', ''iat'', ''exp'', ''jti''}"

lemma token_aud_ok: "\<forall>a \<in> set aud. aud_ok a \<Longrightarrow> \<forall>a \<in> set (token_aud aud). aud_ok a"
  by (auto simp: token_aud_def aud_ok_def)

lemma token_aud_ne [simp]: "token_aud aud \<noteq> []"
  by (simp add: token_aud_def)

lemma aud_pairs_snd [simp]: "map snd (aud_pairs as) = as"
  by (cases as) (simp_all add: comp_def)

lemma aud_pairs_set: "(g, s) \<in> set (aud_pairs as) \<Longrightarrow> g \<in> {[], '',''} \<and> s \<in> set as"
  by (cases as) auto

lemma aud_pairs_chars:
  assumes "\<forall>a \<in> set as. aud_ok a"
  shows "\<forall>(g, s) \<in> set (aud_pairs as). quote_free g \<and> quote_free s"
    and "\<forall>(g, s) \<in> set (aud_pairs as). CHR '']'' \<notin> set g \<and> CHR '']'' \<notin> set s"
  using assms by (cases as; force simp: aud_ok_def)+

lemma plain_aud_pairs:
  "\<forall>a \<in> set as. aud_ok a \<Longrightarrow> k \<in> {''iat'', ''exp'', ''jti''} \<Longrightarrow> plain k (aud_pairs as)"
proof -
  assume ok: "\<forall>a \<in> set as. aud_ok a" and k: "k \<in> {''iat'', ''exp'', ''jti''}"
  have "quote_free g \<and> quote_free s \<and> g \<noteq> k \<and> s \<noteq> k" if "(g, s) \<in> set (aud_pairs as)" for g s
  proof -
    have g: "g = [] \<or> g = '',''" and s: "aud_ok s"
      using aud_pairs_set [OF that] ok by blast+
    have "quote_free g \<and> g \<noteq> k"
      using g k by (elim disjE insertE emptyE) simp_all
    moreover have "quote_free s \<and> s \<noteq> k"
      using s k by (elim insertE emptyE) (simp_all add: aud_ok_def)
    ultimately show ?thesis by blast
  qed
  then show ?thesis by (auto simp: plain_def)
qed

lemma json_text_bracket:
  "\<forall>(g, s) \<in> set ps. CHR '']'' \<notin> set g \<and> CHR '']'' \<notin> set s \<Longrightarrow>
     find_char (CHR '']'') (json_text ps (CHR '']'' # t)) 0 = Some (length (json_text ps []))
     \<and> take (length (json_text ps [])) (json_text ps (CHR '']'' # t)) = json_text ps []"
proof -
  assume h: "\<forall>(g, s) \<in> set ps. CHR '']'' \<notin> set g \<and> CHR '']'' \<notin> set s"
  have split: "json_text ps x = json_text ps [] @ x" for x
    by (induction ps) auto
  have "CHR '']'' \<notin> set (json_text ps [])"
    using h by (induction ps) auto
  then show ?thesis
    using find_char_hit [of "CHR '']''" "json_text ps []"] split [of "CHR '']'' # t"] by simp
qed

lemma extract_aud_text:
  assumes "plain ''aud'' ps" "quote_free g" "g \<noteq> ''aud''" "\<forall>a \<in> set as. aud_ok a" "as \<noteq> []"
  shows "extract_aud (json_text (ps @ (g, ''aud'') # []) ('':['' @ json_text (aud_pairs as) (CHR '']'' # t))) = as"
proof -
  let ?t = "json_text (aud_pairs as) (CHR '']'' # t)"
  let ?j = "json_text (ps @ (g, ''aud'') # []) ('':['' @ ?t)"
  have "behind ''aud'' ?j = Some ('':['' @ ?t)"
    using behind_text [of "''aud''" ps g "[]" "'':['' @ ?t"] assms by simp
  then obtain i where i: "find_prefix (quoted ''aud'') ?j = Some i" "drop (i + length (quoted ''aud'')) ?j = '':['' @ ?t"
    by (auto simp: behind_def simp del: json_text.simps append_Cons)
  have "drop i ?j = quoted ''aud'' @ '':['' @ ?t"
    using find_prefix_SomeD [OF i(1)] i(2)
      append_take_drop_id [of "length (quoted ''aud'')" "drop i ?j"]
    by (simp only: drop_drop add.commute)
  then have after: "after_char (CHR ''['') (drop i ?j) = Some ?t"
    using after_char_hit [of "CHR ''[''" "quoted ''aud'' @ '':''" ?t] by (simp add: quoted_def)
  have "aud_scan (json_text (aud_pairs as) []) = filter (\<lambda>s. s \<noteq> []) as"
    using aud_scan_text [OF _ aud_pairs_chars(1) [OF assms(4)], of "[]"] by simp
  also have "\<dots> = as"
    using assms(4) by (auto simp: aud_ok_def intro: filter_True)
  finally have scan: "aud_scan (json_text (aud_pairs as) []) = as" .
  have key: "find_str ''\"aud\"'' ?j 0 = Some i"
    using i(1) by (simp add: find_str_def quoted_def del: json_text.simps find_prefix.simps)
  show ?thesis
    unfolding extract_aud_def key
    using after scan json_text_bracket [OF aud_pairs_chars(2) [OF assms(4)], of t]
    by (simp add: substr_def del: json_text.simps)
qed

subsection \<open>The payload of an issued token\<close>

definition aud_segments :: "string list \<Rightarrow> (string \<times> string) list" where
  "aud_segments as = ('':['', hd as) # map (Pair '','') (List.tl as)"

definition head_segments :: "string \<Rightarrow> (string \<times> string) list" where
  "head_segments sub = [(''{'', ''sub''), ('':'', sub), ('','', ''iss''), ('':'', ''cerberus'')]"

lemma aud_segments_text: "as \<noteq> [] \<Longrightarrow> json_text (aud_segments as) t = '':['' @ json_text (aud_pairs as) t"
  by (cases as) (simp_all add: aud_segments_def)

lemma plain_aud_segments:
  assumes "as \<noteq> []" "\<forall>a \<in> set as. aud_ok a" "k \<in> {''iat'', ''exp'', ''jti''}"
  shows "plain k (aud_segments as)"
  using plain_aud_pairs [OF assms(2,3)] assms(1,3)
  by (cases as) (auto simp: aud_segments_def)

definition tail_segments :: "u64 \<Rightarrow> u64 \<Rightarrow> string \<Rightarrow> (string \<times> string) list" where
  "tail_segments now ex jti =
     [(''],'', ''iat''), (CHR '':'' # nat_to_string (unat now) @ '','', ''exp''),
      (CHR '':'' # nat_to_string (unat ex) @ '','', ''jti''), ('':'', jti),
      ('','', ''offline_capable''), ('':true,'', ''mode''), ('':'', ''local'')]"

lemma payload_json_text:
  "payload_json sub aud now ex jti =
     json_text (head_segments sub @ ('','', ''aud'') # aud_segments (token_aud aud) @ tail_segments now ex jti) ''}''"
  using aud_json_text [of aud]
  by (simp add: payload_json_def head_segments_def tail_segments_def json_text_append aud_segments_text)

lemma digits_quote_free [simp]: "quote_free (nat_to_string n)"
proof -
  have "\<not> is_digit dquote" by (simp add: is_digit_def)
  then show ?thesis
    using nat_to_string_digits [of n] by (auto simp: quote_free_def)
qed

lemma colon_not_key: "CHR '':'' # x \<noteq> ''iat''" "CHR '':'' # x \<noteq> ''exp''" "CHR '':'' # x \<noteq> ''jti''"
  by simp_all

lemma head_plain:
  "sub_ok sub \<Longrightarrow> k \<in> {''aud'', ''iat'', ''exp'', ''jti''} \<Longrightarrow> plain k (head_segments sub @ [('','', ''aud'')]) \<or> k = ''aud''"
  by (elim insertE emptyE) (simp_all add: head_segments_def sub_ok_def)

lemma extract_payload_issued:
  assumes "sub_ok sub" "\<forall>a \<in> set aud. aud_ok a" "quote_free jti"
  shows "extract_payload (payload_json sub aud now ex jti) =
    \<lparr>pl_sub = sub, pl_iss = ''cerberus'', pl_aud = token_aud aud, pl_iat = now, pl_exp = ex,
     pl_jti = jti, pl_claims = []\<rparr>"
proof -
  let ?as = "token_aud aud"
  let ?j = "payload_json sub aud now ex jti"
  note ok = token_aud_ok [OF assms(2)]
  have sub: "extract_json_string_value ?j ''sub'' = sub"
    using extract_string_text [of "''sub''" "[]" "''{''" sub] assms(1)
    by (simp add: payload_json_text head_segments_def sub_ok_def del: json_text.simps)
  have iss: "extract_json_string_value ?j ''iss'' = ''cerberus''"
    using extract_string_text [of "''iss''" "[(''{'', ''sub''), ('':'', sub)]" "'',''" "''cerberus''"] assms(1)
    by (simp add: payload_json_text head_segments_def sub_ok_def del: json_text.simps)
  have aud: "extract_aud ?j = ?as"
    using extract_aud_text [of "head_segments sub" "'',''" ?as] assms(1) ok
    by (simp add: payload_json_text json_text_append aud_segments_text tail_segments_def head_segments_def sub_ok_def)
  have pl: "plain k (head_segments sub @ ('','', ''aud'') # aud_segments ?as)"
    if "k \<in> {''iat'', ''exp'', ''jti''}" for k
  proof -
    have "plain k (head_segments sub @ [('','', ''aud'')])"
      using head_plain [OF assms(1), of k] that by (elim insertE emptyE) simp_all
    with plain_aud_segments [OF _ ok that] show ?thesis by simp
  qed
  have iat: "extract_json_u64 ?j ''iat'' = now"
    using extract_u64_text [of "''iat''" "head_segments sub @ ('','', ''aud'') # aud_segments ?as" "''],''" "CHR '',''" now "[]"] pl [of "''iat''"]
    by (simp add: payload_json_text tail_segments_def is_digit_def del: json_text.simps)
  have ex: "extract_json_u64 ?j ''exp'' = ex"
    using extract_u64_text [of "''exp''" "head_segments sub @ ('','', ''aud'') # aud_segments ?as @ [(''],'', ''iat'')]"
        "CHR '':'' # nat_to_string (unat now) @ '',''" "CHR '',''" ex "[]"] pl [of "''exp''"]
    by (simp add: payload_json_text tail_segments_def is_digit_def del: json_text.simps)
  have jti: "extract_json_string_value ?j ''jti'' = jti"
    using extract_string_text [of "''jti''" "head_segments sub @ ('','', ''aud'') # aud_segments ?as
          @ [(''],'', ''iat''), (CHR '':'' # nat_to_string (unat now) @ '','', ''exp'')]"
        "CHR '':'' # nat_to_string (unat ex) @ '',''" jti] pl [of "''jti''"] assms(3)
    by (simp add: payload_json_text tail_segments_def del: json_text.simps)
  show ?thesis
    by (simp add: extract_payload_def sub iss aud iat ex jti)
qed

lemma hex_digit_quote_free: "v < 16 \<Longrightarrow> hex_digit v \<noteq> dquote"
proof -
  have "\<forall>v \<in> set [0..<16]. hex_digit v \<noteq> dquote" by code_simp
  then show "v < 16 \<Longrightarrow> hex_digit v \<noteq> dquote" by simp
qed

lemma jti_quote_free: "\<forall>i < 32. draw i < 16 \<Longrightarrow> quote_free (generate_jti draw now)"
  using hex_digit_quote_free by (fastforce simp: generate_jti_def quote_free_def [of "map _ _"])

end
