(* ===== verification/Jwt_Props.thy ===== *)
theory Jwt_Props
  imports Jwt_Laws
begin

text \<open>
  What the session tokens guarantee: an accepted token carries the signature of the session secret
  and unexpired, unrevoked claims for an allowed audience; a token issued for a subject without
  reserved names is accepted with the claims it was issued with; and a refresh revokes the token it
  replaces for good.
\<close>

subsection \<open>Issued tokens\<close>

lemma sign_token_split:
  fixes cr secret h p
  defines "hb \<equiv> base64url_encode (bytes_of_string h)" and "pb \<equiv> base64url_encode (bytes_of_string p)"
  shows "sign_token cr secret h p = hb @ dot # pb @ dot # expected_signature cr secret (hb @ dot # pb)"
    and "split_jwt (sign_token cr secret h p) = make_parts hb pb (expected_signature cr secret (hb @ dot # pb))"
proof -
  show eq: "sign_token cr secret h p = hb @ dot # pb @ dot # expected_signature cr secret (hb @ dot # pb)"
    by (simp add: sign_token_def Let_def hb_def pb_def)
  show "split_jwt (sign_token cr secret h p) = make_parts hb pb (expected_signature cr secret (hb @ dot # pb))"
    unfolding eq by (rule split_jwt_dots) (simp_all add: hb_def pb_def)
qed

lemma sign_token_structure:
  assumes "h \<noteq> []" "p \<noteq> []" "\<And>m. cr_hmac_sha256 cr (bytes_of_string secret) m \<noteq> []"
    and "length (sign_token cr secret h p) \<le> 8192"
  shows "validate_jwt_structure (sign_token cr secret h p)"
  using assms(4) unfolding sign_token_split(1)
  by (subst validate_jwt_structure_dots)
     (simp_all add: assms(1-3) expected_signature_def encode_alphabet)

lemma validate_sign_token:
  assumes "h \<noteq> []" "p \<noteq> []" "\<And>m. cr_hmac_sha256 cr (bytes_of_string (jwt_secret (js_config s))) m \<noteq> []"
    and "length (sign_token cr (jwt_secret (js_config s)) h p) \<le> 8192"
    and "jwt_secret (js_config s) \<noteq> []"
  shows "validate_token cr s now now_at (sign_token cr (jwt_secret (js_config s)) h p)
           = check_claims s now now_at (extract_payload p)"
  using sign_token_structure [OF assms(1-4)] assms
  by (simp add: validate_token_def sign_token_split(2) make_parts_def verify_hmac_signature_iff
      expected_signature_def)

lemma issued_token_accepted:
  assumes "sub_ok sub" and "\<forall>a \<in> set aud. aud_ok a" and "\<forall>i < 32. draw i < 16"
    and "\<And>m. cr_hmac_sha256 cr (bytes_of_string (jwt_secret (js_config s))) m \<noteq> []"
    and "jwt_secret (js_config s) \<noteq> []"
    and "length (create_token cr (js_config s) iat draw iat' sub aud) \<le> 8192"
    and "allowed_audiences (js_config s) = [] \<or> set (token_aud aud) \<inter> set (allowed_audiences (js_config s)) \<noteq> {}"
    and "\<not> is_revoked s (generate_jti draw iat')"
    and "now < iat + token_lifetime (js_config s)"
  shows "validate_token cr s now now_at (create_token cr (js_config s) iat draw iat' sub aud)
    = Inr \<lparr>pl_sub = sub, pl_iss = ''cerberus'', pl_aud = token_aud aud, pl_iat = iat,
           pl_exp = iat + token_lifetime (js_config s), pl_jti = generate_jti draw iat',
           pl_claims = [(''validation_at'', nat_to_string (unat now_at)), (''validation_result'', ''success'')]\<rparr>"
proof -
  let ?ex = "iat + token_lifetime (js_config s)"
  let ?p = "payload_json sub aud iat ?ex (generate_jti draw iat')"
  let ?h = "header_json (js_config s) sub iat ?ex"
  have tok: "create_token cr (js_config s) iat draw iat' sub aud = sign_token cr (jwt_secret (js_config s)) ?h ?p"
    by (simp add: create_token_def Let_def)
  have "?h \<noteq> []" "?p \<noteq> []"
    by (simp_all add: header_json_def payload_json_def)
  then have val: "validate_token cr s now now_at (create_token cr (js_config s) iat draw iat' sub aud)
      = check_claims s now now_at (extract_payload ?p)"
    using validate_sign_token [of ?h ?p cr s now now_at] assms(4,5,6) unfolding tok by simp
  have pl: "extract_payload ?p = \<lparr>pl_sub = sub, pl_iss = ''cerberus'', pl_aud = token_aud aud, pl_iat = iat,
      pl_exp = ?ex, pl_jti = generate_jti draw iat', pl_claims = []\<rparr>"
    by (rule extract_payload_issued [OF assms(1,2) jti_quote_free [OF assms(3)]])
  have "is_audience_allowed (extract_payload ?p) (allowed_audiences (js_config s))"
    using assms(7) unfolding pl by (auto simp: is_audience_allowed_def list_ex_iff)
  then show ?thesis
    using assms(8,9) unfolding val pl by (simp add: check_claims_def is_expired_def not_le)
qed

text \<open>C31. A token that \<open>create_token\<close> issues is accepted until its expiry, with exactly the claims
  it was issued with, when the subject and the audiences contain no quotes and are not names of
  claims, the secret is not empty, the token is at most 8192 characters long, one of its audiences is
  allowed and its identifier is not revoked.  The hash is any function with non-empty digests.\<close>

theorem create_then_validate:
  assumes "sub_ok sub" and "\<forall>a \<in> set aud. aud_ok a" and "\<forall>i < 32. draw i < 16"
    and "\<And>m. cr_hmac_sha256 cr (bytes_of_string (jwt_secret (js_config s))) m \<noteq> []"
    and "jwt_secret (js_config s) \<noteq> []"
    and "length (create_token cr (js_config s) iat draw iat' sub aud) \<le> 8192"
    and "allowed_audiences (js_config s) = [] \<or> set (token_aud aud) \<inter> set (allowed_audiences (js_config s)) \<noteq> {}"
    and "\<not> is_revoked s (generate_jti draw iat')"
    and "now < iat + token_lifetime (js_config s)"
  shows "validate_token cr s now now_at (create_token cr (js_config s) iat draw iat' sub aud)
    = Inr \<lparr>pl_sub = sub, pl_iss = ''cerberus'', pl_aud = token_aud aud, pl_iat = iat,
           pl_exp = iat + token_lifetime (js_config s), pl_jti = generate_jti draw iat',
           pl_claims = [(''validation_at'', nat_to_string (unat now_at)), (''validation_result'', ''success'')]\<rparr>"
  using assms by (rule issued_token_accepted)

definition echo_crypto :: crypto where
  "echo_crypto = \<lparr>cr_sha256 = (\<lambda>m. [0]), cr_hmac_sha256 = (\<lambda>k m. of_nat (length m) # k)\<rparr>"

definition demo_session :: JWTSession where
  "demo_session = \<lparr>js_config = \<lparr>jwt_secret = ''key'', token_lifetime = 86400, require_pqc = False,
     allowed_audiences = [''cerberus'', ''psiforcedb'']\<rparr>, revoked_jtis = []\<rparr>"

definition demo_token :: string where
  "demo_token = create_token echo_crypto (js_config demo_session) 1000 (\<lambda>i. i mod 16) 1000 ''node'' []"

lemma demo_sub_ok: "sub_ok ''node''"
  by (simp add: sub_ok_def)

lemma length_create_token:
  "length (create_token cr cfg iat draw iat' sub aud) =
     (4 * length (header_json cfg sub iat (iat + token_lifetime cfg)) + 2) div 3 +
     (4 * length (payload_json sub aud iat (iat + token_lifetime cfg) (generate_jti draw iat')) + 2) div 3 +
     length (expected_signature cr (jwt_secret cfg)
       (base64url_encode (bytes_of_string (header_json cfg sub iat (iat + token_lifetime cfg))) @ dot #
        base64url_encode (bytes_of_string (payload_json sub aud iat (iat + token_lifetime cfg) (generate_jti draw iat'))))) + 2"
  by (simp add: create_token_def Let_def sign_token_split(1) encode_length)

lemma length_nat_to_string: "n < 10 ^ Suc k \<Longrightarrow> length (nat_to_string n) \<le> Suc k"
proof (induction k arbitrary: n)
  case 0
  then show ?case by (subst nat_to_string.simps) simp
next
  case (Suc k)
  then have "n div 10 < 10 ^ Suc k"
    by (simp add: less_mult_imp_div_less)
  from Suc.IH [OF this] show ?case
    by (subst nat_to_string.simps) simp
qed

lemma length_u64_to_string: "length (nat_to_string (unat (w :: u64))) \<le> 20"
  using length_nat_to_string [of "unat w" 19] unsigned_less [of w, where 'a = nat] by simp

lemma length_header_json: "length (header_json cfg sub now ex) \<le> 110 + length sub"
  using length_u64_to_string [of now] length_u64_to_string [of ex] by (simp add: header_json_def)

lemma length_payload_json: "length (payload_json sub [] now ex (generate_jti draw t)) \<le> 260 + length sub"
  using length_u64_to_string [of now] length_u64_to_string [of ex] length_u64_to_string [of t]
  by (simp add: payload_json_def aud_json_def generate_jti_def)

lemma demo_signature_length: "length (expected_signature echo_crypto (jwt_secret (js_config demo_session)) m) = 6"
  by (simp add: expected_signature_def encode_length echo_crypto_def demo_session_def)

lemma demo_length: "length demo_token \<le> 8192"
  unfolding demo_token_def length_create_token demo_signature_length
  using length_header_json [of "js_config demo_session" "''node''" 1000 "1000 + token_lifetime (js_config demo_session)"]
    length_payload_json [of "''node''" 1000 "1000 + token_lifetime (js_config demo_session)" "\<lambda>i. i mod 16" 1000]
  by (simp only: list.size)

lemma demo_not_revoked: "\<not> is_revoked demo_session jti"
  by (simp add: is_revoked_def demo_session_def)

lemma demo_accepted:
  "\<exists>p. validate_token echo_crypto demo_session 2000 2000 demo_token = Inr p \<and> pl_jti p \<noteq> []"
  using issued_token_accepted [of "''node''" "[]" "\<lambda>i. i mod 16" echo_crypto demo_session 1000 1000 2000 2000]
    demo_sub_ok demo_length demo_not_revoked
  by (simp add: demo_token_def echo_crypto_def demo_session_def token_aud_def generate_jti_def)

theorem create_then_validate_witness:
  "validate_token echo_crypto demo_session 2000 2000 demo_token
    = Inr \<lparr>pl_sub = ''node'', pl_iss = ''cerberus'', pl_aud = [''cerberus'', ''psiforcedb''], pl_iat = 1000,
           pl_exp = 87400, pl_jti = generate_jti (\<lambda>i. i mod 16) 1000,
           pl_claims = [(''validation_at'', nat_to_string 2000), (''validation_result'', ''success'')]\<rparr>"
  using create_then_validate [of "''node''" "[]" "\<lambda>i. i mod 16" echo_crypto demo_session 1000 1000 2000 2000]
    demo_sub_ok demo_length demo_not_revoked
  by (simp add: demo_token_def echo_crypto_def demo_session_def token_aud_def)

text \<open>The restriction on subjects is needed: the extractor takes the first quoted occurrence of a
  claim name, so a subject that is called \<^verbatim>\<open>exp\<close> is read as the claim, and every token of such a
  subject counts as expired.\<close>

lemma subject_named_exp:
  "pl_exp (extract_payload (payload_json ''exp'' aud now ex jti)) = 0"
proof -
  have "behind ''exp'' (payload_json ''exp'' aud now ex jti) =
      Some (json_text (('','', ''iss'') # ('':'', ''cerberus'') # ('','', ''aud'')
        # aud_segments (token_aud aud) @ tail_segments now ex jti) ''}'')"
    using behind_text [of "''exp''" "[(''{'', ''sub'')]" "'':''"]
    by (simp add: payload_json_text head_segments_def del: json_text.simps)
  then have "\<exists>r. after_key ''exp'' (payload_json ''exp'' aud now ex jti) = Some (dquote # r)"
    using after_char_hit [of "CHR '':''" "'',\"iss\"''"] by (simp add: after_key_behind)
  then show ?thesis
    by (auto simp: extract_payload_def extract_json_u64_def is_digit_def is_space_def u64_digits_def)
qed

lemma subject_named_exp_rejected:
  assumes "\<And>m. cr_hmac_sha256 cr (bytes_of_string (jwt_secret (js_config s))) m \<noteq> []"
    and "jwt_secret (js_config s) \<noteq> []"
    and "length (create_token cr (js_config s) iat draw iat' ''exp'' aud) \<le> 8192"
  shows "validate_token cr s now now_at (create_token cr (js_config s) iat draw iat' ''exp'' aud)
           \<in> {Inl Bad_audience, Inl Token_expired}"
proof -
  let ?ex = "iat + token_lifetime (js_config s)"
  let ?p = "payload_json ''exp'' aud iat ?ex (generate_jti draw iat')"
  let ?h = "header_json (js_config s) ''exp'' iat ?ex"
  have tok: "create_token cr (js_config s) iat draw iat' ''exp'' aud = sign_token cr (jwt_secret (js_config s)) ?h ?p"
    by (simp add: create_token_def Let_def)
  have "?h \<noteq> []" "?p \<noteq> []"
    by (simp_all add: header_json_def payload_json_def)
  then have "validate_token cr s now now_at (create_token cr (js_config s) iat draw iat' ''exp'' aud)
      = check_claims s now now_at (extract_payload ?p)"
    using validate_sign_token [of ?h ?p cr s now now_at] assms unfolding tok by simp
  then show ?thesis
    by (simp add: check_claims_def is_expired_def subject_named_exp)
qed

subsection \<open>Accepted tokens\<close>

lemma check_claimsD:
  assumes "check_claims s now now_at q = Inr p"
  shows "is_audience_allowed q (allowed_audiences (js_config s))" "now < pl_exp q"
    "pl_jti q = [] \<or> \<not> is_revoked s (pl_jti q)"
    "p = q\<lparr>pl_claims := smap_put ''validation_at'' (nat_to_string (unat now_at))
             (smap_put ''validation_result'' ''success'' (pl_claims q))\<rparr>"
  using assms by (auto simp: check_claims_def is_expired_def not_le split: if_splits)

lemma validate_token_Inr:
  assumes "validate_token cr s now now_at jwt = Inr p"
  obtains h b where
    "jwt = h @ dot # b @ dot # expected_signature cr (jwt_secret (js_config s)) (h @ dot # b)"
    "jwt_secret (js_config s) \<noteq> []" "length jwt \<le> 8192"
    "check_claims s now now_at (extract_payload (string_of_bytes (base64url_decode b))) = Inr p"
proof -
  have st: "validate_jwt_structure jwt" and vs: "verify_hmac_signature cr (js_config s) (split_jwt jwt)"
    and cc: "check_claims s now now_at
        (extract_payload (string_of_bytes (base64url_decode (encoded_payload (split_jwt jwt))))) = Inr p"
    using assms by (simp_all add: validate_token_def split: if_splits)
  obtain h b g where hb: "dot_free h" "dot_free b" "dot_free g" "jwt = h @ dot # b @ dot # g"
    using validate_jwt_structureD [OF st] by blast
  have sp: "split_jwt jwt = make_parts h b g"
    using split_jwt_dots [OF hb(1-3)] hb(4) by simp
  have "g = expected_signature cr (jwt_secret (js_config s)) (h @ dot # b)" "jwt_secret (js_config s) \<noteq> []"
    using vs by (simp_all add: sp verify_hmac_signature_iff make_parts_def)
  moreover have "length jwt \<le> 8192"
    using st by (simp add: validate_jwt_structure_def)
  ultimately show thesis
    using that [of h b] hb(4) cc unfolding sp by (simp add: make_parts_def)
qed

text \<open>C32. A token is accepted only when it is \<open>header.payload.signature\<close> of at most 8192 characters
  whose signature is the keyed hash of \<open>header.payload\<close> under the configured, non-empty secret, when
  one of its audiences is allowed, it has not expired, and its identifier is not revoked; and the
  claims handed to the caller are those of the signed payload.\<close>

theorem validate_sound:
  assumes "validate_token cr s now now_at jwt = Inr p"
  shows "\<exists>h b q. jwt = h @ dot # b @ dot #
             base64url_encode (cr_hmac_sha256 cr (bytes_of_string (jwt_secret (js_config s))) (h @ dot # b))
      \<and> jwt_secret (js_config s) \<noteq> [] \<and> length jwt \<le> 8192
      \<and> q = extract_payload (string_of_bytes (base64url_decode b))
      \<and> is_audience_allowed q (allowed_audiences (js_config s)) \<and> now < pl_exp q
      \<and> (pl_jti q = [] \<or> \<not> is_revoked s (pl_jti q))
      \<and> pl_sub p = pl_sub q \<and> pl_iss p = pl_iss q \<and> pl_aud p = pl_aud q \<and> pl_jti p = pl_jti q
      \<and> pl_iat p = pl_iat q \<and> pl_exp p = pl_exp q"
proof -
  obtain h b where hb: "jwt = h @ dot # b @ dot # expected_signature cr (jwt_secret (js_config s)) (h @ dot # b)"
    "jwt_secret (js_config s) \<noteq> []" "length jwt \<le> 8192"
    and cc: "check_claims s now now_at (extract_payload (string_of_bytes (base64url_decode b))) = Inr p"
    using validate_token_Inr [OF assms] by blast
  show ?thesis
    using hb check_claimsD [OF cc] unfolding expected_signature_def
    by (intro exI [of _ h] exI [of _ b] exI [of _ "extract_payload (string_of_bytes (base64url_decode b))"]) simp
qed

theorem validate_sound_witness:
  "\<exists>h b. demo_token = h @ dot # b @ dot # base64url_encode (of_nat (length (h @ dot # b)) # bytes_of_string ''key'')"
proof -
  obtain p where "validate_token echo_crypto demo_session 2000 2000 demo_token = Inr p"
    using demo_accepted by blast
  from validate_sound [OF this] show ?thesis
    by (auto simp: echo_crypto_def demo_session_def)
qed

text \<open>The signature check, which compares every character and accumulates the differences,
  accepts exactly when the secret is set and the presented signature equals the expected one.\<close>

theorem signature_check_exact:
  "verify_hmac_signature cr cfg parts \<longleftrightarrow>
     jwt_secret cfg \<noteq> [] \<and>
     encoded_signature parts
       = base64url_encode (cr_hmac_sha256 cr (bytes_of_string (jwt_secret cfg)) (signing_input parts))"
  by (simp add: verify_hmac_signature_iff expected_signature_def)

subsection \<open>Revocation\<close>

text \<open>What may happen to a session after a token was issued.\<close>

inductive session_step :: "crypto \<Rightarrow> JWTSession \<Rightarrow> JWTSession \<Rightarrow> bool" for cr where
  revoke: "session_step cr s (invalidate_token t jti s)"
| refresh: "session_step cr s (snd (refresh_token cr t1 t2 t3 draw t4 t5 jwt s))"

lemma is_revoked_invalidate:
  "is_revoked (invalidate_token t jti s) j \<longleftrightarrow> (j = jti \<and> jti \<noteq> []) \<or> is_revoked s j"
  by (simp add: invalidate_token_def is_revoked_def)

lemma js_config_invalidate [simp]: "js_config (invalidate_token t jti s) = js_config s"
  by (simp add: invalidate_token_def)

lemma refresh_token_state:
  "snd (refresh_token cr t1 t2 t3 draw t4 t5 jwt s) = s
   \<or> (\<exists>jti. snd (refresh_token cr t1 t2 t3 draw t4 t5 jwt s) = invalidate_token t5 jti s)"
  by (auto simp: refresh_token_def split: sum.splits)

lemma session_step_keeps:
  "session_step cr s s' \<Longrightarrow> js_config s' = js_config s \<and> (is_revoked s j \<longrightarrow> is_revoked s' j)"
proof (induction rule: session_step.induct)
  case (revoke s t jti)
  show ?case by (simp add: is_revoked_invalidate)
next
  case (refresh s t1 t2 t3 draw t4 t5 jwt)
  show ?case
    using refresh_token_state [of cr t1 t2 t3 draw t4 t5 jwt s] by (auto simp: is_revoked_invalidate)
qed

lemma session_steps_keep:
  "(session_step cr)\<^sup>*\<^sup>* s s' \<Longrightarrow> js_config s' = js_config s \<and> (is_revoked s j \<longrightarrow> is_revoked s' j)"
  by (induction rule: rtranclp_induct) (auto dest: session_step_keeps)

lemma revoked_stays_out:
  assumes "validate_token cr s now now_at jwt = Inr p" "pl_jti p \<noteq> []"
    "js_config s' = js_config s" "is_revoked s' (pl_jti p)"
  shows "validate_token cr s' t t' jwt = Inl Token_expired \<or> validate_token cr s' t t' jwt = Inl Token_revoked"
proof -
  let ?q = "extract_payload (string_of_bytes (base64url_decode (encoded_payload (split_jwt jwt))))"
  have cc: "check_claims s now now_at ?q = Inr p"
    using assms(1) by (simp add: validate_token_def split: if_splits)
  have "validate_token cr s' t t' jwt = check_claims s' t t' ?q"
    using assms(1,3) by (simp add: validate_token_def split: if_splits)
  moreover have "pl_jti ?q = pl_jti p"
    using check_claimsD(4) [OF cc] by simp
  ultimately show ?thesis
    using check_claimsD(1) [OF cc] assms(2-4) by (simp add: check_claims_def)
qed

text \<open>C34. A successful refresh hands out a freshly issued token for the same subject and audiences
  and revokes the old one for good: whatever is revoked or refreshed afterwards, and whatever the
  clock says, the old token is rejected as expired or revoked.\<close>

theorem refresh_revokes_for_good:
  assumes "refresh_token cr t1 t2 t3 draw t4 t5 jwt s = (Inr (new, old_jti), s1)"
    and "(session_step cr)\<^sup>*\<^sup>* s1 s2"
  shows "\<exists>p. validate_token cr s t1 t2 jwt = Inr p \<and> pl_jti p = old_jti
      \<and> new = create_token cr (js_config s) t3 draw t4 (pl_sub p) (pl_aud p)
      \<and> validate_token cr s2 now now' jwt \<in> {Inl Token_expired, Inl Token_revoked}"
proof -
  obtain p where p: "validate_token cr s t1 t2 jwt = Inr p" "pl_jti p \<noteq> []" "old_jti = pl_jti p"
    "new = create_token cr (js_config s) t3 draw t4 (pl_sub p) (pl_aud p)"
    "s1 = invalidate_token t5 (pl_jti p) s"
    using assms(1) by (auto simp: refresh_token_def split: sum.splits if_splits)
  have "is_revoked s1 (pl_jti p)" "js_config s1 = js_config s"
    using p(2) by (simp_all add: p(5) is_revoked_invalidate)
  then have "js_config s2 = js_config s" "is_revoked s2 (pl_jti p)"
    using session_steps_keep [OF assms(2), of "pl_jti p"] by simp_all
  from revoked_stays_out [OF p(1,2) this] p show ?thesis by auto
qed

definition demo_refreshed :: "(jwt_error, string \<times> string) expected \<times> JWTSession" where
  "demo_refreshed = refresh_token echo_crypto 2000 2000 2000 (\<lambda>i. 0) 2000 2000 demo_token demo_session"

lemma demo_refresh_ok:
  "\<exists>n j. refresh_token echo_crypto 2000 2000 2000 (\<lambda>i. 0) 2000 2000 demo_token demo_session
           = (Inr (n, j), snd demo_refreshed)"
  using demo_accepted by (auto simp: demo_refreshed_def refresh_token_def)

theorem refresh_revokes_for_good_witness:
  "validate_token echo_crypto (invalidate_token 5 ''other'' (snd demo_refreshed)) 2500 2500 demo_token
     \<in> {Inl Token_expired, Inl Token_revoked}"
proof -
  have step: "(session_step echo_crypto)\<^sup>*\<^sup>* (snd demo_refreshed) (invalidate_token 5 ''other'' (snd demo_refreshed))"
    by (rule r_into_rtranclp, rule session_step.revoke)
  obtain n j where "refresh_token echo_crypto 2000 2000 2000 (\<lambda>i. 0) 2000 2000 demo_token demo_session
      = (Inr (n, j), snd demo_refreshed)"
    using demo_refresh_ok by blast
  from refresh_revokes_for_good [OF this step, of 2500 2500] show ?thesis
    by blast
qed

end
