(* ===== verification/Command_Parser.thy ===== *)
theory Command_Parser
  imports Std_String Std_Map
begin

text \<open>
  The command parser of \<^verbatim>\<open>code/src/cerberus_command_parser.cpp\<close>: the shortcut registry, the
  \<^verbatim>\<open>cerberus://namespace:command::key:value;\<close> form and the short form with \<^verbatim>\<open>--key value\<close> options.

  The registry, a function-local static of the source that \<^verbatim>\<open>register_shortcut\<close> updates, is an
  argument of the parser.  A \<^verbatim>\<open>std::string_view\<close> that shrinks from the left is the remaining text.
  Error strings are constructors of \<open>cmd_error\<close>.
\<close>

subsection \<open>Data\<close>

record CerberusCommand =
  protocol :: string
  cmd_namespace :: string
  command :: string
  params :: "(string, string) smap"
  positional :: "string list"

definition empty_command :: CerberusCommand where
  "empty_command = \<lparr>protocol = [], cmd_namespace = [], command = [], params = [], positional = []\<rparr>"

datatype cmd_error =
    Empty_command | Unknown_format | Invalid_protocol | Expected_namespace_command
  | Namespace_and_command_required | Empty_ergonomic | Unknown_ergonomic string

type_synonym cmd_result = "(cmd_error, CerberusCommand) expected"
type_synonym registry = "(string, string) smap"

definition has_param :: "CerberusCommand \<Rightarrow> string \<Rightarrow> bool" where
  "has_param cmd key \<longleftrightarrow> smap_find (params cmd) key \<noteq> None"

definition get_param :: "CerberusCommand \<Rightarrow> string \<Rightarrow> string \<Rightarrow> string" where
  "get_param cmd key fallback = (case smap_find (params cmd) key of Some v \<Rightarrow> v | None \<Rightarrow> fallback)"

subsection \<open>Shortcuts\<close>

definition builtin_shortcuts :: registry where
  "builtin_shortcuts = smap_of
    [(''cbr:compile'', ''cerberus://graph:compile::path:model.gguf::backend:native;''),
     (''cbr:run'', ''cerberus://graph:execute::backend:native;''),
     (''cbr:status'', ''cerberus://system:status;''),
     (''cbr:backends'', ''cerberus://system:list-backends;''),
     (''cbr:tier-status'', ''cerberus://tier:get-status;''),
     (''cbr:promote'', ''cerberus://tier:promote::tensor:output;''),
     (''cbr:demote'', ''cerberus://tier:demote::tensor:output;''),
     (''cbr:quantize'', ''cerberus://quantize:apply::method:Q4_K_M;''),
     (''cbr:dequantize'', ''cerberus://quantize:remove::method:Q4_K_M;''),
     (''cbr:model-load'', ''cerberus://model:load::path:model.gguf;''),
     (''cbr:model-info'', ''cerberus://model:info;''),
     (''cbr:kernel-list'', ''cerberus://system:list-kernels;''),
     (''cbr:benchmark'', ''cerberus://system:benchmark::backend:native;''),
     (''cbr:help'', ''cerberus://system:help;''),
     (''cbr:version'', ''cerberus://system:version;''),
     (''cbr:predictor-stats'', ''cerberus://system:predictor-stats;''),
     (''cbr:predictor-clear'', ''cerberus://system:predictor-clear;''),
     (''cbr:hash-verify'', ''cerberus://system:hash-verify::tensor:input;''),
     (''cbr:shadow-save'', ''cerberus://tier:shadow-save::tensor:activations;''),
     (''cbr:shadow-restore'', ''cerberus://tier:shadow-restore::tensor:activations;''),
     (''cbr:fusion-enable'', ''cerberus://graph:enable-fusion;''),
     (''cbr:fusion-disable'', ''cerberus://graph:disable-fusion;'')]"

definition expand :: "registry \<Rightarrow> string \<Rightarrow> string" where
  "expand reg shortcut = (case smap_find reg shortcut of Some e \<Rightarrow> e | None \<Rightarrow> [])"

definition register_shortcut :: "string \<Rightarrow> string \<Rightarrow> registry \<Rightarrow> registry" where
  "register_shortcut shortcut expanded reg = smap_put shortcut expanded reg"

subsection \<open>The protocol form\<close>

definition is_protocol_prefix :: "string \<Rightarrow> bool" where
  "is_protocol_prefix sv \<longleftrightarrow> starts_with sv ''cerberus://'' \<or> starts_with sv ''cbr://''"

definition store_pair :: "string \<Rightarrow> CerberusCommand \<Rightarrow> CerberusCommand" where
  "store_pair pair_str cmd =
     (if pair_str = [] then cmd
      else case find_char (CHR '':'') pair_str 0 of
             None \<Rightarrow> cmd\<lparr>positional := positional cmd @ [pair_str]\<rparr>
           | Some eq \<Rightarrow> cmd\<lparr>params := smap_put (trim (take eq pair_str)) (trim (drop (eq + 1) pair_str)) (params cmd)\<rparr>)"

text \<open>One round of the parameter loop: \<open>None\<close> when a semicolon comes before the next separator, which
  leaves the loop with \<^verbatim>\<open>break\<close> before the pair is looked at; otherwise the pair and the rest.\<close>

definition semi_first :: "nat option \<Rightarrow> nat option \<Rightarrow> bool" where
  "semi_first semi sep \<longleftrightarrow>
     (case semi of None \<Rightarrow> False | Some i \<Rightarrow> (case sep of None \<Rightarrow> True | Some j \<Rightarrow> i < j))"

definition next_pair :: "string \<Rightarrow> (string \<times> string) option" where
  "next_pair sv =
     (if semi_first (find_char (CHR '';'') sv 0) (find_str ''::'' sv 0) then None
      else case find_str ''::'' sv 0 of
             Some next_sep \<Rightarrow> Some (take next_sep sv, drop (next_sep + 2) sv)
           | None \<Rightarrow> (case find_char (CHR '';'') sv 0 of Some _ \<Rightarrow> None | None \<Rightarrow> Some (sv, [])))"

lemma next_pair_shorter: "next_pair sv = Some (pair, sv') \<Longrightarrow> sv \<noteq> [] \<Longrightarrow> length sv' < length sv"
  by (auto simp: next_pair_def split: if_splits option.splits)

function param_loop :: "string \<Rightarrow> CerberusCommand \<Rightarrow> CerberusCommand" where
  "param_loop sv cmd =
     (if sv = [] then cmd
      else case next_pair sv of
             None \<Rightarrow> cmd
           | Some (pair, sv') \<Rightarrow> param_loop sv' (store_pair (trim pair) cmd))"
  by pat_completeness auto

termination
  by (relation "measure (\<lambda>(sv, cmd). length sv)") (auto simp: next_pair_shorter)

declare param_loop.simps [simp del]

definition parse_body :: "CerberusCommand \<Rightarrow> string \<Rightarrow> cmd_result" where
  "parse_body cmd sv =
     (let sep = find_str ''::'' sv 0; semi = find_char (CHR '';'') sv 0
      in case sep of
           None \<Rightarrow> Inr (cmd\<lparr>command := trim (case semi of None \<Rightarrow> sv | Some i \<Rightarrow> take i sv)\<rparr>)
         | Some sep_pos \<Rightarrow>
             if semi_first semi sep then Inr (cmd\<lparr>command := trim (take (the semi) sv)\<rparr>)
             else
               (let cmd' = param_loop (drop (sep_pos + 2) sv) (cmd\<lparr>command := trim (take sep_pos sv)\<rparr>)
                in if cmd_namespace cmd' = [] \<or> command cmd' = [] then Inl Namespace_and_command_required
                   else Inr cmd'))"

definition parse_after_prefix :: "string \<Rightarrow> string \<Rightarrow> cmd_result" where
  "parse_after_prefix proto sv =
     (case find_char (CHR '':'') sv 0 of
        None \<Rightarrow> Inl Expected_namespace_command
      | Some colon_pos \<Rightarrow>
          parse_body (empty_command\<lparr>protocol := proto, cmd_namespace := trim (take colon_pos sv)\<rparr>)
            (drop (colon_pos + 1) sv))"

definition parse_protocol :: "string \<Rightarrow> cmd_result" where
  "parse_protocol raw =
     (if starts_with raw ''cerberus://'' then parse_after_prefix ''cerberus'' (drop 11 raw)
      else if starts_with raw ''cbr://'' then parse_after_prefix ''cbr'' (drop 6 raw)
      else Inl Invalid_protocol)"

subsection \<open>The short form\<close>

text \<open>The option loops of the source differ only in the options they know; an option without a value
  and everything else is a positional argument.\<close>

fun apply_options :: "(string \<Rightarrow> bool) \<Rightarrow> string list \<Rightarrow> CerberusCommand \<Rightarrow> CerberusCommand" where
  "apply_options opt [] cmd = cmd"
| "apply_options opt [t] cmd = cmd\<lparr>positional := positional cmd @ [t]\<rparr>"
| "apply_options opt (t # v # ts) cmd =
     (if opt t then apply_options opt ts (cmd\<lparr>params := smap_put (drop 2 t) v (params cmd)\<rparr>)
      else apply_options opt (v # ts) (cmd\<lparr>positional := positional cmd @ [t]\<rparr>))"

definition cbr_command :: "string \<Rightarrow> string \<Rightarrow> CerberusCommand" where
  "cbr_command ns c = empty_command\<lparr>protocol := ''cbr'', cmd_namespace := ns, command := c\<rparr>"

definition short_command :: "string \<Rightarrow> string list \<Rightarrow> cmd_result" where
  "short_command first ts =
     (if first = ''compile'' \<or> first = ''build'' then
        Inr (apply_options (\<lambda>t. t = ''--backend'' \<or> t = ''--quantize'' \<or> t = ''--path'') ts (cbr_command ''graph'' ''compile''))
      else if first = ''run'' \<or> first = ''execute'' then
        Inr (apply_options (\<lambda>t. t = ''--backend'') ts (cbr_command ''graph'' ''execute''))
      else if first = ''status'' \<or> first = ''info'' then
        Inr (cbr_command ''system'' (if first = ''status'' then ''status'' else ''info''))
      else if first = ''promote'' \<or> first = ''demote'' then
        Inr (apply_options (\<lambda>t. t = ''--tensor'') ts (cbr_command ''tier'' first))
      else if first = ''quantize'' then
        Inr (apply_options (\<lambda>t. t = ''--method'') ts (cbr_command ''quantize'' ''apply''))
      else if first = ''load'' \<or> first = ''model-load'' then
        Inr (apply_options (\<lambda>t. t = ''--path'') ts (cbr_command ''model'' ''load''))
      else if first = ''benchmark'' then
        Inr (apply_options (\<lambda>t. t = ''--backend'') ts (cbr_command ''system'' ''benchmark''))
      else if first = ''help'' \<or> first = ''--help'' \<or> first = ''-h'' then
        Inr (cbr_command ''system'' ''help'')
      else if first = ''version'' \<or> first = ''--version'' \<or> first = ''-v'' then
        Inr (cbr_command ''system'' ''version'')
      else Inl (Unknown_ergonomic first))"

definition parse_ergonomic :: "registry \<Rightarrow> string \<Rightarrow> cmd_result" where
  "parse_ergonomic reg raw =
     (case ws_tokens raw of
        [] \<Rightarrow> Inl Empty_ergonomic
      | first # ts \<Rightarrow>
          if starts_with first ''cbr:'' \<and> expand reg first \<noteq> [] then
            (case parse_protocol (expand reg first) of
               Inl e \<Rightarrow> Inl e
             | Inr base_cmd \<Rightarrow> Inr (apply_options (\<lambda>t. starts_with t ''--'') ts base_cmd))
          else short_command first ts)"

definition parse :: "registry \<Rightarrow> string \<Rightarrow> cmd_result" where
  "parse reg raw =
     (let trimmed = trim raw; expanded = expand reg trimmed;
          target = (if expanded = [] then trimmed else expanded)
      in if trimmed = [] then Inl Empty_command
         else if is_protocol_prefix target then parse_protocol target
         else if expanded = [] then
           (case parse_ergonomic reg trimmed of Inr cmd \<Rightarrow> Inr cmd | Inl _ \<Rightarrow> Inl Unknown_format)
         else Inl Unknown_format)"

definition is_valid :: "registry \<Rightarrow> string \<Rightarrow> bool" where
  "is_valid reg raw \<longleftrightarrow> (case parse reg raw of Inr _ \<Rightarrow> True | Inl _ \<Rightarrow> False)"

end
