(* ===== verification/Command_Props.thy ===== *)
theory Command_Props
  imports Command_Parser
begin

text \<open>
  What the command parser does with the texts it is meant for: a command text that is printed from
  a namespace, a command and parameters is parsed back, except that a closing semicolon makes the
  parser drop the last parameter; a line of the short form is parsed back; and every command it
  returns has its texts trimmed.
\<close>

subsection \<open>Printed commands\<close>

definition clean :: "string \<Rightarrow> bool" where
  "clean s \<longleftrightarrow> s \<noteq> [] \<and> CHR '':'' \<notin> set s \<and> CHR '';'' \<notin> set s \<and> \<not> is_space (hd s) \<and> \<not> is_space (last s)"

definition pair_text :: "string \<times> string \<Rightarrow> string" where
  "pair_text kv = fst kv @ CHR '':'' # snd kv"

definition params_text :: "(string \<times> string) list \<Rightarrow> string" where
  "params_text kvs = concat (map (\<lambda>kv. ''::'' @ pair_text kv) kvs)"

definition command_text :: "string \<Rightarrow> string \<Rightarrow> (string \<times> string) list \<Rightarrow> bool \<Rightarrow> string" where
  "command_text ns c kvs semi = ''cerberus://'' @ ns @ CHR '':'' # c @ params_text kvs @ (if semi then '';'' else [])"

definition clean_pair :: "string \<times> string \<Rightarrow> bool" where
  "clean_pair kv \<longleftrightarrow> clean (fst kv) \<and> clean (snd kv)"

lemma clean_trim: "clean s \<Longrightarrow> trim s = s"
  by (simp add: clean_def trim_no_space)

lemma trim_pair_text: "clean_pair kv \<Longrightarrow> trim (pair_text kv) = pair_text kv"
  by (rule trim_no_space) (simp add: pair_text_def clean_pair_def clean_def)

lemma find_char_from0: "find_char c (xs @ ys) 0 = Some i \<Longrightarrow> c \<notin> set xs \<Longrightarrow> length xs \<le> i"
  by (subst (asm) find_char_def, subst (asm) drop_0, subst (asm) find_first_skip) auto

lemma store_pair_text:
  assumes "clean_pair kv"
  shows "store_pair (trim (pair_text kv)) cmd = cmd\<lparr>params := smap_put (fst kv) (snd kv) (params cmd)\<rparr>"
proof -
  have "find_char (CHR '':'') (pair_text kv) 0 = Some (length (fst kv))"
    using assms by (simp add: pair_text_def clean_pair_def clean_def find_char_hit)
  then show ?thesis
    using assms clean_trim [of "fst kv"] clean_trim [of "snd kv"]
    by (simp add: trim_pair_text store_pair_def) (simp add: pair_text_def clean_pair_def)
qed

lemma find_sep_skip:
  assumes "CHR '':'' \<notin> set xs"
  shows "find_str ''::'' (xs @ ys) 0 = map_option ((+) (length xs)) (find_str ''::'' ys 0)"
  using assms by (simp add: find_str_def find_prefix_skip option.map_comp comp_def)

lemma find_sep_pair:
  assumes "clean_pair kv"
  shows "find_str ''::'' (pair_text kv @ ys) 0 = map_option ((+) (length (pair_text kv))) (find_str ''::'' ys 0)"
proof -
  obtain v vs where v: "snd kv = v # vs" "v \<noteq> CHR '':''" "CHR '':'' \<notin> set (v # vs)"
    using assms by (cases "snd kv") (auto simp: clean_pair_def clean_def)
  have "find_prefix ''::'' (CHR '':'' # (v # vs) @ ys) = map_option Suc (find_prefix ''::'' ((v # vs) @ ys))"
    using v(2) by simp
  then have "find_str ''::'' (CHR '':'' # (v # vs) @ ys) 0 = map_option Suc (find_str ''::'' ((v # vs) @ ys) 0)"
    by (simp add: find_str_def option.map_comp comp_def del: find_prefix.simps)
  moreover have "CHR '':'' \<notin> set (fst kv)"
    using assms by (simp add: clean_pair_def clean_def)
  ultimately show ?thesis
    using find_sep_skip [of "fst kv" "CHR '':'' # (v # vs) @ ys"] find_sep_skip [OF v(3), of ys]
    by (simp add: pair_text_def v(1) option.map_comp comp_def del: append_Cons) (cases "find_str ''::'' ys 0"; simp)
qed

lemma find_sep_hit: "find_str ''::'' (''::'' @ ys) 0 = Some 0"
  by (simp add: find_str_def)

lemma find_sep_miss: "CHR '':'' \<notin> set ys \<Longrightarrow> find_str ''::'' ys 0 = None"
  using find_prefix_SomeD [of "''::''" ys]
  by (cases "find_prefix ''::'' ys") (auto simp: find_str_def dest: in_set_takeD in_set_dropD, metis in_set_dropD in_set_takeD list.set_intros(1))

lemma semi_free_pair: "clean_pair kv \<Longrightarrow> CHR '';'' \<notin> set (pair_text kv)"
  by (simp add: clean_pair_def clean_def pair_text_def)

lemma next_pair_sep:
  assumes "clean_pair kv"
  shows "next_pair (pair_text kv @ ''::'' @ ys) = Some (pair_text kv, ys)"
proof -
  have sep: "find_str ''::'' (pair_text kv @ ''::'' @ ys) 0 = Some (length (pair_text kv))"
    unfolding find_sep_pair [OF assms] find_sep_hit by simp
  have "\<not> semi_first (find_char (CHR '';'') (pair_text kv @ ''::'' @ ys) 0) (Some (length (pair_text kv)))"
    using find_char_from0 [of "CHR '';''" "pair_text kv" "''::'' @ ys"] semi_free_pair [OF assms]
    by (fastforce simp: semi_first_def split: option.splits)
  then show ?thesis
    unfolding next_pair_def sep by simp
qed

lemma next_pair_end:
  assumes "clean_pair kv"
  shows "next_pair (pair_text kv) = Some (pair_text kv, [])"
    and "next_pair (pair_text kv @ '';'') = None"
proof -
  have sep: "find_str ''::'' (pair_text kv @ ys) 0 = None" if "CHR '':'' \<notin> set ys" for ys
    unfolding find_sep_pair [OF assms] find_sep_miss [OF that] by simp
  show "next_pair (pair_text kv) = Some (pair_text kv, [])"
    using sep [of "[]"] find_char_miss [OF semi_free_pair [OF assms]]
    by (simp add: next_pair_def semi_first_def)
  show "next_pair (pair_text kv @ '';'') = None"
    using sep [of "'';''"] find_char_hit [OF semi_free_pair [OF assms], of "[]"]
    by (simp add: next_pair_def semi_first_def)
qed

abbreviation closing :: "bool \<Rightarrow> string" where
  "closing semi \<equiv> (if semi then '';'' else [])"

lemma params_text_Cons: "params_text (kv # kvs) = ''::'' @ pair_text kv @ params_text kvs"
  by (simp add: params_text_def)

lemma params_text_Nil [simp]: "params_text [] = []"
  by (simp add: params_text_def)

lemma pair_text_ne: "pair_text kv @ ys \<noteq> []"
  by (simp add: pair_text_def)

lemma param_loop_text:
  assumes "clean_pair kv" "\<forall>kv \<in> set kvs. clean_pair kv"
  shows "param_loop (pair_text kv @ params_text kvs @ closing semi) cmd
    = cmd\<lparr>params := smap_merge (params cmd) (if semi then butlast (kv # kvs) else kv # kvs)\<rparr>"
  using assms
proof (induction kvs arbitrary: kv cmd)
  case Nil
  obtain k v where kv: "kv = (k, v)" by fastforce
  show ?case
  proof (cases semi)
    case True
    then show ?thesis
      using next_pair_end(2) [OF Nil.prems(1)]
      by (subst param_loop.simps) (simp add: smap_merge_def pair_text_ne)
  next
    case False
    have stop: "param_loop [] c = c" for c
      by (simp add: param_loop.simps)
    have "pair_text kv \<noteq> []" using pair_text_ne [of kv "[]"] by simp
    with False show ?thesis
      using next_pair_end(1) [OF Nil.prems(1)] store_pair_text [OF Nil.prems(1), of cmd]
      by (subst param_loop.simps) (simp add: stop smap_merge_def kv)
  qed
next
  case (Cons kv' kvs)
  obtain k v where kv: "kv = (k, v)" by fastforce
  have ok: "clean_pair kv'" "\<forall>kv \<in> set kvs. clean_pair kv"
    using Cons.prems by simp_all
  have "param_loop (pair_text kv @ params_text (kv' # kvs) @ closing semi) cmd
      = param_loop (pair_text kv' @ params_text kvs @ closing semi) (store_pair (trim (pair_text kv)) cmd)"
    using next_pair_sep [OF Cons.prems(1), of "pair_text kv' @ params_text kvs @ closing semi"]
    by (subst param_loop.simps) (simp add: params_text_Cons pair_text_ne)
  also have "\<dots> = cmd\<lparr>params := smap_merge (params cmd) (if semi then butlast (kv # kv' # kvs) else kv # kv' # kvs)\<rparr>"
    unfolding Cons.IH [OF ok] store_pair_text [OF Cons.prems(1)]
    by (simp add: smap_merge_def kv)
  finally show ?case .
qed

lemma parse_body_text:
  assumes "clean c" "\<forall>kv \<in> set kvs. clean_pair kv" "cmd_namespace cmd \<noteq> []" "params cmd = []"
  shows "parse_body cmd (c @ params_text kvs @ closing semi)
    = Inr (cmd\<lparr>command := c, params := smap_of (if semi then butlast kvs else kvs)\<rparr>)"
proof (cases kvs)
  case Nil
  have col: "CHR '':'' \<notin> set (c @ closing semi)" and sc: "CHR '';'' \<notin> set c"
    using assms(1) by (auto simp: clean_def)
  have "(case find_char (CHR '';'') (c @ closing semi) 0 of None \<Rightarrow> c @ closing semi | Some i \<Rightarrow> take i (c @ closing semi)) = c"
    using find_char_hit [OF sc, of "[]"] find_char_miss [OF sc] by simp
  then show ?thesis
    using find_sep_miss [OF col] clean_trim [OF assms(1)] assms(4)
    by (simp add: Nil parse_body_def smap_of_def smap_merge_def)
next
  case (Cons kv kvs')
  let ?sv = "c @ ''::'' @ pair_text kv @ params_text kvs' @ closing semi"
  have c: "CHR '':'' \<notin> set c" "CHR '';'' \<notin> set c" "c \<noteq> []"
    using assms(1) by (simp_all add: clean_def)
  have sep: "find_str ''::'' ?sv 0 = Some (length c)"
    unfolding find_sep_skip [OF c(1)] find_sep_hit by simp
  have semi: "\<not> semi_first (find_char (CHR '';'') ?sv 0) (Some (length c))"
    using find_char_from0 [of "CHR '';''" c "''::'' @ pair_text kv @ params_text kvs' @ closing semi"] c(2)
    by (fastforce simp: semi_first_def split: option.splits)
  have loop: "param_loop (pair_text kv @ params_text kvs' @ closing semi) (cmd\<lparr>command := c\<rparr>)
      = cmd\<lparr>command := c, params := smap_of (if semi then butlast kvs else kvs)\<rparr>"
    using param_loop_text [of kv kvs' semi "cmd\<lparr>command := c\<rparr>"] assms(2,4)
    by (simp add: Cons smap_of_def)
  have sv: "c @ params_text kvs @ closing semi = ?sv"
    by (simp add: Cons params_text_Cons)
  have "drop (length c + 2) ?sv = pair_text kv @ params_text kvs' @ closing semi" "take (length c) ?sv = c"
    by simp_all
  then show ?thesis
    unfolding sv parse_body_def Let_def sep
    using semi clean_trim [OF assms(1)] loop assms(3) c(3) by simp
qed

lemma parse_protocol_text:
  assumes "clean ns" "clean c" "\<forall>kv \<in> set kvs. clean_pair kv"
  shows "parse_protocol (command_text ns c kvs semi)
    = Inr \<lparr>protocol = ''cerberus'', cmd_namespace = ns, command = c,
           params = smap_of (if semi then butlast kvs else kvs), positional = []\<rparr>"
proof -
  let ?body = "c @ params_text kvs @ closing semi"
  have "find_char (CHR '':'') (ns @ CHR '':'' # ?body) 0 = Some (length ns)"
    using assms(1) by (intro find_char_hit) (simp add: clean_def)
  moreover have "cmd_namespace (empty_command\<lparr>protocol := ''cerberus'', cmd_namespace := ns\<rparr>) \<noteq> []"
    using assms(1) by (simp add: clean_def)
  ultimately have "parse_after_prefix ''cerberus'' (ns @ CHR '':'' # ?body)
      = Inr (empty_command\<lparr>protocol := ''cerberus'', cmd_namespace := ns, command := c,
             params := smap_of (if semi then butlast kvs else kvs)\<rparr>)"
    using parse_body_text [OF assms(2,3), of "empty_command\<lparr>protocol := ''cerberus'', cmd_namespace := ns\<rparr>" semi]
      clean_trim [OF assms(1)]
    by (simp add: parse_after_prefix_def empty_command_def)
  then show ?thesis
    by (simp add: parse_protocol_def command_text_def starts_with_def empty_command_def)
qed

lemma last_params_text: "kvs \<noteq> [] \<Longrightarrow> \<forall>kv \<in> set kvs. clean_pair kv \<Longrightarrow> \<not> is_space (last (params_text kvs))"
proof (induction kvs)
  case (Cons kv kvs)
  then show ?case
    by (cases "kvs = []") (simp_all add: params_text_Cons pair_text_def clean_pair_def clean_def last_append)
qed simp

lemma trim_command_text:
  assumes "clean c" "\<forall>kv \<in> set kvs. clean_pair kv"
  shows "trim (command_text ns c kvs semi) = command_text ns c kvs semi"
proof (rule trim_no_space)
  have "\<not> is_space (last (c @ params_text kvs))"
    using assms last_params_text [of kvs] by (cases "params_text kvs = []"; cases kvs) (auto simp: clean_def)
  moreover have "c \<noteq> []" using assms(1) by (simp add: clean_def)
  ultimately show "command_text ns c kvs semi = [] \<or>
      \<not> is_space (hd (command_text ns c kvs semi)) \<and> \<not> is_space (last (command_text ns c kvs semi))"
    by (simp add: command_text_def is_space_def)
qed

text \<open>What the parser makes of a printed command text: when it ends with the semicolon that the grammar
  asks for, the last printed parameter is lost.\<close>

lemma parse_command_text:
  assumes "clean ns" and "clean c" and "\<forall>kv \<in> set kvs. clean_pair kv"
    and "smap_find reg (command_text ns c kvs semi) = None"
  shows "parse reg (command_text ns c kvs semi)
    = Inr \<lparr>protocol = ''cerberus'', cmd_namespace = ns, command = c,
           params = smap_of (if semi then butlast kvs else kvs), positional = []\<rparr>"
proof -
  have "is_protocol_prefix (command_text ns c kvs semi)" "command_text ns c kvs semi \<noteq> []"
    by (simp_all add: is_protocol_prefix_def command_text_def starts_with_def)
  then show ?thesis
    using trim_command_text [OF assms(2,3)] parse_protocol_text [OF assms(1-3)] assms(4)
    by (simp add: parse_def expand_def)
qed

lemma closing_semicolon_loses_parameter:
  "parse [] ''cerberus://tier:promote::tensor:output;''
     = Inr \<lparr>protocol = ''cerberus'', cmd_namespace = ''tier'', command = ''promote'', params = [], positional = []\<rparr>"
  using parse_command_text [of "''tier''" "''promote''" "[(''tensor'', ''output'')]" "[]" True]
  by (simp add: clean_def clean_pair_def is_space_def command_text_def params_text_def pair_text_def
      smap_of_def smap_merge_def)

text \<open>C35. A command text printed from a namespace, a command and any list of parameters, without a closing
  semicolon or, when there are no parameters, with or without it, parses back to exactly that namespace and
  command with exactly those parameters, a later value for a key replacing an earlier one.  The names, keys
  and values are not empty, contain neither colon nor semicolon and do not begin or end with a blank, and
  the text is not itself a registered shortcut.\<close>

theorem protocol_round_trip:
  assumes "clean ns" and "clean c" and "\<forall>kv \<in> set kvs. clean_pair kv"
    and "semi \<longrightarrow> kvs = []"
    and "smap_find reg (command_text ns c kvs semi) = None"
  shows "parse reg (command_text ns c kvs semi)
    = Inr \<lparr>protocol = ''cerberus'', cmd_namespace = ns, command = c, params = smap_of kvs, positional = []\<rparr>"
  using parse_command_text [OF assms(1-3,5)] assms(4) by (auto split: if_splits)

theorem protocol_round_trip_witness:
  "parse [] ''cerberus://tier:promote::tensor:output::to:hot''
     = Inr \<lparr>protocol = ''cerberus'', cmd_namespace = ''tier'', command = ''promote'',
            params = [(''tensor'', ''output''), (''to'', ''hot'')], positional = []\<rparr>"
proof -
  have "smap_of [(''tensor'', ''output''), (''to'', ''hot'')] = [(''tensor'', ''output''), (''to'', ''hot'')]"
    by code_simp
  then show ?thesis
    using protocol_round_trip [of "''tier''" "''promote''" "[(''tensor'', ''output''), (''to'', ''hot'')]" False "[]"]
    by (simp add: clean_def clean_pair_def is_space_def command_text_def params_text_def pair_text_def)
qed

subsection \<open>The short form\<close>
























text \<open>All built-in shortcuts parse, and none of them keeps the parameter before its semicolon.\<close>

lemma builtin_shortcuts_parse:
  "list_all (\<lambda>(s, e). case parse builtin_shortcuts s of Inr cmd \<Rightarrow> length (params cmd) \<le> 1 | Inl _ \<Rightarrow> False)
     builtin_shortcuts"
  by code_simp

subsection \<open>Well-formed commands\<close>

definition wf_command :: "CerberusCommand \<Rightarrow> bool" where
  "wf_command cmd \<longleftrightarrow>
     protocol cmd \<in> {''cerberus'', ''cbr''} \<and>
     trim (cmd_namespace cmd) = cmd_namespace cmd \<and> trim (command cmd) = command cmd \<and>
     smap_wf (params cmd) \<and>
     (\<forall>(k, v) \<in> set (params cmd). trim k = k \<and> trim v = v) \<and>
     (\<forall>p \<in> set (positional cmd). p \<noteq> [] \<and> trim p = p)"

lemma set_smap_put: "x \<in> set (smap_put k v m) \<Longrightarrow> x = (k, v) \<or> x \<in> set m"
  by (induction k v m rule: smap_put.induct) (auto split: if_splits)

lemma wf_command_put:
  "wf_command cmd \<Longrightarrow> trim k = k \<Longrightarrow> trim v = v \<Longrightarrow> wf_command (cmd\<lparr>params := smap_put k v (params cmd)\<rparr>)"
  by (auto simp: wf_command_def dest!: set_smap_put)

lemma wf_command_positional:
  "wf_command cmd \<Longrightarrow> p \<noteq> [] \<Longrightarrow> trim p = p \<Longrightarrow> wf_command (cmd\<lparr>positional := positional cmd @ [p]\<rparr>)"
  by (auto simp: wf_command_def)

lemma wf_command_command: "wf_command cmd \<Longrightarrow> wf_command (cmd\<lparr>command := trim c\<rparr>)"
  by (simp add: wf_command_def)

lemma wf_store_pair: "wf_command cmd \<Longrightarrow> wf_command (store_pair (trim p) cmd)"
  by (auto simp: store_pair_def wf_command_put wf_command_positional split: option.splits)

lemma wf_param_loop: "wf_command cmd \<Longrightarrow> wf_command (param_loop sv cmd)"
proof (induction sv cmd rule: param_loop.induct)
  case (1 sv cmd)
  show ?case
  proof (cases "sv = [] \<or> next_pair sv = None")
    case True
    with "1.prems" show ?thesis by (subst param_loop.simps) auto
  next
    case False
    then obtain pair sv' where np: "sv \<noteq> []" "next_pair sv = Some (pair, sv')" by auto
    with "1.IH" [OF np(1) np(2) refl wf_store_pair [OF "1.prems"]] show ?thesis
      by (subst param_loop.simps) simp
  qed
qed

lemma wf_parse_body: "wf_command cmd \<Longrightarrow> parse_body cmd sv = Inr r \<Longrightarrow> wf_command r"
  by (auto simp: parse_body_def Let_def wf_command_command wf_param_loop split: option.splits if_splits)

lemma wf_parse_protocol: "parse_protocol raw = Inr r \<Longrightarrow> wf_command r"
proof -
  have start: "wf_command (empty_command\<lparr>protocol := p, cmd_namespace := trim n\<rparr>)"
    if "p \<in> {''cerberus'', ''cbr''}" for p n
    using that by (simp add: wf_command_def empty_command_def)
  have "wf_command r" if "p \<in> {''cerberus'', ''cbr''}" "parse_after_prefix p sv = Inr r" for p sv
    using that wf_parse_body [OF start [OF that(1)]] by (auto simp: parse_after_prefix_def split: option.splits)
  then show "parse_protocol raw = Inr r \<Longrightarrow> wf_command r"
    by (auto simp: parse_protocol_def split: if_splits)
qed

lemma token_trim: "t \<in> set (ws_tokens s) \<Longrightarrow> t \<noteq> [] \<and> trim t = t \<and> trim (drop n t) = drop n t"
  using ws_tokens_clean [of t s] by (auto intro!: trim_clean dest: in_set_dropD)

lemma wf_apply_options:
  assumes "wf_command cmd" "\<forall>t \<in> set ts. t \<noteq> [] \<and> trim t = t \<and> trim (drop 2 t) = drop 2 t"
  shows "wf_command (apply_options opt ts cmd)"
  using assms
  by (induction opt ts cmd rule: apply_options.induct)
     (simp_all add: wf_command_put wf_command_positional)

lemma wf_cbr_command: "trim ns = ns \<Longrightarrow> trim c = c \<Longrightarrow> wf_command (cbr_command ns c)"
  by (simp add: wf_command_def cbr_command_def empty_command_def)

lemma trim_words [simp]:
  "trim ''graph'' = ''graph''" "trim ''compile'' = ''compile''" "trim ''execute'' = ''execute''"
  "trim ''system'' = ''system''" "trim ''status'' = ''status''" "trim ''info'' = ''info''"
  "trim ''tier'' = ''tier''" "trim ''quantize'' = ''quantize''" "trim ''apply'' = ''apply''"
  "trim ''model'' = ''model''" "trim ''load'' = ''load''" "trim ''benchmark'' = ''benchmark''"
  "trim ''help'' = ''help''" "trim ''version'' = ''version''" "trim ''promote'' = ''promote''"
  "trim ''demote'' = ''demote''"
  by (rule trim_no_space; simp add: is_space_def)+

lemma case_if_Inr:
  "(case (if c then Inr a else x) of Inl e \<Rightarrow> True | Inr r \<Rightarrow> P r)
     \<longleftrightarrow> (if c then P a else case x of Inl e \<Rightarrow> True | Inr r \<Rightarrow> P r)"
  by simp

lemma wf_short_command:
  assumes "short_command first ts = Inr r" "trim first = first"
    and "\<forall>t \<in> set ts. t \<noteq> [] \<and> trim t = t \<and> trim (drop 2 t) = drop 2 t"
  shows "wf_command r"
proof -
  have opts: "wf_command (apply_options opt ts (cbr_command ns c))" if "trim ns = ns" "trim c = c" for opt ns c
    by (intro wf_apply_options [OF _ assms(3)] wf_cbr_command that)
  have st: "trim (if b then ''status'' else ''info'') = (if b then ''status'' else ''info'')" for b
    by simp
  have "case short_command first ts of Inl e \<Rightarrow> True | Inr r \<Rightarrow> wf_command r"
    unfolding short_command_def case_if_Inr sum.case
    by (intro if_bool_eq_conj [THEN iffD2] conjI impI opts wf_cbr_command trim_words assms(2) st TrueI)
  then show ?thesis
    by (simp add: assms(1))
qed

lemma wf_parse_ergonomic:
  assumes "parse_ergonomic reg raw = Inr r"
  shows "wf_command r"
proof (cases "ws_tokens raw")
  case Nil
  with assms show ?thesis by (simp add: parse_ergonomic_def)
next
  case (Cons first ts)
  have ts: "\<forall>t \<in> set ts. t \<noteq> [] \<and> trim t = t \<and> trim (drop 2 t) = drop 2 t"
    using token_trim [of _ raw] by (simp add: Cons)
  have first: "trim first = first"
    using token_trim [of first raw] by (simp add: Cons)
  show ?thesis
    using assms wf_short_command [OF _ first ts] wf_parse_protocol wf_apply_options [OF _ ts]
    by (auto simp: parse_ergonomic_def Cons split: if_splits sum.splits)
qed

text \<open>Every command the parser returns, whatever the text and the registered shortcuts, is trimmed: its
  protocol is one of the two known ones, its names, parameter keys and values and
  positional arguments carry no surrounding blanks, no positional argument is empty, and its
  parameter table is an ordered map.\<close>

theorem parse_well_formed:
  assumes "parse reg raw = Inr cmd"
  shows "wf_command cmd"
  using assms wf_parse_protocol wf_parse_ergonomic
  by (auto simp: parse_def Let_def split: if_splits sum.splits)

lemma demo_command:
  "parse builtin_shortcuts ''  compile m.gguf --backend npu ''
     = Inr \<lparr>protocol = ''cbr'', cmd_namespace = ''graph'', command = ''compile'',
            params = [(''backend'', ''npu'')], positional = [''m.gguf'']\<rparr>"
  by code_simp

theorem parse_well_formed_witness:
  "wf_command \<lparr>protocol = ''cbr'', cmd_namespace = ''graph'', command = ''compile'',
               params = [(''backend'', ''npu'')], positional = [''m.gguf'']\<rparr>"
  by (rule parse_well_formed [OF demo_command])

text \<open>The check for an empty namespace or command is only reached when there are parameters.\<close>

lemma empty_names_accepted:
  "parse [] ''cbr://:'' = Inr \<lparr>protocol = ''cbr'', cmd_namespace = [], command = [], params = [], positional = []\<rparr>"
  "parse [] ''cbr://:::x:y'' = Inl Namespace_and_command_required"
  by code_simp+

end
