(* ===== verification/Gguf_Parser.thy ===== *)
theory Gguf_Parser
  imports Std_String
begin

text \<open>
  The GGUF metadata parser of \<^verbatim>\<open>code/src/cerberus_gguf_parser.cpp\<close>, on an in-memory stream
  (\<^verbatim>\<open>parse_from_memory\<close> wraps the buffer in a \<^verbatim>\<open>std::istringstream\<close>).

  A stream is its bytes, the read position and one flag for \<^verbatim>\<open>good()\<close>: a short read sets both
  \<^verbatim>\<open>eofbit\<close> and \<^verbatim>\<open>failbit\<close>, a failed seek sets \<^verbatim>\<open>failbit\<close>, nothing clears \<^verbatim>\<open>failbit\<close>, and a read on
  a failed stream reads nothing, so the other bits never matter.  A short read leaves the bytes it
  got in the low end of the zero-initialised variable, as on the little-endian hosts the reader is
  written for.

  \<^verbatim>\<open>std::string::resize\<close> throws when the allocator refuses; the largest length it grants is the
  argument \<open>cap\<close>, and the exception, which no caller in the parser catches, is the outcome \<open>Threw\<close>.
  Skipping nested arrays is recursive in the source and need not end (a string length with the top
  bit set seeks backwards), so \<open>skip_many\<close> is a partial function and \<open>None\<close> is divergence.
\<close>

subsection \<open>Streams\<close>

record mem_stream =
  is_data :: "byte list"
  is_pos :: nat
  is_good :: bool

datatype 'a outcome = Threw | Ret 'a

definition in_read :: "nat \<Rightarrow> mem_stream \<Rightarrow> byte list \<times> mem_stream" where
  "in_read n s =
     (if is_good s then
        (take n (drop (is_pos s) (is_data s)),
         s\<lparr>is_pos := is_pos s + length (take n (drop (is_pos s) (is_data s))),
           is_good := (length (take n (drop (is_pos s) (is_data s))) = n)\<rparr>)
      else ([], s))"

definition in_seek_cur :: "int \<Rightarrow> mem_stream \<Rightarrow> mem_stream" where
  "in_seek_cur off s =
     (if is_good s then
        (if 0 \<le> int (is_pos s) + off \<and> int (is_pos s) + off \<le> int (length (is_data s))
         then s\<lparr>is_pos := nat (int (is_pos s) + off)\<rparr> else s\<lparr>is_good := False\<rparr>)
      else s)"

definition read_word :: "nat \<Rightarrow> mem_stream \<Rightarrow> 'w::len word \<times> mem_stream" where
  "read_word n s = map_prod (\<lambda>bs. of_nat (le_nat bs)) id (in_read n s)"

definition read_u32_le :: "mem_stream \<Rightarrow> u32 \<times> mem_stream" where
  "read_u32_le s = read_word 4 s"

definition read_u64_le :: "mem_stream \<Rightarrow> u64 \<times> mem_stream" where
  "read_u64_le s = read_word 8 s"

text \<open>The string keeps the zero bytes of \<^verbatim>\<open>resize\<close> behind the bytes that were read.\<close>

definition fill_string :: "nat \<Rightarrow> byte list \<Rightarrow> string" where
  "fill_string n bs = string_of_bytes (bs @ replicate (n - length bs) 0)"

definition read_string :: "nat \<Rightarrow> mem_stream \<Rightarrow> (string \<times> mem_stream) outcome" where
  "read_string cap s =
     (case read_u64_le s of (len, s1) \<Rightarrow>
        if unat len \<le> cap then Ret (map_prod (fill_string (unat len)) id (in_read (unat len) s1)) else Threw)"

subsection \<open>Types of the format\<close>

datatype GgmlType =
  F32 | F16 | Q4_0 | Q5_0 | Q8_0 | Q4_K | Q5_K | Q6_K | IQ4_NL | Other_ggml u32

definition ggml_type_of :: "u32 \<Rightarrow> GgmlType" where
  "ggml_type_of r =
     (if r = 0 then F32 else if r = 1 then F16 else if r = 2 then Q4_0 else if r = 6 then Q5_0
      else if r = 7 then Q8_0 else if r = 12 then Q4_K else if r = 13 then Q5_K else if r = 14 then Q6_K
      else if r = 23 then IQ4_NL else Other_ggml r)"

fun ggml_type_name :: "GgmlType \<Rightarrow> string" where
  "ggml_type_name F32 = ''F32''"
| "ggml_type_name F16 = ''F16''"
| "ggml_type_name Q4_0 = ''Q4_0''"
| "ggml_type_name Q5_0 = ''Q5_0''"
| "ggml_type_name Q8_0 = ''Q8_0''"
| "ggml_type_name Q4_K = ''Q4_K''"
| "ggml_type_name Q5_K = ''Q5_K''"
| "ggml_type_name Q6_K = ''Q6_K''"
| "ggml_type_name IQ4_NL = ''IQ4_NL''"
| "ggml_type_name (Other_ggml r) = ''UNKNOWN''"

fun ggml_type_is_quantized :: "GgmlType \<Rightarrow> bool" where
  "ggml_type_is_quantized F32 = False"
| "ggml_type_is_quantized F16 = False"
| "ggml_type_is_quantized (Other_ggml r) = False"
| "ggml_type_is_quantized t = True"

datatype GgufMetadataType =
    UINT8 | INT8 | UINT16 | INT16 | UINT32 | INT32 | FLOAT32 | BOOL | STRING | ARRAY | UINT64 | INT64
  | FLOAT64 | Other_metadata u32

definition metadata_type_of :: "u32 \<Rightarrow> GgufMetadataType" where
  "metadata_type_of r =
     (if r = 0 then UINT8 else if r = 1 then INT8 else if r = 2 then UINT16 else if r = 3 then INT16
      else if r = 4 then UINT32 else if r = 5 then INT32 else if r = 6 then FLOAT32 else if r = 7 then BOOL
      else if r = 8 then STRING else if r = 9 then ARRAY else if r = 10 then UINT64 else if r = 11 then INT64
      else if r = 12 then FLOAT64 else Other_metadata r)"

text \<open>The value variant.  A floating-point value is kept as the bits that were read; a 32-bit float,
  which the source widens to a \<^verbatim>\<open>double\<close>, is marked as such.\<close>

datatype gguf_double = Widened u32 | Double u64

datatype gguf_variant =
  V_uint64 u64 | V_int64 u64 | V_double gguf_double | V_bool bool | V_string string

record GgufMetadataValue =
  mv_key :: string
  mv_type :: GgufMetadataType
  mv_value :: gguf_variant

record GgufTensorInfo =
  ti_name :: string
  ti_shape :: "u64 list"
  ti_dtype :: GgmlType
  offset_in_file :: u64
  size_bytes :: u64

record GgufHeader =
  gh_magic :: u32
  gh_version :: u32
  tensor_count :: u64
  metadata_kv_count :: u64

record GgufParser =
  gp_header :: GgufHeader
  gp_tensors :: "GgufTensorInfo list"
  gp_metadata :: "GgufMetadataValue list"

definition num_elements :: "u64 list \<Rightarrow> u64" where
  "num_elements shape = foldl (\<lambda>n d. n * d) 1 shape"

definition isValid :: "GgufHeader \<Rightarrow> bool" where
  "isValid h \<longleftrightarrow> (gh_magic h = 0x46554747 \<or> gh_magic h = 0x47475546) \<and> gh_version h = 3"

definition isLittleEndian :: "GgufHeader \<Rightarrow> bool" where
  "isLittleEndian h \<longleftrightarrow> gh_magic h = 0x46554747"

definition reset :: GgufParser where
  "reset = \<lparr>gp_header = \<lparr>gh_magic = 0, gh_version = 0, tensor_count = 0, metadata_kv_count = 0\<rparr>,
            gp_tensors = [], gp_metadata = []\<rparr>"

subsection \<open>Skipping values\<close>

text \<open>The byte widths of the scalar types; a string seeks over its characters, and a type number the
  enumeration does not have consumes nothing.\<close>

fun skip_scalar :: "GgufMetadataType \<Rightarrow> mem_stream \<Rightarrow> mem_stream" where
  "skip_scalar UINT8 s = snd (in_read 1 s)"
| "skip_scalar INT8 s = snd (in_read 1 s)"
| "skip_scalar UINT16 s = snd (in_read 2 s)"
| "skip_scalar INT16 s = snd (in_read 2 s)"
| "skip_scalar UINT32 s = snd (in_read 4 s)"
| "skip_scalar INT32 s = snd (in_read 4 s)"
| "skip_scalar FLOAT32 s = snd (in_read 4 s)"
| "skip_scalar BOOL s = snd (in_read 1 s)"
| "skip_scalar UINT64 s = snd (in_read 8 s)"
| "skip_scalar INT64 s = snd (in_read 8 s)"
| "skip_scalar FLOAT64 s = snd (in_read 8 s)"
| "skip_scalar STRING s =
     (case read_u64_le s of (len, s1) \<Rightarrow> if 0 < len then in_seek_cur (sint len) s1 else s1)"
| "skip_scalar ARRAY s = s"
| "skip_scalar (Other_metadata r) s = s"

definition read_array_head :: "mem_stream \<Rightarrow> GgufMetadataType \<times> nat \<times> mem_stream" where
  "read_array_head s =
     (case read_u32_le s of (t, s1) \<Rightarrow> (case read_u64_le s1 of (n, s2) \<Rightarrow> (metadata_type_of t, unat n, s2)))"

text \<open>\<open>skip_many s ty n\<close> skips \<open>n\<close> values of type \<open>ty\<close> and stops at the first failure: the array loop of
  \<^verbatim>\<open>skip_metadata_value\<close>, whose body is \<^verbatim>\<open>skip_metadata_value\<close> itself.\<close>

partial_function (option) skip_many :: "mem_stream \<Rightarrow> GgufMetadataType \<Rightarrow> nat \<Rightarrow> (bool \<times> mem_stream) option" where
  "skip_many s ty n =
     (if n = 0 then Some (True, s)
      else Option.bind
        (if ty = ARRAY then
           (case read_array_head s of (ty', n', s') \<Rightarrow>
              Option.bind (skip_many s' ty' n') (\<lambda>(ok, s''). Some (ok \<and> is_good s'', s'')))
         else Some (is_good (skip_scalar ty s), skip_scalar ty s))
        (\<lambda>(ok, s'). if ok then skip_many s' ty (n - 1) else Some (False, s')))"

declare skip_many.simps [code]

definition skip_metadata_value :: "mem_stream \<Rightarrow> GgufMetadataType \<Rightarrow> (bool \<times> mem_stream) option" where
  "skip_metadata_value s ty = skip_many s ty 1"

text \<open>The loop of \<^verbatim>\<open>parse_metadata_kv\<close> over an array does not look at the result of a skip.\<close>

primrec skip_array :: "nat \<Rightarrow> GgufMetadataType \<Rightarrow> mem_stream \<Rightarrow> mem_stream option" where
  "skip_array 0 ty s = Some s"
| "skip_array (Suc n) ty s =
     (case skip_metadata_value s ty of None \<Rightarrow> None | Some (_, s') \<Rightarrow> skip_array n ty s')"

subsection \<open>Parsing\<close>

definition read_signed :: "nat \<Rightarrow> mem_stream \<Rightarrow> gguf_variant \<times> mem_stream" where
  "read_signed n s =
     (if n = 1 then map_prod (\<lambda>w :: 8 word. V_int64 (scast w)) id (read_word 1 s)
      else if n = 2 then map_prod (\<lambda>w :: 16 word. V_int64 (scast w)) id (read_word 2 s)
      else if n = 4 then map_prod (\<lambda>w :: 32 word. V_int64 (scast w)) id (read_word 4 s)
      else map_prod V_int64 id (read_word 8 s))"

fun read_scalar :: "GgufMetadataType \<Rightarrow> mem_stream \<Rightarrow> gguf_variant \<times> mem_stream" where
  "read_scalar UINT8 s = map_prod V_uint64 id (read_word 1 s)"
| "read_scalar INT8 s = read_signed 1 s"
| "read_scalar UINT16 s = map_prod V_uint64 id (read_word 2 s)"
| "read_scalar INT16 s = read_signed 2 s"
| "read_scalar UINT32 s = map_prod V_uint64 id (read_word 4 s)"
| "read_scalar INT32 s = read_signed 4 s"
| "read_scalar FLOAT32 s = map_prod (\<lambda>w. V_double (Widened w)) id (read_word 4 s)"
| "read_scalar BOOL s = map_prod (\<lambda>w :: byte. V_bool (w \<noteq> 0)) id (read_word 1 s)"
| "read_scalar UINT64 s = map_prod V_uint64 id (read_word 8 s)"
| "read_scalar INT64 s = read_signed 8 s"
| "read_scalar FLOAT64 s = map_prod (\<lambda>w. V_double (Double w)) id (read_word 8 s)"
| "read_scalar STRING s = (V_uint64 0, s)"
| "read_scalar ARRAY s = (V_uint64 0, s)"
| "read_scalar (Other_metadata r) s = (V_uint64 0, s)"

text \<open>The value of a metadata entry: strings may throw, arrays may diverge; the variant of a type number
  outside the enumeration stays the default \<^verbatim>\<open>uint64_t\<close> zero.\<close>

definition read_value :: "nat \<Rightarrow> GgufMetadataType \<Rightarrow> mem_stream \<Rightarrow> (gguf_variant \<times> mem_stream) outcome option" where
  "read_value cap ty s =
     (if ty = STRING then
        Some (case read_string cap s of Threw \<Rightarrow> Threw | Ret (v, s') \<Rightarrow> Ret (V_string v, s'))
      else if ty = ARRAY then
        (case read_array_head s of (ty', n, s') \<Rightarrow>
           (case skip_array n ty' s' of None \<Rightarrow> None | Some s'' \<Rightarrow> Some (Ret (V_string ''[array]'', s''))))
      else Some (Ret (read_scalar ty s)))"

definition parse_metadata_kv ::
    "nat \<Rightarrow> mem_stream \<Rightarrow> GgufParser \<Rightarrow> (bool \<times> mem_stream \<times> GgufParser) outcome option" where
  "parse_metadata_kv cap s p =
     (case read_string cap s of
        Threw \<Rightarrow> Some Threw
      | Ret (key, s1) \<Rightarrow>
          (case read_u32_le s1 of (type_raw, s2) \<Rightarrow>
             (case read_value cap (metadata_type_of type_raw) s2 of
                None \<Rightarrow> None
              | Some Threw \<Rightarrow> Some Threw
              | Some (Ret (v, s3)) \<Rightarrow>
                  if \<not> is_good s3 then Some (Ret (False, s3, p))
                  else Some (Ret (True, s3,
                         p\<lparr>gp_metadata := gp_metadata p @
                           [\<lparr>mv_key = key, mv_type = metadata_type_of type_raw, mv_value = v\<rparr>]\<rparr>)))))"

primrec read_shape :: "nat \<Rightarrow> mem_stream \<Rightarrow> u64 list \<times> mem_stream" where
  "read_shape 0 s = ([], s)"
| "read_shape (Suc n) s =
     (case read_u64_le s of (dim, s1) \<Rightarrow> (case read_shape n s1 of (ds, s2) \<Rightarrow> (dim # ds, s2)))"

definition tensor_size :: "GgmlType \<Rightarrow> u64 list \<Rightarrow> u64" where
  "tensor_size dt shape =
     (if ggml_type_is_quantized dt then num_elements shape div 2 + 32 else num_elements shape * 4)"

definition parse_tensor_info ::
    "nat \<Rightarrow> mem_stream \<Rightarrow> GgufParser \<Rightarrow> (bool \<times> mem_stream \<times> GgufParser) outcome" where
  "parse_tensor_info cap s p =
     (case read_string cap s of
        Threw \<Rightarrow> Threw
      | Ret (name, s1) \<Rightarrow>
          (case read_u32_le s1 of (ndim, s2) \<Rightarrow>
          (case read_shape (unat ndim) s2 of (shape, s3) \<Rightarrow>
          (case read_u32_le s3 of (dtype_raw, s4) \<Rightarrow>
          (case read_u64_le s4 of (offs, s5) \<Rightarrow>
             Ret (is_good s5, s5,
                  p\<lparr>gp_tensors := gp_tensors p @
                    [\<lparr>ti_name = name, ti_shape = shape, ti_dtype = ggml_type_of dtype_raw,
                      offset_in_file = offs, size_bytes = tensor_size (ggml_type_of dtype_raw) shape\<rparr>]\<rparr>))))))"

primrec kv_loop :: "nat \<Rightarrow> nat \<Rightarrow> mem_stream \<Rightarrow> GgufParser \<Rightarrow> (bool \<times> mem_stream \<times> GgufParser) outcome option" where
  "kv_loop cap 0 s p = Some (Ret (True, s, p))"
| "kv_loop cap (Suc n) s p =
     (case parse_metadata_kv cap s p of
        None \<Rightarrow> None
      | Some Threw \<Rightarrow> Some Threw
      | Some (Ret (ok, s', p')) \<Rightarrow> if ok then kv_loop cap n s' p' else Some (Ret (False, s', p')))"

primrec tensor_loop :: "nat \<Rightarrow> nat \<Rightarrow> mem_stream \<Rightarrow> GgufParser \<Rightarrow> (bool \<times> mem_stream \<times> GgufParser) outcome" where
  "tensor_loop cap 0 s p = Ret (True, s, p)"
| "tensor_loop cap (Suc n) s p =
     (case parse_tensor_info cap s p of
        Threw \<Rightarrow> Threw
      | Ret (ok, s', p') \<Rightarrow> if ok then tensor_loop cap n s' p' else Ret (False, s', p'))"

definition drop_stream :: "(bool \<times> mem_stream \<times> GgufParser) outcome \<Rightarrow> (bool \<times> GgufParser) outcome" where
  "drop_stream r = (case r of Threw \<Rightarrow> Threw | Ret (ok, s, p) \<Rightarrow> Ret (ok, p))"

definition parse_stream :: "nat \<Rightarrow> mem_stream \<Rightarrow> GgufParser \<Rightarrow> (bool \<times> GgufParser) outcome option" where
  "parse_stream cap s p =
     (case read_u32_le s of (mg, s1) \<Rightarrow>
     (case read_u32_le s1 of (ver, s2) \<Rightarrow>
        if \<not> isValid ((gp_header p)\<lparr>gh_magic := mg, gh_version := ver\<rparr>)
        then Some (Ret (False, p\<lparr>gp_header := (gp_header p)\<lparr>gh_magic := mg, gh_version := ver\<rparr>\<rparr>))
        else
          (case read_u64_le s2 of (tc, s3) \<Rightarrow>
          (case read_u64_le s3 of (kc, s4) \<Rightarrow>
          (case kv_loop cap (unat kc) s4
              (p\<lparr>gp_header := \<lparr>gh_magic = mg, gh_version = ver, tensor_count = tc, metadata_kv_count = kc\<rparr>\<rparr>) of
             None \<Rightarrow> None
           | Some Threw \<Rightarrow> Some Threw
           | Some (Ret (ok, s5, p5)) \<Rightarrow>
               if ok then Some (drop_stream (tensor_loop cap (unat tc) s5 p5)) else Some (Ret (False, p5)))))))"

definition parse_from_memory :: "nat \<Rightarrow> byte list \<Rightarrow> (bool \<times> GgufParser) outcome option" where
  "parse_from_memory cap data =
     (if data = [] then Some (Ret (False, reset))
      else parse_stream cap \<lparr>is_data = data, is_pos = 0, is_good = True\<rparr> reset)"

subsection \<open>Accessors\<close>

definition tensors_with_type :: "GgmlType \<Rightarrow> GgufParser \<Rightarrow> GgufTensorInfo list" where
  "tensors_with_type t p = filter (\<lambda>ti. ti_dtype ti = t) (gp_tensors p)"

fun as_string :: "gguf_variant \<Rightarrow> string option" where
  "as_string (V_string s) = Some s"
| "as_string v = None"

fun as_uint64 :: "gguf_variant \<Rightarrow> u64 option" where
  "as_uint64 (V_uint64 w) = Some w"
| "as_uint64 v = None"

fun as_int64 :: "gguf_variant \<Rightarrow> u64 option" where
  "as_int64 (V_int64 w) = Some w"
| "as_int64 v = None"

fun as_double :: "gguf_variant \<Rightarrow> gguf_double option" where
  "as_double (V_double d) = Some d"
| "as_double v = None"

fun first_value :: "(gguf_variant \<Rightarrow> 'a option) \<Rightarrow> string \<Rightarrow> GgufMetadataValue list \<Rightarrow> 'a option" where
  "first_value hold key [] = None"
| "first_value hold key (kv # kvs) =
     (if mv_key kv = key \<and> hold (mv_value kv) \<noteq> None then hold (mv_value kv) else first_value hold key kvs)"

definition get_metadata_string :: "string \<Rightarrow> GgufParser \<Rightarrow> string option" where
  "get_metadata_string key p = first_value as_string key (gp_metadata p)"

definition get_metadata_uint64 :: "string \<Rightarrow> GgufParser \<Rightarrow> u64 option" where
  "get_metadata_uint64 key p = first_value as_uint64 key (gp_metadata p)"

definition get_metadata_int64 :: "string \<Rightarrow> GgufParser \<Rightarrow> u64 option" where
  "get_metadata_int64 key p = first_value as_int64 key (gp_metadata p)"

definition get_metadata_double :: "string \<Rightarrow> GgufParser \<Rightarrow> gguf_double option" where
  "get_metadata_double key p = first_value as_double key (gp_metadata p)"

text \<open>The accessors try their keys in order.\<close>

fun first_of :: "('k \<Rightarrow> 'a option) \<Rightarrow> 'k list \<Rightarrow> 'a option" where
  "first_of f [] = None"
| "first_of f (k # ks) = (case f k of Some v \<Rightarrow> Some v | None \<Rightarrow> first_of f ks)"

definition get_architecture :: "GgufParser \<Rightarrow> string option" where
  "get_architecture p = first_of (\<lambda>k. get_metadata_string k p) [''general.architecture'', ''qwen3.architecture'']"

definition get_block_count :: "GgufParser \<Rightarrow> u64 option" where
  "get_block_count p =
     first_of (\<lambda>k. get_metadata_uint64 k p) [''qwen3.block_count'', ''llama.block_count'', ''general.block_count'']"

definition get_embedding_length :: "GgufParser \<Rightarrow> u64 option" where
  "get_embedding_length p =
     first_of (\<lambda>k. get_metadata_uint64 k p)
       [''qwen3.embedding_length'', ''llama.embedding_length'', ''general.embedding_length'']"

definition get_context_length :: "GgufParser \<Rightarrow> u64 option" where
  "get_context_length p =
     first_of (\<lambda>k. get_metadata_uint64 k p)
       [''qwen3.context_length'', ''llama.context_length'', ''general.context_length'']"

definition get_rope_freq_base :: "GgufParser \<Rightarrow> gguf_double option" where
  "get_rope_freq_base p =
     first_of (\<lambda>k. get_metadata_double k p)
       [''qwen3.rope.freq_base'', ''llama.rope.freq_base'', ''general.rope.freq_base'', ''qwen3.rope_freq_base'']"

definition get_vocab_size :: "GgufParser \<Rightarrow> u64 option" where
  "get_vocab_size p =
     first_of (\<lambda>k. get_metadata_uint64 k p)
       [''qwen3.vocab_size'', ''llama.vocab_size'', ''tokenizer.ggml.vocab_size'']"

definition get_tokenizer_model :: "GgufParser \<Rightarrow> string option" where
  "get_tokenizer_model p =
     first_of (\<lambda>k. get_metadata_string k p) [''tokenizer.ggml.model'', ''qwen3.tokenizer_model'']"

definition file_type_family :: "string \<Rightarrow> string option" where
  "file_type_family ft =
     (if contains ''Q4_K'' ft \<or> contains ''15'' ft then Some ''Q4_K_M''
      else if contains ''IQ4_NL'' ft \<or> contains ''25'' ft then Some ''IQ4_NL''
      else if contains ''Q5_K'' ft then Some ''Q5_K_M''
      else None)"

definition tensor_family :: "GgufParser \<Rightarrow> string option" where
  "tensor_family p =
     (let q4_k = length (tensors_with_type Q4_K p); q5_k = length (tensors_with_type Q5_K p);
          iq4_nl = length (tensors_with_type IQ4_NL p)
      in if 0 < q4_k \<and> q5_k = 0 \<and> iq4_nl = 0 then Some ''Q4_K_M''
         else if 0 < q5_k \<and> q4_k = 0 \<and> iq4_nl = 0 then Some ''Q5_K_M''
         else if 0 < iq4_nl \<and> q4_k = 0 \<and> q5_k = 0 then Some ''IQ4_NL''
         else if 0 < q4_k then Some ''Q4_K_M''
         else None)"

definition detect_quantization_family :: "GgufParser \<Rightarrow> string option" where
  "detect_quantization_family p =
     (case Option.bind (get_metadata_string ''general.file_type'' p) file_type_family of
        Some f \<Rightarrow> Some f
      | None \<Rightarrow> tensor_family p)"

definition detect_model_family :: "GgufParser \<Rightarrow> string option" where
  "detect_model_family p =
     (case Option.bind (get_architecture p)
         (\<lambda>arch. if contains ''qwen'' arch then Some ''qwen3'' else if contains ''llama'' arch then Some ''llama'' else None) of
        Some f \<Rightarrow> Some f
      | None \<Rightarrow>
          Option.bind (get_metadata_string ''general.basename'' p)
            (\<lambda>b. if contains ''Athenea'' b \<or> contains ''athenea'' b then Some ''athenea-qwen3''
                 else if contains ''Qwen'' b then Some ''qwen3'' else None))"

text \<open>Reading a slice of a tensor from the model file, given by its bytes, or \<open>None\<close> when it cannot be
  opened.  A file stream seeks past the end without failing and then reads nothing; an offset with the
  top bit set is negative and fails.  The result is the count and the resized output buffer.\<close>

definition resize_bytes :: "nat \<Rightarrow> byte list \<Rightarrow> byte list" where
  "resize_bytes n bs = take n bs @ replicate (n - length bs) 0"

definition slice_bytes :: "byte list \<Rightarrow> u64 \<Rightarrow> nat \<Rightarrow> byte list \<Rightarrow> nat \<times> byte list" where
  "slice_bytes content start to_read out_data =
     (let got = take to_read (drop (unat start) content)
      in (length got, got @ drop (length got) (resize_bytes to_read out_data)))"

definition load_tensor_slice ::
    "nat \<Rightarrow> byte list option \<Rightarrow> string \<Rightarrow> u64 \<Rightarrow> u64 \<Rightarrow> byte list \<Rightarrow> GgufParser \<Rightarrow> (nat \<times> byte list) outcome" where
  "load_tensor_slice cap file tensor_name byte_offset max_bytes out_data p =
     (case find (\<lambda>ti. ti_name ti = tensor_name) (gp_tensors p) of
        None \<Rightarrow> Ret (0, out_data)
      | Some info \<Rightarrow>
          (case file of
             None \<Rightarrow> Ret (0, out_data)
           | Some content \<Rightarrow>
               if sint (offset_in_file info + byte_offset) < 0 then Ret (0, out_data)
               else if unat (min max_bytes (size_bytes info - byte_offset)) \<le> cap
               then Ret (slice_bytes content (offset_in_file info + byte_offset)
                           (unat (min max_bytes (size_bytes info - byte_offset))) out_data)
               else Threw))"

end
