(* ===== verification/Gguf_Props.thy ===== *)
theory Gguf_Props
  imports Gguf_Parser
begin

text \<open>
  The GGUF parser reads back what a writer of the format puts into a file: \<open>encode_file\<close> is the
  layout of the format, and parsing an encoded file ends, succeeds and returns the entries and the
  tensor table.  On a crafted file the skipping of nested arrays never ends.
\<close>

subsection \<open>Reading what lies ahead\<close>

definition adv :: "nat \<Rightarrow> mem_stream \<Rightarrow> mem_stream" where
  "adv n s = s\<lparr>is_pos := is_pos s + n\<rparr>"

definition ahead :: "mem_stream \<Rightarrow> byte list \<Rightarrow> bool" where
  "ahead s bs \<longleftrightarrow> is_good s \<and> drop (is_pos s) (is_data s) = bs"

lemma adv_adv [simp]: "adv m (adv n s) = adv (n + m) s"
  by (simp add: adv_def add.assoc)

lemma adv_0 [simp]: "adv 0 s = s"
  by (simp add: adv_def)

lemma ahead_good: "ahead s bs \<Longrightarrow> is_good s"
  by (simp add: ahead_def)

lemma ahead_adv: "ahead s (bs @ rest) \<Longrightarrow> ahead (adv (length bs) s) rest"
  unfolding ahead_def adv_def
  by (metis (no_types, lifting) add.commute append_eq_conv_conj drop_drop mem_stream.select_convs(1-3)
      mem_stream.simps(6,7,8) mem_stream.surjective mem_stream.update_convs(2))

lemma in_read_ahead:
  assumes "ahead s (bs @ rest)"
  shows "in_read (length bs) s = (bs, adv (length bs) s)"
proof -
  have "take (length bs) (drop (is_pos s) (is_data s)) = bs" and good: "is_good s"
    using assms by (simp_all add: ahead_def)
  then show ?thesis
    by (simp add: in_read_def adv_def)
qed

lemma read_word_ahead:
  assumes "ahead s (le_bytes n v @ rest)" "v < 256 ^ n"
  shows "read_word n s = (of_nat v, adv n s)"
  using in_read_ahead [OF assms(1)] assms(2) by (simp add: read_word_def le_nat_le_bytes)

lemma ahead_le: "ahead s (le_bytes n v @ rest) \<Longrightarrow> ahead (adv n s) rest"
  using ahead_adv [of s "le_bytes n v"] by simp

lemma read_u32_ahead:
  assumes "ahead s (le_bytes 4 (unat w) @ rest)"
  shows "read_u32_le s = (w, adv 4 s)"
proof -
  have "(read_word 4 s :: u32 \<times> mem_stream) = (of_nat (unat w), adv 4 s)"
    using unsigned_less [of w, where 'a = nat] by (intro read_word_ahead [OF assms]) simp
  then show ?thesis by (simp add: read_u32_le_def)
qed

lemma read_u64_ahead:
  assumes "ahead s (le_bytes 8 (unat w) @ rest)"
  shows "read_u64_le s = (w, adv 8 s)"
proof -
  have "(read_word 8 s :: u64 \<times> mem_stream) = (of_nat (unat w), adv 8 s)"
    using unsigned_less [of w, where 'a = nat] by (intro read_word_ahead [OF assms]) simp
  then show ?thesis by (simp add: read_u64_le_def)
qed

lemma read_u64_nat:
  assumes "ahead s (le_bytes 8 n @ rest)" "n < 2 ^ 64"
  shows "read_u64_le s = (of_nat n, adv 8 s)"
  using read_word_ahead [OF assms(1)] assms(2) by (simp add: read_u64_le_def)

lemma unat_of_nat64: "n < 2 ^ 64 \<Longrightarrow> unat (of_nat n :: u64) = n"
  by (simp add: unat_of_nat take_bit_nat_eq_self)

definition encode_string :: "string \<Rightarrow> byte list" where
  "encode_string x = le_bytes 8 (length x) @ bytes_of_string x"

lemma length_encode_string [simp]: "length (encode_string x) = 8 + length x"
  by (simp add: encode_string_def)

lemma read_string_ahead:
  assumes "ahead s (encode_string x @ rest)" "length x \<le> cap" "length x < 2 ^ 64"
  shows "read_string cap s = Ret (x, adv (8 + length x) s)"
proof -
  have s1: "ahead s (le_bytes 8 (length x) @ bytes_of_string x @ rest)"
    using assms(1) by (simp add: encode_string_def)
  have "in_read (length x) (adv 8 s) = (bytes_of_string x, adv (8 + length x) s)"
    using in_read_ahead [OF ahead_le [OF s1]] by simp
  then show ?thesis
    using read_u64_nat [OF s1 assms(3)] assms(2) unat_of_nat64 [OF assms(3)]
    by (simp add: read_string_def fill_string_def)
qed

subsection \<open>The layout of a value\<close>

text \<open>A writer's view of a metadata value: a number of a given type, a string, or an array whose
  elements have one type.\<close>

datatype gguf_value = G_num GgufMetadataType u64 | G_str string | G_arr GgufMetadataType "gguf_value list"

fun type_code :: "GgufMetadataType \<Rightarrow> u32" where
  "type_code UINT8 = 0"
| "type_code INT8 = 1"
| "type_code UINT16 = 2"
| "type_code INT16 = 3"
| "type_code UINT32 = 4"
| "type_code INT32 = 5"
| "type_code FLOAT32 = 6"
| "type_code BOOL = 7"
| "type_code STRING = 8"
| "type_code ARRAY = 9"
| "type_code UINT64 = 10"
| "type_code INT64 = 11"
| "type_code FLOAT64 = 12"
| "type_code (Other_metadata r) = r"

fun width :: "GgufMetadataType \<Rightarrow> nat" where
  "width UINT8 = 1"
| "width INT8 = 1"
| "width BOOL = 1"
| "width UINT16 = 2"
| "width INT16 = 2"
| "width UINT32 = 4"
| "width INT32 = 4"
| "width FLOAT32 = 4"
| "width UINT64 = 8"
| "width INT64 = 8"
| "width FLOAT64 = 8"
| "width t = 0"

fun value_type :: "gguf_value \<Rightarrow> GgufMetadataType" where
  "value_type (G_num ty w) = ty"
| "value_type (G_str x) = STRING"
| "value_type (G_arr ty vs) = ARRAY"

fun encode_value :: "gguf_value \<Rightarrow> byte list" where
  "encode_value (G_num ty w) = le_bytes (width ty) (unat w)"
| "encode_value (G_str x) = encode_string x"
| "encode_value (G_arr ty vs) =
     le_bytes 4 (unat (type_code ty)) @ le_bytes 8 (length vs) @ concat (map encode_value vs)"

definition known_type :: "GgufMetadataType \<Rightarrow> bool" where
  "known_type ty \<longleftrightarrow> (\<forall>r. ty \<noteq> Other_metadata r)"

fun wf_value :: "gguf_value \<Rightarrow> bool" where
  "wf_value (G_num ty w) \<longleftrightarrow> 0 < width ty \<and> unat w < 256 ^ width ty"
| "wf_value (G_str x) \<longleftrightarrow> length x < 2 ^ 63"
| "wf_value (G_arr ty vs) \<longleftrightarrow>
     known_type ty \<and> length vs < 2 ^ 64 \<and> (\<forall>v \<in> set vs. value_type v = ty \<and> wf_value v)"

lemma metadata_type_of_code: "known_type ty \<Longrightarrow> metadata_type_of (type_code ty) = ty"
  by (cases ty) (simp_all add: metadata_type_of_def known_type_def)

lemma num_type: "0 < width ty \<Longrightarrow> ty \<noteq> STRING \<and> ty \<noteq> ARRAY \<and> known_type ty"
  by (cases ty) (simp_all add: known_type_def)

lemma in_seek_ahead:
  assumes "ahead s (bs @ rest)" "bs \<noteq> []"
  shows "in_seek_cur (int (length bs)) s = adv (length bs) s"
proof -
  have good: "is_good s" and d: "drop (is_pos s) (is_data s) = bs @ rest"
    using assms(1) by (simp_all add: ahead_def)
  have "length bs \<le> length (is_data s) - is_pos s"
    using arg_cong [OF d, of length] by simp
  moreover have "0 < length bs"
    using assms(2) by simp
  ultimately have "is_pos s + length bs \<le> length (is_data s)"
    by linarith
  then show ?thesis
    using good by (simp add: in_seek_cur_def adv_def nat_int_add)
qed

lemma sint_small: "n < 2 ^ 63 \<Longrightarrow> sint (of_nat n :: u64) = int n"
  by (simp add: sint_uint signed_take_bit_eq_if_positive bit_uint_iff take_bit_int_eq_self
      word_eq_iff_unsigned take_bit_nat_eq_self uint_nat unat_of_nat bit_iff_odd)

lemma skip_num_ahead:
  assumes "ahead s (le_bytes (width ty) v @ rest)" "0 < width ty"
  shows "skip_scalar ty s = adv (width ty) s"
  using in_read_ahead [OF assms(1)] assms(2) by (cases ty) simp_all

lemma skip_string_ahead:
  assumes "ahead s (encode_string x @ rest)" "length x < 2 ^ 63"
  shows "skip_scalar STRING s = adv (8 + length x) s"
proof -
  have s1: "ahead s (le_bytes 8 (length x) @ bytes_of_string x @ rest)"
    using assms(1) by (simp add: encode_string_def)
  have rd: "read_u64_le s = (of_nat (length x), adv 8 s)"
    using read_u64_nat [OF s1] assms(2) by simp
  show ?thesis
  proof (cases "x = []")
    case True
    with rd show ?thesis by simp
  next
    case False
    then have "0 < (of_nat (length x) :: u64)"
      using assms(2) unat_of_nat64 [of "length x"] by (simp add: word_less_nat_alt)
    moreover have "in_seek_cur (int (length x)) (adv 8 s) = adv (8 + length x) s"
      using in_seek_ahead [OF ahead_le [OF s1]] False by simp
    ultimately show ?thesis
      using rd sint_small [OF assms(2)] by simp
  qed
qed

subsection \<open>Skipping encoded values\<close>

lemma read_array_head_ahead:
  assumes "ahead s (le_bytes 4 (unat (type_code ty)) @ le_bytes 8 n @ rest)" "known_type ty" "n < 2 ^ 64"
  shows "read_array_head s = (ty, n, adv 12 s)" "ahead (adv 12 s) rest"
proof -
  have s1: "ahead (adv 4 s) (le_bytes 8 n @ rest)"
    by (rule ahead_le [OF assms(1)])
  show "read_array_head s = (ty, n, adv 12 s)"
    using read_u32_ahead [OF assms(1)] read_u64_nat [OF s1 assms(3)] unat_of_nat64 [OF assms(3)]
      metadata_type_of_code [OF assms(2)]
    by (simp add: read_array_head_def)
  show "ahead (adv 12 s) rest"
    using ahead_le [OF s1] by simp
qed

lemma skip_one_scalar:
  assumes "wf_value v" "value_type v \<noteq> ARRAY" "ahead s (encode_value v @ rest)"
  shows "skip_scalar (value_type v) s = adv (length (encode_value v)) s"
  using assms by (cases v) (simp_all add: skip_num_ahead skip_string_ahead del: skip_scalar.simps)

text \<open>Skipping the elements of an encoded array moves to its end.\<close>

lemma skip_many_ahead:
  assumes "\<forall>v \<in> set vs. value_type v = ty \<and> wf_value v" "ahead s (concat (map encode_value vs) @ rest)"
  shows "skip_many s ty (length vs) = Some (True, adv (length (concat (map encode_value vs))) s)"
  using assms
proof (induction "size_list size vs" arbitrary: vs ty s rest rule: less_induct)
  case less
  show ?case
  proof (cases vs)
    case Nil
    then show ?thesis by (subst skip_many.simps) simp
  next
    case (Cons v vs')
    let ?n = "length (encode_value v)"
    have v: "wf_value v" "value_type v = ty" and vs': "\<forall>v \<in> set vs'. value_type v = ty \<and> wf_value v"
      using less.prems(1) by (simp_all add: Cons)
    have s: "ahead s (encode_value v @ concat (map encode_value vs') @ rest)"
      using less.prems(2) by (simp add: Cons)
    have next_s: "ahead (adv ?n s) (concat (map encode_value vs') @ rest)"
      by (rule ahead_adv [OF s])
    have tail: "skip_many (adv ?n s) ty (length vs') = Some (True, adv (?n + length (concat (map encode_value vs'))) s)"
      using less.hyps [OF _ vs' next_s] by (simp add: Cons)
    show ?thesis
    proof (cases "ty = ARRAY")
      case False
      then have "skip_scalar ty s = adv ?n s"
        using skip_one_scalar [OF v(1) _ s] v(2) by simp
      then show ?thesis
        using False tail ahead_good [OF next_s] by (subst skip_many.simps) (simp add: Cons)
    next
      case True
      then obtain ty' us where us: "v = G_arr ty' us"
        using v by (cases v) (simp_all add: num_type)
      have wf: "known_type ty'" "length us < 2 ^ 64" "\<forall>u \<in> set us. value_type u = ty' \<and> wf_value u"
        using v(1) by (simp_all add: us)
      have s': "ahead s (le_bytes 4 (unat (type_code ty')) @ le_bytes 8 (length us) @
          concat (map encode_value us) @ concat (map encode_value vs') @ rest)"
        using s by (simp add: us)
      note head = read_array_head_ahead [OF s' wf(1,2)]
      have "size_list size us < size_list size vs"
        by (simp add: Cons us)
      from less.hyps [OF this wf(3) head(2)]
      have inner: "skip_many (adv 12 s) ty' (length us) = Some (True, adv ?n s)"
        by (simp add: us)
      show ?thesis
        using True head(1) inner tail ahead_good [OF next_s]
        by (subst skip_many.simps) (simp add: Cons)
    qed
  qed
qed

lemma skip_array_ahead:
  assumes "\<forall>v \<in> set vs. value_type v = ty \<and> wf_value v" "ahead s (concat (map encode_value vs) @ rest)"
  shows "skip_array (length vs) ty s = Some (adv (length (concat (map encode_value vs))) s)"
  using assms
proof (induction vs arbitrary: s)
  case (Cons v vs)
  have s: "ahead s (encode_value v @ concat (map encode_value vs) @ rest)"
    using Cons.prems(2) by simp
  have "skip_metadata_value s ty = Some (True, adv (length (encode_value v)) s)"
    using skip_many_ahead [of "[v]" ty s] s Cons.prems(1) by (simp add: skip_metadata_value_def)
  then show ?case
    using Cons.IH [OF _ ahead_adv [OF s]] Cons.prems(1) by simp
qed simp

subsection \<open>Reading encoded entries\<close>

fun number_value :: "GgufMetadataType \<Rightarrow> u64 \<Rightarrow> gguf_variant" where
  "number_value INT8 w = V_int64 (scast (ucast w :: 8 word))"
| "number_value INT16 w = V_int64 (scast (ucast w :: 16 word))"
| "number_value INT32 w = V_int64 (scast (ucast w :: 32 word))"
| "number_value INT64 w = V_int64 w"
| "number_value FLOAT32 w = V_double (Widened (ucast w))"
| "number_value FLOAT64 w = V_double (Double w)"
| "number_value BOOL w = V_bool (w \<noteq> 0)"
| "number_value t w = V_uint64 w"

fun stored_value :: "gguf_value \<Rightarrow> gguf_variant" where
  "stored_value (G_num ty w) = number_value ty w"
| "stored_value (G_str x) = V_string x"
| "stored_value (G_arr ty vs) = V_string ''[array]''"

lemma byte_zero_iff: "unat (w :: u64) < 256 \<Longrightarrow> (ucast w :: byte) = 0 \<longleftrightarrow> w = 0"
proof -
  assume "unat w < 256"
  then have "unat (ucast w :: byte) = unat w"
    by (simp add: unsigned_ucast_eq take_bit_nat_eq_self)
  then show ?thesis
    by (metis unat_eq_zero)
qed

lemma read_num_ahead:
  assumes "ahead s (le_bytes (width ty) (unat w) @ rest)" "0 < width ty" "unat w < 256 ^ width ty"
  shows "read_scalar ty s = (number_value ty w, adv (width ty) s)"
proof -
  have r1: "(read_word (width ty) s :: byte \<times> mem_stream) = (of_nat (unat w), adv (width ty) s)"
    by (rule read_word_ahead [OF assms(1,3)])
  have r2: "(read_word (width ty) s :: 16 word \<times> mem_stream) = (of_nat (unat w), adv (width ty) s)"
    by (rule read_word_ahead [OF assms(1,3)])
  have r4: "(read_word (width ty) s :: u32 \<times> mem_stream) = (of_nat (unat w), adv (width ty) s)"
    by (rule read_word_ahead [OF assms(1,3)])
  have r8: "(read_word (width ty) s :: u64 \<times> mem_stream) = (of_nat (unat w), adv (width ty) s)"
    by (rule read_word_ahead [OF assms(1,3)])
  show ?thesis
    using assms(2,3) r1 r2 r4 r8
    by (cases ty) (simp_all add: read_signed_def byte_zero_iff)
qed

lemma read_value_ahead:
  assumes "ahead s (encode_value v @ rest)" "wf_value v" "\<And>x. v = G_str x \<Longrightarrow> length x \<le> cap"
  shows "read_value cap (value_type v) s = Some (Ret (stored_value v, adv (length (encode_value v)) s))"
proof (cases v)
  case (G_num ty w)
  then show ?thesis
    using read_num_ahead [of s ty w rest] assms(1,2) num_type [of ty] by (simp add: read_value_def)
next
  case (G_str x)
  then show ?thesis
    using read_string_ahead [of s x rest cap] assms by (simp add: read_value_def)
next
  case (G_arr ty vs)
  then have s: "ahead s (le_bytes 4 (unat (type_code ty)) @ le_bytes 8 (length vs) @
      concat (map encode_value vs) @ rest)"
    and wf: "known_type ty" "length vs < 2 ^ 64" "\<forall>v \<in> set vs. value_type v = ty \<and> wf_value v"
    using assms by simp_all
  note head = read_array_head_ahead [OF s wf(1,2)]
  show ?thesis
    using G_arr head(1) skip_array_ahead [OF wf(3) head(2)] by (simp add: read_value_def)
qed

subsection \<open>Files\<close>

definition encode_entry :: "string \<times> gguf_value \<Rightarrow> byte list" where
  "encode_entry e = encode_string (fst e) @ le_bytes 4 (unat (type_code (value_type (snd e)))) @ encode_value (snd e)"

definition stored_entry :: "string \<times> gguf_value \<Rightarrow> GgufMetadataValue" where
  "stored_entry e = \<lparr>mv_key = fst e, mv_type = value_type (snd e), mv_value = stored_value (snd e)\<rparr>"

definition fits_cap :: "nat \<Rightarrow> string \<Rightarrow> bool" where
  "fits_cap cap x \<longleftrightarrow> length x \<le> cap \<and> length x < 2 ^ 63"

definition wf_entry :: "nat \<Rightarrow> string \<times> gguf_value \<Rightarrow> bool" where
  "wf_entry cap e \<longleftrightarrow> fits_cap cap (fst e) \<and> wf_value (snd e)
     \<and> (case snd e of G_str x \<Rightarrow> length x \<le> cap | _ \<Rightarrow> True)"

record tensor_entry =
  te_name :: string
  te_shape :: "u64 list"
  te_dtype :: u32
  te_offset :: u64

definition encode_tensor :: "tensor_entry \<Rightarrow> byte list" where
  "encode_tensor t = encode_string (te_name t) @ le_bytes 4 (length (te_shape t)) @
     concat (map (\<lambda>d. le_bytes 8 (unat d)) (te_shape t)) @ le_bytes 4 (unat (te_dtype t)) @
     le_bytes 8 (unat (te_offset t))"

definition stored_tensor :: "tensor_entry \<Rightarrow> GgufTensorInfo" where
  "stored_tensor t = \<lparr>ti_name = te_name t, ti_shape = te_shape t, ti_dtype = ggml_type_of (te_dtype t),
     offset_in_file = te_offset t, size_bytes = tensor_size (ggml_type_of (te_dtype t)) (te_shape t)\<rparr>"

definition wf_tensor :: "nat \<Rightarrow> tensor_entry \<Rightarrow> bool" where
  "wf_tensor cap t \<longleftrightarrow> fits_cap cap (te_name t) \<and> length (te_shape t) < 2 ^ 32"

definition encode_file :: "(string \<times> gguf_value) list \<Rightarrow> tensor_entry list \<Rightarrow> byte list" where
  "encode_file kvs ts = le_bytes 4 0x46554747 @ le_bytes 4 3 @ le_bytes 8 (length ts) @ le_bytes 8 (length kvs) @
     concat (map encode_entry kvs) @ concat (map encode_tensor ts)"

lemma value_type_known: "wf_value v \<Longrightarrow> known_type (value_type v)"
  by (cases v) (simp_all add: num_type, simp_all add: known_type_def)

lemma parse_kv_ahead:
  assumes "ahead s (encode_entry e @ rest)" "wf_entry cap e"
  shows "parse_metadata_kv cap s p = Some (Ret (True, adv (length (encode_entry e)) s,
           p\<lparr>gp_metadata := gp_metadata p @ [stored_entry e]\<rparr>))"
proof -
  obtain k v where e: "e = (k, v)" by fastforce
  let ?ty = "type_code (value_type v)"
  have wf: "length k \<le> cap" "length k < 2 ^ 64" "wf_value v" "\<And>x. v = G_str x \<Longrightarrow> length x \<le> cap"
    using assms(2) by (auto simp: wf_entry_def fits_cap_def e)
  have s0: "ahead s (encode_string k @ le_bytes 4 (unat ?ty) @ encode_value v @ rest)"
    using assms(1) by (simp add: encode_entry_def e)
  have s1: "ahead (adv (8 + length k) s) (le_bytes 4 (unat ?ty) @ encode_value v @ rest)"
    using ahead_adv [OF s0] by simp
  have s2: "ahead (adv (12 + length k) s) (encode_value v @ rest)"
    using ahead_le [OF s1] by (simp add: add.commute)
  have s3: "ahead (adv (12 + length k + length (encode_value v)) s) rest"
    using ahead_adv [OF s2] by simp
  have "read_u32_le (adv (8 + length k) s) = (?ty, adv (12 + length k) s)"
    using read_u32_ahead [OF s1] by (simp add: add.commute)
  moreover have "read_value cap (value_type v) (adv (12 + length k) s)
      = Some (Ret (stored_value v, adv (12 + length k + length (encode_value v)) s))"
    using read_value_ahead [OF s2 wf(3,4)] by simp
  ultimately show ?thesis
    using read_string_ahead [OF s0 wf(1,2)] ahead_good [OF s3]
      metadata_type_of_code [OF value_type_known [OF wf(3)]]
    by (simp add: parse_metadata_kv_def e stored_entry_def encode_entry_def add.assoc)
qed

lemma kv_loop_ahead:
  assumes "ahead s (concat (map encode_entry kvs) @ rest)" "\<forall>e \<in> set kvs. wf_entry cap e"
  shows "kv_loop cap (length kvs) s p = Some (Ret (True, adv (length (concat (map encode_entry kvs))) s,
           p\<lparr>gp_metadata := gp_metadata p @ map stored_entry kvs\<rparr>))"
  using assms
proof (induction kvs arbitrary: s p)
  case (Cons e kvs)
  have s: "ahead s (encode_entry e @ concat (map encode_entry kvs) @ rest)"
    using Cons.prems(1) by simp
  show ?case
    using parse_kv_ahead [OF s, of cap p] Cons.IH [OF ahead_adv [OF s]] Cons.prems(2) by simp
qed simp

lemma read_shape_ahead:
  assumes "ahead s (concat (map (\<lambda>d. le_bytes 8 (unat d)) ds) @ rest)"
  shows "read_shape (length ds) s = (ds, adv (8 * length ds) s)"
  using assms
proof (induction ds arbitrary: s)
  case (Cons d ds)
  have s: "ahead s (le_bytes 8 (unat d) @ concat (map (\<lambda>d. le_bytes 8 (unat d)) ds) @ rest)"
    using Cons.prems by simp
  show ?case
    using read_u64_ahead [OF s] Cons.IH [OF ahead_le [OF s]] by simp
qed simp

lemma length_shape_bytes: "length (concat (map (\<lambda>d. le_bytes 8 (f d)) ds)) = 8 * length ds"
  by (induction ds) simp_all

lemma parse_tensor_ahead:
  assumes "ahead s (encode_tensor t @ rest)" "wf_tensor cap t"
  shows "parse_tensor_info cap s p = Ret (True, adv (length (encode_tensor t)) s,
           p\<lparr>gp_tensors := gp_tensors p @ [stored_tensor t]\<rparr>)"
proof -
  let ?k = "te_name t" and ?ds = "te_shape t"
  have wf: "length ?k \<le> cap" "length ?k < 2 ^ 64" "length ?ds < 2 ^ 32"
    using assms(2) by (simp_all add: wf_tensor_def fits_cap_def)
  have s0: "ahead s (encode_string ?k @ le_bytes 4 (length ?ds) @
      concat (map (\<lambda>d. le_bytes 8 (unat d)) ?ds) @ le_bytes 4 (unat (te_dtype t)) @
      le_bytes 8 (unat (te_offset t)) @ rest)"
    using assms(1) by (simp add: encode_tensor_def)
  note s1 = ahead_adv [OF s0, unfolded length_encode_string]
  note s2 = ahead_le [OF s1]
  note s3 = ahead_adv [OF s2, unfolded length_shape_bytes]
  note s4 = ahead_le [OF s3]
  note s5 = ahead_le [OF s4]
  have nd: "unat (of_nat (length ?ds) :: u32) = length ?ds"
    using wf(3) by (simp add: unat_of_nat take_bit_nat_eq_self)
  then have "read_u32_le (adv (8 + length ?k) s) = (of_nat (length ?ds), adv 4 (adv (8 + length ?k) s))"
    using read_u32_ahead [of "adv (8 + length ?k) s" "of_nat (length ?ds)"] s1 by simp
  then show ?thesis
    using read_string_ahead [OF s0 wf(1,2)] read_shape_ahead [OF s2] read_u32_ahead [OF s3]
      read_u64_ahead [OF s4] ahead_good [OF s5] nd
    by (simp add: parse_tensor_info_def stored_tensor_def encode_tensor_def length_shape_bytes add_ac)
qed

lemma tensor_loop_ahead:
  assumes "ahead s (concat (map encode_tensor ts) @ rest)" "\<forall>t \<in> set ts. wf_tensor cap t"
  shows "tensor_loop cap (length ts) s p = Ret (True, adv (length (concat (map encode_tensor ts))) s,
           p\<lparr>gp_tensors := gp_tensors p @ map stored_tensor ts\<rparr>)"
  using assms
proof (induction ts arbitrary: s p)
  case (Cons t ts)
  have s: "ahead s (encode_tensor t @ concat (map encode_tensor ts) @ rest)"
    using Cons.prems(1) by simp
  show ?case
    using parse_tensor_ahead [OF s, of cap p] Cons.IH [OF ahead_adv [OF s]] Cons.prems(2) by simp
qed simp

text \<open>C37. A file that holds well-formed metadata entries and a tensor table in the layout of the
  format parses to the end, and the parser returns exactly its entries (numbers widened to 64 bits,
  arrays replaced by a place holder) and its tensors, in order.  The strings have to be no longer
  than the allocator grants and shorter than \<open>2 ^ 63\<close>.\<close>

theorem gguf_round_trip:
  assumes "\<forall>e \<in> set kvs. wf_entry cap e" and "\<forall>t \<in> set ts. wf_tensor cap t"
    and "length kvs < 2 ^ 64" and "length ts < 2 ^ 64"
  shows "parse_from_memory cap (encode_file kvs ts) = Some (Ret (True,
    \<lparr>gp_header = \<lparr>gh_magic = 0x46554747, gh_version = 3, tensor_count = of_nat (length ts),
                  metadata_kv_count = of_nat (length kvs)\<rparr>,
     gp_tensors = map stored_tensor ts, gp_metadata = map stored_entry kvs\<rparr>))"
proof -
  let ?s = "\<lparr>is_data = encode_file kvs ts, is_pos = 0, is_good = True\<rparr>"
  have s0: "ahead ?s (le_bytes 4 (unat (0x46554747 :: u32)) @ le_bytes 4 (unat (3 :: u32)) @
      le_bytes 8 (length ts) @ le_bytes 8 (length kvs) @
      concat (map encode_entry kvs) @ concat (map encode_tensor ts) @ [])"
    by (simp add: ahead_def encode_file_def)
  note s1 = ahead_le [OF s0]
  note s2 = ahead_le [OF s1]
  note s3 = ahead_le [OF s2]
  note s4 = ahead_le [OF s3]
  note s5 = ahead_adv [OF s4]
  have ne: "encode_file kvs ts \<noteq> []"
    using length_le_bytes [of 4 "0x46554747"] by (auto simp: encode_file_def simp del: length_le_bytes)
  show ?thesis
    using read_u32_ahead [OF s0] read_u32_ahead [OF s1] read_u64_nat [OF s2 assms(4)]
      read_u64_nat [OF s3 assms(3)] kv_loop_ahead [OF s4 assms(1)] tensor_loop_ahead [OF s5 assms(2)]
      unat_of_nat64 [OF assms(3)] unat_of_nat64 [OF assms(4)] ne
    by (simp add: parse_from_memory_def parse_stream_def isValid_def reset_def drop_stream_def)
qed

theorem gguf_round_trip_witness:
  "parse_from_memory 100
     (encode_file [(''n'', G_num INT8 0xFF), (''a'', G_arr STRING [G_str ''x'', G_str []])]
        [\<lparr>te_name = ''w'', te_shape = [2, 3], te_dtype = 12, te_offset = 64\<rparr>])
   = Some (Ret (True,
       \<lparr>gp_header = \<lparr>gh_magic = 0x46554747, gh_version = 3, tensor_count = 1, metadata_kv_count = 2\<rparr>,
        gp_tensors = [\<lparr>ti_name = ''w'', ti_shape = [2, 3], ti_dtype = Q4_K, offset_in_file = 64, size_bytes = 35\<rparr>],
        gp_metadata = [\<lparr>mv_key = ''n'', mv_type = INT8, mv_value = V_int64 (- 1)\<rparr>,
                       \<lparr>mv_key = ''a'', mv_type = ARRAY, mv_value = V_string ''[array]''\<rparr>]\<rparr>))"
  using gguf_round_trip [of "[(''n'', G_num INT8 0xFF), (''a'', G_arr STRING [G_str ''x'', G_str []])]" 100
      "[\<lparr>te_name = ''w'', te_shape = [2, 3], te_dtype = 12, te_offset = 64\<rparr>]"]
  by (simp add: wf_entry_def fits_cap_def wf_tensor_def known_type_def stored_entry_def stored_tensor_def
      ggml_type_of_def tensor_size_def num_elements_def)

subsection \<open>A file that is never parsed\<close>

text \<open>The value of the only entry is an array of one array of two arrays, the first of which holds one
  string of length \<open>- 32\<close>: skipping it seeks back to the head of the second-level array, which is then
  read again as the second element, one level deeper each time.\<close>

definition looping_file :: "byte list" where
  "looping_file = le_bytes 4 0x46554747 @ le_bytes 4 3 @ le_bytes 8 0 @ le_bytes 8 1 @
     le_bytes 8 0 @ le_bytes 4 9 @ le_bytes 4 9 @ le_bytes 8 1 @
     le_bytes 4 9 @ le_bytes 8 2 @ le_bytes 4 8 @ le_bytes 8 1 @ le_bytes 8 0xFFFFFFFFFFFFFFE0"

definition at_pos :: "nat \<Rightarrow> mem_stream" where
  "at_pos n = \<lparr>is_data = looping_file, is_pos = n, is_good = True\<rparr>"

lemma adv_at_pos [simp]: "adv k (at_pos n) = at_pos (n + k)"
  by (simp add: adv_def at_pos_def)

lemma ahead_at_pos: "looping_file = pre @ post \<Longrightarrow> n = length pre \<Longrightarrow> ahead (at_pos n) post"
  by (metis ahead_def append_eq_conv_conj at_pos_def mem_stream.select_convs)

lemma looping_heads:
  "read_array_head (at_pos 36) = (ARRAY, 1, at_pos 48)"
  "read_array_head (at_pos 48) = (ARRAY, 2, at_pos 60)"
  "read_array_head (at_pos 60) = (STRING, 1, at_pos 72)"
proof -
  let ?p = "le_bytes 4 0x46554747 @ le_bytes 4 3 @ le_bytes 8 0 @ le_bytes 8 1 @ le_bytes 8 0 @ le_bytes 4 9"
  have a: "ahead (at_pos 36) (le_bytes 4 (unat (type_code ARRAY)) @ le_bytes 8 1 @
      le_bytes 4 9 @ le_bytes 8 2 @ le_bytes 4 8 @ le_bytes 8 1 @ le_bytes 8 0xFFFFFFFFFFFFFFE0)"
    by (rule ahead_at_pos [of ?p]) (simp_all add: looping_file_def)
  have b: "ahead (at_pos 48) (le_bytes 4 (unat (type_code ARRAY)) @ le_bytes 8 2 @
      le_bytes 4 8 @ le_bytes 8 1 @ le_bytes 8 0xFFFFFFFFFFFFFFE0)"
    by (rule ahead_at_pos [of "?p @ le_bytes 4 9 @ le_bytes 8 1"]) (simp_all add: looping_file_def)
  have c: "ahead (at_pos 60) (le_bytes 4 (unat (type_code STRING)) @ le_bytes 8 1 @ le_bytes 8 0xFFFFFFFFFFFFFFE0)"
    by (rule ahead_at_pos [of "?p @ le_bytes 4 9 @ le_bytes 8 1 @ le_bytes 4 9 @ le_bytes 8 2"])
       (simp_all add: looping_file_def)
  show "read_array_head (at_pos 36) = (ARRAY, 1, at_pos 48)"
    "read_array_head (at_pos 48) = (ARRAY, 2, at_pos 60)"
    "read_array_head (at_pos 60) = (STRING, 1, at_pos 72)"
    using read_array_head_ahead(1) [OF a] read_array_head_ahead(1) [OF b] read_array_head_ahead(1) [OF c]
    by (simp_all add: known_type_def)
qed

lemma looping_seek: "skip_scalar STRING (at_pos 72) = at_pos 48"
proof -
  have "ahead (at_pos 72) (le_bytes 8 0xFFFFFFFFFFFFFFE0 @ [])"
    by (rule ahead_at_pos [of "le_bytes 4 0x46554747 @ le_bytes 4 3 @ le_bytes 8 0 @ le_bytes 8 1 @ le_bytes 8 0 @
          le_bytes 4 9 @ le_bytes 4 9 @ le_bytes 8 1 @ le_bytes 4 9 @ le_bytes 8 2 @ le_bytes 4 8 @ le_bytes 8 1"])
       (simp_all add: looping_file_def)
  from read_u64_nat [OF this] have "read_u64_le (at_pos 72) = (0xFFFFFFFFFFFFFFE0, at_pos 80)"
    by simp
  then show ?thesis
    by (simp add: in_seek_cur_def at_pos_def looping_file_def)
qed

text \<open>By fixed point induction no approximation of the skipping loop returns from the second-level
  array.\<close>

definition stuck :: "mem_stream \<Rightarrow> GgufMetadataType \<Rightarrow> nat \<Rightarrow> bool \<times> mem_stream \<Rightarrow> bool" where
  "stuck s ty n r \<longleftrightarrow>
     (s = at_pos 48 \<and> ty = ARRAY \<longrightarrow> n = 0) \<and>
     (s = at_pos 60 \<and> ty = ARRAY \<longrightarrow> n \<noteq> 2) \<and>
     (s = at_pos 72 \<and> ty = STRING \<and> n = 1 \<longrightarrow> r = (True, at_pos 48)) \<and>
     (s = at_pos 48 \<and> ty = STRING \<and> n = 0 \<longrightarrow> r = (True, at_pos 48))"

lemma skip_many_looping:
  assumes "skip_many s ty n = Some r"
  shows "stuck s ty n r"
proof (rule skip_many.raw_induct [of stuck, OF _ assms])
  fix skip s ty n r
  assume IH': "\<And>s ty n r. skip s ty n = Some r \<Longrightarrow> stuck s ty n r"
    and body: "(if n = 0 then Some (True, s)
      else Option.bind
        (if ty = ARRAY then
           (case read_array_head s of (ty', n', s') \<Rightarrow>
              Option.bind (skip s' ty' n') (\<lambda>(ok, s''). Some (ok \<and> is_good s'', s'')))
         else Some (is_good (skip_scalar ty s), skip_scalar ty s))
        (\<lambda>(ok, s'). if ok then skip s' ty (n - 1) else Some (False, s'))) = Some r"
  note IH = IH' [unfolded stuck_def]
  have good: "is_good (at_pos k)" for k
    by (simp add: at_pos_def)
  have end_str: "r = (True, at_pos 48)" if "s = at_pos 48" "ty = STRING" "n = 0"
    using body that by simp
  have str: "r = (True, at_pos 48)" if "s = at_pos 72" "ty = STRING" "n = 1"
  proof -
    have "skip (at_pos 48) STRING 0 = Some r"
      using body that by (simp add: looping_seek good del: skip_scalar.simps)
    from IH [OF this] show ?thesis by simp
  qed
  have inner: False if case60: "s = at_pos 60" "ty = ARRAY" "n = 2"
  proof -
    obtain r1 where r1: "skip (at_pos 72) STRING 1 = Some r1"
      "(if fst r1 \<and> is_good (snd r1) then skip (snd r1) ARRAY 1 else Some (False, snd r1)) = Some r"
      using body case60 by (auto simp: looping_heads bind_eq_Some_conv cong: if_cong)
    then have "skip (at_pos 48) ARRAY 1 = Some r"
      using IH [OF r1(1)] good by simp
    from IH [OF this] show False by simp
  qed
  have outer: "n = 0" if case48: "s = at_pos 48" "ty = ARRAY"
  proof (rule ccontr)
    assume "n \<noteq> 0"
    then obtain r1 where "skip (at_pos 60) ARRAY 2 = Some r1"
      using body case48 by (auto simp: looping_heads bind_eq_Some_conv)
    from IH [OF this] show False by simp
  qed
  from end_str str inner outer show "stuck s ty n r"
    unfolding stuck_def by blast
qed

text \<open>On a crafted file of 80 bytes the parser never returns: an array element whose string length
  has the top bit set moves the read position backwards, and the nested skip calls itself without end.
  (The recursion of the source exhausts the stack.)\<close>

theorem looping_file_diverges: "parse_from_memory cap looping_file = None"
proof -
  have div: "skip_metadata_value (at_pos 48) ARRAY = None"
    using skip_many_looping [of "at_pos 48" ARRAY 1]
    by (cases "skip_many (at_pos 48) ARRAY 1") (auto simp: skip_metadata_value_def stuck_def)
  have s0: "ahead (at_pos 0) (le_bytes 4 (unat (0x46554747 :: u32)) @ le_bytes 4 (unat (3 :: u32)) @
      le_bytes 8 0 @ le_bytes 8 1 @ encode_string [] @ le_bytes 4 (unat (9 :: u32)) @ le_bytes 4 9 @ le_bytes 8 1 @
      le_bytes 4 9 @ le_bytes 8 2 @ le_bytes 4 8 @ le_bytes 8 1 @ le_bytes 8 0xFFFFFFFFFFFFFFE0)"
    by (rule ahead_at_pos [of "[]"]) (simp_all add: looping_file_def encode_string_def bytes_of_string_def)
  note s1 = ahead_le [OF s0]
  note s2 = ahead_le [OF s1]
  note s3 = ahead_le [OF s2]
  note s4 = ahead_le [OF s3]
  note s5 = ahead_adv [OF s4]
  have kv: "parse_metadata_kv cap (at_pos 24) p = None" for p
    using read_string_ahead [OF s4, of cap] read_u32_ahead [OF s5] div
    by (simp add: parse_metadata_kv_def metadata_type_of_def read_value_def looping_heads)
  have "length looping_file = 80"
    by (simp add: looping_file_def)
  then have "looping_file \<noteq> []" by auto
  then show ?thesis
    using read_u32_ahead [OF s0] read_u32_ahead [OF s1] read_u64_nat [OF s2] read_u64_nat [OF s3] kv
    by (simp add: parse_from_memory_def parse_stream_def isValid_def reset_def flip: at_pos_def)
qed

end
