(* ===== verification/Graph_Engine.thy ===== *)
theory Graph_Engine
  imports Std_String "HOL-Library.Multiset"
begin

text \<open>
  The operator graph of \<^verbatim>\<open>code/src/cerberus_graph_engine.cpp\<close>: tensors and nodes, the queries, Kahn's
  topological sort, the conversion from a kernel graph and the rewrite rules.

  Node ids are \<open>int\<close>; \<^verbatim>\<open>std::size_t\<close> sizes and in-degrees wrap and are \<open>u64\<close>.  The in-degree table,
  an \<^verbatim>\<open>unordered_map\<close> whose \<^verbatim>\<open>operator[]\<close> defaults to zero, is a function.  The order in which the
  conversion iterates over its \<^verbatim>\<open>unordered_map\<close> of tensors is unspecified and is the argument
  \<open>hash_order\<close>.  The sorting loop and the rewrite loop need not end on every input (repeated ids, a rule
  that grows the graph), so they are partial functions, and \<open>None\<close> is divergence.
\<close>

subsection \<open>Data\<close>

datatype DataType = DT_F32 | DT_F16 | DT_I64 | DT_I32 | DT_I8 | DT_U8 | DT_IQ4_NL_Block | DT_Q4_K_Block

datatype Op =
    Op_Unknown | Op_MatMul | Op_Add | Op_Mul | Op_Conv | Op_Relu | Op_Sigmoid | Op_Reshape | Op_Transpose
  | Op_Softmax | Op_LayerNorm | Op_Gelu | Op_Constant | Op_FusedMatMulBiasRelu

datatype QuantMethod = QM_None | QM_PTQ | QM_QAT | QM_LSQ

datatype QuantGranularity = PerTensor | PerChannel | PerToken | PerBlock

record QuantProfile =
  qp_method :: QuantMethod
  activation_bits :: byte
  weight_bits :: byte
  act_granularity :: QuantGranularity
  weight_granularity :: QuantGranularity

record GraphTensor =
  gt_name :: string
  gt_shape :: "u64 list"
  gt_dtype :: DataType

record GraphNode =
  gn_id :: int
  gn_name :: string
  gn_op :: Op
  gn_inputs :: "string list"
  gn_outputs :: "string list"
  execution_backend :: string
  gn_fused :: bool
  fused_group_id :: int
  constant_data :: "u32 list"
  quant_profile :: QuantProfile

record CerberusGraph =
  cg_nodes :: "GraphNode list"
  cg_tensors :: "GraphTensor list"

record KernelNode =
  kn_op :: Op
  kn_name :: string
  kn_inputs :: "string list"
  kn_outputs :: "string list"
  float_attrs :: "u32 list"
  int_attrs :: "int list"
  kn_quant_profile :: QuantProfile

record TensorDesc =
  td_name :: string
  td_shape :: "u64 list"
  td_dtype :: DataType

record KernelGraph =
  kg_nodes :: "KernelNode list"
  graph_inputs :: "TensorDesc list"
  graph_outputs :: "TensorDesc list"

subsection \<open>Sizes and queries\<close>

fun dtype_size :: "DataType \<Rightarrow> u64" where
  "dtype_size DT_F32 = 4"
| "dtype_size DT_F16 = 2"
| "dtype_size DT_I64 = 8"
| "dtype_size DT_I32 = 4"
| "dtype_size DT_I8 = 1"
| "dtype_size DT_U8 = 1"
| "dtype_size DT_IQ4_NL_Block = 1"
| "dtype_size DT_Q4_K_Block = 1"

definition tensor_bytes :: "GraphTensor \<Rightarrow> u64" where
  "tensor_bytes t =
     (let elems = foldl (\<lambda>n d. n * d) 1 (gt_shape t)
      in if gt_dtype t = DT_IQ4_NL_Block \<or> gt_dtype t = DT_Q4_K_Block then (elems + 1) div 2
         else elems * dtype_size (gt_dtype t))"

definition tensor_index :: "CerberusGraph \<Rightarrow> string \<Rightarrow> nat option" where
  "tensor_index g n = find_first (\<lambda>t. gt_name t = n) (cg_tensors g)"

definition node_index :: "CerberusGraph \<Rightarrow> int \<Rightarrow> nat option" where
  "node_index g i = find_first (\<lambda>n. gn_id n = i) (cg_nodes g)"

definition total_live_bytes :: "CerberusGraph \<Rightarrow> u64" where
  "total_live_bytes g = foldl (\<lambda>total t. total + tensor_bytes t) 0 (cg_tensors g)"

definition consumes_first :: "GraphNode \<Rightarrow> GraphNode \<Rightarrow> bool" where
  "consumes_first producer later \<longleftrightarrow>
     (case gn_outputs producer of [] \<Rightarrow> False | out # _ \<Rightarrow> list_ex (\<lambda>inp. inp = out) (gn_inputs later))"

definition consumers :: "CerberusGraph \<Rightarrow> int \<Rightarrow> int list" where
  "consumers g i =
     (case node_index g i of
        None \<Rightarrow> []
      | Some idx \<Rightarrow>
          map gn_id (filter (\<lambda>n. gn_id n \<noteq> i \<and> consumes_first (cg_nodes g ! idx) n) (cg_nodes g)))"

subsection \<open>Topological sort\<close>

type_synonym degrees = "int \<Rightarrow> u64"

definition count_edge :: "GraphNode \<Rightarrow> GraphNode \<Rightarrow> degrees \<Rightarrow> degrees" where
  "count_edge n later deg = (if consumes_first n later then deg(gn_id later := deg (gn_id later) + 1) else deg)"

definition initial_degrees :: "CerberusGraph \<Rightarrow> degrees" where
  "initial_degrees g = fold (\<lambda>n deg. fold (count_edge n) (cg_nodes g) deg) (cg_nodes g) (\<lambda>i. 0)"

definition release :: "int \<Rightarrow> degrees \<times> int list \<Rightarrow> degrees \<times> int list" where
  "release cid st =
     (case st of (deg, q) \<Rightarrow>
        let d = deg cid - 1 in (deg(cid := d), if d = 0 then q @ [cid] else q))"

partial_function (option) sort_loop ::
    "CerberusGraph \<Rightarrow> int list \<Rightarrow> degrees \<Rightarrow> GraphNode list \<Rightarrow> GraphNode list option option" where
  "sort_loop g q deg out =
     (case q of
        [] \<Rightarrow> Some (Some out)
      | cur_id # q' \<Rightarrow>
          (case node_index g cur_id of
             None \<Rightarrow> Some None
           | Some idx \<Rightarrow>
               (case fold release (consumers g cur_id) (deg, q') of
                  (deg', q'') \<Rightarrow> sort_loop g q'' deg' (out @ [cg_nodes g ! idx]))))"

declare sort_loop.simps [code]

definition initial_queue :: "CerberusGraph \<Rightarrow> int list" where
  "initial_queue g = filter (\<lambda>i. initial_degrees g i = 0) (map gn_id (cg_nodes g))"

definition topo_sort :: "CerberusGraph \<Rightarrow> (bool \<times> CerberusGraph) option" where
  "topo_sort g =
     (case sort_loop g (initial_queue g) (initial_degrees g) [] of
        None \<Rightarrow> None
      | Some None \<Rightarrow> Some (False, g)
      | Some (Some out) \<Rightarrow>
          if length out \<noteq> length (cg_nodes g) then Some (False, g)
          else Some (True, g\<lparr>cg_nodes := out\<rparr>))"

subsection \<open>Conversion\<close>

definition convert_node :: "nat \<Rightarrow> KernelNode \<Rightarrow> GraphNode" where
  "convert_node next_id kn =
     \<lparr>gn_id = int next_id, gn_name = kn_name kn, gn_op = kn_op kn, gn_inputs = kn_inputs kn,
      gn_outputs = kn_outputs kn, execution_backend = ''auto'', gn_fused = False, fused_group_id = - 1,
      constant_data = float_attrs kn, quant_profile = kn_quant_profile kn\<rparr>"

definition tensor_names :: "KernelGraph \<Rightarrow> string list" where
  "tensor_names kg = remdups (concat (map (\<lambda>kn. kn_inputs kn @ kn_outputs kn) (kg_nodes kg)))"

fun set_first :: "TensorDesc \<Rightarrow> GraphTensor list \<Rightarrow> GraphTensor list" where
  "set_first d [] = []"
| "set_first d (t # ts) =
     (if gt_name t = td_name d
      then t\<lparr>gt_shape := (if td_shape d = [] then gt_shape t else td_shape d), gt_dtype := td_dtype d\<rparr> # ts
      else t # set_first d ts)"

definition from_kernel_graph :: "(string list \<Rightarrow> string list) \<Rightarrow> KernelGraph \<Rightarrow> CerberusGraph option" where
  "from_kernel_graph hash_order kg =
     (let g = \<lparr>cg_nodes = map (\<lambda>(i, kn). convert_node i kn) (enumerate 0 (kg_nodes kg)),
               cg_tensors = fold set_first (graph_inputs kg)
                 (map (\<lambda>n. \<lparr>gt_name = n, gt_shape = [], gt_dtype = DT_F32\<rparr>) (hash_order (tensor_names kg)))\<rparr>
      in map_option snd (topo_sort g))"

subsection \<open>Rewrite rules\<close>

record GraphRewriteRule =
  rule_name :: string
  rule_match :: "CerberusGraph \<Rightarrow> nat \<Rightarrow> bool"
  rule_replace :: "CerberusGraph \<Rightarrow> nat \<Rightarrow> CerberusGraph"

partial_function (option) rewrite_loop ::
    "GraphRewriteRule \<Rightarrow> nat \<Rightarrow> CerberusGraph \<times> nat \<Rightarrow> (CerberusGraph \<times> nat) option" where
  "rewrite_loop rule i st =
     (if i < length (cg_nodes (fst st)) then
        rewrite_loop rule (Suc i)
          (if rule_match rule (fst st) i then (rule_replace rule (fst st) i, snd st + 1) else st)
      else Some st)"

declare rewrite_loop.simps [code]

primrec rewrite_rules :: "GraphRewriteRule list \<Rightarrow> CerberusGraph \<times> nat \<Rightarrow> (CerberusGraph \<times> nat) option" where
  "rewrite_rules [] st = Some st"
| "rewrite_rules (r # rs) st = (case rewrite_loop r 0 st of None \<Rightarrow> None | Some st' \<Rightarrow> rewrite_rules rs st')"

definition apply_rewrites :: "CerberusGraph \<Rightarrow> GraphRewriteRule list \<Rightarrow> (CerberusGraph \<times> nat) option" where
  "apply_rewrites g rules = rewrite_rules rules (g, 0)"

definition chained :: "GraphNode \<Rightarrow> GraphNode \<Rightarrow> bool" where
  "chained a b \<longleftrightarrow> gn_outputs a \<noteq> [] \<and> gn_inputs b \<noteq> [] \<and> hd (gn_outputs a) = hd (gn_inputs b)"

definition fuse_match :: "CerberusGraph \<Rightarrow> nat \<Rightarrow> bool" where
  "fuse_match g idx \<longleftrightarrow>
     idx + 2 < length (cg_nodes g) \<and>
     gn_op (cg_nodes g ! idx) = Op_MatMul \<and>
     gn_op (cg_nodes g ! (idx + 1)) = Op_Add \<and>
     gn_op (cg_nodes g ! (idx + 2)) = Op_Relu \<and>
     chained (cg_nodes g ! idx) (cg_nodes g ! (idx + 1)) \<and>
     chained (cg_nodes g ! (idx + 1)) (cg_nodes g ! (idx + 2))"

definition fused_node :: "GraphNode \<Rightarrow> GraphNode \<Rightarrow> GraphNode \<Rightarrow> GraphNode" where
  "fused_node n0 n1 n2 =
     n0\<lparr>gn_name := gn_name n0 @ ''_fused_bias_relu'', gn_op := Op_FusedMatMulBiasRelu,
        gn_outputs := gn_outputs n2,
        gn_inputs := gn_inputs n0 @ (if 1 < length (gn_inputs n1) then [gn_inputs n1 ! 1] else [])\<rparr>"

definition fuse_replace :: "CerberusGraph \<Rightarrow> nat \<Rightarrow> CerberusGraph" where
  "fuse_replace g idx =
     g\<lparr>cg_nodes := take idx (cg_nodes g) @
        [fused_node (cg_nodes g ! idx) (cg_nodes g ! (idx + 1)) (cg_nodes g ! (idx + 2))] @
        drop (idx + 3) (cg_nodes g)\<rparr>"

definition make_fuse_matmul_bias_relu_rule :: GraphRewriteRule where
  "make_fuse_matmul_bias_relu_rule =
     \<lparr>rule_name = ''fuse_matmul_bias_relu'', rule_match = fuse_match, rule_replace = fuse_replace\<rparr>"

end
