(* ===== verification/Decision_Engine.thy ===== *)
theory Decision_Engine
  imports Graph_Engine Tiered_Memory
begin

text \<open>
  The decision engine of \<^verbatim>\<open>code/src/cerberus_decision_engine.cpp\<close>: it turns an operator graph into an
  ordered plan of execution steps, picks a backend and a memory tier per node, and fuses a
  multiplication with the addition that consumes it.

  Three inputs are arguments because they come from other components or are floating-point
  comparisons: whether a real Intel NPU backend is available (\<open>npu_available\<close>), whether the warm tier is
  above its pressure limit (\<open>warm_full\<close>), and the field \<open>power_low\<close> for
  \<^verbatim>\<open>power_budget_watts < 5.0f\<close>.
\<close>

subsection \<open>Data\<close>

record DecisionConfig =
  matmul_native_max_mnk :: u64
  fuse_elementwise :: bool
  power_low :: bool

datatype Backend = Native | OpenVINO | CUDA | FusedNative

record ExecutionStep =
  node_ids :: "int list"
  step_backend :: Backend
  preferred_tier :: MemoryTier
  debug_label :: string

datatype plan_error = GraphEmpty | EmptyExecutionPlan

subsection \<open>Routing\<close>

definition reevaluate_tier :: "bool \<Rightarrow> ExecutionStep \<Rightarrow> ExecutionStep" where
  "reevaluate_tier warm_full step =
     (if warm_full \<and> preferred_tier step = Warm then step\<lparr>preferred_tier := Cool\<rparr> else step)"

definition node_by_id :: "CerberusGraph \<Rightarrow> int \<Rightarrow> GraphNode option" where
  "node_by_id g i = map_option (\<lambda>idx. cg_nodes g ! idx) (node_index g i)"

definition all_elementwise :: "CerberusGraph \<Rightarrow> int list \<Rightarrow> bool" where
  "all_elementwise g ids =
     list_all (\<lambda>i. case node_by_id g i of None \<Rightarrow> False | Some n \<Rightarrow> gn_op n = Op_Add \<or> gn_op n = Op_Mul) ids"

definition max_input_dim :: "GraphTensor list \<Rightarrow> string list \<Rightarrow> u64" where
  "max_input_dim tensors ins =
     foldl (\<lambda>m inp. case find (\<lambda>t. gt_name t = inp) tensors of None \<Rightarrow> m | Some t \<Rightarrow> foldl max m (gt_shape t)) 0 ins"

definition is_small_enough_for_native :: "DecisionConfig \<Rightarrow> GraphNode \<Rightarrow> GraphTensor list \<Rightarrow> bool" where
  "is_small_enough_for_native cfg node tensors \<longleftrightarrow>
     gn_op node \<noteq> Op_MatMul \<or> max_input_dim tensors (gn_inputs node) \<le> matmul_native_max_mnk cfg"

definition pick_backend :: "DecisionConfig \<Rightarrow> bool \<Rightarrow> CerberusGraph \<Rightarrow> int \<Rightarrow> Backend" where
  "pick_backend cfg npu_available g i =
     (case node_by_id g i of
        None \<Rightarrow> Native
      | Some node \<Rightarrow>
          if weight_bits (quant_profile node) \<le> 4 \<and> weight_granularity (quant_profile node) = PerBlock then Native
          else if gn_op node = Op_MatMul \<or> gn_op node = Op_Conv then
            (if npu_available then OpenVINO
             else if \<not> is_small_enough_for_native cfg node (cg_tensors g) then OpenVINO else Native)
          else Native)"

subsection \<open>Fusion\<close>

definition tensor_consumers :: "CerberusGraph \<Rightarrow> string \<Rightarrow> int list" where
  "tensor_consumers g t =
     concat (map (\<lambda>n. map (\<lambda>inp. gn_id n) (filter (\<lambda>inp. inp = t) (gn_inputs n))) (cg_nodes g))"

text \<open>The addition a multiplication step is fused with, if any: the only consumer of its first output.\<close>

definition fusion_partner :: "CerberusGraph \<Rightarrow> ExecutionStep \<Rightarrow> (GraphNode \<times> GraphNode) option" where
  "fusion_partner g step =
     (if step_backend step \<noteq> Native \<or> length (node_ids step) \<noteq> 1 then None
      else case node_by_id g (hd (node_ids step)) of
        None \<Rightarrow> None
      | Some node \<Rightarrow>
          if gn_op node \<noteq> Op_Mul \<or> gn_outputs node = [] then None
          else case tensor_consumers g (hd (gn_outputs node)) of
            [add_id] \<Rightarrow>
              (case node_by_id g add_id of
                 None \<Rightarrow> None
               | Some add_node \<Rightarrow> if gn_op add_node \<noteq> Op_Add then None else Some (node, add_node))
          | _ \<Rightarrow> None)"

definition fuse_step :: "CerberusGraph \<Rightarrow> ExecutionStep \<Rightarrow> ExecutionStep" where
  "fuse_step g step =
     (case fusion_partner g step of
        None \<Rightarrow> step
      | Some (mul_node, add_node) \<Rightarrow>
          \<lparr>node_ids = [gn_id mul_node, gn_id add_node], step_backend = FusedNative,
           preferred_tier = preferred_tier step,
           debug_label = ''fuse: Mul('' @ gn_name mul_node @ '') + Add('' @ gn_name add_node @ '')''\<rparr>)"

definition fused_adds :: "CerberusGraph \<Rightarrow> ExecutionStep list \<Rightarrow> int list" where
  "fused_adds g plan = List.map_filter (\<lambda>s. map_option (\<lambda>(m, a). gn_id a) (fusion_partner g s)) plan"

definition fuse_elementwise_chain :: "DecisionConfig \<Rightarrow> CerberusGraph \<Rightarrow> ExecutionStep list \<Rightarrow> ExecutionStep list" where
  "fuse_elementwise_chain cfg g plan =
     (if \<not> fuse_elementwise cfg then plan
      else filter (\<lambda>s. \<not> (length (node_ids s) = 1 \<and> hd (node_ids s) \<in> set (fused_adds g plan)))
             (map (fuse_step g) plan))"

subsection \<open>Planning\<close>

fun backend_label :: "Backend \<Rightarrow> string" where
  "backend_label Native = ''native''"
| "backend_label OpenVINO = ''openvino''"
| "backend_label CUDA = ''cuda''"
| "backend_label FusedNative = ''fused''"

definition step_label :: "Backend \<Rightarrow> string \<Rightarrow> string" where
  "step_label b target =
     (if b = Native then ''native:'' @ target else if b = OpenVINO then ''openvino:'' @ target
      else if b = CUDA then ''cuda:'' @ target else [])"

definition make_step :: "DecisionConfig \<Rightarrow> bool \<Rightarrow> bool \<Rightarrow> string \<Rightarrow> CerberusGraph \<Rightarrow> GraphNode \<Rightarrow> ExecutionStep" where
  "make_step cfg npu_available warm_full target g node =
     (let b = pick_backend cfg npu_available g (gn_id node)
      in reevaluate_tier warm_full
           \<lparr>node_ids = [gn_id node], step_backend = b,
            preferred_tier = (if gn_op node = Op_MatMul \<or> gn_op node = Op_Conv then Cool else Warm),
            debug_label = step_label b target\<rparr>)"

definition set_backend :: "int \<Rightarrow> string \<Rightarrow> CerberusGraph \<Rightarrow> CerberusGraph" where
  "set_backend i label g =
     (case node_index g i of
        None \<Rightarrow> g
      | Some idx \<Rightarrow> g\<lparr>cg_nodes := (cg_nodes g)[idx := (cg_nodes g ! idx)\<lparr>execution_backend := label\<rparr>]\<rparr>)"

text \<open>The planning loop reads the graph it annotates; the annotation is not among the fields it reads.\<close>

fun plan_loop ::
    "DecisionConfig \<Rightarrow> bool \<Rightarrow> bool \<Rightarrow> string \<Rightarrow> GraphNode list \<Rightarrow> CerberusGraph \<Rightarrow> ExecutionStep list \<times> CerberusGraph" where
  "plan_loop cfg npu warm target [] g = ([], g)"
| "plan_loop cfg npu warm target (node # ns) g =
     (let step = make_step cfg npu warm target g node;
          (plan, g') = plan_loop cfg npu warm target ns (set_backend (gn_id node) (backend_label (step_backend step)) g)
      in (step # plan, g'))"

definition power_override :: "ExecutionStep \<Rightarrow> ExecutionStep" where
  "power_override step =
     (if step_backend step = CUDA \<or> step_backend step = OpenVINO
      then step\<lparr>step_backend := Native, debug_label := debug_label step @ '' (power-override)'', preferred_tier := Cool\<rparr>
      else step)"

definition analyse ::
    "DecisionConfig \<Rightarrow> bool \<Rightarrow> bool \<Rightarrow> string \<Rightarrow> CerberusGraph \<Rightarrow> (plan_error, ExecutionStep list) expected \<times> CerberusGraph" where
  "analyse cfg npu_available warm_full target g =
     (if cg_nodes g = [] then (Inl GraphEmpty, g)
      else
        (let (plan, g') = plan_loop cfg npu_available warm_full target (cg_nodes g) g;
             plan1 = fuse_elementwise_chain cfg g' plan;
             plan2 = (if power_low cfg then map power_override plan1 else plan1)
         in if plan2 = [] then (Inl EmptyExecutionPlan, g') else (Inr plan2, g')))"

end
