(* ===== verification/Graph_Props.thy ===== *)
theory Graph_Props
  imports Graph_Engine
begin

text \<open>
  Correctness of the topological sort: on a graph with distinct ids it ends, it succeeds exactly when
  the nodes can be ordered at all, and the order it installs puts every producer before its consumers.
  The built-in rewrite rule ends, keeps the ids distinct, and can cut a consumer off its producer.
\<close>

subsection \<open>In-degrees\<close>

definition topo_ordered :: "GraphNode list \<Rightarrow> GraphNode list \<Rightarrow> bool" where
  "topo_ordered nodes out \<longleftrightarrow>
     (\<forall>xs v ys. out = xs @ v # ys \<longrightarrow> (\<forall>u \<in> set nodes. consumes_first u v \<longrightarrow> u \<in> set xs))"

definition pending :: "CerberusGraph \<Rightarrow> int set \<Rightarrow> GraphNode \<Rightarrow> nat" where
  "pending g done v = length (filter (\<lambda>u. consumes_first u v \<and> gn_id u \<notin> done) (cg_nodes g))"

definition distinct_ids :: "CerberusGraph \<Rightarrow> bool" where
  "distinct_ids g \<longleftrightarrow> distinct (map gn_id (cg_nodes g)) \<and> length (cg_nodes g) < 2 ^ 64"

lemma same_id: "distinct_ids g \<Longrightarrow> u \<in> set (cg_nodes g) \<Longrightarrow> v \<in> set (cg_nodes g) \<Longrightarrow> gn_id u = gn_id v \<Longrightarrow> u = v"
  by (auto simp: distinct_ids_def distinct_map inj_on_def)

lemma count_edges:
  "fold (count_edge n) xs deg i = deg i + of_nat (length (filter (\<lambda>l. gn_id l = i \<and> consumes_first n l) xs))"
  by (induction xs arbitrary: deg) (auto simp: count_edge_def)

lemma filter_one:
  assumes "distinct (map f xs)" "v \<in> set xs"
  shows "filter (\<lambda>l. f l = f v \<and> P l) xs = (if P v then [v] else [])"
  using assms
proof (induction xs)
  case (Cons x xs)
  show ?case
  proof (cases "x = v")
    case True
    then have "filter (\<lambda>l. f l = f v \<and> P l) xs = []"
      using Cons.prems(1) by (auto simp: filter_empty_conv) (metis imageI)
    with True show ?thesis by simp
  next
    case False
    with Cons show ?thesis by auto
  qed
qed simp

lemma initial_degrees_pending:
  assumes "distinct_ids g" "v \<in> set (cg_nodes g)"
  shows "initial_degrees g (gn_id v) = of_nat (pending g {} v)"
proof -
  have one: "length (filter (\<lambda>l. gn_id l = gn_id v \<and> consumes_first n l) (cg_nodes g)) = (if consumes_first n v then 1 else 0)" for n
    using filter_one [of gn_id "cg_nodes g" v "consumes_first n"] assms by (simp add: distinct_ids_def)
  have "fold (\<lambda>n deg. fold (count_edge n) (cg_nodes g) deg) ns deg (gn_id v)
      = deg (gn_id v) + of_nat (length (filter (\<lambda>u. consumes_first u v) ns))" for ns deg
    by (induction ns arbitrary: deg) (simp_all add: count_edges one)
  then show ?thesis
    by (simp add: initial_degrees_def pending_def)
qed

lemma pending_bound: "distinct_ids g \<Longrightarrow> pending g S v < 2 ^ 64"
  unfolding pending_def distinct_ids_def using length_filter_le le_less_trans by blast

lemma of_nat_eq_0: "n < 2 ^ 64 \<Longrightarrow> (of_nat n :: u64) = 0 \<longleftrightarrow> n = 0"
proof -
  assume "n < 2 ^ 64"
  then have "unat (of_nat n :: u64) = n"
    by (simp add: unat_of_nat take_bit_nat_eq_self)
  then show ?thesis
    using unat_eq_zero [of "of_nat n :: u64"] by simp
qed

lemma of_nat_minus_1: "0 < n \<Longrightarrow> (of_nat n :: u64) - 1 = of_nat (n - 1)"
  by (simp add: of_nat_diff)

text \<open>Finishing a node lowers the pending count of exactly its consumers, by one.\<close>

lemma pending_insert:
  assumes "distinct_ids g" "u \<in> set (cg_nodes g)" "gn_id u \<notin> S"
  shows "pending g S v = pending g (insert (gn_id u) S) v + (if consumes_first u v then 1 else 0)"
proof -
  let ?P = "\<lambda>w. consumes_first w v \<and> gn_id w \<notin> S"
  have "length (filter ?P (cg_nodes g))
      = length (filter (\<lambda>w. gn_id w = gn_id u \<and> ?P w) (cg_nodes g))
        + length (filter (\<lambda>w. gn_id w \<noteq> gn_id u \<and> ?P w) (cg_nodes g))"
    using sum_length_filter_compl [of "\<lambda>w. gn_id w = gn_id u" "filter ?P (cg_nodes g)"]
    by (simp add: filter_filter conj_ac)
  moreover have "filter (\<lambda>w. gn_id w = gn_id u \<and> ?P w) (cg_nodes g) = (if ?P u then [u] else [])"
    using filter_one [of gn_id "cg_nodes g" u ?P] assms by (simp add: distinct_ids_def)
  moreover have "(\<lambda>w. gn_id w \<noteq> gn_id u \<and> ?P w) = (\<lambda>w. consumes_first w v \<and> gn_id w \<notin> insert (gn_id u) S)"
    by auto
  ultimately show ?thesis
    using assms(3) by (simp add: pending_def)
qed

lemma pending_zero: "pending g S v = 0 \<longleftrightarrow> (\<forall>u \<in> set (cg_nodes g). consumes_first u v \<longrightarrow> gn_id u \<in> S)"
  by (auto simp: pending_def filter_empty_conv)

subsection \<open>The sorting loop\<close>

lemma fold_release:
  "distinct cs \<Longrightarrow> fold release cs (deg, q)
     = (\<lambda>i. if i \<in> set cs then deg i - 1 else deg i, q @ filter (\<lambda>c. deg c - 1 = 0) cs)"
proof (induction cs arbitrary: deg q)
  case (Cons c cs)
  have "filter (\<lambda>d. (deg(c := deg c - 1)) d - 1 = 0) cs = filter (\<lambda>d. deg d - 1 = 0) cs"
    using Cons.prems by (intro filter_cong) auto
  with Cons show ?case
    by (auto simp: release_def Let_def fun_eq_iff)
qed simp

lemma node_index_of:
  assumes "distinct_ids g" "u \<in> set (cg_nodes g)"
  shows "\<exists>idx. node_index g (gn_id u) = Some idx \<and> cg_nodes g ! idx = u"
proof (cases "node_index g (gn_id u)")
  case None
  then show ?thesis
    using assms(2) by (auto simp: node_index_def find_first_None)
next
  case (Some idx)
  then have "idx < length (cg_nodes g)" "gn_id (cg_nodes g ! idx) = gn_id u"
    using find_first_SomeD [of "\<lambda>n. gn_id n = gn_id u"] by (auto simp: node_index_def)
  with Some show ?thesis
    using same_id [OF assms(1) nth_mem assms(2)] by blast
qed

lemma consumers_of:
  assumes "distinct_ids g" "u \<in> set (cg_nodes g)"
  shows "consumers g (gn_id u) = map gn_id (filter (\<lambda>n. gn_id n \<noteq> gn_id u \<and> consumes_first u n) (cg_nodes g))"
  using node_index_of [OF assms] by (auto simp: consumers_def)

lemma consumers_distinct: "distinct_ids g \<Longrightarrow> u \<in> set (cg_nodes g) \<Longrightarrow> distinct (consumers g (gn_id u))"
  by (simp add: consumers_of distinct_ids_def distinct_map_filter)

definition sort_inv :: "CerberusGraph \<Rightarrow> int list \<Rightarrow> degrees \<Rightarrow> GraphNode list \<Rightarrow> bool" where
  "sort_inv g q deg out \<longleftrightarrow>
     distinct (map gn_id out @ q) \<and> set out \<subseteq> set (cg_nodes g) \<and> set q \<subseteq> gn_id ` set (cg_nodes g) \<and>
     (\<forall>v \<in> set (cg_nodes g). deg (gn_id v) = of_nat (pending g (gn_id ` set out) v)) \<and>
     (\<forall>v \<in> set (cg_nodes g). pending g (gn_id ` set out) v = 0 \<longleftrightarrow> gn_id v \<in> set (map gn_id out @ q)) \<and>
     topo_ordered (cg_nodes g) out"

lemma sort_inv_start: "distinct_ids g \<Longrightarrow> sort_inv g (initial_queue g) (initial_degrees g) []"
  using initial_degrees_pending [of g] of_nat_eq_0 [OF pending_bound, of g]
  by (auto simp: sort_inv_def initial_queue_def topo_ordered_def distinct_ids_def)

lemma topo_ordered_snoc:
  assumes "topo_ordered ns out" "\<forall>w \<in> set ns. consumes_first w u \<longrightarrow> w \<in> set out"
  shows "topo_ordered ns (out @ [u])"
  unfolding topo_ordered_def
proof (intro allI impI)
  fix xs v ys
  assume eq: "out @ [u] = xs @ v # ys"
  show "\<forall>w \<in> set ns. consumes_first w v \<longrightarrow> w \<in> set xs"
  proof (cases ys rule: rev_cases)
    case Nil
    with eq assms(2) show ?thesis by auto
  next
    case (snoc zs z)
    with eq have "out = xs @ v # zs" by auto
    with assms(1) show ?thesis by (simp add: topo_ordered_def)
  qed
qed

lemma sort_inv_step:
  assumes g: "distinct_ids g" and inv: "sort_inv g (gn_id u # q) deg out" and u: "u \<in> set (cg_nodes g)"
    and rel: "fold release (consumers g (gn_id u)) (deg, q) = (deg', q')"
  shows "sort_inv g q' deg' (out @ [u])"
proof -
  let ?S = "gn_id ` set out" and ?S' = "gn_id ` set (out @ [u])"
  have S': "?S' = insert (gn_id u) ?S" by auto
  have fresh: "gn_id u \<notin> ?S"
    using inv by (auto simp: sort_inv_def)
  have deg: "deg (gn_id v) = of_nat (pending g ?S v)"
    and zero: "pending g ?S v = 0 \<longleftrightarrow> gn_id v \<in> set (map gn_id out @ gn_id u # q)" if "v \<in> set (cg_nodes g)" for v
    using inv that unfolding sort_inv_def by blast+
  have u0: "pending g ?S u = 0"
    using zero [OF u] by simp
  have no_self: "\<not> consumes_first u u"
    using u0 u fresh by (auto simp: pending_zero)
  have pend: "pending g ?S v = pending g ?S' v + (if consumes_first u v then 1 else 0)" for v
    unfolding S' by (rule pending_insert [OF g u fresh])
  have cons: "gn_id v \<in> set (consumers g (gn_id u)) \<longleftrightarrow> consumes_first u v" if "v \<in> set (cg_nodes g)" for v
  proof -
    have "gn_id v \<in> set (consumers g (gn_id u)) \<longleftrightarrow>
        (\<exists>n \<in> set (cg_nodes g). gn_id n = gn_id v \<and> gn_id n \<noteq> gn_id u \<and> consumes_first u n)"
      by (auto simp: consumers_of [OF g u] image_iff)
    also have "\<dots> \<longleftrightarrow> gn_id v \<noteq> gn_id u \<and> consumes_first u v"
      using same_id [OF g _ that] that by metis
    also have "\<dots> \<longleftrightarrow> consumes_first u v"
      using same_id [OF g that u] no_self by blast
    finally show ?thesis .
  qed
  have deg'_def: "deg' = (\<lambda>i. if i \<in> set (consumers g (gn_id u)) then deg i - 1 else deg i)"
    and q'_def: "q' = q @ filter (\<lambda>c. deg c - 1 = 0) (consumers g (gn_id u))"
    using rel fold_release [OF consumers_distinct [OF g u], of deg q] by auto
  have deg': "deg' (gn_id v) = of_nat (pending g ?S' v)" if v: "v \<in> set (cg_nodes g)" for v
    using deg [OF v] cons [OF v] pend [of v] of_nat_minus_1 [of "pending g ?S v"] by (auto simp: deg'_def)
  have freed: "deg (gn_id v) - 1 = 0 \<longleftrightarrow> pending g ?S' v = 0" if v: "v \<in> set (cg_nodes g)" "consumes_first u v" for v
    using deg' [OF v(1)] cons [OF v(1)] v(2) of_nat_eq_0 [OF pending_bound [OF g]] by (simp add: deg'_def)
  have new_ids: "i \<in> set (filter (\<lambda>c. deg c - 1 = 0) (consumers g (gn_id u))) \<longleftrightarrow>
      (\<exists>v \<in> set (cg_nodes g). i = gn_id v \<and> consumes_first u v \<and> pending g ?S' v = 0)" for i
    using cons freed by (auto simp: consumers_of [OF g u])
  have "pending g ?S v \<noteq> 0" if "consumes_first u v" for v
    using pend [of v] that by simp
  then have apart: "i \<notin> set (map gn_id out @ gn_id u # q)"
    if "i \<in> set (filter (\<lambda>c. deg c - 1 = 0) (consumers g (gn_id u)))" for i
    using that zero unfolding new_ids by blast
  have "distinct (map gn_id (out @ [u]) @ q')"
    using inv apart consumers_distinct [OF g u] unfolding sort_inv_def q'_def by auto
  moreover have "set (out @ [u]) \<subseteq> set (cg_nodes g)"
    using inv u by (simp add: sort_inv_def)
  moreover have "set q' \<subseteq> gn_id ` set (cg_nodes g)"
    using inv new_ids unfolding sort_inv_def q'_def by auto
  moreover have "pending g ?S' v = 0 \<longleftrightarrow> gn_id v \<in> set (map gn_id (out @ [u]) @ q')"
    if v: "v \<in> set (cg_nodes g)" for v
  proof -
    have "gn_id v \<in> set (map gn_id (out @ [u]) @ q')
        \<longleftrightarrow> pending g ?S v = 0 \<or> (\<exists>w \<in> set (cg_nodes g). gn_id v = gn_id w \<and> consumes_first u w \<and> pending g ?S' w = 0)"
      using zero [OF v] new_ids [of "gn_id v"] unfolding q'_def by auto
    also have "\<dots> \<longleftrightarrow> pending g ?S v = 0 \<or> consumes_first u v \<and> pending g ?S' v = 0"
      using same_id [OF g v] v by blast
    also have "\<dots> \<longleftrightarrow> pending g ?S' v = 0"
      using pend [of v] by auto
    finally show ?thesis by simp
  qed
  moreover have "topo_ordered (cg_nodes g) (out @ [u])"
  proof (rule topo_ordered_snoc)
    show "topo_ordered (cg_nodes g) out"
      using inv by (simp add: sort_inv_def)
    show "\<forall>w \<in> set (cg_nodes g). consumes_first w u \<longrightarrow> w \<in> set out"
    proof (intro ballI impI)
      fix w assume w: "w \<in> set (cg_nodes g)" "consumes_first w u"
      then obtain x where "x \<in> set out" "gn_id w = gn_id x"
        using u0 by (auto simp: pending_zero)
      then show "w \<in> set out"
        using same_id [OF g w(1)] inv by (auto simp: sort_inv_def)
    qed
  qed
  ultimately show ?thesis
    using deg' unfolding sort_inv_def by blast
qed

lemma sort_inv_length:
  assumes "distinct_ids g" "sort_inv g q deg out"
  shows "length out + length q \<le> length (cg_nodes g)"
proof -
  have "set (map gn_id out @ q) \<subseteq> gn_id ` set (cg_nodes g)"
    using assms(2) by (auto simp: sort_inv_def)
  moreover have "distinct (map gn_id out @ q)"
    using assms(2) by (simp add: sort_inv_def)
  ultimately have "length (map gn_id out @ q) \<le> card (gn_id ` set (cg_nodes g))"
    by (metis card_mono distinct_card finite_imageI finite_set)
  also have "\<dots> \<le> length (cg_nodes g)"
    by (metis card_image_le card_length finite_set le_trans)
  finally show ?thesis by simp
qed

lemma sort_loop_ends:
  assumes "distinct_ids g" "sort_inv g q deg out"
  shows "\<exists>out' deg'. sort_loop g q deg out = Some (Some out') \<and> sort_inv g [] deg' out'"
  using assms(2)
proof (induction "length (cg_nodes g) - length out" arbitrary: q deg out)
  case 0
  then have "q = []"
    using sort_inv_length [OF assms(1) "0.prems"] by (cases q) auto
  with 0 show ?case
    by (subst sort_loop.simps) auto
next
  case (Suc n)
  show ?case
  proof (cases q)
    case Nil
    with Suc.prems show ?thesis
      by (subst sort_loop.simps) auto
  next
    case (Cons cur q0)
    then obtain u where u: "u \<in> set (cg_nodes g)" "cur = gn_id u"
      using Suc.prems by (auto simp: sort_inv_def)
    obtain idx where idx: "node_index g (gn_id u) = Some idx" "cg_nodes g ! idx = u"
      using node_index_of [OF assms(1) u(1)] by blast
    obtain deg' q' where rel: "fold release (consumers g (gn_id u)) (deg, q0) = (deg', q')"
      by fastforce
    have inv': "sort_inv g q' deg' (out @ [u])"
      using sort_inv_step [OF assms(1) _ u(1) rel, of out] Suc.prems by (simp add: Cons u(2))
    have "n = length (cg_nodes g) - length (out @ [u])"
      using Suc.hyps(2) by simp
    from Suc.hyps(1) [OF this inv'] show ?thesis
      by (subst sort_loop.simps) (simp add: Cons u(2) idx rel)
  qed
qed

subsection \<open>Correctness\<close>

lemma topo_ordered_cong: "set ns = set ms \<Longrightarrow> topo_ordered ns out = topo_ordered ms out"
  by (simp add: topo_ordered_def)

lemma orderable_complete:
  assumes g: "distinct_ids g" and inv: "sort_inv g [] deg out"
    and perm: "mset \<tau> = mset (cg_nodes g)" and ord: "topo_ordered (cg_nodes g) \<tau>"
  shows "set (cg_nodes g) \<subseteq> set out"
proof -
  have "set xs \<subseteq> set out" if "\<tau> = xs @ ys" for xs ys
    using that
  proof (induction xs arbitrary: ys rule: rev_induct)
    case (snoc v xs)
    then have xs: "set xs \<subseteq> set out" by simp
    have v: "v \<in> set (cg_nodes g)"
      using snoc.prems mset_eq_setD [OF perm] by auto
    have "\<tau> = xs @ v # ys"
      using snoc.prems by simp
    then have "\<forall>u \<in> set (cg_nodes g). consumes_first u v \<longrightarrow> u \<in> set xs"
      using ord unfolding topo_ordered_def by blast
    then have "pending g (gn_id ` set out) v = 0"
      using xs by (auto simp: pending_zero)
    then obtain w where "w \<in> set out" "gn_id v = gn_id w"
      using inv v by (auto simp: sort_inv_def)
    then have "v \<in> set out"
      using same_id [OF g v] inv by (auto simp: sort_inv_def)
    with xs show ?case by simp
  qed simp
  from this [of \<tau> "[]"] show ?thesis
    using mset_eq_setD [OF perm] by simp
qed

lemma sort_inv_perm:
  assumes "distinct_ids g" "sort_inv g [] deg out"
  shows "length out = length (cg_nodes g) \<longleftrightarrow> mset out = mset (cg_nodes g)"
proof
  have d: "distinct out" "distinct (cg_nodes g)" and sub: "set out \<subseteq> set (cg_nodes g)"
    using assms by (auto simp: sort_inv_def distinct_ids_def distinct_map)
  assume "length out = length (cg_nodes g)"
  then have "set out = set (cg_nodes g)"
    using sub d by (metis card_subset_eq distinct_card finite_set)
  with d show "mset out = mset (cg_nodes g)"
    using set_eq_iff_mset_eq_distinct by blast
qed (metis size_mset)

text \<open>C40. On a graph whose node ids are distinct, the topological sort ends.  It reports success
  exactly when the nodes can be put into an order in which every node comes after all producers of its
  inputs (first outputs); then the graph holds the same nodes in such an order and nothing else has
  changed.  Otherwise, that is when there is a cycle, the graph is left as it was.\<close>

theorem topo_sort_correct:
  assumes "distinct (map gn_id (cg_nodes g))" and "length (cg_nodes g) < 2 ^ 64"
  shows "\<exists>ok g'. topo_sort g = Some (ok, g')
    \<and> (ok \<longleftrightarrow> (\<exists>\<tau>. mset \<tau> = mset (cg_nodes g) \<and> topo_ordered (cg_nodes g) \<tau>))
    \<and> (if ok then mset (cg_nodes g') = mset (cg_nodes g) \<and> topo_ordered (cg_nodes g') (cg_nodes g')
              \<and> cg_tensors g' = cg_tensors g
       else g' = g)"
proof -
  have g: "distinct_ids g"
    using assms by (simp add: distinct_ids_def)
  obtain out deg where run: "sort_loop g (initial_queue g) (initial_degrees g) [] = Some (Some out)"
    and inv: "sort_inv g [] deg out"
    using sort_loop_ends [OF g sort_inv_start [OF g]] by blast
  have ord: "topo_ordered (cg_nodes g) out"
    using inv by (simp add: sort_inv_def)
  show ?thesis
  proof (cases "length out = length (cg_nodes g)")
    case True
    then have perm: "mset out = mset (cg_nodes g)"
      using sort_inv_perm [OF g inv] by simp
    then have "topo_ordered out out"
      using ord topo_ordered_cong [OF mset_eq_setD [OF perm]] by simp
    then show ?thesis
      using run True perm ord by (auto simp: topo_sort_def)
  next
    case False
    have "\<not> (\<exists>\<tau>. mset \<tau> = mset (cg_nodes g) \<and> topo_ordered (cg_nodes g) \<tau>)"
    proof
      assume "\<exists>\<tau>. mset \<tau> = mset (cg_nodes g) \<and> topo_ordered (cg_nodes g) \<tau>"
      then have "set (cg_nodes g) \<subseteq> set out"
        using orderable_complete [OF g inv] by blast
      moreover have "set out \<subseteq> set (cg_nodes g)" "distinct out" "distinct (cg_nodes g)"
        using inv g by (auto simp: sort_inv_def distinct_ids_def distinct_map)
      ultimately have "length out = length (cg_nodes g)"
        by (metis distinct_card subset_antisym)
      with False show False by simp
    qed
    then show ?thesis
      using run False by (auto simp: topo_sort_def)
  qed
qed

definition demo_node :: "int \<Rightarrow> Op \<Rightarrow> string list \<Rightarrow> string list \<Rightarrow> GraphNode" where
  "demo_node i op ins outs = \<lparr>gn_id = i, gn_name = [], gn_op = op, gn_inputs = ins, gn_outputs = outs,
     execution_backend = ''auto'', gn_fused = False, fused_group_id = - 1, constant_data = [],
     quant_profile = \<lparr>qp_method = QM_None, activation_bits = 8, weight_bits = 8,
                      act_granularity = PerTensor, weight_granularity = PerChannel\<rparr>\<rparr>"

definition demo_graph :: CerberusGraph where
  "demo_graph = \<lparr>cg_nodes = [demo_node 0 Op_Add [''b'', ''x''] [''c''], demo_node 1 Op_MatMul [''a''] [''b'']],
                 cg_tensors = []\<rparr>"

theorem topo_sort_correct_witness:
  "\<exists>ok g'. topo_sort demo_graph = Some (ok, g')
    \<and> (ok \<longleftrightarrow> (\<exists>\<tau>. mset \<tau> = mset (cg_nodes demo_graph) \<and> topo_ordered (cg_nodes demo_graph) \<tau>))
    \<and> (if ok then mset (cg_nodes g') = mset (cg_nodes demo_graph) \<and> topo_ordered (cg_nodes g') (cg_nodes g')
              \<and> cg_tensors g' = cg_tensors demo_graph
       else g' = demo_graph)"
  by (rule topo_sort_correct) (simp_all add: demo_graph_def demo_node_def)

lemma demo_sorted: "map_option (\<lambda>(ok, g). (ok, map gn_id (cg_nodes g))) (topo_sort demo_graph) = Some (True, [1, 0])"
  by code_simp

subsection \<open>The built-in rewrite rule\<close>

lemma fuse_replace_length: "fuse_match g i \<Longrightarrow> length (cg_nodes (fuse_replace g i)) = length (cg_nodes g) - 2"
  by (auto simp: fuse_match_def fuse_replace_def)

text \<open>Applying the rule over the whole graph ends.\<close>

lemma fuse_rewrite_ends: "\<exists>st'. rewrite_loop make_fuse_matmul_bias_relu_rule i st = Some st'"
proof (induction "length (cg_nodes (fst st)) - i" arbitrary: i st rule: less_induct)
  case less
  let ?st' = "if fuse_match (fst st) i then (fuse_replace (fst st) i, snd st + 1) else st"
  show ?case
  proof (cases "i < length (cg_nodes (fst st))")
    case True
    then have "length (cg_nodes (fst ?st')) - Suc i < length (cg_nodes (fst st)) - i"
      using fuse_replace_length [of "fst st" i] by auto
    note ends = less [OF this]
    have "rewrite_loop make_fuse_matmul_bias_relu_rule i st = rewrite_loop make_fuse_matmul_bias_relu_rule (Suc i) ?st'"
      using True by (subst rewrite_loop.simps) (simp add: make_fuse_matmul_bias_relu_rule_def)
    with ends show ?thesis by simp
  next
    case False
    then show ?thesis by (subst rewrite_loop.simps) simp
  qed
qed

text \<open>The rule does not look at other consumers of the tensors it removes: here node 3 reads the output
  of the matrix product, which no node produces after the rewrite.\<close>

definition shared_graph :: CerberusGraph where
  "shared_graph = \<lparr>cg_nodes = [demo_node 0 Op_MatMul [''a''] [''b''], demo_node 1 Op_Add [''b'', ''bias''] [''c''],
     demo_node 2 Op_Relu [''c''] [''d''], demo_node 3 Op_Mul [''b'', ''d''] [''e'']], cg_tensors = []\<rparr>"

lemma fuse_orphans_consumer:
  "map_option (\<lambda>(g, n). (n, map gn_id (cg_nodes g), map gn_outputs (cg_nodes g), gn_inputs (cg_nodes g ! 1)))
     (apply_rewrites shared_graph [make_fuse_matmul_bias_relu_rule])
   = Some (1, [0, 3], [[''d''], [''e'']], [''b'', ''d''])"
  by code_simp

end
