(* ===== verification/Decision_Props.thy ===== *)
theory Decision_Props
  imports Decision_Engine Graph_Props
begin

text \<open>
  Every plan of the decision engine covers the graph: no node is lost by the fusion pass, and a node
  that is not an addition is executed exactly once.  The two lemmas at the end show what fusion does not
  keep: an addition of two products is executed twice, and a fused addition can run before the producer of
  its other operand.
\<close>

subsection \<open>The annotated graph\<close>

definition bare :: "CerberusGraph \<Rightarrow> GraphNode list" where
  "bare g = map (\<lambda>n. n\<lparr>execution_backend := []\<rparr>) (cg_nodes g)"

lemma map_update_same: "f y = f (xs ! i) \<Longrightarrow> map f (xs[i := y]) = map f xs"
  by (metis length_list_update list_update_beyond list_update_id map_update not_le)

lemma bare_set_backend [simp]: "bare (set_backend i l g) = bare g"
  by (simp add: bare_def set_backend_def map_update_same split: option.splits)

lemma gn_id_bare: "map gn_id (bare g) = map gn_id (cg_nodes g)"
  by (simp add: bare_def)

lemma plan_loop_props:
  "plan_loop cfg npu warm target ns g = (plan, g') \<Longrightarrow>
     map node_ids plan = map (\<lambda>n. [gn_id n]) ns \<and> bare g' = bare g"
proof (induction ns arbitrary: g plan)
  case (Cons n ns)
  let ?step = "make_step cfg npu warm target g n"
  obtain plan0 where p: "plan = ?step # plan0"
    "plan_loop cfg npu warm target ns (set_backend (gn_id n) (backend_label (step_backend ?step)) g) = (plan0, g')"
    using Cons.prems by (auto simp: Let_def split: prod.splits)
  have "node_ids ?step = [gn_id n]"
    by (simp add: make_step_def Let_def reevaluate_tier_def)
  with Cons.IH [OF p(2)] p(1) show ?case by simp
qed (simp add: bare_def)

lemma bare_ids: "bare g' = bare g \<Longrightarrow> map gn_id (cg_nodes g') = map gn_id (cg_nodes g)"
  by (metis gn_id_bare)

lemma bare_node:
  assumes "bare g' = bare g" "m \<in> set (cg_nodes g')"
  shows "\<exists>n \<in> set (cg_nodes g). gn_id n = gn_id m \<and> gn_op n = gn_op m"
proof -
  have "m\<lparr>execution_backend := []\<rparr> \<in> set (bare g)"
    unfolding assms(1) [symmetric] using assms(2) by (simp add: bare_def)
  then obtain n where n: "n \<in> set (cg_nodes g)" "m\<lparr>execution_backend := []\<rparr> = n\<lparr>execution_backend := []\<rparr>"
    by (auto simp: bare_def)
  have "gn_id m = gn_id n" "gn_op m = gn_op n"
    using arg_cong [OF n(2), of gn_id] arg_cong [OF n(2), of gn_op] by simp_all
  with n(1) show ?thesis by (intro bexI [of _ n]) simp_all
qed

lemma node_by_id_Some: "node_by_id g i = Some n \<Longrightarrow> n \<in> set (cg_nodes g) \<and> gn_id n = i"
  using find_first_SomeD [of "\<lambda>n. gn_id n = i" "cg_nodes g"]
  by (auto simp: node_by_id_def node_index_def)

subsection \<open>Fusion\<close>

lemma fusion_partner_Some:
  "fusion_partner g s = Some (m, a) \<Longrightarrow>
     node_ids s = [gn_id m] \<and> m \<in> set (cg_nodes g) \<and> a \<in> set (cg_nodes g) \<and> gn_op a = Op_Add"
  by (cases "node_ids s") (auto simp: fusion_partner_def dest: node_by_id_Some split: if_splits option.splits list.splits)

lemma fuse_step_ids:
  "node_ids (fuse_step g s) = (case fusion_partner g s of None \<Rightarrow> node_ids s | Some (m, a) \<Rightarrow> [gn_id m, gn_id a])"
  by (auto simp: fuse_step_def split: option.splits)

lemma fused_adds_iff: "i \<in> set (fused_adds g plan) \<longleftrightarrow> (\<exists>s \<in> set plan. \<exists>m a. fusion_partner g s = Some (m, a) \<and> gn_id a = i)"
  by (force simp: fused_adds_def map_filter_def)

lemma power_override_ids [simp]: "node_ids (power_override s) = node_ids s"
  by (simp add: power_override_def)

lemma fuse_keeps_nodes:
  assumes "map node_ids plan = map (\<lambda>n. [gn_id n]) (cg_nodes g)"
    and "\<And>m. m \<in> set (cg_nodes g') \<Longrightarrow> gn_id m \<in> gn_id ` set (cg_nodes g)"
  shows "set (concat (map node_ids (fuse_elementwise_chain cfg g' plan))) = gn_id ` set (cg_nodes g)"
proof (cases "fuse_elementwise cfg")
  case False
  then show ?thesis
    by (auto simp: fuse_elementwise_chain_def assms(1))
next
  case True
  let ?A = "set (fused_adds g' plan)"
  let ?keep = "\<lambda>s. \<not> (length (node_ids s) = 1 \<and> hd (node_ids s) \<in> ?A)"
  have L: "set (concat (map node_ids (fuse_elementwise_chain cfg g' plan)))
      = (\<Union>s \<in> {s \<in> set plan. ?keep (fuse_step g' s)}. set (node_ids (fuse_step g' s)))"
    using True by (auto simp: fuse_elementwise_chain_def)
  have step: "\<exists>n \<in> set (cg_nodes g). node_ids s = [gn_id n]" if "s \<in> set plan" for s
    using arg_cong [OF assms(1), of set] that by (auto simp: image_iff)
  show ?thesis
  proof (intro equalityI subsetI)
    fix i assume "i \<in> set (concat (map node_ids (fuse_elementwise_chain cfg g' plan)))"
    then obtain s where s: "s \<in> set plan" "i \<in> set (node_ids (fuse_step g' s))"
      unfolding L by blast
    show "i \<in> gn_id ` set (cg_nodes g)"
    proof (cases "fusion_partner g' s")
      case None
      with s step [OF s(1)] show ?thesis by (auto simp: fuse_step_ids)
    next
      case (Some p)
      obtain m a where p: "p = (m, a)" by fastforce
      show ?thesis
        using s(2) fusion_partner_Some [of g' s m a] assms(2) Some by (auto simp: fuse_step_ids p)
    qed
  next
    fix i assume "i \<in> gn_id ` set (cg_nodes g)"
    then have "[i] \<in> set (map node_ids plan)"
      unfolding assms(1) by auto
    then obtain s where s: "s \<in> set plan" "node_ids s = [i]" by auto
    consider (add) s' m a where "s' \<in> set plan" "fusion_partner g' s' = Some (m, a)" "gn_id a = i"
      | (mul) m a where "fusion_partner g' s = Some (m, a)" | (plain) "i \<notin> ?A" "fusion_partner g' s = None"
      using fused_adds_iff [of i g' plan] by (cases "fusion_partner g' s") auto
    then show "i \<in> set (concat (map node_ids (fuse_elementwise_chain cfg g' plan)))"
    proof cases
      case add
      then show ?thesis unfolding L by (intro UN_I [of s']) (simp_all add: fuse_step_ids)
    next
      case mul
      then have "gn_id m = i"
        using fusion_partner_Some [OF mul] s(2) by simp
      with mul s(1) show ?thesis unfolding L by (intro UN_I [of s]) (simp_all add: fuse_step_ids)
    next
      case plain
      with s show ?thesis unfolding L by (intro UN_I [of s]) (simp_all add: fuse_step_ids)
    qed
  qed
qed

lemma length_filter_map: "length (filter P (map f xs)) = length (filter (\<lambda>x. P (f x)) xs)"
  by (induction xs) simp_all

lemma fuse_executes_once:
  assumes "map node_ids plan = map (\<lambda>n. [gn_id n]) (cg_nodes g)" "distinct (map gn_id (cg_nodes g))"
    and n: "n \<in> set (cg_nodes g)"
    and no_add: "\<And>a. a \<in> set (cg_nodes g') \<Longrightarrow> gn_op a = Op_Add \<Longrightarrow> gn_id a \<noteq> gn_id n"
  shows "length (filter (\<lambda>s. gn_id n \<in> set (node_ids s)) (fuse_elementwise_chain cfg g' plan)) = 1"
proof -
  have single: "\<exists>k. node_ids s = [k]" if "s \<in> set plan" for s
  proof -
    have "node_ids s \<in> set (map (\<lambda>n. [gn_id n]) (cg_nodes g))"
      using that by (simp flip: assms(1))
    then show ?thesis by auto
  qed
  have "length (filter (\<lambda>s. node_ids s = [gn_id n]) plan) = length (filter (\<lambda>l. l = [gn_id n]) (map node_ids plan))"
    by (rule length_filter_map [symmetric])
  also have "\<dots> = length (filter (\<lambda>m. gn_id m = gn_id n) (cg_nodes g))"
    unfolding assms(1) length_filter_map by simp
  also have "\<dots> = 1"
    using filter_one [OF assms(2) n, of "\<lambda>_. True"] by simp
  finally have once: "length (filter (\<lambda>s. node_ids s = [gn_id n]) plan) = 1" .
  show ?thesis
  proof (cases "fuse_elementwise cfg")
    case False
    have "filter (\<lambda>s. gn_id n \<in> set (node_ids s)) plan = filter (\<lambda>s. node_ids s = [gn_id n]) plan"
      using single by (intro filter_cong) force+
    with False once show ?thesis by (simp add: fuse_elementwise_chain_def)
  next
    case True
    have A: "gn_id n \<notin> set (fused_adds g' plan)"
      unfolding fused_adds_iff using fusion_partner_Some no_add by metis
    have iff: "(\<not> (length (node_ids (fuse_step g' s)) = 1 \<and> hd (node_ids (fuse_step g' s)) \<in> set (fused_adds g' plan))
        \<and> gn_id n \<in> set (node_ids (fuse_step g' s))) \<longleftrightarrow> node_ids s = [gn_id n]" if "s \<in> set plan" for s
    proof -
      have "\<exists>k. node_ids s = [k]" by (rule single [OF that])
      then obtain k where k: "node_ids s = [k]" by blast
      show ?thesis
      proof (cases "fusion_partner g' s")
        case None
        with k A show ?thesis by (auto simp: fuse_step_ids)
      next
        case (Some p)
        obtain m a where p: "p = (m, a)" by fastforce
        have "k = gn_id m" "gn_id a \<noteq> gn_id n"
          using fusion_partner_Some [of g' s m a] no_add [of a] Some k by (simp_all add: p)
        with Some k show ?thesis by (auto simp: fuse_step_ids p)
      qed
    qed
    have "length (filter (\<lambda>s. gn_id n \<in> set (node_ids s)) (fuse_elementwise_chain cfg g' plan))
        = length (filter (\<lambda>s. \<not> (length (node_ids (fuse_step g' s)) = 1
            \<and> hd (node_ids (fuse_step g' s)) \<in> set (fused_adds g' plan)) \<and> gn_id n \<in> set (node_ids (fuse_step g' s))) plan)"
      using True by (simp add: fuse_elementwise_chain_def filter_filter filter_map comp_def conj_commute)
    also have "\<dots> = length (filter (\<lambda>s. node_ids s = [gn_id n]) plan)"
      using iff by (intro arg_cong [of _ _ length] filter_cong) auto
    finally show ?thesis using once by simp
  qed
qed

text \<open>C12. Planning a non-empty graph with distinct ids always succeeds, and the plan covers the graph: the
  nodes that occur in its steps are exactly the nodes of the graph, every node that is not an addition
  occurs in exactly one step, and the graph is unchanged but for the routing annotation.\<close>

theorem plan_covers_graph:
  assumes "distinct (map gn_id (cg_nodes g))" and "cg_nodes g \<noteq> []"
  shows "\<exists>plan g'. analyse cfg npu warm target g = (Inr plan, g')
    \<and> set (concat (map node_ids plan)) = gn_id ` set (cg_nodes g)
    \<and> (\<forall>n \<in> set (cg_nodes g). gn_op n \<noteq> Op_Add \<longrightarrow>
          length (filter (\<lambda>s. gn_id n \<in> set (node_ids s)) plan) = 1)
    \<and> bare g' = bare g"
proof -
  obtain steps g' where pl: "plan_loop cfg npu warm target (cg_nodes g) g = (steps, g')"
    by fastforce
  note steps = plan_loop_props [OF pl]
  define plan1 where "plan1 = fuse_elementwise_chain cfg g' steps"
  define plan2 where "plan2 = (if power_low cfg then map power_override plan1 else plan1)"
  have ids2: "map node_ids plan2 = map node_ids plan1"
    by (simp add: plan2_def)
  have ids: "gn_id m \<in> gn_id ` set (cg_nodes g)" if "m \<in> set (cg_nodes g')" for m
    using bare_node [OF conjunct2 [OF steps] that] by (metis imageI)
  have cover: "set (concat (map node_ids plan2)) = gn_id ` set (cg_nodes g)"
    unfolding ids2 plan1_def using fuse_keeps_nodes [of steps g g' cfg] steps ids by blast
  then have "plan2 \<noteq> []"
    using assms(2) by auto
  then have run: "analyse cfg npu warm target g = (Inr plan2, g')"
    using assms(2) by (simp add: analyse_def pl Let_def plan1_def [symmetric] plan2_def split: if_splits)
  have "length (filter (\<lambda>s. gn_id n \<in> set (node_ids s)) plan2) = 1"
    if n: "n \<in> set (cg_nodes g)" "gn_op n \<noteq> Op_Add" for n
  proof -
    have "gn_id a \<noteq> gn_id n" if a: "a \<in> set (cg_nodes g')" "gn_op a = Op_Add" for a
    proof -
      obtain b where b: "b \<in> set (cg_nodes g)" "gn_id b = gn_id a" "gn_op b = gn_op a"
        using bare_node [OF conjunct2 [OF steps] a(1)] by blast
      with n a(2) assms(1) show ?thesis
        by (metis distinct_map inj_onD)
    qed
    then have "length (filter (\<lambda>s. gn_id n \<in> set (node_ids s)) plan1) = 1"
      unfolding plan1_def using fuse_executes_once [of steps g n g' cfg] steps assms(1) n(1) by blast
    moreover have "length (filter (\<lambda>s. gn_id n \<in> set (node_ids s)) p)
        = length (filter (\<lambda>l. gn_id n \<in> set l) (map node_ids p))" for p :: "ExecutionStep list"
      by (rule length_filter_map [symmetric])
    ultimately show ?thesis
      using ids2 by metis
  qed
  with run cover steps show ?thesis by blast
qed

definition planner_config :: DecisionConfig where
  "planner_config = \<lparr>matmul_native_max_mnk = 64, fuse_elementwise = True, power_low = False\<rparr>"

definition late_operand :: CerberusGraph where
  "late_operand = \<lparr>cg_nodes = [demo_node 0 Op_Mul [''a'', ''b''] [''m''], demo_node 1 Op_Relu [''c''] [''r''],
     demo_node 2 Op_Add [''m'', ''r''] [''o'']], cg_tensors = []\<rparr>"

definition two_products :: CerberusGraph where
  "two_products = \<lparr>cg_nodes = [demo_node 0 Op_Mul [''a'', ''b''] [''m''], demo_node 1 Op_Mul [''c'', ''d''] [''n''],
     demo_node 2 Op_Add [''m'', ''n''] [''o'']], cg_tensors = []\<rparr>"

theorem plan_covers_graph_witness:
  "\<exists>plan g'. analyse planner_config False False ''cpu'' late_operand = (Inr plan, g')
    \<and> set (concat (map node_ids plan)) = {0, 1, 2}"
  using plan_covers_graph [of late_operand planner_config False False "''cpu''"]
  by (auto simp: late_operand_def demo_node_def)

text \<open>The fused step stands where the multiplication stood: here the addition (node 2) is executed before
  node 1, which produces its second operand, although the graph was topologically sorted.  And an addition
  of two products is fused with both, so it is executed twice, first without its second operand.\<close>

lemma fusion_breaks_order:
  "(case fst (analyse planner_config False False ''cpu'' late_operand) of Inr plan \<Rightarrow> map node_ids plan | Inl _ \<Rightarrow> [])
     = [[0, 2], [1]]"
  by code_simp

lemma fusion_repeats_addition:
  "(case fst (analyse planner_config False False ''cpu'' two_products) of Inr plan \<Rightarrow> map node_ids plan | Inl _ \<Rightarrow> [])
     = [[0, 2], [1, 2]]"
  by code_simp

end
