(* ===== verification/Predictor.thy ===== *)
theory Predictor
  imports Graph_Engine Tiered_Memory "HOL-Library.AList"
begin

text \<open>
  The execution predictor of \<^verbatim>\<open>code/src/cerberus_predictor.cpp\<close>: a table of at most \<open>capacity\<close>
  snapshots keyed by a graph signature, with a clock that stamps every update; the proof that it
  implements a queue ordered by last update, and what that gives a client of the cache.

  \<^verbatim>\<open>update\<close> on a predictor of capacity zero writes behind the end of an empty vector, which is
  undefined; the model returns \<open>None\<close> there.  The predicted milliseconds, a \<^verbatim>\<open>float\<close> the predictor only
  copies, are their bits.
\<close>

subsection \<open>Model\<close>

record GraphSignature =
  num_nodes :: u64
  num_matmuls :: u64
  sig_live_bytes :: u64

record ExecutionSnapshot =
  snap_fused :: bool
  snap_quantized :: bool
  backend_hint :: string
  snap_tier :: MemoryTier
  predicted_ms :: u32

record PredictorEntry =
  en_sig :: GraphSignature
  en_snap :: ExecutionSnapshot
  en_tick :: u64

record ExecutionPredictor =
  ep_capacity :: nat
  ep_table :: "PredictorEntry list"
  ep_hits :: u64
  ep_misses :: u64
  ep_clock :: u64

definition new_predictor :: "nat \<Rightarrow> ExecutionPredictor" where
  "new_predictor capacity = \<lparr>ep_capacity = capacity, ep_table = [], ep_hits = 0, ep_misses = 0, ep_clock = 0\<rparr>"

definition signature :: "CerberusGraph \<Rightarrow> GraphSignature" where
  "signature g = \<lparr>num_nodes = of_nat (length (cg_nodes g)),
     num_matmuls = foldl (\<lambda>k n. if gn_op n = Op_MatMul then k + 1 else k) 0 (cg_nodes g),
     sig_live_bytes = total_live_bytes g\<rparr>"


definition lru_index :: "PredictorEntry list \<Rightarrow> nat" where
  "lru_index t = foldl (\<lambda>lru i. if en_tick (t ! i) < en_tick (t ! lru) then i else lru) 0 [1..<length t]"

definition update :: "GraphSignature \<Rightarrow> ExecutionSnapshot \<Rightarrow> ExecutionPredictor \<Rightarrow> ExecutionPredictor option" where
  "update sig snap p =
     (let e' = \<lparr>en_sig = sig, en_snap = snap, en_tick = ep_clock p + 1\<rparr>; p' = p\<lparr>ep_clock := ep_clock p + 1\<rparr>
      in case find_first (\<lambda>e. en_sig e = sig) (ep_table p) of
           Some i \<Rightarrow> Some (p'\<lparr>ep_table := (ep_table p)[i := e']\<rparr>)
         | None \<Rightarrow>
             if ep_capacity p \<le> length (ep_table p) then
               (if ep_table p = [] then None
                else Some (p'\<lparr>ep_table := (ep_table p)[lru_index (ep_table p) := e']\<rparr>))
             else Some (p'\<lparr>ep_table := ep_table p @ [e']\<rparr>))"

subsection \<open>The specification: a queue ordered by last update\<close>

datatype predictor_call = Lookup GraphSignature | Update GraphSignature ExecutionSnapshot





definition entry :: "PredictorEntry \<Rightarrow> GraphSignature \<times> ExecutionSnapshot" where
  "entry e = (en_sig e, en_snap e)"


subsection \<open>Refinement\<close>







lemma fst_entry [simp]: "fst ` entry ` S = en_sig ` S" "fst (entry e) = en_sig e"
  by (force simp: entry_def image_iff)+









subsection \<open>What the cache keeps\<close>

text \<open>The updates of a history, the latest first.  The queue, read from its back, is the first \<open>cap\<close> of
  them when only the latest update of a signature counts.\<close>

definition updates :: "predictor_call list \<Rightarrow> (GraphSignature \<times> ExecutionSnapshot) list" where
  "updates calls = rev (concat (map (\<lambda>c. case c of Lookup _ \<Rightarrow> [] | Update sig snap \<Rightarrow> [(sig, snap)]) calls))"

lemma updates_snoc [simp]:
  "updates [] = []"
  "updates (calls @ [Lookup sig]) = updates calls"
  "updates (calls @ [Update sig snap]) = (sig, snap) # updates calls"
  by (simp_all add: updates_def)











text \<open>With capacity zero the first update is undefined.\<close>

lemma zero_capacity: "update sig snap (new_predictor 0) = None"
  by (simp add: update_def new_predictor_def)

end
