(* ===== verification/Execution_Coordinator.thy ===== *)
theory Execution_Coordinator
  imports Tiered_Memory Graph_Engine
begin

text \<open>
  The execution coordinator of \<^verbatim>\<open>code/src/cerberus_execution_coordinator.cpp\<close>, the only caller of a
  back end: it stages the inputs of a kernel in tiered memory, allocates tiered outputs, runs the back
  end on them and copies the outputs to the caller.

  The caller's buffers live in the heap of the memory manager's state, at addresses the manager does not
  own; a null pointer is \<open>None\<close>.  The virtual method \<^verbatim>\<open>INpuBackend::execute\<close> is the argument \<open>exec\<close>, a
  function on the heap.  A block of the coldest tier has no address: copying through its pointer is a
  null access, the result \<open>NullAccess\<close>, after which nothing is said about the state.  The debug log is
  output only and is left out.
\<close>

subsection \<open>Data\<close>

datatype CerberusError =
    CE_Unknown | CE_DeviceNotFound | CE_NotImplemented | CE_InvalidArgument | CE_OutOfMemory
  | CE_RuntimeError | CE_CompilationError | CE_BackendCompileFailed | CE_BackendExecuteFailed
  | CE_EmptyExecutionPlan | CE_GraphEmpty | CE_ExecutionError | CE_UnsupportedOperation
  | CE_ConfigurationError | CE_NetworkError | CE_FileNotFound | CE_PermissionDenied | CE_Timeout

text \<open>The members of \<^verbatim>\<open>CompiledKernel\<close> that are values; the path of the binary, the native handle and its
  cleanup function belong to the vendor back ends.\<close>

record CompiledKernel =
  ck_target_name :: string
  ck_inputs :: "TensorDesc list"
  ck_outputs :: "TensorDesc list"
  ck_input_names :: "string list"
  ck_output_names :: "string list"
  ck_high_reuse_tensors :: "string list"
  ck_estimated_working_set_bytes :: u64
  ck_graph_nodes :: "KernelNode list"
  ck_compiled :: bool

type_synonym backend_execute =
  "CompiledKernel \<Rightarrow> address option list \<Rightarrow> address option list \<Rightarrow> heap \<Rightarrow> (string, unit) expected \<times> heap"

datatype run_result = Finished "(CerberusError, unit) expected" | NullAccess | HookException

fun td_elem_size :: "DataType \<Rightarrow> u64" where
  "td_elem_size DT_F32 = 4"
| "td_elem_size DT_F16 = 2"
| "td_elem_size DT_I64 = 8"
| "td_elem_size DT_I32 = 4"
| "td_elem_size DT_I8 = 1"
| "td_elem_size DT_U8 = 1"
| "td_elem_size DT_IQ4_NL_Block = 1"
| "td_elem_size DT_Q4_K_Block = 1"

definition td_size_bytes :: "TensorDesc \<Rightarrow> u64" where
  "td_size_bytes d = foldl (\<lambda>n x. n * x) 1 (td_shape d) * td_elem_size (td_dtype d)"

definition cpu_fallback_execute :: backend_execute where
  "cpu_fallback_execute k ins outs hp = (Inr (), hp)"

subsection \<open>Tiers and errors\<close>

fun map_tier_error :: "TierError \<Rightarrow> CerberusError" where
  "map_tier_error OutOfMemory = CE_OutOfMemory"
| "map_tier_error InvalidHandle = CE_InvalidArgument"
| "map_tier_error MigrationFailed = CE_RuntimeError"
| "map_tier_error TierUnavailable = CE_UnsupportedOperation"
| "map_tier_error AlignmentError = CE_InvalidArgument"
| "map_tier_error InvalidSize = CE_InvalidArgument"

definition pick_input_tier :: "CompiledKernel \<Rightarrow> nat \<Rightarrow> MemoryTier" where
  "pick_input_tier k i =
     (if i < length (ck_input_names k) \<and> ck_input_names k ! i \<in> set (ck_high_reuse_tensors k)
      then Warm else Cool)"

definition pick_output_tier :: "CompiledKernel \<Rightarrow> nat \<Rightarrow> MemoryTier" where
  "pick_output_tier k i =
     (if i < length (ck_output_names k) \<and> ck_output_names k ! i \<in> set (ck_high_reuse_tensors k)
      then Warm else Cool)"

subsection \<open>Staging\<close>

text \<open>\<^verbatim>\<open>memcpy(dst, src, n)\<close> between two blocks.\<close>

definition memcpy :: "address \<Rightarrow> address \<Rightarrow> u64 \<Rightarrow> Tmm \<Rightarrow> Tmm" where
  "memcpy dst src n s =
     s\<lparr>tm_heap := (tm_heap s)(dst \<mapsto> overlay (take (unat n) (block_at src s)) (block_at dst s))\<rparr>"

definition tier_failure :: "tm_error \<Rightarrow> run_result" where
  "tier_failure e = (case e of Tier te \<Rightarrow> Finished (Inl (map_tier_error te)) | HookThrew \<Rightarrow> HookException)"

text \<open>The two staging loops, with the blocks allocated so far; \<open>Some r\<close> is an early return with \<open>r\<close>.\<close>

fun stage_inputs ::
  "tm_env \<Rightarrow> CompiledKernel \<Rightarrow> nat \<Rightarrow> (TensorDesc \<times> address) list \<Rightarrow> TierAllocation list \<Rightarrow> Tmm
   \<Rightarrow> run_result option \<times> TierAllocation list \<times> Tmm" where
  "stage_inputs ev k i [] allocs s = (None, allocs, s)"
| "stage_inputs ev k i ((d, user) # rest) allocs s =
     (case allocate ev (td_size_bytes d) (pick_input_tier k i) 0 s of
        (Inl e, s1) \<Rightarrow> (Some (tier_failure e), allocs, s1)
      | (Inr a, s1) \<Rightarrow>
          if ta_handle a = 0 then (Some (Finished (Inl CE_OutOfMemory)), allocs @ [a], s1)
          else case ta_ptr a of
                 None \<Rightarrow> (Some NullAccess, allocs @ [a], s1)
               | Some p \<Rightarrow>
                   stage_inputs ev k (Suc i) rest (allocs @ [a]) (memcpy p user (td_size_bytes d) s1))"

fun allocate_outputs ::
  "tm_env \<Rightarrow> CompiledKernel \<Rightarrow> nat \<Rightarrow> TensorDesc list \<Rightarrow> TierAllocation list \<Rightarrow> Tmm
   \<Rightarrow> run_result option \<times> TierAllocation list \<times> Tmm" where
  "allocate_outputs ev k i [] allocs s = (None, allocs, s)"
| "allocate_outputs ev k i (d # rest) allocs s =
     (case allocate ev (td_size_bytes d) (pick_output_tier k i) 0 s of
        (Inl e, s1) \<Rightarrow> (Some (tier_failure e), allocs, s1)
      | (Inr a, s1) \<Rightarrow>
          if ta_handle a = 0 then (Some (Finished (Inl CE_OutOfMemory)), allocs @ [a], s1)
          else allocate_outputs ev k (Suc i) rest (allocs @ [a]) s1)"

fun copy_outputs :: "(TensorDesc \<times> address \<times> address option) list \<Rightarrow> Tmm \<Rightarrow> Tmm option" where
  "copy_outputs [] s = Some s"
| "copy_outputs ((d, user, None) # rest) s = None"
| "copy_outputs ((d, user, Some p) # rest) s = copy_outputs rest (memcpy user p (td_size_bytes d) s)"

subsection \<open>Running a kernel\<close>

text \<open>The destructor of \<^verbatim>\<open>ScopedTierAlloc\<close>, and of a vector of them: first element first.\<close>

definition release_scoped :: "TierAllocation \<Rightarrow> Tmm \<Rightarrow> Tmm" where
  "release_scoped a s = (if ta_handle a \<noteq> 0 then snd (free_handle (ta_handle a) s) else s)"

definition release_all :: "TierAllocation list \<Rightarrow> Tmm \<Rightarrow> Tmm" where
  "release_all = fold release_scoped"

definition dispatch ::
  "backend_execute \<Rightarrow> CompiledKernel \<Rightarrow> address list \<Rightarrow> TierAllocation list \<Rightarrow> TierAllocation list \<Rightarrow> Tmm
   \<Rightarrow> run_result \<times> Tmm" where
  "dispatch exec k user_outputs ins outs s =
     (case exec k (map ta_ptr ins) (map ta_ptr outs) (tm_heap s) of
        (Inl msg, hp) \<Rightarrow> (Finished (Inl CE_BackendExecuteFailed), s\<lparr>tm_heap := hp\<rparr>)
      | (Inr u, hp) \<Rightarrow>
          (case copy_outputs (zip (ck_outputs k) (zip user_outputs (map ta_ptr outs))) (s\<lparr>tm_heap := hp\<rparr>) of
             None \<Rightarrow> (NullAccess, s\<lparr>tm_heap := hp\<rparr>)
           | Some s' \<Rightarrow> (Finished (Inr ()), s')))"

definition run ::
  "tm_env \<Rightarrow> backend_execute \<Rightarrow> CompiledKernel \<Rightarrow> address option list \<Rightarrow> address option list \<Rightarrow> Tmm
   \<Rightarrow> run_result \<times> Tmm" where
  "run ev exec k user_inputs user_outputs s =
     (if length user_inputs \<noteq> length (ck_inputs k) then (Finished (Inl CE_InvalidArgument), s)
      else if length user_outputs \<noteq> length (ck_outputs k) then (Finished (Inl CE_InvalidArgument), s)
      else if None \<in> set user_inputs then (Finished (Inl CE_InvalidArgument), s)
      else if None \<in> set user_outputs then (Finished (Inl CE_InvalidArgument), s)
      else case stage_inputs ev k 0 (zip (ck_inputs k) (map the user_inputs)) [] s of
             (Some r, ins, s1) \<Rightarrow> (r, release_all ins s1)
           | (None, ins, s1) \<Rightarrow>
               (case allocate_outputs ev k 0 (ck_outputs k) [] s1 of
                  (Some r, outs, s2) \<Rightarrow> (r, release_all ins (release_all outs s2))
                | (None, outs, s2) \<Rightarrow>
                    (case dispatch exec k (map the user_outputs) ins outs s2 of
                       (r, s3) \<Rightarrow> (r, release_all ins (release_all outs s3)))))"

definition fnv1a_bytes :: "byte list \<Rightarrow> u64" where
  "fnv1a_bytes bs = fold (\<lambda>b hash. (hash XOR ucast b) * 0x100000001b3) bs 0xcbf29ce484222325"

end
