(* ===== verification/Execution_Props.thy ===== *)
theory Execution_Props
  imports Execution_Coordinator Tiered_Props
begin

text \<open>
  The execution coordinator on top of the memory manager.  \<open>leased s0 as s\<close> says that \<open>s\<close> is \<open>s0\<close> plus
  the blocks \<open>as\<close>; staging extends a lease, the destructors shrink it, and an empty lease means that the
  manager is back where it was.  The main theorem is that a run that touches no null pointer hands the
  back end copies of the caller's inputs, returns its outputs, and leaves nothing behind.
\<close>

subsection \<open>Scoped resources\<close>

text \<open>What the destructor of one element must do for the destructor of a vector to release them all.\<close>

locale scoped_resource =
  fixes owns :: "'a list \<Rightarrow> 's \<Rightarrow> bool" and release :: "'a \<Rightarrow> 's \<Rightarrow> 's"
  assumes release_one: "owns (xs @ a # ys) s \<Longrightarrow> owns (xs @ ys) (release a s)"
begin

lemma release_vector: "owns (xs @ ys) s \<Longrightarrow> owns xs (fold release ys s)"
  by (induction ys arbitrary: s) (auto dest: release_one)

lemma release_scopes: "owns (xs @ ys) s \<Longrightarrow> owns [] (fold release xs (fold release ys s))"
  using release_vector [of "[]" xs] release_vector [of xs ys] by simp

end

subsection \<open>Leases\<close>

definition lease_frame :: "Tmm \<Rightarrow> TierHandle set \<Rightarrow> Tmm \<Rightarrow> bool" where
  "lease_frame s0 hs s \<longleftrightarrow> same_layout s0 s \<and>
     (\<forall>t. ac_capacity (tm_acct s t) = ac_capacity (tm_acct s0 t)) \<and>
     (\<forall>h. h \<notin> hs \<longrightarrow> smap_find (tm_registry s) h = smap_find (tm_registry s0) h) \<and>
     (\<forall>t. filter (\<lambda>h. h \<notin> hs) (tm_lru s t) = tm_lru s0 t)"

definition lease_heap :: "Tmm \<Rightarrow> address option set \<Rightarrow> Tmm \<Rightarrow> bool" where
  "lease_heap s0 ps s \<longleftrightarrow>
     (\<forall>p. Some p \<notin> ps \<longrightarrow> tm_heap s p = tm_heap s0 p) \<and> (\<forall>p. Some p \<in> ps \<longrightarrow> tm_heap s0 p = None)"

definition leased :: "Tmm \<Rightarrow> TierAllocation list \<Rightarrow> Tmm \<Rightarrow> bool" where
  "leased s0 as s \<longleftrightarrow> distinct (map ta_handle as) \<and>
     (\<forall>a \<in> set as. smap_find (tm_registry s) (ta_handle a) = Some a \<and>
        smap_find (tm_registry s0) (ta_handle a) = None) \<and>
     lease_frame s0 (ta_handle ` set as) s \<and> lease_heap s0 (ta_ptr ` set as) s"

lemma leased_refl: "leased s [] s"
  by (simp add: leased_def lease_frame_def lease_heap_def same_layout_def)

lemma leased_entry:
  assumes "leased s0 as s" and "a \<in> set as"
  shows "smap_find (tm_registry s) (ta_handle a) = Some a" and "smap_find (tm_registry s0) (ta_handle a) = None"
  using assms by (simp_all add: leased_def)

lemma leased_user: "leased s0 as s \<Longrightarrow> tm_heap s0 u \<noteq> None \<Longrightarrow> tm_heap s u = tm_heap s0 u"
  unfolding leased_def lease_heap_def by metis

lemma leased_mapped:
  "leased s0 as s \<Longrightarrow> tm_inv s \<Longrightarrow> a \<in> set as \<Longrightarrow> ta_ptr a = Some p \<Longrightarrow>
   \<exists>blk. tm_heap s p = Some blk \<and> unat (ta_size a) \<le> length blk"
  using leased_entry [of s0 as s a] heap_inv_entry [of s "ta_handle a" a] by (auto simp: tm_inv_def backed_def)

lemma leased_base: "leased s0 as s \<Longrightarrow> a \<in> set as \<Longrightarrow> ta_ptr a = Some p \<Longrightarrow> tm_heap s0 p = None"
  unfolding leased_def lease_heap_def by (metis image_eqI)

lemma leased_files [simp]: "leased s0 as (s\<lparr>tm_files := f\<rparr>) = leased s0 as s"
  by (simp add: leased_def lease_frame_def lease_heap_def same_layout_def)

lemma leased_added:
  assumes le: "leased s0 as s" and inv: "tm_inv s" and ad: "added a n s s'"
  shows "leased s0 (as @ [a]) s'"
proof -
  let ?h = "tm_next_handle s"
  have h: "ta_handle a = ?h" and fresh: "smap_find (tm_registry s) ?h = None"
    using ad inv by (simp_all add: added_def tm_inv_def fresh_handle)
  have new: "?h \<notin> ta_handle ` set as"
    using leased_entry [OF le] fresh by fastforce
  have fresh0: "smap_find (tm_registry s0) ?h = None"
    using le fresh new by (simp add: leased_def lease_frame_def)
  have unlisted: "?h \<notin> set (tm_lru s t)" for t
    using lru_entry [of s ?h t] inv fresh by (auto simp: tm_inv_def)
  have "filter (\<lambda>g. g \<notin> insert ?h (ta_handle ` set as)) (tm_lru s t) = tm_lru s0 t" for t
  proof -
    have "filter (\<lambda>g. g \<notin> insert ?h (ta_handle ` set as)) (tm_lru s t)
        = filter (\<lambda>g. g \<notin> ta_handle ` set as) (tm_lru s t)"
      by (rule filter_cong) (use unlisted in auto)
    then show ?thesis
      using le by (simp add: leased_def lease_frame_def)
  qed
  moreover have "tm_lru s' t = (if t = ta_tier a then ?h # tm_lru s t else tm_lru s t)" for t
    using ad h by (simp add: added_def)
  ultimately have lru: "filter (\<lambda>g. g \<notin> ta_handle ` set (as @ [a])) (tm_lru s' t) = tm_lru s0 t" for t
    by (simp add: h)
  have cap: "ac_capacity (tm_acct s' t) = ac_capacity (tm_acct s t)" for t
    using ad by (simp add: added_def)
  have "lease_frame s0 (ta_handle ` set (as @ [a])) s'"
    unfolding lease_frame_def using lru cap le h added_layout [OF ad] added_find [OF ad]
    by (auto simp: leased_def lease_frame_def same_layout_def)
  moreover have "lease_heap s0 (ta_ptr ` set (as @ [a])) s'"
  proof (cases "ta_ptr a")
    case None
    then have "tm_heap s' = tm_heap s"
      using ad by (simp add: added_def)
    then show ?thesis
      using le None by (simp add: leased_def lease_heap_def)
  next
    case (Some p)
    then obtain blk where "tm_heap s p = None" "tm_heap s' = (tm_heap s)(p \<mapsto> blk)"
      using ad by (auto simp: added_def)
    moreover have lh: "lease_heap s0 (ta_ptr ` set as) s"
      using le by (simp add: leased_def)
    then have "tm_heap s0 p = None"
      using \<open>tm_heap s p = None\<close> unfolding lease_heap_def by metis
    ultimately show ?thesis
      using Some lh by (simp add: lease_heap_def)
  qed
  moreover have "smap_find (tm_registry s') (ta_handle b) = Some b \<and> smap_find (tm_registry s0) (ta_handle b) = None"
    if "b \<in> set (as @ [a])" for b
  proof (cases "b \<in> set as")
    case True
    then have "ta_handle b \<noteq> ?h"
      using new by (metis image_eqI)
    then show ?thesis
      using leased_entry [OF le True] by (simp add: added_find [OF ad])
  qed (use that h fresh0 added_find [OF ad] in simp)
  moreover have "distinct (map ta_handle (as @ [a]))"
    using le h new by (simp add: leased_def)
  ultimately show ?thesis
    by (simp add: leased_def)
qed

lemma leased_dropped:
  assumes le: "leased s0 (xs @ a # ys) s" and inv: "tm_inv s" and dr: "dropped (ta_handle a) a s s'"
  shows "leased s0 (xs @ ys) s'"
proof -
  let ?h = "ta_handle a"
  have a: "smap_find (tm_registry s) ?h = Some a" "smap_find (tm_registry s0) ?h = None"
    and nin: "?h \<notin> ta_handle ` set (xs @ ys)"
    using le by (auto simp: leased_def)
  have "?h \<notin> set (tm_lru s t)" if "t \<noteq> ta_tier a" for t
    using lru_entry [of s ?h t] inv a that by (auto simp: tm_inv_def)
  then have lru: "tm_lru s' t = filter (\<lambda>x. x \<noteq> ?h) (tm_lru s t)" for t
    using dr by (auto simp: dropped_def Let_def intro!: filter_True [symmetric])
  have fr: "lease_frame s0 (ta_handle ` set (xs @ ys)) s'"
    unfolding lease_frame_def lru dropped_sel(2,4) [OF dr]
    using le a dropped_layout [OF dr]
    by (auto simp: leased_def lease_frame_def same_layout_def intro!: filter_cong)
  have other: "ta_ptr b \<noteq> Some p" if "b \<in> set (xs @ ys)" "ta_ptr a = Some p" for b p
    using heap_inv_unique [of s ?h a "ta_handle b" b p] leased_entry [OF le, of b] a inv that nin
    by (auto simp: tm_inv_def)
  have "lease_heap s0 (ta_ptr ` set (xs @ ys)) s'"
    unfolding lease_heap_def dropped_sel(5) [OF dr]
    using le other by (cases "ta_ptr a") (auto simp: leased_def lease_heap_def)
  moreover have "smap_find (tm_registry s') (ta_handle b) = Some b \<and> smap_find (tm_registry s0) (ta_handle b) = None"
    if b: "b \<in> set (xs @ ys)" for b
  proof -
    have "ta_handle b \<noteq> ?h"
      using nin b by (metis image_eqI)
    moreover have "b \<in> set (xs @ a # ys)"
      using b by auto
    ultimately show ?thesis
      using leased_entry [OF le] unfolding dropped_sel(4) [OF dr] by simp
  qed
  moreover have "distinct (map ta_handle (xs @ ys))"
    using le by (simp add: leased_def)
  ultimately show ?thesis
    using fr by (simp add: leased_def)
qed

definition tier_owns :: "Tmm \<Rightarrow> TierAllocation list \<Rightarrow> Tmm \<Rightarrow> bool" where
  "tier_owns s0 as s \<longleftrightarrow> tm_inv s \<and> leased s0 as s"

lemma release_scoped_owns:
  assumes "tier_owns s0 (xs @ a # ys) s"
  shows "tier_owns s0 (xs @ ys) (release_scoped a s)"
proof -
  have inv: "tm_inv s" and le: "leased s0 (xs @ a # ys) s"
    using assms by (simp_all add: tier_owns_def)
  have a: "smap_find (tm_registry s) (ta_handle a) = Some a"
    using leased_entry [OF le] by simp
  then have "ta_handle a \<noteq> 0"
    using reg_block [of s "ta_handle a" a] inv by (auto simp: tm_inv_def block_wf_def)
  then show ?thesis
    using free_dropped [OF inv a] leased_dropped [OF le inv] dropped_inv [OF _ inv a]
    by (simp add: tier_owns_def release_scoped_def)
qed

interpretation scoped_tier: scoped_resource "tier_owns s0" release_scoped for s0
  by unfold_locales (rule release_scoped_owns)

lemma restored_lease:
  assumes le: "leased (s\<lparr>tm_heap := hp\<rparr>) [] s'" and inv: "tm_inv s" and inv': "tm_inv s'"
  shows "tm_registry s' = tm_registry s" and "tm_lru s' = tm_lru s" and "tm_heap s' = hp"
    and "ac_allocated (tm_acct s' t) = ac_allocated (tm_acct s t)"
    and "tm_warm_res s' = tm_warm_res s" and "tm_cool_res s' = tm_cool_res s"
proof -
  have fr: "lease_frame (s\<lparr>tm_heap := hp\<rparr>) {} s'" and "lease_heap (s\<lparr>tm_heap := hp\<rparr>) {} s'"
    using le by (simp_all add: leased_def)
  then show "tm_heap s' = hp" "tm_lru s' = tm_lru s"
    by (simp_all add: lease_heap_def lease_frame_def fun_eq_iff)
  show reg: "tm_registry s' = tm_registry s"
    by (rule smap_ext) (use inv inv' fr in \<open>simp_all add: tm_inv_def inv_reg_def lease_frame_def\<close>)
  have lay: "same_layout s s'"
    using fr by (simp add: lease_frame_def same_layout_def)
  have "used t s' = used t s" for t
    by (simp add: used_def reg same_layout_simps [OF lay])
  then have acct: "ac_allocated (tm_acct s' t) = ac_allocated (tm_acct s t)" for t
    using inv inv' by (simp add: tm_inv_def inv_acct_def word_unat_eq_iff)
  then show "ac_allocated (tm_acct s' t) = ac_allocated (tm_acct s t)" .
  have cap: "ac_capacity (tm_acct s' t) = ac_capacity (tm_acct s t)" for t
    using fr by (simp add: lease_frame_def)
  show "tm_warm_res s' = tm_warm_res s" "tm_cool_res s' = tm_cool_res s"
    using inv inv' acct cap lay
    by (auto intro!: PmrResource.equality simp: tm_inv_def inv_cfg_def inv_pmr_def same_layout_def)
qed

lemma heap_change_inv:
  assumes "tm_inv s" and "\<And>p. map_option length (hp p) = map_option length (tm_heap s p)"
  shows "tm_inv (s\<lparr>tm_heap := hp\<rparr>)"
proof (rule same_core_inv [OF _ assms(1)])
  have "backed hp a" if bk: "backed (tm_heap s) a" for a
  proof (cases "ta_ptr a")
    case (Some p)
    then obtain blk where "tm_heap s p = Some blk" "unat (ta_size a) \<le> length blk" "in_ram a"
      using bk by (auto simp: backed_def)
    then show ?thesis
      using Some assms(2) [of p] by (auto simp: backed_def)
  qed (use bk in \<open>simp add: backed_def\<close>)
  then show "inv_heap (s\<lparr>tm_heap := hp\<rparr>)"
    using assms(1) by (simp add: tm_inv_def inv_heap_def)
qed (simp add: same_core_def)

lemma leased_write:
  "leased s0 as s \<Longrightarrow> (\<And>p. Some p \<notin> ta_ptr ` set as \<Longrightarrow> hp p = tm_heap s p) \<Longrightarrow> leased s0 as (s\<lparr>tm_heap := hp\<rparr>)"
  by (simp add: leased_def lease_frame_def lease_heap_def same_layout_def)

lemma leased_user_write:
  "leased s0 as s \<Longrightarrow> tm_heap s0 u \<noteq> None \<Longrightarrow>
   leased (s0\<lparr>tm_heap := (tm_heap s0)(u \<mapsto> bs)\<rparr>) as (s\<lparr>tm_heap := (tm_heap s)(u \<mapsto> bs)\<rparr>)"
  by (auto simp: leased_def lease_frame_def lease_heap_def same_layout_def)


subsection \<open>Staging\<close>

text \<open>The first \<open>n\<close> bytes behind a pointer.\<close>

definition data_at :: "heap \<Rightarrow> address option \<Rightarrow> u64 \<Rightarrow> byte list" where
  "data_at hp q n = (case q of None \<Rightarrow> [] | Some p \<Rightarrow> take (unat n) (case hp p of None \<Rightarrow> [] | Some blk \<Rightarrow> blk))"

definition readable :: "heap \<Rightarrow> TensorDesc \<Rightarrow> address \<Rightarrow> bool" where
  "readable hp d u \<longleftrightarrow> (\<exists>blk. hp u = Some blk \<and> unat (td_size_bytes d) \<le> length blk)"

definition staged_copy :: "Tmm \<Rightarrow> Tmm \<Rightarrow> TensorDesc \<times> address \<Rightarrow> TierAllocation \<Rightarrow> bool" where
  "staged_copy s0 s = (\<lambda>(d, u) a. ta_ptr a \<noteq> None \<and>
     data_at (tm_heap s) (ta_ptr a) (td_size_bytes d) = data_at (tm_heap s0) (Some u) (td_size_bytes d))"

lemma data_at_cong: "(\<And>p. q = Some p \<Longrightarrow> hp p = hp' p) \<Longrightarrow> data_at hp q n = data_at hp' q n"
  by (simp add: data_at_def split: option.splits)

lemma staged_copies_cong:
  assumes "list_all2 (staged_copy s0 s) ds as"
    and "\<And>a p. a \<in> set as \<Longrightarrow> ta_ptr a = Some p \<Longrightarrow> tm_heap s' p = tm_heap s p"
  shows "list_all2 (staged_copy s0 s') ds as"
  using assms(1)
proof (rule list.rel_mono_strong)
  fix z a
  assume "z \<in> set ds" "a \<in> set as" "staged_copy s0 s z a"
  then show "staged_copy s0 s' z a"
    using data_at_cong [of "ta_ptr a" "tm_heap s'" "tm_heap s"] assms(2) by (auto simp: staged_copy_def)
qed

text \<open>What an allocation does to a lease.\<close>

lemma allocate_lease:
  assumes al: "allocate ev sz t 0 s = (Inr a, s1)" and ow: "tier_owns s0 as s" and ev: "env_ok ev"
    and room: "handle_room (Suc m) s" and sz: "unat sz \<le> 2 ^ 62"
  shows "tier_owns s0 (as @ [a]) s1" and "handle_room m s1" and "ta_size a = sz" and "ta_handle a \<noteq> 0"
    and "\<And>b p. b \<in> set as \<Longrightarrow> ta_ptr b = Some p \<Longrightarrow> tm_heap s1 p = tm_heap s p \<and> ta_ptr a \<noteq> Some p"
proof -
  have inv: "tm_inv s" and le: "leased s0 as s"
    using ow by (simp_all add: tier_owns_def)
  have inv1: "tm_inv s1"
    using allocate_inv [OF al inv ev handle_room_left [OF room] sz] by simp
  from al inv ev obtain f n where ad: "added a n (s\<lparr>tm_files := f\<rparr>) s1" and size: "ta_size a = sz"
    by (rule allocate_Inr)
  have le1: "leased s0 (as @ [a]) s1"
    using leased_added [OF _ _ ad] le inv by simp
  show "tier_owns s0 (as @ [a]) s1" "ta_size a = sz"
    using le1 inv1 size by (simp_all add: tier_owns_def)
  show "handle_room m s1"
    using handle_room_next [OF room] ad by (simp add: added_def)
  show "ta_handle a \<noteq> 0"
    using reg_block [of s1 "ta_handle a" a] leased_entry(1) [OF le1, of a] inv1
    by (auto simp: tm_inv_def block_wf_def)
  show "tm_heap s1 p = tm_heap s p \<and> ta_ptr a \<noteq> Some p" if "b \<in> set as" "ta_ptr b = Some p" for b p
    using leased_mapped [OF le inv that] ad by (auto simp: added_def split: option.splits)
qed

lemma allocate_fails:
  assumes "allocate ev sz t al s = (Inl e, s1)" and "tier_owns s0 as s"
  shows "tier_owns s0 as s1" and "tier_failure e \<noteq> NullAccess" and "tier_failure e \<noteq> HookException"
    and "tier_failure e \<noteq> Finished (Inr ())" and "tm_heap s1 = tm_heap s"
proof -
  obtain f where "s1 = s\<lparr>tm_files := f\<rparr>"
    using allocate_Inl [OF assms(1)] by auto
  then show "tier_owns s0 as s1" "tm_heap s1 = tm_heap s"
    using assms(2) by (simp_all add: tier_owns_def)
  have "\<exists>te. e = Tier te"
    using assms(1) by (auto simp: allocate_def split: if_splits dest!: allocate_from_Inl)
  then show "tier_failure e \<noteq> NullAccess" "tier_failure e \<noteq> HookException"
    "tier_failure e \<noteq> Finished (Inr ())"
    by (auto simp: tier_failure_def)
qed

lemma memcpy_heap [simp]:
  "tm_heap (memcpy dst src n s) =
     (tm_heap s)(dst \<mapsto> overlay (take (unat n) (block_at src s)) (block_at dst s))"
  by (simp add: memcpy_def)

lemma memcpy_inv:
  assumes "tm_inv s" and "tm_heap s dst \<noteq> None"
  shows "tm_inv (memcpy dst src n s)"
  unfolding memcpy_def by (rule heap_change_inv [OF assms(1)]) (use assms(2) in \<open>auto simp: block_at_def\<close>)

lemma memcpy_data:
  assumes "tm_heap s src = Some blk" and "unat n \<le> length blk"
    and "tm_heap s dst = Some blk'" and "unat n \<le> length blk'"
  shows "data_at (tm_heap (memcpy dst src n s)) (Some dst) n = data_at (tm_heap s) (Some src) n"
  using assms by (simp add: data_at_def block_at_def overlay_take)

lemma memcpy_lease:
  assumes ow: "tier_owns s0 as s" and a: "a \<in> set as" "ta_ptr a = Some p" "ta_size a = td_size_bytes d"
    and u: "readable (tm_heap s0) d u"
  shows "tier_owns s0 as (memcpy p u (td_size_bytes d) s)"
    and "staged_copy s0 (memcpy p u (td_size_bytes d) s) (d, u) a"
proof -
  have inv: "tm_inv s" and le: "leased s0 as s"
    using ow by (simp_all add: tier_owns_def)
  obtain blk where blk: "tm_heap s p = Some blk" "unat (td_size_bytes d) \<le> length blk"
    using leased_mapped [OF le inv a(1,2)] a(3) by auto
  obtain src where src: "tm_heap s0 u = Some src" "unat (td_size_bytes d) \<le> length src"
    using u by (auto simp: readable_def)
  have user: "tm_heap s u = tm_heap s0 u"
    using leased_user [OF le] src by simp
  have "leased s0 as (memcpy p u (td_size_bytes d) s)"
    unfolding memcpy_def by (rule leased_write [OF le]) (use a in \<open>auto dest: sym\<close>)
  then show "tier_owns s0 as (memcpy p u (td_size_bytes d) s)"
    using memcpy_inv [OF inv] blk by (simp add: tier_owns_def)
  show "staged_copy s0 (memcpy p u (td_size_bytes d) s) (d, u) a"
    using memcpy_data [OF _ src(2) blk, of u] src(1) user a(2)
    by (simp add: staged_copy_def data_at_def del: memcpy_heap)
qed

lemma stage_inputs_spec:
  assumes "stage_inputs ev k i rest allocs s = (r, as, s')" and "tier_owns s0 allocs s" and "env_ok ev"
    and "handle_room (length rest + m) s"
    and "\<forall>(d, u) \<in> set rest. readable (tm_heap s0) d u \<and> unat (td_size_bytes d) \<le> 2 ^ 62"
    and "list_all2 (staged_copy s0 s) ds allocs"
  shows "tier_owns s0 as s' \<and> r \<noteq> Some HookException \<and> r \<noteq> Some (Finished (Inr ())) \<and>
    (r = None \<longrightarrow> handle_room m s' \<and> list_all2 (staged_copy s0 s') (ds @ rest) as)"
  using assms
proof (induction rest arbitrary: i allocs s ds)
  case (Cons z rest)
  obtain d u where z: "z = (d, u)" by (cases z)
  have room: "handle_room (Suc (length rest + m)) s" and u: "readable (tm_heap s0) d u"
    and sz: "unat (td_size_bytes d) \<le> 2 ^ 62"
    using Cons.prems(4,5) by (simp_all add: z)
  obtain ar s1 where al: "allocate ev (td_size_bytes d) (pick_input_tier k i) 0 s = (ar, s1)"
    by (cases "allocate ev (td_size_bytes d) (pick_input_tier k i) 0 s")
  show ?case
  proof (cases ar)
    case (Inl e)
    then show ?thesis
      using Cons.prems(1) al allocate_fails [of ev _ _ 0 s e s1, OF _ Cons.prems(2)] by (auto simp: z)
  next
    case (Inr a)
    note new = allocate_lease [OF al [unfolded Inr] Cons.prems(2,3) room sz]
    show ?thesis
    proof (cases "ta_ptr a")
      case None
      then show ?thesis
        using Cons.prems(1) al Inr new by (auto simp: z)
    next
      case (Some p)
      let ?s2 = "memcpy p u (td_size_bytes d) s1"
      have ow2: "tier_owns s0 (allocs @ [a]) ?s2" and copy: "staged_copy s0 ?s2 (d, u) a"
        using memcpy_lease [OF new(1) _ Some new(3) u] by simp_all
      have "list_all2 (staged_copy s0 ?s2) ds allocs"
        by (rule staged_copies_cong [OF Cons.prems(6)]) (use new(5) Some in auto)
      then have copies: "list_all2 (staged_copy s0 ?s2) (ds @ [(d, u)]) (allocs @ [a])"
        using copy by (intro list_all2_appendI) simp_all
      have "stage_inputs ev k (Suc i) rest (allocs @ [a]) ?s2 = (r, as, s')"
        using Cons.prems(1) al Inr new(4) Some by (simp add: z)
      from Cons.IH [OF this ow2 Cons.prems(3) _ _ copies] show ?thesis
        using new(2) Cons.prems(5) by (simp add: z handle_room_def memcpy_def)
    qed
  qed
qed simp

lemma allocate_outputs_spec:
  assumes "allocate_outputs ev k i rest outs s = (r, as, s')" and "tier_owns s0 (ins @ outs) s"
    and "env_ok ev" and "handle_room (length rest + m) s"
    and "\<forall>d \<in> set rest. unat (td_size_bytes d) \<le> 2 ^ 62"
    and "list_all2 (\<lambda>d a. ta_size a = td_size_bytes d) ds outs"
    and "list_all2 (staged_copy s0 s) us ins"
  shows "tier_owns s0 (ins @ as) s' \<and> r \<noteq> Some NullAccess \<and> r \<noteq> Some HookException \<and>
    r \<noteq> Some (Finished (Inr ())) \<and>
    (r = None \<longrightarrow> list_all2 (\<lambda>d a. ta_size a = td_size_bytes d) (ds @ rest) as \<and>
       list_all2 (staged_copy s0 s') us ins)"
  using assms
proof (induction rest arbitrary: i outs s ds)
  case (Cons d rest)
  have room: "handle_room (Suc (length rest + m)) s" and sz: "unat (td_size_bytes d) \<le> 2 ^ 62"
    using Cons.prems(4,5) by simp_all
  obtain ar s1 where al: "allocate ev (td_size_bytes d) (pick_output_tier k i) 0 s = (ar, s1)"
    by (cases "allocate ev (td_size_bytes d) (pick_output_tier k i) 0 s")
  show ?case
  proof (cases ar)
    case (Inl e)
    then show ?thesis
      using Cons.prems(1) al allocate_fails [of ev _ _ 0 s e s1, OF _ Cons.prems(2)] by auto
  next
    case (Inr a)
    note new = allocate_lease [OF al [unfolded Inr] Cons.prems(2,3) room sz]
    have us: "list_all2 (staged_copy s0 s1) us ins"
      by (rule staged_copies_cong [OF Cons.prems(7)]) (use new(5) in auto)
    have ds: "list_all2 (\<lambda>d a. ta_size a = td_size_bytes d) (ds @ [d]) (outs @ [a])"
      using Cons.prems(6) new(3) by (intro list_all2_appendI) simp_all
    have "allocate_outputs ev k (Suc i) rest (outs @ [a]) s1 = (r, as, s')"
      using Cons.prems(1) al Inr new(4) by simp
    from Cons.IH [OF this _ Cons.prems(3) new(2) _ ds us] show ?thesis
      using new(1) Cons.prems(5) by simp
  qed
qed simp

subsection \<open>Running\<close>

text \<open>What the interface \<^verbatim>\<open>INpuBackend::execute\<close> documents: the inputs are constant and each output buffer
  has the size of its tensor, so a back end changes the contents of the output buffers only.\<close>

definition exec_ok :: "backend_execute \<Rightarrow> bool" where
  "exec_ok exec \<longleftrightarrow> (\<forall>k ins outs hp r hp'. exec k ins outs hp = (r, hp') \<longrightarrow>
     (\<forall>p. Some p \<notin> set outs \<longrightarrow> hp' p = hp p) \<and>
     (\<forall>p. map_option length (hp' p) = map_option length (hp p)))"

text \<open>Copying back: the lease is now relative to a base whose user buffers have the new contents.\<close>

lemma copy_outputs_spec:
  assumes "copy_outputs xs s = Some s'" and "tier_owns s0 as s"
    and "\<forall>(d, u, q) \<in> set xs. readable (tm_heap s0) d u \<and> (\<exists>a \<in> set as. ta_ptr a = q \<and> ta_size a = td_size_bytes d)"
    and "distinct (map (\<lambda>(d, u, q). u) xs)"
  shows "\<exists>hp. tier_owns (s0\<lparr>tm_heap := hp\<rparr>) as s' \<and>
    (\<forall>p. p \<notin> (\<lambda>(d, u, q). u) ` set xs \<longrightarrow> hp p = tm_heap s0 p) \<and>
    (\<forall>(d, u, q) \<in> set xs. q \<noteq> None \<and>
       data_at hp (Some u) (td_size_bytes d) = data_at (tm_heap s) q (td_size_bytes d))"
  using assms
proof (induction xs arbitrary: s s0)
  case Nil
  then show ?case
    by (intro exI [of _ "tm_heap s0"]) simp
next
  case (Cons x xs)
  obtain d u q where x: "x = (d, u, q)" by (cases x)
  then obtain p where q: "q = Some p"
    using Cons.prems(1) by (cases q) simp_all
  let ?n = "td_size_bytes d"
  let ?s1 = "memcpy u p ?n s"
  let ?b1 = "s0\<lparr>tm_heap := (tm_heap s0)(u \<mapsto> overlay (take (unat ?n) (block_at p s)) (block_at u s))\<rparr>"
  have inv: "tm_inv s" and le: "leased s0 as s"
    using Cons.prems(2) by (simp_all add: tier_owns_def)
  obtain a where a: "a \<in> set as" "ta_ptr a = Some p" "ta_size a = ?n"
    using Cons.prems(3) by (auto simp: x q)
  obtain src where src: "tm_heap s p = Some src" "unat ?n \<le> length src"
    using leased_mapped [OF le inv a(1,2)] a(3) by auto
  obtain dst where dst: "tm_heap s0 u = Some dst" "unat ?n \<le> length dst"
    using Cons.prems(3) by (auto simp: x readable_def)
  have user: "tm_heap s u = Some dst"
    using leased_user [OF le] dst by simp
  have "leased ?b1 as ?s1"
    unfolding memcpy_def by (rule leased_user_write [OF le]) (simp add: dst)
  then have ow: "tier_owns ?b1 as ?s1"
    using memcpy_inv [OF inv, of u] user by (simp add: tier_owns_def)
  have len: "readable (tm_heap s0) e v \<Longrightarrow> readable (tm_heap ?b1) e v" for e v
    using dst user by (auto simp: readable_def block_at_def)
  have "\<forall>(d, u, q) \<in> set xs. readable (tm_heap ?b1) d u \<and> (\<exists>a \<in> set as. ta_ptr a = q \<and> ta_size a = td_size_bytes d)"
    using Cons.prems(3) len by (fastforce simp: x)
  moreover have "copy_outputs xs ?s1 = Some s'" "distinct (map (\<lambda>(d, u, q). u) xs)"
    using Cons.prems(1,4) by (simp_all add: x q)
  ultimately have "\<exists>hp. tier_owns (?b1\<lparr>tm_heap := hp\<rparr>) as s' \<and>
    (\<forall>p. p \<notin> (\<lambda>(d, u, q). u) ` set xs \<longrightarrow> hp p = tm_heap ?b1 p) \<and>
    (\<forall>(d, u, q) \<in> set xs. q \<noteq> None \<and>
       data_at hp (Some u) (td_size_bytes d) = data_at (tm_heap ?s1) q (td_size_bytes d))"
    using Cons.IH [OF _ ow] by blast
  then obtain hp where "tier_owns (?b1\<lparr>tm_heap := hp\<rparr>) as s'"
    and same: "\<forall>r. r \<notin> (\<lambda>(d, u, q). u) ` set xs \<longrightarrow> hp r = tm_heap ?b1 r"
    and data: "\<forall>(d, u, q) \<in> set xs. q \<noteq> None \<and>
       data_at hp (Some u) (td_size_bytes d) = data_at (tm_heap ?s1) q (td_size_bytes d)"
    by (elim exE conjE)
  then have ow': "tier_owns (s0\<lparr>tm_heap := hp\<rparr>) as s'"
    by simp
  have new: "u \<notin> (\<lambda>(d, u, q). u) ` set xs"
    using Cons.prems(4) by (simp add: x)
  have "data_at hp (Some u) ?n = data_at (tm_heap ?s1) (Some u) ?n"
    using same new by (intro data_at_cong) simp
  also have "\<dots> = data_at (tm_heap s) q ?n"
    unfolding q by (rule memcpy_data [OF src user dst(2)])
  finally have own: "data_at hp (Some u) ?n = data_at (tm_heap s) q ?n" .
  have "data_at (tm_heap ?s1) r (td_size_bytes e) = data_at (tm_heap s) r (td_size_bytes e)"
    if "(e, v, r) \<in> set xs" for e v r
  proof (rule data_at_cong)
    fix p'
    assume "r = Some p'"
    then obtain b where "b \<in> set as" "ta_ptr b = Some p'"
      using Cons.prems(3) \<open>(e, v, r) \<in> set xs\<close> by (fastforce simp: x)
    then have "tm_heap s0 p' = None"
      using leased_base [OF le] by simp
    then show "tm_heap ?s1 p' = tm_heap s p'"
      using dst by auto
  qed
  then have "\<forall>(d, u, q) \<in> set (x # xs). q \<noteq> None \<and>
       data_at hp (Some u) (td_size_bytes d) = data_at (tm_heap s) q (td_size_bytes d)"
    using data own q by (auto simp: x)
  moreover have "\<forall>r. r \<notin> (\<lambda>(d, u, q). u) ` set (x # xs) \<longrightarrow> hp r = tm_heap s0 r"
    using same by (auto simp: x)
  ultimately show ?case
    using ow' by blast
qed

lemma backend_lease:
  assumes "exec_ok exec" and "exec k ins (map ta_ptr outs) (tm_heap s) = (r, hp)" and "tier_owns s0 (as @ outs) s"
  shows "tier_owns s0 (as @ outs) (s\<lparr>tm_heap := hp\<rparr>)"
proof -
  have same: "hp p = tm_heap s p" if "Some p \<notin> set (map ta_ptr outs)" for p
    using assms(1,2) that unfolding exec_ok_def by blast
  have len: "map_option length (hp p) = map_option length (tm_heap s p)" for p
    using assms(1,2) unfolding exec_ok_def by blast
  have "tm_inv (s\<lparr>tm_heap := hp\<rparr>)"
    using assms(3) len by (simp add: tier_owns_def heap_change_inv)
  moreover have "leased s0 (as @ outs) (s\<lparr>tm_heap := hp\<rparr>)"
    using assms(3) same by (intro leased_write) (auto simp: tier_owns_def)
  ultimately show ?thesis
    by (simp add: tier_owns_def)
qed

text \<open>The outputs the caller finds are the outputs the back end computed from copies of the inputs.\<close>

definition computed ::
  "backend_execute \<Rightarrow> CompiledKernel \<Rightarrow> heap \<Rightarrow> address list \<Rightarrow> heap \<Rightarrow> address list \<Rightarrow> bool" where
  "computed exec k hp_in user_inputs hp_out user_outputs \<longleftrightarrow>
     (\<exists>ins outs hp hp'. exec k ins outs hp = (Inr (), hp') \<and>
        length ins = length (ck_inputs k) \<and> length outs = length (ck_outputs k) \<and>
        None \<notin> set ins \<and> None \<notin> set outs \<and>
        (\<forall>(d, u, q) \<in> set (zip (ck_inputs k) (zip user_inputs ins)).
           data_at hp q (td_size_bytes d) = data_at hp_in (Some u) (td_size_bytes d)) \<and>
        (\<forall>(d, u, q) \<in> set (zip (ck_outputs k) (zip user_outputs outs)).
           data_at hp_out (Some u) (td_size_bytes d) = data_at hp' q (td_size_bytes d)))"

lemma staged_copies_zip:
  assumes "list_all2 (staged_copy s0 s) (zip ds us) ins" and "length us = length ds"
  shows "length ins = length ds \<and> None \<notin> set (map ta_ptr ins) \<and>
    (\<forall>(d, u, q) \<in> set (zip ds (zip us (map ta_ptr ins))).
       data_at (tm_heap s) q (td_size_bytes d) = data_at (tm_heap s0) (Some u) (td_size_bytes d))"
  using assms(2,1)
proof (induction us ds arbitrary: ins rule: list_induct2)
  case (Cons u us d ds)
  then obtain a as where a: "ins = a # as" "staged_copy s0 s (d, u) a" "list_all2 (staged_copy s0 s) (zip ds us) as"
    by (auto simp: list_all2_Cons1)
  with Cons.IH [OF a(3)] show ?case
    by (auto simp: staged_copy_def)
qed simp

lemma copy_list_ok:
  assumes "list_all2 (\<lambda>d a. ta_size a = td_size_bytes d) ds outs" and "length us = length ds"
    and "\<forall>(d, u) \<in> set (zip ds us). readable hp d u"
  shows "\<forall>(d, u, q) \<in> set (zip ds (zip us (map ta_ptr outs))).
    readable hp d u \<and> (\<exists>a \<in> set outs. ta_ptr a = q \<and> ta_size a = td_size_bytes d)"
  using assms(2,1,3)
  by (induction us ds arbitrary: outs rule: list_induct2) (fastforce simp: list_all2_Cons1)+

lemma zip_users:
  assumes "length us = length ds" and "length ps = length ds"
  shows "map (\<lambda>(d, u, q). u) (zip ds (zip us ps)) = us" and "map (\<lambda>(d, u, q). q) (zip ds (zip us ps)) = ps"
  using assms by (induction us ds arbitrary: ps rule: list_induct2) (auto simp: length_Suc_conv)

lemma dispatch_spec:
  assumes d: "dispatch exec k us ins outs s = (r, s')" and ow: "tier_owns s0 (ins @ outs) s" and ex: "exec_ok exec"
    and outs: "list_all2 (\<lambda>d a. ta_size a = td_size_bytes d) (ck_outputs k) outs"
    and ins: "list_all2 (staged_copy s0 s) (zip (ck_inputs k) uin) ins"
    and len: "length us = length (ck_outputs k)" "length uin = length (ck_inputs k)"
    and us: "\<forall>(d, u) \<in> set (zip (ck_outputs k) us). readable (tm_heap s0) d u" "distinct us"
  shows "r \<noteq> HookException \<and> (\<exists>hp. tier_owns (s0\<lparr>tm_heap := hp\<rparr>) (ins @ outs) s' \<and>
    (\<forall>p. p \<notin> set us \<longrightarrow> hp p = tm_heap s0 p) \<and> (r \<noteq> Finished (Inr ()) \<longrightarrow> hp = tm_heap s0) \<and>
    (r = Finished (Inr ()) \<longrightarrow> computed exec k (tm_heap s0) uin hp us))"
proof -
  obtain er hp1 where e: "exec k (map ta_ptr ins) (map ta_ptr outs) (tm_heap s) = (er, hp1)"
    by (cases "exec k (map ta_ptr ins) (map ta_ptr outs) (tm_heap s)")
  let ?s1 = "s\<lparr>tm_heap := hp1\<rparr>"
  let ?xs = "zip (ck_outputs k) (zip us (map ta_ptr outs))"
  have ow1: "tier_owns s0 (ins @ outs) ?s1"
    using backend_lease [OF ex e ow] .
  show ?thesis
  proof (cases "\<exists>u. er = Inr u \<and> copy_outputs ?xs ?s1 \<noteq> None")
    case False
    then have "s' = ?s1" "r = Finished (Inl CE_BackendExecuteFailed) \<or> r = NullAccess"
      using d e by (auto simp: dispatch_def split: sum.splits option.splits)
    then show ?thesis
      using ow1 by (auto intro!: exI [of _ "tm_heap s0"])
  next
    case True
    then have ok: "r = Finished (Inr ())" "copy_outputs ?xs ?s1 = Some s'" "er = Inr ()"
      using d e by (auto simp: dispatch_def split: option.splits)
    have lo: "length outs = length (ck_outputs k)"
      using outs by (simp add: list_all2_lengthD)
    have "\<forall>(d, u, q) \<in> set ?xs. readable (tm_heap s0) d u \<and>
        (\<exists>a \<in> set (ins @ outs). ta_ptr a = q \<and> ta_size a = td_size_bytes d)"
      using copy_list_ok [OF outs len(1) us(1)] by fastforce
    moreover have users: "map (\<lambda>(d, u, q). u) ?xs = us"
      using zip_users [OF len(1), of "map ta_ptr outs"] lo by simp
    ultimately obtain hp where hp: "tier_owns (s0\<lparr>tm_heap := hp\<rparr>) (ins @ outs) s'"
      "\<forall>p. p \<notin> (\<lambda>(d, u, q). u) ` set ?xs \<longrightarrow> hp p = tm_heap s0 p"
      and data: "\<forall>(d, u, q) \<in> set ?xs. q \<noteq> None \<and>
         data_at hp (Some u) (td_size_bytes d) = data_at (tm_heap ?s1) q (td_size_bytes d)"
      using copy_outputs_spec [OF ok(2) ow1] us(2) by auto
    have "set (map ta_ptr outs) = (\<lambda>(d, u, q). q) ` set ?xs"
      using zip_users(2) [OF len(1), of "map ta_ptr outs"] lo by (metis image_set length_map)
    then have nn: "None \<notin> set (map ta_ptr outs)"
      using data by fastforce
    have "computed exec k (tm_heap s0) uin hp us"
      unfolding computed_def
    proof (intro exI conjI)
      show "exec k (map ta_ptr ins) (map ta_ptr outs) (tm_heap s) = (Inr (), hp1)"
        using e ok(3) by simp
      show "length (map ta_ptr outs) = length (ck_outputs k)"
        using lo by simp
      show "\<forall>(d, u, q) \<in> set ?xs. data_at hp (Some u) (td_size_bytes d) = data_at hp1 q (td_size_bytes d)"
        using data by auto
    qed (use nn staged_copies_zip [OF ins len(2)] in simp_all)
    then show ?thesis
      using hp ok(1) users by (metis image_set run_result.distinct(3))
  qed
qed

definition user_buffers :: "heap \<Rightarrow> TensorDesc list \<Rightarrow> address option list \<Rightarrow> bool" where
  "user_buffers hp ds us \<longleftrightarrow> (\<forall>(d, u) \<in> set (zip ds us). \<forall>p. u = Some p \<longrightarrow> readable hp d p)"

lemma user_buffers_the:
  assumes "user_buffers hp ds us" and "None \<notin> set us"
  shows "\<forall>(d, u) \<in> set (zip ds (map the us)). readable hp d u"
proof -
  have "readable hp d (the u)" if "(d, u) \<in> set (zip ds us)" for d u
    using that assms by (cases u) (auto simp: user_buffers_def dest: set_zip_rightD)
  then show ?thesis
    by (auto simp: zip_map2)
qed

lemma the_present:
  assumes "None \<notin> set us"
  shows "distinct us \<Longrightarrow> distinct (map the us)" and "Some p \<notin> set us \<Longrightarrow> p \<notin> set (map the us)"
proof -
  show "distinct us \<Longrightarrow> distinct (map the us)"
    using assms by (simp add: distinct_map inj_on_def) (metis option.expand)
  show "Some p \<notin> set us \<Longrightarrow> p \<notin> set (map the us)"
    using assms by (induction us) auto
qed

definition unchanged_manager :: "Tmm \<Rightarrow> Tmm \<Rightarrow> bool" where
  "unchanged_manager s s' \<longleftrightarrow> tm_registry s' = tm_registry s \<and> tm_lru s' = tm_lru s \<and>
     (\<forall>t. ac_allocated (tm_acct s' t) = ac_allocated (tm_acct s t)) \<and>
     tm_warm_res s' = tm_warm_res s \<and> tm_cool_res s' = tm_cool_res s"

lemma unchanged_lease:
  "tier_owns (s\<lparr>tm_heap := hp\<rparr>) [] s' \<Longrightarrow> tm_inv s \<Longrightarrow> tm_inv s' \<and> unchanged_manager s s' \<and> tm_heap s' = hp"
  using restored_lease [of hp s s'] by (simp add: tier_owns_def unchanged_manager_def)

lemma release_outcome:
  assumes "tier_owns s as s1" and "tm_inv s"
  shows "tm_inv (release_all as s1) \<and> unchanged_manager s (release_all as s1) \<and> tm_heap (release_all as s1) = tm_heap s"
  using unchanged_lease [of "tm_heap s" s] scoped_tier.release_vector [of s "[]" as] assms
  by (simp add: release_all_def)

lemma release_both:
  assumes "tier_owns (s\<lparr>tm_heap := hp\<rparr>) (as @ bs) s1" and "tm_inv s"
  shows "tm_inv (release_all as (release_all bs s1)) \<and> unchanged_manager s (release_all as (release_all bs s1)) \<and>
    tm_heap (release_all as (release_all bs s1)) = hp"
  using unchanged_lease [of hp s] scoped_tier.release_scopes [of "s\<lparr>tm_heap := hp\<rparr>" as bs] assms
  by (simp add: release_all_def)

text \<open>The second half of \<^verbatim>\<open>run\<close>, after the inputs are staged.\<close>

definition run_staged ::
  "tm_env \<Rightarrow> backend_execute \<Rightarrow> CompiledKernel \<Rightarrow> address list \<Rightarrow> TierAllocation list \<Rightarrow> Tmm \<Rightarrow> run_result \<times> Tmm" where
  "run_staged ev exec k us ins s1 =
     (case allocate_outputs ev k 0 (ck_outputs k) [] s1 of
        (Some r, outs, s2) \<Rightarrow> (r, release_all ins (release_all outs s2))
      | (None, outs, s2) \<Rightarrow>
          (case dispatch exec k us ins outs s2 of
             (r, s3) \<Rightarrow> (r, release_all ins (release_all outs s3))))"

lemma run_staged_correct:
  assumes run: "run_staged ev exec k us ins s1 = (r, s')" and ev: "env_ok ev" and ex: "exec_ok exec" and inv: "tm_inv s"
    and ow: "tier_owns s ins s1" and room: "handle_room (length (ck_outputs k)) s1"
    and sz: "\<forall>d \<in> set (ck_outputs k). unat (td_size_bytes d) \<le> 2 ^ 62"
    and copies: "list_all2 (staged_copy s s1) (zip (ck_inputs k) uin) ins"
    and len: "length us = length (ck_outputs k)" "length uin = length (ck_inputs k)"
    and us: "\<forall>(d, u) \<in> set (zip (ck_outputs k) us). readable (tm_heap s) d u" "distinct us"
  shows "tm_inv s' \<and> unchanged_manager s s' \<and> r \<noteq> HookException \<and>
    (\<forall>p. p \<notin> set us \<longrightarrow> tm_heap s' p = tm_heap s p) \<and> (r \<noteq> Finished (Inr ()) \<longrightarrow> tm_heap s' = tm_heap s) \<and>
    (r = Finished (Inr ()) \<longrightarrow> computed exec k (tm_heap s) uin (tm_heap s') us)"
proof -
  obtain r2 outs s2 where so: "allocate_outputs ev k 0 (ck_outputs k) [] s1 = (r2, outs, s2)"
    by (cases "allocate_outputs ev k 0 (ck_outputs k) [] s1") auto
  have out_ok: "tier_owns s (ins @ outs) s2 \<and> r2 \<noteq> Some NullAccess \<and> r2 \<noteq> Some HookException \<and>
      r2 \<noteq> Some (Finished (Inr ())) \<and>
      (r2 = None \<longrightarrow> list_all2 (\<lambda>d a. ta_size a = td_size_bytes d) (ck_outputs k) outs \<and>
         list_all2 (staged_copy s s2) (zip (ck_inputs k) uin) ins)"
    using allocate_outputs_spec [OF so _ ev, of s ins 0 "[]"] ow room copies sz by simp
  show ?thesis
  proof (cases r2)
    case (Some f)
    then have "s' = release_all ins (release_all outs s2)" "r = f"
      using run so by (simp_all add: run_staged_def)
    then show ?thesis
      using release_both [of "tm_heap s" s ins outs s2] out_ok inv Some by auto
  next
    case None
    then obtain s3 where d: "dispatch exec k us ins outs s2 = (r, s3)"
      and s': "s' = release_all ins (release_all outs s3)"
      using run so by (auto simp: run_staged_def split: prod.splits)
    obtain hp where "r \<noteq> HookException" "tier_owns (s\<lparr>tm_heap := hp\<rparr>) (ins @ outs) s3"
      "\<forall>p. p \<notin> set us \<longrightarrow> hp p = tm_heap s p" "r \<noteq> Finished (Inr ()) \<longrightarrow> hp = tm_heap s"
      "r = Finished (Inr ()) \<longrightarrow> computed exec k (tm_heap s) uin hp us"
      using dispatch_spec [OF d _ ex, of s uin] out_ok None len us by auto
    then show ?thesis
      using release_both [of hp s ins outs s3] inv s' by simp
  qed
qed

text \<open>C10. A run of the coordinator on a consistent manager, with caller buffers of sufficient size and a back
  end that writes its output buffers only, leaves the manager as it found it on every path that touches no
  null pointer: no block stays registered, listed or accounted for.  Memory other than the output buffers
  never changes, and none changes when the run fails.  When the run succeeds, the back end was called
  on blocks with the bytes of the caller's inputs, and the caller's outputs hold what it computed.\<close>

theorem run_correct:
  assumes inv: "tm_inv s" and ev: "env_ok ev" and ex: "exec_ok exec"
    and room: "handle_room (length (ck_inputs k) + length (ck_outputs k)) s"
    and sz: "\<forall>d \<in> set (ck_inputs k @ ck_outputs k). unat (td_size_bytes d) \<le> 2 ^ 62"
    and ui: "user_buffers (tm_heap s) (ck_inputs k) uin" and uo: "user_buffers (tm_heap s) (ck_outputs k) uout"
    and dist: "distinct uout" and run: "run ev exec k uin uout s = (r, s')" and nn: "r \<noteq> NullAccess"
  shows "tm_inv s' \<and> unchanged_manager s s' \<and> r \<noteq> HookException \<and>
    (\<forall>p. Some p \<notin> set uout \<longrightarrow> tm_heap s' p = tm_heap s p) \<and>
    (r \<noteq> Finished (Inr ()) \<longrightarrow> tm_heap s' = tm_heap s) \<and>
    (r = Finished (Inr ()) \<longrightarrow> computed exec k (tm_heap s) (map the uin) (tm_heap s') (map the uout))"
proof (cases "length uin = length (ck_inputs k) \<and> length uout = length (ck_outputs k) \<and>
    None \<notin> set uin \<and> None \<notin> set uout")
  case False
  then have "s' = s" "r = Finished (Inl CE_InvalidArgument)"
    using run by (auto simp: run_def split: if_splits)
  then show ?thesis
    using inv by (simp add: unchanged_manager_def)
next
  case True
  let ?in = "zip (ck_inputs k) (map the uin)"
  obtain r1 ins s1 where st: "stage_inputs ev k 0 ?in [] s = (r1, ins, s1)"
    by (cases "stage_inputs ev k 0 ?in [] s") auto
  have "\<forall>(d, u) \<in> set ?in. readable (tm_heap s) d u \<and> unat (td_size_bytes d) \<le> 2 ^ 62"
    using user_buffers_the [OF ui] True sz by (auto dest: set_zip_leftD)
  then have in_ok: "tier_owns s ins s1 \<and> r1 \<noteq> Some HookException \<and> r1 \<noteq> Some (Finished (Inr ())) \<and>
      (r1 = None \<longrightarrow> handle_room (length (ck_outputs k)) s1 \<and> list_all2 (staged_copy s s1) ?in ins)"
    using stage_inputs_spec [OF st _ ev, of s "length (ck_outputs k)" "[]"] room True inv leased_refl
    by (simp add: tier_owns_def)
  show ?thesis
  proof (cases r1)
    case (Some f)
    then have "s' = release_all ins s1" "r = f"
      using run st True by (simp_all add: run_def)
    then show ?thesis
      using release_outcome in_ok inv Some by auto
  next
    case None
    then have rest: "run_staged ev exec k (map the uout) ins s1 = (r, s')"
      using run st True by (simp add: run_def run_staged_def)
    show ?thesis
      using run_staged_correct [OF rest ev ex inv, of "map the uin"] in_ok None sz True
        user_buffers_the [OF uo] the_present [OF conjunct2 [OF conjunct2 [OF conjunct2 [OF True]]]] dist by auto
  qed
qed

definition bytes_desc :: "u64 \<Rightarrow> TensorDesc" where
  "bytes_desc n = \<lparr>td_name = ''x'', td_shape = [n], td_dtype = DT_U8\<rparr>"

definition demo_kernel :: CompiledKernel where
  "demo_kernel = \<lparr>ck_target_name = ''cpu'', ck_inputs = [bytes_desc 3], ck_outputs = [bytes_desc 2],
     ck_input_names = [''x''], ck_output_names = [''y''], ck_high_reuse_tensors = [''y''],
     ck_estimated_working_set_bytes = 5, ck_graph_nodes = [], ck_compiled = True\<rparr>"

text \<open>A back end with one input and one output that copies the start of its input.\<close>

definition echo_execute :: backend_execute where
  "echo_execute k ins outs hp = (case (ins, outs) of
      ([Some p], [Some q]) \<Rightarrow>
        (Inr (), hp(q := map_option (overlay (case hp p of None \<Rightarrow> [] | Some blk \<Rightarrow> blk)) (hp q)))
    | _ \<Rightarrow> (Inl ''shape'', hp))"

lemma echo_execute_ok: "exec_ok echo_execute"
  by (auto simp: exec_ok_def echo_execute_def option.map_comp comp_def option.map_ident
      split: list.splits option.splits if_splits)

lemma cpu_fallback_ok: "exec_ok cpu_fallback_execute"
  by (simp add: exec_ok_def cpu_fallback_execute_def)

definition demo_user :: Tmm where
  "demo_user = demo_tmm\<lparr>tm_heap := [10 \<mapsto> [1, 2, 3], 11 \<mapsto> [0, 0]]\<rparr>"

lemma demo_user_inv: "tm_inv demo_user"
  unfolding demo_user_def demo_tmm_def using new_tmm_inv [OF demo_config_ok, of demo_env "[10 \<mapsto> [1, 2, 3], 11 \<mapsto> [0, 0]]" Map.empty]
  by (simp add: new_tmm_def Let_def)

lemma demo_dispatch:
  "(case stage_inputs demo_env demo_kernel 0 [(bytes_desc 3, 10)] [] demo_user of
      (r1, ins, s1) \<Rightarrow> (case allocate_outputs demo_env demo_kernel 0 [bytes_desc 2] [] s1 of
        (r2, outs, s2) \<Rightarrow> r1 = None \<and> r2 = None \<and>
          fst (dispatch echo_execute demo_kernel [11] ins outs s2) = Finished (Inr ())))"
  by code_simp

lemma demo_run:
  "fst (run demo_env echo_execute demo_kernel [Some 10] [Some 11] demo_user) = Finished (Inr ())"
proof -
  have "ck_inputs demo_kernel = [bytes_desc 3]" "ck_outputs demo_kernel = [bytes_desc 2]"
    by (simp_all add: demo_kernel_def)
  then show ?thesis
    using demo_dispatch by (auto simp: run_def split: prod.splits simp del: stage_inputs.simps allocate_outputs.simps)
qed

theorem run_correct_witness:
  "\<exists>s'. run demo_env echo_execute demo_kernel [Some 10] [Some 11] demo_user = (Finished (Inr ()), s') \<and>
     tm_registry s' = [] \<and> tm_heap s' 10 = Some [1, 2, 3] \<and>
     computed echo_execute demo_kernel (tm_heap demo_user) [10] (tm_heap s') [11]"
proof -
  obtain s' where run: "run demo_env echo_execute demo_kernel [Some 10] [Some 11] demo_user = (Finished (Inr ()), s')"
    using demo_run by (metis prod.collapse)
  have "tm_registry s' = tm_registry demo_user \<and> tm_heap s' 10 = tm_heap demo_user 10 \<and>
     computed echo_execute demo_kernel (tm_heap demo_user) [10] (tm_heap s') [11]"
    using run_correct [OF demo_user_inv demo_env_ok echo_execute_ok _ _ _ _ _ run]
    by (simp add: demo_kernel_def bytes_desc_def td_size_bytes_def handle_room_def demo_user_def demo_tmm_def
        new_tmm_def Let_def user_buffers_def readable_def unchanged_manager_def)
  then show ?thesis
    using run by (simp add: demo_user_def demo_tmm_def new_tmm_def Let_def)
qed

subsection \<open>The null access\<close>

text \<open>A block of the coldest tier passes the check \<^verbatim>\<open>valid()\<close>, which only looks at the handle, and its
  null pointer is handed to \<^verbatim>\<open>memcpy\<close>: staging ends in a null access as soon as the RAM tiers are full.\<close>

lemma cold_input_null_access:
  assumes "tm_inv s" and "env_ok ev" and "handles_left s" and "unat (td_size_bytes d) \<le> 2 ^ 62"
    and "allocate ev (td_size_bytes d) (pick_input_tier k i) 0 s = (Inr a, s1)" and "ta_tier a = Cold"
  shows "fst (stage_inputs ev k i ((d, u) # rest) allocs s) = Some NullAccess"
proof -
  obtain f n where ad: "added a n (s\<lparr>tm_files := f\<rparr>) s1"
    using assms(5,1,2) by (rule allocate_Inr)
  have "tm_inv s1"
    using allocate_inv [OF assms(5,1,2,3,4)] by simp
  moreover have "smap_find (tm_registry s1) (ta_handle a) = Some a"
    using added_find [OF ad] ad by (simp add: added_def)
  ultimately have "0 < ta_handle a"
    using reg_block [of s1 "ta_handle a" a] by (simp add: tm_inv_def block_wf_def)
  moreover have "ta_ptr a = None"
    using ad assms(6) by (auto simp: added_def in_ram_def split: option.splits)
  ultimately show ?thesis
    using assms(5) by simp
qed

lemma full_tiers_null_access:
  "fst (run demo_env cpu_fallback_execute (demo_kernel\<lparr>ck_inputs := [bytes_desc 3, bytes_desc 6]\<rparr>)
     [Some 10, Some 10] [Some 11] demo_user) = NullAccess"
  by code_simp

end
