(* ===== verification/Watchdog.thy ===== *)
theory Watchdog
  imports Float32
begin

text \<open>
  The utilisation watchdog of \<^verbatim>\<open>code/src/utilization_watchdog.cpp\<close>: a three-state machine per device
  that is fed one utilisation and one temperature per denoising step and calls a recovery callback.

  The state of a device is the record \<open>device\<close> (the four atomics that \<^verbatim>\<open>evaluate_device\<close> takes by
  reference), and the watchdog holds one for the GPU and one for the Hailo together with the statistics.
  The recovery callback is the argument \<open>cb\<close>, absent or a function of what it is given; the alerts sent to
  the alert callback and the recoveries attempted, with their delay, are collected in the log \<open>wd_events\<close>
  in the order in which they happen.  The formatted texts are constructors with the values they print.
  One call of \<^verbatim>\<open>step\<close> is one atomic transition.  The fields of a snapshot that no operation reads (device,
  step, power, healthy) are left out.
\<close>

subsection \<open>Data\<close>

datatype ComputeUnit = GPU_780M | HAILO_8L

datatype WatchdogState = NORMAL | WARNING | CRITICAL

datatype RecoveryResult = SUCCESS | PARTIAL | FATAL

record UtilizationSnapshot =
  us_utilization :: float32
  us_temperature :: float32

record WatchdogConfig =
  gpu_low_threshold :: float32
  gpu_critical_threshold :: float32
  hailo_low_threshold :: float32
  hailo_critical_threshold :: float32
  consecutive_threshold :: u32
  max_recoveries :: u32
  backoff_base_ms :: float32
  backoff_max_ms :: float32
  thermal_throttle_threshold_c :: float32

definition default_watchdog_config :: WatchdogConfig where
  "default_watchdog_config = \<lparr>gpu_low_threshold = F_Fin 60, gpu_critical_threshold = F_Fin 40,
     hailo_low_threshold = F_Fin 60, hailo_critical_threshold = F_Fin 40,
     consecutive_threshold = 8, max_recoveries = 10, backoff_base_ms = F_Fin 100,
     backoff_max_ms = F_Fin 30000, thermal_throttle_threshold_c = F_Fin 85\<rparr>"

text \<open>What the \<^verbatim>\<open>reason\<close> of an action and the alert messages print.\<close>

datatype wd_reason =
    WarningRecovered u32 "(string, RecoveryResult) expected"
  | CriticalRecovered "(string, RecoveryResult) expected"
  | WarningExhausted
  | CriticalExhausted

record RecoveryAction =
  ra_result :: RecoveryResult
  ra_device :: ComputeUnit
  ra_step :: u32
  ra_util_at_fault :: float32
  ra_reason :: wd_reason

datatype wd_event =
    StateChange ComputeUnit u32 float32 WatchdogState WatchdogState
  | ThermalSkip ComputeUnit u32 float32 float32 bool
  | Exhausted ComputeUnit u32 float32 bool
  | Recovery ComputeUnit u32 float32 u32 float32

type_synonym recovery_callback = "ComputeUnit \<Rightarrow> u32 \<Rightarrow> float32 \<Rightarrow> (string, RecoveryResult) expected"

record device =
  dv_consecutive :: u32
  dv_in_recovery :: bool
  dv_recovery_count :: u32
  dv_state :: WatchdogState

record Watchdog =
  wd_cfg :: WatchdogConfig
  wd_gpu :: device
  wd_hailo :: device
  wd_total_steps :: u32
  wd_last_gpu_util :: float32
  wd_last_hailo_util :: float32
  wd_gpu_consecutive_low :: u32
  wd_hailo_consecutive_low :: u32
  wd_events :: "wd_event list"

record WatchdogStatistics =
  ws_total_steps :: u32
  ws_gpu_recovery_count :: u32
  ws_hailo_recovery_count :: u32
  ws_gpu_consecutive_low :: u32
  ws_hailo_consecutive_low :: u32
  ws_gpu_state :: WatchdogState
  ws_hailo_state :: WatchdogState
  ws_last_gpu_util :: float32
  ws_last_hailo_util :: float32

subsection \<open>Construction and reset\<close>

definition fresh_device :: device where
  "fresh_device = \<lparr>dv_consecutive = 0, dv_in_recovery = False, dv_recovery_count = 0, dv_state = NORMAL\<rparr>"

definition clamp_thermal :: "WatchdogConfig \<Rightarrow> WatchdogConfig" where
  "clamp_thermal cfg =
     (let t = thermal_throttle_threshold_c cfg
      in if f_less t (F_Fin 0) \<or> f_less (F_Fin 125) t
         then cfg\<lparr>thermal_throttle_threshold_c := f_clamp t (F_Fin 0) (F_Fin 125)\<rparr> else cfg)"

definition new_watchdog :: "WatchdogConfig \<Rightarrow> Watchdog" where
  "new_watchdog cfg = \<lparr>wd_cfg = clamp_thermal cfg, wd_gpu = fresh_device, wd_hailo = fresh_device,
     wd_total_steps = 0, wd_last_gpu_util = F_Fin 0, wd_last_hailo_util = F_Fin 0,
     wd_gpu_consecutive_low = 0, wd_hailo_consecutive_low = 0, wd_events = []\<rparr>"

definition reset_counters :: "Watchdog \<Rightarrow> Watchdog" where
  "reset_counters w = w\<lparr>wd_gpu := (wd_gpu w)\<lparr>dv_consecutive := 0\<rparr>,
     wd_hailo := (wd_hailo w)\<lparr>dv_consecutive := 0\<rparr>\<rparr>"

definition reset_all :: "Watchdog \<Rightarrow> Watchdog" where
  "reset_all w = w\<lparr>wd_gpu := fresh_device, wd_hailo := fresh_device, wd_total_steps := 0,
     wd_last_gpu_util := F_Fin 0, wd_last_hailo_util := F_Fin 0,
     wd_gpu_consecutive_low := 0, wd_hailo_consecutive_low := 0\<rparr>"

subsection \<open>Recovery\<close>

definition compute_backoff_ms :: "WatchdogConfig \<Rightarrow> u32 \<Rightarrow> float32" where
  "compute_backoff_ms cfg n =
     (if n = 0 then F_Fin 0
      else let delay = f_mul (backoff_base_ms cfg) (f_exp2 (unat (n - 1)))
           in if f_less (backoff_max_ms cfg) delay then backoff_max_ms cfg else delay)"

definition thermal_skip_recovery :: "WatchdogConfig \<Rightarrow> float32 \<Rightarrow> bool" where
  "thermal_skip_recovery cfg temperature \<longleftrightarrow> f_less (thermal_throttle_threshold_c cfg) temperature"

definition log_state_change ::
  "ComputeUnit \<Rightarrow> u32 \<Rightarrow> float32 \<Rightarrow> WatchdogState \<Rightarrow> WatchdogState \<Rightarrow> wd_event list" where
  "log_state_change unit step util old new = (if old = new then [] else [StateChange unit step util old new])"

definition trigger_recovery ::
  "WatchdogConfig \<Rightarrow> recovery_callback option \<Rightarrow> ComputeUnit \<Rightarrow> u32 \<Rightarrow> float32 \<Rightarrow> device
   \<Rightarrow> (string, RecoveryResult) expected \<times> device \<times> wd_event list" where
  "trigger_recovery cfg cb unit step util d =
     (let n = dv_recovery_count d + 1
      in (case cb of None \<Rightarrow> Inl ''No recovery callback registered'' | Some f \<Rightarrow> f unit step util,
          d\<lparr>dv_recovery_count := n\<rparr>, [Recovery unit step util n (compute_backoff_ms cfg n)]))"

definition value_or :: "RecoveryResult \<Rightarrow> (string, RecoveryResult) expected \<Rightarrow> RecoveryResult" where
  "value_or r e = (case e of Inl _ \<Rightarrow> r | Inr x \<Rightarrow> x)"

subsection \<open>One device\<close>

definition become_normal ::
  "ComputeUnit \<Rightarrow> u32 \<Rightarrow> float32 \<Rightarrow> device \<Rightarrow> device \<times> wd_event list" where
  "become_normal unit step util d =
     (let e1 = (if dv_consecutive d \<noteq> 0 then log_state_change unit step util (dv_state d) NORMAL else []);
          e2 = (if dv_state d \<noteq> NORMAL then log_state_change unit step util (dv_state d) NORMAL else [])
      in (d\<lparr>dv_state := NORMAL, dv_consecutive := 0, dv_in_recovery := False\<rparr>, e1 @ e2))"

text \<open>The two guarded recoveries; \<open>d\<close> is the device after the counter and the state were updated.\<close>

definition warning_recovery ::
  "WatchdogConfig \<Rightarrow> recovery_callback option \<Rightarrow> ComputeUnit \<Rightarrow> u32 \<Rightarrow> float32 \<Rightarrow> device
   \<Rightarrow> RecoveryAction option \<times> device \<times> wd_event list" where
  "warning_recovery cfg cb unit step util d =
     (if consecutive_threshold cfg \<le> dv_consecutive d \<and> \<not> dv_in_recovery d then
        if max_recoveries cfg \<le> dv_recovery_count d then
          (Some \<lparr>ra_result = FATAL, ra_device = unit, ra_step = step, ra_util_at_fault = util,
                 ra_reason = WarningExhausted\<rparr>,
           d\<lparr>dv_in_recovery := True, dv_consecutive := 0\<rparr>, [Exhausted unit step util False])
        else
          (case trigger_recovery cfg cb unit step util (d\<lparr>dv_in_recovery := True\<rparr>) of
             (res, d1, ev) \<Rightarrow>
               (Some \<lparr>ra_result = value_or FATAL res, ra_device = unit, ra_step = step, ra_util_at_fault = util,
                      ra_reason = WarningRecovered (dv_consecutive d) res\<rparr>,
                d1\<lparr>dv_in_recovery := False\<rparr>, ev))
      else (None, d, []))"

definition critical_recovery ::
  "WatchdogConfig \<Rightarrow> recovery_callback option \<Rightarrow> ComputeUnit \<Rightarrow> u32 \<Rightarrow> float32 \<Rightarrow> device
   \<Rightarrow> RecoveryAction option \<times> device \<times> wd_event list" where
  "critical_recovery cfg cb unit step util d =
     (if \<not> dv_in_recovery d then
        if max_recoveries cfg \<le> dv_recovery_count d then
          (Some \<lparr>ra_result = FATAL, ra_device = unit, ra_step = step, ra_util_at_fault = util,
                 ra_reason = CriticalExhausted\<rparr>,
           d\<lparr>dv_in_recovery := True\<rparr>, [Exhausted unit step util True])
        else
          (case trigger_recovery cfg cb unit step util (d\<lparr>dv_in_recovery := True\<rparr>) of
             (res, d1, ev) \<Rightarrow>
               (Some \<lparr>ra_result = value_or FATAL res, ra_device = unit, ra_step = step, ra_util_at_fault = util,
                      ra_reason = CriticalRecovered res\<rparr>,
                d1\<lparr>dv_in_recovery := False\<rparr>, ev))
      else (None, d, []))"

definition evaluate_device ::
  "WatchdogConfig \<Rightarrow> recovery_callback option \<Rightarrow> ComputeUnit \<Rightarrow> float32 \<Rightarrow> float32 \<Rightarrow> float32 \<Rightarrow> float32 \<Rightarrow> u32
   \<Rightarrow> device \<Rightarrow> RecoveryAction option \<times> device \<times> wd_event list" where
  "evaluate_device cfg cb unit util temperature threshold critical_threshold step d =
     (if f_leq threshold util then
        (case become_normal unit step util d of (d1, ev) \<Rightarrow> (None, d1, ev))
      else if f_leq critical_threshold util then
        (let d1 = d\<lparr>dv_consecutive := dv_consecutive d + 1, dv_state := WARNING\<rparr>;
             ev = log_state_change unit step util (dv_state d) WARNING
         in if thermal_skip_recovery cfg temperature
            then (None, d1, ev @ [ThermalSkip unit step util temperature False])
            else case warning_recovery cfg cb unit step util d1 of (a, d2, ev') \<Rightarrow> (a, d2, ev @ ev'))
      else
        (let d1 = d\<lparr>dv_consecutive := dv_consecutive d + 1, dv_state := CRITICAL\<rparr>;
             ev = log_state_change unit step util (dv_state d) CRITICAL
         in if thermal_skip_recovery cfg temperature
            then (None, d1, ev @ [ThermalSkip unit step util temperature True])
            else case critical_recovery cfg cb unit step util d1 of (a, d2, ev') \<Rightarrow> (a, d2, ev @ ev')))"

subsection \<open>The watchdog\<close>

definition watchdog_step ::
  "recovery_callback option \<Rightarrow> u32 \<Rightarrow> UtilizationSnapshot \<Rightarrow> UtilizationSnapshot \<Rightarrow> Watchdog
   \<Rightarrow> RecoveryAction option \<times> Watchdog" where
  "watchdog_step cb n gpu hailo w =
     (let cfg = wd_cfg w in
      case evaluate_device cfg cb GPU_780M (us_utilization gpu) (us_temperature gpu)
             (gpu_low_threshold cfg) (gpu_critical_threshold cfg) n (wd_gpu w) of
        (gpu_action, g, ev1) \<Rightarrow>
          (case evaluate_device cfg cb HAILO_8L (us_utilization hailo) (us_temperature hailo)
                  (hailo_low_threshold cfg) (hailo_critical_threshold cfg) n (wd_hailo w) of
             (hailo_action, h, ev2) \<Rightarrow>
               (if gpu_action \<noteq> None then gpu_action else hailo_action,
                w\<lparr>wd_gpu := g, wd_hailo := h, wd_total_steps := wd_total_steps w + 1,
                  wd_last_gpu_util := us_utilization gpu, wd_last_hailo_util := us_utilization hailo,
                  wd_gpu_consecutive_low := dv_consecutive g, wd_hailo_consecutive_low := dv_consecutive h,
                  wd_events := wd_events w @ ev1 @ ev2\<rparr>)))"

definition get_gpu_state :: "Watchdog \<Rightarrow> WatchdogState" where
  "get_gpu_state w = dv_state (wd_gpu w)"

definition get_hailo_state :: "Watchdog \<Rightarrow> WatchdogState" where
  "get_hailo_state w = dv_state (wd_hailo w)"

definition get_stats :: "Watchdog \<Rightarrow> WatchdogStatistics" where
  "get_stats w = \<lparr>ws_total_steps = wd_total_steps w, ws_gpu_recovery_count = dv_recovery_count (wd_gpu w),
     ws_hailo_recovery_count = dv_recovery_count (wd_hailo w),
     ws_gpu_consecutive_low = wd_gpu_consecutive_low w, ws_hailo_consecutive_low = wd_hailo_consecutive_low w,
     ws_gpu_state = get_gpu_state w, ws_hailo_state = get_hailo_state w,
     ws_last_gpu_util = wd_last_gpu_util w, ws_last_hailo_util = wd_last_hailo_util w\<rparr>"

end
