(* ===== verification/Watchdog_Props.thy ===== *)
theory Watchdog_Props
  imports Watchdog
begin

text \<open>
  What the watchdog guarantees: between two resets the recovery callback of a device is invoked at most
  \<open>max_recoveries\<close> times, the state of a device is the class of its last utilisation, and a device that
  stays critical is recovered until the budget is used up, reported fatal exactly once and then ignored.
  The last section has the defects: a return to normal is announced twice, and of two actions in one
  step only the one of the GPU is returned.
\<close>

lemmas evaluate_defs = evaluate_device_def become_normal_def warning_recovery_def critical_recovery_def
  trigger_recovery_def Let_def

subsection \<open>The recovery budget\<close>

fun is_recovery :: "ComputeUnit \<Rightarrow> wd_event \<Rightarrow> bool" where
  "is_recovery u (Recovery u' step util n delay) \<longleftrightarrow> u = u'"
| "is_recovery u _ \<longleftrightarrow> False"

definition recoveries :: "ComputeUnit \<Rightarrow> wd_event list \<Rightarrow> nat" where
  "recoveries u ev = length (filter (is_recovery u) ev)"

lemma recoveries_append [simp]: "recoveries u (xs @ ys) = recoveries u xs + recoveries u ys"
  by (simp add: recoveries_def)

lemma recoveries_simps [simp]:
  "recoveries u [] = 0" "recoveries u (e # ev) = (if is_recovery u e then Suc (recoveries u ev) else recoveries u ev)"
  by (simp_all add: recoveries_def)

lemma recoveries_log [simp]: "recoveries u (log_state_change unit step util old new) = 0"
  by (simp add: log_state_change_def)

definition device_ok :: "WatchdogConfig \<Rightarrow> device \<Rightarrow> bool" where
  "device_ok cfg d \<longleftrightarrow> dv_recovery_count d \<le> max_recoveries cfg \<and>
     (dv_in_recovery d \<longrightarrow> dv_recovery_count d = max_recoveries cfg)"

lemma u32_succ_le:
  fixes c m :: u32
  assumes "c < m"
  shows "unat (c + 1) = Suc (unat c)" and "c + 1 \<le> m"
proof -
  have "unat c < unat m" "unat m < 2 ^ 32"
    using assms unsigned_less [of m, where 'a = nat] by (simp_all add: word_less_nat_alt)
  then show "unat (c + 1) = Suc (unat c)" "c + 1 \<le> m"
    by (simp_all add: unat_word_ariths word_le_nat_alt)
qed

lemma evaluate_budget:
  assumes "evaluate_device cfg cb unit util temp thr crit step d = (a, d', ev)" and "device_ok cfg d"
  shows "device_ok cfg d'" and "recoveries unit ev + unat (dv_recovery_count d) = unat (dv_recovery_count d')"
    and "u \<noteq> unit \<Longrightarrow> recoveries u ev = 0"
proof -
  have c: "dv_recovery_count d < max_recoveries cfg" if "\<not> max_recoveries cfg \<le> dv_recovery_count d"
    using that by simp
  show "device_ok cfg d'" "recoveries unit ev + unat (dv_recovery_count d) = unat (dv_recovery_count d')"
    "u \<noteq> unit \<Longrightarrow> recoveries u ev = 0"
    using assms c u32_succ_le [of "dv_recovery_count d" "max_recoveries cfg"]
    by (auto simp: evaluate_defs device_ok_def split: if_splits)
qed

definition device_of :: "ComputeUnit \<Rightarrow> Watchdog \<Rightarrow> device" where
  "device_of u w = (case u of GPU_780M \<Rightarrow> wd_gpu w | HAILO_8L \<Rightarrow> wd_hailo w)"

inductive watchdog_run :: "recovery_callback option \<Rightarrow> Watchdog \<Rightarrow> Watchdog \<Rightarrow> bool" for cb where
  start: "watchdog_run cb w w"
| step: "watchdog_run cb w w1 \<Longrightarrow> watchdog_step cb n gpu hailo w1 = (a, w2) \<Longrightarrow> watchdog_run cb w w2"
| counters: "watchdog_run cb w w1 \<Longrightarrow> watchdog_run cb w (reset_counters w1)"

definition within_budget :: "Watchdog \<Rightarrow> Watchdog \<Rightarrow> bool" where
  "within_budget w0 w \<longleftrightarrow> wd_cfg w = wd_cfg w0 \<and>
     (\<exists>ev. wd_events w = wd_events w0 @ ev \<and>
        (\<forall>u. device_ok (wd_cfg w0) (device_of u w) \<and> recoveries u ev = unat (dv_recovery_count (device_of u w))))"

lemma within_budget_step:
  assumes "within_budget w0 w" and "watchdog_step cb n gpu hailo w = (a, w')"
  shows "within_budget w0 w'"
proof -
  let ?cfg = "wd_cfg w"
  obtain ga g ev1 where g: "evaluate_device ?cfg cb GPU_780M (us_utilization gpu) (us_temperature gpu)
      (gpu_low_threshold ?cfg) (gpu_critical_threshold ?cfg) n (wd_gpu w) = (ga, g, ev1)"
    by (metis prod_cases3)
  obtain ha h ev2 where h: "evaluate_device ?cfg cb HAILO_8L (us_utilization hailo) (us_temperature hailo)
      (hailo_low_threshold ?cfg) (hailo_critical_threshold ?cfg) n (wd_hailo w) = (ha, h, ev2)"
    by (metis prod_cases3)
  have w': "wd_cfg w' = ?cfg" "wd_gpu w' = g" "wd_hailo w' = h" "wd_events w' = wd_events w @ ev1 @ ev2"
    using assms(2) g h by (auto simp: watchdog_step_def Let_def)
  obtain ev where ev: "wd_cfg w = wd_cfg w0" "wd_events w = wd_events w0 @ ev"
    and ok: "\<And>u. device_ok (wd_cfg w0) (device_of u w) \<and> recoveries u ev = unat (dv_recovery_count (device_of u w))"
    using assms(1) by (auto simp: within_budget_def)
  have "device_ok (wd_cfg w0) (device_of u w') \<and>
      recoveries u (ev @ ev1 @ ev2) = unat (dv_recovery_count (device_of u w'))" for u
    using evaluate_budget [OF g] evaluate_budget [OF h] ok [of GPU_780M] ok [of HAILO_8L] ev(1) w'
    by (cases u) (auto simp: device_of_def)
  then show ?thesis
    using ev w' by (auto simp: within_budget_def)
qed

lemma within_budget_counters: "within_budget w0 w \<Longrightarrow> within_budget w0 (reset_counters w)"
  by (auto simp: within_budget_def reset_counters_def device_of_def device_ok_def split: ComputeUnit.splits)

lemma run_within_budget:
  "watchdog_run cb w0 w \<Longrightarrow> wd_gpu w0 = fresh_device \<Longrightarrow> wd_hailo w0 = fresh_device \<Longrightarrow> within_budget w0 w"
proof (induction rule: watchdog_run.induct)
  case (start w)
  then show ?case
    by (auto simp: within_budget_def device_of_def device_ok_def fresh_device_def split: ComputeUnit.splits)
qed (auto intro: within_budget_step within_budget_counters)

text \<open>C7. However the devices behave and whatever the callback answers, between two resets the watchdog attempts
  at most \<open>max_recoveries\<close> recoveries of each device, its counter is their number, and a device that is
  marked as in recovery has used up its budget.  \<open>reset_counters\<close> does not renew the budget.\<close>

theorem recovery_budget:
  assumes "watchdog_run cb w0 w" and "wd_gpu w0 = fresh_device" and "wd_hailo w0 = fresh_device"
  shows "\<exists>ev. wd_events w = wd_events w0 @ ev \<and>
    (\<forall>u. recoveries u ev = unat (dv_recovery_count (device_of u w)) \<and>
         recoveries u ev \<le> unat (max_recoveries (wd_cfg w0)) \<and>
         (dv_in_recovery (device_of u w) \<longrightarrow> recoveries u ev = unat (max_recoveries (wd_cfg w0))))"
proof -
  obtain ev where ev: "wd_events w = wd_events w0 @ ev"
    and ok: "\<And>u. device_ok (wd_cfg w0) (device_of u w) \<and> recoveries u ev = unat (dv_recovery_count (device_of u w))"
    using run_within_budget [OF assms] by (auto simp: within_budget_def)
  have "recoveries u ev \<le> unat (max_recoveries (wd_cfg w0)) \<and>
      (dv_in_recovery (device_of u w) \<longrightarrow> recoveries u ev = unat (max_recoveries (wd_cfg w0)))" for u
    using ok [of u] by (simp add: device_ok_def word_le_nat_alt)
  then show ?thesis
    using ev ok by blast
qed

definition idle_snap :: UtilizationSnapshot where
  "idle_snap = \<lparr>us_utilization = F_Fin 10, us_temperature = F_Fin 50\<rparr>"

definition busy_snap :: UtilizationSnapshot where
  "busy_snap = \<lparr>us_utilization = F_Fin 80, us_temperature = F_Fin 50\<rparr>"

theorem recovery_budget_witness:
  "\<exists>ev. wd_events (snd (watchdog_step None 1 idle_snap busy_snap (new_watchdog default_watchdog_config))) = ev \<and>
     recoveries GPU_780M ev \<le> 10 \<and> recoveries GPU_780M ev = 1"
proof -
  let ?init = "new_watchdog default_watchdog_config"
  let ?w = "snd (watchdog_step None 1 idle_snap busy_snap ?init)"
  have run: "watchdog_run None ?init ?w"
    by (rule watchdog_run.step [OF watchdog_run.start]) (rule prod.collapse [symmetric])
  have "max_recoveries (wd_cfg ?init) = 10" "wd_events ?init = []" "dv_recovery_count (device_of GPU_780M ?w) = 1"
    by code_simp+
  then show ?thesis
    using recovery_budget [OF run] by (auto simp: new_watchdog_def)
qed

subsection \<open>The state of a device\<close>

definition classify :: "float32 \<Rightarrow> float32 \<Rightarrow> float32 \<Rightarrow> WatchdogState" where
  "classify thr crit util = (if f_leq thr util then NORMAL else if f_leq crit util then WARNING else CRITICAL)"

lemma evaluate_state:
  "evaluate_device cfg cb unit util temp thr crit step d = (a, d', ev) \<Longrightarrow> dv_state d' = classify thr crit util"
  by (auto simp: evaluate_defs classify_def split: if_splits)

text \<open>A utilisation that is not a number counts as critical.\<close>

lemma NaN_is_critical: "classify thr crit F_NaN = CRITICAL"
  by (simp add: classify_def f_leq_def)

lemma backoff_capped:
  assumes "backoff_max_ms cfg = F_Fin m" and "compute_backoff_ms cfg n = F_Fin x" and "0 \<le> m"
  shows "x \<le> m"
  using assms by (auto simp: compute_backoff_ms_def Let_def split: if_splits)

subsection \<open>A critical episode\<close>

fun episode ::
  "WatchdogConfig \<Rightarrow> recovery_callback option \<Rightarrow> ComputeUnit \<Rightarrow> float32 \<Rightarrow> float32 \<Rightarrow> (u32 \<times> float32 \<times> float32) list
   \<Rightarrow> device \<Rightarrow> RecoveryAction option list" where
  "episode cfg cb unit thr crit [] d = []"
| "episode cfg cb unit thr crit ((n, util, temp) # xs) d =
     (case evaluate_device cfg cb unit util temp thr crit n d of
        (a, d', ev) \<Rightarrow> a # episode cfg cb unit thr crit xs d')"

definition critical_sample :: "WatchdogConfig \<Rightarrow> float32 \<Rightarrow> float32 \<Rightarrow> u32 \<times> float32 \<times> float32 \<Rightarrow> bool" where
  "critical_sample cfg thr crit = (\<lambda>(n, util, temp). \<not> f_leq thr util \<and> \<not> f_leq crit util \<and>
     \<not> thermal_skip_recovery cfg temp)"

fun expected_actions ::
  "recovery_callback option \<Rightarrow> ComputeUnit \<Rightarrow> nat \<Rightarrow> (u32 \<times> float32 \<times> float32) list \<Rightarrow> RecoveryAction option list" where
  "expected_actions cb unit k [] = []"
| "expected_actions cb unit (Suc k) ((n, util, temp) # xs) =
     (let res = (case cb of None \<Rightarrow> Inl ''No recovery callback registered'' | Some f \<Rightarrow> f unit n util)
      in Some \<lparr>ra_result = value_or FATAL res, ra_device = unit, ra_step = n, ra_util_at_fault = util,
               ra_reason = CriticalRecovered res\<rparr> # expected_actions cb unit k xs)"
| "expected_actions cb unit 0 ((n, util, temp) # xs) =
     Some \<lparr>ra_result = FATAL, ra_device = unit, ra_step = n, ra_util_at_fault = util,
           ra_reason = CriticalExhausted\<rparr> # map (\<lambda>_. None) xs"

lemma critical_step:
  assumes "critical_sample cfg thr crit (n, util, temp)"
  shows "evaluate_device cfg cb unit util temp thr crit n d =
    (let d1 = d\<lparr>dv_consecutive := dv_consecutive d + 1, dv_state := CRITICAL\<rparr>
     in case critical_recovery cfg cb unit n util d1 of
          (a, d2, ev') \<Rightarrow> (a, d2, log_state_change unit n util (dv_state d) CRITICAL @ ev'))"
  using assms by (simp add: evaluate_device_def critical_sample_def Let_def)

lemma silent_episode:
  "list_all (critical_sample cfg thr crit) xs \<Longrightarrow> dv_in_recovery d \<Longrightarrow>
   episode cfg cb unit thr crit xs d = map (\<lambda>_. None) xs"
  by (induction xs arbitrary: d) (auto simp: critical_step critical_recovery_def Let_def)

lemma budget_left:
  fixes c m :: u32
  assumes "unat m - unat c = Suc k"
  shows "c < m" and "unat m - unat (c + 1) = k"
proof -
  show "c < m"
    using assms by (simp add: word_less_nat_alt)
  then show "unat m - unat (c + 1) = k"
    using assms u32_succ_le(1) by simp
qed

lemma episode_actions:
  assumes "list_all (critical_sample cfg thr crit) xs" and "\<not> dv_in_recovery d"
    and "unat (max_recoveries cfg) - unat (dv_recovery_count d) = k"
  shows "episode cfg cb unit thr crit xs d = expected_actions cb unit k xs"
  using assms
proof (induction xs arbitrary: d k)
  case (Cons x xs)
  obtain n util temp where x: "x = (n, util, temp)" by (cases x)
  have crit: "critical_sample cfg thr crit (n, util, temp)" and rest: "list_all (critical_sample cfg thr crit) xs"
    using Cons.prems(1) by (simp_all add: x)
  show ?case
  proof (cases k)
    case 0
    then have "max_recoveries cfg \<le> dv_recovery_count d"
      using Cons.prems(3) by (simp add: word_le_nat_alt)
    then show ?thesis
      using Cons.prems(2) silent_episode [OF rest]
      by (simp add: x 0 critical_step [OF crit] critical_recovery_def Let_def)
  next
    case (Suc k')
    then have "\<not> max_recoveries cfg \<le> dv_recovery_count d"
      "unat (max_recoveries cfg) - unat (dv_recovery_count d + 1) = k'"
      using budget_left [of "max_recoveries cfg" "dv_recovery_count d"] Cons.prems(3) by simp_all
    then show ?thesis
      using Cons.prems(2) Cons.IH [OF rest]
      by (simp add: x Suc critical_step [OF crit] critical_recovery_def trigger_recovery_def Let_def)
  qed
qed simp

text \<open>C16. A device that is not in recovery and stays below its critical threshold, without thermal
  throttling, is recovered immediately in every step until its budget is used up; the next step reports a
  fatal fault without calling the callback, and every later step of the episode reports nothing.\<close>

theorem critical_episode:
  assumes "list_all (critical_sample cfg thr crit) xs" and "\<not> dv_in_recovery d"
  shows "episode cfg cb unit thr crit xs d
    = expected_actions cb unit (unat (max_recoveries cfg) - unat (dv_recovery_count d)) xs"
  using episode_actions [OF assms] by simp

theorem critical_episode_witness:
  "map (map_option ra_reason) (episode (default_watchdog_config\<lparr>max_recoveries := 1\<rparr>) None GPU_780M (F_Fin 60) (F_Fin 40)
     [(1, F_Fin 10, F_Fin 50), (2, F_NaN, F_Fin 50), (3, F_Fin 0, F_Fin 50)] fresh_device)
   = [Some (CriticalRecovered (Inl ''No recovery callback registered'')), Some CriticalExhausted, None]"
  by (subst critical_episode)
     (simp_all add: critical_sample_def f_leq_def thermal_skip_recovery_def default_watchdog_config_def fresh_device_def
       Let_def numeral_2_eq_2)

subsection \<open>Defects\<close>

text \<open>Both tests of the normal branch log the same transition, so it is announced twice.\<close>

lemma normal_announced_twice:
  "dv_state d \<noteq> NORMAL \<Longrightarrow> dv_consecutive d \<noteq> 0 \<Longrightarrow>
   snd (become_normal unit step util d) = replicate 2 (StateChange unit step util (dv_state d) NORMAL)"
  by (simp add: become_normal_def log_state_change_def Let_def numeral_2_eq_2)

text \<open>When both devices act in one step, the action of the Hailo is dropped, a fatal one included.\<close>

lemma hailo_action_dropped:
  "map_option ra_device (fst (watchdog_step None 1 idle_snap idle_snap (new_watchdog (default_watchdog_config\<lparr>max_recoveries := 0\<rparr>))))
     = Some GPU_780M"
  "dv_in_recovery (wd_hailo (snd (watchdog_step None 1 idle_snap idle_snap
     (new_watchdog (default_watchdog_config\<lparr>max_recoveries := 0\<rparr>)))))"
  by code_simp+

text \<open>A recovery in the warning zone does not reset the streak, so every further low step recovers again.\<close>

lemma warning_recovery_keeps_streak:
  "warning_recovery cfg cb unit step util d = (Some a, d', ev) \<Longrightarrow> ra_reason a \<noteq> WarningExhausted \<Longrightarrow>
   dv_consecutive d' = dv_consecutive d \<and> \<not> dv_in_recovery d'"
  by (auto simp: warning_recovery_def trigger_recovery_def Let_def split: if_splits)

end
