(* ===== verification/Health_Score.thy ===== *)
theory Health_Score
  imports Float32
begin

text \<open>
  The pipeline health score of \<^verbatim>\<open>code/src/health_score.cpp\<close>: raw metrics are stored one by one, normalised
  to sub-scores and combined with weights to a score and a grade.  All arithmetic is single precision in
  the order of the source.  The time stamp is an argument of \<open>compute\<close>, and the human-readable summary,
  which only formats the values of the report, is left out.
\<close>

subsection \<open>Data\<close>

datatype HealthGrade = Grade_A | Grade_B | Grade_C | Grade_D | Grade_F

record HealthWeights =
  hw_gpu_utilization :: float32
  hw_hailo_utilization :: float32
  hw_npu_utilization :: float32
  hw_latency :: float32
  hw_memory :: float32
  hw_recovery :: float32
  hw_thermal :: float32
  hw_stability :: float32

definition default_weights :: HealthWeights where
  "default_weights = \<lparr>hw_gpu_utilization = f_round (15 / 100), hw_hailo_utilization = f_round (15 / 100),
     hw_npu_utilization = f_round (5 / 100), hw_latency = f_round (20 / 100), hw_memory = f_round (10 / 100),
     hw_recovery = f_round (15 / 100), hw_thermal = f_round (10 / 100), hw_stability = f_round (10 / 100)\<rparr>"

record SubScores =
  sc_gpu_utilization :: float32
  sc_hailo_utilization :: float32
  sc_npu_utilization :: float32
  sc_latency :: float32
  sc_memory :: float32
  sc_recovery :: float32
  sc_thermal :: float32
  sc_stability :: float32

record RawHealthMetrics =
  rm_gpu_utilization_percent :: float32
  rm_gpu_temperature_c :: float32
  rm_hailo_utilization_percent :: float32
  rm_hailo_temperature_c :: float32
  rm_npu_utilization_percent :: float32
  rm_time_between_steps_ms :: float32
  rm_memory_bandwidth_percent :: float32
  rm_recovery_success_rate_percent :: float32
  rm_latency_drift_percent :: float32

record HealthReport =
  hr_overall_score :: float32
  hr_grade :: HealthGrade
  hr_sub_scores :: SubScores
  hr_raw_metrics :: RawHealthMetrics
  hr_timestamp_ms :: u64

record PipelineHealthScore =
  ph_weights :: HealthWeights
  ph_gpu_util :: float32
  ph_gpu_temp :: float32
  ph_hailo_util :: float32
  ph_hailo_temp :: float32
  ph_npu_util :: float32
  ph_tbt_ms :: float32
  ph_memory_bw :: float32
  ph_recovery_attempts :: u32
  ph_recovery_successes :: u32
  ph_latency_drift :: float32

subsection \<open>Construction\<close>

definition weight_sum :: "HealthWeights \<Rightarrow> float32" where
  "weight_sum w = f_add (f_add (f_add (f_add (f_add (f_add (f_add (hw_gpu_utilization w) (hw_hailo_utilization w))
     (hw_npu_utilization w)) (hw_latency w)) (hw_memory w)) (hw_recovery w)) (hw_thermal w)) (hw_stability w)"

definition normalise_weights :: "HealthWeights \<Rightarrow> HealthWeights" where
  "normalise_weights w =
     (let s = weight_sum w
      in if f_less (f_round (1 / 1000)) (f_abs (f_sub s (F_Fin 1))) \<and> f_less (F_Fin 0) s
         then \<lparr>hw_gpu_utilization = f_div (hw_gpu_utilization w) s,
               hw_hailo_utilization = f_div (hw_hailo_utilization w) s,
               hw_npu_utilization = f_div (hw_npu_utilization w) s,
               hw_latency = f_div (hw_latency w) s, hw_memory = f_div (hw_memory w) s,
               hw_recovery = f_div (hw_recovery w) s, hw_thermal = f_div (hw_thermal w) s,
               hw_stability = f_div (hw_stability w) s\<rparr>
         else w)"

definition new_health :: "HealthWeights \<Rightarrow> PipelineHealthScore" where
  "new_health w = \<lparr>ph_weights = normalise_weights w, ph_gpu_util = F_Fin 0, ph_gpu_temp = F_Fin 0,
     ph_hailo_util = F_Fin 0, ph_hailo_temp = F_Fin 0, ph_npu_util = F_Fin 0, ph_tbt_ms = F_Fin 0,
     ph_memory_bw = F_Fin 0, ph_recovery_attempts = 0, ph_recovery_successes = 0,
     ph_latency_drift = F_Fin 0\<rparr>"

subsection \<open>Updates\<close>

definition update_gpu :: "float32 \<Rightarrow> float32 \<Rightarrow> PipelineHealthScore \<Rightarrow> PipelineHealthScore" where
  "update_gpu util temp h = h\<lparr>ph_gpu_util := util, ph_gpu_temp := temp\<rparr>"

definition update_hailo :: "float32 \<Rightarrow> float32 \<Rightarrow> PipelineHealthScore \<Rightarrow> PipelineHealthScore" where
  "update_hailo util temp h = h\<lparr>ph_hailo_util := util, ph_hailo_temp := temp\<rparr>"

definition update_latency :: "float32 \<Rightarrow> PipelineHealthScore \<Rightarrow> PipelineHealthScore" where
  "update_latency ms h = h\<lparr>ph_tbt_ms := ms\<rparr>"

definition update_memory :: "float32 \<Rightarrow> PipelineHealthScore \<Rightarrow> PipelineHealthScore" where
  "update_memory bw h = h\<lparr>ph_memory_bw := bw\<rparr>"

definition update_recovery :: "bool \<Rightarrow> PipelineHealthScore \<Rightarrow> PipelineHealthScore" where
  "update_recovery ok h =
     (let h1 = h\<lparr>ph_recovery_attempts := ph_recovery_attempts h + 1\<rparr>
      in if ok then h1\<lparr>ph_recovery_successes := ph_recovery_successes h + 1\<rparr> else h1)"

definition update_stability :: "float32 \<Rightarrow> PipelineHealthScore \<Rightarrow> PipelineHealthScore" where
  "update_stability drift h = h\<lparr>ph_latency_drift := drift\<rparr>"

definition update_npu_utilization :: "float32 \<Rightarrow> PipelineHealthScore \<Rightarrow> PipelineHealthScore" where
  "update_npu_utilization util h = h\<lparr>ph_npu_util := util\<rparr>"

definition reset_health :: "PipelineHealthScore \<Rightarrow> PipelineHealthScore" where
  "reset_health h = h\<lparr>ph_gpu_util := F_Fin 0, ph_gpu_temp := F_Fin 0, ph_hailo_util := F_Fin 0,
     ph_hailo_temp := F_Fin 0, ph_npu_util := F_Fin 0, ph_tbt_ms := F_Fin 0, ph_memory_bw := F_Fin 0,
     ph_recovery_attempts := 0, ph_recovery_successes := 0, ph_latency_drift := F_Fin 0\<rparr>"

subsection \<open>Scores\<close>

definition normalize_linear :: "float32 \<Rightarrow> float32 \<Rightarrow> float32" where
  "normalize_linear v target =
     (if f_leq target (F_Fin 0) then F_Fin 0
      else f_clamp (f_mul (f_div v target) (F_Fin 100)) (F_Fin 0) (F_Fin 100))"

definition normalize_inverse :: "float32 \<Rightarrow> float32 \<Rightarrow> float32" where
  "normalize_inverse v max_acceptable =
     (if f_leq max_acceptable (F_Fin 0) then (if f_leq v (F_Fin 0) then F_Fin 100 else F_Fin 0)
      else f_clamp (f_mul (f_sub (F_Fin 1) (f_div v max_acceptable)) (F_Fin 100)) (F_Fin 0) (F_Fin 100))"

definition score_to_grade :: "float32 \<Rightarrow> HealthGrade" where
  "score_to_grade s =
     (if f_leq (F_Fin 90) s then Grade_A else if f_leq (F_Fin 75) s then Grade_B
      else if f_leq (F_Fin 60) s then Grade_C else if f_leq (F_Fin 40) s then Grade_D else Grade_F)"

fun grade_name :: "HealthGrade \<Rightarrow> string" where
  "grade_name Grade_A = ''A''"
| "grade_name Grade_B = ''B''"
| "grade_name Grade_C = ''C''"
| "grade_name Grade_D = ''D''"
| "grade_name Grade_F = ''F''"

fun grade_description :: "HealthGrade \<Rightarrow> string" where
  "grade_description Grade_A = ''Excellent''"
| "grade_description Grade_B = ''Good''"
| "grade_description Grade_C = ''Acceptable''"
| "grade_description Grade_D = ''Poor''"
| "grade_description Grade_F = ''Critical''"

definition recovery_rate :: "PipelineHealthScore \<Rightarrow> float32" where
  "recovery_rate h =
     (if 0 < ph_recovery_attempts h
      then f_div (f_mul (F_Fin 100) (f_of_u32 (ph_recovery_successes h))) (f_of_u32 (ph_recovery_attempts h))
      else F_Fin 100)"

definition raw_metrics :: "PipelineHealthScore \<Rightarrow> RawHealthMetrics" where
  "raw_metrics h = \<lparr>rm_gpu_utilization_percent = ph_gpu_util h, rm_gpu_temperature_c = ph_gpu_temp h,
     rm_hailo_utilization_percent = ph_hailo_util h, rm_hailo_temperature_c = ph_hailo_temp h,
     rm_npu_utilization_percent = ph_npu_util h, rm_time_between_steps_ms = ph_tbt_ms h,
     rm_memory_bandwidth_percent = ph_memory_bw h, rm_recovery_success_rate_percent = recovery_rate h,
     rm_latency_drift_percent = ph_latency_drift h\<rparr>"

definition sub_scores :: "RawHealthMetrics \<Rightarrow> SubScores" where
  "sub_scores r = \<lparr>
     sc_gpu_utilization = normalize_linear (rm_gpu_utilization_percent r) (F_Fin (145 / 2)),
     sc_hailo_utilization = normalize_linear (rm_hailo_utilization_percent r) (F_Fin 84),
     sc_npu_utilization = normalize_linear (rm_npu_utilization_percent r) (F_Fin 84),
     sc_latency = normalize_inverse (rm_time_between_steps_ms r) (F_Fin 45),
     sc_memory = normalize_inverse (rm_memory_bandwidth_percent r) (F_Fin 70),
     sc_recovery = normalize_linear (rm_recovery_success_rate_percent r) (F_Fin 98),
     sc_thermal = normalize_inverse (f_max (rm_gpu_temperature_c r) (rm_hailo_temperature_c r)) (F_Fin 85),
     sc_stability = normalize_inverse (rm_latency_drift_percent r) (F_Fin 10)\<rparr>"

definition thermal_boost :: "HealthWeights \<Rightarrow> RawHealthMetrics \<Rightarrow> float32" where
  "thermal_boost w r =
     (if f_less (rm_gpu_temperature_c r) (rm_hailo_temperature_c r)
      then f_mul (hw_thermal w) (F_Fin (1 / 2)) else F_Fin 0)"

definition weighted_overall :: "HealthWeights \<Rightarrow> RawHealthMetrics \<Rightarrow> SubScores \<Rightarrow> float32" where
  "weighted_overall w r s =
     (let boost = thermal_boost w r;
          thermal_weight = f_add (hw_thermal w) boost;
          stability_weight = f_sub (hw_stability w) boost
      in foldl f_add (f_mul (hw_gpu_utilization w) (sc_gpu_utilization s))
           [f_mul (hw_hailo_utilization w) (sc_hailo_utilization s),
            f_mul (hw_npu_utilization w) (sc_npu_utilization s),
            f_mul (hw_latency w) (sc_latency s), f_mul (hw_memory w) (sc_memory s),
            f_mul (hw_recovery w) (sc_recovery s), f_mul thermal_weight (sc_thermal s),
            f_mul stability_weight (sc_stability s)])"

definition compute :: "u64 \<Rightarrow> PipelineHealthScore \<Rightarrow> HealthReport" where
  "compute now h =
     (let raw = raw_metrics h; sub = sub_scores raw;
          overall = f_clamp (weighted_overall (ph_weights h) raw sub) (F_Fin 0) (F_Fin 100)
      in \<lparr>hr_overall_score = overall, hr_grade = score_to_grade overall, hr_sub_scores = sub,
          hr_raw_metrics = raw, hr_timestamp_ms = now\<rparr>)"

end
