(* ===== verification/Health_Props.thy ===== *)
theory Health_Props
  imports Health_Score
begin

text \<open>
  Whatever the devices report, the health score of a pipeline stays between 0 and 100 and its grade is the
  band it falls into, as long as no reading is \<^verbatim>\<open>NaN\<close>; with one, the score is \<^verbatim>\<open>NaN\<close> and the grade F.
\<close>

subsection \<open>Sub-scores\<close>

definition percent :: "float32 \<Rightarrow> bool" where
  "percent v \<longleftrightarrow> (\<exists>x. v = F_Fin x \<and> 0 \<le> x \<and> x \<le> 100)"

lemma percent_fin_le: "percent v \<Longrightarrow> fin_le 7 v"
  by (auto simp: percent_def fin_le_def)

lemma percent_clamp: "v \<noteq> F_NaN \<Longrightarrow> percent (f_clamp v (F_Fin 0) (F_Fin 100))"
  using f_clamp_cases [of v 0 100] by (simp add: percent_def)

lemma scaled_not_NaN:
  assumes "v \<noteq> F_NaN" and "0 < t"
  shows "f_mul (f_div v (F_Fin t)) (F_Fin 100) \<noteq> F_NaN"
    and "f_mul (f_sub (F_Fin 1) (f_div v (F_Fin t))) (F_Fin 100) \<noteq> F_NaN"
proof -
  have d: "f_div v (F_Fin t) \<noteq> F_NaN"
    using assms by (cases v) simp_all
  then show "f_mul (f_div v (F_Fin t)) (F_Fin 100) \<noteq> F_NaN"
    by (cases "f_div v (F_Fin t)") simp_all
  have "f_sub (F_Fin 1) (f_div v (F_Fin t)) \<noteq> F_NaN"
    using d by (cases "f_div v (F_Fin t)") (simp_all add: f_sub_def)
  then show "f_mul (f_sub (F_Fin 1) (f_div v (F_Fin t))) (F_Fin 100) \<noteq> F_NaN"
    by (cases "f_sub (F_Fin 1) (f_div v (F_Fin t))") simp_all
qed

lemma percent_normalize:
  assumes "v \<noteq> F_NaN" and "0 < t"
  shows "percent (normalize_linear v (F_Fin t))" and "percent (normalize_inverse v (F_Fin t))"
  using percent_clamp [OF scaled_not_NaN(1) [OF assms]] percent_clamp [OF scaled_not_NaN(2) [OF assms]] assms(2)
  by (simp_all add: normalize_linear_def normalize_inverse_def f_leq_def)

lemma f_of_u32_bounds:
  shows "fin_le 32 (f_of_u32 n)" and "0 < n \<Longrightarrow> \<exists>v. f_of_u32 n = F_Fin v \<and> 0 < v"
proof -
  define x :: rat where "x = of_nat (unat n)"
  have "unat n < 2 ^ 32"
    using unsigned_less [of n, where 'a = nat] by simp
  then have "x \<le> of_nat (2 ^ 32)"
    unfolding x_def by (simp only: of_nat_le_iff)
  moreover have "0 \<le> x"
    unfolding x_def by (rule of_nat_0_le_iff)
  ultimately have le: "\<bar>x\<bar> \<le> 2 ^ 32" "x \<le> 2 ^ 32"
    by simp_all
  have fx: "f_of_u32 n = f_round x"
    by (simp only: f_of_u32_def x_def)
  show "fin_le 32 (f_of_u32 n)"
    using f_round_bounded [OF le(1)] unfolding fx fin_le_def by auto
  assume "0 < n"
  then have "1 \<le> unat n"
    by (simp add: unat_gt_0 word_greater_zero_iff Suc_le_eq)
  then have "1 \<le> x"
    unfolding x_def by (metis of_nat_1 of_nat_le_iff)
  then show "\<exists>v. f_of_u32 n = F_Fin v \<and> 0 < v"
    using f_round_pos [OF _ le(2)] unfolding fx by auto
qed

lemma recovery_rate_not_NaN: "recovery_rate h \<noteq> F_NaN"
proof -
  have "fin_le 7 (F_Fin 100)"
    by (simp add: fin_le_def)
  then have "fin_le (7 + 32) (f_mul (F_Fin 100) (f_of_u32 (ph_recovery_successes h)))"
    using f_of_u32_bounds(1) by (intro fin_le_mul) simp_all
  then obtain x where "f_mul (F_Fin 100) (f_of_u32 (ph_recovery_successes h)) = F_Fin x"
    by (auto simp: fin_le_def)
  then show ?thesis
    using f_of_u32_bounds(2) [of "ph_recovery_attempts h"] by (auto simp: recovery_rate_def)
qed

definition metrics_ok :: "PipelineHealthScore \<Rightarrow> bool" where
  "metrics_ok h \<longleftrightarrow> list_all (\<lambda>v. v \<noteq> F_NaN) [ph_gpu_util h, ph_gpu_temp h, ph_hailo_util h, ph_hailo_temp h, ph_npu_util h,
     ph_tbt_ms h, ph_memory_bw h, ph_latency_drift h]"

definition sub_list :: "SubScores \<Rightarrow> float32 list" where
  "sub_list s = [sc_gpu_utilization s, sc_hailo_utilization s, sc_npu_utilization s, sc_latency s, sc_memory s,
     sc_recovery s, sc_thermal s, sc_stability s]"

lemma sub_scores_percent:
  assumes "metrics_ok h"
  shows "list_all percent (sub_list (sub_scores (raw_metrics h)))"
proof -
  have "f_max (ph_gpu_temp h) (ph_hailo_temp h) \<noteq> F_NaN"
    using assms by (auto simp: f_max_def metrics_ok_def)
  then show ?thesis
    using assms recovery_rate_not_NaN [of h]
    by (simp add: sub_list_def sub_scores_def raw_metrics_def metrics_ok_def percent_normalize)
qed

subsection \<open>The overall score\<close>

definition weights_ok :: "HealthWeights \<Rightarrow> bool" where
  "weights_ok w \<longleftrightarrow> list_all (fin_le 0) [hw_gpu_utilization w, hw_hailo_utilization w, hw_npu_utilization w,
     hw_latency w, hw_memory w, hw_recovery w, hw_thermal w, hw_stability w]"

lemma overall_not_NaN:
  assumes w: "weights_ok w" and s: "list_all percent (sub_list s)"
  shows "weighted_overall w r s \<noteq> F_NaN"
proof -
  have "fin_le 0 (F_Fin (1 / 2))" "fin_le 0 (F_Fin 0)"
    unfolding fin_le_def by (rule exI, rule conjI, rule refl, simp)+
  moreover have "fin_le 0 (hw_thermal w)"
    using w by (simp add: weights_ok_def)
  ultimately have boost: "fin_le 0 (thermal_boost w r)"
    using fin_le_mul [of 0 "hw_thermal w" 0 "F_Fin (1 / 2)"] by (simp add: thermal_boost_def)
  have wt: "fin_le 1 (f_add (hw_thermal w) (thermal_boost w r))"
    and ws: "fin_le 1 (f_sub (hw_stability w) (thermal_boost w r))"
    using fin_le_add [OF _ boost, of "hw_thermal w"] fin_le_sub [OF _ boost, of "hw_stability w"] w
    by (simp_all add: weights_ok_def)
  have p: "fin_le 8 (f_mul a b)" if "fin_le (Suc 0) a" "percent b" for a b
    using fin_le_mul [OF that(1) percent_fin_le [OF that(2)]] by simp
  have u: "fin_le (Suc 0) a" if "fin_le 0 a" for a
    using fin_le_mono [OF that] by simp
  show ?thesis
    unfolding weighted_overall_def Let_def
    by (rule fin_le_not_NaN, rule fin_le_sum [of 8])
       (use w s wt ws in \<open>simp_all add: weights_ok_def sub_list_def p u\<close>)
qed

datatype health_update =
    UpdGpu float32 float32 | UpdHailo float32 float32 | UpdNpu float32 | UpdLatency float32
  | UpdMemory float32 | UpdRecovery bool | UpdStability float32 | ResetHealth

fun apply_update :: "health_update \<Rightarrow> PipelineHealthScore \<Rightarrow> PipelineHealthScore" where
  "apply_update (UpdGpu u t) h = update_gpu u t h"
| "apply_update (UpdHailo u t) h = update_hailo u t h"
| "apply_update (UpdNpu u) h = update_npu_utilization u h"
| "apply_update (UpdLatency x) h = update_latency x h"
| "apply_update (UpdMemory x) h = update_memory x h"
| "apply_update (UpdRecovery b) h = update_recovery b h"
| "apply_update (UpdStability x) h = update_stability x h"
| "apply_update ResetHealth h = reset_health h"

fun readings :: "health_update \<Rightarrow> float32 list" where
  "readings (UpdGpu u t) = [u, t]"
| "readings (UpdHailo u t) = [u, t]"
| "readings (UpdNpu u) = [u]"
| "readings (UpdLatency x) = [x]"
| "readings (UpdMemory x) = [x]"
| "readings (UpdRecovery b) = []"
| "readings (UpdStability x) = [x]"
| "readings ResetHealth = []"

lemma apply_update_ok:
  assumes "metrics_ok h" and "list_all (\<lambda>v. v \<noteq> F_NaN) (readings u)"
  shows "metrics_ok (apply_update u h) \<and> ph_weights (apply_update u h) = ph_weights h"
  using assms
  by (cases u) (simp_all add: metrics_ok_def update_gpu_def update_hailo_def update_npu_utilization_def
      update_latency_def update_memory_def update_recovery_def update_stability_def reset_health_def Let_def)

lemma updates_ok:
  assumes "metrics_ok h" and "list_all (\<lambda>u. list_all (\<lambda>v. v \<noteq> F_NaN) (readings u)) us"
  shows "metrics_ok (fold apply_update us h) \<and> ph_weights (fold apply_update us h) = ph_weights h"
  using assms by (induction us arbitrary: h) (auto simp: apply_update_ok)

definition grade_band :: "HealthGrade \<Rightarrow> rat \<Rightarrow> bool" where
  "grade_band g x = (case g of Grade_A \<Rightarrow> 90 \<le> x | Grade_B \<Rightarrow> 75 \<le> x \<and> x < 90 | Grade_C \<Rightarrow> 60 \<le> x \<and> x < 75
     | Grade_D \<Rightarrow> 40 \<le> x \<and> x < 60 | Grade_F \<Rightarrow> x < 40)"

lemma score_to_grade_band: "grade_band (score_to_grade (F_Fin x)) x"
  by (auto simp: grade_band_def score_to_grade_def f_leq_def)

text \<open>C24. With weights of magnitude at most one, after any updates and resets without \<^verbatim>\<open>NaN\<close> readings (infinite
  and negative ones included), every sub-score and the overall score lie between 0 and 100, and the grade is
  the documented band of the overall score.\<close>

theorem health_score_bounded:
  assumes "weights_ok (normalise_weights w)" and "list_all (\<lambda>u. list_all (\<lambda>v. v \<noteq> F_NaN) (readings u)) us"
  shows "\<exists>x. hr_overall_score (compute now (fold apply_update us (new_health w))) = F_Fin x \<and> 0 \<le> x \<and> x \<le> 100 \<and>
    grade_band (hr_grade (compute now (fold apply_update us (new_health w)))) x \<and>
    list_all percent (sub_list (hr_sub_scores (compute now (fold apply_update us (new_health w)))))"
proof -
  let ?h = "fold apply_update us (new_health w)"
  have ok: "metrics_ok ?h" "ph_weights ?h = normalise_weights w"
    using updates_ok [OF _ assms(2), of "new_health w"] by (simp_all add: new_health_def metrics_ok_def)
  have sub: "list_all percent (sub_list (sub_scores (raw_metrics ?h)))"
    using sub_scores_percent [OF ok(1)] .
  have "percent (f_clamp (weighted_overall (ph_weights ?h) (raw_metrics ?h) (sub_scores (raw_metrics ?h))) (F_Fin 0) (F_Fin 100))"
    using overall_not_NaN [OF _ sub, of "ph_weights ?h"] ok(2) assms(1) by (intro percent_clamp) simp
  then show ?thesis
    using sub score_to_grade_band by (auto simp: compute_def Let_def percent_def)
qed

text \<open>The default weights sum up to \<open>1 + 2 powi - 23\<close> in single precision and are kept as they are.\<close>

lemma weight_sum_default: "weight_sum default_weights = F_Fin (8388609 / 8388608)"
  by code_simp

lemma normalise_default: "normalise_weights default_weights = default_weights"
proof -
  have "\<not> f_less (f_round (1 / 1000)) (f_abs (f_sub (F_Fin (8388609 / 8388608)) (F_Fin 1)))"
    by code_simp
  then show ?thesis
    by (simp add: normalise_weights_def weight_sum_default Let_def)
qed

lemma default_weights_ok: "weights_ok (normalise_weights default_weights)"
proof -
  have "fin_le 0 (f_round x)" if "\<bar>x\<bar> \<le> 1" for x
    using f_round_bounded [of x 0] that by (auto simp: fin_le_def)
  then show ?thesis
    unfolding normalise_default by (simp add: weights_ok_def default_weights_def)
qed

theorem health_score_bounded_witness:
  "\<exists>x. hr_overall_score (compute 0 (fold apply_update [UpdGpu (F_Inf False) (F_Fin (- 3)), UpdRecovery False]
     (new_health default_weights))) = F_Fin x \<and> x \<le> 100"
  using health_score_bounded [OF default_weights_ok, of "[UpdGpu (F_Inf False) (F_Fin (- 3)), UpdRecovery False]" 0]
  by auto

text \<open>One \<^verbatim>\<open>NaN\<close> reading makes the score \<^verbatim>\<open>NaN\<close>, which counts as grade F.\<close>

lemma NaN_grade: "score_to_grade F_NaN = Grade_F"
  by (simp add: score_to_grade_def f_leq_def)

end
