(* ===== verification/Cluster_Wire.thy ===== *)
theory Cluster_Wire
  imports Prelude
begin

text \<open>
  The wire protocol of \<^verbatim>\<open>code/src/cluster_transport.cpp\<close>: a twelve-byte header in host order (little
  endian) followed by the payload, written and read with system calls that may transfer less than asked for.

  What a connection delivers is a list of chunks: each \<^verbatim>\<open>read\<close> returns bytes of the first chunk only, and an
  empty chunk or the end of the list is a \<^verbatim>\<open>read\<close> that returns zero or an error.  The answers of \<^verbatim>\<open>write\<close>
  are a list of integers; the kernel never accepts more than it is offered, and a list that is used up is
  an error.  A message type is the byte on the wire, since nothing checks that it is one of the enumerators.
\<close>

subsection \<open>Messages\<close>

type_synonym MsgType = byte

definition MT_GenerateRequest :: MsgType where "MT_GenerateRequest = 0x01"

definition MT_Heartbeat :: MsgType where "MT_Heartbeat = 0x02"

definition MT_Shutdown :: MsgType where "MT_Shutdown = 0x03"

definition MT_GenerateResult :: MsgType where "MT_GenerateResult = 0x10"

definition MT_HeartbeatAck :: MsgType where "MT_HeartbeatAck = 0x11"

definition MT_WorkerReady :: MsgType where "MT_WorkerReady = 0x12"

definition MT_ErrorReport :: MsgType where "MT_ErrorReport = 0x1F"

record ReceivedMsg =
  rx_from_node_id :: u32
  rx_type :: MsgType
  rx_payload :: "byte list"

definition kClusterMagic :: u32 where
  "kClusterMagic = 0xCEBE5721"

definition le_u32_bytes :: "u32 \<Rightarrow> byte list" where
  "le_u32_bytes w = [ucast w, ucast (drop_bit 8 w), ucast (drop_bit 16 w), ucast (drop_bit 24 w)]"

definition le_u32_at :: "nat \<Rightarrow> byte list \<Rightarrow> u32" where
  "le_u32_at i bs = unpack_u32 (bs ! (i + 3)) (bs ! (i + 2)) (bs ! (i + 1)) (bs ! i)"

definition header_bytes :: "MsgType \<Rightarrow> u32 \<Rightarrow> byte list" where
  "header_bytes ty len = le_u32_bytes kClusterMagic @ [ty, 0, 0, 0] @ le_u32_bytes len"

subsection \<open>Writing\<close>

fun write_all :: "int list \<Rightarrow> byte list \<Rightarrow> bool \<times> byte list \<times> int list" where
  "write_all ns [] = (True, [], ns)"
| "write_all [] (b # bs) = (False, [], [])"
| "write_all (n # ns) (b # bs) =
     (if n \<le> 0 then (False, [], ns)
      else let k = min (nat n) (length (b # bs))
           in case write_all ns (drop k (b # bs)) of (ok, out, ns') \<Rightarrow> (ok, take k (b # bs) @ out, ns'))"

definition send_msg :: "int list \<Rightarrow> MsgType \<Rightarrow> byte list \<Rightarrow> bool \<times> byte list \<times> int list" where
  "send_msg ns ty payload =
     (case write_all ns (header_bytes ty (of_nat (length payload))) of
        (False, out, ns') \<Rightarrow> (False, out, ns')
      | (True, out, ns') \<Rightarrow>
          if payload = [] then (True, out, ns')
          else (case write_all ns' payload of (ok, out', ns'') \<Rightarrow> (ok, out @ out', ns'')))"

subsection \<open>Reading\<close>

fun read_all :: "byte list list \<Rightarrow> nat \<Rightarrow> byte list option \<times> byte list list" where
  "read_all cs 0 = (Some [], cs)"
| "read_all [] (Suc n) = (None, [])"
| "read_all (c # cs) (Suc n) =
     (if c = [] then (None, cs)
      else if length c \<le> Suc n then
        (case read_all cs (Suc n - length c) of
           (None, r) \<Rightarrow> (None, r)
         | (Some bs, r) \<Rightarrow> (Some (c @ bs), r))
      else (Some (take (Suc n) c), drop (Suc n) c # cs))"

definition hdr_magic :: "byte list \<Rightarrow> u32" where
  "hdr_magic h = le_u32_at 0 h"

definition hdr_payload_len :: "byte list \<Rightarrow> u32" where
  "hdr_payload_len h = le_u32_at 8 h"

definition recv_msg :: "byte list list \<Rightarrow> ReceivedMsg option \<times> byte list list" where
  "recv_msg cs =
     (case read_all cs 12 of
        (None, r) \<Rightarrow> (None, r)
      | (Some h, r) \<Rightarrow>
          if hdr_magic h \<noteq> kClusterMagic then (None, r)
          else if 256 * 1024 * 1024 < hdr_payload_len h then (None, r)
          else let msg = \<lparr>rx_from_node_id = 0, rx_type = h ! 4, rx_payload = []\<rparr>
               in if 0 < hdr_payload_len h then
                    (case read_all r (unat (hdr_payload_len h)) of
                       (None, r') \<Rightarrow> (None, r')
                     | (Some p, r') \<Rightarrow> (Some (msg\<lparr>rx_payload := p\<rparr>), r'))
                  else (Some msg, r))"

subsection \<open>Framing\<close>

lemma write_all_out: "write_all ns bs = (True, out, ns') \<Longrightarrow> out = bs"
  by (induction ns bs arbitrary: out ns' rule: write_all.induct) (auto simp: Let_def split: if_splits prod.splits)

definition frame :: "MsgType \<times> byte list \<Rightarrow> byte list" where
  "frame = (\<lambda>(ty, payload). header_bytes ty (of_nat (length payload)) @ payload)"

lemma send_msg_out: "send_msg ns ty payload = (True, out, ns') \<Longrightarrow> out = frame (ty, payload)"
  by (auto simp: send_msg_def frame_def dest!: write_all_out split: prod.splits bool.splits if_splits)

definition chunked :: "byte list \<Rightarrow> byte list list \<Rightarrow> bool" where
  "chunked bs cs \<longleftrightarrow> concat cs = bs \<and> [] \<notin> set cs"

text \<open>However the bytes are cut into chunks, \<^verbatim>\<open>read_all\<close> returns the next ones in order.\<close>

lemma read_all_chunked:
  assumes "chunked (bs @ rest) cs"
  shows "\<exists>cs'. read_all cs (length bs) = (Some bs, cs') \<and> chunked rest cs'"
  using assms
proof (induction cs "length bs" arbitrary: bs rule: read_all.induct)
  case (1 cs)
  then show ?case by simp
next
  case (2 n)
  then show ?case by (simp add: chunked_def)
next
  case (3 c cs n)
  have c: "c \<noteq> []" and eq: "c @ concat cs = bs @ rest" and ne: "[] \<notin> set cs"
    using 3(3) by (auto simp: chunked_def)
  show ?case
  proof (cases "length c \<le> Suc n")
    case True
    let ?bs = "drop (length c) bs"
    have "take (length c) (c @ concat cs) = take (length c) (bs @ rest)"
      using eq by simp
    then have bs: "bs = c @ ?bs"
      using True 3(2) by (simp add: append_eq_conv_conj) (metis append_take_drop_id)
    then have rest: "concat cs = ?bs @ rest"
      using eq by (metis append.assoc same_append_eq)
    have "Suc n - length c = length ?bs"
      using 3(2) by simp
    from 3(1) [OF c True this] obtain cs' where ih: "read_all cs (Suc n - length c) = (Some ?bs, cs')" "chunked rest cs'"
      using rest ne 3(2) by (auto simp: chunked_def)
    then have "read_all (c # cs) (Suc n) = (Some (c @ ?bs), cs')"
      using c True by simp
    then show ?thesis
      using ih(2) 3(2) bs by auto
  next
    case False
    then have bs: "take (Suc n) c = bs" and rest: "drop (Suc n) c @ concat cs = rest" "drop (Suc n) c \<noteq> []"
      using eq 3(2) by (auto simp: append_eq_append_conv_if)
    have "read_all (c # cs) (Suc n) = (Some bs, drop (Suc n) c # cs)"
      using c False bs by simp
    then show ?thesis
      using rest ne 3(2) by (auto simp: chunked_def)
  qed
qed

lemma le_u32_at_bytes:
  "length xs = i \<Longrightarrow> le_u32_at i (xs @ le_u32_bytes w @ ys) = w"
  by (simp add: le_u32_at_def le_u32_bytes_def nth_append unpack_bytes)

lemma header_fields:
  "length (header_bytes ty len) = 12" "hdr_magic (header_bytes ty len) = kClusterMagic"
  "hdr_payload_len (header_bytes ty len) = len" "header_bytes ty len ! 4 = ty"
proof -
  show "length (header_bytes ty len) = 12" "header_bytes ty len ! 4 = ty"
    by (simp_all add: header_bytes_def le_u32_bytes_def)
  show "hdr_magic (header_bytes ty len) = kClusterMagic"
    using le_u32_at_bytes [of "[]" 0 kClusterMagic] by (simp add: hdr_magic_def header_bytes_def)
  show "hdr_payload_len (header_bytes ty len) = len"
    using le_u32_at_bytes [of "le_u32_bytes kClusterMagic @ [ty, 0, 0, 0]" 8 len "[]"]
    by (simp add: hdr_payload_len_def header_bytes_def le_u32_bytes_def)
qed

definition received :: "MsgType \<times> byte list \<Rightarrow> ReceivedMsg" where
  "received = (\<lambda>(ty, payload). \<lparr>rx_from_node_id = 0, rx_type = ty, rx_payload = payload\<rparr>)"

definition payload_ok :: "MsgType \<times> byte list \<Rightarrow> bool" where
  "payload_ok m \<longleftrightarrow> length (snd m) \<le> 256 * 1024 * 1024"

lemma unat_payload_len:
  assumes "n \<le> 256 * 1024 * 1024"
  shows "unat (of_nat n :: u32) = n" and "\<not> 256 * 1024 * 1024 < (of_nat n :: u32)"
proof -
  show n: "unat (of_nat n :: u32) = n"
    using assms by (simp add: unat_of_nat take_bit_nat_eq_self)
  show "\<not> 256 * 1024 * 1024 < (of_nat n :: u32)"
    using assms by (simp add: word_less_nat_alt n)
qed

lemma recv_frame:
  assumes "chunked (frame m @ rest) cs" and "payload_ok m"
  shows "\<exists>cs'. recv_msg cs = (Some (received m), cs') \<and> chunked rest cs'"
proof -
  obtain ty p where m: "m = (ty, p)" by (cases m)
  let ?h = "header_bytes ty (of_nat (length p))"
  have len: "unat (of_nat (length p) :: u32) = length p" "\<not> 256 * 1024 * 1024 < (of_nat (length p) :: u32)"
    using unat_payload_len assms(2) by (simp_all add: payload_ok_def m)
  obtain cs1 where h: "read_all cs 12 = (Some ?h, cs1)" and c1: "chunked (p @ rest) cs1"
    using read_all_chunked [of ?h "p @ rest" cs] assms(1) by (auto simp: frame_def m header_fields)
  obtain cs2 where p: "read_all cs1 (length p) = (Some p, cs2)" and c2: "chunked rest cs2"
    using read_all_chunked [OF c1] by auto
  have "0 < (of_nat (length p) :: u32) \<longleftrightarrow> p \<noteq> []"
    using len(1) by (metis length_greater_0_conv unat_gt_0 word_gt_0)
  then show ?thesis
    using h p c1 c2 len by (auto simp: recv_msg_def header_fields received_def m Let_def)
qed

text \<open>A sender that writes messages one after the other, and a receiver that reads \<open>n\<close> of them.\<close>

fun send_many :: "int list \<Rightarrow> (MsgType \<times> byte list) list \<Rightarrow> bool \<times> byte list \<times> int list" where
  "send_many ns [] = (True, [], ns)"
| "send_many ns ((ty, p) # ms) =
     (case send_msg ns ty p of
        (False, out, ns') \<Rightarrow> (False, out, ns')
      | (True, out, ns') \<Rightarrow> (case send_many ns' ms of (ok, out', ns'') \<Rightarrow> (ok, out @ out', ns'')))"

fun recv_many :: "nat \<Rightarrow> byte list list \<Rightarrow> ReceivedMsg list \<times> byte list list" where
  "recv_many 0 cs = ([], cs)"
| "recv_many (Suc n) cs =
     (case recv_msg cs of
        (None, r) \<Rightarrow> ([], r)
      | (Some m, r) \<Rightarrow> (case recv_many n r of (ms, r') \<Rightarrow> (m # ms, r')))"

lemma send_many_out: "send_many ns ms = (True, out, ns') \<Longrightarrow> out = concat (map frame ms)"
  by (induction ns ms arbitrary: out ns' rule: send_many.induct)
     (auto dest!: send_msg_out split: prod.splits bool.splits)

lemma recv_many_frames:
  "chunked (concat (map frame ms) @ rest) cs \<Longrightarrow> list_all payload_ok ms \<Longrightarrow>
   \<exists>cs'. recv_many (length ms) cs = (map received ms, cs') \<and> chunked rest cs'"
proof (induction ms arbitrary: cs)
  case (Cons m ms)
  then obtain cs1 where "recv_msg cs = (Some (received m), cs1)" "chunked (concat (map frame ms) @ rest) cs1"
    using recv_frame [of m "concat (map frame ms) @ rest" cs] by auto
  then show ?case
    using Cons by fastforce
qed simp

text \<open>C19. Messages with payloads of at most 256 MiB that are written one after the other on a connection arrive
  in the same order, with the same types and payloads, however the kernel splits the writes and however the
  network splits the reads; the bytes behind them are still there.\<close>

theorem wire_round_trip:
  assumes "send_many ns ms = (True, out, ns')" and "list_all payload_ok ms" and "chunked (out @ rest) cs"
  shows "\<exists>cs'. recv_many (length ms) cs = (map received ms, cs') \<and> chunked rest cs'"
  using recv_many_frames [of ms rest cs] send_many_out [OF assms(1)] assms by simp

theorem wire_round_trip_witness:
  "\<exists>cs'. recv_many 2 [[0x21, 0x57], [0xBE, 0xCE, 0x02, 0, 0, 0, 0, 0, 0, 0, 0x21], [0x57, 0xBE, 0xCE, 0x01, 0, 0, 0, 2],
     [0, 0, 0, 7, 8, 9]] = (map received [(MT_Heartbeat, []), (MT_GenerateRequest, [7, 8])], cs') \<and> chunked [9] cs'"
proof -
  have "fst (send_many [5, 100, 3, 20, 1, 9] [(MT_Heartbeat, []), (MT_GenerateRequest, [7, 8])])"
    by code_simp
  then obtain out ns' where s: "send_many [5, 100, 3, 20, 1, 9] [(MT_Heartbeat, []), (MT_GenerateRequest, [7, 8])] = (True, out, ns')"
    by (metis prod.collapse)
  have "chunked (out @ [9]) [[0x21, 0x57], [0xBE, 0xCE, 0x02, 0, 0, 0, 0, 0, 0, 0, 0x21],
      [0x57, 0xBE, 0xCE, 0x01, 0, 0, 0, 2], [0, 0, 0, 7, 8, 9]]"
    unfolding send_many_out [OF s] chunked_def by code_simp
  from wire_round_trip [OF s _ this] show ?thesis
    by (simp add: payload_ok_def numeral_2_eq_2)
qed

subsection \<open>Where the framing breaks\<close>

text \<open>The length field has 32 bits: a payload of \<open>2 ^ 32\<close> bytes is announced as empty.\<close>

lemma long_payload_announced_empty:
  assumes "length p = 2 ^ 32"
  shows "frame (ty, p) = header_bytes ty 0 @ p"
proof -
  have "(of_nat (length p) :: u32) = 2 ^ 32"
    unfolding assms by (metis of_nat_numeral of_nat_power)
  also have "\<dots> = 0"
    by code_simp
  finally show ?thesis
    by (simp add: frame_def)
qed

text \<open>A payload of more than 256 MiB is written by the sender and refused by the receiver.\<close>

lemma large_payload_refused:
  assumes "256 * 1024 * 1024 < length p" and "length p < 2 ^ 32" and "chunked (frame (ty, p) @ rest) cs"
  shows "fst (recv_msg cs) = None"
proof -
  let ?h = "header_bytes ty (of_nat (length p))"
  have "unat (of_nat (length p) :: u32) = length p"
    using assms(2) by (simp add: unat_of_nat take_bit_nat_eq_self)
  then have "256 * 1024 * 1024 < (of_nat (length p) :: u32)"
    using assms(1) by (simp add: word_less_nat_alt)
  moreover obtain cs1 where "read_all cs 12 = (Some ?h, cs1)"
    using read_all_chunked [of ?h "p @ rest" cs] assms(3) by (auto simp: frame_def header_fields)
  ultimately show ?thesis
    by (simp add: recv_msg_def header_fields)
qed

text \<open>A heartbeat whose header is written between the header and the payload of another message, which no lock
  prevents, becomes the beginning of that payload.\<close>

lemma interleaved_heartbeat:
  assumes "12 \<le> length p" and "payload_ok (ty, p)"
    and "chunked (header_bytes ty (of_nat (length p)) @ header_bytes MT_Heartbeat 0 @ p) cs"
  shows "\<exists>cs'. recv_msg cs = (Some (received (ty, header_bytes MT_Heartbeat 0 @ take (length p - 12) p)), cs') \<and>
    chunked (drop (length p - 12) p) cs'"
proof -
  let ?q = "header_bytes MT_Heartbeat 0 @ take (length p - 12) p"
  have len: "length ?q = length p"
    using assms(1) by (simp add: header_fields)
  then have "frame (ty, ?q) @ drop (length p - 12) p = header_bytes ty (of_nat (length p)) @ header_bytes MT_Heartbeat 0 @ p"
    by (simp add: frame_def del: length_append)
  then show ?thesis
    using recv_frame [of "(ty, ?q)" "drop (length p - 12) p" cs] assms(2,3) len by (simp add: payload_ok_def del: length_append)
qed

end
