(* ===== verification/Cluster_Transport.thy ===== *)
theory Cluster_Transport
  imports Cluster_Wire Std_Map Std_String Float32
begin

text \<open>
  The cluster transport of \<^verbatim>\<open>code/src/cluster_transport.cpp\<close>: the registry of workers, their connections and
  telemetry, the inbound queue, and the load balancer.

  The state is the members of \<^verbatim>\<open>ClusterTransport::Impl\<close> with the part of the operating system they refer to:
  which descriptors are open (\<open>ct_open\<close>) and what was written to each (\<open>ct_out\<close>).  The answers of the
  kernel to \<^verbatim>\<open>write\<close>, the outcome of opening a socket and what arrives on a connection are arguments.  The
  background threads are operations of their own; each piece that runs between two blocking calls is one step
  under the lock it takes.  The accept thread blocks twice per client, in \<^verbatim>\<open>accept\<close> and in the read of the
  first message, and \<open>ct_accept\<close> says where it is; \<^verbatim>\<open>stop\<close> waits for it.  The containers are ordered maps; where the code iterates over an
  \<^verbatim>\<open>unordered_map\<close>, the order is the argument \<open>ord\<close>.  Log output is left out.
\<close>

subsection \<open>Data\<close>

datatype ClusterError = NotConnected | SendFailed | RecvFailed | TimedOut | InvalidMessage | NoWorkers
  | WorkerBusy | ProtocolError

datatype LinkType = Thunderbolt5 | Ethernet10G | LoopbackUnix

type_synonym fd = int

record ClusterNode =
  cn_node_id :: u32
  cn_address :: string
  cn_port :: "16 word"
  cn_link :: LinkType
  cn_health_score :: float32
  cn_is_coordinator :: bool
  cn_reachable :: bool

definition default_node :: ClusterNode where
  "default_node = \<lparr>cn_node_id = 0, cn_address = [], cn_port = 0, cn_link = LoopbackUnix,
     cn_health_score = F_Fin 0, cn_is_coordinator = False, cn_reachable = False\<rparr>"

record WorkerTelemetry =
  wt_node_id :: u32
  wt_composite_health :: float32
  wt_gpu_utilization :: float32
  wt_hailo_utilization :: float32
  wt_gpu_temperature_c :: float32
  wt_queue_depth :: float32
  wt_generations_completed :: u64

definition default_telemetry :: WorkerTelemetry where
  "default_telemetry = \<lparr>wt_node_id = 0, wt_composite_health = F_Fin 0, wt_gpu_utilization = F_Fin 0,
     wt_hailo_utilization = F_Fin 0, wt_gpu_temperature_c = F_Fin 0, wt_queue_depth = F_Fin 0,
     wt_generations_completed = 0\<rparr>"

text \<open>The 32 bytes of the structure in memory.\<close>

definition telemetry_of_bytes :: "byte list \<Rightarrow> WorkerTelemetry" where
  "telemetry_of_bytes bs = \<lparr>wt_node_id = le_u32_at 0 bs, wt_composite_health = f_of_bits (le_u32_at 4 bs),
     wt_gpu_utilization = f_of_bits (le_u32_at 8 bs), wt_hailo_utilization = f_of_bits (le_u32_at 12 bs),
     wt_gpu_temperature_c = f_of_bits (le_u32_at 16 bs), wt_queue_depth = f_of_bits (le_u32_at 20 bs),
     wt_generations_completed = ucast (le_u32_at 24 bs) OR push_bit 32 (ucast (le_u32_at 28 bs))\<rparr>"

record TransportConfig =
  tc_this_node_id :: u32
  tc_is_coordinator :: bool
  tc_preferred_link :: LinkType

datatype rationale = RoundRobin u32 u32 | HealthScore float32 u32

record DispatchDecision =
  dd_target_node_id :: u32
  dd_expected_score :: float32
  dd_rationale :: rationale

text \<open>Where the accept thread is: not running, blocked in \<^verbatim>\<open>accept\<close>, or blocked in the read of the first
  message of a client whose descriptor is open and not registered yet.\<close>

datatype accept_thread = A_Idle | A_Accept | A_Handshake fd string "16 word"

record Transport =
  ct_cfg :: TransportConfig
  ct_running :: bool
  ct_worker_map :: "(u32, ClusterNode) smap"
  ct_worker_sockets :: "(u32, fd) smap"
  ct_worker_telem :: "(u32, WorkerTelemetry) smap"
  ct_rr_index :: u32
  ct_recv_queue :: "ReceivedMsg list"
  ct_local_telem :: WorkerTelemetry
  ct_listen_fd :: fd
  ct_coord_fd :: fd
  ct_sent :: u64
  ct_recvd :: u64
  ct_bytes_sent :: u64
  ct_bytes_recvd :: u64
  ct_send_err :: u64
  ct_recv_err :: u64
  ct_heartbeats :: u64
  ct_accept :: accept_thread
  ct_receiving :: bool
  ct_open :: "fd \<Rightarrow> bool"
  ct_out :: "fd \<Rightarrow> byte list"

definition new_transport :: "TransportConfig \<Rightarrow> Transport" where
  "new_transport cfg = \<lparr>ct_cfg = cfg, ct_running = False, ct_worker_map = [], ct_worker_sockets = [],
     ct_worker_telem = [], ct_rr_index = 0, ct_recv_queue = [], ct_local_telem = default_telemetry,
     ct_listen_fd = - 1, ct_coord_fd = - 1, ct_sent = 0, ct_recvd = 0, ct_bytes_sent = 0, ct_bytes_recvd = 0,
     ct_send_err = 0, ct_recv_err = 0, ct_heartbeats = 0, ct_accept = A_Idle, ct_receiving = False,
     ct_open = (\<lambda>_. False), ct_out = (\<lambda>_. [])\<rparr>"

subsection \<open>Sockets\<close>

definition sock_valid :: "fd \<Rightarrow> bool" where
  "sock_valid fd \<longleftrightarrow> 0 \<le> fd"

definition sock_close :: "fd \<Rightarrow> Transport \<Rightarrow> Transport" where
  "sock_close fd s = s\<lparr>ct_open := (ct_open s)(fd := False)\<rparr>"

text \<open>The effect of a sequence of writes, which fail at once on a descriptor that is not open.\<close>

definition emit :: "fd \<Rightarrow> bool \<times> byte list \<times> int list \<Rightarrow> Transport \<Rightarrow> bool \<times> Transport" where
  "emit fd w s =
     (if ct_open s fd then (fst w, s\<lparr>ct_out := (ct_out s)(fd := ct_out s fd @ fst (snd w))\<rparr>) else (False, s))"

definition cleanup :: "Transport \<Rightarrow> Transport" where
  "cleanup s =
     (let s1 = (if sock_valid (ct_listen_fd s) then (sock_close (ct_listen_fd s) s)\<lparr>ct_listen_fd := - 1\<rparr> else s);
          s2 = (if sock_valid (ct_coord_fd s1) then (sock_close (ct_coord_fd s1) s1)\<lparr>ct_coord_fd := - 1\<rparr> else s1);
          s3 = fold (\<lambda>(i, fd) s. if sock_valid fd then sock_close fd s else s) (ct_worker_sockets s2) s2
      in s3\<lparr>ct_worker_sockets := []\<rparr>)"

text \<open>\<^verbatim>\<open>stop\<close> tells the threads to end, joins them and closes every descriptor.  The join of the accept
  thread and of the receive pump of a worker returns when the thread has left its loop: until then there is no
  result (\<open>None\<close>), and the other steps go on.  The heartbeat thread always ends at its next round.\<close>

definition stop_request :: "Transport \<Rightarrow> Transport" where
  "stop_request s = s\<lparr>ct_running := False\<rparr>"

definition stop_join :: "Transport \<Rightarrow> Transport option" where
  "stop_join s = (if ct_accept s = A_Idle \<and> \<not> ct_receiving s then Some (cleanup s) else None)"

definition stop :: "Transport \<Rightarrow> Transport option" where
  "stop s = stop_join (stop_request s)"

text \<open>\<open>listener\<close> is the descriptor that was created, bound and put into listening state, if all of that succeeded.\<close>

definition start :: "fd option \<Rightarrow> Transport \<Rightarrow> (ClusterError, unit) expected \<times> Transport" where
  "start listener s =
     (if ct_running s then (Inr (), s)
      else if tc_preferred_link (ct_cfg s) = LoopbackUnix then (Inr (), s\<lparr>ct_running := True\<rparr>)
      else case listener of
             None \<Rightarrow> (Inl NotConnected, s\<lparr>ct_listen_fd := - 1\<rparr>)
           | Some fd \<Rightarrow> (Inr (), s\<lparr>ct_listen_fd := fd, ct_open := (ct_open s)(fd := True), ct_running := True,
               ct_accept := (if tc_is_coordinator (ct_cfg s) then A_Accept else ct_accept s)\<rparr>))"

definition connect_to_coordinator ::
  "fd option \<Rightarrow> int list \<Rightarrow> Transport \<Rightarrow> (ClusterError, unit) expected \<times> Transport" where
  "connect_to_coordinator connection ns s =
     (if tc_is_coordinator (ct_cfg s) then (Inl NotConnected, s)
      else if tc_preferred_link (ct_cfg s) = LoopbackUnix then (Inr (), s\<lparr>ct_running := True\<rparr>)
      else case connection of
             None \<Rightarrow> (Inl NotConnected, s\<lparr>ct_coord_fd := - 1\<rparr>)
           | Some fd \<Rightarrow>
               (let s1 = s\<lparr>ct_coord_fd := fd, ct_open := (ct_open s)(fd := True)\<rparr>
                in case emit fd (send_msg ns MT_WorkerReady (le_u32_bytes (tc_this_node_id (ct_cfg s)))) s1 of
                     (False, s2) \<Rightarrow> (Inl SendFailed, (sock_close fd s2)\<lparr>ct_coord_fd := - 1\<rparr>)
                   | (True, s2) \<Rightarrow> (Inr (), s2\<lparr>ct_running := True, ct_receiving := True\<rparr>)))"

definition is_running :: "Transport \<Rightarrow> bool" where
  "is_running s = ct_running s"

subsection \<open>Workers\<close>

definition register_worker :: "ClusterNode \<Rightarrow> Transport \<Rightarrow> bool \<times> Transport" where
  "register_worker node s =
     (if smap_count (ct_worker_map s) (cn_node_id node) then (False, s)
      else (True, s\<lparr>ct_worker_map := smap_put (cn_node_id node) node (ct_worker_map s)\<rparr>))"

definition workers :: "((u32 \<times> ClusterNode) list \<Rightarrow> (u32 \<times> ClusterNode) list) \<Rightarrow> Transport \<Rightarrow> ClusterNode list" where
  "workers ord s = map snd (ord (ct_worker_map s))"

text \<open>The accept loop: \<^verbatim>\<open>accept\<close> returns the descriptor \<open>client\<close> (negative when it fails), and \<open>handshake\<close>
  is what follows when the read of the first message returns.  The loop goes on while the transport runs.\<close>

definition next_accept :: "Transport \<Rightarrow> Transport" where
  "next_accept s = s\<lparr>ct_accept := (if ct_running s then A_Accept else A_Idle)\<rparr>"

definition accept_client :: "fd \<Rightarrow> string \<Rightarrow> 16 word \<Rightarrow> Transport \<Rightarrow> Transport" where
  "accept_client client ip port s =
     (if \<not> sock_valid client then next_accept s
      else s\<lparr>ct_open := (ct_open s)(client := True), ct_accept := A_Handshake client ip port\<rparr>)"

definition admit_worker :: "fd \<Rightarrow> string \<Rightarrow> 16 word \<Rightarrow> u32 \<Rightarrow> Transport \<Rightarrow> Transport" where
  "admit_worker client ip port i s =
     (let node = smap_get default_node (ct_worker_map s) i
      in s\<lparr>ct_worker_sockets := smap_put i client (ct_worker_sockets s),
           ct_worker_map := smap_put i (node\<lparr>cn_node_id := i, cn_address := ip, cn_port := port,
             cn_is_coordinator := False, cn_reachable := True, cn_health_score := F_Fin 0\<rparr>) (ct_worker_map s)\<rparr>)"

definition handshake :: "ReceivedMsg option \<Rightarrow> Transport \<Rightarrow> Transport" where
  "handshake msg s = (case ct_accept s of
      A_Handshake client ip port \<Rightarrow>
        next_accept (case msg of
            None \<Rightarrow> sock_close client s
          | Some m \<Rightarrow>
              if rx_type m \<noteq> MT_WorkerReady \<or> length (rx_payload m) < 4 then sock_close client s
              else admit_worker client ip port (le_u32_at 0 (rx_payload m)) s)
    | _ \<Rightarrow> s)"

definition push_recv :: "ReceivedMsg \<Rightarrow> u32 \<Rightarrow> Transport \<Rightarrow> Transport" where
  "push_recv msg sender s =
     s\<lparr>ct_bytes_recvd := ct_bytes_recvd s + of_nat (12 + length (rx_payload msg)),
       ct_recv_queue := ct_recv_queue s @ [msg\<lparr>rx_from_node_id := sender\<rparr>]\<rparr>"

definition set_health :: "u32 \<Rightarrow> float32 \<Rightarrow> Transport \<Rightarrow> Transport" where
  "set_health i h s = (case smap_find (ct_worker_map s) i of
      None \<Rightarrow> s
    | Some node \<Rightarrow> s\<lparr>ct_worker_map := smap_put i (node\<lparr>cn_health_score := h\<rparr>) (ct_worker_map s)\<rparr>)"

definition store_telemetry :: "u32 \<Rightarrow> WorkerTelemetry \<Rightarrow> Transport \<Rightarrow> Transport" where
  "store_telemetry i t s =
     set_health i (wt_composite_health t) (s\<lparr>ct_worker_telem := smap_put i t (ct_worker_telem s)\<rparr>)"

text \<open>One round of the receive pump of worker \<open>i\<close>: a message, or the end of the connection.\<close>

definition pump_lost :: "u32 \<Rightarrow> Transport \<Rightarrow> Transport" where
  "pump_lost i s =
     (let s1 = (case smap_find (ct_worker_sockets s) i of
                  None \<Rightarrow> s
                | Some fd \<Rightarrow> (sock_close fd s)\<lparr>ct_worker_sockets := smap_put i (- 1) (ct_worker_sockets s)\<rparr>)
      in case smap_find (ct_worker_map s1) i of
           None \<Rightarrow> s1
         | Some node \<Rightarrow> s1\<lparr>ct_worker_map := smap_put i (node\<lparr>cn_reachable := False\<rparr>) (ct_worker_map s1)\<rparr>)"

definition pump_round :: "u32 \<Rightarrow> ReceivedMsg option \<Rightarrow> Transport \<Rightarrow> Transport" where
  "pump_round i msg s = (case msg of
      None \<Rightarrow> pump_lost i s
    | Some m \<Rightarrow>
        (let s1 = s\<lparr>ct_recvd := ct_recvd s + 1\<rparr>
         in if rx_type m = MT_HeartbeatAck \<and> 32 \<le> length (rx_payload m)
            then store_telemetry i (telemetry_of_bytes (rx_payload m)) s1
            else push_recv m i s1))"

text \<open>The receive pump of a worker for its connection to the coordinator.\<close>

definition coordinator_round :: "ReceivedMsg option \<Rightarrow> Transport \<Rightarrow> Transport" where
  "coordinator_round msg s = (case msg of
      None \<Rightarrow> s\<lparr>ct_running := False, ct_receiving := False\<rparr>
    | Some m \<Rightarrow> (push_recv m 0 (s\<lparr>ct_recvd := ct_recvd s + 1\<rparr>))\<lparr>ct_receiving := ct_running s\<rparr>)"

text \<open>One round of the heartbeat thread; \<open>answers fd\<close> are the answers to the writes on \<open>fd\<close>.\<close>

definition heartbeat_round ::
  "((u32 \<times> fd) list \<Rightarrow> (u32 \<times> fd) list) \<Rightarrow> (fd \<Rightarrow> int list) \<Rightarrow> Transport \<Rightarrow> Transport" where
  "heartbeat_round ord answers s =
     (if \<not> tc_is_coordinator (ct_cfg s) then s
      else fold (\<lambda>(i, fd) s. if \<not> sock_valid fd then s
             else (snd (emit fd (write_all (answers fd) (header_bytes MT_Heartbeat 0)) s))
                    \<lparr>ct_heartbeats := ct_heartbeats s + 1\<rparr>)
           (ord (ct_worker_sockets s)) s)"

subsection \<open>Messages\<close>

definition count_sent :: "byte list \<Rightarrow> Transport \<Rightarrow> Transport" where
  "count_sent payload s = s\<lparr>ct_sent := ct_sent s + 1, ct_bytes_sent := ct_bytes_sent s + of_nat (12 + length payload)\<rparr>"

definition transport_send ::
  "int list \<Rightarrow> u32 \<Rightarrow> MsgType \<Rightarrow> byte list \<Rightarrow> Transport \<Rightarrow> (ClusterError, unit) expected \<times> Transport" where
  "transport_send ns target ty payload s = (case smap_find (ct_worker_sockets s) target of
      None \<Rightarrow>
        if tc_preferred_link (ct_cfg s) = LoopbackUnix then (Inr (), count_sent payload s)
        else (Inl NotConnected, s)
    | Some fd \<Rightarrow>
        (case emit fd (send_msg ns ty payload) s of
           (False, s1) \<Rightarrow> (Inl SendFailed, s1\<lparr>ct_send_err := ct_send_err s1 + 1\<rparr>)
         | (True, s1) \<Rightarrow> (Inr (), count_sent payload s1)))"

text \<open>The zero-copy path sends the same bytes from a pinned buffer.\<close>

definition send_embeddings ::
  "int list \<Rightarrow> u32 \<Rightarrow> byte list \<Rightarrow> Transport \<Rightarrow> (ClusterError, unit) expected \<times> Transport" where
  "send_embeddings ns target bytes s = transport_send ns target MT_GenerateRequest bytes s"

text \<open>A receive on an empty queue ends with a time-out, or waits for ever without one.\<close>

definition transport_recv :: "nat \<Rightarrow> Transport \<Rightarrow> ((ClusterError, ReceivedMsg) expected \<times> Transport) option" where
  "transport_recv timeout s = (case ct_recv_queue s of
      [] \<Rightarrow> if 0 < timeout then Some (Inl TimedOut, s) else None
    | m # ms \<Rightarrow> Some (Inr m, s\<lparr>ct_recv_queue := ms\<rparr>))"

definition update_local_telemetry :: "WorkerTelemetry \<Rightarrow> Transport \<Rightarrow> Transport" where
  "update_local_telemetry t s = s\<lparr>ct_local_telem := t\<rparr>"

definition loopback_telemetry :: "(u32, WorkerTelemetry) smap \<Rightarrow> u32 \<Rightarrow> WorkerTelemetry" where
  "loopback_telemetry telem i = (case smap_find telem i of
      Some t \<Rightarrow> t
    | None \<Rightarrow> default_telemetry\<lparr>wt_node_id := i, wt_composite_health := F_Fin (- 1)\<rparr>)"

text \<open>\<open>reply fd\<close> is what the worker behind \<open>fd\<close> answers.\<close>

fun poll_workers ::
  "(fd \<Rightarrow> int list) \<Rightarrow> (fd \<Rightarrow> ReceivedMsg option) \<Rightarrow> (u32 \<times> fd) list \<Rightarrow> Transport \<Rightarrow> WorkerTelemetry list \<times> Transport" where
  "poll_workers answers reply [] s = ([], s)"
| "poll_workers answers reply ((i, fd) # socks) s =
     (if \<not> sock_valid fd then poll_workers answers reply socks s
      else case emit fd (write_all (answers fd) (header_bytes MT_Heartbeat 0)) s of
             (False, s1) \<Rightarrow> poll_workers answers reply socks s1
           | (True, s1) \<Rightarrow>
               (case reply fd of
                  None \<Rightarrow> poll_workers answers reply socks s1
                | Some m \<Rightarrow>
                    if rx_type m \<noteq> MT_HeartbeatAck \<or> length (rx_payload m) < 32
                    then poll_workers answers reply socks s1
                    else (case poll_workers answers reply socks
                                 (store_telemetry i (telemetry_of_bytes (rx_payload m)) s1) of
                            (ts, s2) \<Rightarrow> (telemetry_of_bytes (rx_payload m) # ts, s2))))"

definition collect_telemetry ::
  "((u32 \<times> ClusterNode) list \<Rightarrow> (u32 \<times> ClusterNode) list) \<Rightarrow> ((u32 \<times> fd) list \<Rightarrow> (u32 \<times> fd) list) \<Rightarrow>
   (fd \<Rightarrow> int list) \<Rightarrow> (fd \<Rightarrow> ReceivedMsg option) \<Rightarrow> Transport \<Rightarrow> WorkerTelemetry list \<times> Transport" where
  "collect_telemetry ord sord answers reply s =
     (if tc_preferred_link (ct_cfg s) = LoopbackUnix
      then (map (\<lambda>(i, node). loopback_telemetry (ct_worker_telem s) i) (ord (ct_worker_map s)), s)
      else poll_workers answers reply (sord (ct_worker_sockets s)) s)"

subsection \<open>Load balancing\<close>

definition f_lowest :: float32 where
  "f_lowest = F_Fin (- (2 ^ 128 - 2 ^ 104))"

definition no_node :: u32 where
  "no_node = - 1"

definition effective_score :: "(u32, WorkerTelemetry) smap \<Rightarrow> u32 \<Rightarrow> ClusterNode \<Rightarrow> float32" where
  "effective_score telem i node =
     (let health = (if f_less (F_Fin 0) (cn_health_score node) then cn_health_score node else F_Fin 0);
          queue = (case smap_find telem i of Some t \<Rightarrow> wt_queue_depth t | None \<Rightarrow> F_Fin 0)
      in f_sub health (f_mul (F_Fin 5) queue))"

definition better_worker ::
  "(u32, WorkerTelemetry) smap \<Rightarrow> u32 \<times> ClusterNode \<Rightarrow> u32 \<times> float32 \<Rightarrow> u32 \<times> float32" where
  "better_worker telem = (\<lambda>(i, node) (best_id, best_score).
     if \<not> cn_reachable node then (best_id, best_score)
     else if f_less best_score (effective_score telem i node) then (i, effective_score telem i node)
     else (best_id, best_score))"

definition select_worker ::
  "((u32 \<times> ClusterNode) list \<Rightarrow> (u32 \<times> ClusterNode) list) \<Rightarrow> Transport
   \<Rightarrow> (ClusterError, DispatchDecision) expected \<times> Transport" where
  "select_worker ord s =
     (let nodes = ord (ct_worker_map s)
      in if ct_worker_map s = [] then (Inl NoWorkers, s)
         else case fold (better_worker (ct_worker_telem s)) nodes (no_node, f_lowest) of
                (best_id, best_score) \<Rightarrow>
                  if best_id = no_node then
                    (let sz = of_nat (length nodes) :: u32;
                         i = fst (nodes ! unat (ct_rr_index s mod sz))
                     in (Inr \<lparr>dd_target_node_id = i, dd_expected_score = F_Fin 0, dd_rationale = RoundRobin i sz\<rparr>,
                         s\<lparr>ct_rr_index := ct_rr_index s + 1\<rparr>))
                  else (Inr \<lparr>dd_target_node_id = best_id, dd_expected_score = best_score,
                             dd_rationale = HealthScore best_score best_id\<rparr>, s))"

record TransportStats =
  st_messages_sent :: u64
  st_messages_received :: u64
  st_bytes_sent :: u64
  st_bytes_received :: u64
  st_send_errors :: u64
  st_recv_errors :: u64
  st_heartbeats_sent :: u64
  st_active_workers :: u32

definition transport_stats :: "Transport \<Rightarrow> TransportStats" where
  "transport_stats s = \<lparr>st_messages_sent = ct_sent s, st_messages_received = ct_recvd s,
     st_bytes_sent = ct_bytes_sent s, st_bytes_received = ct_bytes_recvd s, st_send_errors = ct_send_err s,
     st_recv_errors = ct_recv_err s, st_heartbeats_sent = ct_heartbeats s,
     st_active_workers = of_nat (length (ct_worker_sockets s))\<rparr>"

end
