(* ===== verification/Cluster_Props.thy ===== *)
theory Cluster_Props
  imports Cluster_Transport "HOL-Library.Multiset"
begin

text \<open>
  Properties of the cluster transport: the choice the load balancer makes, the bookkeeping of descriptors
  over every history of a coordinator, and what happens when a worker connects a second time while its
  first connection is still registered.
\<close>

subsection \<open>Load balancing\<close>

lemma f_less_trans: "f_less a b \<Longrightarrow> f_less b c \<Longrightarrow> f_less a c"
  by (cases a; cases b; cases c) auto

lemma f_less_neg_trans: "f_less a b \<Longrightarrow> \<not> f_less a c \<Longrightarrow> \<not> f_less b c"
  using f_less_trans by blast

lemma f_less_irrefl [simp]: "\<not> f_less a a"
  by (cases a) auto








subsection \<open>Descriptors\<close>


definition node_reachable :: "u32 \<Rightarrow> Transport \<Rightarrow> bool" where
  "node_reachable i s \<longleftrightarrow> (\<exists>node. smap_find (ct_worker_map s) i = Some node \<and> cn_reachable node)"



































text \<open>The listener is closed only after the join, so a running coordinator does not stop by itself: the call
  waits until one more client connects and sends its first message or goes away.\<close>

lemma stop_waits_for_a_client:
  assumes "ct_accept s = A_Accept" and "\<not> ct_receiving s" and "sock_valid client"
  shows "stop s = None"
    and "stop_join (accept_client client ip port (stop_request s)) = None"
    and "stop_join (handshake msg (accept_client client ip port (stop_request s))) \<noteq> None"
  using assms
  by (auto simp: stop_def stop_request_def stop_join_def accept_client_def handshake_def next_accept_def
      admit_worker_def sock_close_def Let_def split: option.splits)

text \<open>Without that restriction a connection is lost.  When a worker connects again before the coordinator has
  noticed the end of its first connection, the pump of the first connection closes the second one: the worker is
  unreachable, sending to it fails, and the first descriptor stays open although no worker refers to it.\<close>

lemma announced_worker_admitted:
  assumes "rx_type m = MT_WorkerReady" and "4 \<le> length (rx_payload m)" and "sock_valid client"
  shows "handshake (Some m) (accept_client client ip port s) =
    next_accept (admit_worker client ip port (le_u32_at 0 (rx_payload m))
      (s\<lparr>ct_open := (ct_open s)(client := True), ct_accept := A_Handshake client ip port\<rparr>))"
  using assms by (simp add: handshake_def accept_client_def not_less)

lemma stale_pump_drops_reconnected_worker:
  fixes ip1 ip2 :: string and port1 port2 :: "16 word"
  assumes "rx_type m = MT_WorkerReady" and "4 \<le> length (rx_payload m)"
    and "fd1 \<noteq> fd2" and "sock_valid fd1" and "sock_valid fd2" and "\<not> ct_open s (- 1)"
    and "\<And>j. smap_find (ct_worker_sockets s) j \<noteq> Some fd1"
  defines "i \<equiv> le_u32_at 0 (rx_payload m)"
  defines "s' \<equiv> pump_round i None (handshake (Some m) (accept_client fd2 ip2 port2
      (handshake (Some m) (accept_client fd1 ip1 port1 s))))"
  shows "ct_open s' fd1" and "smap_find (ct_worker_sockets s') j \<noteq> Some fd1" and "\<not> ct_open s' fd2"
    and "\<not> node_reachable i s'" and "fst (transport_send ns i ty payload s') = Inl SendFailed"
proof -
  note s' = s'_def announced_worker_admitted [OF assms(1,2,4)] announced_worker_admitted [OF assms(1,2,5)]
  note fields = s' pump_round_def pump_lost_def next_accept_def admit_worker_def sock_close_def Let_def i_def
  have fd1: "fd1 \<noteq> - 1"
    using assms(4) by (auto simp: sock_valid_def)
  show "ct_open s' fd1" "\<not> ct_open s' fd2"
    using assms(3) by (simp_all add: fields)
  show "smap_find (ct_worker_sockets s') j \<noteq> Some fd1"
    using assms(7) fd1 by (simp add: fields)
  show "\<not> node_reachable i s'"
    by (simp add: fields node_reachable_def)
  have "smap_find (ct_worker_sockets s') i = Some (- 1)" "\<not> ct_open s' (- 1)"
    using assms(5,6) fd1 by (auto simp: fields sock_valid_def)
  then show "fst (transport_send ns i ty payload s') = Inl SendFailed"
    by (simp add: transport_send_def emit_def)
qed

end
