(* ===== verification/Anbp_Protocol.thy ===== *)
theory Anbp_Protocol
  imports Prelude
begin

text \<open>
  The binary protocol of the API gateway, \<^verbatim>\<open>ProtocolHelper\<close> of \<^verbatim>\<open>code/src/cerberus_api_gateway.cpp\<close>: the packed
  28-byte header in host order (little endian), message building with its optional XOR obfuscation, the
  checks on received data, session tokens and proofs.

  Random draws and clock readings are arguments.  A pointer is an option.  An opcode is the 16-bit value on
  the wire, since the program casts to the enumeration without a check.
\<close>

type_synonym u16 = "16 word"

subsection \<open>Constants\<close>

definition CERBERUS_ANBP_MAGIC :: u32 where "CERBERUS_ANBP_MAGIC = 0x414E4250"
definition CERBERUS_ANBP_VERSION :: u16 where "CERBERUS_ANBP_VERSION = 1"
definition MAX_PAYLOAD_SIZE :: int where "MAX_PAYLOAD_SIZE = 64 * 1024 * 1024"
definition SHARED_SECRET_SIZE :: nat where "SHARED_SECRET_SIZE = 32"
definition FLAG_ENCRYPTED :: u16 where "FLAG_ENCRYPTED = 1"

definition OP_RUN_GRAPH :: u16 where "OP_RUN_GRAPH = 0x1000"
definition OP_COMPILE_GRAPH :: u16 where "OP_COMPILE_GRAPH = 0x1001"
definition OP_GET_STATUS :: u16 where "OP_GET_STATUS = 0x1002"
definition OP_LIST_BACKENDS :: u16 where "OP_LIST_BACKENDS = 0x1003"
definition OP_SET_BACKEND :: u16 where "OP_SET_BACKEND = 0x1004"
definition OP_PROMOTE_TENSOR :: u16 where "OP_PROMOTE_TENSOR = 0x1005"
definition OP_DEMOTE_TENSOR :: u16 where "OP_DEMOTE_TENSOR = 0x1006"
definition OP_BENCHMARK :: u16 where "OP_BENCHMARK = 0x1007"
definition OP_SLIPSTREAM_WRITE :: u16 where "OP_SLIPSTREAM_WRITE = 0x2000"
definition OP_SLIPSTREAM_FLUSH :: u16 where "OP_SLIPSTREAM_FLUSH = 0x2001"
definition OP_SLIPSTREAM_STATUS :: u16 where "OP_SLIPSTREAM_STATUS = 0x2002"
definition OP_INFERENCE_QUERY :: u16 where "OP_INFERENCE_QUERY = 0x3000"
definition OP_INFERENCE_EXPORT :: u16 where "OP_INFERENCE_EXPORT = 0x3001"
definition OP_INFERENCE_CLEAR :: u16 where "OP_INFERENCE_CLEAR = 0x3002"
definition OP_INFERENCE_STATS :: u16 where "OP_INFERENCE_STATS = 0x3003"
definition OP_HANDSHAKE_INIT :: u16 where "OP_HANDSHAKE_INIT = 0xF000"
definition OP_HANDSHAKE_COMP :: u16 where "OP_HANDSHAKE_COMP = 0xF001"
definition OP_SESSION_AUTH :: u16 where "OP_SESSION_AUTH = 0xF002"
definition OP_SESSION_CLOSE :: u16 where "OP_SESSION_CLOSE = 0xF003"
definition OP_ERR_GENERAL :: u16 where "OP_ERR_GENERAL = 0xFF00"
definition OP_ERR_AUTH :: u16 where "OP_ERR_AUTH = 0xFF01"
definition OP_ERR_PERMISSION :: u16 where "OP_ERR_PERMISSION = 0xFF02"
definition OP_ERR_NOT_FOUND :: u16 where "OP_ERR_NOT_FOUND = 0xFF03"
definition OP_ERR_INVALID :: u16 where "OP_ERR_INVALID = 0xFF04"
definition OP_ERR_SESSION :: u16 where "OP_ERR_SESSION = 0xFF05"
definition OP_SYS_SHUTDOWN :: u16 where "OP_SYS_SHUTDOWN = 0xFF06"

lemmas opcode_defs = OP_RUN_GRAPH_def OP_COMPILE_GRAPH_def OP_GET_STATUS_def OP_LIST_BACKENDS_def
  OP_SET_BACKEND_def OP_PROMOTE_TENSOR_def OP_DEMOTE_TENSOR_def OP_BENCHMARK_def OP_SLIPSTREAM_WRITE_def
  OP_SLIPSTREAM_FLUSH_def OP_SLIPSTREAM_STATUS_def OP_INFERENCE_QUERY_def OP_INFERENCE_EXPORT_def
  OP_INFERENCE_CLEAR_def OP_INFERENCE_STATS_def OP_HANDSHAKE_INIT_def OP_HANDSHAKE_COMP_def
  OP_SESSION_AUTH_def OP_SESSION_CLOSE_def OP_ERR_GENERAL_def OP_ERR_AUTH_def OP_ERR_PERMISSION_def
  OP_ERR_NOT_FOUND_def OP_ERR_INVALID_def OP_ERR_SESSION_def OP_SYS_SHUTDOWN_def

definition opcode_names :: "(u16 \<times> string) list" where
  "opcode_names = [(OP_RUN_GRAPH, ''RUN_GRAPH''), (OP_COMPILE_GRAPH, ''COMPILE_GRAPH''),
     (OP_GET_STATUS, ''GET_STATUS''), (OP_LIST_BACKENDS, ''LIST_BACKENDS''), (OP_SET_BACKEND, ''SET_BACKEND''),
     (OP_PROMOTE_TENSOR, ''PROMOTE_TENSOR''), (OP_DEMOTE_TENSOR, ''DEMOTE_TENSOR''), (OP_BENCHMARK, ''BENCHMARK''),
     (OP_SLIPSTREAM_WRITE, ''SLIPSTREAM_WRITE''), (OP_SLIPSTREAM_FLUSH, ''SLIPSTREAM_FLUSH''),
     (OP_SLIPSTREAM_STATUS, ''SLIPSTREAM_STATUS''), (OP_INFERENCE_QUERY, ''INFERENCE_QUERY''),
     (OP_INFERENCE_EXPORT, ''INFERENCE_EXPORT''), (OP_INFERENCE_CLEAR, ''INFERENCE_CLEAR''),
     (OP_INFERENCE_STATS, ''INFERENCE_STATS''), (OP_HANDSHAKE_INIT, ''HANDSHAKE_INIT''),
     (OP_HANDSHAKE_COMP, ''HANDSHAKE_COMP''), (OP_SESSION_AUTH, ''SESSION_AUTH''), (OP_SESSION_CLOSE, ''SESSION_CLOSE''),
     (OP_ERR_GENERAL, ''ERR_GENERAL''), (OP_ERR_AUTH, ''ERR_AUTH''), (OP_ERR_PERMISSION, ''ERR_PERMISSION''),
     (OP_ERR_NOT_FOUND, ''ERR_NOT_FOUND''), (OP_ERR_INVALID, ''ERR_INVALID''), (OP_ERR_SESSION, ''ERR_SESSION''),
     (OP_SYS_SHUTDOWN, ''SYS_SHUTDOWN'')]"

definition opcodeToString :: "u16 \<Rightarrow> string" where
  "opcodeToString opcode = (case map_of opcode_names opcode of Some n \<Rightarrow> n | None \<Rightarrow> ''UNKNOWN'')"

subsection \<open>Header\<close>

record ANBPHeader =
  ah_magic :: u32
  ah_version :: u16
  ah_opcode :: u16
  ah_payload_length :: u32
  ah_sequence_id :: u32
  ah_session_token :: u16
  ah_flags :: u16
  ah_timestamp_us :: u64

definition header_size :: nat where "header_size = 28"

definition anbp_isValid :: "ANBPHeader \<Rightarrow> bool" where
  "anbp_isValid h \<longleftrightarrow> ah_magic h = CERBERUS_ANBP_MAGIC"

definition isEncrypted :: "ANBPHeader \<Rightarrow> bool" where
  "isEncrypted h \<longleftrightarrow> ah_flags h AND FLAG_ENCRYPTED \<noteq> 0"

fun word_bytes :: "nat \<Rightarrow> 'a::len word \<Rightarrow> byte list" where
  "word_bytes 0 w = []"
| "word_bytes (Suc n) w = ucast w # word_bytes n (drop_bit 8 w)"

fun le_word :: "byte list \<Rightarrow> 'a::len word" where
  "le_word [] = 0"
| "le_word (b # bs) = ucast b OR push_bit 8 (le_word bs)"

definition word_at :: "nat \<Rightarrow> nat \<Rightarrow> byte list \<Rightarrow> 'a::len word" where
  "word_at i n bs = le_word (take n (drop i bs))"

definition serializeHeader :: "ANBPHeader \<Rightarrow> byte list" where
  "serializeHeader h = word_bytes 4 (ah_magic h) @ word_bytes 2 (ah_version h) @ word_bytes 2 (ah_opcode h) @
     word_bytes 4 (ah_payload_length h) @ word_bytes 4 (ah_sequence_id h) @ word_bytes 2 (ah_session_token h) @
     word_bytes 2 (ah_flags h) @ word_bytes 8 (ah_timestamp_us h)"

definition header_of_bytes :: "byte list \<Rightarrow> ANBPHeader" where
  "header_of_bytes bs = \<lparr>ah_magic = word_at 0 4 bs, ah_version = word_at 4 2 bs, ah_opcode = word_at 6 2 bs,
     ah_payload_length = word_at 8 4 bs, ah_sequence_id = word_at 12 4 bs, ah_session_token = word_at 16 2 bs,
     ah_flags = word_at 18 2 bs, ah_timestamp_us = word_at 20 8 bs\<rparr>"

definition deserializeHeader :: "byte list option \<Rightarrow> ANBPHeader option" where
  "deserializeHeader data = (case data of None \<Rightarrow> None
    | Some bs \<Rightarrow>
        if length bs < header_size then None
        else let candidate = header_of_bytes bs
             in if ah_magic candidate = CERBERUS_ANBP_MAGIC \<and> ah_version candidate = CERBERUS_ANBP_VERSION \<and>
                   uint (ah_payload_length candidate) \<le> MAX_PAYLOAD_SIZE \<and>
                   header_size + unat (ah_payload_length candidate) \<le> length bs
                then Some candidate else None)"

subsection \<open>Messages\<close>

definition xor_with :: "byte list \<Rightarrow> byte list \<Rightarrow> byte list" where
  "xor_with key payload = map (\<lambda>i. payload ! i XOR key ! (i mod SHARED_SECRET_SIZE)) [0..<length payload]"

definition buildMessage ::
  "u64 \<Rightarrow> u16 \<Rightarrow> u16 \<Rightarrow> u32 \<Rightarrow> byte list \<Rightarrow> bool \<Rightarrow> byte list option \<Rightarrow> byte list" where
  "buildMessage now_us opcode session_token sequence payload encrypt key =
     (if MAX_PAYLOAD_SIZE < int (length payload) \<or> (encrypt \<and> key = None) then []
      else serializeHeader \<lparr>ah_magic = CERBERUS_ANBP_MAGIC, ah_version = CERBERUS_ANBP_VERSION, ah_opcode = opcode,
             ah_payload_length = of_nat (length payload), ah_sequence_id = sequence,
             ah_session_token = session_token, ah_flags = (if encrypt then FLAG_ENCRYPTED else 0),
             ah_timestamp_us = now_us\<rparr>
           @ (if encrypt then xor_with (the key) payload else payload))"

definition validateMessage :: "ANBPHeader \<Rightarrow> byte list option \<Rightarrow> nat \<Rightarrow> bool" where
  "validateMessage h payload payload_len \<longleftrightarrow>
     ah_magic h = CERBERUS_ANBP_MAGIC \<and> ah_version h = CERBERUS_ANBP_VERSION \<and>
     uint (ah_payload_length h) \<le> MAX_PAYLOAD_SIZE \<and>
     unat (ah_payload_length h) = payload_len \<and> (payload_len = 0 \<or> payload \<noteq> None)"

subsection \<open>Tokens, nonces and proofs\<close>

definition generateNonce :: "u64 list \<Rightarrow> byte list" where
  "generateNonce draws = map ucast (take 16 draws)"

text \<open>\<^verbatim>\<open>generateSessionToken\<close> draws until the token is not zero; the list is what the random device delivers, and
  \<open>None\<close> says that it was not enough.  The counter is the static one of the function.\<close>

fun generateSessionToken :: "u32 \<Rightarrow> u32 list \<Rightarrow> (u16 \<times> u32 \<times> u32 list) option" where
  "generateSessionToken counter [] = None"
| "generateSessionToken counter (r # rs) =
     (let token = ucast (counter XOR push_bit 1 r) :: u16
      in if token = 0 then generateSessionToken (counter + 1) rs else Some (token, counter + 1, rs))"

definition fnv_step :: "byte \<Rightarrow> u64 \<Rightarrow> u64" where
  "fnv_step b s = (s XOR ucast b) * 1099511628211"

fun proof_bytes :: "nat \<Rightarrow> nat \<Rightarrow> u64 \<Rightarrow> byte list" where
  "proof_bytes i 0 s = []"
| "proof_bytes i (Suc n) s =
     (let s1 = (s XOR drop_bit 33 s) * 0xff51afd7ed558ccd; s2 = s1 XOR drop_bit 33 s1
      in ucast (drop_bit (i mod 8 * 8) s2) # proof_bytes (Suc i) n s2)"

definition computeAuthProof :: "byte list \<Rightarrow> string \<Rightarrow> byte list" where
  "computeAuthProof shared_secret context =
     proof_bytes 0 32 (fold fnv_step (bytes_of_string context) (fold fnv_step shared_secret 1469598103934665603))"

subsection \<open>Reading back\<close>

lemma length_word_bytes [simp]: "length (word_bytes n w) = n"
  by (induction n w rule: word_bytes.induct) simp_all

lemma le_word_bytes: "le_word (word_bytes n w) = take_bit (8 * n) w"
proof (induction n w rule: word_bytes.induct)
  case (2 n w)
  have "bit (ucast (ucast w :: byte) OR push_bit 8 (take_bit (8 * n) (drop_bit 8 w))) i = bit (take_bit (8 * Suc n) w) i"
    if "i < LENGTH('a)" for i
    using that by (auto simp: bit_simps)
  then show ?case
    using 2 by (simp add: bit_word_eqI)
qed simp

lemma word_at_bytes:
  fixes w :: "'a::len word"
  assumes "length xs = i" and "LENGTH('a) \<le> 8 * n"
  shows "word_at i n (xs @ word_bytes n w @ ys) = w"
proof -
  have "take_bit (8 * n) w = w"
    using assms(2) by (intro bit_word_eqI) (auto simp: bit_simps)
  then show ?thesis
    using assms(1) by (simp add: word_at_def le_word_bytes)
qed

lemma length_serializeHeader [simp]: "length (serializeHeader h) = header_size"
  by (simp add: serializeHeader_def header_size_def)

lemma header_round_trip: "header_of_bytes (serializeHeader h @ rest) = h"
proof -
  note ser = serializeHeader_def append.assoc
  have "word_at 0 4 (serializeHeader h @ rest) = ah_magic h"
    using word_at_bytes [of "[]" 0 4 "ah_magic h"] by (simp add: ser)
  moreover have "word_at 4 2 (serializeHeader h @ rest) = ah_version h"
    unfolding ser by (rule word_at_bytes) simp_all
  moreover have "word_at 6 2 (serializeHeader h @ rest) = ah_opcode h"
    using word_at_bytes [of "word_bytes 4 (ah_magic h) @ word_bytes 2 (ah_version h)" 6 2 "ah_opcode h"]
    by (simp add: ser)
  moreover have "word_at 8 4 (serializeHeader h @ rest) = ah_payload_length h"
    using word_at_bytes [of "word_bytes 4 (ah_magic h) @ word_bytes 2 (ah_version h) @ word_bytes 2 (ah_opcode h)" 8 4
      "ah_payload_length h"] by (simp add: ser)
  moreover have "word_at 12 4 (serializeHeader h @ rest) = ah_sequence_id h"
    using word_at_bytes [of "word_bytes 4 (ah_magic h) @ word_bytes 2 (ah_version h) @ word_bytes 2 (ah_opcode h) @
      word_bytes 4 (ah_payload_length h)" 12 4 "ah_sequence_id h"] by (simp add: ser)
  moreover have "word_at 16 2 (serializeHeader h @ rest) = ah_session_token h"
    using word_at_bytes [of "word_bytes 4 (ah_magic h) @ word_bytes 2 (ah_version h) @ word_bytes 2 (ah_opcode h) @
      word_bytes 4 (ah_payload_length h) @ word_bytes 4 (ah_sequence_id h)" 16 2 "ah_session_token h"] by (simp add: ser)
  moreover have "word_at 18 2 (serializeHeader h @ rest) = ah_flags h"
    using word_at_bytes [of "word_bytes 4 (ah_magic h) @ word_bytes 2 (ah_version h) @ word_bytes 2 (ah_opcode h) @
      word_bytes 4 (ah_payload_length h) @ word_bytes 4 (ah_sequence_id h) @ word_bytes 2 (ah_session_token h)" 18 2
      "ah_flags h"] by (simp add: ser)
  moreover have "word_at 20 8 (serializeHeader h @ rest) = ah_timestamp_us h"
    using word_at_bytes [of "word_bytes 4 (ah_magic h) @ word_bytes 2 (ah_version h) @ word_bytes 2 (ah_opcode h) @
      word_bytes 4 (ah_payload_length h) @ word_bytes 4 (ah_sequence_id h) @ word_bytes 2 (ah_session_token h) @
      word_bytes 2 (ah_flags h)" 20 8 "ah_timestamp_us h"] by (simp add: ser)
  ultimately show ?thesis
    by (simp add: header_of_bytes_def)
qed

lemma xor_with_length [simp]: "length (xor_with key payload) = length payload"
  by (simp add: xor_with_def)

lemma xor_with_twice: "xor_with key (xor_with key payload) = payload"
proof (rule nth_equalityI)
  fix i
  assume "i < length (xor_with key (xor_with key payload))"
  then have i: "i < length payload"
    by simp
  have "(a XOR k) XOR k = a" for a k :: byte
    by (simp add: xor.assoc)
  then show "xor_with key (xor_with key payload) ! i = payload ! i"
    using i by (simp add: xor_with_def)
qed simp

definition message_payload :: "ANBPHeader \<Rightarrow> byte list \<Rightarrow> byte list" where
  "message_payload h data = take (unat (ah_payload_length h)) (drop header_size data)"

lemma unat_length_u32: "int n \<le> MAX_PAYLOAD_SIZE \<Longrightarrow> unat (of_nat n :: u32) = n"
  by (simp add: MAX_PAYLOAD_SIZE_def unat_of_nat take_bit_nat_eq_self)

lemma message_reads_back:
  assumes "int (length payload) \<le> MAX_PAYLOAD_SIZE"
  shows "\<exists>h. deserializeHeader (Some (buildMessage now opcode token sequence payload encrypt (Some key) @ rest)) = Some h \<and>
    ah_opcode h = opcode \<and> ah_session_token h = token \<and> ah_sequence_id h = sequence \<and> ah_timestamp_us h = now \<and>
    (let p = message_payload h (buildMessage now opcode token sequence payload encrypt (Some key) @ rest)
     in validateMessage h (Some p) (length p) \<and> (if isEncrypted h then xor_with key p else p) = payload)"
proof -
  let ?h = "\<lparr>ah_magic = CERBERUS_ANBP_MAGIC, ah_version = CERBERUS_ANBP_VERSION, ah_opcode = opcode,
             ah_payload_length = of_nat (length payload), ah_sequence_id = sequence,
             ah_session_token = token, ah_flags = (if encrypt then FLAG_ENCRYPTED else 0), ah_timestamp_us = now\<rparr>"
  let ?body = "if encrypt then xor_with key payload else payload"
  let ?msg = "buildMessage now opcode token sequence payload encrypt (Some key)"
  have msg: "?msg @ rest = serializeHeader ?h @ ?body @ rest"
    using assms by (simp add: buildMessage_def)
  have len: "unat (ah_payload_length ?h) = length payload"
    using unat_length_u32 [OF assms] by simp
  then have len': "uint (ah_payload_length ?h) = int (length payload)"
    by (metis uint_nat)
  have "message_payload ?h (?msg @ rest) = ?body"
    unfolding message_payload_def msg len by simp
  moreover have "isEncrypted ?h = encrypt"
    by (simp add: isEncrypted_def FLAG_ENCRYPTED_def)
  moreover have "deserializeHeader (Some (?msg @ rest)) = Some ?h"
    unfolding deserializeHeader_def msg using assms len len' by (simp add: header_round_trip Let_def)
  ultimately show ?thesis
    using assms len len' by (auto simp: validateMessage_def Let_def xor_with_twice)
qed

text \<open>C2. A message built with a payload of at most 64 MiB is accepted by the receiver, whatever bytes follow it: the header
  has the operation, session token, sequence number and time it was built with, the payload cut out at the announced length passes
  validation, and undoing the obfuscation when the flag is set gives back the payload, byte by byte.\<close>

theorem message_round_trip:
  assumes "int (length payload) \<le> MAX_PAYLOAD_SIZE"
  shows "\<exists>h. deserializeHeader (Some (buildMessage now opcode token sequence payload encrypt (Some key) @ rest)) = Some h \<and>
    ah_opcode h = opcode \<and> ah_session_token h = token \<and> ah_sequence_id h = sequence \<and> ah_timestamp_us h = now \<and>
    (let p = message_payload h (buildMessage now opcode token sequence payload encrypt (Some key) @ rest)
     in validateMessage h (Some p) (length p) \<and> (if isEncrypted h then xor_with key p else p) = payload)"
  using assms by (rule message_reads_back)

theorem message_round_trip_witness:
  "\<exists>h. deserializeHeader (Some (buildMessage 5 OP_GET_STATUS 7 9 [1, 2, 3] True (Some (replicate 32 0xAA)) @ [0])) = Some h \<and>
    ah_opcode h = OP_GET_STATUS \<and> xor_with (replicate 32 0xAA) (message_payload h
      (buildMessage 5 OP_GET_STATUS 7 9 [1, 2, 3] True (Some (replicate 32 0xAA)) @ [0])) = [1, 2, 3]"
proof -
  have "int (length [1, 2, 3 :: byte]) \<le> MAX_PAYLOAD_SIZE"
    by (simp add: MAX_PAYLOAD_SIZE_def)
  moreover have "isEncrypted (header_of_bytes (buildMessage 5 OP_GET_STATUS 7 9 [1, 2, 3] True (Some (replicate 32 0xAA)) @ [0]))"
    by code_simp
  ultimately show ?thesis
    using message_round_trip [of "[1, 2, 3]" 5 OP_GET_STATUS 7 9 True "replicate 32 0xAA" "[0]"]
    by (auto simp: deserializeHeader_def Let_def split: if_splits)
qed

end
