(* ===== verification/Api_Gateway.thy ===== *)
theory Api_Gateway
  imports Anbp_Protocol Maintenance_DB User_Security
begin

text \<open>
  The API gateway of \<^verbatim>\<open>code/src/cerberus_api_gateway.cpp\<close>: sessions with a permission mode, and the request handler, which
  answers a protocol message with another one and reaches the maintenance database and the user security.

  The state is the members of \<^verbatim>\<open>CerberusApiGateway\<close>; the two objects it shares are part of it, present or not.
  What a request takes from outside is the record \<open>gw_env\<close>: the successive readings of the two clocks, random draws,
  the outcome and the path of the file export, and the printed durations of the statistics, which are
  double-precision texts.  A request is one step.  \<open>None\<close> as a result says that the loop looking for a free
  token needs more random draws than it was given.  The members no operation reads or writes (shared secret,
  client identity) are left out.
\<close>

subsection \<open>State\<close>

datatype PermissionMode = MODE_NONE | MODE_ACT | MODE_PLAN | MODE_EXECUTE | MODE_AGENTIC

fun mode_num :: "PermissionMode \<Rightarrow> nat" where
  "mode_num MODE_NONE = 0"
| "mode_num MODE_ACT = 1"
| "mode_num MODE_PLAN = 2"
| "mode_num MODE_EXECUTE = 3"
| "mode_num MODE_AGENTIC = 4"

record GatewaySession =
  se_token :: u16
  se_created_at :: int
  se_last_activity :: int
  se_mode :: PermissionMode
  se_authenticated :: bool

record Gateway =
  gw_initialized :: bool
  gw_next_token :: u16
  gw_sessions :: "(u16, GatewaySession) smap"
  gw_lcmd :: "MaintenanceDB option"
  gw_security :: "UserSecurity option"
  gw_node_id :: string
  gw_counter :: u32

definition new_gateway :: "u32 \<Rightarrow> Gateway" where
  "new_gateway counter = \<lparr>gw_initialized = False, gw_next_token = 1, gw_sessions = [], gw_lcmd = None,
     gw_security = None, gw_node_id = ''local'', gw_counter = counter\<rparr>"

record gw_env =
  ge_clock :: "nat \<Rightarrow> int"
  ge_wall_us :: "nat \<Rightarrow> u64"
  ge_time :: int
  ge_draws :: "u32 list"
  ge_export :: "bool \<times> string"
  ge_timing :: "string \<times> string"
  ge_crypto :: crypto

subsection \<open>Sessions\<close>

text \<open>The steady clock counts nanoseconds; the elapsed time is cut to seconds.\<close>

definition SESSION_TIMEOUT :: int where "SESSION_TIMEOUT = 300"

definition isExpired :: "int \<Rightarrow> GatewaySession \<Rightarrow> bool" where
  "isExpired now se \<longleftrightarrow> SESSION_TIMEOUT < (now - se_last_activity se) div 1000000000"

definition gw_initialize :: "Gateway \<Rightarrow> bool \<times> Gateway" where
  "gw_initialize s =
     (if gw_initialized s then (True, s)
      else (True, s\<lparr>gw_next_token := max (gw_next_token s) 1, gw_initialized := True\<rparr>))"

definition gw_shutdown :: "Gateway \<Rightarrow> Gateway" where
  "gw_shutdown s = s\<lparr>gw_sessions := [], gw_initialized := False\<rparr>"

definition isInitialized :: "Gateway \<Rightarrow> bool" where
  "isInitialized s = gw_initialized s"

lemma generateSessionToken_shorter:
  "generateSessionToken c rs = Some (t, c', rs') \<Longrightarrow> length rs' < length rs"
  by (induction c rs rule: generateSessionToken.induct) (auto simp: Let_def split: if_splits)

function pick_token :: "(u16, GatewaySession) smap \<Rightarrow> u16 \<Rightarrow> u32 \<Rightarrow> u32 list \<Rightarrow> (u16 \<times> u32) option" where
  "pick_token sessions token counter draws =
     (if token = 0 \<or> smap_count sessions token then
        (case generateSessionToken counter draws of
           None \<Rightarrow> None
         | Some (t, c, ds) \<Rightarrow> pick_token sessions t c ds)
      else Some (token, counter))"
  by pat_completeness auto
termination
  by (relation "measure (\<lambda>(_, _, _, ds). length ds)") (auto dest: generateSessionToken_shorter)

declare pick_token.simps [simp del]

definition createSession :: "int \<Rightarrow> u32 list \<Rightarrow> Gateway \<Rightarrow> (u16 \<times> Gateway) option" where
  "createSession now draws s =
     (case pick_token (gw_sessions s) (gw_next_token s) (gw_counter s) draws of
        None \<Rightarrow> None
      | Some (token, counter) \<Rightarrow>
          Some (token, s\<lparr>gw_sessions := smap_put token \<lparr>se_token = token, se_created_at = now, se_last_activity = now,
                           se_mode = MODE_NONE, se_authenticated = False\<rparr> (gw_sessions s),
                         gw_next_token := (if token + 1 = 0 then 1 else token + 1), gw_counter := counter\<rparr>))"

definition closeSession :: "u16 \<Rightarrow> Gateway \<Rightarrow> bool \<times> Gateway" where
  "closeSession token s =
     (smap_count (gw_sessions s) token, s\<lparr>gw_sessions := smap_erase token (gw_sessions s)\<rparr>)"

definition getSession :: "int \<Rightarrow> u16 \<Rightarrow> Gateway \<Rightarrow> GatewaySession option \<times> Gateway" where
  "getSession now token s = (case smap_find (gw_sessions s) token of
      None \<Rightarrow> (None, s)
    | Some se \<Rightarrow>
        if isExpired now se then (None, s)
        else let se' = se\<lparr>se_last_activity := now\<rparr>
             in (Some se', s\<lparr>gw_sessions := smap_put token se' (gw_sessions s)\<rparr>))"

definition cleanupExpiredSessions :: "int \<Rightarrow> Gateway \<Rightarrow> Gateway" where
  "cleanupExpiredSessions now s = s\<lparr>gw_sessions := filter (\<lambda>(t, se). \<not> isExpired now se) (gw_sessions s)\<rparr>"

definition sessionCount :: "Gateway \<Rightarrow> nat" where
  "sessionCount s = length (gw_sessions s)"

definition setPermissionMode :: "u16 \<Rightarrow> PermissionMode \<Rightarrow> Gateway \<Rightarrow> bool \<times> Gateway" where
  "setPermissionMode token mode s = (case smap_find (gw_sessions s) token of
      None \<Rightarrow> (False, s)
    | Some se \<Rightarrow> (True, s\<lparr>gw_sessions := smap_put token (se\<lparr>se_mode := mode\<rparr>) (gw_sessions s)\<rparr>))"

definition setPrivacyContext :: "MaintenanceDB option \<Rightarrow> UserSecurity option \<Rightarrow> string \<Rightarrow> Gateway \<Rightarrow> Gateway" where
  "setPrivacyContext lcmd us node_id s =
     s\<lparr>gw_lcmd := lcmd, gw_security := us, gw_node_id := (if node_id = [] then ''local'' else node_id)\<rparr>"

subsection \<open>Responses\<close>

definition encodeResponse :: "gw_env \<Rightarrow> u16 \<Rightarrow> u16 \<Rightarrow> u32 \<Rightarrow> byte list \<Rightarrow> byte list" where
  "encodeResponse ev opcode token sequence payload = buildMessage (ge_wall_us ev 1) opcode token sequence payload False None"

text \<open>The opcode of the error is ignored: the answer carries the opcode of the request.\<close>

definition encodeError :: "gw_env \<Rightarrow> u16 \<Rightarrow> u32 \<Rightarrow> u16 \<Rightarrow> u16 \<Rightarrow> string \<Rightarrow> byte list" where
  "encodeError ev opcode sequence token error_opcode msg =
     buildMessage (ge_wall_us ev 1) opcode token sequence
       (word_bytes 4 (1 :: u32) @ word_bytes 4 (of_nat (length msg) :: u32) @ bytes_of_string msg) False None"

definition init_response :: "u16 \<Rightarrow> byte list" where
  "init_response token = word_bytes 4 (ucast CERBERUS_ANBP_VERSION :: u32) @ replicate 16 0 @
     map of_nat [0..<SHARED_SECRET_SIZE] @ word_bytes 2 token @ word_bytes 4 (300 :: u32) @ replicate 32 0 @
     word_bytes 8 (0 :: u64)"

definition complete_response :: "u64 \<Rightarrow> u16 \<Rightarrow> byte list" where
  "complete_response now_us token = word_bytes 2 token @ word_bytes 4 (0xF :: u32) @ word_bytes 8 now_us"

subsection \<open>Permissions\<close>

definition required_mode :: "u16 \<Rightarrow> PermissionMode" where
  "required_mode op =
     (if op \<in> {OP_GET_STATUS, OP_LIST_BACKENDS, OP_BENCHMARK} then MODE_ACT
      else if op \<in> {OP_COMPILE_GRAPH, OP_SET_BACKEND} then MODE_PLAN
      else if op \<in> {OP_RUN_GRAPH, OP_PROMOTE_TENSOR, OP_DEMOTE_TENSOR, OP_SLIPSTREAM_WRITE, OP_SLIPSTREAM_FLUSH}
        then MODE_EXECUTE
      else if op \<in> {OP_INFERENCE_QUERY, OP_INFERENCE_STATS} then MODE_ACT
      else if op \<in> {OP_INFERENCE_EXPORT, OP_INFERENCE_CLEAR} then MODE_EXECUTE
      else if op = OP_SYS_SHUTDOWN then MODE_AGENTIC
      else MODE_ACT)"

definition permission_text :: "PermissionMode \<Rightarrow> GatewaySession option \<Rightarrow> string" where
  "permission_text required se = ''Permission denied: requires mode '' @ nat_to_string (mode_num required) @
     '' but session has mode '' @ (case se of None \<Rightarrow> ''-1'' | Some x \<Rightarrow> nat_to_string (mode_num (se_mode x)))"

subsection \<open>Inference audit\<close>

definition inference_stats :: "string \<times> string \<Rightarrow> MaintenanceDB \<Rightarrow> (string, string) smap" where
  "inference_stats timing db =
     (let rs = db_inference_records db
      in smap_of ([(''count'', nat_to_string (length rs)), (''total_ms'', fst timing),
                   (''success_count'', nat_to_string (count_status ''success'' (map snd rs))),
                   (''fail_count'', nat_to_string (count_status ''failed'' (map snd rs)))]
                  @ (if rs = [] then [] else [(''avg_ms'', snd timing)])))"

fun join_commas :: "string list \<Rightarrow> string" where
  "join_commas [] = []"
| "join_commas [x] = x"
| "join_commas (x # y # ys) = x @ '','' @ join_commas (y # ys)"

definition quote :: string where "quote = [CHR 0x22]"

definition stats_json :: "(string, string) smap \<Rightarrow> string" where
  "stats_json m = ''{'' @ join_commas (map (\<lambda>(k, v). quote @ k @ quote @ '':'' @ quote @ v @ quote) m) @ ''}''"

definition records_json :: "InferenceRecord list \<Rightarrow> string" where
  "records_json rs = ''['' @ join_commas (map (\<lambda>r. ''{'' @ quote @ ''id'' @ quote @ '':'' @ quote @ ir_inference_id r @ quote @
     '','' @ quote @ ''status'' @ quote @ '':'' @ quote @ ir_status r @ quote @ ''}'') rs) @ '']''"

definition parse_len_str :: "byte list \<Rightarrow> nat \<Rightarrow> (string \<times> bool) \<times> nat" where
  "parse_len_str p off =
     (if length p < off + 2 then (([], False), off)
      else let len = unat (word_at off 2 p :: u16)
           in if length p < off + 2 + len then (([], False), off + 2)
              else ((string_of_bytes (take len (drop (off + 2) p)), True), off + 2 + len))"

definition em_dash :: string where "em_dash = [CHR 0xE2, CHR 0x80, CHR 0x94]"

fun confirmation_text :: "rbpc_result \<Rightarrow> string" where
  "confirmation_text NodeNotRegistered = ''Node not registered '' @ em_dash @ '' SMDU provision must occur first''"
| "confirmation_text NodeBurned =
     ''Node is burned '' @ em_dash @ '' both PIN and Word confirmation permanently disabled''"
| "confirmation_text ConfirmationSetMissing = ''Confirmation set not found '' @ em_dash @ '' corrupted RBPC state''"
| "confirmation_text WordNotRegistered =
     ''Memorable word not registered '' @ em_dash @ '' set memorable word before confirmation''"
| "confirmation_text PinFailedBurned =
     ''PIN confirmation failed '' @ em_dash @ '' SYSTEM LOCKED. Node burned. Contact administrator.''"
| "confirmation_text (PinFailed n) =
     ''PIN confirmation failed '' @ em_dash @ '' attempt '' @ int_to_string n @ ''/3. Burn on 3rd failure.''"
| "confirmation_text WordFailedBurned =
     ''Word confirmation failed '' @ em_dash @ '' SYSTEM LOCKED. Node burned. Contact administrator.''"
| "confirmation_text (WordFailed n) =
     ''Word confirmation failed '' @ em_dash @ '' attempt '' @ int_to_string n @ ''/3. Burn on 3rd failure.''"
| "confirmation_text _ = []"

definition refusal_text :: "rbpc_result \<Rightarrow> string" where
  "refusal_text r =
     (let t = confirmation_text r
      in t @ (if contains ''burned'' t \<or> contains ''LOCKED'' t then '' [BURNED]'' else []))"

text \<open>The second factor in front of export and clear: the refusal, if there is one, and the new state.\<close>

definition second_factor :: "gw_env \<Rightarrow> byte list \<Rightarrow> Gateway \<Rightarrow> string option \<times> Gateway" where
  "second_factor ev payload s =
     (case parse_len_str payload 0 of ((pin, pin_ok), off) \<Rightarrow>
      case parse_len_str payload off of ((memorable, word_ok), off') \<Rightarrow>
        case gw_security s of
          None \<Rightarrow> (None, s)
        | Some us \<Rightarrow>
            if \<not> pin_ok \<or> \<not> word_ok \<or> pin = [] \<or> memorable = []
            then (Some ''RBPC pin+word required (binary len+data)'', s)
            else (case verify_confirmation (ge_crypto ev) (ge_time ev) (gw_node_id s) pin memorable us of
                    (r, us') \<Rightarrow> (if r = Accepted then None else Some (refusal_text r), s\<lparr>gw_security := Some us'\<rparr>)))"

subsection \<open>Requests\<close>

text \<open>What happens after the permission gate.\<close>

definition dispatch_opcode ::
  "gw_env \<Rightarrow> u16 \<Rightarrow> u32 \<Rightarrow> u16 \<Rightarrow> byte list \<Rightarrow> Gateway \<Rightarrow> byte list \<times> Gateway" where
  "dispatch_opcode ev opcode sequence token payload s =
     (if opcode = OP_INFERENCE_QUERY \<or> opcode = OP_INFERENCE_STATS then
        (case gw_lcmd s of
           None \<Rightarrow> (encodeError ev opcode sequence token OP_ERR_GENERAL ''inference audit not configured'', s)
         | Some db \<Rightarrow>
             if opcode = OP_INFERENCE_STATS
             then (encodeResponse ev opcode token sequence
                     (bytes_of_string (stats_json (inference_stats (ge_timing ev) db))), s)
             else (encodeResponse ev opcode token sequence
                     (bytes_of_string (records_json (query_inference_records 0 (ge_time ev + 86400) 5 db))), s))
      else if opcode = OP_INFERENCE_EXPORT \<or> opcode = OP_INFERENCE_CLEAR then
        (case gw_lcmd s of
           None \<Rightarrow> (encodeError ev opcode sequence token OP_ERR_GENERAL ''inference audit not configured'', s)
         | Some db \<Rightarrow>
             (case second_factor ev payload s of
                (Some msg, s1) \<Rightarrow> (encodeError ev opcode sequence token OP_ERR_PERMISSION msg, s1)
              | (None, s1) \<Rightarrow>
                  if opcode = OP_INFERENCE_EXPORT
                  then (encodeResponse ev opcode token sequence (bytes_of_string
                          (if fst (ge_export ev)
                           then ''{'' @ quote @ ''exported'' @ quote @ '':true,'' @ quote @ ''path'' @ quote @ '':'' @ quote @
                                snd (ge_export ev) @ quote @ ''}''
                           else ''{'' @ quote @ ''exported'' @ quote @ '':false}'')), s1)
                  else (let before = (case smap_find (inference_stats (ge_timing ev) db) ''count'' of
                                        None \<Rightarrow> 0
                                      | Some v \<Rightarrow> (case stoull v of None \<Rightarrow> 0 | Some n \<Rightarrow> n));
                            (cleared, db') = clear_inference_records db
                        in (encodeResponse ev opcode token sequence (bytes_of_string
                              (''{'' @ quote @ ''cleared'' @ quote @ '':'' @ (if cleared then ''true'' else ''false'') @ '','' @
                               quote @ ''before'' @ quote @ '':'' @ nat_to_string (unat before) @ ''}'')),
                            s1\<lparr>gw_lcmd := Some db'\<rparr>))))
      else (encodeResponse ev opcode token sequence payload, s))"

definition permission_gate ::
  "gw_env \<Rightarrow> u16 \<Rightarrow> u32 \<Rightarrow> u16 \<Rightarrow> byte list \<Rightarrow> Gateway \<Rightarrow> byte list \<times> Gateway" where
  "permission_gate ev opcode sequence token payload s =
     (case getSession (ge_clock ev 2) token s of (se, s1) \<Rightarrow>
        let required = required_mode opcode
        in if (case se of None \<Rightarrow> True | Some x \<Rightarrow> mode_num (se_mode x) < mode_num required)
           then (encodeError ev opcode sequence token OP_ERR_PERMISSION (permission_text required se), s1)
           else dispatch_opcode ev opcode sequence token payload s1)"

definition authenticate :: "gw_env \<Rightarrow> u16 \<Rightarrow> u32 \<Rightarrow> u16 \<Rightarrow> Gateway \<Rightarrow> byte list \<times> Gateway" where
  "authenticate ev opcode sequence token s =
     (case getSession (ge_clock ev 2) token s of
        (None, s1) \<Rightarrow> (encodeError ev opcode sequence token OP_ERR_SESSION ''Session unknown'', s1)
      | (Some se, s1) \<Rightarrow>
          (encodeResponse ev OP_HANDSHAKE_COMP token sequence (complete_response (ge_wall_us ev 0) token),
           s1\<lparr>gw_sessions := smap_put token (se\<lparr>se_authenticated := True, se_mode := MODE_ACT\<rparr>) (gw_sessions s1)\<rparr>))"

definition route :: "gw_env \<Rightarrow> u16 \<Rightarrow> u32 \<Rightarrow> u16 \<Rightarrow> byte list \<Rightarrow> Gateway \<Rightarrow> byte list \<times> Gateway" where
  "route ev opcode sequence token payload s =
     (if opcode = OP_HANDSHAKE_COMP \<or> opcode = OP_SESSION_AUTH then authenticate ev opcode sequence token s
      else if opcode = OP_SESSION_CLOSE then
        (case closeSession token s of (closed, s1) \<Rightarrow>
           (encodeResponse ev OP_SESSION_CLOSE token sequence (word_bytes 4 (if closed then 0 else 1 :: u32)), s1))
      else permission_gate ev opcode sequence token payload s)"

definition handleRequest :: "gw_env \<Rightarrow> byte list option \<Rightarrow> Gateway \<Rightarrow> (byte list \<times> Gateway) option" where
  "handleRequest ev data s =
     (if \<not> gw_initialized s
      then Some (encodeError ev OP_ERR_GENERAL 0 0 OP_ERR_GENERAL ''Gateway not initialized'', s)
      else case deserializeHeader data of
        None \<Rightarrow> Some (encodeError ev OP_ERR_GENERAL 0 0 OP_ERR_GENERAL ''Invalid ANBP header'', s)
      | Some h \<Rightarrow>
          (let payload = message_payload h (the data); s1 = cleanupExpiredSessions (ge_clock ev 0) s;
               opcode = ah_opcode h; sequence = ah_sequence_id h; token = ah_session_token h
           in if opcode = OP_HANDSHAKE_INIT then
                (case createSession (ge_clock ev 1) (ge_draws ev) s1 of
                   None \<Rightarrow> None
                 | Some (t, s2) \<Rightarrow> Some (encodeResponse ev OP_HANDSHAKE_INIT t sequence (init_response t), s2))
              else if opcode \<noteq> OP_SESSION_AUTH \<and> token \<noteq> 0 then
                (case getSession (ge_clock ev 1) token s1 of
                   (None, s2) \<Rightarrow>
                     Some (encodeError ev opcode sequence token OP_ERR_SESSION ''Session unknown or expired'', s2)
                 | (Some se, s2) \<Rightarrow>
                     if \<not> se_authenticated se
                     then Some (encodeError ev opcode sequence token OP_ERR_AUTH ''Authentication required'', s2)
                     else Some (route ev opcode sequence token payload s2))
              else Some (route ev opcode sequence token payload s1)))"

end
