(* ===== verification/Gateway_Props.thy ===== *)
theory Gateway_Props
  imports Api_Gateway Maintenance_Ops User_Security_Props
begin

text \<open>
  Properties of the API gateway: what a client can and cannot reach without the operator, when the inference
  records are erased, the shape of every answer, and the weaknesses of the handshake.
\<close>

subsection \<open>Frames\<close>

definition same_core_gw :: "Gateway \<Rightarrow> Gateway \<Rightarrow> bool" where
  "same_core_gw s s' \<longleftrightarrow> gw_lcmd s' = gw_lcmd s \<and> gw_security s' = gw_security s \<and> gw_node_id s' = gw_node_id s \<and>
     gw_initialized s' = gw_initialized s"

lemma getSession_core: "same_core_gw s (snd (getSession now t s))"
  by (auto simp: getSession_def same_core_gw_def Let_def split: option.splits)

lemma cleanup_core: "same_core_gw s (cleanupExpiredSessions now s)"
  by (simp add: cleanupExpiredSessions_def same_core_gw_def)

lemma createSession_core: "createSession now draws s = Some (t, s') \<Longrightarrow> same_core_gw s s'"
  by (auto simp: createSession_def same_core_gw_def split: option.splits)

lemma closeSession_core: "same_core_gw s (snd (closeSession t s))"
  by (simp add: closeSession_def same_core_gw_def)

lemma authenticate_core: "same_core_gw s (snd (authenticate ev opcode n t s))"
  using getSession_core [of s "ge_clock ev 2" t]
  by (auto simp: authenticate_def same_core_gw_def split: prod.splits option.splits)

lemma same_core_gw_trans: "same_core_gw s t \<Longrightarrow> same_core_gw t u \<Longrightarrow> same_core_gw s u"
  by (simp add: same_core_gw_def)

lemma getSession_SomeD:
  assumes "getSession now t s = (Some se, s')"
  shows "\<exists>se0. smap_find (gw_sessions s) t = Some se0 \<and> \<not> isExpired now se0 \<and> se = se0\<lparr>se_last_activity := now\<rparr> \<and>
    s' = s\<lparr>gw_sessions := smap_put t se (gw_sessions s)\<rparr>"
  using assms by (auto simp: getSession_def Let_def split: option.splits if_splits)

lemma getSession_NoneD: "getSession now t s = (None, s') \<Longrightarrow> s' = s"
  by (auto simp: getSession_def Let_def split: option.splits if_splits)

lemma find_cleanup:
  assumes "smap_wf (gw_sessions s)" and "smap_find (gw_sessions (cleanupExpiredSessions now s)) t = Some se"
  shows "smap_find (gw_sessions s) t = Some se \<and> \<not> isExpired now se"
  using smap_find_in_set [OF assms(2)] assms(1) by (auto simp: cleanupExpiredSessions_def smap_find_entry)

subsection \<open>Erasing the inference records\<close>

definition confirmed :: "gw_env \<Rightarrow> byte list \<Rightarrow> Gateway \<Rightarrow> bool" where
  "confirmed ev payload s \<longleftrightarrow> (\<forall>us. gw_security s = Some us \<longrightarrow>
     (\<exists>pin memorable off off'. parse_len_str payload 0 = ((pin, True), off) \<and> pin \<noteq> [] \<and>
        parse_len_str payload off = ((memorable, True), off') \<and> memorable \<noteq> [] \<and>
        fst (verify_confirmation (ge_crypto ev) (ge_time ev) (gw_node_id s) pin memorable us) = Accepted))"

lemma second_factor_pass:
  "second_factor ev payload s = (None, s') \<Longrightarrow> confirmed ev payload s"
  by (auto simp: second_factor_def confirmed_def split: prod.splits option.splits if_splits)

lemma second_factor_lcmd: "gw_lcmd (snd (second_factor ev payload s)) = gw_lcmd s"
  by (auto simp: second_factor_def split: prod.splits option.splits)

lemma dispatch_changes_lcmd:
  assumes "dispatch_opcode ev opcode n t payload s = (resp, s')" and "gw_lcmd s' \<noteq> gw_lcmd s"
  shows "opcode = OP_INFERENCE_CLEAR \<and> confirmed ev payload s \<and>
    (\<exists>db. gw_lcmd s = Some db \<and> gw_lcmd s' = Some (snd (clear_inference_records db)))"
proof -
  have "gw_lcmd s1 = gw_lcmd s" if "second_factor ev payload s = (m, s1)" for m s1
    using second_factor_lcmd [of ev payload s] that by simp
  then show ?thesis
    using assms second_factor_pass
    by (auto simp: dispatch_opcode_def Let_def split: if_splits option.splits prod.splits)
qed

lemma confirmed_cong: "same_core_gw s s' \<Longrightarrow> confirmed ev payload s' = confirmed ev payload s"
  by (simp add: confirmed_def same_core_gw_def)

lemma permission_gate_lcmd:
  assumes "permission_gate ev opcode n t payload s = (resp, s')" and "gw_lcmd s' \<noteq> gw_lcmd s"
  shows "opcode = OP_INFERENCE_CLEAR \<and> confirmed ev payload s \<and>
    (\<exists>db. gw_lcmd s = Some db \<and> gw_lcmd s' = Some (snd (clear_inference_records db))) \<and>
    (\<exists>se. smap_find (gw_sessions s) t = Some se \<and> \<not> isExpired (ge_clock ev 2) se \<and> 3 \<le> mode_num (se_mode se))"
proof -
  obtain se s1 where g: "getSession (ge_clock ev 2) t s = (se, s1)"
    by (cases "getSession (ge_clock ev 2) t s")
  have core: "same_core_gw s s1"
    using getSession_core [of s "ge_clock ev 2" t] by (simp add: g)
  then have "gw_lcmd s1 = gw_lcmd s"
    by (simp add: same_core_gw_def)
  then obtain x where se: "se = Some x" and mode: "\<not> mode_num (se_mode x) < mode_num (required_mode opcode)"
    and d: "dispatch_opcode ev opcode n t payload s1 = (resp, s')"
    using assms by (auto simp: permission_gate_def g Let_def split: option.splits if_splits)
  have "opcode = OP_INFERENCE_CLEAR \<and> confirmed ev payload s1 \<and>
    (\<exists>db. gw_lcmd s1 = Some db \<and> gw_lcmd s' = Some (snd (clear_inference_records db)))"
    using dispatch_changes_lcmd [OF d] assms(2) \<open>gw_lcmd s1 = gw_lcmd s\<close> by simp
  moreover have "required_mode OP_INFERENCE_CLEAR = MODE_EXECUTE"
    by (simp add: required_mode_def opcode_defs)
  ultimately show ?thesis
    using getSession_SomeD [OF g [unfolded se]] mode \<open>gw_lcmd s1 = gw_lcmd s\<close> confirmed_cong [OF core] by auto
qed

lemma route_lcmd:
  assumes "route ev opcode n t payload s = (resp, s')" and "gw_lcmd s' \<noteq> gw_lcmd s"
  shows "permission_gate ev opcode n t payload s = (resp, s')"
  using assms authenticate_core [of s ev opcode n t] closeSession_core [of s t]
  by (auto simp: route_def same_core_gw_def split: if_splits prod.splits)

text \<open>How a request can end: it changes nothing, it only touches or creates a session, or it reaches the router; it gets
  there without the authentication check only for SESSION_AUTH and for the token zero.\<close>

lemma handle_cases:
  assumes "handleRequest ev data s = Some (resp, s')"
  defines "s1 \<equiv> cleanupExpiredSessions (ge_clock ev 0) s"
  shows "s' = s \<or> (\<exists>t. s' = snd (getSession (ge_clock ev 1) t s1)) \<or>
    (\<exists>t. createSession (ge_clock ev 1) (ge_draws ev) s1 = Some (t, s')) \<or>
    (\<exists>h s2. deserializeHeader data = Some h \<and>
       route ev (ah_opcode h) (ah_sequence_id h) (ah_session_token h) (message_payload h (the data)) s2 = (resp, s') \<and>
       ((ah_opcode h = OP_SESSION_AUTH \<or> ah_session_token h = 0) \<and> s2 = s1 \<or>
        (\<exists>se. getSession (ge_clock ev 1) (ah_session_token h) s1 = (Some se, s2) \<and> se_authenticated se)))"
proof (cases "deserializeHeader data")
  case None
  then show ?thesis
    using assms by (auto simp: handleRequest_def split: if_splits)
next
  case (Some h)
  consider "\<not> gw_initialized s" | "gw_initialized s" "ah_opcode h = OP_HANDSHAKE_INIT"
    | "gw_initialized s" "ah_opcode h \<noteq> OP_HANDSHAKE_INIT" "ah_opcode h = OP_SESSION_AUTH \<or> ah_session_token h = 0"
    | "gw_initialized s" "ah_opcode h \<noteq> OP_HANDSHAKE_INIT" "ah_opcode h \<noteq> OP_SESSION_AUTH" "ah_session_token h \<noteq> 0"
    by blast
  then show ?thesis
  proof cases
    case 1
    then show ?thesis
      using assms by (auto simp: handleRequest_def)
  next
    case 2
    then show ?thesis
      using assms(1) Some by (auto simp: handleRequest_def Let_def s1_def split: option.splits)
  next
    case 3
    then show ?thesis
      using assms(1) Some by (auto simp: handleRequest_def Let_def s1_def)
  next
    case 4
    obtain se s2 where g: "getSession (ge_clock ev 1) (ah_session_token h) s1 = (se, s2)"
      by (cases "getSession (ge_clock ev 1) (ah_session_token h) s1")
    then have touched: "s2 = snd (getSession (ge_clock ev 1) (ah_session_token h) s1)"
      by simp
    have "s' = s2 \<or> (\<exists>x. se = Some x \<and> se_authenticated x \<and>
        route ev (ah_opcode h) (ah_sequence_id h) (ah_session_token h) (message_payload h (the data)) s2 = (resp, s'))"
      using 4 assms(1) Some g by (auto simp: handleRequest_def Let_def s1_def split: option.splits if_splits)
    then show ?thesis
      using Some g touched by blast
  qed
qed

lemma touched_core:
  "same_core_gw s (snd (getSession now t (cleanupExpiredSessions c s)))"
  "createSession now draws (cleanupExpiredSessions c s) = Some (t, s') \<Longrightarrow> same_core_gw s s'"
  using cleanup_core getSession_core createSession_core same_core_gw_trans by blast+

text \<open>C9. A request changes the maintenance database only by erasing the inference records, and only when its session
  is known, not expired and authenticated with at least the mode EXECUTE, and, where the user security is
  configured, the payload carries a PIN and a word that it accepts.\<close>

theorem gateway_clear_guarded:
  assumes "smap_wf (gw_sessions s)" and "smap_find (gw_sessions s) 0 = None"
    and "handleRequest ev data s = Some (resp, s')" and "gw_lcmd s' \<noteq> gw_lcmd s"
  shows "\<exists>h se db. deserializeHeader data = Some h \<and> ah_opcode h = OP_INFERENCE_CLEAR \<and>
    smap_find (gw_sessions s) (ah_session_token h) = Some se \<and> se_authenticated se \<and> 3 \<le> mode_num (se_mode se) \<and>
    \<not> isExpired (ge_clock ev 0) se \<and> \<not> isExpired (ge_clock ev 1) se \<and>
    confirmed ev (message_payload h (the data)) s \<and>
    gw_lcmd s = Some db \<and> gw_lcmd s' = Some (snd (clear_inference_records db))"
proof -
  let ?s1 = "cleanupExpiredSessions (ge_clock ev 0) s"
  obtain h s2 where h: "deserializeHeader data = Some h"
    and r: "route ev (ah_opcode h) (ah_sequence_id h) (ah_session_token h) (message_payload h (the data)) s2 = (resp, s')"
    and c: "(ah_opcode h = OP_SESSION_AUTH \<or> ah_session_token h = 0) \<and> s2 = ?s1 \<or>
        (\<exists>se. getSession (ge_clock ev 1) (ah_session_token h) ?s1 = (Some se, s2) \<and> se_authenticated se)"
    using handle_cases [OF assms(3)] assms(4) touched_core by (auto simp: same_core_gw_def)
  have core: "same_core_gw s s2"
    using c cleanup_core [of s "ge_clock ev 0"] getSession_core [of ?s1 "ge_clock ev 1" "ah_session_token h"] same_core_gw_trans
    by (metis snd_conv)
  then have "gw_lcmd s' \<noteq> gw_lcmd s2"
    using assms(4) by (simp add: same_core_gw_def)
  note gate = permission_gate_lcmd [OF route_lcmd [OF r this] this]
  then obtain se2 where se2: "smap_find (gw_sessions s2) (ah_session_token h) = Some se2" "3 \<le> mode_num (se_mode se2)"
    by blast
  have "smap_find (gw_sessions ?s1) 0 = None"
    using find_cleanup [OF assms(1), of "ge_clock ev 0" 0] assms(2) by (cases "smap_find (gw_sessions ?s1) 0") auto
  moreover have "ah_opcode h \<noteq> OP_SESSION_AUTH"
    using gate by (simp add: opcode_defs)
  ultimately obtain se where "getSession (ge_clock ev 1) (ah_session_token h) ?s1 = (Some se, s2)" "se_authenticated se"
    using c se2(1) by auto
  then obtain se0 where "smap_find (gw_sessions ?s1) (ah_session_token h) = Some se0" "\<not> isExpired (ge_clock ev 1) se0"
    "se_authenticated se0" "se2 = se0\<lparr>se_last_activity := ge_clock ev 1\<rparr>"
    using getSession_SomeD se2(1) by fastforce
  moreover from this have "smap_find (gw_sessions s) (ah_session_token h) = Some se0" "\<not> isExpired (ge_clock ev 0) se0"
    using find_cleanup [OF assms(1)] by blast+
  ultimately show ?thesis
    using h gate core se2(2) confirmed_cong [OF core] by (auto simp: same_core_gw_def)
qed

definition demo_env_gw :: gw_env where
  "demo_env_gw = \<lparr>ge_clock = (\<lambda>_. 1000), ge_wall_us = (\<lambda>_. 5), ge_time = 100, ge_draws = [], ge_export = (False, []),
     ge_timing = (''0.000000'', ''0.000000''), ge_crypto = \<lparr>cr_sha256 = (\<lambda>_. []), cr_hmac_sha256 = (\<lambda>_ _. [])\<rparr>\<rparr>"

definition demo_gw :: Gateway where
  "demo_gw = (new_gateway 1)\<lparr>gw_initialized := True,
     gw_sessions := [(5, \<lparr>se_token = 5, se_created_at = 0, se_last_activity = 0, se_mode = MODE_EXECUTE, se_authenticated = True\<rparr>)],
     gw_lcmd := Some (empty_db\<lparr>db_inference_records := [(''i1'', [(''status'', ''success'')])]\<rparr>)\<rparr>"

definition client_request :: "u16 \<Rightarrow> u16 \<Rightarrow> u32 \<Rightarrow> byte list \<Rightarrow> byte list" where
  "client_request op t n payload = buildMessage 0 op t n payload False None"

lemma client_request_header:
  assumes "int (length payload) \<le> MAX_PAYLOAD_SIZE"
  shows "\<exists>h. deserializeHeader (Some (client_request op t n payload)) = Some h \<and> ah_opcode h = op \<and> ah_session_token h = t \<and>
    ah_sequence_id h = n \<and> message_payload h (client_request op t n payload) = payload"
proof -
  have "client_request op t n payload = buildMessage 0 op t n payload False (Some [])"
    by (simp add: client_request_def buildMessage_def)
  moreover have "\<not> isEncrypted h" if "deserializeHeader (Some (buildMessage 0 op t n payload False (Some []))) = Some h" for h
    using that assms header_round_trip
    by (auto simp: deserializeHeader_def buildMessage_def isEncrypted_def Let_def split: if_splits)
  ultimately show ?thesis
    using message_reads_back [OF assms, of 0 op t n False "[]" "[]"] by (auto simp: Let_def)
qed

theorem gateway_clear_guarded_witness:
  "\<exists>resp s' se. handleRequest demo_env_gw (Some (client_request OP_INFERENCE_CLEAR 5 1 [])) demo_gw = Some (resp, s') \<and>
     gw_lcmd s' \<noteq> gw_lcmd demo_gw \<and> smap_find (gw_sessions demo_gw) 5 = Some se \<and> se_authenticated se \<and>
     3 \<le> mode_num (se_mode se)"
proof -
  let ?data = "Some (client_request OP_INFERENCE_CLEAR 5 1 [])"
  obtain h where h: "deserializeHeader ?data = Some h" "ah_opcode h = OP_INFERENCE_CLEAR" "ah_session_token h = 5"
    "message_payload h (client_request OP_INFERENCE_CLEAR 5 1 []) = []"
    using client_request_header [of "[]" OP_INFERENCE_CLEAR 5 1] by (auto simp: MAX_PAYLOAD_SIZE_def)
  have parse: "parse_len_str [] 0 = (([], False), 0)"
    by (simp add: parse_len_str_def)
  have "\<exists>resp s'. handleRequest demo_env_gw ?data demo_gw = Some (resp, s') \<and>
      map_option db_inference_records (gw_lcmd s') = Some []"
    unfolding handleRequest_def h(1)
    by (simp add: h(2-4) [unfolded opcode_defs] Let_def route_def permission_gate_def dispatch_opcode_def second_factor_def parse
        getSession_def cleanupExpiredSessions_def isExpired_def SESSION_TIMEOUT_def required_mode_def opcode_defs
        demo_gw_def demo_env_gw_def new_gateway_def smap_find_Cons clear_inference_records_def mark_dirty_def)
  then obtain resp s' where r: "handleRequest demo_env_gw ?data demo_gw = Some (resp, s')"
    and "map_option db_inference_records (gw_lcmd s') = Some []"
    by blast
  then have ne: "gw_lcmd s' \<noteq> gw_lcmd demo_gw"
    by (auto simp: demo_gw_def)
  have "smap_wf (gw_sessions demo_gw)" "smap_find (gw_sessions demo_gw) 0 = None"
    by code_simp+
  then show ?thesis
    using gateway_clear_guarded [OF _ _ r ne] r ne h by auto
qed

subsection \<open>What a client can reach\<close>

text \<open>The calls that do not need the operator.\<close>

datatype client_call =
    C_Initialize
  | C_Shutdown
  | C_Create int "u32 list"
  | C_Close u16
  | C_Get int u16
  | C_Cleanup int
  | C_Request gw_env "byte list option"

fun client_step :: "client_call \<Rightarrow> Gateway \<Rightarrow> Gateway option" where
  "client_step C_Initialize s = Some (snd (gw_initialize s))"
| "client_step C_Shutdown s = Some (gw_shutdown s)"
| "client_step (C_Create now draws) s = map_option snd (createSession now draws s)"
| "client_step (C_Close t) s = Some (snd (closeSession t s))"
| "client_step (C_Get now t) s = Some (snd (getSession now t s))"
| "client_step (C_Cleanup now) s = Some (cleanupExpiredSessions now s)"
| "client_step (C_Request ev data) s = map_option snd (handleRequest ev data s)"

fun client_run :: "client_call list \<Rightarrow> Gateway \<Rightarrow> Gateway option" where
  "client_run [] s = Some s"
| "client_run (c # cs) s = (case client_step c s of None \<Rightarrow> None | Some s' \<Rightarrow> client_run cs s')"

text \<open>Without the operator a session is fresh or it is authenticated for reading.\<close>

definition session_ok :: "GatewaySession \<Rightarrow> bool" where
  "session_ok se \<longleftrightarrow> se_mode se = (if se_authenticated se then MODE_ACT else MODE_NONE)"

definition client_inv :: "Gateway \<Rightarrow> bool" where
  "client_inv s \<longleftrightarrow> smap_wf (gw_sessions s) \<and> (\<forall>(t, se) \<in> set (gw_sessions s). t \<noteq> 0 \<and> session_ok se)"

lemma client_inv_put:
  assumes "client_inv s" and "t \<noteq> 0" and "session_ok se"
  shows "client_inv (s\<lparr>gw_sessions := smap_put t se (gw_sessions s)\<rparr>)"
  using assms set_smap_put_subset [of t se "gw_sessions s"] by (fastforce simp: client_inv_def)

lemma client_inv_find: "client_inv s \<Longrightarrow> smap_find (gw_sessions s) t = Some se \<Longrightarrow> t \<noteq> 0 \<and> session_ok se"
  using smap_find_in_set [of "gw_sessions s" t se] by (auto simp: client_inv_def)

lemma client_inv_sessions: "gw_sessions s' = gw_sessions s \<Longrightarrow> client_inv s' = client_inv s"
  by (simp add: client_inv_def)

lemma smap_wf_filter: "smap_wf m \<Longrightarrow> smap_wf (filter P m)"
  by (simp add: smap_wf_def sorted_wrt_map sorted_wrt_filter)

lemma client_inv_cleanup: "client_inv s \<Longrightarrow> client_inv (cleanupExpiredSessions now s)"
  by (auto simp: client_inv_def cleanupExpiredSessions_def smap_wf_filter)

lemma client_inv_close: "client_inv s \<Longrightarrow> client_inv (snd (closeSession t s))"
  by (auto simp: client_inv_def closeSession_def smap_erase_def smap_wf_filter)

lemma client_inv_get: "client_inv s \<Longrightarrow> client_inv (snd (getSession now t s))"
  using client_inv_find [of s t]
  by (auto simp: getSession_def Let_def session_ok_def split: option.splits intro!: client_inv_put)

lemma pick_token_fresh: "pick_token m t c ds = Some (t', c') \<Longrightarrow> t' \<noteq> 0 \<and> \<not> smap_count m t'"
proof (induction m t c ds rule: pick_token.induct)
  case (1 m t c ds)
  show ?case
  proof (cases "t = 0 \<or> smap_count m t")
    case True
    then obtain t1 c1 ds1 where g: "generateSessionToken c ds = Some (t1, c1, ds1)"
      using 1(2) by (auto simp: pick_token.simps [of m t c ds] split: option.splits)
    then have "pick_token m t1 c1 ds1 = Some (t', c')"
      using 1(2) True by (simp add: pick_token.simps [of m t c ds])
    then show ?thesis
      using 1(1) [OF True g] by blast
  next
    case False
    then show ?thesis
      using 1(2) by (auto simp: pick_token.simps [of m t c ds])
  qed
qed

lemma client_inv_create: "client_inv s \<Longrightarrow> createSession now ds s = Some (t, s') \<Longrightarrow> client_inv s'"
  using set_smap_put_subset pick_token_fresh
  by (fastforce simp: createSession_def client_inv_def session_ok_def split: option.splits)

lemma client_inv_authenticate: "client_inv s \<Longrightarrow> client_inv (snd (authenticate ev opcode n t s))"
proof -
  assume inv: "client_inv s"
  obtain se s1 where g: "getSession (ge_clock ev 2) t s = (se, s1)"
    by (cases "getSession (ge_clock ev 2) t s")
  have "client_inv s1"
    using client_inv_get [OF inv, of "ge_clock ev 2" t] by (simp add: g)
  moreover have "t \<noteq> 0" if "se \<noteq> None"
    using that getSession_SomeD g client_inv_find [OF inv] by fastforce
  ultimately show ?thesis
    by (auto simp: authenticate_def g session_ok_def split: option.splits intro!: client_inv_put)
qed

text \<open>A request for an operation above reading is refused.\<close>

lemma gate_refuses:
  assumes "client_inv s" and "1 < mode_num (required_mode opcode)"
  shows "\<exists>msg. permission_gate ev opcode n t payload s = (encodeError ev opcode n t OP_ERR_PERMISSION msg,
    snd (getSession (ge_clock ev 2) t s))"
proof -
  obtain se s1 where g: "getSession (ge_clock ev 2) t s = (se, s1)"
    by (cases "getSession (ge_clock ev 2) t s")
  have "mode_num (se_mode x) \<le> 1" if "se = Some x" for x
  proof -
    obtain x0 where "smap_find (gw_sessions s) t = Some x0" "x = x0\<lparr>se_last_activity := ge_clock ev 2\<rparr>"
      using getSession_SomeD g \<open>se = Some x\<close> by blast
    then show ?thesis
      using client_inv_find [OF assms(1)] by (fastforce simp: session_ok_def)
  qed
  then show ?thesis
    using assms(2) by (auto simp: permission_gate_def g Let_def split: option.splits)
qed

lemma dispatch_read_only:
  assumes "\<not> 1 < mode_num (required_mode opcode)"
  shows "snd (dispatch_opcode ev opcode n t payload s) = s"
proof -
  have "opcode \<noteq> OP_INFERENCE_EXPORT" "opcode \<noteq> OP_INFERENCE_CLEAR"
    using assms by (auto simp: required_mode_def opcode_defs)
  then show ?thesis
    by (auto simp: dispatch_opcode_def split: option.splits)
qed

lemma gate_client:
  assumes "client_inv s"
  shows "client_inv (snd (permission_gate ev opcode n t payload s)) \<and>
    same_core_gw s (snd (permission_gate ev opcode n t payload s))"
proof (cases "1 < mode_num (required_mode opcode)")
  case True
  then show ?thesis
    using gate_refuses [OF assms True, of ev n t payload] client_inv_get [OF assms] getSession_core by auto
next
  case False
  have "snd (permission_gate ev opcode n t payload s) = snd (getSession (ge_clock ev 2) t s)"
    using dispatch_read_only [OF False] by (auto simp: permission_gate_def Let_def split: prod.splits)
  then show ?thesis
    using client_inv_get [OF assms] getSession_core by simp
qed

lemma route_client:
  assumes "client_inv s"
  shows "client_inv (snd (route ev opcode n t payload s)) \<and> same_core_gw s (snd (route ev opcode n t payload s))"
proof -
  have "snd (route ev opcode n t payload s) \<in> {snd (authenticate ev opcode n t s), snd (closeSession t s),
      snd (permission_gate ev opcode n t payload s)}"
    by (simp add: route_def split: prod.split)
  then show ?thesis
    using assms client_inv_authenticate authenticate_core client_inv_close closeSession_core gate_client by auto
qed

lemma handle_client:
  assumes "client_inv s" and "handleRequest ev data s = Some (resp, s')"
  shows "client_inv s' \<and> same_core_gw s s'"
proof -
  let ?s1 = "cleanupExpiredSessions (ge_clock ev 0) s"
  have s1: "client_inv ?s1" "same_core_gw s ?s1"
    using client_inv_cleanup [OF assms(1)] cleanup_core by simp_all
  have s2: "client_inv (snd (getSession now t ?s1))" "same_core_gw s (snd (getSession now t ?s1))" for now t
    using client_inv_get [OF s1(1)] same_core_gw_trans [OF s1(2) getSession_core] by simp_all
  have r: "client_inv (snd (route ev op n t p u)) \<and> same_core_gw s (snd (route ev op n t p u))"
    if "client_inv u" "same_core_gw s u" for op n t p u
    using route_client [OF that(1)] same_core_gw_trans [OF that(2)] by blast
  from handle_cases [OF assms(2)] show ?thesis
  proof (elim disjE exE conjE)
    assume "s' = s"
    then show ?thesis
      using assms(1) by (simp add: same_core_gw_def)
  next
    fix t
    assume "createSession (ge_clock ev 1) (ge_draws ev) ?s1 = Some (t, s')"
    then show ?thesis
      using client_inv_create s1 createSession_core same_core_gw_trans by blast
  next
    fix t
    assume "s' = snd (getSession (ge_clock ev 1) t ?s1)"
    then show ?thesis
      using s2 by simp
  next
    fix h u se
    assume "route ev (ah_opcode h) (ah_sequence_id h) (ah_session_token h) (message_payload h (the data)) u = (resp, s')"
      and "getSession (ge_clock ev 1) (ah_session_token h) ?s1 = (Some se, u)"
    then show ?thesis
      using r [of u] s2 by (metis snd_conv)
  qed (metis r s1 snd_conv)+
qed

lemma client_step_inv:
  assumes "client_inv s" and "client_step c s = Some s'"
  shows "client_inv s' \<and> gw_lcmd s' = gw_lcmd s \<and> gw_security s' = gw_security s"
proof (cases c)
  case (C_Request ev data)
  then show ?thesis
    using assms handle_client [OF assms(1)] by (auto simp: same_core_gw_def)
next
  case (C_Create now draws)
  then show ?thesis
    using assms client_inv_create [OF assms(1)] createSession_core by (fastforce simp: same_core_gw_def)
next
  case (C_Get now t)
  then show ?thesis
    using assms client_inv_get [OF assms(1)] getSession_core [of s now t] by (auto simp: same_core_gw_def)
next
  case (C_Close t)
  then show ?thesis
    using assms client_inv_close [OF assms(1), of t] closeSession_core [of s t] by (auto simp: same_core_gw_def)
next
  case (C_Cleanup now)
  then show ?thesis
    using assms client_inv_cleanup [OF assms(1), of now] cleanup_core [of s now] by (auto simp: same_core_gw_def)
qed (use assms in \<open>auto simp: gw_initialize_def gw_shutdown_def client_inv_def split: if_splits\<close>)

lemma client_run_inv:
  "client_inv s \<Longrightarrow> client_run cs s = Some s' \<Longrightarrow>
   client_inv s' \<and> gw_lcmd s' = gw_lcmd s \<and> gw_security s' = gw_security s"
proof (induction cs arbitrary: s)
  case (Cons c cs)
  then show ?case
    using client_step_inv [of s c] by (fastforce split: option.splits)
qed simp

lemma privileged_refused:
  assumes "client_inv s" and "deserializeHeader data = Some h" and "1 < mode_num (required_mode (ah_opcode h))"
    and "handleRequest ev data s = Some (resp, s')"
  shows "\<exists>op n t err msg. resp = encodeError ev op n t err msg"
proof -
  let ?s1 = "cleanupExpiredSessions (ge_clock ev 0) s"
  have ops: "ah_opcode h \<notin> {OP_HANDSHAKE_INIT, OP_HANDSHAKE_COMP, OP_SESSION_AUTH, OP_SESSION_CLOSE}"
    using assms(3) by (auto simp: required_mode_def opcode_defs split: if_splits)
  have refused: "\<exists>msg. fst (route ev (ah_opcode h) n t p u) = encodeError ev (ah_opcode h) n t OP_ERR_PERMISSION msg"
    if "client_inv u" for n t p u
    using gate_refuses [OF that assms(3), of ev n t p] ops by (auto simp: route_def)
  have s1: "client_inv ?s1" "client_inv (snd (getSession now t ?s1))" for now t
    using client_inv_cleanup client_inv_get assms(1) by blast+
  obtain se s2 where g: "getSession (ge_clock ev 1) (ah_session_token h) ?s1 = (se, s2)"
    by (cases "getSession (ge_clock ev 1) (ah_session_token h) ?s1")
  with s1(2) have s2: "client_inv s2"
    by (metis snd_conv)
  show ?thesis
    using assms(2,4) ops refused [OF s1(1)] refused [OF s2] g
    by (auto simp: handleRequest_def Let_def split: if_splits option.splits) (metis fst_conv)+
qed

text \<open>C15. Whatever sequence of requests and session calls a client makes on a gateway without sessions, no session
  gets a mode above ACT, only authenticated ones have that mode, the token zero is never assigned, the
  maintenance database and the user security stay as they were, and every request for an operation that needs
  more than reading is answered with an error: more rights come only from the operator.\<close>

theorem clients_never_escalate:
  assumes "gw_sessions s = []" and "client_run cs s = Some s'"
  shows "(\<forall>t se. smap_find (gw_sessions s') t = Some se \<longrightarrow>
            t \<noteq> 0 \<and> se_mode se = (if se_authenticated se then MODE_ACT else MODE_NONE)) \<and>
    gw_lcmd s' = gw_lcmd s \<and> gw_security s' = gw_security s \<and>
    (\<forall>ev data h resp s''. deserializeHeader data = Some h \<longrightarrow> 1 < mode_num (required_mode (ah_opcode h)) \<longrightarrow>
       handleRequest ev data s' = Some (resp, s'') \<longrightarrow> (\<exists>op n t err msg. resp = encodeError ev op n t err msg))"
proof -
  have "client_inv s"
    using assms(1) by (simp add: client_inv_def)
  then have inv: "client_inv s'" "gw_lcmd s' = gw_lcmd s" "gw_security s' = gw_security s"
    using client_run_inv assms(2) by blast+
  then show ?thesis
    using client_inv_find [OF inv(1)] privileged_refused [OF inv(1)] by (auto simp: session_ok_def)
qed

definition demo_client :: "client_call list" where
  "demo_client = [C_Initialize, C_Request demo_env_gw (Some (client_request OP_HANDSHAKE_INIT 0 1 [])),
     C_Request demo_env_gw (Some (client_request OP_SESSION_AUTH 1 2 []))]"

theorem clients_never_escalate_witness:
  "\<exists>s' se. client_run demo_client (new_gateway 1) = Some s' \<and> smap_find (gw_sessions s') 1 = Some se \<and> se_mode se = MODE_ACT \<and>
     (\<forall>ev resp s''. handleRequest ev (Some (client_request OP_RUN_GRAPH 1 3 [])) s' = Some (resp, s'') \<longrightarrow>
        (\<exists>op n t err msg. resp = encodeError ev op n t err msg))"
proof -
  have "map_option (\<lambda>s'. map_option se_authenticated (smap_find (gw_sessions s') 1)) (client_run demo_client (new_gateway 1)) =
      Some (Some True)"
    by code_simp
  then obtain s' se where run: "client_run demo_client (new_gateway 1) = Some s'"
    and se: "smap_find (gw_sessions s') 1 = Some se" "se_authenticated se"
    by auto
  obtain h where h: "deserializeHeader (Some (client_request OP_RUN_GRAPH 1 3 [])) = Some h"
    and "1 < mode_num (required_mode (ah_opcode h))"
  proof -
    have "map_option (\<lambda>h. mode_num (required_mode (ah_opcode h))) (deserializeHeader (Some (client_request OP_RUN_GRAPH 1 3 []))) = Some 3"
      by code_simp
    then show thesis
      using that by fastforce
  qed
  have "gw_sessions (new_gateway 1) = []"
    by (simp add: new_gateway_def)
  from clients_never_escalate [OF this run] show ?thesis
    using run se h \<open>1 < mode_num (required_mode (ah_opcode h))\<close> by fastforce
qed

subsection \<open>Answers\<close>

lemma build_answer:
  assumes "buildMessage now opcode t n payload False None \<noteq> []"
  shows "\<exists>h. deserializeHeader (Some (buildMessage now opcode t n payload False None)) = Some h \<and>
    ah_sequence_id h = n \<and> ah_opcode h = opcode"
proof -
  have "int (length payload) \<le> MAX_PAYLOAD_SIZE"
    using assms by (auto simp: buildMessage_def split: if_splits)
  moreover have "buildMessage now opcode t n payload False None = buildMessage now opcode t n payload False (Some [])"
    by (simp add: buildMessage_def)
  ultimately show ?thesis
    using message_reads_back [of payload now opcode t n False "[]" "[]"] by (auto simp: Let_def)
qed

definition answers :: "u32 \<Rightarrow> byte list \<Rightarrow> bool" where
  "answers n resp \<longleftrightarrow> resp = [] \<or> (\<exists>h. deserializeHeader (Some resp) = Some h \<and> ah_sequence_id h = n)"

lemma answers_encode: "answers n (encodeResponse ev op t n p)" "answers n (encodeError ev op n t err msg)"
  unfolding answers_def encodeResponse_def encodeError_def using build_answer by blast+

lemma answers_route: "answers n (fst (route ev op n t p s))"
  by (auto simp: route_def authenticate_def permission_gate_def dispatch_opcode_def Let_def answers_encode
      split: prod.splits option.splits)

text \<open>Every answer is empty, because its payload would exceed 64 MiB, or a message that the protocol accepts
  and that carries the sequence number of the request.\<close>

theorem gateway_answers:
  assumes "gw_initialized s" and "deserializeHeader data = Some h" and "handleRequest ev data s = Some (resp, s')"
  shows "answers (ah_sequence_id h) resp"
  using assms answers_encode answers_route [of "ah_sequence_id h" ev "ah_opcode h" "ah_session_token h"]
  by (auto simp: handleRequest_def Let_def split: option.splits if_splits prod.splits) (metis fst_conv)+

subsection \<open>Weaknesses\<close>

text \<open>Nothing is proved to authenticate: a SESSION_AUTH message with any payload opens every live session, and it takes a
  session that the operator had raised back to reading.\<close>

lemma auth_without_proof:
  assumes "gw_initialized s" and "smap_wf (gw_sessions s)" and "smap_find (gw_sessions s) t = Some se"
    and "\<not> isExpired (ge_clock ev 0) se" and "\<not> isExpired (ge_clock ev 2) se" and "int (length payload) \<le> MAX_PAYLOAD_SIZE"
  shows "\<exists>resp s'. handleRequest ev (Some (client_request OP_SESSION_AUTH t n payload)) s = Some (resp, s') \<and>
    smap_find (gw_sessions s') t =
      Some (se\<lparr>se_last_activity := ge_clock ev 2, se_authenticated := True, se_mode := MODE_ACT\<rparr>)"
proof -
  obtain h where h: "deserializeHeader (Some (client_request OP_SESSION_AUTH t n payload)) = Some h" "ah_opcode h = OP_SESSION_AUTH"
    "ah_session_token h = t"
    using client_request_header [OF assms(6)] by blast
  have "(t, se) \<in> set (gw_sessions (cleanupExpiredSessions (ge_clock ev 0) s))"
    using assms(2-4) by (simp add: cleanupExpiredSessions_def smap_find_entry)
  then have "smap_find (gw_sessions (cleanupExpiredSessions (ge_clock ev 0) s)) t = Some se"
    using assms(2) by (simp add: cleanupExpiredSessions_def smap_find_entry smap_wf_filter)
  then show ?thesis
    using assms(1,5) h by (simp add: handleRequest_def Let_def route_def authenticate_def getSession_def opcode_defs)
qed

text \<open>The documented end of the handshake does not work: the check in front of the router refuses HANDSHAKE_COMP for every
  session that is not authenticated yet.\<close>

lemma handshake_completion_refused:
  assumes "handleRequest ev (Some (client_request OP_HANDSHAKE_COMP t n payload)) s = Some (resp, s')"
    and "int (length payload) \<le> MAX_PAYLOAD_SIZE" and "t \<noteq> 0" and "smap_wf (gw_sessions s)"
    and "\<And>se. smap_find (gw_sessions s) t = Some se \<Longrightarrow> \<not> se_authenticated se"
  shows "\<exists>op n' t' err msg. resp = encodeError ev op n' t' err msg"
proof -
  obtain h where h: "deserializeHeader (Some (client_request OP_HANDSHAKE_COMP t n payload)) = Some h" "ah_opcode h = OP_HANDSHAKE_COMP"
    "ah_session_token h = t"
    using client_request_header [OF assms(2)] by blast
  obtain se s2 where g: "getSession (ge_clock ev 1) t (cleanupExpiredSessions (ge_clock ev 0) s) = (se, s2)"
    by (cases "getSession (ge_clock ev 1) t (cleanupExpiredSessions (ge_clock ev 0) s)")
  have "\<not> se_authenticated x" if "se = Some x" for x
    using getSession_SomeD [OF g [unfolded that]] find_cleanup [OF assms(4)] assms(5) by fastforce
  then show ?thesis
    using assms(1,3) h g by (auto simp: handleRequest_def Let_def opcode_defs split: if_splits option.splits) blast+
qed

text \<open>Sessions are created for everybody and live for five minutes.  Once all 65535 tokens are in use the search for a
  free one does not end, whatever the random device delivers, and it holds the lock.\<close>

lemma full_table_hangs:
  assumes "\<And>t. t \<noteq> 0 \<Longrightarrow> smap_count m t"
  shows "pick_token m t c ds = None"
  using assms pick_token_fresh [of m t c ds] by (cases "pick_token m t c ds") auto

end
