(* ===== verification/Clip_Tokenizer.thy ===== *)
theory Clip_Tokenizer
  imports Std_Map Std_String
begin

text \<open>
  The tokenizer of \<^verbatim>\<open>code/src/clip_tokenizer.cpp\<close>: the built-in vocabulary, loading from files, normalisation,
  greedy longest-match splitting, encoding to a fixed length and decoding.

  The two hash tables are ordered maps.  The contents of a file are a list of lines, absent when the file cannot
  be opened.  \<^verbatim>\<open>decode\<close> builds its reverse table once per thread, in a \<^verbatim>\<open>static thread_local\<close> variable that all
  tokenizers share: the table is passed in and out, and the order in which the hash table is traversed is the
  argument \<open>ord\<close>.  Characters are bytes in the C locale.
\<close>

subsection \<open>Tables\<close>

definition BUILTIN_VOCAB :: "(string \<times> int) list" where
  "BUILTIN_VOCAB = [
    (''the'', 0), (''a'', 1), (''an'', 2), (''of'', 3), (''in'', 4), (''on'', 5), (''at'', 6), (''to'', 7),
    (''for'', 8), (''with'', 9), (''by'', 10), (''from'', 11), (''as'', 12), (''this'', 13),
    (''that'', 14), (''these'', 15), (''those'', 16), (''i'', 17), (''you'', 18), (''he'', 19),
    (''she'', 20), (''it'', 21), (''we'', 22), (''they'', 23), (''my'', 24), (''your'', 25), (''his'', 26),
    (''her'', 27), (''its'', 28), (''our'', 29), (''their'', 30), (''me'', 31), (''him'', 32),
    (''them'', 33), (''us'', 34), (''mine'', 35), (''is'', 36), (''are'', 37), (''was'', 38),
    (''were'', 39), (''be'', 40), (''been'', 41), (''being'', 42), (''have'', 43), (''has'', 44),
    (''had'', 45), (''do'', 46), (''does'', 47), (''did'', 48), (''will'', 49), (''would'', 50),
    (''could'', 51), (''should'', 52), (''may'', 53), (''might'', 54), (''can'', 55), (''shall'', 56),
    (''go'', 57), (''come'', 58), (''get'', 59), (''make'', 60), (''see'', 61), (''know'', 62),
    (''take'', 63), (''think'', 64), (''say'', 65), (''help'', 66), (''show'', 67), (''try'', 68),
    (''ask'', 69), (''need'', 70), (''feel'', 71), (''become'', 72), (''leave'', 73), (''put'', 74),
    (''mean'', 75), (''keep'', 76), (''let'', 77), (''begin'', 78), (''seem'', 79), (''talk'', 80),
    (''turn'', 81), (''start'', 82), (''play'', 83), (''run'', 84), (''move'', 85), (''live'', 86),
    (''believe'', 87), (''bring'', 88), (''happen'', 89), (''stand'', 90), (''lose'', 91), (''pay'', 92),
    (''meet'', 93), (''include'', 94), (''continue'', 95), (''set'', 96), (''learn'', 97),
    (''change'', 98), (''lead'', 99), (''understand'', 100), (''watch'', 101), (''follow'', 102),
    (''stop'', 103), (''create'', 104), (''speak'', 105), (''read'', 106), (''spend'', 107),
    (''grow'', 108), (''open'', 109), (''walk'', 110), (''win'', 111), (''offer'', 112),
    (''remember'', 113), (''love'', 114), (''consider'', 115), (''appear'', 116), (''buy'', 117),
    (''wait'', 118), (''serve'', 119), (''send'', 120), (''expect'', 121), (''build'', 122),
    (''stay'', 123), (''fall'', 124), (''cut'', 125), (''reach'', 126), (''kill'', 127), (''remain'', 128),
    (''use'', 129), (''want'', 130), (''looking'', 131), (''find'', 132), (''give'', 133), (''work'', 134),
    (''tell'', 135), (''good'', 136), (''new'', 137), (''first'', 138), (''last'', 139), (''long'', 140),
    (''great'', 141), (''little'', 142), (''own'', 143), (''other'', 144), (''old'', 145),
    (''right'', 146), (''big'', 147), (''high'', 148), (''different'', 149), (''small'', 150),
    (''large'', 151), (''next'', 152), (''early'', 153), (''young'', 154), (''important'', 155),
    (''few'', 156), (''public'', 157), (''bad'', 158), (''same'', 159), (''able'', 160), (''all'', 161),
    (''every'', 162), (''each'', 163), (''certain'', 164), (''whole'', 165), (''beautiful'', 166),
    (''amazing'', 167), (''wonderful'', 168), (''fantastic'', 169), (''epic'', 170), (''realistic'', 171),
    (''digital'', 172), (''abstract'', 173), (''surreal'', 174), (''futuristic'', 175),
    (''medieval'', 176), (''modern'', 177), (''detailed'', 178), (''sharp'', 179), (''colorful'', 180),
    (''bright'', 181), (''dark'', 182), (''vibrant'', 183), (''stunning'', 184), (''gorgeous'', 185),
    (''people'', 186), (''year'', 187), (''way'', 188), (''day'', 189), (''thing'', 190), (''man'', 191),
    (''world'', 192), (''life'', 193), (''hand'', 194), (''part'', 195), (''child'', 196), (''eye'', 197),
    (''woman'', 198), (''place'', 199), (''work'', 200), (''week'', 201), (''case'', 202),
    (''point'', 203), (''government'', 204), (''company'', 205), (''art'', 206), (''painting'', 207),
    (''drawing'', 208), (''photo'', 209), (''image'', 210), (''picture'', 211), (''scene'', 212),
    (''landscape'', 213), (''portrait'', 214), (''style'', 215), (''quality'', 216), (''focus'', 217),
    (''blur'', 218), (''light'', 219), (''color'', 220), (''red'', 221), (''blue'', 222), (''green'', 223),
    (''yellow'', 224), (''black'', 225), (''white'', 226), (''cat'', 227), (''dog'', 228), (''bird'', 229),
    (''horse'', 230), (''fish'', 231), (''tree'', 232), (''flower'', 233), (''water'', 234),
    (''fire'', 235), (''space'', 236), (''star'', 237), (''planet'', 238), (''universe'', 239),
    (''galaxy'', 240), (''sky'', 241), (''night'', 242), (''sun'', 243), (''moon'', 244),
    (''mountain'', 245), (''ocean'', 246), (''forest'', 247), (''city'', 248), (''castle'', 249),
    (''dragon'', 250), (''wizard'', 251), (''knight'', 252), (''warrior'', 253), (''queen'', 254),
    (''king'', 255)]"

definition SUBWORD_TOKENS :: "(string \<times> int) list" where
  "SUBWORD_TOKENS = [
    (''re'', 256), (''un'', 257), (''in'', 258), (''dis'', 259), (''over'', 260), (''mis'', 261),
    (''sub'', 262), (''pre'', 263), (''out'', 264), (''up'', 265), (''down'', 266), (''under'', 267),
    (''anti'', 268), (''non'', 269), (''pro'', 270), (''super'', 271), (''inter'', 272), (''trans'', 273),
    (''extra'', 274), (''hyper'', 275), (''ultra'', 276), (''mega'', 277), (''mini'', 278),
    (''micro'', 279), (''auto'', 280), (''self'', 281), (''co'', 282), (''de'', 283), (''en'', 284),
    (''em'', 285), (''con'', 286), (''com'', 287), (''col'', 288), (''cor'', 289), (''per'', 290),
    (''ful'', 291), (''less'', 292), (''ness'', 293), (''ment'', 294), (''able'', 295), (''ible'', 296),
    (''ing'', 297), (''ed'', 298), (''er'', 299), (''est'', 300), (''ly'', 301), (''tion'', 302),
    (''sion'', 303), (''ity'', 304), (''ty'', 305), (''ary'', 306), (''ery'', 307), (''ory'', 308),
    (''ous'', 309), (''ive'', 310), (''ative'', 311), (''ize'', 312), (''ise'', 313), (''ify'', 314),
    (''en'', 315), (''an'', 316), (''ent'', 317), (''ant'', 318), (''ance'', 319), (''ence'', 320),
    (''ancy'', 321), (''ency'', 322), (''dom'', 323), (''ism'', 324), (''ist'', 325), (''ship'', 326),
    (''hood'', 327), (''ward'', 328), (''wise'', 329), (''ward'', 330), (''th'', 331), (''al'', 332),
    (''ial'', 333), (''ical'', 334), (''tic'', 335), (''ic'', 336), (''ous'', 337), (''ious'', 338),
    (''eous'', 339), (''uous'', 340), (''a'', 341), (''b'', 342), (''c'', 343), (''d'', 344), (''e'', 345),
    (''f'', 346), (''g'', 347), (''h'', 348), (''i'', 349), (''j'', 350), (''k'', 351), (''l'', 352),
    (''m'', 353), (''n'', 354), (''o'', 355), (''p'', 356), (''q'', 357), (''r'', 358), (''s'', 359),
    (''t'', 360), (''u'', 361), (''v'', 362), (''w'', 363), (''x'', 364), (''y'', 365), (''z'', 366)]"

definition BOS_TOKEN :: int where "BOS_TOKEN = 49406"
definition EOS_TOKEN :: int where "EOS_TOKEN = 49407"
definition PAD_TOKEN :: int where "PAD_TOKEN = 49407"
definition UNK_TOKEN :: int where "UNK_TOKEN = 49407"

record CLIPTokenizer =
  tk_vocab :: "(string, int) smap"
  tk_bpe_ranks :: "(string, int) smap"

subsection \<open>Loading\<close>

definition emplace :: "'k::linorder \<times> 'v \<Rightarrow> ('k, 'v) smap \<Rightarrow> ('k, 'v) smap" where
  "emplace = (\<lambda>(k, v) m. if smap_count m k then m else smap_put k v m)"

definition put_specials :: "(string, int) smap \<Rightarrow> (string, int) smap" where
  "put_specials m = smap_put ''<|endoftext|>'' EOS_TOKEN (smap_put ''<|startoftext|>'' BOS_TOKEN m)"

definition load_builtin_vocab :: CLIPTokenizer where
  "load_builtin_vocab = \<lparr>tk_vocab = put_specials (fold emplace SUBWORD_TOKENS (fold emplace BUILTIN_VOCAB [])),
     tk_bpe_ranks = fold (\<lambda>(token, i) m. smap_put token i m) SUBWORD_TOKENS []\<rparr>"

text \<open>The extraction \<^verbatim>\<open>stream >> word\<close>: the word and what is left of the stream.\<close>

definition next_word :: "string \<Rightarrow> string \<times> string" where
  "next_word s = (let t = dropWhile is_space s
     in (takeWhile (\<lambda>c. \<not> is_space c) t, dropWhile (\<lambda>c. \<not> is_space c) t))"

definition skipped_line :: "string \<Rightarrow> bool" where
  "skipped_line l \<longleftrightarrow> l = [] \<or> hd l = CHR ''#''"

definition vocab_line :: "string \<Rightarrow> (string, int) smap \<times> int \<Rightarrow> (string, int) smap \<times> int" where
  "vocab_line l = (\<lambda>(m, token_id).
     if skipped_line l then (m, token_id)
     else case next_word l of (w, rest) \<Rightarrow>
            (case stoll rest of
               Some i \<Rightarrow> if w = [] then (m, token_id)
                         else (smap_put w i m, if token_id \<le> i then i + 1 else token_id)
             | None \<Rightarrow> (m, token_id)))"

definition merge_line :: "string \<Rightarrow> CLIPTokenizer \<times> int \<Rightarrow> CLIPTokenizer \<times> int" where
  "merge_line l = (\<lambda>(tk, n).
     if skipped_line l then (tk, n)
     else case next_word l of (left, rest) \<Rightarrow>
          case next_word rest of (right, rest') \<Rightarrow>
            if left = [] \<or> right = [] then (tk, n)
            else (tk\<lparr>tk_bpe_ranks := smap_put (left @ right) n (tk_bpe_ranks tk),
                     tk_vocab := smap_put right (n + 2) (smap_put left (n + 1) (smap_put (left @ right) n (tk_vocab tk)))\<rparr>,
                  n + 3))"

definition load_from_files ::
  "string \<Rightarrow> string list option \<Rightarrow> string \<Rightarrow> string list option \<Rightarrow> (string, CLIPTokenizer) expected" where
  "load_from_files merges_name merges vocab_name vocab_lines =
     (let (m, token_id) = (if vocab_name = [] then ([], 0)
                           else case vocab_lines of None \<Rightarrow> ([], 0) | Some ls \<Rightarrow> fold vocab_line ls ([], 0))
      in case merges of
           None \<Rightarrow> Inl (''Cannot open BPE merges file: '' @ merges_name)
         | Some ls \<Rightarrow>
             (let tk = fst (fold merge_line ls (\<lparr>tk_vocab = m, tk_bpe_ranks = []\<rparr>, token_id))
              in if tk_vocab tk = [] then Inl ''No valid entries found in merges file''
                 else Inr (tk\<lparr>tk_vocab := put_specials (tk_vocab tk)\<rparr>)))"

definition new_tokenizer :: CLIPTokenizer where
  "new_tokenizer = load_builtin_vocab"

definition new_tokenizer_files :: "string \<Rightarrow> string list option \<Rightarrow> string \<Rightarrow> string list option \<Rightarrow> CLIPTokenizer" where
  "new_tokenizer_files merges_name merges vocab_name vocab_lines =
     (case load_from_files merges_name merges vocab_name vocab_lines of Inl _ \<Rightarrow> load_builtin_vocab | Inr tk \<Rightarrow> tk)"

definition is_loaded :: "CLIPTokenizer \<Rightarrow> bool" where
  "is_loaded tk \<longleftrightarrow> tk_vocab tk \<noteq> []"

definition vocab_size :: "CLIPTokenizer \<Rightarrow> nat" where
  "vocab_size tk = length (tk_vocab tk)"

subsection \<open>Normalisation\<close>

definition to_lower :: "char \<Rightarrow> char" where
  "to_lower c = (if is_upper c then char_of (code c + 32) else c)"

definition is_punct :: "char \<Rightarrow> bool" where
  "is_punct c \<longleftrightarrow> 33 \<le> code c \<and> code c \<le> 126 \<and> \<not> is_alnum c"

abbreviation blank :: char where
  "blank \<equiv> CHR '' ''"

definition space_char :: "char \<Rightarrow> string \<Rightarrow> string" where
  "space_char c r = (let lc = to_lower c
     in if is_punct lc then (if r \<noteq> [] \<and> last r \<noteq> blank then r @ [blank] else r) @ [lc, blank] else r @ [lc])"

fun collapse :: "bool \<Rightarrow> string \<Rightarrow> string" where
  "collapse in_space [] = []"
| "collapse in_space (c # s) =
     (if c = blank then (if in_space then collapse True s else c # collapse True s) else c # collapse False s)"

definition trim_blanks :: "string \<Rightarrow> string" where
  "trim_blanks s = rev (dropWhile (\<lambda>c. c = blank) (rev (dropWhile (\<lambda>c. c = blank) s)))"

definition normalize_text :: "string \<Rightarrow> string" where
  "normalize_text text = trim_blanks (collapse False (fold space_char text []))"

definition split_words :: "string \<Rightarrow> string list" where
  "split_words text = ws_tokens text"

subsection \<open>Splitting a word\<close>

text \<open>The inner loop: the longest prefix of at least one character that is in the vocabulary, or zero.\<close>

fun best_len :: "(string, int) smap \<Rightarrow> string \<Rightarrow> nat \<Rightarrow> nat" where
  "best_len vocab s 0 = 0"
| "best_len vocab s (Suc n) = (if smap_count vocab (take (Suc n) s) then Suc n else best_len vocab s n)"

function bpe_loop :: "(string, int) smap \<Rightarrow> string \<Rightarrow> string list" where
  "bpe_loop vocab s =
     (if s = [] then []
      else let n = best_len vocab s (length s)
           in if 0 < n then take n s # bpe_loop vocab (drop n s) else take 1 s # bpe_loop vocab (drop 1 s))"
  by pat_completeness auto
termination
  by (relation "measure (\<lambda>(_, s). length s)") auto

declare bpe_loop.simps [simp del]

definition bpe_encode_word :: "CLIPTokenizer \<Rightarrow> string \<Rightarrow> string list" where
  "bpe_encode_word tk w =
     (if w = [] then [] else if smap_count (tk_vocab tk) w then [w] else bpe_loop (tk_vocab tk) w)"

subsection \<open>Encoding\<close>

definition char_token :: "CLIPTokenizer \<Rightarrow> char \<Rightarrow> int" where
  "char_token tk c = smap_get UNK_TOKEN (tk_vocab tk) [c]"

definition subword_tokens :: "CLIPTokenizer \<Rightarrow> string \<Rightarrow> int list" where
  "subword_tokens tk sw = (case smap_find (tk_vocab tk) sw of
      Some i \<Rightarrow> [i] | None \<Rightarrow> map (char_token tk) sw)"

definition word_tokens :: "CLIPTokenizer \<Rightarrow> string \<Rightarrow> int list" where
  "word_tokens tk w =
     (if w = [] then []
      else case smap_find (tk_vocab tk) w of
             Some i \<Rightarrow> [i]
           | None \<Rightarrow> concat (map (subword_tokens tk) (bpe_encode_word tk w)))"

definition encode_raw :: "CLIPTokenizer \<Rightarrow> string \<Rightarrow> int list" where
  "encode_raw tk text =
     (let normalized = normalize_text text
      in if normalized = [] then [] else concat (map (word_tokens tk) (split_words normalized)))"

definition encode_clip :: "CLIPTokenizer \<Rightarrow> string \<Rightarrow> nat \<Rightarrow> int list" where
  "encode_clip tk text max_length =
     (if max_length = 0 then []
      else let content = encode_raw tk text;
               max_content = (if 1 < max_length then max_length - 2 else 0);
               t1 = [BOS_TOKEN] @ (if content \<noteq> [] \<and> 0 < max_content then take max_content content else []);
               t2 = (if length t1 < max_length then t1 @ [EOS_TOKEN] else t1);
               t3 = t2 @ replicate (max_length - length t2) PAD_TOKEN
           in if max_length \<le> length t3 \<and> t3 ! (max_length - 1) \<noteq> EOS_TOKEN \<and> t3 ! (max_length - 1) \<noteq> PAD_TOKEN
              then t3[max_length - 1 := EOS_TOKEN] else t3)"

subsection \<open>Decoding\<close>

definition reverse_table :: "((string \<times> int) list \<Rightarrow> (string \<times> int) list) \<Rightarrow> (string, int) smap \<Rightarrow> (int, string) smap" where
  "reverse_table ord vocab = fold (\<lambda>(token, i) m. smap_put i token m) (ord vocab) []"

definition decode_word :: "(int, string) smap \<Rightarrow> int \<Rightarrow> string" where
  "decode_word table i = smap_get ''<unk>'' table i"

fun join_words :: "string list \<Rightarrow> string" where
  "join_words [] = []"
| "join_words [w] = w"
| "join_words (w # v # vs) = w @ [blank] @ join_words (v # vs)"

definition decode_clip ::
  "((string \<times> int) list \<Rightarrow> (string \<times> int) list) \<Rightarrow> CLIPTokenizer \<Rightarrow> int list \<Rightarrow> (int, string) smap
   \<Rightarrow> string \<times> (int, string) smap" where
  "decode_clip ord tk ids cache =
     (let table = (if cache = [] \<and> tk_vocab tk \<noteq> [] then reverse_table ord (tk_vocab tk) else cache)
      in (join_words (map (decode_word table) (filter (\<lambda>i. i \<noteq> BOS_TOKEN \<and> i \<noteq> EOS_TOKEN \<and> i \<noteq> PAD_TOKEN) ids)), table))"

end
