(* ===== verification/Clip_Props.thy ===== *)
theory Clip_Props
  imports Clip_Tokenizer "HOL-Library.Multiset"
begin

text \<open>
  Properties of the tokenizer: words are split without loss into the longest known pieces, an encoded prompt
  always has the requested length and shape, and a prompt of known words is decoded to itself, unless the shared
  reverse table was built by another tokenizer.
\<close>

subsection \<open>Splitting\<close>

lemma best_len_le: "best_len v s n \<le> n"
  by (induction v s n rule: best_len.induct) auto

lemma best_len_hit: "0 < best_len v s n \<Longrightarrow> smap_count v (take (best_len v s n) s)"
  by (induction v s n rule: best_len.induct) (auto split: if_splits)

lemma best_len_max: "best_len v s n < m \<Longrightarrow> m \<le> n \<Longrightarrow> \<not> smap_count v (take m s)"
  by (induction v s n rule: best_len.induct) (auto simp: le_Suc_eq split: if_splits)

text \<open>The greedy segmentation of a string: each piece is the longest known prefix of what is left, or one unknown character.\<close>

fun greedy :: "(string, int) smap \<Rightarrow> string \<Rightarrow> string list \<Rightarrow> bool" where
  "greedy v s [] = (s = [])"
| "greedy v s (p # ps) =
     (p \<noteq> [] \<and> take (length p) s = p \<and> (smap_count v p \<or> length p = 1) \<and>
      (\<forall>m \<le> length s. length p < m \<longrightarrow> \<not> smap_count v (take m s)) \<and> greedy v (drop (length p) s) ps)"

lemma bpe_loop_greedy: "greedy v s (bpe_loop v s)"
proof (induction v s rule: bpe_loop.induct)
  case (1 v s)
  let ?n = "best_len v s (length s)"
  show ?case
  proof (cases "s = []")
    case False
    show ?thesis
    proof (cases "0 < ?n")
      case True
      then have "length (take ?n s) = ?n"
        using best_len_le [of v s "length s"] by simp
      then show ?thesis
        using False True 1(1) [OF False refl True] best_len_hit [OF True] best_len_max [of v s "length s"]
        by (auto simp: bpe_loop.simps [of v s] Let_def)
    next
      case zero: False
      then have "length (take 1 s) = 1"
        using False by (cases s) simp_all
      then show ?thesis
        using False zero 1(2) [OF False refl zero] best_len_max [of v s "length s"]
        by (auto simp: bpe_loop.simps [of v s] Let_def)
    qed
  qed (simp add: bpe_loop.simps)
qed

lemma greedy_concat: "greedy v s ps \<Longrightarrow> concat ps = s"
  by (induction v s ps rule: greedy.induct) (auto, metis append_take_drop_id)

text \<open>Splitting a word loses nothing, and every piece is the longest one possible.\<close>

theorem segmentation_lossless:
  "concat (bpe_encode_word tk w) = w \<and>
   (smap_count (tk_vocab tk) w \<or> greedy (tk_vocab tk) w (bpe_encode_word tk w))"
  using bpe_loop_greedy [of "tk_vocab tk" w] greedy_concat by (auto simp: bpe_encode_word_def)

subsection \<open>Shape of an encoded prompt\<close>

lemma finish_tokens:
  assumes "2 \<le> n" and "length c \<le> n - 2"
  shows "(let t1 = [BOS_TOKEN] @ c;
              t2 = (if length t1 < n then t1 @ [EOS_TOKEN] else t1);
              t3 = t2 @ replicate (n - length t2) PAD_TOKEN
          in if n \<le> length t3 \<and> t3 ! (n - 1) \<noteq> EOS_TOKEN \<and> t3 ! (n - 1) \<noteq> PAD_TOKEN
             then t3[n - 1 := EOS_TOKEN] else t3) = BOS_TOKEN # c @ replicate (n - 1 - length c) EOS_TOKEN"
proof -
  have "n - 1 - length c = Suc (n - length ([BOS_TOKEN] @ c @ [EOS_TOKEN]))"
    using assms by simp
  then have t3: "([BOS_TOKEN] @ c @ [EOS_TOKEN]) @ replicate (n - length ([BOS_TOKEN] @ c @ [EOS_TOKEN])) PAD_TOKEN =
      BOS_TOKEN # c @ replicate (n - 1 - length c) EOS_TOKEN"
    by (simp add: EOS_TOKEN_def PAD_TOKEN_def)
  have "(BOS_TOKEN # c @ replicate (n - 1 - length c) EOS_TOKEN) ! (n - 1) = EOS_TOKEN"
    using assms by (auto simp: nth_Cons nth_append split: nat.split)
  moreover have "length ([BOS_TOKEN] @ c) < n"
    using assms by simp
  ultimately show ?thesis
    using t3 by (simp only: Let_def if_True append.assoc simp_thms if_False)
qed

lemma encode_framed:
  assumes "2 \<le> n"
  shows "encode_clip tk text n = BOS_TOKEN # take (n - 2) (encode_raw tk text) @
    replicate (n - 1 - length (take (n - 2) (encode_raw tk text))) EOS_TOKEN"
proof -
  have "(if encode_raw tk text \<noteq> [] \<and> 0 < (if 1 < n then n - 2 else 0)
      then take (if 1 < n then n - 2 else 0) (encode_raw tk text) else []) = take (n - 2) (encode_raw tk text)"
    using assms by simp
  moreover have "n \<noteq> 0"
    using assms by simp
  ultimately show ?thesis
    using finish_tokens [OF assms, of "take (n - 2) (encode_raw tk text)"]
    unfolding encode_clip_def by (simp only: Let_def if_False length_take min.cobounded2)
qed

text \<open>An encoded prompt has exactly the requested length.  From length two on it is the start token, the tokens of the
  text cut so that one place is left, and end tokens up to the length, at least one; for length one only the end
  token is left.\<close>

theorem encode_shape:
  "length (encode_clip tk text n) = n \<and> (n = 1 \<longrightarrow> encode_clip tk text n = [EOS_TOKEN]) \<and>
   (2 \<le> n \<longrightarrow> encode_clip tk text n =
      BOS_TOKEN # take (n - 2) (encode_raw tk text) @
      replicate (n - 1 - length (take (n - 2) (encode_raw tk text))) EOS_TOKEN)"
proof -
  have "encode_clip tk text 1 = [EOS_TOKEN]" "encode_clip tk text 0 = []"
    by (simp_all add: encode_clip_def Let_def BOS_TOKEN_def EOS_TOKEN_def PAD_TOKEN_def)
  moreover have "n = 0 \<or> n = 1 \<or> 2 \<le> n"
    by auto
  ultimately show ?thesis
    using encode_framed [of n tk "text"] by auto
qed

theorem encode_shape_witness:
  "encode_clip new_tokenizer ''cat'' 1 = [EOS_TOKEN]"
  using encode_shape [of new_tokenizer "''cat''" 1] by simp

subsection \<open>Decoding\<close>

definition clean_word :: "string \<Rightarrow> bool" where
  "clean_word w \<longleftrightarrow> w \<noteq> [] \<and> list_all (\<lambda>c. \<not> is_upper c \<and> \<not> is_punct c \<and> \<not> is_space c) w"

lemma blank_class: "is_space blank" "\<not> is_upper blank" "\<not> is_punct blank"
  by (simp_all add: ctype_defs is_punct_def)

lemma fold_space_char:
  "list_all (\<lambda>c. \<not> is_upper c \<and> \<not> is_punct c) s \<Longrightarrow> fold space_char s r = r @ s"
  by (induction s arbitrary: r) (auto simp: space_char_def to_lower_def)

lemma clean_plain: "clean_word w \<Longrightarrow> list_all (\<lambda>c. \<not> is_upper c \<and> \<not> is_punct c) w"
  by (simp add: clean_word_def list_all_iff)

lemma join_words_chars: "list_all clean_word ws \<Longrightarrow> list_all (\<lambda>c. \<not> is_upper c \<and> \<not> is_punct c) (join_words ws)"
  by (induction ws rule: join_words.induct) (simp_all add: clean_plain blank_class)

lemma collapse_word: "\<forall>c \<in> set w. c \<noteq> blank \<Longrightarrow> w \<noteq> [] \<Longrightarrow> collapse b (w @ rest) = w @ collapse False rest"
proof (induction w arbitrary: b)
  case (Cons c w)
  then show ?case
    by (cases "w = []") simp_all
qed simp

lemma clean_no_blank: "clean_word w \<Longrightarrow> \<forall>c \<in> set w. c \<noteq> blank"
  using blank_class(1) unfolding clean_word_def list_all_iff by metis

lemma collapse_join: "list_all clean_word ws \<Longrightarrow> collapse b (join_words ws) = join_words ws"
proof (induction ws arbitrary: b rule: join_words.induct)
  case (2 w)
  then show ?case
    using collapse_word [of w b "[]"] clean_no_blank [of w] by (simp add: clean_word_def)
next
  case (3 w v vs)
  have "collapse b (w @ [blank] @ join_words (v # vs)) = w @ collapse False ([blank] @ join_words (v # vs))"
    using 3(2) collapse_word [of w] clean_no_blank [of w] by (simp add: clean_word_def)
  then show ?case
    using 3(1) [of True] 3(2) by simp
qed simp

lemma join_words_ends:
  "list_all clean_word ws \<Longrightarrow> ws \<noteq> [] \<Longrightarrow> join_words ws \<noteq> [] \<and> hd (join_words ws) \<noteq> blank \<and> last (join_words ws) \<noteq> blank"
proof (induction ws rule: join_words.induct)
  case (2 w)
  then show ?case
    using clean_no_blank [of w] by (auto simp: clean_word_def)
next
  case (3 w v vs)
  then show ?case
    using clean_no_blank [of w] by (auto simp: clean_word_def hd_append)
qed simp

lemma trim_blanks_id: "s = [] \<or> hd s \<noteq> blank \<and> last s \<noteq> blank \<Longrightarrow> trim_blanks s = s"
proof -
  assume h: "s = [] \<or> hd s \<noteq> blank \<and> last s \<noteq> blank"
  have "dropWhile (\<lambda>c. c = blank) s = s"
    using h by (cases s) auto
  moreover have "dropWhile (\<lambda>c. c = blank) (rev s) = rev s"
    using h by (cases s rule: rev_cases) auto
  ultimately show ?thesis
    by (simp add: trim_blanks_def)
qed

lemma normalize_join: "list_all clean_word ws \<Longrightarrow> normalize_text (join_words ws) = join_words ws"
  using fold_space_char [OF join_words_chars, of ws "[]"] collapse_join [of ws False] join_words_ends [of ws]
  by (cases "ws = []") (simp_all add: normalize_text_def trim_blanks_id)

lemma split_join: "list_all clean_word ws \<Longrightarrow> split_words (join_words ws) = ws"
proof (induction ws rule: join_words.induct)
  case (2 w)
  then show ?case
    using ws_tokens_aux_word [of w "[]" "[]"] by (simp add: split_words_def ws_tokens_def clean_word_def list_all_iff)
next
  case (3 w v vs)
  show ?case
    using blank_class(1) 3 ws_tokens_aux_word [of w "[]" "[blank] @ join_words (v # vs)"]
    by (simp add: split_words_def ws_tokens_def clean_word_def list_all_iff)
qed (simp add: split_words_def ws_tokens_def)

text \<open>Identifiers that determine their word, and words the tokenizer knows under an ordinary identifier.\<close>

definition ids_unique :: "(string, int) smap \<Rightarrow> bool" where
  "ids_unique v \<longleftrightarrow> smap_wf v \<and> (\<forall>(w, i) \<in> set v. \<forall>(w', i') \<in> set v. i = i' \<longrightarrow> w = w')"

definition known_word :: "CLIPTokenizer \<Rightarrow> string \<Rightarrow> bool" where
  "known_word tk w \<longleftrightarrow> clean_word w \<and> (\<exists>i. smap_find (tk_vocab tk) w = Some i \<and> i \<noteq> BOS_TOKEN \<and> i \<noteq> EOS_TOKEN)"

lemma reverse_table_of: "reverse_table ord v = smap_of (map prod.swap (ord v))"
proof -
  have "fold (\<lambda>(token, i) m. smap_put i token m) xs m = fold (\<lambda>(k, v) m. smap_put k v m) (map prod.swap xs) m"
    for xs :: "(string \<times> int) list" and m
    by (induction xs arbitrary: m) auto
  then show ?thesis
    by (simp add: reverse_table_def smap_of_def smap_merge_def)
qed

lemma reverse_table_find:
  assumes "ids_unique v" and "mset (ord v) = mset v" and "(w, i) \<in> set v"
  shows "smap_find (reverse_table ord v) i = Some w"
proof -
  have "distinct v"
    using assms(1) smap_wf_distinct distinct_map by (auto simp: ids_unique_def)
  moreover have "inj_on snd (set v)"
    using assms(1) by (fastforce simp: ids_unique_def inj_on_def)
  ultimately have "distinct (map snd v)"
    by (simp add: distinct_map)
  then have "distinct (map snd (ord v))"
    using assms(2) by (metis mset_map mset_eq_imp_distinct_iff)
  then have "distinct (map fst (rev (map prod.swap (ord v))))"
    by (simp add: rev_map [symmetric] comp_def)
  moreover have "(i, w) \<in> set (rev (map prod.swap (ord v)))"
    using assms(2,3) mset_eq_setD [OF assms(2)] by force
  ultimately have "map_of (rev (map prod.swap (ord v))) i = Some w"
    by (rule map_of_is_SomeI)
  then show ?thesis
    by (simp add: reverse_table_of smap_find_of)
qed

lemma encode_known:
  assumes "list_all (known_word tk) ws"
  shows "encode_raw tk (join_words ws) = map (\<lambda>w. the (smap_find (tk_vocab tk) w)) ws"
proof -
  have clean: "list_all clean_word ws"
    using assms by (auto simp: list_all_iff known_word_def)
  have "word_tokens tk w = [the (smap_find (tk_vocab tk) w)]" if "known_word tk w" for w
    using that by (auto simp: word_tokens_def known_word_def clean_word_def)
  then have "concat (map (word_tokens tk) ws) = map (\<lambda>w. the (smap_find (tk_vocab tk) w)) ws"
    using assms by (induction ws) auto
  then show ?thesis
    using normalize_join [OF clean] split_join [OF clean] join_words_ends [OF clean]
    by (cases "ws = []") (simp_all add: encode_raw_def Let_def)
qed

text \<open>C5. A prompt of known lower-case words separated by blanks is encoded word by word, and decoding with a reverse table that
  is still empty gives the prompt back, in whatever order the hash table is traversed, also from the padded
  sequence when it is long enough.\<close>

theorem decode_encode_words:
  assumes "ids_unique (tk_vocab tk)" and "mset (ord (tk_vocab tk)) = mset (tk_vocab tk)" and "list_all (known_word tk) ws"
    and "length ws + 2 \<le> n"
  shows "fst (decode_clip ord tk (encode_raw tk (join_words ws)) []) = join_words ws \<and>
    fst (decode_clip ord tk (encode_clip tk (join_words ws) n) []) = join_words ws"
proof -
  let ?ids = "map (\<lambda>w. the (smap_find (tk_vocab tk) w)) ws" and ?t = "reverse_table ord (tk_vocab tk)"
  let ?ordinary = "\<lambda>i. i \<noteq> BOS_TOKEN \<and> i \<noteq> EOS_TOKEN \<and> i \<noteq> PAD_TOKEN"
  have enc: "encode_raw tk (join_words ws) = ?ids"
    by (rule encode_known) (fact assms(3))
  have ids: "filter ?ordinary ?ids = ?ids"
    using assms(3) by (auto simp: filter_id_conv list_all_iff known_word_def EOS_TOKEN_def PAD_TOKEN_def)
  have pad: "filter ?ordinary (replicate k EOS_TOKEN) = []" for k
    by (simp add: filter_replicate)
  have word: "decode_word ?t (the (smap_find (tk_vocab tk) w)) = w" if "w \<in> set ws" for w
  proof -
    obtain i where "smap_find (tk_vocab tk) w = Some i"
      using assms(3) \<open>w \<in> set ws\<close> by (auto simp: list_all_iff known_word_def)
    then show ?thesis
      using reverse_table_find [of "tk_vocab tk" ord w i] assms(1,2) smap_find_in_set [of "tk_vocab tk" w i]
      by (simp add: decode_word_def smap_get_def)
  qed
  have words: "map (decode_word ?t) ?ids = ws"
    using word by (simp add: map_idI)
  have vocab: "tk_vocab tk = [] \<Longrightarrow> ws = []"
    using assms(3) by (cases ws) (auto simp: known_word_def)
  have "encode_clip tk (join_words ws) n = BOS_TOKEN # ?ids @ replicate (n - 1 - length ws) EOS_TOKEN"
    using encode_framed [of n tk "join_words ws"] assms(4) enc by simp
  then have "filter ?ordinary (encode_clip tk (join_words ws) n) = ?ids"
    using ids pad by simp
  then show ?thesis
    using enc ids words vocab by (cases "tk_vocab tk = []") (simp_all add: decode_clip_def Let_def)
qed

subsection \<open>The built-in vocabulary\<close>

lemma find_emplace: "smap_find (emplace e m) k =
    (case smap_find m k of Some v \<Rightarrow> Some v | None \<Rightarrow> if k = fst e then Some (snd e) else None)"
  by (auto simp: emplace_def smap_count_def split: prod.split option.split)

lemma find_emplaces: "smap_find (fold emplace es m) k =
    (case smap_find m k of Some v \<Rightarrow> Some v | None \<Rightarrow> map_of es k)"
  by (induction es arbitrary: m) (auto simp: find_emplace split: option.splits)

lemma wf_emplaces: "smap_wf m \<Longrightarrow> smap_wf (fold emplace es m)"
  by (induction es arbitrary: m) (auto simp: emplace_def split: prod.split)

lemma builtin_find:
  "smap_find (tk_vocab new_tokenizer) w =
     (if w = ''<|endoftext|>'' then Some EOS_TOKEN else if w = ''<|startoftext|>'' then Some BOS_TOKEN
      else map_of (BUILTIN_VOCAB @ SUBWORD_TOKENS) w)"
  by (simp add: new_tokenizer_def load_builtin_vocab_def put_specials_def find_emplaces map_add_def split: option.splits)

lemma builtin_ids: "map snd (BUILTIN_VOCAB @ SUBWORD_TOKENS) = map int [0..<367]"
  by code_simp

lemma builtin_ids_unique: "ids_unique (tk_vocab new_tokenizer)"
proof -
  let ?t = "BUILTIN_VOCAB @ SUBWORD_TOKENS"
  have wf: "smap_wf (tk_vocab new_tokenizer)"
    by (simp add: new_tokenizer_def load_builtin_vocab_def put_specials_def wf_emplaces)
  have "distinct (map snd ?t)"
    unfolding builtin_ids by (simp add: distinct_map)
  then have inj: "w = w'" if "(w, i) \<in> set ?t" "(w', i) \<in> set ?t" for w w' i
    using that by (metis distinct_map inj_onD prod.inject snd_conv)
  have small: "i < 367" if "(w, i) \<in> set ?t" for w i
  proof -
    have "i \<in> set (map snd ?t)"
      using that by force
    then show ?thesis
      unfolding builtin_ids by auto
  qed
  have entry: "(w, i) \<in> set ?t \<or> w = ''<|endoftext|>'' \<and> i = EOS_TOKEN \<or> w = ''<|startoftext|>'' \<and> i = BOS_TOKEN"
    if "(w, i) \<in> set (tk_vocab new_tokenizer)" for w i
  proof -
    have "smap_find (tk_vocab new_tokenizer) w = Some i"
      using that wf by (simp add: smap_find_entry)
    then show ?thesis
      unfolding builtin_find using map_of_SomeD [of ?t w i] by (metis option.inject)
  qed
  have "w = w'" if "(w, i) \<in> set (tk_vocab new_tokenizer)" "(w', i) \<in> set (tk_vocab new_tokenizer)" for w w' i
    using entry [OF that(1)] entry [OF that(2)] inj [of w i w'] small [of w i] small [of w' i]
    by (elim disjE conjE) (simp_all add: EOS_TOKEN_def BOS_TOKEN_def)
  then show ?thesis
    unfolding ids_unique_def using wf by blast
qed

theorem decode_encode_words_witness:
  "fst (decode_clip rev new_tokenizer (encode_clip new_tokenizer ''a beautiful cat'' 77) []) = ''a beautiful cat''"
proof -
  have "map_of (BUILTIN_VOCAB @ SUBWORD_TOKENS) ''a'' = Some 1" "map_of (BUILTIN_VOCAB @ SUBWORD_TOKENS) ''cat'' = Some 227"
    "map_of (BUILTIN_VOCAB @ SUBWORD_TOKENS) ''beautiful'' = Some 166"
    by code_simp+
  moreover have "clean_word ''a''" "clean_word ''beautiful''" "clean_word ''cat''"
    by code_simp+
  ultimately have "list_all (known_word new_tokenizer) [''a'', ''beautiful'', ''cat'']"
    by (simp add: known_word_def builtin_find BOS_TOKEN_def EOS_TOKEN_def)
  moreover have "join_words [''a'', ''beautiful'', ''cat''] = ''a beautiful cat''"
    by simp
  ultimately show ?thesis
    using decode_encode_words [OF builtin_ids_unique, of rev "[''a'', ''beautiful'', ''cat'']" 77] by simp
qed

text \<open>The reverse table belongs to the thread and not to the tokenizer: once another tokenizer has filled it, decoding uses
  that vocabulary.\<close>

lemma decode_uses_first_table:
  assumes "cache \<noteq> []"
  shows "decode_clip ord tk ids cache = decode_clip ord tk' ids cache"
  using assms by (simp add: decode_clip_def)

text \<open>In the built-in tables the second entry of a word is dropped: the identifiers 200 and 258 are never produced.\<close>

lemma shadowed_entries:
  "(''work'', 200) \<in> set BUILTIN_VOCAB" "smap_find (tk_vocab new_tokenizer) ''work'' = Some 134"
  "(''in'', 258) \<in> set SUBWORD_TOKENS" "smap_find (tk_vocab new_tokenizer) ''in'' = Some 4"
proof -
  show "(''work'', 200) \<in> set BUILTIN_VOCAB" "(''in'', 258) \<in> set SUBWORD_TOKENS"
    by (simp_all add: BUILTIN_VOCAB_def SUBWORD_TOKENS_def)
  have "map_of (BUILTIN_VOCAB @ SUBWORD_TOKENS) ''work'' = Some 134" "map_of (BUILTIN_VOCAB @ SUBWORD_TOKENS) ''in'' = Some 4"
    by code_simp+
  then show "smap_find (tk_vocab new_tokenizer) ''work'' = Some 134" "smap_find (tk_vocab new_tokenizer) ''in'' = Some 4"
    by (simp_all add: builtin_find)
qed

end
