(* ===== verification/Http_Parser.thy ===== *)
theory Http_Parser
  imports Std_Map Std_String
begin

text \<open>
  The HTTP layer of \<^verbatim>\<open>code/src/inference_server.cpp\<close> and its header: the incremental request parser, the rendering of
  responses, and the JSON helpers.

  A socket delivers a string.  The parser keeps what it could not use in its buffer; one round of its loop is a
  case of \<open>parse_loop\<close>, which ends because every line that is taken shortens the buffer.  The header table is an
  ordered map.  After a request has been handed out the members it was moved from are empty, as the library
  leaves them.
\<close>

subsection \<open>Messages\<close>

datatype HttpMethod = GET | POST | OPTIONS | UNKNOWN

definition parse_method :: "string \<Rightarrow> HttpMethod" where
  "parse_method s = (if s = ''GET'' then GET else if s = ''POST'' then POST else if s = ''OPTIONS'' then OPTIONS else UNKNOWN)"

record HttpRequest =
  hq_method :: HttpMethod
  hq_path :: string
  hq_body :: string
  hq_headers :: "(string, string) smap"

definition empty_request :: HttpRequest where
  "empty_request = \<lparr>hq_method = UNKNOWN, hq_path = [], hq_body = [], hq_headers = []\<rparr>"

record HttpResponse =
  hp_status_code :: nat
  hp_content_type :: string
  hp_body :: string
  hp_close_connection :: bool

definition crlf :: string where "crlf = [CHR 0x0D, CHR 0x0A]"

definition status_text :: "nat \<Rightarrow> string" where
  "status_text c = (if c = 200 then ''OK'' else if c = 400 then ''Bad Request'' else if c = 404 then ''Not Found''
     else if c = 405 then ''Method Not Allowed'' else if c = 429 then ''Too Many Requests''
     else if c = 500 then ''Internal Server Error'' else if c = 503 then ''Service Unavailable'' else ''Unknown'')"

definition render :: "HttpResponse \<Rightarrow> string" where
  "render r = ''HTTP/1.1 '' @ nat_to_string (hp_status_code r) @ '' '' @ status_text (hp_status_code r) @ crlf @
     ''Content-Type: '' @ hp_content_type r @ crlf @
     ''Content-Length: '' @ nat_to_string (length (hp_body r)) @ crlf @
     ''Connection: '' @ (if hp_close_connection r then ''close'' else ''keep-alive'') @ crlf @
     ''Server: Cerberus/1.0.0'' @ crlf @ ''Access-Control-Allow-Origin: *'' @ crlf @
     ''Access-Control-Allow-Methods: GET, POST, OPTIONS'' @ crlf @
     ''Access-Control-Allow-Headers: Content-Type, Authorization'' @ crlf @ crlf @ hp_body r"

subsection \<open>The parser\<close>

datatype ParseState = METHOD_LINE | HEADERS | BODY | PARSE_DONE | ParseError

record SimpleHttpParser =
  ps_state :: ParseState
  ps_current :: HttpRequest
  ps_buffer :: string
  ps_body_expected :: u64
  ps_wants_more :: bool
  ps_chunked :: bool

definition new_parser :: SimpleHttpParser where
  "new_parser = \<lparr>ps_state = METHOD_LINE, ps_current = empty_request, ps_buffer = [], ps_body_expected = 0,
     ps_wants_more = True, ps_chunked = False\<rparr>"

definition parser_reset :: "SimpleHttpParser \<Rightarrow> SimpleHttpParser" where
  "parser_reset p = new_parser"

definition get_header :: "HttpRequest \<Rightarrow> string \<Rightarrow> string" where
  "get_header r key = smap_get [] (hq_headers r) key"

text \<open>\<^verbatim>\<open>strtoul\<close> gives zero without digits and the largest value when the number is too big.\<close>

definition strtoul :: "string \<Rightarrow> u64" where
  "strtoul s = (case strto_dec s of None \<Rightarrow> 0
     | Some (neg, n) \<Rightarrow> if int n < 2 ^ 64 then (if neg then - of_nat n else of_nat n) else - 1)"

definition ascii_lower :: "char \<Rightarrow> char" where
  "ascii_lower c = (if is_upper c then char_of (code c + 32) else c)"

definition is_blank_tab :: "char \<Rightarrow> bool" where
  "is_blank_tab c \<longleftrightarrow> c = CHR '' '' \<or> c = CHR 0x09"

definition method_line :: "string \<Rightarrow> SimpleHttpParser \<Rightarrow> SimpleHttpParser" where
  "method_line line p = (case find_char (CHR '' '') line 0 of
      None \<Rightarrow> p\<lparr>ps_state := ParseError\<rparr>
    | Some sp1 \<Rightarrow>
        (case find_char (CHR '' '') line (sp1 + 1) of
           None \<Rightarrow> p\<lparr>ps_state := ParseError\<rparr>
         | Some sp2 \<Rightarrow> p\<lparr>ps_current := (ps_current p)\<lparr>hq_method := parse_method (take sp1 line),
                            hq_path := take (sp2 - sp1 - 1) (drop (sp1 + 1) line)\<rparr>, ps_state := HEADERS\<rparr>))"

definition end_of_headers :: "SimpleHttpParser \<Rightarrow> SimpleHttpParser" where
  "end_of_headers p =
     (let cl = get_header (ps_current p) ''content-length''
      in if cl \<noteq> [] then
           (let n = strtoul cl in p\<lparr>ps_body_expected := n, ps_state := (if 0 < n then BODY else PARSE_DONE)\<rparr>)
         else if contains ''chunked'' (get_header (ps_current p) ''transfer-encoding'')
         then p\<lparr>ps_chunked := True, ps_state := BODY\<rparr>
         else p\<lparr>ps_state := PARSE_DONE\<rparr>)"

definition header_value :: "string \<Rightarrow> string" where
  "header_value v = (if list_all is_blank_tab v then v else dropWhile is_blank_tab v)"

definition header_line :: "string \<Rightarrow> SimpleHttpParser \<Rightarrow> SimpleHttpParser" where
  "header_line line p = (case find_char (CHR '':'') line 0 of
      None \<Rightarrow> p
    | Some colon \<Rightarrow> p\<lparr>ps_current := (ps_current p)\<lparr>hq_headers :=
        smap_put (map ascii_lower (take colon line)) (header_value (drop (colon + 1) line)) (hq_headers (ps_current p))\<rparr>\<rparr>)"

definition parse_line :: "string \<Rightarrow> SimpleHttpParser \<Rightarrow> SimpleHttpParser" where
  "parse_line line p =
     (if ps_state p = METHOD_LINE then method_line line p
      else if ps_state p = HEADERS then (if line = [] then end_of_headers p else header_line line p)
      else p)"

definition take_body :: "nat \<Rightarrow> SimpleHttpParser \<Rightarrow> SimpleHttpParser" where
  "take_body n p = p\<lparr>ps_current := (ps_current p)\<lparr>hq_body := take n (ps_buffer p)\<rparr>, ps_buffer := drop n (ps_buffer p),
     ps_state := PARSE_DONE\<rparr>"

definition hand_out :: "SimpleHttpParser \<Rightarrow> HttpRequest option \<times> SimpleHttpParser" where
  "hand_out p = (Some (ps_current p),
     p\<lparr>ps_wants_more := False, ps_current := (ps_current p)\<lparr>hq_path := [], hq_body := [], hq_headers := []\<rparr>\<rparr>)"

definition want_more :: "SimpleHttpParser \<Rightarrow> HttpRequest option \<times> SimpleHttpParser" where
  "want_more p = (None, p\<lparr>ps_wants_more := True\<rparr>)"

function parse_loop :: "SimpleHttpParser \<Rightarrow> HttpRequest option \<times> SimpleHttpParser" where
  "parse_loop p =
     (if ps_state p = METHOD_LINE \<or> ps_state p = HEADERS then
        (case find_str crlf (ps_buffer p) 0 of
           None \<Rightarrow> want_more p
         | Some pos \<Rightarrow>
             (let p1 = (parse_line (take pos (ps_buffer p)) p)\<lparr>ps_buffer := drop (pos + 2) (ps_buffer p)\<rparr>
              in if ps_state p1 = ParseError then (None, p1) else parse_loop p1))
      else if ps_state p = BODY then
        (if ps_chunked p then hand_out (take_body (length (ps_buffer p)) p)
         else if int (length (ps_buffer p)) < uint (ps_body_expected p) then want_more p
         else hand_out (take_body (unat (ps_body_expected p)) p))
      else if ps_state p = PARSE_DONE then hand_out p
      else (None, p))"
  by pat_completeness auto
termination
proof (relation "measure (\<lambda>p. length (ps_buffer p))", goal_cases)
  case (2 p pos p1)
  then have "take 2 (drop pos (ps_buffer p)) = crlf"
    by (auto simp: find_str_def crlf_def numeral_2_eq_2 dest!: find_prefix_SomeD split: if_splits)
  then have "ps_buffer p \<noteq> []"
    by (auto simp: crlf_def)
  with 2 show ?case
    by simp
qed simp

declare parse_loop.simps [simp del]

definition feed :: "string \<Rightarrow> SimpleHttpParser \<Rightarrow> HttpRequest option \<times> SimpleHttpParser" where
  "feed data p = parse_loop (p\<lparr>ps_buffer := ps_buffer p @ data\<rparr>)"

definition wants_more :: "SimpleHttpParser \<Rightarrow> bool" where
  "wants_more p = ps_wants_more p"

subsection \<open>JSON\<close>

fun escape_char :: "char \<Rightarrow> string" where
  "escape_char c = (if c = CHR 0x22 then [CHR 0x5C, CHR 0x22] else if c = CHR 0x5C then [CHR 0x5C, CHR 0x5C]
     else if c = CHR 0x0A then [CHR 0x5C, CHR ''n''] else if c = CHR 0x0D then [CHR 0x5C, CHR ''r'']
     else if c = CHR 0x09 then [CHR 0x5C, CHR ''t''] else [c])"

definition json_escape :: "string \<Rightarrow> string" where
  "json_escape raw = concat (map escape_char raw)"

definition json_ws :: "char \<Rightarrow> bool" where
  "json_ws c \<longleftrightarrow> c = CHR '' '' \<or> c = CHR 0x09 \<or> c = CHR 0x0A \<or> c = CHR 0x0D"

definition find_first_from :: "(char \<Rightarrow> bool) \<Rightarrow> string \<Rightarrow> nat \<Rightarrow> nat option" where
  "find_first_from P s pos = map_option ((+) pos) (find_first P (drop pos s))"

text \<open>Where the value of a key begins.\<close>

definition json_value_pos :: "string \<Rightarrow> string \<Rightarrow> nat option" where
  "json_value_pos json key =
     (let pat = CHR 0x22 # key @ [CHR 0x22]
      in case find_str pat json 0 of None \<Rightarrow> None
         | Some pos \<Rightarrow>
             (case find_char (CHR '':'') json (pos + length pat) of None \<Rightarrow> None
              | Some colon \<Rightarrow> find_first_from (\<lambda>c. \<not> json_ws c) json (colon + 1)))"

definition json_get_str :: "string \<Rightarrow> string \<Rightarrow> string" where
  "json_get_str json key = (case json_value_pos json key of None \<Rightarrow> []
    | Some vs \<Rightarrow>
        if json ! vs \<noteq> CHR 0x22 then []
        else (case find_char (CHR 0x22) json (vs + 1) of None \<Rightarrow> []
              | Some ve \<Rightarrow> take (ve - vs - 1) (drop (vs + 1) json)))"

text \<open>The digits are cut out first, then \<^verbatim>\<open>strtol\<close> reads them; a number beyond \<^verbatim>\<open>long\<close> is the nearest \<^verbatim>\<open>long\<close>, and the
  conversion to \<^verbatim>\<open>int\<close> keeps the low 32 bits.\<close>

definition strtol :: "string \<Rightarrow> int option" where
  "strtol s = (case strto_dec s of None \<Rightarrow> None
     | Some (neg, n) \<Rightarrow>
         Some (max (- (2 ^ 63)) (min (2 ^ 63 - 1) (if neg then - int n else int n))))"

definition json_get_int :: "string \<Rightarrow> string \<Rightarrow> u32 option" where
  "json_get_int json key = (case json_value_pos json key of None \<Rightarrow> None
    | Some vs0 \<Rightarrow>
        (let vs = (if json ! vs0 = CHR 0x22 then vs0 + 1 else vs0);
             num = takeWhile (\<lambda>c. is_digit c \<or> c = CHR ''-'') (drop vs json)
         in map_option word_of_int (strtol num)))"

end
