(* ===== verification/Inference_Server.thy ===== *)
theory Inference_Server
  imports Http_Parser Api_Gateway Float32
begin

text \<open>
  The inference server of \<^verbatim>\<open>code/src/inference_server.cpp\<close> and its header: model registry, device load balancer, the
  chat-completion messages, the routes and the accept loop.

  The state is the members of \<^verbatim>\<open>InferenceServer\<close>; the maintenance database and the user security are present or not.
  From outside come the record \<open>sv_env\<close> (clocks, the outcome of the export, the answer of the pipeline, the readings of
  the device monitors), the entries of the model directory and the events of the listening socket.
  Counters are 64-bit words.
\<close>

subsection \<open>Model registry\<close>

datatype DeviceType = DT_CPU | DT_GPU | DT_NPU | DT_Auto

fun device_to_string :: "DeviceType \<Rightarrow> string" where
  "device_to_string DT_CPU = ''cpu''"
| "device_to_string DT_GPU = ''gpu''"
| "device_to_string DT_NPU = ''npu''"
| "device_to_string DT_Auto = ''auto''"

record ModelEntry =
  me_id :: string
  me_preferred_device :: DeviceType
  me_file_path :: string

record ModelRegistry =
  mr_model_dir :: string
  mr_models :: "ModelEntry list"

text \<open>\<^verbatim>\<open>std::filesystem::path\<close>: the extension starts at the last dot, unless that dot is the first character or the
  name is \<^verbatim>\<open>..\<close>\<close>

definition last_dot :: "string \<Rightarrow> nat option" where
  "last_dot name =
     (if name = ''..'' then None
      else case find_first (\<lambda>c. c = CHR ''.'') (rev name) of None \<Rightarrow> None
           | Some k \<Rightarrow> (let i = length name - 1 - k in if i = 0 then None else Some i))"

definition path_extension :: "string \<Rightarrow> string" where
  "path_extension name = (case last_dot name of None \<Rightarrow> [] | Some i \<Rightarrow> drop i name)"

definition path_stem :: "string \<Rightarrow> string" where
  "path_stem name = (case last_dot name of None \<Rightarrow> name | Some i \<Rightarrow> take i name)"

definition dir_join :: "string \<Rightarrow> string \<Rightarrow> string" where
  "dir_join dir name = (if dir = [] \<or> last dir = CHR ''/'' then dir @ name else dir @ ''/'' @ name)"

definition detect_device_from_model :: "string \<Rightarrow> DeviceType option" where
  "detect_device_from_model name =
     (if path_extension name = ''.hef'' then Some DT_NPU
      else if contains ''npu'' (path_stem name) then Some DT_NPU
      else if contains ''gpu'' (path_stem name) then Some DT_GPU
      else Some DT_CPU)"

text \<open>A directory entry is a file name and whether it is a regular file.\<close>

definition model_entry :: "string \<Rightarrow> string \<times> bool \<Rightarrow> ModelEntry option" where
  "model_entry dir e = (case e of (name, regular) \<Rightarrow>
     if \<not> regular then None
     else if path_extension name \<noteq> ''.onnx'' \<and> path_extension name \<noteq> ''.hef'' then None
     else Some \<lparr>me_id = path_stem name,
                me_preferred_device = (case detect_device_from_model name of None \<Rightarrow> DT_CPU | Some d \<Rightarrow> d),
                me_file_path = dir_join dir name\<rparr>)"

definition scan_models :: "(string \<times> bool) list \<Rightarrow> ModelRegistry \<Rightarrow> ModelRegistry" where
  "scan_models entries r =
     (if mr_model_dir r = [] then r
      else r\<lparr>mr_models := mr_models r @ List.map_filter (model_entry (mr_model_dir r)) entries\<rparr>)"

definition new_registry :: "(string \<times> bool) list \<Rightarrow> string \<Rightarrow> ModelRegistry" where
  "new_registry entries dir = scan_models entries \<lparr>mr_model_dir = dir, mr_models = []\<rparr>"

definition rescan :: "(string \<times> bool) list \<Rightarrow> ModelRegistry \<Rightarrow> ModelRegistry" where
  "rescan entries r = scan_models entries (r\<lparr>mr_models := []\<rparr>)"

definition set_model_dir :: "(string \<times> bool) list \<Rightarrow> string \<Rightarrow> ModelRegistry \<Rightarrow> ModelRegistry" where
  "set_model_dir entries dir r = scan_models entries (r\<lparr>mr_model_dir := dir, mr_models := []\<rparr>)"

definition find_model :: "string \<Rightarrow> ModelRegistry \<Rightarrow> ModelEntry option" where
  "find_model mid r = List.find (\<lambda>e. me_id e = mid) (mr_models r)"

definition all_models :: "ModelRegistry \<Rightarrow> ModelEntry list" where
  "all_models r = mr_models r"

definition model_count :: "ModelRegistry \<Rightarrow> nat" where
  "model_count r = length (mr_models r)"

definition in_quotes :: "string \<Rightarrow> string" where
  "in_quotes s = quote @ s @ quote"

definition model_json :: "string \<Rightarrow> string" where
  "model_json mid = ''{'' @ in_quotes ''id'' @ '':'' @ in_quotes mid @ '','' @ in_quotes ''object'' @ '':'' @ in_quotes ''model'' @ '','' @
     in_quotes ''owned_by'' @ '':'' @ in_quotes ''cerberus'' @ ''}''"

definition list_models_json :: "ModelRegistry \<Rightarrow> string" where
  "list_models_json r = ''{'' @ in_quotes ''object'' @ '':'' @ in_quotes ''list'' @ '','' @ in_quotes ''data'' @ '':['' @
     join_commas (if mr_models r = [] then [model_json ''cerberus-v1'']
                  else map (\<lambda>e. model_json (json_escape (me_id e))) (mr_models r)) @ '']}''"

subsection \<open>Device load balancer\<close>

text \<open>What a monitor does when it is asked: it cannot be opened or read, it throws, or it gives a utilisation and a
  temperature.\<close>

datatype monitor = M_Unavailable | M_Threw | M_Reading float32 float32

record DeviceLoadBalancer =
  lb_has_gpu :: bool
  lb_has_hailo :: bool
  lb_gpu_util :: float32
  lb_gpu_temp :: float32
  lb_hailo_util :: float32
  lb_hailo_temp :: float32
  lb_gpu_available :: bool
  lb_hailo_available :: bool

definition new_balancer :: "bool \<Rightarrow> bool \<Rightarrow> DeviceLoadBalancer" where
  "new_balancer gpu hailo = \<lparr>lb_has_gpu = gpu, lb_has_hailo = hailo, lb_gpu_util = F_Fin (- 1), lb_gpu_temp = F_Fin (- 1),
     lb_hailo_util = F_Fin (- 1), lb_hailo_temp = F_Fin (- 1), lb_gpu_available = False, lb_hailo_available = False\<rparr>"

record DeviceChoice =
  dc_device_name :: string
  dc_utilization :: float32
  dc_available :: bool

definition ask_gpu :: "monitor \<Rightarrow> DeviceChoice \<Rightarrow> DeviceLoadBalancer \<Rightarrow> DeviceChoice \<times> DeviceLoadBalancer" where
  "ask_gpu mon best b = (case mon of M_Unavailable \<Rightarrow> (best, b)
     | M_Threw \<Rightarrow> (best, b\<lparr>lb_gpu_available := False, lb_gpu_util := F_Fin 0, lb_gpu_temp := F_Fin 0\<rparr>)
     | M_Reading u t \<Rightarrow>
         (if f_less u (F_Fin 95) then \<lparr>dc_device_name = ''gpu_780m'', dc_utilization = u, dc_available = True\<rparr> else best,
          b\<lparr>lb_gpu_util := u, lb_gpu_temp := t, lb_gpu_available := True\<rparr>))"

definition ask_hailo :: "monitor \<Rightarrow> DeviceChoice \<Rightarrow> DeviceLoadBalancer \<Rightarrow> DeviceChoice \<times> DeviceLoadBalancer" where
  "ask_hailo mon best b = (case mon of M_Unavailable \<Rightarrow> (best, b)
     | M_Threw \<Rightarrow> (best, b\<lparr>lb_hailo_available := False, lb_hailo_util := F_Fin 0, lb_hailo_temp := F_Fin 0\<rparr>)
     | M_Reading u t \<Rightarrow>
         (if f_less u (F_Fin 90) \<and> f_less u (dc_utilization best)
          then \<lparr>dc_device_name = ''hailo_8l'', dc_utilization = u, dc_available = True\<rparr> else best,
          b\<lparr>lb_hailo_util := u, lb_hailo_temp := t, lb_hailo_available := True\<rparr>))"

definition pick_device :: "monitor \<Rightarrow> monitor \<Rightarrow> DeviceLoadBalancer \<Rightarrow> DeviceChoice \<times> DeviceLoadBalancer" where
  "pick_device gpu hailo b =
     (let best = \<lparr>dc_device_name = ''cpu'', dc_utilization = F_Fin 0, dc_available = True\<rparr>;
          (best1, b1) = (if lb_has_gpu b then ask_gpu gpu best b else (best, b))
      in if lb_has_hailo b1 then ask_hailo hailo best1 b1 else (best1, b1))"

definition is_any_available :: "DeviceLoadBalancer \<Rightarrow> bool" where
  "is_any_available b = True"

text \<open>The printed form \<^verbatim>\<open>{:.1f}\<close>: the exact value rounded to a tenth, ties to even.\<close>

fun format_1f :: "float32 \<Rightarrow> string" where
  "format_1f F_NaN = ''nan''"
| "format_1f (F_Inf neg) = (if neg then ''-inf'' else ''inf'')"
| "format_1f (F_Fin x) =
     (let n = nat (round_half_even (\<bar>x\<bar> * 10))
      in (if x < 0 then ''-'' else []) @ nat_to_string (n div 10) @ ''.'' @ nat_to_string (n mod 10))"

definition health_json :: "DeviceLoadBalancer \<Rightarrow> string" where
  "health_json b = ''{'' @ in_quotes ''gpu_util'' @ '':'' @ format_1f (lb_gpu_util b) @ '','' @
     in_quotes ''gpu_temp'' @ '':'' @ format_1f (lb_gpu_temp b) @ '','' @
     in_quotes ''npu_util'' @ '':'' @ format_1f (lb_hailo_util b) @ '','' @
     in_quotes ''npu_temp'' @ '':'' @ format_1f (lb_hailo_temp b) @ ''}''"

record DeviceInfo =
  di_name :: string
  di_type :: DeviceType
  di_utilization :: float32
  di_temperature :: float32
  di_available :: bool

definition get_all_devices :: "DeviceLoadBalancer \<Rightarrow> DeviceInfo list" where
  "get_all_devices b =
     [\<lparr>di_name = ''AMD Radeon 780M'', di_type = DT_GPU, di_utilization = lb_gpu_util b, di_temperature = lb_gpu_temp b,
        di_available = f_leq (F_Fin 0) (lb_gpu_util b)\<rparr>,
      \<lparr>di_name = ''Hailo-8L'', di_type = DT_NPU, di_utilization = lb_hailo_util b, di_temperature = lb_hailo_temp b,
        di_available = f_leq (F_Fin 0) (lb_hailo_util b)\<rparr>]"

definition get_load_balance_hint :: "monitor \<Rightarrow> monitor \<Rightarrow> DeviceLoadBalancer \<Rightarrow> DeviceType \<times> DeviceLoadBalancer" where
  "get_load_balance_hint gpu hailo b = (case pick_device gpu hailo b of (c, b') \<Rightarrow>
     (if contains ''npu'' (dc_device_name c) \<or> contains ''hailo'' (dc_device_name c) then DT_NPU
      else if contains ''gpu'' (dc_device_name c) then DT_GPU else DT_CPU, b'))"

end
