(* ===== verification/Inference_Routes.thy ===== *)
theory Inference_Routes
  imports Inference_Server
begin

text \<open>
  The chat-completion messages, the request handlers and the accept loop of \<^verbatim>\<open>code/src/inference_server.cpp\<close>.

  A connection is one step of the accept loop: one \<^verbatim>\<open>recv\<close>, a fresh parser, one answer.  The list of socket events is
  what the loop sees in order, a call of \<^verbatim>\<open>stop\<close> from another thread among them.
\<close>

subsection \<open>Chat completions\<close>

record OpenAIMessage =
  om_role :: string
  om_content :: string

record ChatRequest =
  oq_model :: string
  oq_messages :: "OpenAIMessage list"
  oq_max_tokens :: u32
  oq_temperature :: float32
  oq_top_p :: float32
  oq_seed :: int

definition default_chat_request :: ChatRequest where
  "default_chat_request = \<lparr>oq_model = [], oq_messages = [], oq_max_tokens = 2048, oq_temperature = F_Fin 1,
     oq_top_p = F_Fin 1, oq_seed = - 1\<rparr>"

text \<open>\<^verbatim>\<open>strtof\<close> on a text of digits, dots, signs and exponent letters: a sign, a mantissa with at least one digit and,
  if it is complete, an exponent.  \<open>None\<close> when nothing is converted.\<close>

definition take_sign :: "string \<Rightarrow> bool \<times> string" where
  "take_sign s = (case s of [] \<Rightarrow> (False, [])
     | c # r \<Rightarrow> if c = CHR ''-'' then (True, r) else if c = CHR ''+'' then (False, r) else (False, s))"

definition exponent_part :: "string \<Rightarrow> int" where
  "exponent_part s = (case s of [] \<Rightarrow> 0
     | c # r \<Rightarrow>
         if c \<noteq> CHR ''e'' \<and> c \<noteq> CHR ''E'' then 0
         else (case take_sign r of (neg, u) \<Rightarrow>
                 let n = int (dec_value (takeWhile is_digit u)) in if neg then - n else n))"

definition scale10 :: "rat \<Rightarrow> int \<Rightarrow> rat" where
  "scale10 x e = (if 0 \<le> e then x * 10 ^ nat e else x / 10 ^ nat (- e))"

definition strtof :: "string \<Rightarrow> float32 option" where
  "strtof s = (case take_sign s of (neg, t) \<Rightarrow>
     let ip = takeWhile is_digit t; t1 = dropWhile is_digit t;
         (fp, t2) = (case t1 of [] \<Rightarrow> ([], [])
                     | c # r \<Rightarrow> if c = CHR ''.'' then (takeWhile is_digit r, dropWhile is_digit r) else ([], t1))
     in if ip = [] \<and> fp = [] then None
        else let x = scale10 (of_nat (dec_value (ip @ fp))) (exponent_part t2 - int (length fp))
             in Some (f_round (if neg then - x else x)))"

text \<open>The result is whether a number was found, and what the variable holds afterwards: it is set to zero when the
  key is there but no number follows.\<close>

definition json_get_float :: "string \<Rightarrow> string \<Rightarrow> float32 \<Rightarrow> bool \<times> float32" where
  "json_get_float json key cur = (case json_value_pos json key of None \<Rightarrow> (False, cur)
    | Some vs0 \<Rightarrow>
        (let vs = (if json ! vs0 = CHR 0x22 then vs0 + 1 else vs0);
             num = takeWhile (\<lambda>c. is_digit c \<or> c \<in> {CHR ''.'', CHR ''-'', CHR ''+'', CHR ''e'', CHR ''E''}) (drop vs json)
         in case strtof num of None \<Rightarrow> (False, F_Fin 0) | Some x \<Rightarrow> (True, x)))"

text \<open>One round of the search through the messages: the message that was found, if any, and where to go on.  \<open>None\<close>
  leaves the loop.\<close>

definition message_content :: "string \<Rightarrow> nat \<Rightarrow> string option" where
  "message_content search ve = (case find_str (in_quotes ''content'') search ve of None \<Rightarrow> None
    | Some cp \<Rightarrow> (case find_char (CHR '':'') search (cp + 9) of None \<Rightarrow> None
      | Some cc \<Rightarrow> (case find_char dquote search (cc + 1) of None \<Rightarrow> None
        | Some cvs \<Rightarrow> (case find_char dquote search (cvs + 1) of None \<Rightarrow> None
          | Some cve \<Rightarrow> Some (take (cve - cvs - 1) (drop (cvs + 1) search))))))"

definition next_message :: "string \<Rightarrow> nat \<Rightarrow> (OpenAIMessage option \<times> nat) option" where
  "next_message search pos = (case find_str (in_quotes ''role'') search pos of None \<Rightarrow> None
    | Some rp \<Rightarrow> (case find_char (CHR '':'') search (rp + 6) of None \<Rightarrow> None
      | Some col \<Rightarrow> (case find_char dquote search (col + 1) of None \<Rightarrow> None
        | Some vs \<Rightarrow> (case find_char dquote search (vs + 1) of None \<Rightarrow> None
          | Some ve \<Rightarrow>
              Some (map_option (\<lambda>c. \<lparr>om_role = take (ve - vs - 1) (drop (vs + 1) search), om_content = c\<rparr>)
                      (message_content search ve), ve + 1)))))"

lemma find_char_ge: "find_char c s i = Some j \<Longrightarrow> i \<le> j \<and> j < length s"
  by (auto simp: find_char_def dest!: find_first_SomeD)

lemma find_str_ge: "find_str n s i = Some j \<Longrightarrow> i \<le> j"
  by (auto simp: find_str_def split: if_splits)

lemma next_message_advances: "next_message search pos = Some (mo, pos') \<Longrightarrow> pos < pos' \<and> pos' \<le> length search"
  by (auto simp: next_message_def split: option.splits dest!: find_char_ge find_str_ge)

function scan_messages :: "string \<Rightarrow> nat \<Rightarrow> OpenAIMessage list" where
  "scan_messages search pos = (case next_message search pos of None \<Rightarrow> []
     | Some (mo, pos') \<Rightarrow> (case mo of None \<Rightarrow> [] | Some x \<Rightarrow> [x]) @ scan_messages search pos')"
  by pat_completeness auto
termination
  by (relation "measure (\<lambda>(search, pos). length search - pos)") (auto dest!: next_message_advances)

declare scan_messages.simps [simp del]

definition from_json :: "string \<Rightarrow> ChatRequest option" where
  "from_json body =
     (let d = default_chat_request; model = json_get_str body ''model''; msgs = json_get_str body ''messages''
      in Some (d\<lparr>oq_model := model,
           oq_max_tokens := (case json_get_int body ''max_tokens'' of None \<Rightarrow> oq_max_tokens d | Some v \<Rightarrow> v),
           oq_temperature := snd (json_get_float body ''temperature'' (oq_temperature d)),
           oq_top_p := snd (json_get_float body ''top_p'' (oq_top_p d)),
           oq_messages := (if msgs = [] then [] else scan_messages msgs 0)\<rparr>))"

record OpenAIChoice =
  oc_index :: int
  oc_message :: OpenAIMessage
  oc_finish_reason :: string

record ChatResponse =
  or_id :: string
  or_created :: int
  or_model :: string
  or_choices :: "OpenAIChoice list"
  or_prompt_tokens :: u32
  or_completion_tokens :: u32
  or_total_tokens :: u32

definition choice_json :: "OpenAIChoice \<Rightarrow> string" where
  "choice_json c = ''{'' @ in_quotes ''index'' @ '':'' @ int_to_string (oc_index c) @ '','' @
     in_quotes ''message'' @ '':{'' @ in_quotes ''role'' @ '':'' @ in_quotes (json_escape (om_role (oc_message c))) @ '','' @
     in_quotes ''content'' @ '':'' @ in_quotes (json_escape (om_content (oc_message c))) @ ''},'' @
     in_quotes ''finish_reason'' @ '':'' @ in_quotes (json_escape (oc_finish_reason c)) @ ''}''"

definition u32_to_string :: "u32 \<Rightarrow> string" where
  "u32_to_string w = nat_to_string (unat w)"

definition chat_to_json :: "ChatResponse \<Rightarrow> string" where
  "chat_to_json r = ''{'' @ in_quotes ''id'' @ '':'' @ in_quotes (json_escape (or_id r)) @ '','' @
     in_quotes ''object'' @ '':'' @ in_quotes ''chat.completion'' @ '','' @
     in_quotes ''created'' @ '':'' @ int_to_string (or_created r) @ '','' @
     in_quotes ''model'' @ '':'' @ in_quotes (json_escape (or_model r)) @ '','' @
     in_quotes ''usage'' @ '':{'' @ in_quotes ''prompt_tokens'' @ '':'' @ u32_to_string (or_prompt_tokens r) @ '','' @
     in_quotes ''completion_tokens'' @ '':'' @ u32_to_string (or_completion_tokens r) @ '','' @
     in_quotes ''total_tokens'' @ '':'' @ u32_to_string (or_total_tokens r) @ ''},'' @
     in_quotes ''choices'' @ '':['' @ join_commas (map choice_json (or_choices r)) @ '']}''"

subsection \<open>The server\<close>

record ServerStats =
  ss_requests_served :: u64
  ss_chat_completions :: u64
  ss_health_checks :: u64
  ss_model_lists :: u64
  ss_errors :: u64
  ss_history_requests :: u64
  ss_export_requests :: u64
  ss_clear_requests :: u64
  ss_stats_requests :: u64
  ss_start_time :: int

record InferenceServer =
  sv_model_dir :: string
  sv_registry :: ModelRegistry
  sv_balancer :: DeviceLoadBalancer
  sv_stats :: ServerStats
  sv_lcmd :: "MaintenanceDB option"
  sv_security :: "UserSecurity option"
  sv_node_id :: string
  sv_listen_fd :: int
  sv_running :: bool

definition new_server ::
  "int \<Rightarrow> (string \<times> bool) list \<Rightarrow> string \<Rightarrow> bool \<Rightarrow> bool \<Rightarrow> MaintenanceDB option \<Rightarrow> UserSecurity option \<Rightarrow> string \<Rightarrow> InferenceServer"
  where
  "new_server now entries dir gpu hailo lcmd us node_id =
     \<lparr>sv_model_dir = dir, sv_registry = new_registry entries dir, sv_balancer = new_balancer gpu hailo,
      sv_stats = \<lparr>ss_requests_served = 0, ss_chat_completions = 0, ss_health_checks = 0, ss_model_lists = 0, ss_errors = 0,
        ss_history_requests = 0, ss_export_requests = 0, ss_clear_requests = 0, ss_stats_requests = 0, ss_start_time = now\<rparr>,
      sv_lcmd = lcmd, sv_security = us, sv_node_id = (if node_id = [] then ''local'' else node_id), sv_listen_fd = - 1,
      sv_running = False\<rparr>"

text \<open>The files and the request the pipeline gets; its answer is the printed duration or an error text.\<close>

record PipelineFiles =
  pf_text_encoder :: string
  pf_unet :: string
  pf_vae_decoder :: string

record GenerationRequest =
  gn_prompt :: string
  gn_width :: u32
  gn_height :: u32
  gn_num_steps :: u32
  gn_guidance_scale :: float32
  gn_seed :: int

record sv_env =
  sn_clock :: int
  sn_time :: int
  sn_temp_dir :: string
  sn_export :: bool
  sn_timing :: "string \<times> string"
  sn_crypto :: crypto
  sn_pipeline :: "PipelineFiles \<Rightarrow> GenerationRequest \<Rightarrow> string + string"

definition sv_set_model_dir :: "(string \<times> bool) list \<Rightarrow> string \<Rightarrow> InferenceServer \<Rightarrow> InferenceServer" where
  "sv_set_model_dir entries dir s =
     s\<lparr>sv_model_dir := dir, sv_registry := set_model_dir entries dir (sv_registry s)\<rparr>"

definition refresh_utilization :: "monitor \<Rightarrow> monitor \<Rightarrow> InferenceServer \<Rightarrow> InferenceServer" where
  "refresh_utilization gpu hailo s = s\<lparr>sv_balancer := snd (pick_device gpu hailo (sv_balancer s))\<rparr>"

definition json_response :: "nat \<Rightarrow> string \<Rightarrow> HttpResponse" where
  "json_response c body = \<lparr>hp_status_code = c, hp_content_type = ''application/json'', hp_body = body,
     hp_close_connection = True\<rparr>"

definition error_json :: "string \<Rightarrow> string" where
  "error_json e = ''{'' @ in_quotes ''error'' @ '':'' @ in_quotes e @ ''}''"

definition error_with :: "string \<Rightarrow> string \<Rightarrow> string \<Rightarrow> string" where
  "error_with e k d = ''{'' @ in_quotes ''error'' @ '':'' @ in_quotes e @ '','' @ in_quotes k @ '':'' @ in_quotes d @ ''}''"

definition bool_json :: "bool \<Rightarrow> string" where
  "bool_json b = (if b then ''true'' else ''false'')"

definition newline :: string where "newline = [CHR 0x0A]"

fun join_lines :: "string list \<Rightarrow> string" where
  "join_lines [] = []"
| "join_lines [x] = x"
| "join_lines (x # y # ys) = x @ '','' @ newline @ join_lines (y # ys)"

definition history_row :: "InferenceRecord \<Rightarrow> string" where
  "history_row r = ''  {'' @ in_quotes ''inference_id'' @ '':'' @ in_quotes (ir_inference_id r) @ '','' @
     in_quotes ''timestamp'' @ '':'' @ in_quotes (ir_timestamp r) @ '','' @ in_quotes ''status'' @ '':'' @ in_quotes (ir_status r) @ '','' @
     in_quotes ''generation_time_ms'' @ '':'' @ in_quotes (ir_generation_time_ms r) @ '','' @
     in_quotes ''prompt'' @ '':'' @ in_quotes (take 120 (ir_prompt r)) @ ''}''"

definition handle_inference_history :: "sv_env \<Rightarrow> InferenceServer \<Rightarrow> HttpResponse \<times> InferenceServer" where
  "handle_inference_history ev s0 =
     (let s = s0\<lparr>sv_stats := (sv_stats s0)\<lparr>ss_history_requests := ss_history_requests (sv_stats s0) + 1\<rparr>\<rparr>
      in case sv_lcmd s of
           None \<Rightarrow> (json_response 503 (error_with ''inference_audit_unavailable'' ''reason''
                      ''no LocalMaintenanceDB configured on this server instance''), s)
         | Some db \<Rightarrow> (json_response 200 (''['' @ newline @
               join_lines (map history_row (query_inference_records 0 (sn_time ev + 86400) 100 db)) @ newline @ '']''), s))"

text \<open>The refusal of the second factor, if there is one, and the new state of the user security.  The two handlers
  differ only in the text for missing fields.\<close>

definition rbpc_gate :: "sv_env \<Rightarrow> string \<Rightarrow> string \<Rightarrow> InferenceServer \<Rightarrow> HttpResponse option \<times> InferenceServer" where
  "rbpc_gate ev missing body s = (case sv_security s of None \<Rightarrow> (None, s)
    | Some us \<Rightarrow>
        (let pin = json_get_str body ''pin''; memorable = json_get_str body ''word''
         in if pin = [] \<or> memorable = []
            then (Some (json_response 400 (error_with ''rbpc_required'' ''detail'' missing)), s)
            else (case verify_confirmation (sn_crypto ev) (sn_time ev) (sv_node_id s) pin memorable us of (r, us') \<Rightarrow>
                    let t = confirmation_text r;
                        burned = (if contains ''burned'' t \<or> contains ''LOCKED'' t then '','' @ in_quotes ''burned'' @ '':true'' else [])
                    in (if t = [] then None
                        else Some (json_response 403 (''{'' @ in_quotes ''error'' @ '':'' @ in_quotes ''rbpc_failed'' @ '','' @
                               in_quotes ''detail'' @ '':'' @ in_quotes t @ burned @ ''}'')),
                        s\<lparr>sv_security := Some us'\<rparr>))))"

definition escaped_quoted :: "string \<Rightarrow> string" where
  "escaped_quoted s = json_escape (in_quotes s)"

definition handle_inference_export :: "sv_env \<Rightarrow> HttpRequest \<Rightarrow> InferenceServer \<Rightarrow> HttpResponse \<times> InferenceServer" where
  "handle_inference_export ev req s0 =
     (let s = s0\<lparr>sv_stats := (sv_stats s0)\<lparr>ss_export_requests := ss_export_requests (sv_stats s0) + 1\<rparr>\<rparr>
      in case sv_lcmd s of
           None \<Rightarrow> (json_response 503 (error_with ''inference_audit_unavailable'' ''reason''
                      ''no LocalMaintenanceDB configured''), s)
         | Some db \<Rightarrow>
             (case rbpc_gate ev (''POST JSON body must contain '' @ escaped_quoted ''pin'' @ '' and '' @
                     escaped_quoted ''word'' @ '' for destructive export'') (hq_body req) s of
                (Some refusal, s1) \<Rightarrow> (refusal, s1)
              | (None, s1) \<Rightarrow>
                  (let path = dir_join (sn_temp_dir ev)
                                (''cerberus_inference_export_'' @ int_to_string (sn_clock ev div 1000000000) @ ''.json'')
                   in if \<not> sn_export ev
                      then (json_response 500 (error_with ''export_failed'' ''reason'' ''filesystem write error''), s1)
                      else (json_response 200 (''{'' @ in_quotes ''exported'' @ '':true,'' @ in_quotes ''format'' @ '':'' @
                              in_quotes ''json'' @ '','' @ in_quotes ''path'' @ '':'' @ in_quotes path @ '','' @
                              in_quotes ''rbpc_enforced'' @ '':'' @ bool_json (sv_security s1 \<noteq> None) @ ''}''), s1))))"

definition handle_inference_clear :: "sv_env \<Rightarrow> HttpRequest \<Rightarrow> InferenceServer \<Rightarrow> HttpResponse \<times> InferenceServer" where
  "handle_inference_clear ev req s0 =
     (let s = s0\<lparr>sv_stats := (sv_stats s0)\<lparr>ss_clear_requests := ss_clear_requests (sv_stats s0) + 1\<rparr>\<rparr>
      in case sv_lcmd s of
           None \<Rightarrow> (json_response 503 (error_json ''inference_audit_unavailable''), s)
         | Some db \<Rightarrow>
             (case rbpc_gate ev ''both pin and word required for clear'' (hq_body req) s of
                (Some refusal, s1) \<Rightarrow> (refusal, s1)
              | (None, s1) \<Rightarrow>
                  (let before = (case smap_find (inference_stats (sn_timing ev) db) ''count'' of
                                   None \<Rightarrow> 0
                                 | Some v \<Rightarrow> (case stoull v of None \<Rightarrow> 0 | Some n \<Rightarrow> n));
                       (cleared, db') = clear_inference_records db
                   in (json_response 200 (''{'' @ in_quotes ''cleared'' @ '':'' @ bool_json cleared @ '','' @
                         in_quotes ''records_before'' @ '':'' @ nat_to_string (unat before) @ ''}''),
                       s1\<lparr>sv_lcmd := Some db'\<rparr>))))"

definition handle_inference_stats :: "sv_env \<Rightarrow> InferenceServer \<Rightarrow> HttpResponse \<times> InferenceServer" where
  "handle_inference_stats ev s0 =
     (let s = s0\<lparr>sv_stats := (sv_stats s0)\<lparr>ss_stats_requests := ss_stats_requests (sv_stats s0) + 1\<rparr>\<rparr>
      in case sv_lcmd s of
           None \<Rightarrow> (json_response 503 (error_json ''inference_audit_unavailable''), s)
         | Some db \<Rightarrow> (json_response 200 (''{'' @
               join_commas (map (\<lambda>(k, v). in_quotes k @ '':'' @ in_quotes v) (inference_stats (sn_timing ev) db)) @ '','' @
               in_quotes ''rbpc_configured'' @ '':'' @ bool_json (sv_security s \<noteq> None) @ ''}''), s))"

definition handle_health :: "sv_env \<Rightarrow> InferenceServer \<Rightarrow> HttpResponse \<times> InferenceServer" where
  "handle_health ev s0 =
     (let s = s0\<lparr>sv_stats := (sv_stats s0)\<lparr>ss_health_checks := ss_health_checks (sv_stats s0) + 1\<rparr>\<rparr>
      in (json_response 200 (''{'' @ in_quotes ''status'' @ '':'' @ in_quotes ''ok'' @ '','' @
            in_quotes ''uptime_seconds'' @ '':'' @ int_to_string ((sn_clock ev - ss_start_time (sv_stats s)) div 1000000000) @ '','' @
            in_quotes ''requests_served'' @ '':'' @ nat_to_string (unat (ss_requests_served (sv_stats s))) @ '','' @
            in_quotes ''gpu_util'' @ '':'' @ format_1f (lb_gpu_util (sv_balancer s)) @ '','' @
            in_quotes ''npu_util'' @ '':'' @ format_1f (lb_hailo_util (sv_balancer s)) @ ''}''), s))"

definition handle_list_models :: "InferenceServer \<Rightarrow> HttpResponse \<times> InferenceServer" where
  "handle_list_models s0 =
     (let s = s0\<lparr>sv_stats := (sv_stats s0)\<lparr>ss_model_lists := ss_model_lists (sv_stats s0) + 1\<rparr>\<rparr>
      in (json_response 200 (list_models_json (sv_registry s)), s))"

text \<open>The last user message; the last message when there is none.\<close>

definition prompt_of :: "OpenAIMessage list \<Rightarrow> string" where
  "prompt_of ms =
     (let p = foldl (\<lambda>p x. if om_role x = ''user'' then om_content x else p) [] ms
      in if p = [] \<and> ms \<noteq> [] then om_content (last ms) else p)"

definition pipeline_files :: "string \<Rightarrow> PipelineFiles" where
  "pipeline_files dir =
     (if dir = [] then \<lparr>pf_text_encoder = [], pf_unet = [], pf_vae_decoder = []\<rparr>
      else \<lparr>pf_text_encoder = dir_join dir ''text_encoder.onnx'', pf_unet = dir_join dir ''unet.onnx'',
            pf_vae_decoder = dir_join dir ''vae_decoder.onnx''\<rparr>)"

definition run_inference :: "sv_env \<Rightarrow> string \<Rightarrow> ChatRequest \<Rightarrow> string + string" where
  "run_inference ev dir q =
     (let prompt = prompt_of (oq_messages q)
      in case sn_pipeline ev (pipeline_files dir)
               \<lparr>gn_prompt = prompt, gn_width = 512, gn_height = 512, gn_num_steps = min (oq_max_tokens q) 128,
                gn_guidance_scale = f_clamp (oq_temperature q) (f_round (1 / 10)) (F_Fin 2), gn_seed = oq_seed q\<rparr> of
           Inl e \<Rightarrow> Inl e
         | Inr ms \<Rightarrow> Inr (''[Cerberus: '' @ take 80 prompt @ '' ('' @ ms @ ''ms)]''))"

definition prompt_tokens :: "OpenAIMessage list \<Rightarrow> u32" where
  "prompt_tokens ms = (if ms = [] then 0 else of_nat (length (om_content (last ms)) div 4 + 1))"

definition handle_chat_completions :: "sv_env \<Rightarrow> HttpRequest \<Rightarrow> InferenceServer \<Rightarrow> HttpResponse \<times> InferenceServer" where
  "handle_chat_completions ev req s0 =
     (let s = s0\<lparr>sv_stats := (sv_stats s0)\<lparr>ss_chat_completions := ss_chat_completions (sv_stats s0) + 1\<rparr>\<rparr>
      in case from_json (hq_body req) of
           None \<Rightarrow> (json_response 400 (''{'' @ in_quotes ''error'' @ '':{'' @ in_quotes ''message'' @ '':'' @
                      in_quotes ''invalid_request'' @ ''}}''),
                    s\<lparr>sv_stats := (sv_stats s)\<lparr>ss_errors := ss_errors (sv_stats s) + 1\<rparr>\<rparr>)
         | Some q \<Rightarrow>
             (let content = (case run_inference ev (sv_model_dir s) q of Inr c \<Rightarrow> c | Inl e \<Rightarrow> ''[error: '' @ e @ '']'');
                  n = prompt_tokens (oq_messages q)
              in (json_response 200 (chat_to_json
                    \<lparr>or_id = ''chatcmpl-'' @ nat_to_string (unat (ss_chat_completions (sv_stats s))),
                     or_created = sn_time ev, or_model = (if oq_model q = [] then ''cerberus-v1'' else oq_model q),
                     or_choices = [\<lparr>oc_index = 0, oc_message = \<lparr>om_role = ''assistant'', om_content = content\<rparr>,
                                    oc_finish_reason = ''stop''\<rparr>],
                     or_prompt_tokens = n, or_completion_tokens = 64, or_total_tokens = n + 64\<rparr>), s)))"

definition sv_dispatch :: "sv_env \<Rightarrow> HttpRequest \<Rightarrow> InferenceServer \<Rightarrow> HttpResponse \<times> InferenceServer" where
  "sv_dispatch ev req s =
     (let me = hq_method req; pa = hq_path req
      in if me = GET \<and> pa = ''/health'' then handle_health ev s
         else if me = GET \<and> pa = ''/v1/models'' then handle_list_models s
         else if me = POST \<and> pa = ''/v1/chat/completions'' then handle_chat_completions ev req s
         else if me = POST \<and> pa = ''/v1/inference/history'' then handle_inference_history ev s
         else if me = POST \<and> pa = ''/v1/inference/export'' then handle_inference_export ev req s
         else if me = POST \<and> pa = ''/v1/inference/clear'' then handle_inference_clear ev req s
         else if me = GET \<and> pa = ''/v1/inference/stats'' then handle_inference_stats ev s
         else if me = OPTIONS then (json_response 200 ''{}'', s)
         else (json_response 404 (error_json ''not_found''), s))"

subsection \<open>Connections\<close>

definition RECV_BUF_SIZE :: nat where "RECV_BUF_SIZE = 65536"

text \<open>One accepted connection; \<open>data\<close> is what the client has sent when \<^verbatim>\<open>recv\<close> is called, of which one call takes at
  most the buffer.  No answer is sent when there is nothing to read.\<close>

definition serve :: "sv_env \<Rightarrow> string \<Rightarrow> InferenceServer \<Rightarrow> string option \<times> InferenceServer" where
  "serve ev data s0 =
     (let s = s0\<lparr>sv_stats := (sv_stats s0)\<lparr>ss_requests_served := ss_requests_served (sv_stats s0) + 1\<rparr>\<rparr>;
          got = take (RECV_BUF_SIZE - 1) data
      in if got = [] then (None, s)
         else case fst (feed got new_parser) of
                Some req \<Rightarrow> (case sv_dispatch ev req s of (r, s1) \<Rightarrow> (Some (render r), s1))
              | None \<Rightarrow> (Some (render (json_response 400 (error_json ''bad_request''))),
                         s\<lparr>sv_stats := (sv_stats s)\<lparr>ss_errors := ss_errors (sv_stats s) + 1\<rparr>\<rparr>))"

definition close_listen :: "InferenceServer \<Rightarrow> InferenceServer" where
  "close_listen s = s\<lparr>sv_listen_fd := - 1\<rparr>"

definition stop_server :: "InferenceServer \<Rightarrow> InferenceServer" where
  "stop_server s = close_listen (s\<lparr>sv_running := False\<rparr>)"

datatype sv_event = Ev_Client sv_env string | Ev_Interrupted | Ev_BadSocket | Ev_AcceptError | Ev_Stop

fun accept_loop :: "sv_event list \<Rightarrow> InferenceServer \<Rightarrow> string option list \<times> InferenceServer" where
  "accept_loop [] s = ([], s)"
| "accept_loop (e # es) s =
     (if \<not> sv_running s then ([], s)
      else case e of
             Ev_Client ev data \<Rightarrow>
               (case serve ev data s of (r, s1) \<Rightarrow> case accept_loop es s1 of (rs, s2) \<Rightarrow> (r # rs, s2))
           | Ev_Interrupted \<Rightarrow> accept_loop es s
           | Ev_BadSocket \<Rightarrow> ([], s)
           | Ev_AcceptError \<Rightarrow> accept_loop es s
           | Ev_Stop \<Rightarrow> accept_loop es (stop_server s))"

text \<open>The outcomes of the system calls of \<^verbatim>\<open>start\<close>, in order: the socket descriptor, the address, bind and listen.\<close>

definition start_server ::
  "int \<times> bool \<times> bool \<times> bool \<Rightarrow> monitor \<Rightarrow> monitor \<Rightarrow> sv_event list \<Rightarrow> InferenceServer \<Rightarrow> int \<times> string option list \<times> InferenceServer"
  where
  "start_server sys gpu hailo es s0 = (case sys of (fd, addr_ok, bind_ok, listen_ok) \<Rightarrow>
     let s = s0\<lparr>sv_listen_fd := fd\<rparr>
     in if fd < 0 then (1, [], s)
        else if \<not> addr_ok \<or> \<not> bind_ok \<or> \<not> listen_ok then (1, [], close_listen s)
        else case accept_loop es (refresh_utilization gpu hailo (s\<lparr>sv_running := True\<rparr>)) of
               (rs, s1) \<Rightarrow> (0, rs, close_listen s1))"

end
