(* ===== verification/Http_Props.thy ===== *)
theory Http_Props
  imports Http_Parser
begin

text \<open>
  Properties of the request parser: the way the bytes of a request without chunked coding are cut into pieces does not
  matter, a printed request is read back, and the string escape can be undone.
\<close>

subsection \<open>Pieces\<close>

lemma find_prefix_append: "find_prefix n s = Some i \<Longrightarrow> find_prefix n (s @ t) = Some i"
proof (induction n s arbitrary: i rule: find_prefix.induct)
  case (1 n)
  then show ?case
    by (cases t) (auto split: if_splits)
next
  case (2 n c s)
  show ?case
  proof (cases "take (length n) (c # s) = n")
    case True
    then have "length n \<le> length (c # s)"
      by (metis length_take min.cobounded1)
    then have "take (length n) (c # s @ t) = take (length n) (c # s)"
      by (cases n) (simp_all add: take_append)
    with True 2 show ?thesis
      by (simp del: take_Cons)
  next
    case False
    with 2 obtain j where j: "find_prefix n s = Some j" "i = Suc j"
      by auto
    have "length n \<le> length s - j"
      using find_prefix_SomeD [OF j(1)] by (metis length_drop length_take min.cobounded1)
    then have "take (length n) (c # s @ t) = take (length n) (c # s)"
      by (cases n) (simp_all add: take_append)
    with False j 2(1) show ?thesis
      by auto
  qed
qed

lemma find_crlf:
  assumes "find_str crlf s 0 = Some i"
  shows "find_str crlf (s @ t) 0 = Some i" and "i + 2 \<le> length s"
proof -
  have f: "find_prefix crlf s = Some i"
    using assms by (simp add: find_str_def crlf_def option.map_ident)
  show "find_str crlf (s @ t) 0 = Some i"
    using find_prefix_append [OF f] by (simp add: find_str_def)
  have "take (length crlf) (drop i s) = crlf"
    using find_prefix_SomeD [OF f] by simp
  then have "length crlf \<le> length (drop i s)"
    by (metis length_take min.cobounded1)
  then show "i + 2 \<le> length s"
    by (simp add: crlf_def)
qed

lemma find_crlf_hit: "CHR 0x0D \<notin> set xs \<Longrightarrow> find_str crlf (xs @ crlf @ ys) 0 = Some (length xs)"
  by (simp add: find_str_def crlf_def find_prefix_skip)

lemma parse_line_buffer [simp]:
  "parse_line l (p\<lparr>ps_buffer := x\<rparr>) = (parse_line l p)\<lparr>ps_buffer := x\<rparr>"
  by (simp add: parse_line_def method_line_def end_of_headers_def header_line_def Let_def split: option.splits)

lemma parse_line_wants [simp]: "ps_wants_more (parse_line l p) = ps_wants_more p"
  by (simp add: parse_line_def method_line_def end_of_headers_def header_line_def Let_def split: option.splits)

lemma parse_loop_append:
  "ps_wants_more p \<Longrightarrow> parse_loop p = (None, p') \<Longrightarrow> ps_wants_more p' \<and>
     parse_loop (p\<lparr>ps_buffer := ps_buffer p @ b\<rparr>) = parse_loop (p'\<lparr>ps_buffer := ps_buffer p' @ b\<rparr>)"
proof (induction p rule: parse_loop.induct)
  case (1 p)
  have same: "p' = p \<Longrightarrow> ?case"
    using 1(2) by simp
  have more: "want_more p = (None, p') \<Longrightarrow> p' = p"
    using 1(2) by (auto simp: want_more_def)
  consider (line) "ps_state p = METHOD_LINE \<or> ps_state p = HEADERS" | (body) "ps_state p = BODY"
    | (finished) "ps_state p = PARSE_DONE" | (error) "ps_state p = ParseError"
    by (cases "ps_state p") auto
  then show ?case
  proof cases
    case line
    show ?thesis
    proof (cases "find_str crlf (ps_buffer p) 0")
      case None
      with line 1(3) same more show ?thesis
        by (simp add: parse_loop.simps [of p])
    next
      case (Some pos)
      define p1 where "p1 = (parse_line (take pos (ps_buffer p)) p)\<lparr>ps_buffer := drop (pos + 2) (ps_buffer p)\<rparr>"
      define q1 where "q1 = p1\<lparr>ps_buffer := ps_buffer p1 @ b\<rparr>"
      note pos = find_crlf [OF Some]
      have q: "parse_loop (p\<lparr>ps_buffer := ps_buffer p @ b\<rparr>) =
          (if ps_state q1 = ParseError then (None, q1) else parse_loop q1)"
        using line pos by (subst parse_loop.simps) (auto simp: p1_def q1_def Let_def)
      have p: "(if ps_state p1 = ParseError then (None, p1) else parse_loop p1) = (None, p')"
        using line Some 1(3) by (subst (asm) parse_loop.simps) (auto simp: p1_def Let_def)
      show ?thesis
      proof (cases "ps_state p1 = ParseError")
        case True
        with p have "p1 = p'"
          by simp
        moreover have "parse_loop q1 = (None, q1)"
          using True by (subst parse_loop.simps) (simp add: q1_def)
        moreover have "ps_wants_more p1"
          using 1(2) by (simp add: p1_def)
        ultimately show ?thesis
          using True q by (simp add: q1_def)
      next
        case False
        have "ps_wants_more p' \<and> parse_loop (p1\<lparr>ps_buffer := ps_buffer p1 @ b\<rparr>) = parse_loop (p'\<lparr>ps_buffer := ps_buffer p' @ b\<rparr>)"
          using line Some False p 1(2) by (intro 1(1) [OF line Some p1_def]) (simp_all add: p1_def)
        with False q show ?thesis
          by (simp add: q1_def)
      qed
    qed
  next
    case body
    with 1(3) same more show ?thesis
      by (simp add: parse_loop.simps [of p] hand_out_def split: if_splits)
  next
    case finished
    with 1(3) show ?thesis
      by (simp add: parse_loop.simps [of p] hand_out_def)
  next
    case error
    with 1(3) same show ?thesis
      by (simp add: parse_loop.simps [of p])
  qed
qed

lemma feed_append:
  assumes "ps_wants_more p" and "feed a p = (None, p')"
  shows "feed (a @ b) p = feed b p'"
  using parse_loop_append [of "p\<lparr>ps_buffer := ps_buffer p @ a\<rparr>" p' b] assms by (simp add: feed_def)

lemma feed_None_wants: "ps_wants_more p \<Longrightarrow> feed a p = (None, p') \<Longrightarrow> ps_wants_more p'"
  using parse_loop_append [of "p\<lparr>ps_buffer := ps_buffer p @ a\<rparr>" p'] by (simp add: feed_def)

text \<open>A connection that delivers pieces until a request is complete.\<close>

fun feed_many :: "string list \<Rightarrow> SimpleHttpParser \<Rightarrow> HttpRequest option \<times> SimpleHttpParser" where
  "feed_many [] p = (None, p)"
| "feed_many (d # ds) p = (case feed d p of (None, p') \<Rightarrow> feed_many ds p' | (Some r, p') \<Rightarrow> (Some r, p'))"

text \<open>More bytes behind a complete request change nothing but the buffer, unless its body is chunked.\<close>

lemma parse_loop_extend:
  "parse_loop p = (Some r, p') \<Longrightarrow> q = p\<lparr>ps_buffer := ps_buffer p @ b\<rparr> \<Longrightarrow>
     (if ps_chunked p' then ps_chunked (snd (parse_loop q))
      else parse_loop q = (Some r, p'\<lparr>ps_buffer := ps_buffer p' @ b\<rparr>))"
proof (induction p arbitrary: q rule: parse_loop.induct)
  case (1 p)
  consider (line) "ps_state p = METHOD_LINE \<or> ps_state p = HEADERS" | (body) "ps_state p = BODY"
    | (finished) "ps_state p = PARSE_DONE" | (error) "ps_state p = ParseError"
    by (cases "ps_state p") auto
  then show ?case
  proof cases
    case line
    then obtain pos where pos: "find_str crlf (ps_buffer p) 0 = Some pos"
      using 1(2) by (subst (asm) parse_loop.simps) (auto simp: want_more_def split: option.splits)
    define p1 where "p1 = (parse_line (take pos (ps_buffer p)) p)\<lparr>ps_buffer := drop (pos + 2) (ps_buffer p)\<rparr>"
    define q1 where "q1 = p1\<lparr>ps_buffer := ps_buffer p1 @ b\<rparr>"
    have ok: "ps_state p1 \<noteq> ParseError" and run: "parse_loop p1 = (Some r, p')"
      using line pos 1(2) by (subst (asm) parse_loop.simps; auto simp: p1_def Let_def split: if_splits)+
    have "parse_loop q = parse_loop q1"
      using line find_crlf [OF pos] ok 1(3) by (subst parse_loop.simps) (auto simp: p1_def q1_def Let_def)
    then show ?thesis
      using 1(1) [OF line pos p1_def ok run q1_def] by simp
  next
    case body
    show ?thesis
    proof (cases "ps_chunked p")
      case True
      then show ?thesis
        using body 1(2,3) by (auto simp: parse_loop.simps [of p] parse_loop.simps [of "p\<lparr>ps_buffer := ps_buffer p @ b\<rparr>"] hand_out_def take_body_def)
    next
      case False
      then have n: "uint (ps_body_expected p) \<le> int (length (ps_buffer p))"
        using body 1(2) by (auto simp: parse_loop.simps [of p] want_more_def split: if_splits)
      then have "unat (ps_body_expected p) \<le> length (ps_buffer p)"
        by (metis uint_nat of_nat_le_iff)
      with n False body show ?thesis
        using 1(2,3)
        by (auto simp: parse_loop.simps [of p] parse_loop.simps [of "p\<lparr>ps_buffer := ps_buffer p @ b\<rparr>"]
            hand_out_def take_body_def)
    qed
  next
    case finished
    then show ?thesis
      using 1(2,3) by (auto simp: parse_loop.simps [of p] parse_loop.simps [of "p\<lparr>ps_buffer := ps_buffer p @ b\<rparr>"] hand_out_def)
  next
    case error
    then show ?thesis
      using 1(2) by (simp add: parse_loop.simps [of p])
  qed
qed

lemma feed_extend:
  assumes "feed a p = (Some r, p')" and "\<not> ps_chunked (snd (feed (a @ b) p))"
  shows "feed (a @ b) p = (Some r, p'\<lparr>ps_buffer := ps_buffer p' @ b\<rparr>)"
  using parse_loop_extend [of "p\<lparr>ps_buffer := ps_buffer p @ a\<rparr>" r p' _ b] assms
  by (auto simp: feed_def split: if_splits)

text \<open>C29. For requests without chunked coding the HTTP parser does not depend on how the bytes are cut.  Whatever one
  call on all the bytes returns (a request, an error or a wait), feeding the same bytes piece by piece until a request
  is complete returns the same; a wait or an error uses up all pieces and ends in the same parser, and a request is
  returned after some number of pieces, in the same parser but for the bytes of the pieces not read, which are not yet
  in the buffer.\<close>

theorem feed_chunk_independent:
  assumes "wants_more p" and "ds \<noteq> []" and "feed (concat ds) p = (res, p1)" and "\<not> ps_chunked p1"
  shows "\<exists>k p2. feed_many ds p = (res, p2) \<and> k \<le> length ds \<and> (res = None \<longrightarrow> k = length ds) \<and>
    p1 = p2\<lparr>ps_buffer := ps_buffer p2 @ concat (drop k ds)\<rparr>"
  using assms
proof (induction ds arbitrary: p)
  case (Cons d ds)
  show ?case
  proof (cases "feed d p")
    case (Pair x p')
    show ?thesis
    proof (cases x)
      case (Some r)
      have "feed (d @ concat ds) p = (Some r, p'\<lparr>ps_buffer := ps_buffer p' @ concat ds\<rparr>)"
        using feed_extend [of d p r p' "concat ds"] Pair Some Cons.prems by simp
      then show ?thesis
        using Pair Some Cons.prems(3) by (intro exI [of _ 1] exI [of _ p']) auto
    next
      case None
      then have p': "feed d p = (None, p')" "wants_more p'" "feed (concat (d # ds)) p = feed (concat ds) p'"
        using Pair feed_append [of p d p' "concat ds"] feed_None_wants [of p d p'] Cons.prems(1)
        by (simp_all add: wants_more_def)
      show ?thesis
      proof (cases "ds = []")
        case True
        then show ?thesis
          using p'(1) Cons.prems(3) by (intro exI [of _ 1] exI [of _ p']) auto
      next
        case False
        obtain k p2 where "feed_many ds p' = (res, p2)" "k \<le> length ds" "res = None \<longrightarrow> k = length ds"
          "p1 = p2\<lparr>ps_buffer := ps_buffer p2 @ concat (drop k ds)\<rparr>"
          using Cons.IH [OF p'(2) False] Cons.prems(3,4) p'(3) by auto
        then show ?thesis
          using p'(1) by (intro exI [of _ "Suc k"] exI [of _ p2]) simp
      qed
    qed
  qed
qed simp

theorem feed_chunk_independent_witness:
  "fst (feed_many [''GET /hea'', ''lth HTTP/1.1'' @ [CHR 0x0D], [CHR 0x0A] @ crlf @ ''GE'', ''T /'' ] new_parser) =
     fst (feed (''GET /health HTTP/1.1'' @ crlf @ crlf @ ''GET /'') new_parser) \<and>
   map_option hq_path (fst (feed (''GET /health HTTP/1.1'' @ crlf @ crlf @ ''GET /'') new_parser)) = Some ''/health''"
proof -
  let ?ds = "[''GET /hea'', ''lth HTTP/1.1'' @ [CHR 0x0D], [CHR 0x0A] @ crlf @ ''GE'', ''T /'' ]"
  let ?all = "''GET /health HTTP/1.1'' @ crlf @ crlf @ ''GET /''"
  have cat: "concat ?ds = ?all"
    by (simp add: crlf_def)
  have w: "wants_more new_parser" and plain: "\<not> ps_chunked (snd (feed ?all new_parser))"
    and path: "map_option hq_path (fst (feed ?all new_parser)) = Some ''/health''"
    by code_simp+
  have "feed (concat ?ds) new_parser = (fst (feed ?all new_parser), snd (feed ?all new_parser))"
    unfolding cat by simp
  from feed_chunk_independent [OF w _ this plain] path show ?thesis
    by auto
qed

subsection \<open>Printing and reading a request\<close>

fun method_text :: "HttpMethod \<Rightarrow> string" where
  "method_text GET = ''GET''"
| "method_text POST = ''POST''"
| "method_text OPTIONS = ''OPTIONS''"
| "method_text UNKNOWN = ''UNKNOWN''"

definition header_text :: "string \<times> string \<Rightarrow> string" where
  "header_text h = fst h @ '': '' @ snd h @ crlf"

definition length_header :: "string \<Rightarrow> string \<times> string" where
  "length_header body = (''Content-Length'', nat_to_string (length body))"

definition request_text :: "HttpMethod \<Rightarrow> string \<Rightarrow> (string \<times> string) list \<Rightarrow> string \<Rightarrow> string" where
  "request_text me path hs body = method_text me @ '' '' @ path @ '' HTTP/1.1'' @ crlf @
     concat (map header_text (hs @ [length_header body])) @ crlf @ body"

definition header_ok :: "string \<times> string \<Rightarrow> bool" where
  "header_ok h \<longleftrightarrow> (case h of (k, v) \<Rightarrow> CHR 0x0D \<notin> set k \<and> CHR '':'' \<notin> set k \<and> CHR 0x0D \<notin> set v \<and> v \<noteq> [] \<and> \<not> is_blank_tab (hd v))"

definition path_ok :: "string \<Rightarrow> bool" where
  "path_ok path \<longleftrightarrow> CHR 0x0D \<notin> set path \<and> CHR '' '' \<notin> set path"

definition read_headers :: "(string \<times> string) list \<Rightarrow> (string, string) smap" where
  "read_headers hs = foldl (\<lambda>m (k, v). smap_put (map ascii_lower k) v m) [] hs"

lemma find_char_skip: "i = length xs \<Longrightarrow> c \<notin> set ys \<Longrightarrow> find_char c (xs @ ys @ c # zs) i = Some (i + length ys)"
  by (auto simp: find_char_def intro!: find_first_hit)

lemma parse_loop_line:
  assumes "ps_state p = METHOD_LINE \<or> ps_state p = HEADERS" and "ps_buffer p = l @ crlf @ r" and "CHR 0x0D \<notin> set l"
    and "ps_state (parse_line l p) \<noteq> ParseError"
  shows "parse_loop p = parse_loop ((parse_line l p)\<lparr>ps_buffer := r\<rparr>)"
proof -
  have "find_str crlf (ps_buffer p) 0 = Some (length l)"
    using assms(2,3) by (simp add: find_crlf_hit)
  with assms show ?thesis
    by (subst parse_loop.simps) (simp add: Let_def crlf_def)
qed

lemma method_line_text:
  assumes "me \<noteq> UNKNOWN" and "path_ok path"
  shows "method_line (method_text me @ '' '' @ path @ '' HTTP/1.1'') p =
     p\<lparr>ps_current := (ps_current p)\<lparr>hq_method := me, hq_path := path\<rparr>, ps_state := HEADERS\<rparr>"
proof -
  let ?l = "method_text me @ '' '' @ path @ '' HTTP/1.1''"
  have 1: "find_char (CHR '' '') ?l 0 = Some (length (method_text me))"
    using find_char_hit [of "CHR '' ''" "method_text me" "path @ '' HTTP/1.1''"] by (cases me) simp_all
  have 2: "find_char (CHR '' '') ?l (length (method_text me) + 1) = Some (length (method_text me) + 1 + length path)"
    using find_char_skip [of _ "method_text me @ '' ''" "CHR '' ''" path "''HTTP/1.1''"] assms(2)
    by (simp add: path_ok_def)
  have 3: "parse_method (method_text me) = me"
    using assms(1) by (cases me) (simp_all add: parse_method_def)
  show ?thesis
    unfolding method_line_def 1 using 2 3 by simp
qed

lemma header_value_ok: "v \<noteq> [] \<Longrightarrow> \<not> is_blank_tab (hd v) \<Longrightarrow> header_value (CHR '' '' # v) = v"
  by (cases v) (auto simp: header_value_def is_blank_tab_def)

lemma header_line_text:
  assumes "header_ok (k, v)"
  shows "header_line (k @ '': '' @ v) p =
     p\<lparr>ps_current := (ps_current p)\<lparr>hq_headers := smap_put (map ascii_lower k) v (hq_headers (ps_current p))\<rparr>\<rparr>"
proof -
  have "find_char (CHR '':'') (k @ '': '' @ v) 0 = Some (length k)"
    using find_char_hit [of "CHR '':''" k "CHR '' '' # v"] assms by (simp add: header_ok_def)
  with assms show ?thesis
    by (simp add: header_line_def header_value_ok header_ok_def)
qed

lemma parse_loop_headers:
  "\<forall>h \<in> set hs. header_ok h \<Longrightarrow> ps_state p = HEADERS \<Longrightarrow> ps_buffer p = concat (map header_text hs) @ r \<Longrightarrow>
     parse_loop p = parse_loop (p\<lparr>ps_current := (ps_current p)\<lparr>hq_headers :=
       foldl (\<lambda>m (k, v). smap_put (map ascii_lower k) v m) (hq_headers (ps_current p)) hs\<rparr>, ps_buffer := r\<rparr>)"
proof (induction hs arbitrary: p)
  case Nil
  then have "p\<lparr>ps_buffer := r\<rparr> = p"
    by (cases p) simp
  then show ?case
    by simp
next
  case (Cons h hs)
  obtain k v where h: "h = (k, v)"
    by (cases h)
  have ok: "header_ok (k, v)"
    using Cons.prems(1) h by simp
  define q where "q = p\<lparr>ps_current := (ps_current p)\<lparr>hq_headers := smap_put (map ascii_lower k) v (hq_headers (ps_current p))\<rparr>\<rparr>"
  have pl: "parse_line (k @ '': '' @ v) p = q"
    using Cons.prems(2) by (simp add: parse_line_def header_line_text [OF ok, simplified] q_def)
  have "parse_loop p = parse_loop (q\<lparr>ps_buffer := concat (map header_text hs) @ r\<rparr>)"
  proof -
    have b: "ps_buffer p = (k @ '': '' @ v) @ crlf @ concat (map header_text hs) @ r"
      using Cons.prems(3) by (simp add: h header_text_def [of "(k, v)"])
    have cr: "CHR 0x0D \<notin> set (k @ '': '' @ v)"
      using ok by (simp add: header_ok_def)
    show ?thesis
      using parse_loop_line [OF _ b cr] Cons.prems(2) pl by (simp add: q_def)
  qed
  also have "\<dots> = parse_loop (p\<lparr>ps_current := (ps_current p)\<lparr>hq_headers :=
       foldl (\<lambda>m (k, v). smap_put (map ascii_lower k) v m) (hq_headers (ps_current p)) (h # hs)\<rparr>, ps_buffer := r\<rparr>)"
    using Cons.prems by (subst Cons.IH) (simp_all add: q_def h)
  finally show ?case .
qed

lemma strtoul_nat: "n < 2 ^ 64 \<Longrightarrow> strtoul (nat_to_string n) = of_nat n"
  using strto_dec_digits(1) [of "nat_to_string n" "[]"] nat_to_string_digits [of n] by (simp add: strtoul_def)

lemma digit_plain: "is_digit c \<Longrightarrow> c \<noteq> CHR 0x0D \<and> \<not> is_blank_tab c"
  by (auto simp: is_digit_def is_blank_tab_def)

lemma length_header_ok: "header_ok (length_header body)"
proof -
  have "hd (nat_to_string (length body)) \<in> set (nat_to_string (length body))"
    by (rule hd_in_set) simp
  then show ?thesis
    using nat_to_string_digits [of "length body"] digit_plain by (auto simp: header_ok_def length_header_def)
qed

lemma lower_length: "map ascii_lower ''Content-Length'' = ''content-length''"
  by code_simp

lemma read_headers_length:
  "smap_get [] (read_headers (hs @ [length_header body])) ''content-length'' = nat_to_string (length body)"
  unfolding read_headers_def length_header_def foldl_append foldl.simps split lower_length
  by (simp add: smap_get_def)

lemma parse_loop_body:
  assumes "ps_state p = HEADERS" and "\<not> ps_chunked p" and "hq_body (ps_current p) = []"
    and "get_header (ps_current p) ''content-length'' = nat_to_string (length body)"
    and "ps_buffer p = crlf @ body @ rest" and "length body < 2 ^ 64"
  shows "fst (parse_loop p) = Some ((ps_current p)\<lparr>hq_body := body\<rparr>) \<and> ps_buffer (snd (parse_loop p)) = rest"
proof -
  define q where "q = p\<lparr>ps_body_expected := of_nat (length body),
    ps_state := (if 0 < (of_nat (length body) :: u64) then BODY else PARSE_DONE), ps_buffer := body @ rest\<rparr>"
  have u: "unat (of_nat (length body) :: u64) = length body"
    using assms(6) by (simp add: unat_of_nat take_bit_nat_eq_self)
  have ui: "uint (of_nat (length body) :: u64) = int (length body)"
    using u by (simp add: uint_nat)
  have z: "(0 < (of_nat (length body) :: u64)) = (body \<noteq> [])"
    using u by (metis length_greater_0_conv unat_0 word_gt_0 unat_eq_zero length_0_conv)
  have e: "(parse_line [] p)\<lparr>ps_buffer := body @ rest\<rparr> = q"
    using assms by (simp add: parse_line_def end_of_headers_def q_def Let_def strtoul_nat)
  have "parse_loop p = parse_loop ((parse_line [] p)\<lparr>ps_buffer := body @ rest\<rparr>)"
    by (rule parse_loop_line) (use assms e in \<open>auto simp: q_def parse_line_def end_of_headers_def Let_def\<close>)
  then have p: "parse_loop p = parse_loop q"
    using e by simp
  show ?thesis
    unfolding p using assms u ui z
    by (subst parse_loop.simps, subst (2) parse_loop.simps)
       (auto simp: q_def hand_out_def take_body_def)
qed

lemma feed_request:
  assumes "me \<noteq> UNKNOWN" and "path_ok path" and "\<forall>h \<in> set hs. header_ok h" and "length body < 2 ^ 64"
  shows "fst (feed (request_text me path hs body @ rest) new_parser) =
       Some \<lparr>hq_method = me, hq_path = path, hq_body = body, hq_headers = read_headers (hs @ [length_header body])\<rparr> \<and>
     ps_buffer (snd (feed (request_text me path hs body @ rest) new_parser)) = rest"
proof -
  let ?l = "method_text me @ '' '' @ path @ '' HTTP/1.1''"
  let ?hs = "hs @ [length_header body]"
  let ?r = "concat (map header_text ?hs) @ crlf @ body @ rest"
  define p where "p = new_parser\<lparr>ps_buffer := ?l @ crlf @ ?r\<rparr>"
  define p1 where "p1 = p\<lparr>ps_current := (ps_current p)\<lparr>hq_method := me, hq_path := path\<rparr>, ps_state := HEADERS,
    ps_buffer := ?r\<rparr>"
  define p2 where "p2 = p1\<lparr>ps_current := (ps_current p1)\<lparr>hq_headers := read_headers ?hs\<rparr>, ps_buffer := crlf @ body @ rest\<rparr>"
  have f: "feed (request_text me path hs body @ rest) new_parser = parse_loop p"
    by (simp add: feed_def request_text_def p_def new_parser_def)
  have pl: "parse_line ?l p = p\<lparr>ps_current := (ps_current p)\<lparr>hq_method := me, hq_path := path\<rparr>, ps_state := HEADERS\<rparr>"
    using method_line_text [OF assms(1,2)] by (simp add: parse_line_def p_def new_parser_def)
  have cr: "CHR 0x0D \<notin> set ?l"
    using assms(2) by (cases me) (auto simp: path_ok_def)
  have 1: "parse_loop p = parse_loop p1"
    using parse_loop_line [of p ?l ?r] cr pl by (simp add: p1_def p_def new_parser_def)
  have 2: "parse_loop p1 = parse_loop p2"
    using parse_loop_headers [of ?hs p1 "crlf @ body @ rest"] assms(3) length_header_ok
    by (simp add: p2_def p1_def p_def read_headers_def new_parser_def empty_request_def)
  have "fst (parse_loop p2) = Some ((ps_current p2)\<lparr>hq_body := body\<rparr>) \<and> ps_buffer (snd (parse_loop p2)) = rest"
    by (rule parse_loop_body)
       (use assms(4) read_headers_length in \<open>auto simp: p2_def p1_def p_def new_parser_def empty_request_def get_header_def\<close>)
  then show ?thesis
    unfolding f 1 2 by (simp add: p2_def p1_def p_def new_parser_def empty_request_def)
qed

text \<open>C8. A printed request is read back: for every known method, every path without blanks, all headers with a value and
  every body, the parser takes exactly the text of the request, gives back its method, path, body and headers (names in
  lower case, the last value of a name), and leaves what follows in its buffer.\<close>

theorem request_round_trip:
  assumes "me \<noteq> UNKNOWN" and "path_ok path" and "\<forall>h \<in> set hs. header_ok h" and "length body < 2 ^ 64"
  shows "fst (feed (request_text me path hs body @ rest) new_parser) =
       Some \<lparr>hq_method = me, hq_path = path, hq_body = body, hq_headers = read_headers (hs @ [length_header body])\<rparr> \<and>
     ps_buffer (snd (feed (request_text me path hs body @ rest) new_parser)) = rest"
  using assms by (rule feed_request)

theorem request_round_trip_witness:
  "fst (feed (request_text POST ''/v1/models'' [(''Host'', ''a'')] ''{}'' @ ''GET'') new_parser) =
     Some \<lparr>hq_method = POST, hq_path = ''/v1/models'', hq_body = ''{}'',
       hq_headers = [(''content-length'', ''2''), (''host'', ''a'')]\<rparr>"
proof -
  have h: "read_headers ([(''Host'', ''a'')] @ [length_header ''{}'']) = [(''content-length'', ''2''), (''host'', ''a'')]"
    by code_simp
  have ok: "POST \<noteq> UNKNOWN" "path_ok ''/v1/models''" "\<forall>h \<in> set [(''Host'', ''a'')]. header_ok h"
    by code_simp+
  have "length ''{}'' < (2 :: nat) ^ 64"
    by simp
  from request_round_trip [OF ok this, of "''GET''"] show ?thesis
    unfolding h by simp
qed

text \<open>A chunked body is not decoded: whatever is in the buffer is handed out as the body at once, chunk sizes included, and
  the rest of the body is lost.\<close>

theorem chunked_body_not_decoded:
  "map_option hq_body (fst (feed (''POST /v1/inference/clear HTTP/1.1'' @ crlf @ ''Transfer-Encoding: chunked'' @ crlf @ crlf @
      ''4'' @ crlf @ ''abcd'') new_parser)) = Some (''4'' @ crlf @ ''abcd'')"
  by code_simp

subsection \<open>Escapes\<close>

fun json_unescape :: "string \<Rightarrow> string" where
  "json_unescape (c # d # s) =
     (if c = CHR 0x5C
      then (if d = CHR ''n'' then CHR 0x0A else if d = CHR ''r'' then CHR 0x0D else if d = CHR ''t'' then CHR 0x09 else d)
             # json_unescape s
      else c # json_unescape (d # s))"
| "json_unescape s = s"

lemma json_unescape_Cons: "c \<noteq> CHR 0x5C \<Longrightarrow> json_unescape (c # s) = c # json_unescape s"
  by (cases s) simp_all

text \<open>The escape used in every answer loses nothing.\<close>

theorem json_escape_round_trip: "json_unescape (json_escape s) = s"
proof (induction s)
  case (Cons c s)
  then show ?case
    by (auto simp: json_escape_def json_unescape_Cons)
qed (simp add: json_escape_def)

end
