(* ===== verification/Server_Props.thy ===== *)
theory Server_Props
  imports Inference_Routes Http_Props
begin

text \<open>
  Properties of the inference server: which requests change the maintenance database, what a connection is answered,
  which device is picked, and what is read from a chat request.
\<close>

subsection \<open>The second factor\<close>

definition http_confirmed :: "sv_env \<Rightarrow> string \<Rightarrow> InferenceServer \<Rightarrow> bool" where
  "http_confirmed ev body s = (case sv_security s of None \<Rightarrow> True
     | Some us \<Rightarrow> json_get_str body ''pin'' \<noteq> [] \<and> json_get_str body ''word'' \<noteq> [] \<and>
         fst (verify_confirmation (sn_crypto ev) (sn_time ev) (sv_node_id s)
           (json_get_str body ''pin'') (json_get_str body ''word'') us) = Accepted)"

lemma verify_text_Nil: "confirmation_text (fst (verify_confirmation cr now n pin w us)) = [] \<Longrightarrow>
    fst (verify_confirmation cr now n pin w us) = Accepted"
  by (auto simp: verify_confirmation_def count_failure_def accept_def Let_def split: option.splits if_splits)

lemma rbpc_gate_exact:
  assumes "rbpc_gate ev missing body s = (g, s1)"
  shows "(g = None) = http_confirmed ev body s"
proof (cases "sv_security s")
  case None
  with assms show ?thesis
    by (auto simp: rbpc_gate_def http_confirmed_def)
next
  case (Some us)
  with assms show ?thesis
    using verify_text_Nil [of "sn_crypto ev" "sn_time ev" "sv_node_id s" "json_get_str body ''pin''" "json_get_str body ''word''" us]
    by (auto simp: rbpc_gate_def http_confirmed_def Let_def split: if_splits prod.splits)
qed

lemma rbpc_gate_refusal: "rbpc_gate ev missing body s = (Some r, s1) \<Longrightarrow> hp_status_code r \<noteq> 200"
  by (auto simp: rbpc_gate_def json_response_def Let_def split: option.splits prod.splits if_splits)

lemma rbpc_gate_lcmd: "rbpc_gate ev missing body s = (g, s1) \<Longrightarrow> sv_lcmd s1 = sv_lcmd s"
  by (auto simp: rbpc_gate_def Let_def split: option.splits prod.splits if_splits)

lemma http_confirmed_stats [simp]: "http_confirmed ev body (s\<lparr>sv_stats := st\<rparr>) = http_confirmed ev body s"
  by (cases "sv_security s") (simp_all add: http_confirmed_def)

lemma export_lcmd: "sv_lcmd (snd (handle_inference_export ev req s)) = sv_lcmd s"
  by (auto simp: handle_inference_export_def Let_def split: option.splits prod.splits dest!: rbpc_gate_lcmd)

lemma clear_lcmd:
  assumes "sv_lcmd (snd (handle_inference_clear ev req s)) \<noteq> sv_lcmd s"
  shows "http_confirmed ev (hq_body req) s \<and> (\<exists>db. sv_lcmd s = Some db \<and>
     sv_lcmd (snd (handle_inference_clear ev req s)) = Some (snd (clear_inference_records db)))"
proof -
  define s0 where "s0 = s\<lparr>sv_stats := (sv_stats s)\<lparr>ss_clear_requests := ss_clear_requests (sv_stats s) + 1\<rparr>\<rparr>"
  obtain db where db: "sv_lcmd s = Some db"
    using assms by (cases "sv_lcmd s") (auto simp: handle_inference_clear_def Let_def)
  obtain g s1 where g: "rbpc_gate ev ''both pin and word required for clear'' (hq_body req) s0 = (g, s1)"
    by fastforce
  have s1: "sv_lcmd s1 = Some db"
    using rbpc_gate_lcmd [OF g] db by (simp add: s0_def)
  have c: "handle_inference_clear ev req s = (case g of Some refusal \<Rightarrow> (refusal, s1)
      | None \<Rightarrow> (fst (handle_inference_clear ev req s), s1\<lparr>sv_lcmd := Some (snd (clear_inference_records db))\<rparr>))"
    using g db by (auto simp: handle_inference_clear_def s0_def Let_def split: option.splits prod.splits)
  show ?thesis
  proof (cases g)
    case None
    with rbpc_gate_exact [OF g] have "http_confirmed ev (hq_body req) s0"
      by simp
    with c None db show ?thesis
      by (simp add: s0_def) (metis InferenceServer.select_convs(5) InferenceServer.surjective InferenceServer.update_convs(5) snd_conv)
  next
    case (Some r)
    with c s1 db assms show ?thesis
      by simp
  qed
qed

lemma handlers_lcmd [simp]:
  "sv_lcmd (snd (handle_health ev s)) = sv_lcmd s"
  "sv_lcmd (snd (handle_list_models s)) = sv_lcmd s"
  "sv_lcmd (snd (handle_inference_history ev s)) = sv_lcmd s"
  "sv_lcmd (snd (handle_inference_stats ev s)) = sv_lcmd s"
  "sv_lcmd (snd (handle_chat_completions ev req s)) = sv_lcmd s"
  by (simp_all add: handle_health_def handle_list_models_def handle_inference_history_def handle_inference_stats_def
      handle_chat_completions_def Let_def split: option.splits)

text \<open>The only request that changes the maintenance database is a clear with both factors confirmed (or with no user
  security configured), and what it does is to empty the inference history.\<close>

theorem http_clear_guarded:
  assumes "sv_dispatch ev req s = (r, s')" and "sv_lcmd s' \<noteq> sv_lcmd s"
  shows "hq_method req = POST \<and> hq_path req = ''/v1/inference/clear'' \<and> http_confirmed ev (hq_body req) s \<and>
     (\<exists>db. sv_lcmd s = Some db \<and> sv_lcmd s' = Some (snd (clear_inference_records db)))"
proof -
  have s': "s' = snd (sv_dispatch ev req s)"
    using assms(1) by simp
  show ?thesis
    using assms(2) clear_lcmd [of ev req s] export_lcmd [of ev req s] unfolding s' sv_dispatch_def Let_def
    by (auto split: if_splits)
qed

subsection \<open>Answers\<close>

lemma served_gate [simp]:
  "sv_stats (snd (rbpc_gate ev missing body s)) = sv_stats s"
  by (simp add: rbpc_gate_def Let_def split: option.splits prod.splits)

lemma served_gateD: "rbpc_gate ev missing body s = (g, s1) \<Longrightarrow> sv_stats s1 = sv_stats s"
  using served_gate [of ev missing body s] by simp

lemma served_dispatch:
  "ss_requests_served (sv_stats (snd (sv_dispatch ev req s))) = ss_requests_served (sv_stats s)"
proof -
  have "ss_requests_served (sv_stats (snd (handle_inference_clear ev req s))) = ss_requests_served (sv_stats s)"
    by (auto simp: handle_inference_clear_def Let_def split: option.splits prod.splits dest!: served_gateD)
  moreover have "ss_requests_served (sv_stats (snd (handle_inference_export ev req s))) = ss_requests_served (sv_stats s)"
    by (auto simp: handle_inference_export_def Let_def split: option.splits prod.splits dest!: served_gateD)
  ultimately show ?thesis
    by (simp add: sv_dispatch_def handle_health_def handle_list_models_def handle_inference_history_def
        handle_inference_stats_def handle_chat_completions_def Let_def split: option.splits)
qed

text \<open>One connection: nothing is answered when nothing arrived.  Otherwise there is one answer: that of the handler
  for the request in the first read, or the error 400 when the first read does not hold a complete request.  The
  connection is counted either way.\<close>

theorem serve_answers:
  assumes "data \<noteq> []"
  shows "case fst (feed (take 65535 data) new_parser) of
      None \<Rightarrow> fst (serve ev data s) = Some (render (json_response 400 (error_json ''bad_request''))) \<and>
              ss_errors (sv_stats (snd (serve ev data s))) = ss_errors (sv_stats s) + 1 \<and>
              sv_lcmd (snd (serve ev data s)) = sv_lcmd s \<and> sv_security (snd (serve ev data s)) = sv_security s
    | Some req \<Rightarrow> \<exists>s1 r. fst (sv_dispatch ev req s1) = r \<and> fst (serve ev data s) = Some (render r) \<and>
              sv_lcmd s1 = sv_lcmd s \<and> sv_security s1 = sv_security s"
    and "ss_requests_served (sv_stats (snd (serve ev data s))) = ss_requests_served (sv_stats s) + 1"
proof -
  define s1 where "s1 = s\<lparr>sv_stats := (sv_stats s)\<lparr>ss_requests_served := ss_requests_served (sv_stats s) + 1\<rparr>\<rparr>"
  have got: "take 65535 data \<noteq> []"
    using assms by simp
  have s1: "sv_lcmd s1 = sv_lcmd s" "sv_security s1 = sv_security s" "ss_errors (sv_stats s1) = ss_errors (sv_stats s)"
    "ss_requests_served (sv_stats s1) = ss_requests_served (sv_stats s) + 1"
    by (simp_all add: s1_def)
  have sv: "serve ev data s = (case fst (feed (take 65535 data) new_parser) of
      Some req \<Rightarrow> (case sv_dispatch ev req s1 of (r, s2) \<Rightarrow> (Some (render r), s2))
    | None \<Rightarrow> (Some (render (json_response 400 (error_json ''bad_request''))),
         s1\<lparr>sv_stats := (sv_stats s1)\<lparr>ss_errors := ss_errors (sv_stats s1) + 1\<rparr>\<rparr>))"
    unfolding serve_def Let_def RECV_BUF_SIZE_def s1_def using got by simp
  show "case fst (feed (take 65535 data) new_parser) of
      None \<Rightarrow> fst (serve ev data s) = Some (render (json_response 400 (error_json ''bad_request''))) \<and>
              ss_errors (sv_stats (snd (serve ev data s))) = ss_errors (sv_stats s) + 1 \<and>
              sv_lcmd (snd (serve ev data s)) = sv_lcmd s \<and> sv_security (snd (serve ev data s)) = sv_security s
    | Some req \<Rightarrow> \<exists>s1 r. fst (sv_dispatch ev req s1) = r \<and> fst (serve ev data s) = Some (render r) \<and>
              sv_lcmd s1 = sv_lcmd s \<and> sv_security s1 = sv_security s"
  proof (cases "fst (feed (take 65535 data) new_parser)")
    case None
    then show ?thesis
      using sv s1 by simp
  next
    case (Some req)
    have "fst (serve ev data s) = Some (render (fst (sv_dispatch ev req s1)))"
      using sv Some by (simp add: case_prod_beta)
    with Some s1 show ?thesis
      by auto
  qed
  show "ss_requests_served (sv_stats (snd (serve ev data s))) = ss_requests_served (sv_stats s) + 1"
    using sv s1 served_dispatch [of ev _ s1] by (auto simp: case_prod_beta split: option.splits)
qed

text \<open>The server calls \<^verbatim>\<open>recv\<close> once.  A request whose body arrives with a second segment is answered with 400,
  although the parser could have gone on.\<close>

theorem split_request_refused:
  "fst (serve ev (''POST /v1/inference/clear HTTP/1.1'' @ crlf @ ''Content-Length: 2'' @ crlf @ crlf) s) =
     Some (render (json_response 400 (error_json ''bad_request'')))"
proof -
  let ?d = "''POST /v1/inference/clear HTTP/1.1'' @ crlf @ ''Content-Length: 2'' @ crlf @ crlf"
  have f: "fst (feed ?d new_parser) = None"
    by code_simp
  have "take 65535 ?d = ?d"
    by (rule take_all) (simp add: crlf_def)
  then show ?thesis
    using serve_answers(1) [of ?d ev s] f by (simp add: crlf_def)
qed

subsection \<open>Devices\<close>

text \<open>The device that is picked: the GPU when it is below 95 percent, unless the NPU is below 90 percent and below the
  GPU; the CPU otherwise.  Utilisations are not negative.  An idle NPU is therefore never picked when the
  GPU is absent or busy.\<close>

theorem pick_device_spec:
  assumes "lb_has_gpu b" and "lb_has_hailo b" and "0 \<le> g" and "0 \<le> h"
  shows "dc_device_name (fst (pick_device (M_Reading (F_Fin g) tg) (M_Reading (F_Fin h) th) b)) =
     (if g < 95 \<and> h < 90 \<and> h < g then ''hailo_8l'' else if g < 95 then ''gpu_780m'' else ''cpu'')"
  using assms by (auto simp: pick_device_def ask_gpu_def ask_hailo_def Let_def)

theorem idle_npu_ignored:
  assumes "lb_has_hailo b" and "0 \<le> h" and "gpu = M_Unavailable \<or> gpu = M_Threw \<or> (\<exists>g t. gpu = M_Reading (F_Fin g) t \<and> 95 \<le> g)"
  shows "fst (get_load_balance_hint gpu (M_Reading (F_Fin h) th) b) = DT_CPU"
proof -
  have "dc_device_name (fst (pick_device gpu (M_Reading (F_Fin h) th) b)) = ''cpu''"
    using assms by (auto simp: pick_device_def ask_gpu_def ask_hailo_def Let_def)
  then show ?thesis
    by (simp add: get_load_balance_hint_def case_prod_beta contains_def find_str_def)
qed

subsection \<open>Chat requests\<close>

lemma json_get_str_no_quote: "dquote \<notin> set (json_get_str json key)"
proof -
  have "dquote \<notin> set (take (ve - vs - 1) (drop (vs + 1) json))" if f: "find_char dquote json (vs + 1) = Some ve" for vs ve
  proof -
    obtain i where i: "find_first (\<lambda>x. x = dquote) (drop (vs + 1) json) = Some i" "ve = vs + 1 + i"
      using f by (auto simp: find_char_def)
    have "take i (drop (vs + 1) json) = takeWhile (\<lambda>x. x \<noteq> dquote) (drop (vs + 1) json)"
      using find_first_takeWhile [OF i(1)] .
    then show ?thesis
      using i(2) by (auto dest: set_takeWhileD)
  qed
  then show ?thesis
    by (auto simp: json_get_str_def split: option.splits)
qed

lemma no_quote_no_role: "dquote \<notin> set s \<Longrightarrow> find_str (in_quotes ''role'') s pos = None"
proof (cases "find_str (in_quotes ''role'') s pos")
  case (Some j)
  assume q: "dquote \<notin> set s"
  obtain i where "find_prefix (in_quotes ''role'') (drop pos s) = Some i"
    using Some by (auto simp: find_str_def split: if_splits)
  then have "take (length (in_quotes ''role'')) (drop i (drop pos s)) = in_quotes ''role''"
    using find_prefix_SomeD by blast
  then have "dquote \<in> set (take (length (in_quotes ''role'')) (drop i (drop pos s)))"
    by (simp add: in_quotes_def quote_def)
  with q show ?thesis
    using in_set_takeD in_set_dropD by metis
qed

text \<open>No message of a chat request is ever read: the search for the roles runs over a text that ends at the first
  quotation mark.  So every prompt given to the pipeline is empty and no prompt token is counted.\<close>

theorem chat_messages_never_read:
  "\<exists>q. from_json body = Some q \<and> oq_messages q = [] \<and> prompt_of (oq_messages q) = [] \<and> prompt_tokens (oq_messages q) = 0"
proof -
  have "scan_messages (json_get_str body ''messages'') 0 = []"
    using no_quote_no_role [OF json_get_str_no_quote]
    by (subst scan_messages.simps) (simp add: next_message_def)
  then show ?thesis
    by (simp add: from_json_def default_chat_request_def Let_def prompt_of_def prompt_tokens_def)
qed

text \<open>A temperature that is not a number sets the temperature to zero instead of leaving the default.\<close>

theorem bad_temperature_is_zero:
  "map_option oq_temperature (from_json (''{'' @ in_quotes ''temperature'' @ '': null}'')) = Some (F_Fin 0)"
  by code_simp

subsection \<open>Models\<close>

text \<open>Two files that differ only in their extension have the same identifier, and the second is never found.\<close>

theorem model_ids_collide:
  "let r = new_registry [(''net.onnx'', True), (''net.hef'', True), (''readme.txt'', True), (''old.onnx'', False)] ''/models''
   in map me_id (all_models r) = [''net'', ''net''] \<and> model_count r = 2 \<and>
      map_option me_preferred_device (find_model ''net'' r) = Some DT_CPU"
  by code_simp

theorem rescan_idem: "rescan es (rescan es r) = rescan es r"
  by (simp add: rescan_def scan_models_def)

end
