(* ===== verification/Slipstream.thy ===== *)
theory Slipstream
  imports Anbp_Protocol Std_Map
begin

text \<open>
  The slipstream bus of \<^verbatim>\<open>code/src/cerberus_slipstream.cpp\<close> and its header: framed messages, bounded depots, worker threads and the
  engine that owns them.

  Every operation of a depot holds its mutex, so it is one step; a waiting \<^verbatim>\<open>collect\<close> is the step at which its wait
  ends.  A worker thread is a program counter: it looks at its stop flag and collects, or it runs the handler for the
  command it holds, which happens under the handler mutex.  A handler is a function of the command and the answer depot;
  the time stamp of a new message is an argument.
\<close>

subsection \<open>Messages\<close>

type_synonym msg_type = u16

definition HANDSHAKE :: msg_type where "HANDSHAKE = 0x0001"
definition HANDSHAKE_ACK :: msg_type where "HANDSHAKE_ACK = 0x0002"
definition HEARTBEAT :: msg_type where "HEARTBEAT = 0x0003"
definition DISCONNECT :: msg_type where "DISCONNECT = 0x0004"
definition CMD_EXECUTE :: msg_type where "CMD_EXECUTE = 0x0200"
definition CMD_RESPONSE :: msg_type where "CMD_RESPONSE = 0x0201"
definition CMD_STREAM_START :: msg_type where "CMD_STREAM_START = 0x0202"
definition CMD_STREAM_DATA :: msg_type where "CMD_STREAM_DATA = 0x0203"
definition CMD_STREAM_END :: msg_type where "CMD_STREAM_END = 0x0204"
definition SYS_STATS :: msg_type where "SYS_STATS = 0x0500"
definition SYS_SHUTDOWN :: msg_type where "SYS_SHUTDOWN = 0x0502"
definition ERR_GENERIC :: msg_type where "ERR_GENERIC = 0xFF00"
definition ERR_AUTH :: msg_type where "ERR_AUTH = 0xFF01"
definition ERR_TIMEOUT :: msg_type where "ERR_TIMEOUT = 0xFF04"

definition SLIP_MAGIC :: u32 where "SLIP_MAGIC = 0x534C4950"

record SlipstreamMessageHeader =
  sh_magic :: u32
  sh_version :: u16
  sh_type :: u16
  sh_flags :: u16
  sh_payload_length :: u32
  sh_sequence_number :: u32
  sh_timestamp_us :: u32
  sh_session_id :: "byte list"
  sh_padding :: "byte list"

definition slip_header_size :: nat where "slip_header_size = 32"

definition slip_isValid :: "SlipstreamMessageHeader \<Rightarrow> bool" where
  "slip_isValid h \<longleftrightarrow> sh_magic h = SLIP_MAGIC"

record SlipstreamMessage =
  sm_header :: SlipstreamMessageHeader
  sm_payload :: "byte list"

definition getType :: "SlipstreamMessage \<Rightarrow> msg_type" where
  "getType m = sh_type (sm_header m)"

definition slip_header_bytes :: "SlipstreamMessageHeader \<Rightarrow> byte list" where
  "slip_header_bytes h = word_bytes 4 (sh_magic h) @ word_bytes 2 (sh_version h) @ word_bytes 2 (sh_type h) @
     word_bytes 2 (sh_flags h) @ word_bytes 4 (sh_payload_length h) @ word_bytes 4 (sh_sequence_number h) @
     word_bytes 4 (sh_timestamp_us h) @ sh_session_id h @ sh_padding h"

definition slip_serialize :: "SlipstreamMessage \<Rightarrow> byte list" where
  "slip_serialize m = slip_header_bytes (sm_header m) @ sm_payload m"

definition slip_header_of :: "byte list \<Rightarrow> SlipstreamMessageHeader" where
  "slip_header_of bs = \<lparr>sh_magic = word_at 0 4 bs, sh_version = word_at 4 2 bs, sh_type = word_at 6 2 bs,
     sh_flags = word_at 8 2 bs, sh_payload_length = word_at 10 4 bs, sh_sequence_number = word_at 14 4 bs,
     sh_timestamp_us = word_at 18 4 bs, sh_session_id = take 8 (drop 22 bs), sh_padding = take 2 (drop 30 bs)\<rparr>"

definition slip_deserialize :: "byte list option \<Rightarrow> SlipstreamMessage option" where
  "slip_deserialize data = (case data of None \<Rightarrow> None
    | Some bs \<Rightarrow>
        if length bs < slip_header_size then None
        else let h = slip_header_of bs
             in if \<not> slip_isValid h then None
                else if length bs - slip_header_size < unat (sh_payload_length h) then None
                else Some \<lparr>sm_header = h, sm_payload = take (unat (sh_payload_length h)) (drop slip_header_size bs)\<rparr>)"

definition slip_create :: "u32 \<Rightarrow> msg_type \<Rightarrow> byte list \<Rightarrow> u32 \<Rightarrow> SlipstreamMessage" where
  "slip_create now_us ty data seq =
     \<lparr>sm_header = \<lparr>sh_magic = SLIP_MAGIC, sh_version = 1, sh_type = ty, sh_flags = 0,
        sh_payload_length = of_nat (length data), sh_sequence_number = seq, sh_timestamp_us = now_us,
        sh_session_id = replicate 8 0, sh_padding = replicate 2 0\<rparr>, sm_payload = data\<rparr>"

subsection \<open>Depots\<close>

record DepotStats =
  ds_deposited :: u64
  ds_collected :: u64
  ds_dropped :: u64
  ds_timeouts :: u64
  ds_peeked :: u64

record SlipstreamDepot =
  dp_queue :: "SlipstreamMessage list"
  dp_capacity :: nat
  dp_stats :: DepotStats

definition new_depot :: "nat \<Rightarrow> SlipstreamDepot" where
  "new_depot capacity = \<lparr>dp_queue = [], dp_capacity = capacity,
     dp_stats = \<lparr>ds_deposited = 0, ds_collected = 0, ds_dropped = 0, ds_timeouts = 0, ds_peeked = 0\<rparr>\<rparr>"

definition deposit :: "SlipstreamMessage \<Rightarrow> SlipstreamDepot \<Rightarrow> bool \<times> SlipstreamDepot" where
  "deposit m d =
     (if dp_capacity d \<le> length (dp_queue d)
      then (False, d\<lparr>dp_stats := (dp_stats d)\<lparr>ds_dropped := ds_dropped (dp_stats d) + 1\<rparr>\<rparr>)
      else (True, d\<lparr>dp_queue := dp_queue d @ [m],
                    dp_stats := (dp_stats d)\<lparr>ds_deposited := ds_deposited (dp_stats d) + 1\<rparr>\<rparr>))"

definition take_front :: "SlipstreamDepot \<Rightarrow> SlipstreamDepot" where
  "take_front d = d\<lparr>dp_queue := tl (dp_queue d), dp_stats := (dp_stats d)\<lparr>ds_collected := ds_collected (dp_stats d) + 1\<rparr>\<rparr>"

definition collect :: "SlipstreamDepot \<Rightarrow> SlipstreamMessage option \<times> SlipstreamDepot" where
  "collect d = (case dp_queue d of
      [] \<Rightarrow> (None, d\<lparr>dp_stats := (dp_stats d)\<lparr>ds_timeouts := ds_timeouts (dp_stats d) + 1\<rparr>\<rparr>)
    | m # ms \<Rightarrow> (Some m, take_front d))"

definition tryCollect :: "SlipstreamDepot \<Rightarrow> SlipstreamMessage option \<times> SlipstreamDepot" where
  "tryCollect d = (case dp_queue d of [] \<Rightarrow> (None, d) | m # ms \<Rightarrow> (Some m, take_front d))"

definition peek :: "SlipstreamDepot \<Rightarrow> SlipstreamMessage option \<times> SlipstreamDepot" where
  "peek d = (case dp_queue d of [] \<Rightarrow> (None, d)
    | m # ms \<Rightarrow> (Some m, d\<lparr>dp_stats := (dp_stats d)\<lparr>ds_peeked := ds_peeked (dp_stats d) + 1\<rparr>\<rparr>))"

definition depot_size :: "SlipstreamDepot \<Rightarrow> nat" where
  "depot_size d = length (dp_queue d)"

definition depot_empty :: "SlipstreamDepot \<Rightarrow> bool" where
  "depot_empty d \<longleftrightarrow> dp_queue d = []"

definition depot_full :: "SlipstreamDepot \<Rightarrow> bool" where
  "depot_full d \<longleftrightarrow> dp_capacity d \<le> length (dp_queue d)"

definition depot_clear :: "SlipstreamDepot \<Rightarrow> SlipstreamDepot" where
  "depot_clear d = d\<lparr>dp_queue := []\<rparr>"

subsection \<open>Engine\<close>

type_synonym handler = "SlipstreamMessage \<Rightarrow> SlipstreamDepot \<Rightarrow> SlipstreamDepot"

datatype worker_pc = W_Stopped | W_Loop | W_Handling SlipstreamMessage

record SlipstreamWorker =
  wk_id :: u32
  wk_running :: bool
  wk_stop_requested :: bool
  wk_pc :: worker_pc

definition new_worker :: "nat \<Rightarrow> SlipstreamWorker" where
  "new_worker i = \<lparr>wk_id = of_nat i, wk_running = False, wk_stop_requested = False, wk_pc = W_Stopped\<rparr>"

definition worker_start :: "SlipstreamWorker \<Rightarrow> SlipstreamWorker" where
  "worker_start w = (if wk_running w then w else w\<lparr>wk_running := True, wk_stop_requested := False, wk_pc := W_Loop\<rparr>)"

record Snapshot =
  sp_messages_in :: u64
  sp_messages_out :: u64
  sp_queue_depth_in :: nat
  sp_queue_depth_out :: nat

record SlipstreamEngine =
  en_running :: bool
  en_ingress :: "SlipstreamDepot option"
  en_egress :: "SlipstreamDepot option"
  en_workers :: "SlipstreamWorker list"
  en_handlers :: "(msg_type, handler) smap"
  en_monitor_running :: bool
  en_snapshot :: Snapshot

definition new_engine :: SlipstreamEngine where
  "new_engine = \<lparr>en_running = False, en_ingress = None, en_egress = None, en_workers = [], en_handlers = [],
     en_monitor_running = False,
     en_snapshot = \<lparr>sp_messages_in = 0, sp_messages_out = 0, sp_queue_depth_in = 0, sp_queue_depth_out = 0\<rparr>\<rparr>"

definition depot_default_capacity :: nat where "depot_default_capacity = 10000"

definition en_initialize :: "nat \<Rightarrow> SlipstreamEngine \<Rightarrow> SlipstreamEngine" where
  "en_initialize worker_count e =
     (if en_ingress e \<noteq> None then e
      else e\<lparr>en_ingress := Some (new_depot depot_default_capacity), en_egress := Some (new_depot depot_default_capacity),
             en_workers := en_workers e @ map new_worker [0..<worker_count]\<rparr>)"

definition en_start :: "SlipstreamEngine \<Rightarrow> SlipstreamEngine" where
  "en_start e =
     (if en_running e then e
      else let e1 = (if en_ingress e = None then en_initialize 4 e else e)
           in e1\<lparr>en_running := True, en_workers := map worker_start (en_workers e1), en_monitor_running := True\<rparr>)"

definition registerHandler :: "msg_type \<Rightarrow> handler \<Rightarrow> SlipstreamEngine \<Rightarrow> SlipstreamEngine" where
  "registerHandler ty h e = e\<lparr>en_handlers := smap_put ty h (en_handlers e)\<rparr>"

definition echo_response :: "u32 \<Rightarrow> SlipstreamMessage \<Rightarrow> SlipstreamMessage" where
  "echo_response now_us cmd = slip_create now_us CMD_RESPONSE (sm_payload cmd) (sh_sequence_number (sm_header cmd))"

definition run_handler :: "u32 \<Rightarrow> (msg_type, handler) smap \<Rightarrow> SlipstreamMessage \<Rightarrow> SlipstreamDepot \<Rightarrow> SlipstreamDepot" where
  "run_handler now_us handlers cmd resp = (case smap_find handlers (getType cmd) of
      Some h \<Rightarrow> h cmd resp
    | None \<Rightarrow> snd (deposit (echo_response now_us cmd) resp))"

definition updateSnapshot :: "SlipstreamEngine \<Rightarrow> Snapshot" where
  "updateSnapshot e =
     \<lparr>sp_messages_in = (case en_ingress e of None \<Rightarrow> 0 | Some d \<Rightarrow> ds_deposited (dp_stats d)),
      sp_messages_out = (case en_egress e of None \<Rightarrow> 0 | Some d \<Rightarrow> ds_collected (dp_stats d)),
      sp_queue_depth_in = (case en_ingress e of None \<Rightarrow> 0 | Some d \<Rightarrow> depot_size d),
      sp_queue_depth_out = (case en_egress e of None \<Rightarrow> 0 | Some d \<Rightarrow> depot_size d)\<rparr>"

subsection \<open>Interleavings\<close>

text \<open>What may happen next: calls of the owner and of clients, a step of a worker thread, a round of the monitor thread.
  Stopping is a request for one worker after the other, each followed by the join, which waits for the thread to
  leave its loop.\<close>

datatype en_action =
    A_Initialize nat
  | A_Start
  | A_Register msg_type handler
  | A_Send SlipstreamMessage
  | A_Receive
  | A_Worker nat u32
  | A_Monitor
  | A_StopWorker nat
  | A_JoinWorker nat
  | A_Stopped

text \<open>What is observed.\<close>

datatype en_event =
    E_Sent SlipstreamMessage
  | E_Dropped SlipstreamMessage
  | E_Taken nat SlipstreamMessage
  | E_Handled nat u32 SlipstreamMessage
  | E_Received SlipstreamMessage

definition send_step :: "SlipstreamMessage \<Rightarrow> SlipstreamDepot \<Rightarrow> SlipstreamEngine \<Rightarrow> en_event list \<times> SlipstreamEngine" where
  "send_step m d e = (case deposit m d of (ok, d') \<Rightarrow>
     ([if ok then E_Sent m else E_Dropped m], e\<lparr>en_ingress := Some d'\<rparr>))"

definition receive_step :: "SlipstreamDepot \<Rightarrow> SlipstreamEngine \<Rightarrow> en_event list \<times> SlipstreamEngine" where
  "receive_step d e = (case tryCollect d of (r, d') \<Rightarrow>
     (case r of None \<Rightarrow> [] | Some m \<Rightarrow> [E_Received m], e\<lparr>en_egress := Some d'\<rparr>))"

definition set_worker :: "nat \<Rightarrow> SlipstreamWorker \<Rightarrow> SlipstreamEngine \<Rightarrow> SlipstreamEngine" where
  "set_worker i w e = e\<lparr>en_workers := (en_workers e)[i := w]\<rparr>"

definition workerLoop_step ::
  "nat \<Rightarrow> u32 \<Rightarrow> SlipstreamDepot \<Rightarrow> SlipstreamDepot \<Rightarrow> SlipstreamEngine \<Rightarrow> (en_event list \<times> SlipstreamEngine) option" where
  "workerLoop_step i now_us din dout e =
     (let w = en_workers e ! i
      in case wk_pc w of
           W_Stopped \<Rightarrow> None
         | W_Loop \<Rightarrow>
             if wk_stop_requested w then Some ([], set_worker i (w\<lparr>wk_pc := W_Stopped\<rparr>) e)
             else (case collect din of (r, din') \<Rightarrow>
                     let e1 = e\<lparr>en_ingress := Some din'\<rparr>
                     in case r of None \<Rightarrow> Some ([], e1)
                        | Some m \<Rightarrow> Some ([E_Taken i m], set_worker i (w\<lparr>wk_pc := W_Handling m\<rparr>) e1))
         | W_Handling m \<Rightarrow>
             Some ([E_Handled i now_us m],
                   set_worker i (w\<lparr>wk_pc := W_Loop\<rparr>) (e\<lparr>en_egress := Some (run_handler now_us (en_handlers e) m dout)\<rparr>)))"

fun en_step :: "en_action \<Rightarrow> SlipstreamEngine \<Rightarrow> (en_event list \<times> SlipstreamEngine) option" where
  "en_step (A_Initialize n) e = Some ([], en_initialize n e)"
| "en_step A_Start e = Some ([], en_start e)"
| "en_step (A_Register ty h) e = Some ([], registerHandler ty h e)"
| "en_step (A_Send m) e = map_option (\<lambda>d. send_step m d e) (en_ingress e)"
| "en_step A_Receive e = map_option (\<lambda>d. receive_step d e) (en_egress e)"
| "en_step (A_Worker i now_us) e = (case (en_ingress e, en_egress e) of
      (Some din, Some dout) \<Rightarrow> if i < length (en_workers e) then workerLoop_step i now_us din dout e else None
    | _ \<Rightarrow> None)"
| "en_step A_Monitor e =
     (if en_monitor_running e then Some ([], e\<lparr>en_snapshot := updateSnapshot e\<rparr>) else None)"
| "en_step (A_StopWorker i) e =
     (if i < length (en_workers e) then Some ([], set_worker i ((en_workers e ! i)\<lparr>wk_stop_requested := True\<rparr>) e) else None)"
| "en_step (A_JoinWorker i) e =
     (if i < length (en_workers e) \<and> wk_pc (en_workers e ! i) = W_Stopped
      then Some ([], set_worker i ((en_workers e ! i)\<lparr>wk_running := False\<rparr>) e) else None)"
| "en_step A_Stopped e =
     (if list_all (\<lambda>w. \<not> wk_running w) (en_workers e)
      then Some ([], e\<lparr>en_monitor_running := False, en_running := False\<rparr>) else None)"

fun en_run :: "en_action list \<Rightarrow> SlipstreamEngine \<Rightarrow> (en_event list \<times> SlipstreamEngine) option" where
  "en_run [] e = Some ([], e)"
| "en_run (a # as) e = (case en_step a e of None \<Rightarrow> None
     | Some (ev, e1) \<Rightarrow> (case en_run as e1 of None \<Rightarrow> None | Some (evs, e2) \<Rightarrow> Some (ev @ evs, e2)))"

end
