(* ===== verification/Slipstream_Props.thy ===== *)
theory Slipstream_Props
  imports Slipstream "HOL-Library.Multiset" "HOL-Library.Sublist"
begin

text \<open>
  Properties of the slipstream bus: messages are read back, and over every interleaving of clients, workers and monitor no
  accepted command is lost, duplicated or reordered on its way to the workers.
\<close>

subsection \<open>Messages\<close>

lemma slip_header_round_trip:
  assumes "length (sh_session_id h) = 8" and "length (sh_padding h) = 2"
  shows "slip_header_of (slip_header_bytes h @ rest) = h"
proof -
  note ser = slip_header_bytes_def append.assoc
  let ?b = "slip_header_bytes h @ rest"
  have "word_at 0 4 ?b = sh_magic h"
    using word_at_bytes [of "[]" 0 4 "sh_magic h"] by (simp add: ser)
  moreover have "word_at 4 2 ?b = sh_version h"
    unfolding ser by (rule word_at_bytes) simp_all
  moreover have "word_at 6 2 ?b = sh_type h"
    using word_at_bytes [of "word_bytes 4 (sh_magic h) @ word_bytes 2 (sh_version h)" 6 2 "sh_type h"] by (simp add: ser)
  moreover have "word_at 8 2 ?b = sh_flags h"
    using word_at_bytes [of "word_bytes 4 (sh_magic h) @ word_bytes 2 (sh_version h) @ word_bytes 2 (sh_type h)" 8 2
      "sh_flags h"] by (simp add: ser)
  moreover have "word_at 10 4 ?b = sh_payload_length h"
    using word_at_bytes [of "word_bytes 4 (sh_magic h) @ word_bytes 2 (sh_version h) @ word_bytes 2 (sh_type h) @
      word_bytes 2 (sh_flags h)" 10 4 "sh_payload_length h"] by (simp add: ser)
  moreover have "word_at 14 4 ?b = sh_sequence_number h"
    using word_at_bytes [of "word_bytes 4 (sh_magic h) @ word_bytes 2 (sh_version h) @ word_bytes 2 (sh_type h) @
      word_bytes 2 (sh_flags h) @ word_bytes 4 (sh_payload_length h)" 14 4 "sh_sequence_number h"] by (simp add: ser)
  moreover have "word_at 18 4 ?b = sh_timestamp_us h"
    using word_at_bytes [of "word_bytes 4 (sh_magic h) @ word_bytes 2 (sh_version h) @ word_bytes 2 (sh_type h) @
      word_bytes 2 (sh_flags h) @ word_bytes 4 (sh_payload_length h) @ word_bytes 4 (sh_sequence_number h)" 18 4
      "sh_timestamp_us h"] by (simp add: ser)
  moreover have "take 8 (drop 22 ?b) = sh_session_id h" "take 2 (drop 30 ?b) = sh_padding h"
    using assms by (simp_all add: ser)
  ultimately show ?thesis
    by (simp add: slip_header_of_def)
qed

text \<open>A created message is read back from its bytes, whatever follows them.\<close>

theorem slip_round_trip:
  assumes "length data < 2 ^ 32"
  shows "slip_deserialize (Some (slip_serialize (slip_create now ty data seq) @ rest)) = Some (slip_create now ty data seq)"
proof -
  let ?m = "slip_create now ty data seq"
  let ?h = "sm_header ?m"
  have len: "length (slip_header_bytes ?h) = 32"
    by (simp add: slip_create_def slip_header_bytes_def)
  have n: "unat (of_nat (length data) :: u32) = length data"
    using assms by (simp add: unat_of_nat take_bit_nat_eq_self)
  have "slip_header_of (slip_header_bytes ?h @ data @ rest) = ?h"
    by (rule slip_header_round_trip) (simp_all add: slip_create_def)
  with len n show ?thesis
    by (simp add: slip_deserialize_def slip_serialize_def slip_header_size_def slip_isValid_def Let_def slip_create_def)
qed

subsection \<open>A bounded queue\<close>

locale bounded_fifo =
  fixes contents :: "'d \<Rightarrow> 'a list"
    and bound :: "'d \<Rightarrow> nat"
    and put :: "'a \<Rightarrow> 'd \<Rightarrow> bool \<times> 'd"
    and get :: "'d \<Rightarrow> 'a option \<times> 'd"
  assumes put_bound: "bound (snd (put x d)) = bound d"
    and put_result: "fst (put x d) = (length (contents d) < bound d)"
    and put_contents: "contents (snd (put x d)) = contents d @ (if length (contents d) < bound d then [x] else [])"
    and get_bound: "bound (snd (get d)) = bound d"
    and get_contents: "contents d = (case fst (get d) of None \<Rightarrow> [] | Some x \<Rightarrow> [x]) @ contents (snd (get d))"
    and get_None: "fst (get d) = None \<Longrightarrow> contents d = []"
begin

lemma put_bounded: "length (contents d) \<le> bound d \<Longrightarrow> length (contents (snd (put x d))) \<le> bound (snd (put x d))"
  by (simp add: put_bound put_contents)

lemma get_bounded: "length (contents d) \<le> bound d \<Longrightarrow> length (contents (snd (get d))) \<le> bound (snd (get d))"
  using arg_cong [OF get_contents, of length d] by (simp add: get_bound)

lemma put_log: "log = taken @ contents d \<Longrightarrow>
    log @ (if fst (put x d) then [x] else []) = taken @ contents (snd (put x d))"
  by (simp add: put_contents put_result)

lemma get_log: "log = taken @ contents d \<Longrightarrow>
    log = (taken @ (case fst (get d) of None \<Rightarrow> [] | Some x \<Rightarrow> [x])) @ contents (snd (get d))"
  using get_contents [of d] by simp

end

interpretation commands: bounded_fifo dp_queue dp_capacity deposit collect
  by unfold_locales (auto simp: deposit_def collect_def take_front_def split: list.splits)

interpretation answers: bounded_fifo dp_queue dp_capacity deposit tryCollect
  by unfold_locales (auto simp: deposit_def tryCollect_def take_front_def split: list.splits)

subsection \<open>Logs\<close>

definition sent :: "en_event list \<Rightarrow> SlipstreamMessage list" where
  "sent evs = List.map_filter (\<lambda>e. case e of E_Sent m \<Rightarrow> Some m | _ \<Rightarrow> None) evs"

definition taken :: "en_event list \<Rightarrow> SlipstreamMessage list" where
  "taken evs = List.map_filter (\<lambda>e. case e of E_Taken i m \<Rightarrow> Some m | _ \<Rightarrow> None) evs"

definition handled :: "en_event list \<Rightarrow> SlipstreamMessage list" where
  "handled evs = List.map_filter (\<lambda>e. case e of E_Handled i t m \<Rightarrow> Some m | _ \<Rightarrow> None) evs"

definition echoes :: "en_event list \<Rightarrow> SlipstreamMessage list" where
  "echoes evs = List.map_filter (\<lambda>e. case e of E_Handled i t m \<Rightarrow> Some (echo_response t m) | _ \<Rightarrow> None) evs"

definition received_by_client :: "en_event list \<Rightarrow> SlipstreamMessage list" where
  "received_by_client evs = List.map_filter (\<lambda>e. case e of E_Received m \<Rightarrow> Some m | _ \<Rightarrow> None) evs"

lemma map_filter_append [simp]: "List.map_filter f (xs @ ys) = List.map_filter f xs @ List.map_filter f ys"
  by (simp add: List.map_filter_def)

lemmas log_defs = sent_def taken_def handled_def echoes_def received_by_client_def

lemma log_append [simp]:
  "sent (xs @ ys) = sent xs @ sent ys" "taken (xs @ ys) = taken xs @ taken ys"
  "handled (xs @ ys) = handled xs @ handled ys" "echoes (xs @ ys) = echoes xs @ echoes ys"
  "received_by_client (xs @ ys) = received_by_client xs @ received_by_client ys"
  by (simp_all add: log_defs)

lemma log_Nil [simp]: "sent [] = []" "taken [] = []" "handled [] = []" "echoes [] = []" "received_by_client [] = []"
  by (simp_all add: log_defs List.map_filter_def)

lemma log_single [simp]:
  "sent [E_Sent m] = [m]" "sent [E_Dropped m] = []" "sent [E_Taken i m] = []" "sent [E_Handled i t m] = []" "sent [E_Received m] = []"
  "taken [E_Sent m] = []" "taken [E_Dropped m] = []" "taken [E_Taken i m] = [m]" "taken [E_Handled i t m] = []" "taken [E_Received m] = []"
  "handled [E_Sent m] = []" "handled [E_Dropped m] = []" "handled [E_Taken i m] = []" "handled [E_Handled i t m] = [m]" "handled [E_Received m] = []"
  "echoes [E_Sent m] = []" "echoes [E_Dropped m] = []" "echoes [E_Taken i m] = []" "echoes [E_Handled i t m] = [echo_response t m]" "echoes [E_Received m] = []"
  "received_by_client [E_Sent m] = []" "received_by_client [E_Dropped m] = []" "received_by_client [E_Taken i m] = []"
  "received_by_client [E_Handled i t m] = []" "received_by_client [E_Received m] = [m]"
  by (simp_all add: log_defs List.map_filter_def)

definition queue_of :: "SlipstreamDepot option \<Rightarrow> SlipstreamMessage list" where
  "queue_of d = (case d of None \<Rightarrow> [] | Some d \<Rightarrow> dp_queue d)"

definition holds :: "SlipstreamWorker \<Rightarrow> SlipstreamMessage list" where
  "holds w = (case wk_pc w of W_Handling m \<Rightarrow> [m] | _ \<Rightarrow> [])"

definition held :: "SlipstreamEngine \<Rightarrow> SlipstreamMessage list" where
  "held e = concat (map holds (en_workers e))"

lemma mset_concat_update:
  "i < length xs \<Longrightarrow> mset (concat (map g (xs[i := x]))) + mset (g (xs ! i)) = mset (concat (map g xs)) + mset (g x)"
proof (induction xs arbitrary: i)
  case (Cons y ys)
  then show ?case
    by (cases i) (auto simp: ac_simps)
qed simp

lemma held_set_worker:
  assumes "i < length (en_workers e)"
  shows "mset (held (set_worker i w e)) + mset (holds (en_workers e ! i)) = mset (held e) + mset (holds w)"
  using mset_concat_update [OF assms, of holds w] by (simp add: held_def set_worker_def)

lemma held_same:
  assumes "i < length (en_workers e)" and "wk_pc w = wk_pc (en_workers e ! i)"
  shows "mset (held (set_worker i w e)) = mset (held e)"
  using held_set_worker [OF assms(1), of w] assms(2) by (simp add: holds_def)

subsection \<open>The invariant\<close>

definition engine_inv :: "en_event list \<Rightarrow> SlipstreamEngine \<Rightarrow> bool" where
  "engine_inv evs e \<longleftrightarrow>
     sent evs = taken evs @ queue_of (en_ingress e) \<and>
     mset (taken evs) = mset (handled evs) + mset (held e) \<and>
     (\<forall>d. en_ingress e = Some d \<longrightarrow> length (dp_queue d) \<le> dp_capacity d \<and> dp_capacity d = depot_default_capacity) \<and>
     (en_ingress e = None \<longrightarrow> en_workers e = [] \<and> en_egress e = None)"

definition answers_inv :: "en_event list \<Rightarrow> SlipstreamEngine \<Rightarrow> bool" where
  "answers_inv evs e \<longleftrightarrow>
     en_handlers e = [] \<and>
     subseq (received_by_client evs @ queue_of (en_egress e)) (echoes evs) \<and>
     (length (echoes evs) \<le> depot_default_capacity \<longrightarrow> received_by_client evs @ queue_of (en_egress e) = echoes evs) \<and>
     (\<forall>d. en_egress e = Some d \<longrightarrow> dp_capacity d = depot_default_capacity)"

subsection \<open>Every step keeps it\<close>

lemma set_worker_sel [simp]:
  "en_ingress (set_worker i w e) = en_ingress e" "en_egress (set_worker i w e) = en_egress e"
  "en_handlers (set_worker i w e) = en_handlers e"
  "en_workers (set_worker i w e) = (en_workers e)[i := w]"
  by (simp_all add: set_worker_def)

lemma held_update [simp]:
  "held (e\<lparr>en_ingress := x\<rparr>) = held e" "held (e\<lparr>en_egress := x\<rparr>) = held e" "held (e\<lparr>en_running := b\<rparr>) = held e"
  "held (e\<lparr>en_monitor_running := b\<rparr>) = held e" "held (e\<lparr>en_snapshot := s\<rparr>) = held e" "held (e\<lparr>en_handlers := hs\<rparr>) = held e"
  by (simp_all add: held_def)

lemma holds_start: "wk_pc w \<noteq> W_Stopped \<longrightarrow> wk_running w \<Longrightarrow> holds (worker_start w) = holds w"
  by (auto simp: worker_start_def holds_def split: worker_pc.splits)

lemma holds_new: "concat (map holds (map new_worker ns)) = []"
  by (simp add: holds_def new_worker_def)

text \<open>A thread that has not left its loop is marked as running.\<close>

definition threads_ok :: "SlipstreamEngine \<Rightarrow> bool" where
  "threads_ok e \<longleftrightarrow> (\<forall>w \<in> set (en_workers e). wk_pc w \<noteq> W_Stopped \<longrightarrow> wk_running w)"

lemma threads_ok_set:
  "threads_ok e \<Longrightarrow> wk_pc w \<noteq> W_Stopped \<longrightarrow> wk_running w \<Longrightarrow> threads_ok (set_worker i w e)"
  using set_update_subset_insert [of "en_workers e" i w] by (auto simp: threads_ok_def)

lemma threads_ok_nth: "threads_ok e \<Longrightarrow> i < length (en_workers e) \<Longrightarrow> wk_pc (en_workers e ! i) \<noteq> W_Stopped \<Longrightarrow>
    wk_running (en_workers e ! i)"
  by (simp add: threads_ok_def)

lemma threads_ok_step:
  assumes "threads_ok e" and "en_step a e = Some (ev, e')"
  shows "threads_ok e'"
proof (cases a)
  case (A_Worker i now)
  with assms obtain din dout where "workerLoop_step i now din dout e = Some (ev, e')" "i < length (en_workers e)"
    by (auto split: option.splits if_splits)
  moreover have "threads_ok (e\<lparr>en_ingress := x\<rparr>)" "threads_ok (e\<lparr>en_egress := y\<rparr>)" for x y
    using assms(1) by (simp_all add: threads_ok_def)
  ultimately show ?thesis
    using threads_ok_nth [OF assms(1)] assms(1)
    by (auto simp: workerLoop_step_def Let_def intro!: threads_ok_set split: worker_pc.splits if_splits prod.splits option.splits)
next
  case (A_Send m)
  with assms show ?thesis by (auto simp: send_step_def threads_ok_def case_prod_beta)
next
  case A_Receive
  with assms show ?thesis by (auto simp: receive_step_def threads_ok_def case_prod_beta)
next
  case A_Start
  with assms show ?thesis
    by (auto simp: en_start_def en_initialize_def threads_ok_def worker_start_def Let_def split: if_splits)
next
  case (A_Initialize n)
  with assms show ?thesis by (auto simp: en_initialize_def threads_ok_def new_worker_def split: if_splits)
next
  case (A_StopWorker i)
  with assms threads_ok_nth show ?thesis by (auto intro!: threads_ok_set split: if_splits)
next
  case (A_JoinWorker i)
  with assms show ?thesis by (auto intro!: threads_ok_set split: if_splits)
qed (use assms in \<open>auto simp: registerHandler_def threads_ok_def split: if_splits\<close>)

lemma engine_inv_send:
  assumes "engine_inv evs e" and "en_ingress e = Some d" and "send_step m d e = (ev, e')"
  shows "engine_inv (evs @ ev) e'"
proof -
  obtain ok d' where d': "deposit m d = (ok, d')"
    by fastforce
  have q: "sent evs = taken evs @ dp_queue d" "length (dp_queue d) \<le> dp_capacity d"
    using assms(1,2) by (simp_all add: engine_inv_def queue_of_def)
  have e': "e' = e\<lparr>en_ingress := Some d'\<rparr>" "ev = [if ok then E_Sent m else E_Dropped m]"
    using assms(3) d' by (simp_all add: send_step_def)
  have "sent evs @ (if ok then [m] else []) = taken evs @ dp_queue d'"
    using commands.put_log [OF q(1), of m] d' by simp
  moreover have "length (dp_queue d') \<le> dp_capacity d'" "dp_capacity d' = dp_capacity d"
    using commands.put_bounded [OF q(2), of m] commands.put_bound [of m d] d' by simp_all
  ultimately show ?thesis
    using assms(1,2) e' by (cases ok) (simp_all add: engine_inv_def queue_of_def)
qed

lemma engine_inv_worker:
  assumes "engine_inv evs e" and "en_ingress e = Some din" and "i < length (en_workers e)"
    and "workerLoop_step i now din dout e = Some (ev, e')"
  shows "engine_inv (evs @ ev) e'"
proof -
  let ?w = "en_workers e ! i"
  have q: "sent evs = taken evs @ dp_queue din" "length (dp_queue din) \<le> dp_capacity din"
    and h: "mset (taken evs) = mset (handled evs) + mset (held e)"
    using assms(1,2) by (simp_all add: engine_inv_def queue_of_def)
  show ?thesis
  proof (cases "wk_pc ?w")
    case W_Stopped
    with assms(4) show ?thesis by (simp add: workerLoop_step_def)
  next
    case (W_Handling m)
    define e1 where "e1 = e\<lparr>en_egress := Some (run_handler now (en_handlers e) m dout)\<rparr>"
    have e': "e' = set_worker i (?w\<lparr>wk_pc := W_Loop\<rparr>) e1" "ev = [E_Handled i now m]"
      using assms(4) W_Handling by (simp_all add: workerLoop_step_def e1_def)
    have "mset (held e') + {#m#} = mset (held e)"
      using held_set_worker [of i e1 "?w\<lparr>wk_pc := W_Loop\<rparr>"] assms(3) W_Handling e' by (simp add: e1_def holds_def)
    then show ?thesis
      using assms(1,2) h e' by (auto simp: engine_inv_def queue_of_def e1_def)
  next
    case W_Loop
    show ?thesis
    proof (cases "wk_stop_requested ?w")
      case True
      have e': "e' = set_worker i (?w\<lparr>wk_pc := W_Stopped\<rparr>) e" "ev = []"
        using assms(4) W_Loop True by (simp_all add: workerLoop_step_def)
      have "mset (held e') = mset (held e)"
        using held_set_worker [OF assms(3), of "?w\<lparr>wk_pc := W_Stopped\<rparr>"] W_Loop e' by (simp add: holds_def)
      then show ?thesis
        using assms(1,2) e' by (simp add: engine_inv_def queue_of_def)
    next
      case False
      obtain r din' where r: "collect din = (r, din')"
        by fastforce
      define e1 where "e1 = e\<lparr>en_ingress := Some din'\<rparr>"
      have bd: "length (dp_queue din') \<le> dp_capacity din'" "dp_capacity din' = dp_capacity din"
        using commands.get_bounded [OF q(2)] commands.get_bound [of din] r by simp_all
      have lg: "sent evs = (taken evs @ (case r of None \<Rightarrow> [] | Some x \<Rightarrow> [x])) @ dp_queue din'"
        using commands.get_log [OF q(1)] r by simp
      show ?thesis
      proof (cases r)
        case None
        then have "e' = e1" "ev = []"
          using assms(4) W_Loop False r by (simp_all add: workerLoop_step_def e1_def)
        then show ?thesis
          using assms(1,2) lg bd None by (simp add: engine_inv_def queue_of_def e1_def)
      next
        case (Some m)
        then have e': "e' = set_worker i (?w\<lparr>wk_pc := W_Handling m\<rparr>) e1" "ev = [E_Taken i m]"
          using assms(4) W_Loop False r by (simp_all add: workerLoop_step_def e1_def)
        have "mset (held e') = mset (held e) + {#m#}"
          using held_set_worker [of i e1 "?w\<lparr>wk_pc := W_Handling m\<rparr>"] assms(3) W_Loop e' by (simp add: e1_def holds_def)
        then show ?thesis
          using assms(1,2) lg bd Some h e' by (simp add: engine_inv_def queue_of_def e1_def)
      qed
    qed
  qed
qed

lemma engine_inv_initialize: "engine_inv evs e \<Longrightarrow> engine_inv evs (en_initialize n e)"
  using holds_new [of "[0..<n]"]
  by (auto simp: engine_inv_def en_initialize_def queue_of_def new_depot_def held_def)

lemma engine_inv_start:
  assumes "engine_inv evs e" and "threads_ok e"
  shows "engine_inv evs (en_start e)"
proof -
  define e1 where "e1 = (if en_ingress e = None then en_initialize 4 e else e)"
  have e1: "engine_inv evs e1" "threads_ok e1"
    using assms engine_inv_initialize threads_ok_step [of e "A_Initialize 4" "[]"] by (auto simp: e1_def)
  have "map holds (map worker_start (en_workers e1)) = map holds (en_workers e1)"
    using e1(2) by (auto simp: threads_ok_def holds_start)
  then have "concat (map holds (map worker_start (en_workers e1))) = held e1"
    by (simp only: held_def)
  then have h: "held (e1\<lparr>en_running := True, en_workers := map worker_start (en_workers e1), en_monitor_running := True\<rparr>) = held e1"
    by (simp add: held_def)
  show ?thesis
  proof (cases "en_running e")
    case True
    with assms show ?thesis by (simp add: en_start_def)
  next
    case False
    have "engine_inv evs (e1\<lparr>en_running := True, en_workers := map worker_start (en_workers e1), en_monitor_running := True\<rparr>)"
      using e1(1) unfolding engine_inv_def h by auto
    with False show ?thesis
      by (simp add: en_start_def e1_def Let_def)
  qed
qed

lemma engine_inv_step:
  assumes "engine_inv evs e" and "threads_ok e" and "en_step a e = Some (ev, e')"
  shows "engine_inv (evs @ ev) e'"
proof (cases a)
  case (A_Worker i now)
  with assms engine_inv_worker show ?thesis
    by (auto split: option.splits if_splits)
next
  case (A_Send m)
  with assms engine_inv_send show ?thesis
    by auto
next
  case A_Receive
  with assms show ?thesis
    by (cases "fst (tryCollect (the (en_egress e)))") (auto simp: receive_step_def engine_inv_def case_prod_beta)
next
  case A_Start
  with assms engine_inv_start show ?thesis
    by auto
next
  case (A_Initialize n)
  with assms engine_inv_initialize show ?thesis
    by auto
next
  case (A_StopWorker i)
  with assms show ?thesis
    by (auto simp: engine_inv_def held_same split: if_splits)
next
  case (A_JoinWorker i)
  with assms show ?thesis
    by (auto simp: engine_inv_def held_same split: if_splits)
qed (use assms in \<open>auto simp: engine_inv_def registerHandler_def split: if_splits\<close>)

subsection \<open>Answers\<close>

definition registers :: "en_action \<Rightarrow> bool" where
  "registers a = (case a of A_Register ty h \<Rightarrow> True | _ \<Rightarrow> False)"

lemma answers_inv_worker:
  assumes "answers_inv evs e" and "en_egress e = Some dout" and "workerLoop_step i now din dout e = Some (ev, e')"
  shows "answers_inv (evs @ ev) e'"
proof (cases "wk_pc (en_workers e ! i)")
  case (W_Handling m)
  define x where "x = echo_response now m"
  obtain ok d' where d': "deposit x dout = (ok, d')"
    by fastforce
  have e': "en_handlers e' = []" "en_egress e' = Some d'" "ev = [E_Handled i now m]"
    using assms W_Handling d' by (auto simp: workerLoop_step_def answers_inv_def run_handler_def x_def)
  let ?l = "received_by_client evs @ dp_queue dout"
  have s: "subseq ?l (echoes evs)" "dp_capacity dout = depot_default_capacity"
    and eq: "length (echoes evs) \<le> depot_default_capacity \<Longrightarrow> ?l = echoes evs"
    using assms(1,2) by (simp_all add: answers_inv_def queue_of_def)
  have q: "dp_queue d' = dp_queue dout @ (if length (dp_queue dout) < depot_default_capacity then [x] else [])"
    using answers.put_contents [of x dout] d' s(2) by simp
  have "subseq (?l @ [x]) (echoes evs @ [x])" "subseq ?l (echoes evs @ [x])"
    using list_emb_append_mono [OF s(1), of "[x]" "[x]"] list_emb_append_mono [OF s(1), of "[]" "[x]"] by simp_all
  moreover have "received_by_client evs @ dp_queue d' = echoes evs @ [x]" if "Suc (length (echoes evs)) \<le> depot_default_capacity"
  proof -
    have l: "?l = echoes evs"
      using that by (intro eq) simp
    then have "length (dp_queue dout) < depot_default_capacity"
      using that arg_cong [OF l, of length] unfolding length_append by linarith
    with l q show ?thesis
      by simp
  qed
  moreover have "dp_capacity d' = depot_default_capacity"
    using answers.put_bound [of x dout] d' s(2) by simp
  ultimately show ?thesis
    using e' q by (auto simp: answers_inv_def queue_of_def x_def)
qed (use assms in \<open>auto simp: workerLoop_step_def answers_inv_def Let_def split: if_splits prod.splits option.splits\<close>)

lemma answers_inv_receive:
  assumes "answers_inv evs e" and "en_egress e = Some d" and "receive_step d e = (ev, e')"
  shows "answers_inv (evs @ ev) e'"
proof -
  obtain r d' where r: "tryCollect d = (r, d')"
    by fastforce
  have "dp_queue d = (case r of None \<Rightarrow> [] | Some x \<Rightarrow> [x]) @ dp_queue d'" "dp_capacity d' = dp_capacity d"
    using answers.get_contents [of d] answers.get_bound [of d] r by simp_all
  then show ?thesis
    using assms r by (cases r) (auto simp: receive_step_def answers_inv_def queue_of_def)
qed

lemma answers_inv_step:
  assumes "answers_inv evs e" and "engine_inv evs e" and "\<not> registers a" and "en_step a e = Some (ev, e')"
  shows "answers_inv (evs @ ev) e'"
proof (cases a)
  case (A_Worker i now)
  with assms answers_inv_worker show ?thesis
    by (auto split: option.splits if_splits)
next
  case A_Receive
  with assms answers_inv_receive show ?thesis
    by auto
next
  case (A_Send m)
  with assms show ?thesis
    by (auto simp: send_step_def answers_inv_def case_prod_beta)
next
  case A_Start
  with assms show ?thesis
    by (auto simp: en_start_def en_initialize_def answers_inv_def engine_inv_def queue_of_def new_depot_def Let_def split: if_splits)
next
  case (A_Initialize n)
  with assms show ?thesis
    by (auto simp: en_initialize_def answers_inv_def engine_inv_def queue_of_def new_depot_def split: if_splits)
qed (use assms in \<open>auto simp: answers_inv_def registers_def split: if_splits\<close>)

subsection \<open>Runs\<close>

lemma en_run_inv:
  assumes "engine_inv evs e" and "threads_ok e" and "en_run as e = Some (evs', e')"
  shows "engine_inv (evs @ evs') e' \<and> threads_ok e' \<and>
     ((\<forall>a \<in> set as. \<not> registers a) \<longrightarrow> answers_inv evs e \<longrightarrow> answers_inv (evs @ evs') e')"
  using assms
proof (induction as arbitrary: evs e evs')
  case (Cons a as)
  obtain ev e1 evs1 where s: "en_step a e = Some (ev, e1)" "en_run as e1 = Some (evs1, e')" "evs' = ev @ evs1"
    using Cons.prems(3) by (auto split: option.splits)
  have "engine_inv (evs @ ev) e1" "threads_ok e1"
    using engine_inv_step threads_ok_step Cons.prems s by blast+
  note IH = Cons.IH [OF this s(2)]
  moreover have "\<not> registers a \<longrightarrow> answers_inv evs e \<longrightarrow> answers_inv (evs @ ev) e1"
    using answers_inv_step Cons.prems(1) s(1) by blast
  ultimately show ?case
    using s(3) by simp
qed simp

lemma new_engine_inv: "engine_inv [] new_engine" "threads_ok new_engine" "answers_inv [] new_engine"
  by (simp_all add: engine_inv_def threads_ok_def answers_inv_def new_engine_def queue_of_def held_def)

text \<open>C38. Over every interleaving of owner, clients, workers and monitor the slipstream bus neither loses, duplicates nor
  reorders a command: the accepted commands are, in order, those taken by workers followed by those in the queue; the
  taken ones are those handled and those a worker holds.  While no handler is registered the answers that clients
  received, followed by those that wait, are a subsequence of the echoes of the handled commands, and all of them
  as long as they fit into one depot.\<close>

theorem slipstream_conserves:
  assumes "en_run as new_engine = Some (evs, e)"
  shows "sent evs = taken evs @ queue_of (en_ingress e) \<and>
     mset (taken evs) = mset (handled evs) + mset (held e) \<and>
     length (queue_of (en_ingress e)) \<le> 10000 \<and>
     ((\<forall>a \<in> set as. \<not> registers a) \<longrightarrow>
        subseq (received_by_client evs @ queue_of (en_egress e)) (echoes evs) \<and>
        (length (echoes evs) \<le> 10000 \<longrightarrow> received_by_client evs @ queue_of (en_egress e) = echoes evs))"
  using en_run_inv [OF new_engine_inv(1,2) assms] new_engine_inv(3)
  by (auto simp: engine_inv_def answers_inv_def depot_default_capacity_def queue_of_def split: option.splits)

definition demo_cmd :: "u32 \<Rightarrow> SlipstreamMessage" where
  "demo_cmd n = slip_create 0 CMD_EXECUTE [7] n"

definition demo_actions :: "en_action list" where
  "demo_actions = [A_Initialize 2, A_Start, A_Send (demo_cmd 1), A_Send (demo_cmd 2), A_Worker 1 5, A_Worker 0 5,
     A_Worker 0 6, A_Worker 1 7, A_Receive]"

theorem slipstream_conserves_witness:
  "\<exists>evs e. en_run demo_actions new_engine = Some (evs, e) \<and> sent evs = [demo_cmd 1, demo_cmd 2] \<and>
     received_by_client evs = [echo_response 6 (demo_cmd 2)] \<and>
     received_by_client evs @ queue_of (en_egress e) = echoes evs"
proof -
  have "\<exists>evs e. en_run demo_actions new_engine = Some (evs, e)"
    by (simp add: demo_actions_def new_engine_def en_initialize_def en_start_def depot_default_capacity_def new_worker_def
        worker_start_def new_depot_def send_step_def deposit_def workerLoop_step_def collect_def take_front_def set_worker_def
        run_handler_def receive_step_def tryCollect_def numeral_2_eq_2)
  then obtain evs e where r: "en_run demo_actions new_engine = Some (evs, e)"
    by blast
  moreover have "sent evs = [demo_cmd 1, demo_cmd 2] \<and> received_by_client evs = [echo_response 6 (demo_cmd 2)] \<and>
      length (echoes evs) = 2"
    using r by (auto simp: demo_actions_def new_engine_def en_initialize_def en_start_def depot_default_capacity_def new_worker_def
        worker_start_def new_depot_def send_step_def deposit_def workerLoop_step_def collect_def take_front_def set_worker_def
        run_handler_def receive_step_def tryCollect_def log_defs List.map_filter_def numeral_2_eq_2)
  moreover have "\<forall>a \<in> set demo_actions. \<not> registers a"
    by (simp add: demo_actions_def registers_def)
  ultimately show ?thesis
    using slipstream_conserves [OF r] by auto
qed

end
