(* ===== verification/Staging_Pool.thy ===== *)
theory Staging_Pool
  imports Std_String "HOL-Library.Multiset"
begin

text \<open>
  The pool of staging buffers of \<^verbatim>\<open>code/src/staging_manager.cpp\<close> and its header, and its contract with clients.

  Addresses are numbers, zero is the null pointer; the two allocators are arguments that give the address of the
  \<open>i\<close>-th buffer, or nothing.  The memory holds one block of bytes per address.  Every operation holds the mutex, so it is one
  step.
\<close>

subsection \<open>The pool\<close>

type_synonym host_address = nat

datatype HostStagingError = OutOfMemory | InvalidSize | TransferFailed | PoolExhausted | NotAligned | StagingUnknown

fun staging_error_to_string :: "HostStagingError \<Rightarrow> string" where
  "staging_error_to_string OutOfMemory = ''OutOfMemory''"
| "staging_error_to_string InvalidSize = ''InvalidSize''"
| "staging_error_to_string TransferFailed = ''TransferFailed''"
| "staging_error_to_string PoolExhausted = ''PoolExhausted''"
| "staging_error_to_string NotAligned = ''NotAligned''"
| "staging_error_to_string StagingUnknown = ''Unknown''"

record StagingBuffer =
  sb_data :: host_address
  sb_capacity :: nat
  sb_used :: nat

record StagingConfig =
  sc_buffer_count :: u64
  sc_buffer_size_bytes :: u64
  sc_pinned :: bool

record HostBuffer =
  hb_vec :: host_address
  hb_vec_size :: nat
  hb_pinned_ptr :: "host_address option"
  hb_size :: nat

definition hb_data :: "HostBuffer \<Rightarrow> host_address" where
  "hb_data b = (case hb_pinned_ptr b of Some p \<Rightarrow> p | None \<Rightarrow> hb_vec b)"

definition hb_empty :: "HostBuffer \<Rightarrow> bool" where
  "hb_empty b \<longleftrightarrow> hb_pinned_ptr b = None \<and> hb_vec_size b = 0"

definition host_buffer :: "host_address \<Rightarrow> nat \<Rightarrow> HostBuffer" where
  "host_buffer a n = \<lparr>hb_vec = (if n = 0 then 0 else a), hb_vec_size = n, hb_pinned_ptr = None, hb_size = n\<rparr>"

definition pinned_buffer :: "host_address \<Rightarrow> nat \<Rightarrow> HostBuffer" where
  "pinned_buffer a n = \<lparr>hb_vec = 0, hb_vec_size = 0, hb_pinned_ptr = Some a, hb_size = n\<rparr>"

record StagingPool =
  sg_cfg :: StagingConfig
  sg_buffers :: "HostBuffer list"
  sg_free :: "nat list"

text \<open>The pinned buffers, or none when one of the allocations fails.\<close>

fun pinned_buffers :: "(nat \<Rightarrow> host_address option) \<Rightarrow> nat \<Rightarrow> nat list \<Rightarrow> HostBuffer list option" where
  "pinned_buffers hip n [] = Some []"
| "pinned_buffers hip n (i # is) = (case hip i of None \<Rightarrow> None
     | Some a \<Rightarrow> map_option ((#) (pinned_buffer a n)) (pinned_buffers hip n is))"

definition new_pool :: "bool \<Rightarrow> (nat \<Rightarrow> host_address option) \<Rightarrow> (nat \<Rightarrow> host_address) \<Rightarrow> StagingConfig \<Rightarrow> StagingPool" where
  "new_pool has_hip hip vec_alloc cfg =
     (let k = unat (sc_buffer_count cfg); n = unat (sc_buffer_size_bytes cfg);
          plain = map (\<lambda>i. host_buffer (vec_alloc i) n) [0..<k];
          bs = (if has_hip \<and> sc_pinned cfg then
                  (case pinned_buffers hip n [0..<k] of None \<Rightarrow> plain | Some ps \<Rightarrow> if ps = [] then plain else ps)
                else plain)
      in \<lparr>sg_cfg = cfg, sg_buffers = bs, sg_free = [0..<k]\<rparr>)"

definition available_count :: "StagingPool \<Rightarrow> nat" where
  "available_count p = length (sg_free p)"

definition acquire :: "StagingPool \<Rightarrow> (HostStagingError, StagingBuffer) expected \<times> StagingPool" where
  "acquire p = (case sg_free p of
      [] \<Rightarrow> (Inl PoolExhausted, p)
    | i # is \<Rightarrow>
        (let b = sg_buffers p ! i
         in (Inr \<lparr>sb_data = hb_data b, sb_capacity = hb_size b, sb_used = 0\<rparr>, p\<lparr>sg_free := is\<rparr>)))"

definition release_buffer :: "StagingBuffer \<Rightarrow> StagingPool \<Rightarrow> StagingPool" where
  "release_buffer buf p = (case find_first (\<lambda>b. \<not> hb_empty b \<and> hb_data b = sb_data buf) (sg_buffers p) of
      None \<Rightarrow> p
    | Some i \<Rightarrow> p\<lparr>sg_free := sg_free p @ [i]\<rparr>)"

definition copy_in ::
  "StagingBuffer \<Rightarrow> byte list \<Rightarrow> (host_address \<Rightarrow> byte list) \<Rightarrow> nat \<times> StagingBuffer \<times> (host_address \<Rightarrow> byte list)" where
  "copy_in dst src mem =
     (let k = min (length src) (sb_capacity dst)
      in (k, dst\<lparr>sb_used := k\<rparr>, mem(sb_data dst := take k src @ drop k (mem (sb_data dst)))))"

definition total_capacity :: "StagingPool \<Rightarrow> u64" where
  "total_capacity p = sc_buffer_count (sg_cfg p) * sc_buffer_size_bytes (sg_cfg p)"

subsection \<open>Clients\<close>

text \<open>A client that gives back only buffers it holds, each once.  The state is the pool with the buffers held.\<close>

datatype pool_op = P_Acquire | P_Release nat

fun pool_step :: "pool_op \<Rightarrow> StagingPool \<times> StagingBuffer list \<Rightarrow> StagingPool \<times> StagingBuffer list" where
  "pool_step P_Acquire (p, hs) = (case acquire p of (Inl e, p') \<Rightarrow> (p', hs) | (Inr b, p') \<Rightarrow> (p', hs @ [b]))"
| "pool_step (P_Release k) (p, hs) =
     (if k < length hs then (release_buffer (hs ! k) p, take k hs @ drop (Suc k) hs) else (p, hs))"

definition pool_run :: "pool_op list \<Rightarrow> StagingPool \<times> StagingBuffer list \<Rightarrow> StagingPool \<times> StagingBuffer list" where
  "pool_run ops s = fold pool_step ops s"

definition buffers_ok :: "HostBuffer list \<Rightarrow> bool" where
  "buffers_ok bs \<longleftrightarrow> distinct (map hb_data bs) \<and> list_all (\<lambda>b. \<not> hb_empty b) bs"

definition handle_of :: "StagingPool \<Rightarrow> nat \<Rightarrow> StagingBuffer" where
  "handle_of p i = \<lparr>sb_data = hb_data (sg_buffers p ! i), sb_capacity = hb_size (sg_buffers p ! i), sb_used = 0\<rparr>"

definition pool_inv :: "nat list \<Rightarrow> StagingPool \<times> StagingBuffer list \<Rightarrow> bool" where
  "pool_inv used s \<longleftrightarrow> (case s of (p, hs) \<Rightarrow>
     buffers_ok (sg_buffers p) \<and> hs = map (handle_of p) used \<and>
     mset (sg_free p) + mset used = mset [0..<length (sg_buffers p)])"

lemma find_first_nth:
  "i < length xs \<Longrightarrow> P (xs ! i) \<Longrightarrow> (\<forall>j < length xs. P (xs ! j) \<longrightarrow> j = i) \<Longrightarrow> find_first P xs = Some i"
proof (cases "find_first P xs")
  case None
  then show "i < length xs \<Longrightarrow> P (xs ! i) \<Longrightarrow> find_first P xs = Some i"
    by (auto simp: find_first_None)
next
  case (Some k)
  then show "\<forall>j < length xs. P (xs ! j) \<longrightarrow> j = i \<Longrightarrow> find_first P xs = Some i"
    using find_first_SomeD [OF Some] by auto
qed

lemma release_held:
  assumes "buffers_ok (sg_buffers p)" and "i < length (sg_buffers p)"
  shows "release_buffer (handle_of p i) p = p\<lparr>sg_free := sg_free p @ [i]\<rparr>"
proof -
  have "find_first (\<lambda>b. \<not> hb_empty b \<and> hb_data b = hb_data (sg_buffers p ! i)) (sg_buffers p) = Some i"
    using assms by (intro find_first_nth)
      (auto simp: buffers_ok_def list_all_length distinct_conv_nth)
  then show ?thesis
    by (simp add: release_buffer_def handle_of_def)
qed

lemma handle_of_free [simp]: "handle_of (p\<lparr>sg_free := x\<rparr>) = handle_of p"
  by (simp add: handle_of_def fun_eq_iff)

lemma pool_inv_step:
  assumes "pool_inv used (p, hs)"
  shows "\<exists>used'. pool_inv used' (pool_step c (p, hs)) \<and> sg_buffers (fst (pool_step c (p, hs))) = sg_buffers p"
proof (cases c)
  case P_Acquire
  show ?thesis
  proof (cases "sg_free p")
    case Nil
    with P_Acquire assms show ?thesis
      by (auto simp: acquire_def)
  next
    case (Cons i js)
    with P_Acquire assms have "pool_inv (used @ [i]) (pool_step c (p, hs))"
      by (auto simp: acquire_def pool_inv_def handle_of_def Let_def)
    with P_Acquire Cons show ?thesis
      by (auto simp: acquire_def Let_def)
  qed
next
  case (P_Release k)
  show ?thesis
  proof (cases "k < length hs")
    case True
    have k: "k < length used" "hs ! k = handle_of p (used ! k)"
      using True assms by (auto simp: pool_inv_def)
    have "mset (sg_free p @ used) = mset [0..<length (sg_buffers p)]"
      using assms by (simp add: pool_inv_def)
    from mset_eq_setD [OF this] have i: "used ! k < length (sg_buffers p)"
      using nth_mem [OF k(1)] by auto
    have used: "mset used = {#used ! k#} + mset (take k used @ drop (Suc k) used)"
      using k(1) by (subst id_take_nth_drop [OF k(1)]) simp
    have "pool_inv (take k used @ drop (Suc k) used) (pool_step c (p, hs))"
      using P_Release True assms release_held [of p "used ! k"] i k used
      by (auto simp: pool_inv_def take_map drop_map)
    moreover have "sg_buffers (fst (pool_step c (p, hs))) = sg_buffers p"
      using P_Release True release_held [of p "used ! k"] i k assms by (simp add: pool_inv_def)
    ultimately show ?thesis
      by blast
  qed (use P_Release assms in auto)
qed

lemma pool_inv_run:
  assumes "pool_inv used s"
  shows "\<exists>used'. pool_inv used' (pool_run ops s) \<and> sg_buffers (fst (pool_run ops s)) = sg_buffers (fst s)"
  using assms
proof (induction ops arbitrary: used s)
  case (Cons c ops)
  obtain p hs where s: "s = (p, hs)"
    by (cases s)
  obtain used' where "pool_inv used' (pool_step c s)" "sg_buffers (fst (pool_step c s)) = sg_buffers p"
    using pool_inv_step [of used p hs c] Cons.prems s by auto
  then show ?case
    using Cons.IH [of used' "pool_step c s"] by (simp add: pool_run_def s)
qed (auto simp: pool_run_def)

text \<open>What the allocators promise: blocks of their own.\<close>

definition allocators_ok :: "(nat \<Rightarrow> host_address option) \<Rightarrow> (nat \<Rightarrow> host_address) \<Rightarrow> bool" where
  "allocators_ok hip vec_alloc \<longleftrightarrow> inj vec_alloc \<and> (\<forall>i j. hip i \<noteq> None \<longrightarrow> hip i = hip j \<longrightarrow> i = j)"

lemma pinned_buffers_nth:
  "pinned_buffers hip n js = Some bs \<Longrightarrow>
     length bs = length js \<and> (\<forall>k < length js. \<exists>a. hip (js ! k) = Some a \<and> bs ! k = pinned_buffer a n)"
proof (induction js arbitrary: bs)
  case (Cons j js)
  then show ?case
    by (auto simp: nth_Cons split: option.splits nat.splits)
qed simp

lemma new_pool_ok:
  assumes "allocators_ok hip vec_alloc" and "0 < sc_buffer_size_bytes cfg"
  shows "buffers_ok (sg_buffers (new_pool has_hip hip vec_alloc cfg))"
    and "length (sg_buffers (new_pool has_hip hip vec_alloc cfg)) = unat (sc_buffer_count cfg)"
proof -
  let ?k = "unat (sc_buffer_count cfg)" and ?n = "unat (sc_buffer_size_bytes cfg)"
  have n: "0 < ?n"
    using assms(2) by (simp add: word_less_nat_alt)
  have plain: "buffers_ok (map (\<lambda>i. host_buffer (vec_alloc i) ?n) [0..<?k])"
    using assms(1) n by (auto simp: buffers_ok_def allocators_ok_def host_buffer_def hb_data_def hb_empty_def comp_def
        distinct_map inj_on_def list_all_iff dest: injD)
  have pinned: "buffers_ok bs \<and> length bs = ?k" if h: "pinned_buffers hip ?n [0..<?k] = Some bs" for bs
  proof -
    have nth: "length bs = ?k" "\<And>i. i < ?k \<Longrightarrow> \<exists>a. hip i = Some a \<and> bs ! i = pinned_buffer a ?n"
      using pinned_buffers_nth [OF h] by auto
    have "hb_data (bs ! i) \<noteq> hb_data (bs ! j)" if ij: "i < ?k" "j < ?k" "i \<noteq> j" for i j
    proof -
      obtain a b where "hip i = Some a" "bs ! i = pinned_buffer a ?n" "hip j = Some b" "bs ! j = pinned_buffer b ?n"
        using nth(2) [OF ij(1)] nth(2) [OF ij(2)] by blast
      moreover have "hip i = hip j \<longrightarrow> i = j"
        using assms(1) \<open>hip i = Some a\<close> unfolding allocators_ok_def by fastforce
      ultimately show ?thesis
        using \<open>i \<noteq> j\<close> by (auto simp: pinned_buffer_def hb_data_def)
    qed
    moreover have "\<not> hb_empty (bs ! i)" if "i < ?k" for i
      using nth(2) [OF that] by (auto simp: hb_empty_def pinned_buffer_def)
    ultimately show ?thesis
      using nth by (auto simp: buffers_ok_def distinct_conv_nth list_all_length)
  qed
  show "buffers_ok (sg_buffers (new_pool has_hip hip vec_alloc cfg))"
    using plain pinned by (auto simp: new_pool_def Let_def split: option.splits)
  show "length (sg_buffers (new_pool has_hip hip vec_alloc cfg)) = ?k"
    using pinned by (auto simp: new_pool_def Let_def split: option.splits)
qed

lemma distinct_handles:
  assumes "buffers_ok (sg_buffers p)" and "distinct js" and "set js \<subseteq> {0..<length (sg_buffers p)}"
  shows "distinct (map sb_data (map (handle_of p) js))"
proof -
  have "inj_on (\<lambda>i. hb_data (sg_buffers p ! i)) (set js)"
  proof (rule inj_onI)
    fix i j
    assume "i \<in> set js" "j \<in> set js" "hb_data (sg_buffers p ! i) = hb_data (sg_buffers p ! j)"
    moreover from this have "i < length (sg_buffers p)" "j < length (sg_buffers p)"
      using assms(3) by auto
    ultimately have "map hb_data (sg_buffers p) ! i = map hb_data (sg_buffers p) ! j"
      "i < length (sg_buffers p)" "j < length (sg_buffers p)"
      by simp_all
    with assms(1) show "i = j"
      by (simp add: buffers_ok_def nth_eq_iff_index_eq del: nth_map)
  qed
  with assms(2) show ?thesis
    by (simp add: distinct_map comp_def handle_of_def)
qed

text \<open>C30. The staging pool hands out every buffer to one holder at a time: when the allocators give blocks of their own and
  buffers are not empty, after any sequence of acquisitions and releases of held buffers no two held buffers share their
  memory, every free index is free once, and the number of free buffers is the pool size less the number held.\<close>

theorem staging_exclusive:
  assumes "allocators_ok hip vec_alloc" and "0 < sc_buffer_size_bytes cfg"
    and "pool_run ops (new_pool has_hip hip vec_alloc cfg, []) = (p', hs)"
  shows "distinct (map sb_data hs) \<and> distinct (sg_free p') \<and>
     available_count p' + length hs = unat (sc_buffer_count cfg)"
proof -
  define p where "p = new_pool has_hip hip vec_alloc cfg"
  note ok = new_pool_ok [OF assms(1,2), of has_hip, folded p_def]
  have "pool_inv [] (p, [])"
    using ok by (simp add: pool_inv_def) (simp add: p_def new_pool_def Let_def)
  then obtain used where u: "pool_inv used (p', hs)" and b: "sg_buffers p' = sg_buffers p"
    using pool_inv_run [of "[]" "(p, [])" ops] assms(3) p_def by auto
  have m: "mset (sg_free p' @ used) = mset [0..<length (sg_buffers p)]"
    using u b by (simp add: pool_inv_def)
  then have d: "distinct (sg_free p' @ used)"
    using mset_eq_imp_distinct_iff [OF m] by simp
  have r: "set (sg_free p' @ used) = {0..<length (sg_buffers p)}"
    using mset_eq_setD [OF m] by simp
  have "length (sg_free p' @ used) = length (sg_buffers p)"
    using mset_eq_length [OF m] by simp
  moreover have hs: "hs = map (handle_of p') used"
    using u by (simp add: pool_inv_def)
  moreover have "distinct (map sb_data hs)"
    unfolding hs using d r b ok(1) by (intro distinct_handles) auto
  ultimately show ?thesis
    using d ok(2) by (simp add: available_count_def)
qed

definition demo_pool_cfg :: StagingConfig where
  "demo_pool_cfg = \<lparr>sc_buffer_count = 2, sc_buffer_size_bytes = 64, sc_pinned = True\<rparr>"

theorem staging_exclusive_witness:
  "let (p, hs) = pool_run [P_Acquire, P_Acquire, P_Release 0, P_Acquire] (new_pool True (\<lambda>_. None) Suc demo_pool_cfg, [])
   in map sb_data hs = [2, 1] \<and> distinct (map sb_data hs) \<and> available_count p + length hs = 2"
proof -
  obtain p hs where r: "pool_run [P_Acquire, P_Acquire, P_Release 0, P_Acquire] (new_pool True (\<lambda>_. None) Suc demo_pool_cfg, []) = (p, hs)"
    by fastforce
  have "map sb_data hs = [2, 1]"
    using r by (auto simp: pool_run_def new_pool_def demo_pool_cfg_def acquire_def release_buffer_def host_buffer_def hb_data_def
        hb_empty_def Let_def upt_rec)
  moreover have "allocators_ok (\<lambda>_. None) Suc" "0 < sc_buffer_size_bytes demo_pool_cfg"
    by (simp_all add: allocators_ok_def demo_pool_cfg_def)
  ultimately show ?thesis
    using staging_exclusive [OF _ _ r] r by (simp add: demo_pool_cfg_def)
qed

subsection \<open>Outside the contract\<close>

text \<open>A buffer that is released twice is handed out twice: two later holders share its memory.\<close>

theorem double_release_aliases:
  "let p0 = new_pool False (\<lambda>_. None) Suc (demo_pool_cfg\<lparr>sc_buffer_count := 1\<rparr>)
   in case acquire p0 of (Inr b, p1) \<Rightarrow>
        (case acquire (release_buffer b (release_buffer b p1)) of (Inr x, p2) \<Rightarrow>
           (case acquire p2 of (Inr y, p3) \<Rightarrow> sb_data x = sb_data y | _ \<Rightarrow> False) | _ \<Rightarrow> False) | _ \<Rightarrow> False"
  by (simp add: new_pool_def demo_pool_cfg_def acquire_def release_buffer_def host_buffer_def hb_data_def hb_empty_def Let_def upt_rec)

text \<open>Buffers of size zero never come back to the pool.\<close>

theorem empty_buffers_drain:
  assumes "sc_buffer_size_bytes cfg = 0"
  shows "release_buffer b (new_pool False hip vec_alloc cfg) = new_pool False hip vec_alloc cfg"
proof -
  have "find_first (\<lambda>x. \<not> hb_empty x \<and> hb_data x = sb_data b) (sg_buffers (new_pool False hip vec_alloc cfg)) = None"
    using assms by (simp add: find_first_None new_pool_def host_buffer_def hb_empty_def Let_def)
  then show ?thesis
    by (simp add: release_buffer_def)
qed

text \<open>A copy keeps to the capacity and leaves other blocks alone.\<close>

theorem copy_in_spec:
  assumes "length (mem (sb_data dst)) = sb_capacity dst" and "copy_in dst src mem = (k, dst', mem')"
  shows "length (mem' (sb_data dst)) = sb_capacity dst \<and> take k (mem' (sb_data dst)) = take k src \<and>
     sb_used dst' = k \<and> k = min (length src) (sb_capacity dst) \<and> (\<forall>a. a \<noteq> sb_data dst \<longrightarrow> mem' a = mem a)"
  using assms by (auto simp: copy_in_def Let_def)

end
