(* ===== verification/Matmul_Kernels.thy ===== *)
theory Matmul_Kernels
  imports Float32 Prelude "HOL-Library.Monad_Syntax"
begin

text \<open>
  The matrix kernels of \<^verbatim>\<open>code/src/cerberus_native_kernels.cpp\<close> and \<^verbatim>\<open>code/src/cerberus_fused_kernels.cpp\<close>: the plain product, the
  cache-blocked product with its packed panels and register tiles, the AVX2 and AVX-512 variants, and the
  elementwise kernels.

  The loops are written over any arithmetic \<open>arith\<close>: a zero, an addition and a multiply-accumulate, which is rounded once
  or twice as the compiler and the instruction set decide.  \<open>float_arith\<close> and \<open>float_fma_arith\<close> are the arithmetic of
  the program.  Arrays are lists; a read or write outside an array makes the result \<open>None\<close>.  A null pointer is
  \<open>None\<close> as an argument.
\<close>

subsection \<open>Arrays and loops\<close>

record 'a arith =
  ar_zero :: 'a
  ar_add :: "'a \<Rightarrow> 'a \<Rightarrow> 'a"
  ar_mac :: "'a \<Rightarrow> 'a \<Rightarrow> 'a \<Rightarrow> 'a"

definition rd :: "'a list \<Rightarrow> nat \<Rightarrow> 'a option" where
  "rd xs i = (if i < length xs then Some (xs ! i) else None)"

definition upd_at :: "'a list \<Rightarrow> nat \<Rightarrow> ('a \<Rightarrow> 'a) \<Rightarrow> 'a list option" where
  "upd_at xs i f = (if i < length xs then Some (xs[i := f (xs ! i)]) else None)"

fun for_each :: "'x list \<Rightarrow> ('x \<Rightarrow> 's \<Rightarrow> 's option) \<Rightarrow> 's \<Rightarrow> 's option" where
  "for_each [] f s = Some s"
| "for_each (x # xs) f s = do { s1 \<leftarrow> f x s; for_each xs f s1 }"

text \<open>The values of a counter that starts at \<open>i\<close> and grows by \<open>w\<close> while it is below \<open>n\<close>.\<close>

function counter :: "nat \<Rightarrow> nat \<Rightarrow> nat \<Rightarrow> nat list" where
  "counter i n w = (if i < n \<and> 0 < w then i # counter (i + w) n w else [])"
  by pat_completeness auto
termination
  by (relation "measure (\<lambda>(i, n, w). n - i)") auto

declare counter.simps [simp del]

subsection \<open>Plain kernels\<close>

text \<open>The memory behind the output pointer may be longer than the result.\<close>

definition set_result :: "'a list \<Rightarrow> 'a list \<Rightarrow> 'a list option" where
  "set_result vs C = (if length vs \<le> length C then Some (vs @ drop (length vs) C) else None)"

definition matmul_cell :: "'a arith \<Rightarrow> 'a list \<Rightarrow> 'a list \<Rightarrow> nat \<Rightarrow> nat \<Rightarrow> nat \<Rightarrow> nat \<Rightarrow> 'a option" where
  "matmul_cell ar A B N K m n =
     for_each [0..<K] (\<lambda>k acc. do { a \<leftarrow> rd A (m * K + k); b \<leftarrow> rd B (k * N + n); Some (ar_mac ar acc a b) }) (ar_zero ar)"

definition kernel_matmul ::
  "'a arith \<Rightarrow> 'a list option \<Rightarrow> 'a list option \<Rightarrow> 'a list option \<Rightarrow> nat \<Rightarrow> nat \<Rightarrow> nat \<Rightarrow> (string, 'a list) expected option" where
  "kernel_matmul ar A B C M N K = (case (A, B, C) of
      (Some A, Some B, Some C) \<Rightarrow>
        if M = 0 \<or> N = 0 \<or> K = 0 then Some (Inl ''empty dimension'')
        else map_option Inr (for_each (List.product [0..<M] [0..<N])
               (\<lambda>(m, n) C. do { v \<leftarrow> matmul_cell ar A B N K m n; upd_at C (m * N + n) (\<lambda>_. v) }) C)
    | _ \<Rightarrow> Some (Inl ''null pointer''))"

definition elementwise ::
  "('a \<Rightarrow> 'a \<Rightarrow> 'a) \<Rightarrow> 'a list option \<Rightarrow> 'a list option \<Rightarrow> 'a list option \<Rightarrow> nat \<Rightarrow> (string, 'a list) expected option" where
  "elementwise f a b out elems = (case (a, b, out) of
      (Some a, Some b, Some out) \<Rightarrow>
        map_option Inr (for_each [0..<elems] (\<lambda>i out. do { x \<leftarrow> rd a i; y \<leftarrow> rd b i; upd_at out i (\<lambda>_. f x y) }) out)
    | _ \<Rightarrow> Some (Inl ''null pointer''))"

definition kernel_add ::
  "float32 list option \<Rightarrow> float32 list option \<Rightarrow> float32 list option \<Rightarrow> nat \<Rightarrow> (string, float32 list) expected option" where
  "kernel_add = elementwise f_add"

definition kernel_mul ::
  "float32 list option \<Rightarrow> float32 list option \<Rightarrow> float32 list option \<Rightarrow> nat \<Rightarrow> (string, float32 list) expected option" where
  "kernel_mul = elementwise f_mul"

definition relu :: "float32 \<Rightarrow> float32" where
  "relu x = (if f_less (F_Fin 0) x then x else F_Fin 0)"

definition kernel_relu ::
  "float32 list option \<Rightarrow> float32 list option \<Rightarrow> nat \<Rightarrow> (string, float32 list) expected option" where
  "kernel_relu inp out elems = (case (inp, out) of
      (Some inp, Some out) \<Rightarrow>
        map_option Inr (for_each [0..<elems] (\<lambda>i out. do { x \<leftarrow> rd inp i; upd_at out i (\<lambda>_. relu x) }) out)
    | _ \<Rightarrow> Some (Inl ''null pointer''))"

definition kernel_fma ::
  "'a arith \<Rightarrow> 'a list option \<Rightarrow> 'a list option \<Rightarrow> 'a list option \<Rightarrow> 'a list option \<Rightarrow> nat \<Rightarrow> (string, 'a list) expected option" where
  "kernel_fma ar a b c out elems = (case (a, b, c, out) of
      (Some a, Some b, Some c, Some out) \<Rightarrow>
        if elems = 0 then Some (Inl ''zero size'')
        else map_option Inr (for_each [0..<elems] (\<lambda>i out.
               do { x \<leftarrow> rd a i; y \<leftarrow> rd b i; z \<leftarrow> rd c i; upd_at out i (\<lambda>_. ar_mac ar z x y) }) out)
    | _ \<Rightarrow> Some (Inl ''null pointer''))"

datatype kernel_op = K_MatMul | K_Add | K_Mul | K_Other

text \<open>The dimensions come as signed numbers and are cast to \<^verbatim>\<open>size_t\<close>.\<close>

definition to_size :: "int \<Rightarrow> nat" where
  "to_size v = nat (v mod 2 ^ 64)"

definition kernel_execute ::
  "float32 arith \<Rightarrow> kernel_op \<Rightarrow> float32 list option list \<Rightarrow> float32 list option list \<Rightarrow> int list
   \<Rightarrow> (string, float32 list) expected option" where
  "kernel_execute ar op inputs outputs shapes =
     (let sz = (if shapes = [] then 0 else to_size (shapes ! 0))
      in case op of
           K_MatMul \<Rightarrow>
             if length inputs < 2 \<or> outputs = [] \<or> length shapes < 3 then Some (Inl ''MatMul: insufficient args'')
             else kernel_matmul ar (inputs ! 0) (inputs ! 1) (outputs ! 0) (to_size (shapes ! 0)) (to_size (shapes ! 1))
                    (to_size (shapes ! 2))
         | K_Add \<Rightarrow>
             if length inputs < 2 \<or> outputs = [] then Some (Inl ''Add: insufficient args'')
             else if sz = 0 then Some (Inl ''Add: zero size'')
             else kernel_add (inputs ! 0) (inputs ! 1) (outputs ! 0) sz
         | K_Mul \<Rightarrow>
             if length inputs < 2 \<or> outputs = [] then Some (Inl ''Mul: insufficient args'')
             else if sz = 0 then Some (Inl ''Mul: zero size'')
             else kernel_mul (inputs ! 0) (inputs ! 1) (outputs ! 0) sz
         | K_Other \<Rightarrow> Some (Inl ''unsupported OpType''))"

subsection \<open>The blocked product\<close>

definition MC :: nat where "MC = 64"
definition NC :: nat where "NC = 64"
definition KC :: nat where "KC = 64"
definition MR :: nat where "MR = 4"
definition NR :: nat where "NR = 4"

text \<open>Copy the elements at the given positions into a fresh panel.\<close>

definition pack :: "'a arith \<Rightarrow> nat \<Rightarrow> (nat \<times> nat) list \<Rightarrow> (nat \<times> nat \<Rightarrow> nat) \<Rightarrow> (nat \<times> nat \<Rightarrow> nat) \<Rightarrow> 'a list \<Rightarrow> 'a list option" where
  "pack ar cnt ps dst pos src =
     for_each ps (\<lambda>x buf. do { v \<leftarrow> rd src (pos x); upd_at buf (dst x) (\<lambda>_. v) }) (replicate cnt (ar_zero ar))"

definition micro_registers ::
  "'a arith \<Rightarrow> 'a list \<Rightarrow> nat \<Rightarrow> 'a list \<Rightarrow> nat \<Rightarrow> nat \<Rightarrow> nat \<Rightarrow> nat \<Rightarrow> nat \<Rightarrow> 'a list option" where
  "micro_registers ar A_panel a0 B_panel b0 kc mr nr nc =
     for_each [0..<kc] (\<lambda>k. for_each (List.product [0..<mr] [0..<nr]) (\<lambda>(i, j) c_reg.
       do { a \<leftarrow> rd A_panel (a0 + i * kc + k); b \<leftarrow> rd B_panel (b0 + k * nc + j);
            upd_at c_reg (i * NR + j) (\<lambda>v. ar_mac ar v a b) }))
       (replicate (MR * NR) (ar_zero ar))"

definition micro_kernel_4x4 ::
  "'a arith \<Rightarrow> 'a list \<Rightarrow> nat \<Rightarrow> 'a list \<Rightarrow> nat \<Rightarrow> nat \<Rightarrow> nat \<Rightarrow> nat \<Rightarrow> nat \<Rightarrow> nat \<Rightarrow> nat \<Rightarrow> 'a list \<Rightarrow> 'a list option" where
  "micro_kernel_4x4 ar A_panel a0 B_panel b0 c0 ldc kc mr nr nc C =
     do { c_reg \<leftarrow> micro_registers ar A_panel a0 B_panel b0 kc mr nr nc;
          for_each (List.product [0..<mr] [0..<nr]) (\<lambda>(i, j) C.
            do { r \<leftarrow> rd c_reg (i * NR + j); upd_at C (c0 + i * ldc + j) (\<lambda>v. ar_add ar v r) }) C }"

definition blocked_tile ::
  "'a arith \<Rightarrow> 'a list \<Rightarrow> 'a list \<Rightarrow> nat \<Rightarrow> nat \<Rightarrow> nat \<Rightarrow> nat \<Rightarrow> nat \<Rightarrow> nat \<Rightarrow> nat \<Rightarrow> nat \<Rightarrow> 'a list \<Rightarrow> 'a list option" where
  "blocked_tile ar A B M N K j k nc kc i C =
     (let mc = min MC (M - i)
      in do { B_panel \<leftarrow> pack ar (kc * nc) (List.product [0..<kc] [0..<nc])
                (\<lambda>(kk, jj). kk * nc + jj) (\<lambda>(kk, jj). (k + kk) * N + (j + jj)) B;
              A_panel \<leftarrow> pack ar (mc * kc) (List.product [0..<mc] [0..<kc])
                (\<lambda>(ii, kk). ii * kc + kk) (\<lambda>(ii, kk). (i + ii) * K + (k + kk)) A;
              for_each (counter 0 mc MR) (\<lambda>ii. for_each (counter 0 nc NR) (\<lambda>jj.
                micro_kernel_4x4 ar A_panel (ii * kc) B_panel jj ((i + ii) * N + (j + jj)) N kc
                  (min MR (mc - ii)) (min NR (nc - jj)) nc)) C })"

definition blocked_loops :: "'a arith \<Rightarrow> 'a list \<Rightarrow> 'a list \<Rightarrow> nat \<Rightarrow> nat \<Rightarrow> nat \<Rightarrow> 'a list \<Rightarrow> 'a list option" where
  "blocked_loops ar A B M N K =
     for_each (counter 0 N NC) (\<lambda>j. for_each (counter 0 K KC) (\<lambda>k. for_each (counter 0 M MC)
       (blocked_tile ar A B M N K j k (min NC (N - j)) (min KC (K - k)))))"

definition kernel_matmul_blocked ::
  "'a arith \<Rightarrow> 'a list option \<Rightarrow> 'a list option \<Rightarrow> 'a list option \<Rightarrow> nat \<Rightarrow> nat \<Rightarrow> nat \<Rightarrow> (string, 'a list) expected option" where
  "kernel_matmul_blocked ar A B C M N K = (case (A, B, C) of
      (Some A, Some B, Some C) \<Rightarrow>
        if M = 0 \<or> N = 0 \<or> K = 0 then Some (Inl ''empty dimension'')
        else map_option Inr (do { C0 \<leftarrow> set_result (replicate (M * N) (ar_zero ar)) C; blocked_loops ar A B M N K C0 })
    | _ \<Rightarrow> Some (Inl ''null pointer''))"

subsection \<open>Vector variants\<close>

text \<open>A register of lanes per column of the tile: after the loop, lane \<open>r\<close> of register \<open>c\<close> is the product of row \<open>r\<close> and
  column \<open>c\<close>.  The two variants differ in the width and in how the registers are added to the output: the AVX2
  kernel stores them into a scratch array first and reads that transposed, the AVX-512 kernel adds register \<open>c\<close> to row
  \<open>c\<close> of the output.\<close>

definition vector_registers :: "'a arith \<Rightarrow> nat \<Rightarrow> 'a list \<Rightarrow> 'a list \<Rightarrow> nat \<Rightarrow> 'a list option" where
  "vector_registers ar w A_tile B_tile kc =
     for_each [0..<kc] (\<lambda>kk. for_each (List.product [0..<w] [0..<w]) (\<lambda>(c, r) regs.
       do { a \<leftarrow> rd A_tile (kk * w + r); b \<leftarrow> rd B_tile (kk * w + c); upd_at regs (c * w + r) (\<lambda>v. ar_mac ar v a b) }))
       (replicate (w * w) (ar_zero ar))"

definition avx2_micro_kernel_8x8 :: "'a arith \<Rightarrow> 'a list \<Rightarrow> 'a list \<Rightarrow> nat \<Rightarrow> nat \<Rightarrow> nat \<Rightarrow> 'a list \<Rightarrow> 'a list option" where
  "avx2_micro_kernel_8x8 ar A_tile B_tile c0 ldc kc C =
     do { tmp \<leftarrow> vector_registers ar 8 A_tile B_tile kc;
          for_each (List.product [0..<8] [0..<8]) (\<lambda>(i, j) C.
            do { t \<leftarrow> rd tmp (j * 8 + i); upd_at C (c0 + i * ldc + j) (\<lambda>v. ar_add ar v t) }) C }"

definition avx512_micro_kernel_16x16 :: "'a arith \<Rightarrow> 'a list \<Rightarrow> 'a list \<Rightarrow> nat \<Rightarrow> nat \<Rightarrow> nat \<Rightarrow> 'a list \<Rightarrow> 'a list option" where
  "avx512_micro_kernel_16x16 ar A_tile B_tile c0 ldc kc C =
     do { regs \<leftarrow> vector_registers ar 16 A_tile B_tile kc;
          for_each (List.product [0..<16] [0..<16]) (\<lambda>(i, j) C.
            do { t \<leftarrow> rd regs (i * 16 + j); upd_at C (c0 + i * ldc + j) (\<lambda>v. ar_add ar v t) }) C }"

definition vector_tile ::
  "'a arith \<Rightarrow> nat \<Rightarrow> ('a list \<Rightarrow> 'a list \<Rightarrow> nat \<Rightarrow> nat \<Rightarrow> nat \<Rightarrow> 'a list \<Rightarrow> 'a list option)
   \<Rightarrow> 'a list \<Rightarrow> 'a list \<Rightarrow> nat \<Rightarrow> nat \<Rightarrow> nat \<Rightarrow> nat \<Rightarrow> nat \<Rightarrow> nat \<Rightarrow> 'a list \<Rightarrow> 'a list option" where
  "vector_tile ar w micro A B N K k kc row col C =
     do { A_tile \<leftarrow> pack ar (kc * w) (List.product [0..<kc] [0..<w]) (\<lambda>(kk, r). kk * w + r) (\<lambda>(kk, r). (row + r) * K + (k + kk)) A;
          B_tile \<leftarrow> pack ar (kc * w) (List.product [0..<kc] [0..<w]) (\<lambda>(kk, c). kk * w + c) (\<lambda>(kk, c). (k + kk) * N + (col + c)) B;
          micro A_tile B_tile (row * N + col) N kc C }"

definition vector_loops ::
  "'a arith \<Rightarrow> nat \<Rightarrow> nat \<Rightarrow> nat \<Rightarrow> nat \<Rightarrow> ('a list \<Rightarrow> 'a list \<Rightarrow> nat \<Rightarrow> nat \<Rightarrow> nat \<Rightarrow> 'a list \<Rightarrow> 'a list option)
   \<Rightarrow> 'a list \<Rightarrow> 'a list \<Rightarrow> nat \<Rightarrow> nat \<Rightarrow> nat \<Rightarrow> 'a list \<Rightarrow> 'a list option" where
  "vector_loops ar w mcb ncb kcb micro A B M N K =
     for_each (counter 0 N ncb) (\<lambda>j. for_each (counter 0 K kcb) (\<lambda>k. for_each (counter 0 M mcb) (\<lambda>i.
       for_each (counter 0 (min mcb (M - i) div w * w) w) (\<lambda>ii. for_each (counter 0 (min ncb (N - j) div w * w) w) (\<lambda>jj.
         vector_tile ar w micro A B N K k (min kcb (K - k)) (i + ii) (j + jj))))))"

definition kernel_matmul_blocked_avx2 ::
  "'a arith \<Rightarrow> 'a arith \<Rightarrow> 'a list option \<Rightarrow> 'a list option \<Rightarrow> 'a list option \<Rightarrow> nat \<Rightarrow> nat \<Rightarrow> nat \<Rightarrow> (string, 'a list) expected option" where
  "kernel_matmul_blocked_avx2 ar vec A B C M N K = (case (A, B, C) of
      (Some A', Some B', Some C') \<Rightarrow>
        if M = 0 \<or> N = 0 \<or> K = 0 then Some (Inl ''empty dimension'')
        else if M mod 8 \<noteq> 0 \<or> N mod 8 \<noteq> 0 then kernel_matmul_blocked ar A B C M N K
        else map_option Inr (do { C0 \<leftarrow> set_result (replicate (M * N) (ar_zero vec)) C';
               vector_loops vec 8 128 256 128 (avx2_micro_kernel_8x8 vec) A' B' M N K C0 })
    | _ \<Rightarrow> Some (Inl ''null pointer''))"

definition kernel_matmul_blocked_avx512 ::
  "'a arith \<Rightarrow> 'a arith \<Rightarrow> 'a list option \<Rightarrow> 'a list option \<Rightarrow> 'a list option \<Rightarrow> nat \<Rightarrow> nat \<Rightarrow> nat \<Rightarrow> (string, 'a list) expected option" where
  "kernel_matmul_blocked_avx512 ar vec A B C M N K = (case (A, B, C) of
      (Some A', Some B', Some C') \<Rightarrow>
        if M = 0 \<or> N = 0 \<or> K = 0 then Some (Inl ''empty dimension'')
        else if M mod 16 \<noteq> 0 \<or> N mod 16 \<noteq> 0 then kernel_matmul_blocked ar A B C M N K
        else map_option Inr (do { C0 \<leftarrow> set_result (replicate (M * N) (ar_zero vec)) C';
               vector_loops vec 16 256 512 256 (avx512_micro_kernel_16x16 vec) A' B' M N K C0 })
    | _ \<Rightarrow> Some (Inl ''null pointer''))"

subsection \<open>The arithmetic of the program\<close>

definition float_arith :: "float32 arith" where
  "float_arith = \<lparr>ar_zero = F_Fin 0, ar_add = f_add, ar_mac = (\<lambda>acc a b. f_add acc (f_mul a b))\<rparr>"

text \<open>A fused multiply-add rounds once.\<close>

fun f_fma :: "float32 \<Rightarrow> float32 \<Rightarrow> float32 \<Rightarrow> float32" where
  "f_fma (F_Fin z) (F_Fin x) (F_Fin y) = f_round (x * y + z)"
| "f_fma (F_Inf s) (F_Fin x) (F_Fin y) = F_Inf s"
| "f_fma z x y = f_add z (f_mul x y)"

definition float_fma_arith :: "float32 arith" where
  "float_fma_arith = \<lparr>ar_zero = F_Fin 0, ar_add = f_add, ar_mac = f_fma\<rparr>"

end
