(* ===== verification/Matmul_Laws.thy ===== *)
theory Matmul_Laws
  imports Matmul_Kernels
begin

text \<open>
  Lemmas for nested loops that update an array: a loop is a \<open>scatter\<close>, a sequence of updates at computed positions, and the
  value at a position afterwards is the fold of the updates that hit it.  Counters with a step cut a range into
  blocks, each position in exactly one.
\<close>

subsection \<open>Scattered updates\<close>

definition scatter :: "('x \<Rightarrow> nat) \<Rightarrow> ('x \<Rightarrow> 'a \<Rightarrow> 'a) \<Rightarrow> 'x list \<Rightarrow> 'a list \<Rightarrow> 'a list" where
  "scatter idx g xs s = fold (\<lambda>x s. s[idx x := g x (s ! idx x)]) xs s"

lemma scatter_Nil [simp]: "scatter idx g [] s = s"
  by (simp add: scatter_def)

lemma scatter_Cons [simp]: "scatter idx g (x # xs) s = scatter idx g xs (s[idx x := g x (s ! idx x)])"
  by (simp add: scatter_def)

lemma scatter_append: "scatter idx g (xs @ ys) s = scatter idx g ys (scatter idx g xs s)"
  by (simp add: scatter_def)

lemma scatter_map: "scatter idx g (map h xs) s = scatter (\<lambda>x. idx (h x)) (\<lambda>x. g (h x)) xs s"
  by (induction xs arbitrary: s) simp_all

lemma length_scatter [simp]: "length (scatter idx g xs s) = length s"
  by (induction xs arbitrary: s) simp_all

lemma nth_scatter:
  "p < length s \<Longrightarrow> scatter idx g xs s ! p = foldl (\<lambda>v x. g x v) (s ! p) (filter (\<lambda>x. idx x = p) xs)"
  by (induction xs arbitrary: s) (auto simp: nth_list_update)

lemma scatter_cong:
  "(\<And>x. x \<in> set xs \<Longrightarrow> idx x = idx' x \<and> g x = g' x) \<Longrightarrow> scatter idx g xs s = scatter idx' g' xs s"
  by (induction xs arbitrary: s) simp_all

lemma for_each_scatters:
  assumes "\<And>x s. x \<in> set xs \<Longrightarrow> length s = l \<Longrightarrow> f x s = Some (scatter idx g (L x) s)" and "length s = l"
  shows "for_each xs f s = Some (scatter idx g (concat (map L xs)) s)"
  using assms by (induction xs arbitrary: s) (auto simp: scatter_append)

lemma for_each_scatter:
  assumes "\<And>x s. x \<in> set xs \<Longrightarrow> length s = l \<Longrightarrow> f x s = Some (s[idx x := g x (s ! idx x)])" and "length s = l"
  shows "for_each xs f s = Some (scatter idx g xs s)"
  using for_each_scatters [of xs l f idx g "\<lambda>x. [x]" s] assms by simp

subsection \<open>Blocks\<close>

lemma counter_0 [simp]: "\<not> i < n \<Longrightarrow> counter i n w = []"
  by (simp add: counter.simps)

lemma counter_tiles: "0 < w \<Longrightarrow> concat (map (\<lambda>i. [i..<i + min w (n - i)]) (counter i n w)) = [i..<n]"
proof (induction i n w rule: counter.induct)
  case (1 i n w)
  show ?case
  proof (cases "i < n")
    case True
    have "concat (map (\<lambda>i. [i..<i + min w (n - i)]) (counter i n w)) = [i..<i + min w (n - i)] @ [i + w..<n]"
      using True 1 by (subst counter.simps) simp
    also have "\<dots> = [i..<n]"
    proof (cases "i + w \<le> n")
      case True
      then show ?thesis
        using upt_add_eq_append [of i "i + w" "n - (i + w)"] by (simp add: min_def)
    next
      case False
      then show ?thesis
        using True by (simp add: min_def)
    qed
    finally show ?thesis .
  qed simp
qed

lemma counter_less: "x \<in> set (counter i n w) \<Longrightarrow> i \<le> x \<and> x < n"
proof (induction i n w rule: counter.induct)
  case (1 i n w)
  have "i < n \<and> 0 < w \<and> (x = i \<or> x \<in> set (counter (i + w) n w))"
    using 1(2) by (subst (asm) counter.simps) (simp split: if_splits)
  with 1(1) show ?case
    by auto
qed

lemma pick_block:
  assumes "distinct (concat (map blk xs))"
  shows "concat (map (\<lambda>x. if y \<in> set (blk x) then Z else []) xs) = (if y \<in> set (concat (map blk xs)) then Z else [])"
  using assms
proof (induction xs)
  case (Cons x xs)
  show ?case
  proof (cases "y \<in> set (blk x)")
    case True
    then have "y \<notin> set (concat (map blk xs))"
      using Cons.prems by auto
    with True Cons show ?thesis
      by simp
  next
    case False
    with Cons show ?thesis
      by simp
  qed
qed simp

lemma pick_counter:
  assumes "0 < w"
  shows "concat (map (\<lambda>i. if i \<le> y \<and> y < i + min w (n - i) then Z else []) (counter 0 n w)) = (if y < n then Z else [])"
proof -
  have d: "distinct (concat (map (\<lambda>i. [i..<i + min w (n - i)]) (counter 0 n w)))"
    using counter_tiles [OF assms, of n 0] by simp
  show ?thesis
    using pick_block [OF d, of y Z] counter_tiles [OF assms, of n 0] by simp
qed

lemma filter_product:
  assumes "distinct xs" and "distinct ys"
  shows "filter (\<lambda>(a, b). a = x \<and> b = y) (List.product xs ys) = (if x \<in> set xs \<and> y \<in> set ys then [(x, y)] else [])"
proof -
  have in_row: "filter (\<lambda>b. b = y) ys = (if y \<in> set ys then [y] else [])"
    using assms(2) by (induction ys) auto
  show ?thesis
    using assms(1)
  proof (induction xs)
    case (Cons a xs)
    have "filter (\<lambda>(a, b). a = x \<and> b = y) (map (Pair a) ys) = (if a = x \<and> y \<in> set ys then [(x, y)] else [])"
      using in_row by (cases "a = x") (auto simp: filter_map comp_def)
    with Cons show ?case
      by auto
  qed simp
qed

lemma radix_inj: "b < w \<Longrightarrow> d < w \<Longrightarrow> a * w + b = c * w + d \<longleftrightarrow> a = c \<and> b = (d :: nat)"
  by (metis add.commute add_left_cancel div_less div_mult_self1 mod_less mod_mult_self2 mult.commute less_zeroE gr0I add_0)

lemma radix_less: "a < m \<Longrightarrow> b < w \<Longrightarrow> a * w + b < m * (w :: nat)"
proof -
  assume "a < m" "b < w"
  then have "a * w + b < Suc a * w"
    by simp
  also have "\<dots> \<le> m * w"
    using \<open>a < m\<close> by (intro mult_le_mono1) simp
  finally show ?thesis .
qed

lemma filter_radix:
  assumes "y < w" and "w' \<le> w"
  shows "filter (\<lambda>(a, b). a * w + b = x * w + y) (List.product [0..<m] [0..<w']) = (if x < m \<and> y < w' then [(x, y)] else [])"
proof -
  have "filter (\<lambda>(a, b). a * w + b = x * w + y) (List.product [0..<m] [0..<w']) =
      filter (\<lambda>(a, b). a = x \<and> b = y) (List.product [0..<m] [0..<w'])"
    using assms by (intro filter_cong) (auto simp: radix_inj)
  then show ?thesis
    by (simp add: filter_product)
qed

subsection \<open>Packing\<close>

lemma pack_product:
  assumes "\<And>p q. p < m \<Longrightarrow> q < w \<Longrightarrow> pos (p, q) < length src"
  shows "\<exists>buf. pack ar (m * w) (List.product [0..<m] [0..<w]) (\<lambda>(p, q). p * w + q) pos src = Some buf \<and> length buf = m * w \<and>
     (\<forall>p < m. \<forall>q < w. buf ! (p * w + q) = src ! pos (p, q))"
proof -
  let ?ps = "List.product [0..<m] [0..<w]" and ?idx = "\<lambda>(p, q). p * w + q" and ?g = "\<lambda>x _. src ! pos x"
  let ?s = "replicate (m * w) (ar_zero ar)"
  have "pack ar (m * w) ?ps ?idx pos src = Some (scatter ?idx ?g ?ps ?s)"
    unfolding pack_def
    by (rule for_each_scatter [where l = "m * w"]) (auto simp: rd_def upd_at_def assms radix_less)
  moreover have "scatter ?idx ?g ?ps ?s ! (p * w + q) = src ! pos (p, q)" if "p < m" "q < w" for p q
  proof -
    have "filter (\<lambda>x. ?idx x = p * w + q) ?ps = [(p, q)]"
      using filter_radix [OF that(2) order_refl, of p m] that by (simp add: case_prod_unfold)
    then show ?thesis
      using that by (simp add: nth_scatter radix_less)
  qed
  ultimately show ?thesis
    by simp
qed

end
