(* ===== verification/Matmul_Props.thy ===== *)
theory Matmul_Props
  imports Matmul_Laws
begin

text \<open>
  What the matrix kernels compute.  For any arithmetic the blocked product adds, for every output element, the dot products
  of blocks of 64 in order; in exact arithmetic that is the plain product.  The AVX2 kernel does the same with blocks
  of 128; the AVX-512 kernel writes every tile transposed.
\<close>

subsection \<open>Registers\<close>

lemma register_loop:
  assumes "w' \<le> w" and "m' \<le> m" and "length s = m * w"
    and "\<And>k i j s. k < kc \<Longrightarrow> i < m' \<Longrightarrow> j < w' \<Longrightarrow> length s = m * w \<Longrightarrow>
       f k (i, j) s = Some (s[i * w + j := g k i j (s ! (i * w + j))])"
  shows "\<exists>s'. for_each [0..<kc] (\<lambda>k. for_each (List.product [0..<m'] [0..<w']) (f k)) s = Some s' \<and> length s' = m * w \<and>
     (\<forall>i < m'. \<forall>j < w'. s' ! (i * w + j) = foldl (\<lambda>v k. g k i j v) (s ! (i * w + j)) [0..<kc])"
proof -
  let ?idx = "\<lambda>(k, i, j). i * w + j" and ?g = "\<lambda>(k, i, j). g k i j"
  let ?L = "\<lambda>k. map (\<lambda>(i, j). (k, i, j)) (List.product [0..<m'] [0..<w'])"
  have inner: "for_each (List.product [0..<m'] [0..<w']) (f k) s = Some (scatter ?idx ?g (?L k) s)"
    if "k \<in> set [0..<kc]" "length s = m * w" for k s
  proof -
    have "for_each (List.product [0..<m'] [0..<w']) (f k) s =
        Some (scatter (\<lambda>(i, j). i * w + j) (\<lambda>(i, j). g k i j) (List.product [0..<m'] [0..<w']) s)"
      using assms(4) that by (intro for_each_scatter [where l = "m * w"]) auto
    then show ?thesis
      by (simp add: scatter_map case_prod_unfold)
  qed
  let ?s' = "scatter ?idx ?g (concat (map ?L [0..<kc])) s"
  have "for_each [0..<kc] (\<lambda>k. for_each (List.product [0..<m'] [0..<w']) (f k)) s = Some ?s'"
    by (rule for_each_scatters [OF inner assms(3)])
  moreover have "?s' ! (i * w + j) = foldl (\<lambda>v k. g k i j v) (s ! (i * w + j)) [0..<kc]" if ij: "i < m'" "j < w'" for i j
  proof -
    have jw: "j < w" and im: "i < m"
      using ij assms(1,2) by simp_all
    have one: "filter (\<lambda>x. ?idx x = i * w + j) (?L k) = [(k, i, j)]" for k
      using filter_radix [OF jw assms(1), of i m'] ij by (simp add: filter_map comp_def case_prod_unfold)
    have "filter (\<lambda>x. ?idx x = i * w + j) (concat (map ?L [0..<kc])) = map (\<lambda>k. (k, i, j)) [0..<kc]"
      by (simp only: filter_concat map_map comp_def one concat_map_singleton)
    then show ?thesis
      using radix_less [OF im jw] assms(3) by (simp add: nth_scatter foldl_map)
  qed
  ultimately show ?thesis
    using assms(3) by auto
qed

lemma micro_registers_spec:
  assumes "mr \<le> MR" and "nr \<le> NR"
    and "\<And>i k. i < mr \<Longrightarrow> k < kc \<Longrightarrow> a0 + i * kc + k < length Ap" and "\<And>k j. k < kc \<Longrightarrow> j < nr \<Longrightarrow> b0 + k * nc + j < length Bp"
  shows "\<exists>regs. micro_registers ar Ap a0 Bp b0 kc mr nr nc = Some regs \<and> length regs = MR * NR \<and>
     (\<forall>i < mr. \<forall>j < nr. regs ! (i * NR + j) =
        foldl (\<lambda>v k. ar_mac ar v (Ap ! (a0 + i * kc + k)) (Bp ! (b0 + k * nc + j))) (ar_zero ar) [0..<kc])"
proof -
  let ?f = "\<lambda>k (i, j) c_reg. do { a \<leftarrow> rd Ap (a0 + i * kc + k); b \<leftarrow> rd Bp (b0 + k * nc + j);
            upd_at c_reg (i * NR + j) (\<lambda>v. ar_mac ar v a b) }"
  have "\<exists>s'. for_each [0..<kc] (\<lambda>k. for_each (List.product [0..<mr] [0..<nr]) (?f k)) (replicate (MR * NR) (ar_zero ar)) = Some s' \<and>
     length s' = MR * NR \<and> (\<forall>i < mr. \<forall>j < nr. s' ! (i * NR + j) =
       foldl (\<lambda>v k. ar_mac ar v (Ap ! (a0 + i * kc + k)) (Bp ! (b0 + k * nc + j))) (replicate (MR * NR) (ar_zero ar) ! (i * NR + j)) [0..<kc])"
    using assms by (intro register_loop) (auto simp: rd_def upd_at_def intro!: radix_less)
  then show ?thesis
    using assms(1,2) by (force simp: micro_registers_def radix_less)
qed

lemma micro_kernel_spec:
  assumes "mr \<le> MR" and "nr \<le> NR"
    and "\<And>i k. i < mr \<Longrightarrow> k < kc \<Longrightarrow> a0 + i * kc + k < length Ap" and "\<And>k j. k < kc \<Longrightarrow> j < nr \<Longrightarrow> b0 + k * nc + j < length Bp"
    and "\<And>i j. i < mr \<Longrightarrow> j < nr \<Longrightarrow> c0 + i * ldc + j < length C"
  shows "micro_kernel_4x4 ar Ap a0 Bp b0 c0 ldc kc mr nr nc C =
     Some (scatter (\<lambda>(i, j). c0 + i * ldc + j)
       (\<lambda>(i, j) v. ar_add ar v (foldl (\<lambda>v k. ar_mac ar v (Ap ! (a0 + i * kc + k)) (Bp ! (b0 + k * nc + j))) (ar_zero ar) [0..<kc]))
       (List.product [0..<mr] [0..<nr]) C)"
proof -
  obtain regs where r: "micro_registers ar Ap a0 Bp b0 kc mr nr nc = Some regs" "length regs = MR * NR"
    "\<forall>i < mr. \<forall>j < nr. regs ! (i * NR + j) =
        foldl (\<lambda>v k. ar_mac ar v (Ap ! (a0 + i * kc + k)) (Bp ! (b0 + k * nc + j))) (ar_zero ar) [0..<kc]"
    using micro_registers_spec [OF assms(1-4), of ar] by auto
  have "i * NR + j < MR * NR" if "i < mr" "j < nr" for i j
    using that assms(1,2) by (intro radix_less) auto
  then show ?thesis
    unfolding micro_kernel_4x4_def r(1) using r(2,3) assms(5)
    by simp (rule for_each_scatter [where l = "length C"]; auto simp: rd_def upd_at_def)
qed

subsection \<open>The blocked product\<close>

text \<open>The contribution of the columns \<open>k\<close> to \<open>k + kc - 1\<close> of \<open>A\<close> to one element.\<close>

definition block_dot :: "'a arith \<Rightarrow> 'a list \<Rightarrow> 'a list \<Rightarrow> nat \<Rightarrow> nat \<Rightarrow> nat \<Rightarrow> nat \<Rightarrow> nat \<Rightarrow> nat \<Rightarrow> 'a" where
  "block_dot ar A B N K m n k kc =
     foldl (\<lambda>v kk. ar_mac ar v (A ! (m * K + (k + kk))) (B ! ((k + kk) * N + n))) (ar_zero ar) [0..<kc]"

definition tile_cells :: "nat \<Rightarrow> nat \<Rightarrow> nat \<Rightarrow> nat \<Rightarrow> nat \<Rightarrow> (nat \<times> nat \<times> nat) list" where
  "tile_cells k row col mr nr = map (\<lambda>(i, j). (k, row + i, col + j)) (List.product [0..<mr] [0..<nr])"

definition panel_cells :: "nat \<Rightarrow> nat \<Rightarrow> nat \<Rightarrow> nat \<Rightarrow> nat \<Rightarrow> nat \<Rightarrow> (nat \<times> nat \<times> nat) list" where
  "panel_cells w k i j mc nc = concat (map (\<lambda>ii. concat (map (\<lambda>jj.
     tile_cells k (i + ii) (j + jj) (min w (mc - ii)) (min w (nc - jj))) (counter 0 nc w))) (counter 0 mc w))"

definition block_cells :: "nat \<Rightarrow> nat \<Rightarrow> nat \<Rightarrow> nat \<Rightarrow> nat \<Rightarrow> nat \<Rightarrow> nat \<Rightarrow> (nat \<times> nat \<times> nat) list" where
  "block_cells w mcb ncb kcb M N K = concat (map (\<lambda>j. concat (map (\<lambda>k. concat (map (\<lambda>i.
     panel_cells w k i j (min mcb (M - i)) (min ncb (N - j))) (counter 0 M mcb))) (counter 0 K kcb))) (counter 0 N ncb))"

abbreviation cell_index :: "nat \<Rightarrow> nat \<times> nat \<times> nat \<Rightarrow> nat" where
  "cell_index N \<equiv> \<lambda>(k, r, c). r * N + c"

lemma NR_MR: "NR = MR"
  by (simp add: NR_def MR_def)

lemma blocked_tile_spec:
  assumes "length A \<ge> M * K" and "length B \<ge> K * N" and "length C \<ge> M * N"
    and "i < M" and "j < N" and "k < K" and "nc = min NC (N - j)" and "kc = min KC (K - k)"
  shows "blocked_tile ar A B M N K j k nc kc i C =
     Some (scatter (cell_index N) (\<lambda>(k, r, c) v. ar_add ar v (block_dot ar A B N K r c k (min KC (K - k))))
       (panel_cells MR k i j (min MC (M - i)) nc) C)"
proof -
  define mc where "mc = min MC (M - i)"
  have b: "j + nc \<le> N" "k + kc \<le> K" "i + mc \<le> M"
    using assms(4-8) by (auto simp: mc_def)
  have inB: "(k + kk) * N + (j + jj) < length B" if "kk < kc" "jj < nc" for kk jj
    using radix_less [of "k + kk" K "j + jj" N] that b assms(2) by simp
  have inA: "(i + ii) * K + (k + kk) < length A" if "ii < mc" "kk < kc" for ii kk
    using radix_less [of "i + ii" M "k + kk" K] that b assms(1) by simp
  have inC: "(i + ii) * N + (j + jj) < M * N" if "ii < mc" "jj < nc" for ii jj
    using radix_less [of "i + ii" M "j + jj" N] that b by simp
  obtain Bp where Bp: "pack ar (kc * nc) (List.product [0..<kc] [0..<nc]) (\<lambda>(kk, jj). kk * nc + jj)
      (\<lambda>(kk, jj). (k + kk) * N + (j + jj)) B = Some Bp" "length Bp = kc * nc"
    "\<And>kk jj. kk < kc \<Longrightarrow> jj < nc \<Longrightarrow> Bp ! (kk * nc + jj) = B ! ((k + kk) * N + (j + jj))"
    using pack_product [of kc nc "\<lambda>(kk, jj). (k + kk) * N + (j + jj)" B ar] inB by auto
  obtain Ap where Ap: "pack ar (mc * kc) (List.product [0..<mc] [0..<kc]) (\<lambda>(ii, kk). ii * kc + kk)
      (\<lambda>(ii, kk). (i + ii) * K + (k + kk)) A = Some Ap" "length Ap = mc * kc"
    "\<And>ii kk. ii < mc \<Longrightarrow> kk < kc \<Longrightarrow> Ap ! (ii * kc + kk) = A ! ((i + ii) * K + (k + kk))"
    using pack_product [of mc kc "\<lambda>(ii, kk). (i + ii) * K + (k + kk)" A ar] inA by auto
  let ?G = "\<lambda>(k, r, c) v. ar_add ar v (block_dot ar A B N K r c k (min KC (K - k)))"
  have micro: "micro_kernel_4x4 ar Ap (ii * kc) Bp jj ((i + ii) * N + (j + jj)) N kc (min MR (mc - ii)) (min NR (nc - jj)) nc s =
      Some (scatter (cell_index N) ?G (tile_cells k (i + ii) (j + jj) (min MR (mc - ii)) (min NR (nc - jj))) s)"
    if ii: "ii < mc" and jj: "jj < nc" and s: "length s = length C" for ii jj s
  proof -
    let ?mr = "min MR (mc - ii)" and ?nr = "min NR (nc - jj)"
    have ra: "(ii + i') * kc + kk < length Ap" if "i' < ?mr" "kk < kc" for i' kk
      using radix_less [of "ii + i'" mc kk kc] that Ap(2) by (simp add: less_diff_conv add.commute)
    have rb: "kk * nc + (jj + j') < length Bp" if "kk < kc" "j' < ?nr" for kk j'
      using radix_less [of kk kc "jj + j'" nc] that Bp(2) by (simp add: less_diff_conv add.commute)
    have rc: "(i + (ii + i')) * N + (j + (jj + j')) < length s" if "i' < ?mr" "j' < ?nr" for i' j'
      using inC [of "ii + i'" "jj + j'"] that assms(3) s by linarith
    have "micro_kernel_4x4 ar Ap (ii * kc) Bp jj ((i + ii) * N + (j + jj)) N kc ?mr ?nr nc s =
      Some (scatter (\<lambda>(i', j'). (i + ii) * N + (j + jj) + i' * N + j')
       (\<lambda>(i', j') v. ar_add ar v (foldl (\<lambda>v kk. ar_mac ar v (Ap ! (ii * kc + i' * kc + kk)) (Bp ! (jj + kk * nc + j'))) (ar_zero ar) [0..<kc]))
       (List.product [0..<?mr] [0..<?nr]) s)"
      using ra rb rc by (intro micro_kernel_spec) (auto simp: algebra_simps)
    also have "\<dots> = Some (scatter (\<lambda>(i', j'). (i + ii + i') * N + (j + jj + j'))
       (\<lambda>(i', j') v. ar_add ar v (block_dot ar A B N K (i + ii + i') (j + jj + j') k kc)) (List.product [0..<?mr] [0..<?nr]) s)"
    proof -
      have "foldl (\<lambda>v kk. ar_mac ar v (Ap ! (ii * kc + i' * kc + kk)) (Bp ! (jj + kk * nc + j'))) (ar_zero ar) [0..<kc] =
          block_dot ar A B N K (i + ii + i') (j + jj + j') k kc" if "i' < ?mr" "j' < ?nr" for i' j'
        unfolding block_dot_def
      proof (rule foldl_cong)
        fix v kk
        assume "kk \<in> set [0..<kc]"
        with that show "ar_mac ar v (Ap ! (ii * kc + i' * kc + kk)) (Bp ! (jj + kk * nc + j')) =
            ar_mac ar v (A ! ((i + ii + i') * K + (k + kk))) (B ! ((k + kk) * N + (j + jj + j')))"
          using Ap(3) [of "ii + i'" kk] Bp(3) [of kk "jj + j'"] by (simp add: less_diff_conv algebra_simps)
      qed simp_all
      then show ?thesis
        by (auto simp: algebra_simps intro!: scatter_cong)
    qed
    finally show ?thesis
      by (simp add: tile_cells_def scatter_map case_prod_unfold assms(8))
  qed
  have row: "for_each (counter 0 nc NR) (\<lambda>jj. micro_kernel_4x4 ar Ap (ii * kc) Bp jj ((i + ii) * N + (j + jj)) N kc
        (min MR (mc - ii)) (min NR (nc - jj)) nc) s =
      Some (scatter (cell_index N) ?G (concat (map (\<lambda>jj. tile_cells k (i + ii) (j + jj) (min MR (mc - ii)) (min NR (nc - jj)))
        (counter 0 nc NR))) s)" if ii: "ii < mc" and s: "length s = length C" for ii s
    by (rule for_each_scatters [OF micro s]) (use ii in \<open>auto dest: counter_less\<close>)
  have "for_each (counter 0 mc MR) (\<lambda>ii. for_each (counter 0 nc NR) (\<lambda>jj.
        micro_kernel_4x4 ar Ap (ii * kc) Bp jj ((i + ii) * N + (j + jj)) N kc (min MR (mc - ii)) (min NR (nc - jj)) nc)) C =
      Some (scatter (cell_index N) ?G (panel_cells MR k i j mc nc) C)"
    unfolding panel_cells_def NR_MR [symmetric]
    by (rule for_each_scatters [OF row [unfolded NR_MR [symmetric]] refl]) (auto dest: counter_less)
  then show ?thesis
    unfolding blocked_tile_def mc_def [symmetric] Let_def using Ap(1) Bp(1) by simp
qed

lemma blocked_loops_spec:
  assumes "length A \<ge> M * K" and "length B \<ge> K * N" and "length C \<ge> M * N"
  shows "blocked_loops ar A B M N K C =
     Some (scatter (cell_index N) (\<lambda>(k, r, c) v. ar_add ar v (block_dot ar A B N K r c k (min KC (K - k))))
       (block_cells MR MC NC KC M N K) C)"
  unfolding blocked_loops_def block_cells_def
  by (intro for_each_scatters [where l = "length C"] blocked_tile_spec) (use assms in \<open>auto dest: counter_less\<close>)

subsection \<open>Every element once per block\<close>

lemma pick_counter_at:
  assumes "0 < w"
  shows "concat (map (\<lambda>i. if P \<and> b + i \<le> y \<and> y < b + i + min w (n - i) then Z else []) (counter 0 n w)) =
     (if P \<and> b \<le> y \<and> y < b + n then Z else [])"
proof (cases "P \<and> b \<le> y")
  case True
  have "(\<lambda>i. if P \<and> b + i \<le> y \<and> y < b + i + min w (n - i) then Z else []) =
      (\<lambda>i. if i \<le> y - b \<and> y - b < i + min w (n - i) then Z else [])"
    using True by (intro ext) auto
  then show ?thesis
    using pick_counter [OF assms, of "y - b" n Z] True by (simp only:) auto
next
  case False
  then have "(\<lambda>i. if P \<and> b + i \<le> y \<and> y < b + i + min w (n - i) then Z else []) = (\<lambda>_. [])"
    by (intro ext) auto
  then show ?thesis
    using False by (simp only:) auto
qed

lemma filter_tile:
  assumes "n < N" and "col + nr \<le> N"
  shows "filter (\<lambda>x. cell_index N x = m * N + n) (tile_cells k row col mr nr) =
     (if row \<le> m \<and> m < row + mr \<and> col \<le> n \<and> n < col + nr then [(k, m, n)] else [])"
proof -
  have "filter (\<lambda>x. (row + fst x) * N + (col + snd x) = m * N + n) (List.product [0..<mr] [0..<nr]) =
      filter (\<lambda>x. row + fst x = m \<and> col + snd x = n) (List.product [0..<mr] [0..<nr])"
    using assms by (intro filter_cong) (auto simp: radix_inj)
  also have "\<dots> = (if row \<le> m \<and> col \<le> n then filter (\<lambda>(a, b). a = m - row \<and> b = n - col) (List.product [0..<mr] [0..<nr]) else [])"
    by (auto intro!: filter_cong simp: filter_empty_conv)
  finally show ?thesis
    by (auto simp: tile_cells_def filter_map comp_def case_prod_unfold filter_product [unfolded case_prod_unfold])
qed

lemma filter_panel:
  assumes "0 < w" and "n < N" and "j + nc \<le> N"
  shows "filter (\<lambda>x. cell_index N x = m * N + n) (panel_cells w k i j mc nc) =
     (if (j \<le> n \<and> n < j + nc) \<and> i \<le> m \<and> m < i + mc then [(k, m, n)] else [])"
proof -
  let ?hit = "\<lambda>ii jj. filter (\<lambda>x. cell_index N x = m * N + n)
    (tile_cells k (i + ii) (j + jj) (min w (mc - ii)) (min w (nc - jj)))"
  have row: "concat (map (?hit ii) (counter 0 nc w)) =
      (if (j \<le> n \<and> n < j + nc) \<and> i + ii \<le> m \<and> m < i + ii + min w (mc - ii) then [(k, m, n)] else [])" for ii
  proof -
    have "concat (map (?hit ii) (counter 0 nc w)) =
        concat (map (\<lambda>jj. if (i + ii \<le> m \<and> m < i + ii + min w (mc - ii)) \<and> j + jj \<le> n \<and> n < j + jj + min w (nc - jj)
          then [(k, m, n)] else []) (counter 0 nc w))"
      by (rule arg_cong [where f = concat], rule map_cong [OF refl], subst filter_tile)
        (use assms in \<open>auto dest: counter_less\<close>)
    also have "\<dots> = (if (i + ii \<le> m \<and> m < i + ii + min w (mc - ii)) \<and> j \<le> n \<and> n < j + nc then [(k, m, n)] else [])"
      by (rule pick_counter_at [OF assms(1)])
    finally show ?thesis
      by auto
  qed
  have "filter (\<lambda>x. cell_index N x = m * N + n) (panel_cells w k i j mc nc) =
      concat (map (\<lambda>ii. concat (map (?hit ii) (counter 0 nc w))) (counter 0 mc w))"
    by (simp only: panel_cells_def filter_concat map_map comp_def)
  also have "\<dots> = (if (j \<le> n \<and> n < j + nc) \<and> i \<le> m \<and> m < i + mc then [(k, m, n)] else [])"
    unfolding row by (rule pick_counter_at [OF assms(1)])
  finally show ?thesis .
qed

lemma filter_block_cells:
  assumes "0 < w" and "0 < mcb" and "0 < ncb" and "m < M" and "n < N"
  shows "filter (\<lambda>x. cell_index N x = m * N + n) (block_cells w mcb ncb kcb M N K) = map (\<lambda>k. (k, m, n)) (counter 0 K kcb)"
proof -
  let ?P = "\<lambda>k i j. panel_cells w k i j (min mcb (M - i)) (min ncb (N - j))"
  let ?in = "\<lambda>j. j \<le> n \<and> n < j + min ncb (N - j)"
  have rows: "concat (map (\<lambda>i. filter (\<lambda>x. cell_index N x = m * N + n) (?P k i j)) (counter 0 M mcb)) =
      (if ?in j then [(k, m, n)] else [])" if "j < N" for k j
  proof -
    have "concat (map (\<lambda>i. filter (\<lambda>x. cell_index N x = m * N + n) (?P k i j)) (counter 0 M mcb)) =
        concat (map (\<lambda>i. if ?in j \<and> 0 + i \<le> m \<and> m < 0 + i + min mcb (M - i) then [(k, m, n)] else []) (counter 0 M mcb))"
      using assms(1,5) that by (subst filter_panel) auto
    then show ?thesis
      using assms(4) by (simp only: pick_counter_at [OF assms(2)]) simp
  qed
  have cols: "concat (map (\<lambda>k. if ?in j then [(k, m, n)] else []) (counter 0 K kcb)) =
      (if True \<and> 0 + j \<le> n \<and> n < 0 + j + min ncb (N - j) then map (\<lambda>k. (k, m, n)) (counter 0 K kcb) else [])" for j
    by simp
  have "filter (\<lambda>x. cell_index N x = m * N + n) (block_cells w mcb ncb kcb M N K) =
      concat (map (\<lambda>j. concat (map (\<lambda>k. if ?in j then [(k, m, n)] else []) (counter 0 K kcb))) (counter 0 N ncb))"
    unfolding block_cells_def filter_concat map_map comp_def
    by (intro arg_cong [where f = concat] map_cong refl rows) (auto dest: counter_less)
  then show ?thesis
    using assms(5) by (simp only: cols pick_counter_at [OF assms(3)]) simp
qed

lemma panel_cells_inside:
  "(k', r, c) \<in> set (panel_cells w k i j mc nc) \<Longrightarrow> k' = k \<and> r < i + mc \<and> c < j + nc"
  by (auto simp: panel_cells_def tile_cells_def dest: counter_less)

lemma block_cells_inside: "(k, r, c) \<in> set (block_cells w mcb ncb kcb M N K) \<Longrightarrow> r < M \<and> c < N"
  by (fastforce simp: block_cells_def dest: counter_less panel_cells_inside)

lemma scatter_block_cells:
  assumes "0 < w" and "0 < mcb" and "0 < ncb"
  shows "scatter (cell_index N) G (block_cells w mcb ncb kcb M N K) (replicate (M * N) z @ rest) =
     map (\<lambda>p. foldl (\<lambda>v k. G (k, p div N, p mod N) v) z (counter 0 K kcb)) [0..<M * N] @ rest" (is "?l = ?r")
proof (rule nth_equalityI)
  fix p
  assume "p < length ?l"
  then have p: "p < length (replicate (M * N) z @ rest)"
    by simp
  show "?l ! p = ?r ! p"
  proof (cases "p < M * N")
    case True
    then have "p div N < M" "p mod N < N"
      by (simp add: less_mult_imp_div_less) (use True in \<open>cases N; simp\<close>)
    then show ?thesis
      using True p filter_block_cells [OF assms, of "p div N" M "p mod N" N kcb K] by (simp add: nth_scatter nth_append foldl_map)
  next
    case False
    then have "filter (\<lambda>x. cell_index N x = p) (block_cells w mcb ncb kcb M N K) = []"
      by (auto simp: filter_empty_conv dest!: block_cells_inside dest: radix_less)
    then show ?thesis
      using False p by (simp add: nth_scatter nth_append)
  qed
qed simp

text \<open>For every output element, the dot products of blocks of \<open>kb\<close> columns, added in order.\<close>

definition blocked_element :: "'a arith \<Rightarrow> nat \<Rightarrow> 'a list \<Rightarrow> 'a list \<Rightarrow> nat \<Rightarrow> nat \<Rightarrow> nat \<Rightarrow> nat \<Rightarrow> 'a" where
  "blocked_element ar kb A B N K m n =
     foldl (\<lambda>v k. ar_add ar v (block_dot ar A B N K m n k (min kb (K - k)))) (ar_zero ar) (counter 0 K kb)"

definition by_element :: "nat \<Rightarrow> nat \<Rightarrow> (nat \<Rightarrow> nat \<Rightarrow> 'a) \<Rightarrow> 'a list" where
  "by_element M N f = map (\<lambda>p. f (p div N) (p mod N)) [0..<M * N]"

lemma kernel_matmul_blocked_spec:
  assumes "length A \<ge> M * K" and "length B \<ge> K * N" and "length C \<ge> M * N" and "M \<noteq> 0" and "N \<noteq> 0" and "K \<noteq> 0"
  shows "kernel_matmul_blocked ar (Some A) (Some B) (Some C) M N K =
     Some (Inr (by_element M N (blocked_element ar 64 A B N K) @ drop (M * N) C))"
  using assms blocked_loops_spec [of M K A N B "replicate (M * N) (ar_zero ar) @ drop (M * N) C" ar]
  by (simp add: kernel_matmul_blocked_def set_result_def scatter_block_cells MR_def MC_def NC_def KC_def
      by_element_def blocked_element_def)

subsection \<open>The vector kernels\<close>

lemma vector_registers_spec:
  assumes "length At = kc * w" and "length Bt = kc * w"
  shows "\<exists>regs. vector_registers ar w At Bt kc = Some regs \<and> length regs = w * w \<and>
     (\<forall>c < w. \<forall>r < w. regs ! (c * w + r) =
        foldl (\<lambda>v kk. ar_mac ar v (At ! (kk * w + r)) (Bt ! (kk * w + c))) (ar_zero ar) [0..<kc])"
proof -
  let ?f = "\<lambda>kk (c, r) regs. do { a \<leftarrow> rd At (kk * w + r); b \<leftarrow> rd Bt (kk * w + c);
            upd_at regs (c * w + r) (\<lambda>v. ar_mac ar v a b) }"
  have "\<exists>s'. for_each [0..<kc] (\<lambda>kk. for_each (List.product [0..<w] [0..<w]) (?f kk)) (replicate (w * w) (ar_zero ar)) = Some s' \<and>
     length s' = w * w \<and> (\<forall>c < w. \<forall>r < w. s' ! (c * w + r) =
       foldl (\<lambda>v kk. ar_mac ar v (At ! (kk * w + r)) (Bt ! (kk * w + c))) (replicate (w * w) (ar_zero ar) ! (c * w + r)) [0..<kc])"
    using assms by (intro register_loop) (auto simp: rd_def upd_at_def intro!: radix_less)
  then show ?thesis
    by (force simp: vector_registers_def radix_less)
qed

lemma vector_tile_registers:
  assumes "length A \<ge> M * K" and "length B \<ge> K * N" and "row + w \<le> M" and "col + w \<le> N" and "k + kc \<le> K"
  shows "\<exists>At Bt regs. vector_tile ar w micro A B N K k kc row col C = micro At Bt (row * N + col) N kc C \<and>
     vector_registers ar w At Bt kc = Some regs \<and> length regs = w * w \<and>
     (\<forall>c < w. \<forall>r < w. regs ! (c * w + r) = block_dot ar A B N K (row + r) (col + c) k kc)"
proof -
  have inA: "(row + r) * K + (k + kk) < length A" if "kk < kc" "r < w" for kk r
    using radix_less [of "row + r" M "k + kk" K] that assms by simp
  have inB: "(k + kk) * N + (col + c) < length B" if "kk < kc" "c < w" for kk c
    using radix_less [of "k + kk" K "col + c" N] that assms by simp
  obtain At where At: "pack ar (kc * w) (List.product [0..<kc] [0..<w]) (\<lambda>(kk, r). kk * w + r)
      (\<lambda>(kk, r). (row + r) * K + (k + kk)) A = Some At" "length At = kc * w"
    "\<And>kk r. kk < kc \<Longrightarrow> r < w \<Longrightarrow> At ! (kk * w + r) = A ! ((row + r) * K + (k + kk))"
    using pack_product [of kc w "\<lambda>(kk, r). (row + r) * K + (k + kk)" A ar] inA by auto
  obtain Bt where Bt: "pack ar (kc * w) (List.product [0..<kc] [0..<w]) (\<lambda>(kk, c). kk * w + c)
      (\<lambda>(kk, c). (k + kk) * N + (col + c)) B = Some Bt" "length Bt = kc * w"
    "\<And>kk c. kk < kc \<Longrightarrow> c < w \<Longrightarrow> Bt ! (kk * w + c) = B ! ((k + kk) * N + (col + c))"
    using pack_product [of kc w "\<lambda>(kk, c). (k + kk) * N + (col + c)" B ar] inB by auto
  obtain regs where regs: "vector_registers ar w At Bt kc = Some regs" "length regs = w * w"
    "\<forall>c < w. \<forall>r < w. regs ! (c * w + r) =
        foldl (\<lambda>v kk. ar_mac ar v (At ! (kk * w + r)) (Bt ! (kk * w + c))) (ar_zero ar) [0..<kc]"
    using vector_registers_spec [OF At(2) Bt(2), of ar] by auto
  have "regs ! (c * w + r) = block_dot ar A B N K (row + r) (col + c) k kc" if "c < w" "r < w" for c r
    unfolding block_dot_def using regs(3) that At(3) Bt(3) by (auto intro!: foldl_cong)
  moreover have "vector_tile ar w micro A B N K k kc row col C = micro At Bt (row * N + col) N kc C"
    by (simp add: vector_tile_def At(1) Bt(1))
  ultimately show ?thesis
    using regs(1,2) by blast
qed

lemma counter_dvd: "d dvd i \<Longrightarrow> d dvd w \<Longrightarrow> x \<in> set (counter i n w) \<Longrightarrow> d dvd x"
proof (induction i n w rule: counter.induct)
  case (1 i n w)
  have "i < n \<and> 0 < w \<and> (x = i \<or> x \<in> set (counter (i + w) n w))"
    using 1(4) by (subst (asm) counter.simps) (simp split: if_splits)
  with 1(1-3) show ?case
    by auto
qed

lemma dvd_room: "w dvd n \<Longrightarrow> w dvd x \<Longrightarrow> x < n \<Longrightarrow> x + w \<le> (n :: nat)"
  using dvd_imp_le [of w "n - x"] by (simp add: dvd_diff_nat)

lemma vector_loops_spec:
  assumes "0 < w" and "w dvd M" and "w dvd N" and "w dvd mcb" and "w dvd ncb"
    and tile: "\<And>k row col s. k < K \<Longrightarrow> w dvd row \<Longrightarrow> w dvd col \<Longrightarrow> row + w \<le> M \<Longrightarrow> col + w \<le> N \<Longrightarrow> length s = length C \<Longrightarrow>
      vector_tile ar w micro A B N K k (min kcb (K - k)) row col s = Some (scatter (cell_index N) G (tile_cells k row col w w) s)"
  shows "vector_loops ar w mcb ncb kcb micro A B M N K C =
     Some (scatter (cell_index N) G (block_cells w mcb ncb kcb M N K) C)"
proof -
  have panel: "for_each (counter 0 (min mcb (M - i) div w * w) w) (\<lambda>ii. for_each (counter 0 (min ncb (N - j) div w * w) w) (\<lambda>jj.
         vector_tile ar w micro A B N K k (min kcb (K - k)) (i + ii) (j + jj))) s =
      Some (scatter (cell_index N) G (panel_cells w k i j (min mcb (M - i)) (min ncb (N - j))) s)"
    if i: "i \<in> set (counter 0 M mcb)" and j: "j \<in> set (counter 0 N ncb)" and k: "k < K" and s: "length s = length C" for i j k s
  proof -
    let ?mc = "min mcb (M - i)" and ?nc = "min ncb (N - j)"
    have d: "w dvd i" "w dvd j" "i < M" "j < N"
      using counter_dvd [OF dvd_0_right assms(4) i] counter_dvd [OF dvd_0_right assms(5) j] counter_less [OF i] counter_less [OF j]
      by auto
    have mn: "w dvd ?mc" "w dvd ?nc"
      using dvd_diff_nat [OF assms(2) d(1)] dvd_diff_nat [OF assms(3) d(2)] assms(4,5) by (simp_all add: min_def)
    have cell: "vector_tile ar w micro A B N K k (min kcb (K - k)) (i + ii) (j + jj) s =
        Some (scatter (cell_index N) G (tile_cells k (i + ii) (j + jj) (min w (?mc - ii)) (min w (?nc - jj))) s)"
      if "ii \<in> set (counter 0 ?mc w)" "jj \<in> set (counter 0 ?nc w)" "length s = length C" for ii jj s
    proof -
      have x: "w dvd ii" "w dvd jj"
        using counter_dvd [OF dvd_0_right dvd_refl that(1)] counter_dvd [OF dvd_0_right dvd_refl that(2)] .
      have y: "ii + w \<le> ?mc" "jj + w \<le> ?nc"
        using dvd_room [OF mn(1) x(1) counter_less [OF that(1), THEN conjunct2]]
          dvd_room [OF mn(2) x(2) counter_less [OF that(2), THEN conjunct2]] .
      then have "w \<le> ?mc - ii" "w \<le> ?nc - jj"
        by (simp_all only: le_diff_conv2 add.commute add_leD1)
      moreover have "i + ii + w \<le> M" "j + jj + w \<le> N"
        using y d(3,4) by (simp_all add: le_diff_conv2 ac_simps)
      ultimately show ?thesis
        using tile [OF k dvd_add [OF d(1) x(1)] dvd_add [OF d(2) x(2)] _ _ that(3)] by (simp only: min_absorb1)
    qed
    have "for_each (counter 0 ?nc w) (\<lambda>jj. vector_tile ar w micro A B N K k (min kcb (K - k)) (i + ii) (j + jj)) s =
        Some (scatter (cell_index N) G (concat (map (\<lambda>jj. tile_cells k (i + ii) (j + jj) (min w (?mc - ii)) (min w (?nc - jj)))
          (counter 0 ?nc w))) s)" if "ii \<in> set (counter 0 ?mc w)" "length s = length C" for ii s
      by (rule for_each_scatters [OF cell that(2)]) (use that in simp_all)
    then show ?thesis
      unfolding panel_cells_def dvd_div_mult_self [OF mn(1)] dvd_div_mult_self [OF mn(2)]
      by (rule for_each_scatters) (use s in simp_all)
  qed
  show ?thesis
    unfolding vector_loops_def block_cells_def
    by (rule for_each_scatters [where l = "length C"], rule for_each_scatters [where l = "length C"],
        rule for_each_scatters [where l = "length C"], rule panel) (auto dest: counter_less)
qed

lemma scatter_tile:
  "scatter (cell_index N) G (tile_cells k row col mr nr) s =
     scatter (\<lambda>(i, j). (row + i) * N + (col + j)) (\<lambda>(i, j). G (k, row + i, col + j)) (List.product [0..<mr] [0..<nr]) s"
  by (simp add: tile_cells_def scatter_map case_prod_unfold)

lemma add_tile:
  assumes "row + w \<le> M" and "col + w \<le> N" and "M * N \<le> length C"
    and "\<And>i j. i < w \<Longrightarrow> j < w \<Longrightarrow> sel i j < length regs \<and> G (k, row + i, col + j) = (\<lambda>v. ar_add ar v (regs ! sel i j))"
  shows "for_each (List.product [0..<w] [0..<w]) (\<lambda>(i, j) C.
      do { t \<leftarrow> rd regs (sel i j); upd_at C (row * N + col + i * N + j) (\<lambda>v. ar_add ar v t) }) C =
     Some (scatter (cell_index N) G (tile_cells k row col w w) C)"
proof -
  have pos: "row * N + col + i * N + j = (row + i) * N + (col + j)" for i j
    by (simp add: algebra_simps)
  have "(row + i) * N + (col + j) < length C" if "i < w" "j < w" for i j
    using radix_less [of "row + i" M "col + j" N] that assms(1-3) by simp
  then show ?thesis
    unfolding scatter_tile pos using assms(4) by (intro for_each_scatter [where l = "length C"]) (auto simp: rd_def upd_at_def)
qed

lemma avx2_tile:
  assumes "length A \<ge> M * K" and "length B \<ge> K * N" and "length C \<ge> M * N" and "row + 8 \<le> M" and "col + 8 \<le> N" and "k + kc \<le> K"
  shows "vector_tile ar 8 (avx2_micro_kernel_8x8 ar) A B N K k kc row col C =
     Some (scatter (cell_index N) (\<lambda>(k, r, c) v. ar_add ar v (block_dot ar A B N K r c k kc)) (tile_cells k row col 8 8) C)"
proof -
  obtain At Bt regs where r:
    "vector_tile ar 8 (avx2_micro_kernel_8x8 ar) A B N K k kc row col C = avx2_micro_kernel_8x8 ar At Bt (row * N + col) N kc C"
    "vector_registers ar 8 At Bt kc = Some regs" "length regs = 8 * 8"
    "\<And>c r. c < 8 \<Longrightarrow> r < 8 \<Longrightarrow> regs ! (c * 8 + r) = block_dot ar A B N K (row + r) (col + c) k kc"
    using vector_tile_registers [OF assms(1,2,4-6), of ar "avx2_micro_kernel_8x8 ar" C] by blast
  show ?thesis
    unfolding r(1) avx2_micro_kernel_8x8_def r(2) Option.bind.bind_lunit
    by (rule add_tile [OF assms(4,5,3)]) (use r(3,4) in auto)
qed

lemma lanes: "16 dvd x \<Longrightarrow> i < 16 \<Longrightarrow> (x + i) div 16 * 16 = x \<and> (x + i) mod 16 = (i :: nat)"
  by auto

lemma avx512_tile:
  assumes "length A \<ge> M * K" and "length B \<ge> K * N" and "length C \<ge> M * N" and "row + 16 \<le> M" and "col + 16 \<le> N" and "k + kc \<le> K"
    and "16 dvd row" and "16 dvd col"
  shows "vector_tile ar 16 (avx512_micro_kernel_16x16 ar) A B N K k kc row col C =
     Some (scatter (cell_index N) (\<lambda>(k, r, c) v. ar_add ar v
       (block_dot ar A B N K (r div 16 * 16 + c mod 16) (c div 16 * 16 + r mod 16) k kc)) (tile_cells k row col 16 16) C)"
proof -
  obtain At Bt regs where r:
    "vector_tile ar 16 (avx512_micro_kernel_16x16 ar) A B N K k kc row col C = avx512_micro_kernel_16x16 ar At Bt (row * N + col) N kc C"
    "vector_registers ar 16 At Bt kc = Some regs" "length regs = 16 * 16"
    "\<And>c r. c < 16 \<Longrightarrow> r < 16 \<Longrightarrow> regs ! (c * 16 + r) = block_dot ar A B N K (row + r) (col + c) k kc"
    using vector_tile_registers [OF assms(1,2,4-6), of ar "avx512_micro_kernel_16x16 ar" C] by blast
  show ?thesis
    unfolding r(1) avx512_micro_kernel_16x16_def r(2) Option.bind.bind_lunit
    by (rule add_tile [OF assms(4,5,3)]) (use r(3,4) lanes [OF assms(7)] lanes [OF assms(8)] in auto)
qed

lemma kernel_matmul_avx2_spec:
  assumes "length A \<ge> M * K" and "length B \<ge> K * N" and "length C \<ge> M * N" and "M \<noteq> 0" and "N \<noteq> 0" and "K \<noteq> 0"
    and "8 dvd M" and "8 dvd N"
  shows "kernel_matmul_blocked_avx2 ar vec (Some A) (Some B) (Some C) M N K =
     Some (Inr (by_element M N (blocked_element vec 128 A B N K) @ drop (M * N) C))"
proof -
  let ?C = "replicate (M * N) (ar_zero vec) @ drop (M * N) C"
  have "vector_loops vec 8 128 256 128 (avx2_micro_kernel_8x8 vec) A B M N K ?C =
      Some (scatter (cell_index N) (\<lambda>(k, r, c) v. ar_add vec v (block_dot vec A B N K r c k (min 128 (K - k))))
        (block_cells 8 128 256 128 M N K) ?C)"
  proof (rule vector_loops_spec)
    fix k row col and s :: "'a list"
    assume "k < K" "row + 8 \<le> M" "col + 8 \<le> N" "length s = length ?C"
    then show "vector_tile vec 8 (avx2_micro_kernel_8x8 vec) A B N K k (min 128 (K - k)) row col s =
        Some (scatter (cell_index N) (\<lambda>(k, r, c) v. ar_add vec v (block_dot vec A B N K r c k (min 128 (K - k))))
          (tile_cells k row col 8 8) s)"
      using assms(1-3) by (subst avx2_tile [where M = M]) (simp_all add: scatter_tile del: upt_rec_numeral)
  qed (use assms(7,8) in simp_all)
  then have loops: "vector_loops vec 8 128 256 128 (avx2_micro_kernel_8x8 vec) A B M N K ?C =
      Some (by_element M N (blocked_element vec 128 A B N K) @ drop (M * N) C)"
    by (simp only: scatter_block_cells zero_less_numeral prod.case by_element_def blocked_element_def)
  have "M mod 8 = 0" "N mod 8 = 0"
    using assms(7,8) by simp_all
  then show ?thesis
    using assms(3-6) loops by (simp only: kernel_matmul_blocked_avx2_def set_result_def length_replicate option.case prod.case if_True
        if_False simp_thms Option.bind.bind_lunit option.map)
qed

lemma kernel_matmul_avx512_spec:
  assumes "length A \<ge> M * K" and "length B \<ge> K * N" and "length C \<ge> M * N" and "M \<noteq> 0" and "N \<noteq> 0" and "K \<noteq> 0"
    and "16 dvd M" and "16 dvd N"
  shows "kernel_matmul_blocked_avx512 ar vec (Some A) (Some B) (Some C) M N K =
     Some (Inr (by_element M N (\<lambda>m n. blocked_element vec 256 A B N K (m div 16 * 16 + n mod 16) (n div 16 * 16 + m mod 16)) @
       drop (M * N) C))"
proof -
  let ?C = "replicate (M * N) (ar_zero vec) @ drop (M * N) C"
  let ?G = "\<lambda>(k, r, c) v. ar_add vec v (block_dot vec A B N K (r div 16 * 16 + c mod 16) (c div 16 * 16 + r mod 16) k (min 256 (K - k)))"
  have "vector_loops vec 16 256 512 256 (avx512_micro_kernel_16x16 vec) A B M N K ?C =
      Some (scatter (cell_index N) ?G (block_cells 16 256 512 256 M N K) ?C)"
  proof (rule vector_loops_spec)
    fix k row col and s :: "'a list"
    assume "k < K" "16 dvd row" "16 dvd col" "row + 16 \<le> M" "col + 16 \<le> N" "length s = length ?C"
    then show "vector_tile vec 16 (avx512_micro_kernel_16x16 vec) A B N K k (min 256 (K - k)) row col s =
        Some (scatter (cell_index N) ?G (tile_cells k row col 16 16) s)"
      using assms(1-3) by (subst avx512_tile [where M = M]) (simp_all add: scatter_tile del: upt_rec_numeral)
  qed (use assms(7,8) in simp_all)
  then have loops: "vector_loops vec 16 256 512 256 (avx512_micro_kernel_16x16 vec) A B M N K ?C =
      Some (by_element M N (\<lambda>m n. blocked_element vec 256 A B N K (m div 16 * 16 + n mod 16) (n div 16 * 16 + m mod 16)) @
        drop (M * N) C)"
    by (simp only: scatter_block_cells zero_less_numeral prod.case by_element_def blocked_element_def)
  have "M mod 16 = 0" "N mod 16 = 0"
    using assms(7,8) by simp_all
  then show ?thesis
    using assms(3-6) loops by (simp only: kernel_matmul_blocked_avx512_def set_result_def length_replicate option.case prod.case if_True
        if_False simp_thms Option.bind.bind_lunit option.map)
qed

subsection \<open>The plain product\<close>

lemma for_each_total:
  "(\<And>x s. x \<in> set xs \<Longrightarrow> f x s = Some (h s x)) \<Longrightarrow> for_each xs f s = Some (foldl h s xs)"
  by (induction xs arbitrary: s) auto

lemma matmul_cell_spec:
  assumes "length A \<ge> M * K" and "length B \<ge> K * N" and "m < M" and "n < N"
  shows "matmul_cell ar A B N K m n = Some (block_dot ar A B N K m n 0 K)"
proof -
  have "m * K + k < length A" "k * N + n < length B" if "k < K" for k
    using radix_less [of m M k K] radix_less [of k K n N] that assms by auto
  then show ?thesis
    by (auto simp: matmul_cell_def block_dot_def rd_def intro!: for_each_total)
qed

lemma fill_by_element:
  assumes "M * N \<le> length C" and "\<And>m n. m < M \<Longrightarrow> n < N \<Longrightarrow> cell m n = Some (h m n)"
  shows "for_each (List.product [0..<M] [0..<N]) (\<lambda>(m, n) C. do { v \<leftarrow> cell m n; upd_at C (m * N + n) (\<lambda>_. v) }) C =
     Some (by_element M N h @ drop (M * N) C)"
proof -
  let ?s = "scatter (\<lambda>(m, n). m * N + n) (\<lambda>(m, n) _. h m n) (List.product [0..<M] [0..<N]) C"
  have "m * N + n < length C" if "m < M" "n < N" for m n
    using radix_less [OF that] assms(1) by simp
  then have "for_each (List.product [0..<M] [0..<N]) (\<lambda>(m, n) C. do { v \<leftarrow> cell m n; upd_at C (m * N + n) (\<lambda>_. v) }) C = Some ?s"
    using assms(2) by (intro for_each_scatter [where l = "length C"]) (auto simp: upd_at_def)
  moreover have "?s = by_element M N h @ drop (M * N) C" (is "_ = ?r")
  proof (rule nth_equalityI)
    fix p
    assume "p < length ?s"
    then have p: "p < length C"
      by simp
    show "?s ! p = ?r ! p"
    proof (cases "p < M * N")
      case True
      then have "p div N < M" "p mod N < N"
        by (simp add: less_mult_imp_div_less) (use True in \<open>cases N; simp\<close>)
      then have "filter (\<lambda>x. (\<lambda>(m, n). m * N + n) x = p) (List.product [0..<M] [0..<N]) = [(p div N, p mod N)]"
        using filter_radix [of "p mod N" N N "p div N" M] by (simp add: case_prod_unfold)
      then show ?thesis
        using True p by (simp add: nth_scatter nth_append by_element_def)
    next
      case False
      then have "filter (\<lambda>x. (\<lambda>(m, n). m * N + n) x = p) (List.product [0..<M] [0..<N]) = []"
        by (auto simp: filter_empty_conv dest: radix_less)
      then show ?thesis
        using False p by (simp add: nth_scatter nth_append by_element_def)
    qed
  qed (use assms(1) in \<open>simp add: by_element_def\<close>)
  ultimately show ?thesis
    by simp
qed

lemma kernel_matmul_spec:
  assumes "length A \<ge> M * K" and "length B \<ge> K * N" and "length C \<ge> M * N" and "M \<noteq> 0" and "N \<noteq> 0" and "K \<noteq> 0"
  shows "kernel_matmul ar (Some A) (Some B) (Some C) M N K =
     Some (Inr (by_element M N (\<lambda>m n. block_dot ar A B N K m n 0 K) @ drop (M * N) C))"
  unfolding kernel_matmul_def using assms(4-6) by (simp add: fill_by_element [OF assms(3) matmul_cell_spec [OF assms(1,2)]])

subsection \<open>Exact arithmetic\<close>

definition exact_arith :: "'a :: semiring_0 arith" where
  "exact_arith = \<lparr>ar_zero = 0, ar_add = (+), ar_mac = (\<lambda>acc a b. acc + a * b)\<rparr>"

lemma foldl_plus_sum: "foldl (\<lambda>v x. v + f x) z xs = z + sum_list (map f xs)" for z :: "'a :: monoid_add"
  by (induction xs arbitrary: z) (simp_all add: add.assoc)

lemma sum_list_blocks: "sum_list (map (\<lambda>x. sum_list (map f (blk x))) xs) = sum_list (map f (concat (map blk xs)))"
  for f :: "'b \<Rightarrow> 'a :: monoid_add"
  by (induction xs) simp_all

lemma block_dot_exact:
  "block_dot exact_arith A B N K m n k kc = sum_list (map (\<lambda>kk. A ! (m * K + kk) * B ! (kk * N + n)) [k..<k + kc])"
proof -
  have "[k..<k + kc] = map (\<lambda>kk. k + kk) [0..<kc]"
    by (simp add: map_add_upt add.commute)
  then show ?thesis
    by (simp add: block_dot_def exact_arith_def foldl_plus_sum comp_def)
qed

lemma blocked_element_exact:
  assumes "0 < kb"
  shows "blocked_element exact_arith kb A B N K m n = block_dot exact_arith A B N K m n 0 K"
proof -
  let ?f = "\<lambda>kk. A ! (m * K + kk) * B ! (kk * N + n)"
  have "blocked_element exact_arith kb A B N K m n =
      sum_list (map (\<lambda>k. sum_list (map ?f [k..<k + min kb (K - k)])) (counter 0 K kb))"
    unfolding blocked_element_def block_dot_exact by (simp add: exact_arith_def foldl_plus_sum)
  also have "\<dots> = sum_list (map ?f (concat (map (\<lambda>k. [k..<k + min kb (K - k)]) (counter 0 K kb))))"
    by (rule sum_list_blocks)
  finally show ?thesis
    by (simp add: counter_tiles [OF assms] block_dot_exact)
qed

lemma blocked_elements_exact:
  "0 < kb \<Longrightarrow> blocked_element exact_arith kb A B N K = (\<lambda>m n. block_dot exact_arith A B N K m n 0 K)"
  by (intro ext) (rule blocked_element_exact)

text \<open>C22. In exact arithmetic the blocked kernel and the AVX2 kernel return exactly what the plain triple loop returns: the same
  matrix for every size, multiple of the block sizes or not, and the same error for a null pointer or an empty dimension.\<close>

theorem kernels_agree:
  assumes "\<forall>a \<in> set_option A. M * K \<le> length a" and "\<forall>b \<in> set_option B. K * N \<le> length b"
    and "\<forall>c \<in> set_option C. M * N \<le> length c"
  shows "kernel_matmul_blocked exact_arith A B C M N K = kernel_matmul exact_arith A B C M N K \<and>
    kernel_matmul_blocked_avx2 exact_arith exact_arith A B C M N K = kernel_matmul exact_arith A B C M N K"
proof (cases "A = None \<or> B = None \<or> C = None \<or> M = 0 \<or> N = 0 \<or> K = 0")
  case True
  then show ?thesis
    by (auto simp: kernel_matmul_def kernel_matmul_blocked_def kernel_matmul_blocked_avx2_def split: option.splits)
next
  case False
  then obtain a b c where [simp]: "A = Some a" "B = Some b" "C = Some c"
    by auto
  have fit: "M * K \<le> length a" "K * N \<le> length b" "M * N \<le> length c" "M \<noteq> 0" "N \<noteq> 0" "K \<noteq> 0"
    using assms False by auto
  have blocked: "kernel_matmul_blocked exact_arith A B C M N K = kernel_matmul exact_arith A B C M N K"
    using fit by (simp add: kernel_matmul_spec kernel_matmul_blocked_spec blocked_elements_exact)
  moreover have "kernel_matmul_blocked_avx2 exact_arith exact_arith A B C M N K = kernel_matmul exact_arith A B C M N K"
  proof (cases "8 dvd M \<and> 8 dvd N")
    case True
    then show ?thesis
      using fit by (simp add: kernel_matmul_spec kernel_matmul_avx2_spec blocked_elements_exact)
  next
    case False
    then show ?thesis
      using fit blocked by (auto simp: kernel_matmul_blocked_avx2_def dvd_eq_mod_eq_0)
  qed
  ultimately show ?thesis
    by blast
qed

theorem kernels_agree_witness:
  "kernel_matmul_blocked exact_arith (Some [1, 2, 3, 4 :: int]) (Some [5, 6]) (Some [9, 9, 9]) 2 1 2 = Some (Inr [17, 39, 9]) \<and>
   kernel_matmul_blocked_avx2 exact_arith exact_arith (Some [1, 2, 3, 4 :: int]) (Some [5, 6]) (Some [9, 9, 9]) 2 1 2 =
     Some (Inr [17, 39, 9])"
  using kernels_agree [of "Some [1, 2, 3, 4 :: int]" 2 2 "Some [5, 6]" 1 "Some [9, 9, 9]"]
  by (simp add: kernel_matmul_def matmul_cell_def rd_def upd_at_def exact_arith_def upt_rec)

text \<open>For any arithmetic, the rounding one of the program included, and for buffers that are large enough, the blocked kernel
  never reads or writes outside its buffers, returns, and stores in every output element the dot products of consecutive
  blocks of 64 columns added in order; memory behind the result is unchanged.  The AVX2 kernel does the same with blocks of 128
  when both outer dimensions are multiples of 8 and falls back to the blocked kernel otherwise.\<close>

theorem blocked_kernels_compute:
  assumes "length A \<ge> M * K" and "length B \<ge> K * N" and "length C \<ge> M * N" and "M \<noteq> 0" and "N \<noteq> 0" and "K \<noteq> 0"
  shows "kernel_matmul_blocked ar (Some A) (Some B) (Some C) M N K =
      Some (Inr (by_element M N (blocked_element ar 64 A B N K) @ drop (M * N) C)) \<and>
    kernel_matmul_blocked_avx2 ar vec (Some A) (Some B) (Some C) M N K =
      Some (Inr (by_element M N (if 8 dvd M \<and> 8 dvd N then blocked_element vec 128 A B N K else blocked_element ar 64 A B N K) @
        drop (M * N) C))"
proof (cases "8 dvd M \<and> 8 dvd N")
  case True
  then show ?thesis
    using assms by (simp add: kernel_matmul_blocked_spec kernel_matmul_avx2_spec)
next
  case False
  then show ?thesis
    using assms kernel_matmul_blocked_spec [OF assms, of ar] by (auto simp: kernel_matmul_blocked_avx2_def dvd_eq_mod_eq_0)
qed

theorem blocked_kernels_compute_witness:
  "kernel_matmul_blocked float_arith (Some [F_Fin 2, F_Inf False]) (Some [F_Fin 3, F_Fin 1]) (Some [F_NaN, F_NaN]) 1 1 2 =
     Some (Inr (by_element 1 1 (blocked_element float_arith 64 [F_Fin 2, F_Inf False] [F_Fin 3, F_Fin 1] 1 2) @ [F_NaN]))"
  using blocked_kernels_compute [of 1 2 "[F_Fin 2, F_Inf False]" 1 "[F_Fin 3, F_Fin 1]" "[F_NaN, F_NaN]" float_arith float_fma_arith]
  by simp

text \<open>The AVX-512 kernel keeps one register per column and adds it to a row: the element at row \<open>m\<close> and column \<open>n\<close> gets the product
  for the position mirrored in its tile.\<close>

theorem avx512_transposes_tiles:
  assumes "length A \<ge> M * K" and "length B \<ge> K * N" and "length C \<ge> M * N" and "M \<noteq> 0" and "N \<noteq> 0" and "K \<noteq> 0"
    and "16 dvd M" and "16 dvd N"
  shows "kernel_matmul_blocked_avx512 exact_arith exact_arith (Some A) (Some B) (Some C) M N K =
     Some (Inr (by_element M N (\<lambda>m n. block_dot exact_arith A B N K (m div 16 * 16 + n mod 16) (n div 16 * 16 + m mod 16) 0 K) @
       drop (M * N) C))"
  unfolding kernel_matmul_avx512_spec [OF assms] by (simp add: blocked_element_exact)

theorem avx512_differs:
  fixes A B C :: "int list"
  assumes "length A = 16" and "length B = 16" and "length C = 256" and "A ! 1 * B ! 0 \<noteq> A ! 0 * B ! 1"
  shows "kernel_matmul_blocked_avx512 exact_arith exact_arith (Some A) (Some B) (Some C) 16 16 1 \<noteq>
    kernel_matmul exact_arith (Some A) (Some B) (Some C) 16 16 1"
proof
  let ?f = "\<lambda>m n. block_dot exact_arith A B 16 1 (m div 16 * 16 + n mod 16) (n div 16 * 16 + m mod 16) 0 1"
  let ?g = "\<lambda>m n. block_dot exact_arith A B 16 1 m n 0 1"
  have entry: "by_element 16 16 h ! 1 = h 0 1" for h :: "nat \<Rightarrow> nat \<Rightarrow> int"
    by (simp add: by_element_def del: upt_rec_numeral)
  assume "kernel_matmul_blocked_avx512 exact_arith exact_arith (Some A) (Some B) (Some C) 16 16 1 =
    kernel_matmul exact_arith (Some A) (Some B) (Some C) 16 16 1"
  then have "Some (Inr (by_element 16 16 ?f @ drop (16 * 16) C)) =
      (Some (Inr (by_element 16 16 ?g @ drop (16 * 16) C)) :: (string, int list) expected option)"
    using avx512_transposes_tiles [of 16 1 A 16 B C] kernel_matmul_spec [of 16 1 A 16 B C exact_arith] assms(1-3) by simp
  then have "by_element 16 16 ?f = by_element 16 16 ?g"
    by simp
  then have "?f 0 1 = ?g 0 1"
    using entry [of ?f] entry [of ?g] by (simp only:)
  with assms(4) show False
    by (simp add: block_dot_exact upt_rec)
qed

end
