(* ===== verification/Quantized_Kernels.thy ===== *)
theory Quantized_Kernels
  imports Matmul_Props Execution_Coordinator
begin

text \<open>
  The quantised kernels of \<^verbatim>\<open>code/src/cerberus_quantized_kernels.cpp\<close> and the compressed snapshots of
  \<^verbatim>\<open>code/src/cerberus_shadow_state.cpp\<close>.

  Signed 32-bit values are integers and every result that leaves the range, like every conversion of a float that does not
  fit, is undefined behaviour: the outcome \<open>None\<close>, as is an access outside an array or through a null pointer.
\<close>

subsection \<open>Conversions\<close>

definition i32 :: "int \<Rightarrow> int option" where
  "i32 v = (if - (2 ^ 31) \<le> v \<and> v < 2 ^ 31 then Some v else None)"

text \<open>\<^verbatim>\<open>std::round\<close> rounds halves away from zero; its result is exact.\<close>

definition round_away :: "rat \<Rightarrow> int" where
  "round_away x = (if x < 0 then - \<lfloor>1 / 2 - x\<rfloor> else \<lfloor>x + 1 / 2\<rfloor>)"

fun f_roundf :: "float32 \<Rightarrow> float32" where
  "f_roundf (F_Fin x) = F_Fin (of_int (round_away x))"
| "f_roundf v = v"

fun f_to_i32 :: "float32 \<Rightarrow> int option" where
  "f_to_i32 (F_Fin x) = i32 (if x < 0 then - \<lfloor>- x\<rfloor> else \<lfloor>x\<rfloor>)"
| "f_to_i32 v = None"

definition f_of_int :: "int \<Rightarrow> float32" where
  "f_of_int v = f_round (of_int v)"

definition f_eq :: "float32 \<Rightarrow> float32 \<Rightarrow> bool" where
  "f_eq a b \<longleftrightarrow> a \<noteq> F_NaN \<and> a = b"

subsection \<open>Quantisation\<close>

definition quantize_u8 :: "float32 \<Rightarrow> int \<Rightarrow> float32 \<Rightarrow> byte option" where
  "quantize_u8 scale zero_point v =
     (let q0 = f_add (f_roundf (f_div v scale)) (f_of_int zero_point);
          q1 = (if f_less q0 (F_Fin 0) then F_Fin 0 else q0);
          q2 = (if f_less (F_Fin 255) q1 then F_Fin 255 else q1)
      in map_option word_of_int (f_to_i32 q2))"

definition quantize_tensor_u8 :: "float32 list \<Rightarrow> nat \<Rightarrow> float32 \<Rightarrow> int \<Rightarrow> byte list option" where
  "quantize_tensor_u8 src n scale zero_point =
     (if n \<le> length src then those (map (quantize_u8 scale zero_point) (take n src)) else None)"

definition dequantize_tensor :: "float32 \<Rightarrow> int list \<Rightarrow> float32 list" where
  "dequantize_tensor scale vs = map (\<lambda>v. f_mul (f_of_int v) scale) vs"

text \<open>A range with a value that is not a number is outside the precondition of the standard algorithm.\<close>

definition compute_minmax :: "float32 list \<Rightarrow> (float32 \<times> float32) option" where
  "compute_minmax src = (case src of
      [] \<Rightarrow> None
    | x # xs \<Rightarrow>
        if F_NaN \<in> set src then None
        else Some (foldl (\<lambda>m v. if f_less v m then v else m) x xs, foldl (\<lambda>m v. if f_less m v then v else m) x xs))"

definition compute_scale :: "float32 \<Rightarrow> float32 \<Rightarrow> float32" where
  "compute_scale min_val max_val =
     (if f_eq min_val max_val then F_Fin 1 else f_div (f_sub max_val min_val) (F_Fin 255))"

definition compute_zero_point :: "float32 \<Rightarrow> float32 \<Rightarrow> int option" where
  "compute_zero_point min_val scale = f_to_i32 (f_roundf (f_div (f_neg min_val) scale))"

definition quantize_channel :: "float32 list \<Rightarrow> (byte list \<times> float32 \<times> int) option" where
  "quantize_channel row =
     do { (mn, mx) \<leftarrow> compute_minmax row;
          let scale = compute_scale mn mx;
          zp \<leftarrow> compute_zero_point mn scale;
          bs \<leftarrow> those (map (quantize_u8 scale zp) row);
          Some (bs, scale, zp) }"

definition quantize_per_channel ::
  "float32 list \<Rightarrow> nat \<Rightarrow> nat \<Rightarrow> (byte list \<times> float32 list \<times> int list) option" where
  "quantize_per_channel weight out_channels in_channels =
     (if out_channels * in_channels \<le> length weight then
        map_option (\<lambda>rows. (concat (map fst rows), map (fst \<circ> snd) rows, map (snd \<circ> snd) rows))
          (those (map (\<lambda>oc. quantize_channel (take in_channels (drop (oc * in_channels) weight))) [0..<out_channels]))
      else None)"

definition dequantize_per_channel :: "float32 list \<Rightarrow> nat \<Rightarrow> nat \<Rightarrow> float32 list \<Rightarrow> int list \<Rightarrow> float32 list option" where
  "dequantize_per_channel src out_channels in_channels scales zps =
     (if out_channels * in_channels \<le> length src then
        Some (concat (map (\<lambda>oc. take in_channels (drop (oc * in_channels) src)) [0..<out_channels]))
      else None)"

definition dequantize_u8 :: "float32 \<Rightarrow> int \<Rightarrow> byte \<Rightarrow> float32" where
  "dequantize_u8 scale zero_point v = f_mul (f_sub (f_of_int (uint v)) (f_of_int zero_point)) scale"

definition dequantize_u8_to_f32 ::
  "byte list option \<Rightarrow> float32 list option \<Rightarrow> nat \<Rightarrow> float32 \<Rightarrow> int \<Rightarrow> float32 list option" where
  "dequantize_u8_to_f32 src dst n scale zero_point =
     do { s \<leftarrow> src; d \<leftarrow> dst;
          if n \<le> length s then set_result (map (dequantize_u8 scale zero_point) (take n s)) d else None }"

subsection \<open>Quantised products\<close>

record QuantParams =
  scale_a :: float32
  scale_b :: float32
  scale_c :: float32
  zero_point_a :: int
  zero_point_b :: int

definition int8_mac :: "QuantParams \<Rightarrow> byte \<Rightarrow> byte \<Rightarrow> int \<Rightarrow> int option" where
  "int8_mac q a b acc =
     do { da \<leftarrow> i32 (uint a - zero_point_a q); db \<leftarrow> i32 (uint b - zero_point_b q); p \<leftarrow> i32 (da * db); i32 (acc + p) }"

definition int8_cell :: "QuantParams \<Rightarrow> byte list \<Rightarrow> byte list \<Rightarrow> nat \<Rightarrow> nat \<Rightarrow> nat \<Rightarrow> nat \<Rightarrow> int option" where
  "int8_cell q A B N K m n =
     for_each [0..<K] (\<lambda>k acc. do { a \<leftarrow> rd A (m * K + k); b \<leftarrow> rd B (k * N + n); int8_mac q a b acc }) 0"

definition kernel_matmul_int8 ::
  "byte list option \<Rightarrow> byte list option \<Rightarrow> float32 list option \<Rightarrow> nat \<Rightarrow> nat \<Rightarrow> nat \<Rightarrow> QuantParams
   \<Rightarrow> (string, float32 list) expected option" where
  "kernel_matmul_int8 A B C_out M N K q = (case (A, B, C_out) of
      (Some A, Some B, Some C_out) \<Rightarrow>
        if M = 0 \<or> N = 0 \<or> K = 0 then Some (Inl ''empty dimension'')
        else do { C_acc \<leftarrow> for_each (List.product [0..<M] [0..<N])
                    (\<lambda>(m, n) C. do { v \<leftarrow> int8_cell q A B N K m n; upd_at C (m * N + n) (\<lambda>_. v) }) (replicate (M * N) 0);
                  r \<leftarrow> set_result (dequantize_tensor (f_mul (scale_a q) (scale_b q)) C_acc) C_out;
                  Some (Inr r) }
    | _ \<Rightarrow> Some (Inl ''null pointer''))"

definition or_one :: "float32 \<Rightarrow> float32" where
  "or_one s = (if f_eq s (F_Fin 0) then F_Fin 1 else s)"

definition kernel_matmul_dynamic_quant ::
  "float32 list option \<Rightarrow> float32 list option \<Rightarrow> float32 list option \<Rightarrow> nat \<Rightarrow> nat \<Rightarrow> nat
   \<Rightarrow> (string, float32 list) expected option" where
  "kernel_matmul_dynamic_quant A B C M N K = (case (A, B, C) of
      (Some A, Some B, Some C) \<Rightarrow>
        if length A < M * K \<or> length B < K * N then None
        else do {
          (min_a, max_a) \<leftarrow> compute_minmax (take (M * K) A);
          (min_b, max_b) \<leftarrow> compute_minmax (take (K * N) B);
          let sa = or_one (compute_scale min_a max_a);
          let sb = or_one (compute_scale min_b max_b);
          zp_a \<leftarrow> compute_zero_point min_a sa;
          zp_b \<leftarrow> compute_zero_point min_b sb;
          Aq \<leftarrow> quantize_tensor_u8 A (M * K) sa zp_a;
          Bq \<leftarrow> quantize_tensor_u8 B (K * N) sb zp_b;
          kernel_matmul_int8 (Some Aq) (Some Bq) (Some C) M N K
            \<lparr>scale_a = sa, scale_b = sb, scale_c = F_Fin 1, zero_point_a = zp_a, zero_point_b = zp_b\<rparr> }
    | _ \<Rightarrow> Some (Inl ''null pointer''))"

definition bias_relu :: "float32 \<Rightarrow> float32 \<Rightarrow> float32" where
  "bias_relu c b = (let val = f_add c b in if f_less val (F_Fin 0) then F_Fin 0 else val)"

definition kernel_matmul_bias_relu_int8 ::
  "byte list option \<Rightarrow> byte list option \<Rightarrow> float32 list option \<Rightarrow> float32 list option \<Rightarrow> nat \<Rightarrow> nat \<Rightarrow> nat \<Rightarrow> QuantParams
   \<Rightarrow> (string, float32 list) expected option" where
  "kernel_matmul_bias_relu_int8 A B bias C_out M N K q =
     do { r \<leftarrow> kernel_matmul_int8 A B C_out M N K q;
          case r of
            Inl e \<Rightarrow> Some (Inl e)
          | Inr C \<Rightarrow>
              do { bs \<leftarrow> bias;
                   C' \<leftarrow> for_each (List.product [0..<M] [0..<N])
                     (\<lambda>(m, n) C. do { b \<leftarrow> rd bs n; upd_at C (m * N + n) (\<lambda>c. bias_relu c b) }) C;
                   Some (Inr C') } }"

definition iq4_value :: "nat \<Rightarrow> byte \<Rightarrow> float32" where
  "iq4_value i b =
     f_mul (f_of_int (if odd i then uint (drop_bit 4 b AND 0x0F) - 8 else uint (b AND 0x0F) - 8)) (F_Fin (1 / 16))"

definition kernel_matmul_iq4_nl_block ::
  "float32 list option \<Rightarrow> byte list option \<Rightarrow> float32 list option \<Rightarrow> nat \<Rightarrow> nat \<Rightarrow> nat
   \<Rightarrow> (string, float32 list) expected option" where
  "kernel_matmul_iq4_nl_block A B_block C_out M N K = (case (A, B_block, C_out) of
      (Some A', Some B', Some C') \<Rightarrow>
        if M = 0 \<or> N = 0 \<or> K = 0 then Some (Inl ''empty dimension'')
        else do { Bf \<leftarrow> those (map (\<lambda>i. map_option (iq4_value i) (rd B' (i mod (K * N)))) [0..<K * N]);
                  kernel_matmul float_arith A (Some Bf) C_out M N K }
    | _ \<Rightarrow> Some (Inl ''null pointer''))"

subsection \<open>Shadow snapshots\<close>

record ShadowSnapshot =
  sn_scale :: float32
  sn_zero_point :: int
  sn_hash :: u64
  sn_compressed :: "byte list"
  sn_original_elems :: nat

definition empty_snapshot :: ShadowSnapshot where
  "empty_snapshot = \<lparr>sn_scale = F_Fin 1, sn_zero_point = 0, sn_hash = 0, sn_compressed = [], sn_original_elems = 0\<rparr>"

definition sn_valid :: "ShadowSnapshot \<Rightarrow> bool" where
  "sn_valid s \<longleftrightarrow> sn_compressed s \<noteq> [] \<and> sn_hash s \<noteq> 0 \<and> f_less (F_Fin 0) (sn_scale s)"

definition snapshot :: "float32 \<Rightarrow> int \<Rightarrow> byte list \<Rightarrow> ShadowSnapshot" where
  "snapshot scale zp bs = \<lparr>sn_scale = scale, sn_zero_point = zp, sn_hash = fnv1a_bytes bs, sn_compressed = bs,
     sn_original_elems = length bs\<rparr>"

definition compress_to_shadow :: "float32 list option \<Rightarrow> nat \<Rightarrow> ShadowSnapshot option" where
  "compress_to_shadow src n = (case src of
      None \<Rightarrow> Some empty_snapshot
    | Some xs \<Rightarrow>
        if n = 0 then Some empty_snapshot
        else if length xs < n then None
        else
          let ys = take n xs;
              min_val = foldl (\<lambda>m v. if f_less v m then v else m) (hd ys) (tl ys);
              max_val = foldl (\<lambda>m v. if f_less m v then v else m) (hd ys) (tl ys)
          in if f_eq min_val max_val then Some (snapshot (F_Fin 1) 0 (replicate n 128))
             else let scale = compute_scale min_val max_val
                  in do { zp \<leftarrow> compute_zero_point min_val scale;
                          bs \<leftarrow> those (map (quantize_u8 scale zp) ys);
                          Some (snapshot scale zp bs) })"

definition restore_from_shadow :: "ShadowSnapshot \<Rightarrow> float32 list option \<Rightarrow> nat \<Rightarrow> (bool \<times> float32 list option) option" where
  "restore_from_shadow s dst n = (case dst of
      None \<Rightarrow> Some (False, dst)
    | Some d \<Rightarrow>
        if \<not> sn_valid s \<or> n \<noteq> sn_original_elems s \<or> n \<noteq> length (sn_compressed s) then Some (False, dst)
        else if fnv1a_bytes (sn_compressed s) \<noteq> sn_hash s then Some (False, dst)
        else map_option (\<lambda>r. (True, Some r))
               (set_result (map (dequantize_u8 (sn_scale s) (sn_zero_point s)) (sn_compressed s)) d))"

end
