(* ===== verification/Glow_Engine.thy ===== *)
theory Glow_Engine
  imports Float32 Std_Map Std_String
begin

text \<open>
  The recorder of hot execution paths of \<^verbatim>\<open>code/src/cerberus_glow_engine.cpp\<close> and its header: bonds between graph nodes that grow
  with use and decay, the search for hot paths along them, and the registry of names.

  Time stamps are never read and left out.  The hash tables are maps sorted by key; where a result depends on the order in
  which a table is traversed or on how \<^verbatim>\<open>std::sort\<close> leaves equal elements, that order is an argument, a rearrangement of the list.
  The search carries fuel for its depth; \<open>None\<close> is running out of it.
\<close>

subsection \<open>Bonds\<close>

record GraphEdgeBond =
  gb_from_node :: int
  gb_to_node :: int
  gb_base_strength :: float32
  gb_learned_weight :: float32
  gb_traversal_count :: u32

text \<open>The constant \<^verbatim>\<open>0.1f\<close>.\<close>

definition tenth :: float32 where
  "tenth = F_Fin (13421773 / 134217728)"

definition combined_strength :: "GraphEdgeBond \<Rightarrow> float32" where
  "combined_strength b =
     (let v = f_add (gb_base_strength b) (f_mul (gb_learned_weight b) tenth) in if f_less v (F_Fin 1) then v else F_Fin 1)"

definition attenuate :: "GraphEdgeBond \<Rightarrow> float32 \<Rightarrow> u32 \<Rightarrow> float32" where
  "attenuate b amplitude hops = f_div (f_mul amplitude (combined_strength b)) (f_of_u32 (hops + 1))"

record GlowPath =
  gp_nodes :: "int list"
  gp_total_amplitude :: float32
  gp_hop_count :: u32

definition is_hot :: "float32 \<Rightarrow> GlowPath \<Rightarrow> bool" where
  "is_hot threshold p \<longleftrightarrow> f_leq threshold (gp_total_amplitude p)"

record GlowStats =
  gs_reinforcements_applied :: u64
  gs_decay_cycles_completed :: u64
  gs_paths_learned :: u64
  gs_average_learned_weight :: float32
  gs_active_bond_count :: nat

type_synonym bond_table = "(int, (int, GraphEdgeBond) smap) smap"

record GlowEngine =
  ge_bonds :: bond_table
  ge_recent_paths :: "GlowPath list"
  ge_stats :: GlowStats
  ge_weight_cap :: float32

definition no_stats :: GlowStats where
  "no_stats = \<lparr>gs_reinforcements_applied = 0, gs_decay_cycles_completed = 0, gs_paths_learned = 0,
     gs_average_learned_weight = F_Fin 0, gs_active_bond_count = 0\<rparr>"

definition new_glow :: "float32 \<Rightarrow> GlowEngine" where
  "new_glow cap = \<lparr>ge_bonds = [], ge_recent_paths = [], ge_stats = no_stats, ge_weight_cap = cap\<rparr>"

definition find_bond :: "bond_table \<Rightarrow> int \<Rightarrow> int \<Rightarrow> GraphEdgeBond option" where
  "find_bond bonds from_node to_node =
     (case smap_find bonds from_node of None \<Rightarrow> None | Some inner \<Rightarrow> smap_find inner to_node)"

definition put_bond :: "GraphEdgeBond \<Rightarrow> bond_table \<Rightarrow> bond_table" where
  "put_bond b bonds =
     smap_put (gb_from_node b) (smap_put (gb_to_node b) b (smap_get [] bonds (gb_from_node b))) bonds"

definition new_bond :: "int \<Rightarrow> int \<Rightarrow> GraphEdgeBond" where
  "new_bond from_node to_node = \<lparr>gb_from_node = from_node, gb_to_node = to_node, gb_base_strength = F_Fin (1 / 2),
     gb_learned_weight = F_Fin 0, gb_traversal_count = 0\<rparr>"

definition ensure_bond :: "int \<Rightarrow> int \<Rightarrow> bond_table \<Rightarrow> bond_table" where
  "ensure_bond from_node to_node bonds =
     (if find_bond bonds from_node to_node = None then put_bond (new_bond from_node to_node) bonds else bonds)"

definition update_bond :: "(GraphEdgeBond \<Rightarrow> GraphEdgeBond) \<Rightarrow> int \<times> int \<Rightarrow> bond_table \<Rightarrow> bond_table" where
  "update_bond f e bonds = (case e of (from_node, to_node) \<Rightarrow>
     let bonds1 = ensure_bond from_node to_node bonds
     in case find_bond bonds1 from_node to_node of None \<Rightarrow> bonds1 | Some b \<Rightarrow> put_bond (f b) bonds1)"

definition path_edges :: "int list \<Rightarrow> (int \<times> int) list" where
  "path_edges p = zip p (tl p)"

definition path_amplitude :: "bond_table \<Rightarrow> int list \<Rightarrow> float32" where
  "path_amplitude bonds p =
     foldl (\<lambda>amp (x, y). case find_bond bonds x y of None \<Rightarrow> amp | Some b \<Rightarrow> f_mul amp (combined_strength b)) (F_Fin 1) (path_edges p)"

subsection \<open>Learning\<close>

definition record_execution :: "int list \<Rightarrow> GlowEngine \<Rightarrow> GlowEngine" where
  "record_execution node_path g =
     (if length node_path < 2 then g
      else let bonds = fold (update_bond (\<lambda>b. b\<lparr>gb_traversal_count := gb_traversal_count b + 1\<rparr>)) (path_edges node_path) (ge_bonds g);
               gp = \<lparr>gp_nodes = node_path, gp_total_amplitude = path_amplitude bonds node_path,
                     gp_hop_count = of_nat (length node_path - 1)\<rparr>;
               recent = ge_recent_paths g @ [gp];
               recent1 = (if 10000 < length recent then drop 5000 recent else recent)
           in g\<lparr>ge_bonds := bonds, ge_recent_paths := recent1,
                 ge_stats := (ge_stats g)\<lparr>gs_paths_learned := gs_paths_learned (ge_stats g) + 1\<rparr>\<rparr>)"

definition grow :: "float32 \<Rightarrow> float32 \<Rightarrow> GraphEdgeBond \<Rightarrow> GraphEdgeBond" where
  "grow cap reward b =
     (let w = f_add (gb_learned_weight b) reward in b\<lparr>gb_learned_weight := (if f_less w cap then w else cap)\<rparr>)"

definition reinforce_path :: "int list \<Rightarrow> float32 \<Rightarrow> GlowEngine \<Rightarrow> GlowEngine" where
  "reinforce_path path reward g =
     (if length path < 2 then g
      else g\<lparr>ge_bonds := fold (update_bond (grow (ge_weight_cap g) reward)) (path_edges path) (ge_bonds g),
             ge_stats := (ge_stats g)\<lparr>gs_reinforcements_applied := gs_reinforcements_applied (ge_stats g) + of_nat (length path - 1)\<rparr>\<rparr>)"

definition fade :: "float32 \<Rightarrow> GraphEdgeBond \<Rightarrow> GraphEdgeBond" where
  "fade rate b =
     (let w = f_sub (gb_learned_weight b) rate in b\<lparr>gb_learned_weight := (if f_less (F_Fin 0) w then w else F_Fin 0)\<rparr>)"

definition keep_bond :: "GraphEdgeBond \<Rightarrow> bool" where
  "keep_bond b \<longleftrightarrow> \<not> (f_leq (gb_learned_weight b) (F_Fin 0) \<and> gb_traversal_count b = 0)"

definition decay_targets :: "float32 \<Rightarrow> (int, GraphEdgeBond) smap \<Rightarrow> (int, GraphEdgeBond) smap" where
  "decay_targets rate targets = filter (\<lambda>e. keep_bond (snd e)) (map (\<lambda>(k, b). (k, fade rate b)) targets)"

definition decay_all :: "float32 \<Rightarrow> GlowEngine \<Rightarrow> GlowEngine" where
  "decay_all rate g =
     g\<lparr>ge_bonds := filter (\<lambda>e. snd e \<noteq> []) (map (\<lambda>(k, t). (k, decay_targets rate t)) (ge_bonds g)),
       ge_stats := (ge_stats g)\<lparr>gs_decay_cycles_completed := gs_decay_cycles_completed (ge_stats g) + 1\<rparr>\<rparr>"

definition glow_reset :: "GlowEngine \<Rightarrow> GlowEngine" where
  "glow_reset g = g\<lparr>ge_bonds := [], ge_recent_paths := [], ge_stats := no_stats\<rparr>"

definition set_weight_cap :: "float32 \<Rightarrow> GlowEngine \<Rightarrow> GlowEngine" where
  "set_weight_cap cap g = g\<lparr>ge_weight_cap := cap\<rparr>"

subsection \<open>Queries\<close>

fun insert_desc :: "('a \<Rightarrow> float32) \<Rightarrow> 'a \<Rightarrow> 'a list \<Rightarrow> 'a list" where
  "insert_desc key x [] = [x]"
| "insert_desc key x (y # ys) = (if f_less (key x) (key y) then y # insert_desc key x ys else x # y # ys)"

definition sort_desc :: "('a \<Rightarrow> float32) \<Rightarrow> 'a list \<Rightarrow> 'a list" where
  "sort_desc key xs = foldr (insert_desc key) xs []"

primrec traverse_hot ::
  "nat \<Rightarrow> (GraphEdgeBond list \<Rightarrow> GraphEdgeBond list) \<Rightarrow> bond_table \<Rightarrow> float32 \<Rightarrow> u32 \<Rightarrow> int \<Rightarrow> float32 \<Rightarrow> u32 \<Rightarrow> int list
   \<Rightarrow> GlowPath list option" where
  "traverse_hot 0 arrange bonds lowest max_hops current amplitude hops path_so_far = None"
| "traverse_hot (Suc fuel) arrange bonds lowest max_hops current amplitude hops path_so_far =
     (if f_less amplitude lowest \<or> max_hops < hops then Some []
      else let path = path_so_far @ [current];
               here = (if 2 \<le> length path
                       then [\<lparr>gp_nodes = path, gp_total_amplitude = amplitude, gp_hop_count = hops\<rparr>] else [])
           in case smap_find bonds current of
                None \<Rightarrow> Some here
              | Some targets \<Rightarrow>
                  map_option (\<lambda>rs. here @ concat rs)
                    (those (map (\<lambda>b. traverse_hot fuel arrange bonds lowest max_hops (gb_to_node b) (attenuate b amplitude hops)
                                 (hops + 1) path)
                       (sort_desc combined_strength (arrange (map snd targets))))))"

definition query_hot_paths ::
  "nat \<Rightarrow> (GraphEdgeBond list \<Rightarrow> GraphEdgeBond list) \<Rightarrow> (GlowPath list \<Rightarrow> GlowPath list) \<Rightarrow> int \<Rightarrow> float32 \<Rightarrow> u32 \<Rightarrow> nat
   \<Rightarrow> GlowEngine \<Rightarrow> GlowPath list option" where
  "query_hot_paths fuel arrange arrange_paths start_node min_strength max_hops max_results g =
     map_option (\<lambda>rs. take max_results (sort_desc gp_total_amplitude (arrange_paths rs)))
       (traverse_hot fuel arrange (ge_bonds g) min_strength max_hops start_node (F_Fin 1) 0 [])"

definition better_bond :: "float32 \<Rightarrow> GraphEdgeBond option \<Rightarrow> GraphEdgeBond \<Rightarrow> GraphEdgeBond option" where
  "better_bond min_strength best b =
     (if f_less (combined_strength b) min_strength then best
      else case best of
             None \<Rightarrow> Some b
           | Some c \<Rightarrow> if f_less (combined_strength c) (combined_strength b) then Some b else best)"

definition best_next_hop :: "(GraphEdgeBond list \<Rightarrow> GraphEdgeBond list) \<Rightarrow> int \<Rightarrow> float32 \<Rightarrow> GlowEngine \<Rightarrow> int option" where
  "best_next_hop arrange from_node min_strength g = (case smap_find (ge_bonds g) from_node of
      None \<Rightarrow> None
    | Some targets \<Rightarrow> map_option gb_to_node (foldl (better_bond min_strength) None (arrange (map snd targets))))"

definition get_bond :: "int \<Rightarrow> int \<Rightarrow> GlowEngine \<Rightarrow> GraphEdgeBond option" where
  "get_bond from_node to_node g = find_bond (ge_bonds g) from_node to_node"

definition glow_stats :: "(GraphEdgeBond list \<Rightarrow> GraphEdgeBond list) \<Rightarrow> GlowEngine \<Rightarrow> GlowStats" where
  "glow_stats arrange g =
     (let bs = arrange (concat (map (\<lambda>(k, t). map snd t) (ge_bonds g)));
          total = foldl (\<lambda>s b. f_add s (gb_learned_weight b)) (F_Fin 0) bs;
          s = (ge_stats g)\<lparr>gs_active_bond_count := length bs\<rparr>
      in if bs \<noteq> [] then s\<lparr>gs_average_learned_weight := f_div total (f_round (of_nat (length bs)))\<rparr> else s)"

subsection \<open>Locks\<close>

text \<open>The order in which the operations take and give back the two mutexes.\<close>

datatype glow_lock = Bonds_Mutex | Stats_Mutex

datatype lock_op = Acquire glow_lock | Release glow_lock

definition learning_locks :: "lock_op list" where
  "learning_locks = [Acquire Bonds_Mutex, Acquire Stats_Mutex, Release Stats_Mutex, Release Bonds_Mutex]"

definition stats_locks :: "lock_op list" where
  "stats_locks = [Acquire Stats_Mutex, Acquire Bonds_Mutex, Release Bonds_Mutex, Release Stats_Mutex]"

subsection \<open>Names\<close>

definition blank4 :: "char \<Rightarrow> bool" where
  "blank4 c \<longleftrightarrow> c \<in> {CHR '' '', CHR 0x09, CHR 0x0A, CHR 0x0D}"

definition plain_char :: "char \<Rightarrow> char" where
  "plain_char c =
     (if CHR ''A'' \<le> c \<and> c \<le> CHR ''Z'' then char_of (of_char c + 32 :: nat)
      else if c \<in> {CHR 0x27, CHR 0x22, CHR ''-'', CHR ''_''} then CHR '' '' else c)"

definition normalize_phrase :: "string \<Rightarrow> string" where
  "normalize_phrase s = rev (dropWhile blank4 (rev (dropWhile blank4 (map plain_char s))))"

definition overlap :: "string list \<Rightarrow> string list \<Rightarrow> nat" where
  "overlap wa wb = length (filter (\<lambda>w. w \<in> set wb) wa)"

definition calculate_similarity :: "string \<Rightarrow> string \<Rightarrow> float32" where
  "calculate_similarity a b =
     (if a = b then F_Fin 1
      else if a = [] \<or> b = [] then F_Fin 0
      else if contains b a \<or> contains a b then
        f_add (f_round (7 / 10)) (f_mul (f_round (3 / 10))
          (f_div (f_round (of_nat (min (length a) (length b)))) (f_round (of_nat (max (length a) (length b))))))
      else let wa = ws_tokens a; wb = ws_tokens b; o1 = overlap wa wb; denom = length wa + length wb - o1
           in if denom = 0 then F_Fin 0
              else f_mul (f_div (f_round (of_nat o1)) (f_round (of_nat denom))) (f_round (6 / 10)))"

record GlowCatchphraseResult =
  cr_found :: bool
  cr_node_id :: int
  cr_matched_catchphrase :: string
  cr_confidence :: float32

definition no_phrase :: GlowCatchphraseResult where
  "no_phrase = \<lparr>cr_found = False, cr_node_id = - 1, cr_matched_catchphrase = [], cr_confidence = F_Fin 0\<rparr>"

definition register_phrase :: "string \<Rightarrow> int \<Rightarrow> (string, int) smap \<Rightarrow> (string, int) smap" where
  "register_phrase phrase node_id phrases = smap_put (normalize_phrase phrase) node_id phrases"

definition better_phrase :: "string \<Rightarrow> float32 \<times> string \<times> int \<Rightarrow> string \<times> int \<Rightarrow> float32 \<times> string \<times> int" where
  "better_phrase q best e = (case e of (phrase, node_id) \<Rightarrow>
     let conf = calculate_similarity q phrase
     in if f_less (fst best) conf \<and> f_leq (F_Fin (1 / 2)) conf then (conf, phrase, node_id) else best)"

definition resolve :: "((string \<times> int) list \<Rightarrow> (string \<times> int) list) \<Rightarrow> string \<Rightarrow> (string, int) smap \<Rightarrow> GlowCatchphraseResult" where
  "resolve arrange query phrases =
     (let q = normalize_phrase query
      in if q = [] then no_phrase
         else case smap_find phrases q of
                Some node_id \<Rightarrow> \<lparr>cr_found = True, cr_node_id = node_id, cr_matched_catchphrase = q, cr_confidence = F_Fin 1\<rparr>
              | None \<Rightarrow>
                  (case foldl (better_phrase q) (F_Fin 0, [], - 1) (arrange phrases) of (conf, phrase, node_id) \<Rightarrow>
                     if phrase \<noteq> [] then \<lparr>cr_found = True, cr_node_id = node_id, cr_matched_catchphrase = phrase, cr_confidence = conf\<rparr>
                     else no_phrase))"

definition tokenize_phrase :: "string \<Rightarrow> string list" where
  "tokenize_phrase query = ws_tokens (normalize_phrase query)"

definition list_phrases :: "((string \<times> int) list \<Rightarrow> (string \<times> int) list) \<Rightarrow> (string, int) smap \<Rightarrow> string list" where
  "list_phrases arrange phrases = map fst (arrange phrases)"

end
