(* ===== verification/Glow_Props.thy ===== *)
theory Glow_Props
  imports Glow_Engine "HOL-Library.Multiset"
begin

text \<open>
  Learned weights stay within their cap over every history; a query returns the strongest of exactly the paths that follow bonds and
  stay above the threshold; learning and reading the statistics at the same time can deadlock.
\<close>

subsection \<open>The bond table\<close>

definition bond_ok :: "nat \<Rightarrow> int \<Rightarrow> int \<Rightarrow> GraphEdgeBond \<Rightarrow> bool" where
  "bond_ok k x y b \<longleftrightarrow> gb_from_node b = x \<and> gb_to_node b = y \<and> gb_base_strength b = F_Fin (1 / 2) \<and>
     (\<exists>w. gb_learned_weight b = F_Fin w \<and> 0 \<le> w \<and> w \<le> 2 ^ k)"

definition bonds_ok :: "nat \<Rightarrow> bond_table \<Rightarrow> bool" where
  "bonds_ok k bonds \<longleftrightarrow> smap_wf bonds \<and>
     (\<forall>x t. smap_find bonds x = Some t \<longrightarrow> smap_wf t \<and> (\<forall>y b. smap_find t y = Some b \<longrightarrow> bond_ok k x y b))"

definition glow_ok :: "nat \<Rightarrow> GlowEngine \<Rightarrow> bool" where
  "glow_ok k g \<longleftrightarrow> bonds_ok k (ge_bonds g) \<and>
     (\<exists>c. ge_weight_cap g = F_Fin c \<and> 0 \<le> c \<and> c \<le> 2 ^ k) \<and> length (ge_recent_paths g) \<le> 10000"

lemma bonds_ok_put:
  assumes "bonds_ok k bonds" and "bond_ok k (gb_from_node b) (gb_to_node b) b"
  shows "bonds_ok k (put_bond b bonds)"
  using assms by (auto simp: bonds_ok_def put_bond_def smap_get_def split: option.splits if_splits)

lemma bonds_ok_find: "bonds_ok k bonds \<Longrightarrow> find_bond bonds x y = Some b \<Longrightarrow> bond_ok k x y b"
  by (auto simp: bonds_ok_def find_bond_def split: option.splits)

lemma bonds_ok_ensure: "bonds_ok k bonds \<Longrightarrow> bonds_ok k (ensure_bond x y bonds)"
  by (auto simp: ensure_bond_def new_bond_def bond_ok_def intro!: bonds_ok_put)

lemma bonds_ok_update:
  assumes "bonds_ok k bonds" and "\<And>x y b. bond_ok k x y b \<Longrightarrow> bond_ok k x y (f b)"
  shows "bonds_ok k (update_bond f e bonds)"
proof -
  obtain x y where e: "e = (x, y)"
    by fastforce
  have "bonds_ok k (put_bond (f b) (ensure_bond x y bonds))" if "find_bond (ensure_bond x y bonds) x y = Some b" for b
    using assms bonds_ok_ensure [OF assms(1), of x y] bonds_ok_find [OF bonds_ok_ensure [OF assms(1)] that]
    by (intro bonds_ok_put) (auto simp: bond_ok_def)
  then show ?thesis
    using bonds_ok_ensure [OF assms(1)] by (auto simp: update_bond_def e Let_def split: option.splits)
qed

lemma bonds_ok_updates:
  "bonds_ok k bonds \<Longrightarrow> (\<And>x y b. bond_ok k x y b \<Longrightarrow> bond_ok k x y (f b)) \<Longrightarrow> bonds_ok k (fold (update_bond f) es bonds)"
  by (induction es arbitrary: bonds) (simp_all add: bonds_ok_update)

lemma smap_find_map_filter:
  "smap_wf m \<Longrightarrow> smap_find (filter (\<lambda>e. P (snd e)) (map (\<lambda>(x, v). (x, h v)) m)) x =
     (case smap_find m x of None \<Rightarrow> None | Some v \<Rightarrow> if P (h v) then Some (h v) else None)"
  by (induction m) (auto simp: smap_find_Cons smap_wf_Cons smap_find_below case_prod_unfold split: option.splits
      dest: smap_find_in_set)

lemma smap_wf_map_filter: "smap_wf m \<Longrightarrow> smap_wf (filter P (map (\<lambda>(x, v). (x, h v)) m))"
  by (induction m) (auto simp: smap_wf_Cons)

subsection \<open>Rounding\<close>

lemma f_magnitude_nonneg: "0 \<le> x \<Longrightarrow> 0 \<le> f_magnitude x"
  using f_quantum_pos [of x] by (simp add: f_magnitude_def round_half_even_nonneg)

lemma f_round_nonneg: "0 \<le> x \<Longrightarrow> f_round x = F_Inf False \<or> (\<exists>v. f_round x = F_Fin v \<and> 0 \<le> v)"
  using f_magnitude_nonneg [of x] by (auto simp: f_round_def Let_def)

lemma f_round_nonpos: "x \<le> 0 \<Longrightarrow> f_round x = F_Inf True \<or> (\<exists>v. f_round x = F_Fin v \<and> v \<le> 0)"
  using f_magnitude_nonneg [of "- x"] by (auto simp: f_round_def Let_def)

lemma bond_ok_grow:
  assumes "bond_ok k x y b" and "0 \<le> r" and "0 \<le> c" and "c \<le> 2 ^ k"
  shows "bond_ok k x y (grow (F_Fin c) (F_Fin r) b)"
proof -
  obtain w where w: "gb_learned_weight b = F_Fin w" "0 \<le> w"
    using assms(1) by (auto simp: bond_ok_def)
  then show ?thesis
    using assms f_round_nonneg [of "w + r"] by (auto simp: bond_ok_def grow_def Let_def)
qed

lemma bond_ok_fade:
  assumes "bond_ok k x y b" and "0 \<le> d" and "k < 128"
  shows "bond_ok k x y (fade (F_Fin d) b)"
proof -
  obtain w where w: "gb_learned_weight b = F_Fin w" "0 \<le> w" "w \<le> 2 ^ k"
    using assms(1) by (auto simp: bond_ok_def)
  show ?thesis
  proof (cases "0 \<le> w - d")
    case True
    then obtain v where "f_round (w - d) = F_Fin v" "\<bar>v\<bar> \<le> 2 ^ k" "0 \<le> v"
      using f_round_bounded [of "w - d" k] w assms(2,3) by auto
    then show ?thesis
      using assms(1) w by (auto simp: bond_ok_def fade_def f_sub_def Let_def)
  next
    case False
    then show ?thesis
      using assms(1) w f_round_nonpos [of "w - d"] by (auto simp: bond_ok_def fade_def f_sub_def Let_def)
  qed
qed

subsection \<open>Histories\<close>

datatype glow_op = G_Record "int list" | G_Reinforce "int list" float32 | G_Decay float32 | G_Reset | G_Cap float32

fun glow_step :: "glow_op \<Rightarrow> GlowEngine \<Rightarrow> GlowEngine" where
  "glow_step (G_Record p) g = record_execution p g"
| "glow_step (G_Reinforce p r) g = reinforce_path p r g"
| "glow_step (G_Decay d) g = decay_all d g"
| "glow_step G_Reset g = glow_reset g"
| "glow_step (G_Cap c) g = set_weight_cap c g"

definition nonneg_finite :: "float32 \<Rightarrow> bool" where
  "nonneg_finite v \<longleftrightarrow> (\<exists>x. v = F_Fin x \<and> 0 \<le> x)"

fun sane_op :: "nat \<Rightarrow> glow_op \<Rightarrow> bool" where
  "sane_op k (G_Reinforce p r) = nonneg_finite r"
| "sane_op k (G_Decay d) = nonneg_finite d"
| "sane_op k (G_Cap c) = (\<exists>x. c = F_Fin x \<and> 0 \<le> x \<and> x \<le> 2 ^ k)"
| "sane_op k _ = True"

lemma decay_bonds_ok:
  assumes "bonds_ok k bonds" and "0 \<le> d" and "k < 128"
  shows "bonds_ok k (filter (\<lambda>e. snd e \<noteq> []) (map (\<lambda>(x, t). (x, decay_targets (F_Fin d) t)) bonds))"
proof -
  have t: "smap_wf (decay_targets (F_Fin d) t) \<and> (\<forall>y b. smap_find (decay_targets (F_Fin d) t) y = Some b \<longrightarrow> bond_ok k x y b)"
    if "smap_find bonds x = Some t" for x t
  proof -
    have wf: "smap_wf t" and ok: "\<And>y b. smap_find t y = Some b \<Longrightarrow> bond_ok k x y b"
      using assms(1) that by (auto simp: bonds_ok_def)
    show ?thesis
      unfolding decay_targets_def using ok bond_ok_fade assms(2,3)
      by (auto simp: smap_find_map_filter [OF wf] smap_wf_map_filter [OF wf] split: option.splits if_splits)
  qed
  have wf: "smap_wf bonds"
    using assms(1) by (simp add: bonds_ok_def)
  show ?thesis
    unfolding bonds_ok_def using t
    by (auto simp: smap_find_map_filter [OF wf, of "\<lambda>t. t \<noteq> []"] smap_wf_map_filter [OF wf] split: option.splits if_splits)
qed

lemma glow_step_ok:
  assumes "glow_ok k g" and "sane_op k c" and "k < 128"
  shows "glow_ok k (glow_step c g)"
proof (cases c)
  case (G_Record p)
  then show ?thesis
    using assms(1) bonds_ok_updates [of k "ge_bonds g" "\<lambda>b. b\<lparr>gb_traversal_count := gb_traversal_count b + 1\<rparr>" "path_edges p"]
    by (auto simp: glow_ok_def record_execution_def Let_def bond_ok_def)
next
  case (G_Reinforce p r)
  then show ?thesis
    using assms(1,2) bonds_ok_updates [of k "ge_bonds g" "grow (ge_weight_cap g) r" "path_edges p"]
    by (auto simp: glow_ok_def reinforce_path_def nonneg_finite_def bond_ok_grow)
next
  case (G_Decay d)
  then show ?thesis
    using assms decay_bonds_ok [of k "ge_bonds g"] by (auto simp: glow_ok_def decay_all_def nonneg_finite_def)
next
  case G_Reset
  then show ?thesis
    using assms(1) by (simp add: glow_ok_def glow_reset_def bonds_ok_def)
next
  case (G_Cap c)
  then show ?thesis
    using assms(1,2) by (simp add: glow_ok_def set_weight_cap_def)
qed

lemma glow_history_ok:
  assumes "\<forall>c \<in> set cs. sane_op k c" and "k < 128" and "0 \<le> c" and "c \<le> 2 ^ k"
  shows "glow_ok k (fold glow_step cs (new_glow (F_Fin c)))"
proof -
  have "glow_ok k (fold glow_step cs g)" if "glow_ok k g" for g
    using assms(1) that by (induction cs arbitrary: g) (simp_all add: glow_step_ok [OF _ _ assms(2)])
  moreover have "glow_ok k (new_glow (F_Fin c))"
    using assms(3,4) by (simp add: glow_ok_def new_glow_def bonds_ok_def)
  ultimately show ?thesis
    by blast
qed

subsection \<open>Amplitudes\<close>

definition unit_float :: "float32 \<Rightarrow> bool" where
  "unit_float v \<longleftrightarrow> (\<exists>x. v = F_Fin x \<and> 0 \<le> x \<and> x \<le> 1)"

lemma unit_not_NaN: "unit_float v \<Longrightarrow> v \<noteq> F_NaN"
  by (auto simp: unit_float_def)

lemma f_round_unit: "0 \<le> x \<Longrightarrow> x \<le> 1 \<Longrightarrow> unit_float (f_round x)"
  using f_round_bounded [of x 0] by (auto simp: unit_float_def)

lemma f_round_ge_one:
  assumes "1 \<le> x" and "x \<le> 2 ^ k" and "k < 128"
  shows "\<exists>v. f_round x = F_Fin v \<and> 1 \<le> v"
proof -
  define e where "e = f32_exponent x"
  have lo: "2 powi e \<le> x"
    using f32_exponent_bounds(1) [of x] assms(1) by (simp add: e_def)
  have "0 \<le> e"
  proof (rule ccontr)
    assume "\<not> 0 \<le> e"
    then have "e + 1 \<le> 0"
      by simp
    then have "(2 :: rat) powi (e + 1) \<le> 2 powi 0"
      by (intro power_int_increasing) simp_all
    moreover have "x < 2 powi (e + 1)"
      using f32_exponent_bounds(2) [of x] assms(1) by (simp add: e_def)
    ultimately show False
      using assms(1) by simp
  qed
  then have q: "f_quantum x = 2 powi (e - 23)"
    by (simp add: f_quantum_def e_def max_def)
  have "(2 :: rat) ^ 23 * f_quantum x = 2 powi e"
    unfolding q using power_int_add [of "2 :: rat" 23 "e - 23"] by (simp add: power_int_def)
  then have "of_int (2 ^ 23) \<le> x / f_quantum x"
    using lo f_quantum_pos [of x] by (simp add: le_divide_eq)
  then have "(of_int (2 ^ 23) :: rat) \<le> of_int (round_half_even (x / f_quantum x))"
    by (simp only: of_int_le_iff round_half_even_ge)
  then have "of_int (2 ^ 23) * f_quantum x \<le> f_magnitude x"
    unfolding f_magnitude_def using f_quantum_pos [of x] by (intro mult_right_mono) simp_all
  moreover have "1 \<le> (2 :: rat) powi e"
    using \<open>0 \<le> e\<close> one_le_power [of "2 :: rat"] by (simp add: power_int_def)
  ultimately have "1 \<le> f_magnitude x"
    using \<open>2 ^ 23 * f_quantum x = 2 powi e\<close> by simp
  then show ?thesis
    using f_round_bounded [of x k] assms by (auto simp: f_round_def Let_def split: if_splits)
qed

lemma combined_strength_unit:
  assumes "bond_ok k x y b" and "k < 126"
  shows "unit_float (combined_strength b)"
proof -
  let ?c = "13421773 / 134217728 :: rat"
  obtain w where w: "gb_learned_weight b = F_Fin w" "0 \<le> w" "w \<le> 2 ^ k" "gb_base_strength b = F_Fin (1 / 2)"
    using assms(1) by (auto simp: bond_ok_def)
  have "w * ?c \<le> 2 ^ k * 1"
    using w by (intro mult_mono) simp_all
  then obtain v where v: "f_round (w * ?c) = F_Fin v" "0 \<le> v"
    using f_round_bounded [of "w * ?c" k] w(2) assms(2) by auto
  show ?thesis
    using w v f_round_nonneg [of "1 / 2 + v"] by (auto simp: combined_strength_def tenth_def unit_float_def Let_def)
qed

lemma unat_next: "h \<noteq> - 1 \<Longrightarrow> unat (h + 1) = Suc (unat (h :: u32))"
  using unatSuc [of h] eq_neg_iff_add_eq_0 [of h 1] by (simp add: add.commute)

lemma attenuate_unit:
  assumes "bond_ok k x y b" and "k < 126" and "unit_float a" and "hops \<noteq> - 1"
  shows "unit_float (attenuate b a hops)"
proof -
  obtain p s where ps: "a = F_Fin p" "0 \<le> p" "p \<le> 1" "combined_strength b = F_Fin s" "0 \<le> s" "s \<le> 1"
    using assms(3) combined_strength_unit [OF assms(1,2)] by (auto simp: unit_float_def)
  then obtain m where m: "f_round (p * s) = F_Fin m" "0 \<le> m" "m \<le> 1"
    using f_round_unit [of "p * s"] by (auto simp: unit_float_def mult_le_one)
  have "unat (hops + 1) = Suc (unat hops)"
    by (rule unat_next [OF assms(4)])
  then have n: "1 \<le> (of_nat (unat (hops + 1)) :: rat)"
    by (metis One_nat_def le_add1 of_nat_1 of_nat_le_iff plus_1_eq_Suc)
  have "(of_nat (unat (hops + 1)) :: rat) \<le> 2 ^ 32"
  proof -
    have "unat (hops + 1) \<le> 2 ^ 32"
      using unsigned_less [of "hops + 1", where 'a = nat] by simp
    then have "(of_nat (unat (hops + 1)) :: rat) \<le> of_nat (2 ^ 32)"
      by (simp only: of_nat_le_iff)
    then show ?thesis
      by simp
  qed
  then obtain v where v: "f_of_u32 (hops + 1) = F_Fin v" "1 \<le> v"
    using f_round_ge_one [OF n, of 32] by (auto simp: f_of_u32_def)
  then have "0 \<le> m / v" "m / v \<le> 1"
    using m by (simp_all add: divide_le_eq)
  then show ?thesis
    using f_round_unit [of "m / v"] ps m v by (simp add: attenuate_def)
qed

subsection \<open>Sorting\<close>

lemma mset_insert_desc [simp]: "mset (insert_desc key x ys) = add_mset x (mset ys)"
  by (induction ys) simp_all

lemma mset_sort_desc [simp]: "mset (sort_desc key xs) = mset xs"
  by (induction xs) (simp_all add: sort_desc_def)

lemma set_sort_desc [simp]: "set (sort_desc key xs) = set xs"
  by (metis mset_sort_desc set_mset_mset)

lemma distinct_sort_desc [simp]: "distinct (sort_desc key xs) = distinct xs"
  by (metis mset_sort_desc distinct_count_atmost_1 set_mset_mset)

lemma f_less_antisym: "f_less a b \<Longrightarrow> \<not> f_less b a"
  by (cases a; cases b) auto

lemma f_not_less_trans: "\<not> f_less a b \<Longrightarrow> \<not> f_less b c \<Longrightarrow> b \<noteq> F_NaN \<Longrightarrow> a \<noteq> F_NaN \<Longrightarrow> c \<noteq> F_NaN \<Longrightarrow> \<not> f_less a c"
  by (cases a; cases b; cases c) auto

lemma sorted_insert_desc:
  assumes "sorted_wrt (\<lambda>p q. \<not> f_less (key p) (key q)) ys" and "\<forall>z \<in> insert x (set ys). key z \<noteq> F_NaN"
  shows "sorted_wrt (\<lambda>p q. \<not> f_less (key p) (key q)) (insert_desc key x ys)"
  using assms
proof (induction ys)
  case (Cons y ys)
  have "set (insert_desc key x ys) = insert x (set ys)"
    by (metis mset_insert_desc set_mset_add_mset_insert set_mset_mset)
  with Cons show ?case
    by (auto dest: f_less_antisym f_not_less_trans)
qed simp

lemma sorted_sort_desc:
  "\<forall>z \<in> set xs. key z \<noteq> F_NaN \<Longrightarrow> sorted_wrt (\<lambda>p q. \<not> f_less (key p) (key q)) (sort_desc key xs)"
proof (induction xs)
  case (Cons x xs)
  then show ?case
    using sorted_insert_desc [of key "sort_desc key xs" x] by (simp add: sort_desc_def [of key "x # xs"] sort_desc_def [of key xs, symmetric])
qed (simp add: sort_desc_def)

subsection \<open>Hot paths\<close>

text \<open>The amplitude with which a walk along the nodes \<open>ns\<close> arrives, if every bond exists and no prefix falls below the threshold or
  is too long.\<close>

fun hot_walk :: "bond_table \<Rightarrow> float32 \<Rightarrow> u32 \<Rightarrow> int \<Rightarrow> float32 \<Rightarrow> u32 \<Rightarrow> int list \<Rightarrow> float32 option" where
  "hot_walk bonds lowest max_hops cur amp hops [] = (if f_less amp lowest \<or> max_hops < hops then None else Some amp)"
| "hot_walk bonds lowest max_hops cur amp hops (n # ns) =
     (if f_less amp lowest \<or> max_hops < hops then None
      else case find_bond bonds cur n of
             None \<Rightarrow> None
           | Some b \<Rightarrow> hot_walk bonds lowest max_hops n (attenuate b amp hops) (hops + 1) ns)"

definition hot_path :: "int list \<Rightarrow> int \<Rightarrow> u32 \<Rightarrow> int list \<Rightarrow> float32 \<Rightarrow> GlowPath" where
  "hot_path path cur hops ns a =
     \<lparr>gp_nodes = path @ cur # ns, gp_total_amplitude = a, gp_hop_count = hops + of_nat (length ns)\<rparr>"

definition hot_paths_from :: "bond_table \<Rightarrow> float32 \<Rightarrow> u32 \<Rightarrow> int \<Rightarrow> float32 \<Rightarrow> u32 \<Rightarrow> int list \<Rightarrow> GlowPath set" where
  "hot_paths_from bonds lowest max_hops cur amp hops path =
     {hot_path path cur hops ns a |ns a. hot_walk bonds lowest max_hops cur amp hops ns = Some a \<and> 2 \<le> length (path @ cur # ns)}"

lemma those_map_Some: "(\<And>x. x \<in> set xs \<Longrightarrow> g x = Some (f x)) \<Longrightarrow> those (map g xs) = Some (map f xs)"
  by (induction xs) simp_all

lemma hot_paths_cut: "f_less amp lowest \<or> max_hops < hops \<Longrightarrow> hot_paths_from bonds lowest max_hops cur amp hops path = {}"
proof -
  assume "f_less amp lowest \<or> max_hops < hops"
  then have "hot_walk bonds lowest max_hops cur amp hops ns = None" for ns
    by (cases ns) simp_all
  then show ?thesis
    by (simp add: hot_paths_from_def)
qed

lemma hot_paths_step:
  assumes "\<not> (f_less amp lowest \<or> max_hops < hops)"
  shows "hot_paths_from bonds lowest max_hops cur amp hops path =
     (if 2 \<le> length (path @ [cur]) then {\<lparr>gp_nodes = path @ [cur], gp_total_amplitude = amp, gp_hop_count = hops\<rparr>} else {}) \<union>
     (\<Union>n \<in> {n. find_bond bonds cur n \<noteq> None}.
        hot_paths_from bonds lowest max_hops n (attenuate (the (find_bond bonds cur n)) amp hops) (hops + 1) (path @ [cur]))"
    (is "?l = ?h \<union> ?r")
proof (intro equalityI subsetI)
  fix p
  assume "p \<in> ?l"
  then obtain ns a where p: "p = hot_path path cur hops ns a" "hot_walk bonds lowest max_hops cur amp hops ns = Some a"
    "2 \<le> length (path @ cur # ns)"
    by (auto simp: hot_paths_from_def)
  show "p \<in> ?h \<union> ?r"
  proof (cases ns)
    case Nil
    with p assms show ?thesis
      by (auto simp: hot_path_def)
  next
    case (Cons n ns')
    then obtain b where "find_bond bonds cur n = Some b"
      "hot_walk bonds lowest max_hops n (attenuate b amp hops) (hops + 1) ns' = Some a"
      using p(2) assms by (auto split: option.splits)
    then have "p \<in> hot_paths_from bonds lowest max_hops n (attenuate b amp hops) (hops + 1) (path @ [cur])"
      unfolding p(1) Cons hot_paths_from_def hot_path_def
      by (auto intro!: exI [of _ ns'] exI [of _ a] simp: algebra_simps)
    then show ?thesis
      using \<open>find_bond bonds cur n = Some b\<close> by auto
  qed
next
  fix p
  assume "p \<in> ?h \<union> ?r"
  then show "p \<in> ?l"
  proof
    assume "p \<in> ?h"
    then show ?thesis
      unfolding hot_paths_from_def hot_path_def using assms by (auto intro!: exI [of _ "[]"] split: if_splits)
  next
    assume "p \<in> ?r"
    then obtain n b ns a where "find_bond bonds cur n = Some b" "p = hot_path (path @ [cur]) n (hops + 1) ns a"
      "hot_walk bonds lowest max_hops n (attenuate b amp hops) (hops + 1) ns = Some a"
      by (auto simp: hot_paths_from_def)
    then show ?thesis
      unfolding hot_paths_from_def hot_path_def using assms
      by (auto intro!: exI [of _ "n # ns"] exI [of _ a] simp: algebra_simps)
  qed
qed

lemma hot_paths_extend: "p \<in> hot_paths_from bonds lowest max_hops n a h path \<Longrightarrow> \<exists>ns. gp_nodes p = path @ n # ns"
  by (auto simp: hot_paths_from_def hot_path_def)

lemma bond_targets:
  assumes "bonds_ok k bonds" and "smap_find bonds cur = Some targets"
  shows "distinct (map gb_to_node (map snd targets))"
    and "b \<in> snd ` set targets \<longleftrightarrow> find_bond bonds cur (gb_to_node b) = Some b"
    and "{n. find_bond bonds cur n \<noteq> None} = gb_to_node ` snd ` set targets"
proof -
  have wf: "smap_wf targets" and ok: "\<And>y b. smap_find targets y = Some b \<Longrightarrow> gb_to_node b = y"
    using assms by (auto simp: bonds_ok_def bond_ok_def)
  have to: "gb_to_node (snd e) = fst e" if "e \<in> set targets" for e
    using ok [of "fst e" "snd e"] smap_find_entry [OF wf, of "fst e" "snd e"] that by simp
  then have "map gb_to_node (map snd targets) = map fst targets"
    by simp
  then show "distinct (map gb_to_node (map snd targets))"
    using smap_wf_distinct [OF wf] by (simp only:)
  show "b \<in> snd ` set targets \<longleftrightarrow> find_bond bonds cur (gb_to_node b) = Some b"
    using to assms(2) smap_find_entry [OF wf] by (force simp: find_bond_def)
  show "{n. find_bond bonds cur n \<noteq> None} = gb_to_node ` snd ` set targets"
    using to assms(2) smap_find_entry [OF wf] by (force simp: find_bond_def)
qed

lemma distinct_blocks:
  assumes "distinct (map key xs)" and "\<And>b. b \<in> set xs \<Longrightarrow> distinct (f b)" and "distinct here"
    and "\<And>b c p. b \<in> set xs \<Longrightarrow> c \<in> set xs \<Longrightarrow> p \<in> set (f b) \<Longrightarrow> p \<in> set (f c) \<Longrightarrow> key b = key c"
    and "\<And>b p. b \<in> set xs \<Longrightarrow> p \<in> set (f b) \<Longrightarrow> p \<notin> set here"
  shows "distinct (here @ concat (map f xs))"
proof -
  have "distinct (concat (map f xs))"
    using assms(1,2,4)
  proof (induction xs)
    case (Cons x xs)
    have "set (f x) \<inter> set (f y) = {}" if "y \<in> set xs" for y
    proof -
      have "key x \<noteq> key y"
        using Cons.prems(1) that by auto
      then show ?thesis
        using Cons.prems(3) [of x y] that by auto
    qed
    then have "set (f x) \<inter> set (concat (map f xs)) = {}"
      by auto
    with Cons show ?case
      by (simp add: disjoint_iff)
  qed simp
  then show ?thesis
    using assms(3,5) by auto
qed

lemma traverse_hot_exact:
  assumes "bonds_ok k bonds" and "\<And>xs. mset (arrange xs) = mset xs" and "max_hops \<noteq> - 1"
    and "unat max_hops + 2 \<le> fuel + unat hops" and "unat hops \<le> unat max_hops + 1"
  shows "\<exists>rs. traverse_hot fuel arrange bonds lowest max_hops cur amp hops path = Some rs \<and>
     set rs = hot_paths_from bonds lowest max_hops cur amp hops path \<and> distinct rs"
  using assms(4,5)
proof (induction fuel arbitrary: cur amp hops path)
  case (Suc fuel)
  show ?case
  proof (cases "f_less amp lowest \<or> max_hops < hops")
    case True
    then show ?thesis
      using hot_paths_cut [OF True] by simp
  next
    case False
    define here where "here = (if 2 \<le> length (path @ [cur])
      then [\<lparr>gp_nodes = path @ [cur], gp_total_amplitude = amp, gp_hop_count = hops\<rparr>] else [])"
    show ?thesis
    proof (cases "smap_find bonds cur")
      case None
      then have "{n. find_bond bonds cur n \<noteq> None} = {}"
        by (simp add: find_bond_def)
      then show ?thesis
        using False None hot_paths_step [OF False, of bonds cur path] by (simp add: Let_def)
    next
      case (Some targets)
      define out where "out = sort_desc combined_strength (arrange (map snd targets))"
      have out: "set out = snd ` set targets" "distinct (map gb_to_node out)"
      proof -
        have m: "mset out = mset (map snd targets)"
          by (simp add: out_def assms(2))
        then show "set out = snd ` set targets"
          by (metis list.set_map set_mset_mset)
        have "mset (map gb_to_node out) = mset (map gb_to_node (map snd targets))"
          using m by (simp only: mset_map)
        then show "distinct (map gb_to_node out)"
          using bond_targets(1) [OF assms(1) Some] by (metis distinct_count_atmost_1 set_mset_mset)
      qed
      have h: "hops \<le> max_hops"
        using False by (simp add: not_less)
      then have "hops \<noteq> - 1"
        using assms(3) word_order.extremum_unique [of max_hops] by auto
      then have nx: "unat (hops + 1) = Suc (unat hops)"
        by (rule unat_next)
      have "\<forall>b \<in> set out. \<exists>rs. traverse_hot fuel arrange bonds lowest max_hops (gb_to_node b) (attenuate b amp hops) (hops + 1) (path @ [cur]) = Some rs \<and>
          set rs = hot_paths_from bonds lowest max_hops (gb_to_node b) (attenuate b amp hops) (hops + 1) (path @ [cur]) \<and> distinct rs"
        using Suc.IH Suc.prems h nx by (simp add: word_le_nat_alt)
      then obtain f where f: "\<And>b. b \<in> set out \<Longrightarrow>
          traverse_hot fuel arrange bonds lowest max_hops (gb_to_node b) (attenuate b amp hops) (hops + 1) (path @ [cur]) = Some (f b)"
        "\<And>b. b \<in> set out \<Longrightarrow> set (f b) = hot_paths_from bonds lowest max_hops (gb_to_node b) (attenuate b amp hops) (hops + 1) (path @ [cur])"
        "\<And>b. b \<in> set out \<Longrightarrow> distinct (f b)"
        by metis
      have run: "traverse_hot (Suc fuel) arrange bonds lowest max_hops cur amp hops path = Some (here @ concat (map f out))"
        using False Some those_map_Some [of out _ f, OF f(1)] by (simp add: Let_def out_def here_def)
      have all: "set (here @ concat (map f out)) = hot_paths_from bonds lowest max_hops cur amp hops path"
        unfolding hot_paths_step [OF False] bond_targets(3) [OF assms(1) Some] out(1) [symmetric]
        using f(2) out(1) bond_targets(2) [OF assms(1) Some] by (auto simp: here_def)
      have nodes: "\<exists>ns. gp_nodes p = path @ cur # gb_to_node b # ns" if "b \<in> set out" "p \<in> set (f b)" for b p
        using hot_paths_extend [of p] f(2) [OF that(1)] that(2) by fastforce
      have same: "gb_to_node b = gb_to_node c" if "b \<in> set out" "c \<in> set out" "p \<in> set (f b)" "p \<in> set (f c)" for b c p
        using nodes [OF that(1,3)] nodes [OF that(2,4)] by auto
      have other: "p \<notin> set here" if "b \<in> set out" "p \<in> set (f b)" for b p
        using nodes [OF that] by (auto simp: here_def)
      have "distinct (here @ concat (map f out))"
        by (rule distinct_blocks [where key = gb_to_node]) (fact out(2) f(3) same other | simp add: here_def)+
      with run all show ?thesis
        by blast
    qed
  qed
qed simp

lemma hot_walk_unit:
  assumes "bonds_ok k bonds" and "k < 126" and "max_hops \<noteq> - 1"
  shows "hot_walk bonds lowest max_hops cur amp hops ns = Some a \<Longrightarrow> unit_float amp \<Longrightarrow> unit_float a"
proof (induction ns arbitrary: cur amp hops)
  case (Cons n ns)
  then obtain b where b: "find_bond bonds cur n = Some b" "\<not> max_hops < hops"
    "hot_walk bonds lowest max_hops n (attenuate b amp hops) (hops + 1) ns = Some a"
    by (auto split: if_splits option.splits)
  have "hops \<noteq> - 1"
    using b(2) assms(3) word_order.extremum_unique [of max_hops] by (auto simp: not_less)
  then have "unit_float (attenuate b amp hops)"
    using attenuate_unit [OF bonds_ok_find [OF assms(1) b(1)] assms(2) Cons.prems(2)] by blast
  with Cons.IH b(3) show ?case
    by blast
qed (simp split: if_splits)

text \<open>C33. On a bond table whose bonds are filed under their two nodes with the base strength one half, as the engine creates them, and
  whose learned weights are finite, not negative and at most \<open>2 ^ 125\<close> (every history of finite, non-negative caps, rewards and decays
  has such a table, \<open>glow_history_ok\<close>) and for a hop limit other than \<^verbatim>\<open>UINT32_MAX\<close>, a query for hot
  paths returns, and its answer is the beginning, of the requested length, of a list of all paths that start at the node, follow
  existing bonds for at least one and at most the allowed number of hops and never fall below the requested strength on the way;
  every such path occurs once, with the amplitude of its walk, and stronger ones come first.  This holds whatever the order of
  the hash tables is and however equal elements are sorted.  (With the excluded hop limit the hop counter wraps around and the
  recursion need not end, \<open>unlimited_hops_never_end\<close>.)\<close>

theorem hot_paths_exact:
  assumes "bonds_ok k (ge_bonds g)" and "k < 126" and "\<And>xs. mset (arrange xs) = mset xs" and "\<And>xs. mset (arrange_paths xs) = mset xs"
    and "max_hops \<noteq> - 1" and "unat max_hops + 2 \<le> fuel"
  shows "\<exists>ps. query_hot_paths fuel arrange arrange_paths start min_strength max_hops max_results g = Some (take max_results ps) \<and>
     distinct ps \<and> sorted_wrt (\<lambda>p q. \<not> f_less (gp_total_amplitude p) (gp_total_amplitude q)) ps \<and>
     set ps = {\<lparr>gp_nodes = start # ns, gp_total_amplitude = a, gp_hop_count = of_nat (length ns)\<rparr> |ns a.
       ns \<noteq> [] \<and> hot_walk (ge_bonds g) min_strength max_hops start (F_Fin 1) 0 ns = Some a}"
proof -
  note ok = assms(1)
  obtain rs where rs: "traverse_hot fuel arrange (ge_bonds g) min_strength max_hops start (F_Fin 1) 0 [] = Some rs"
    "set rs = hot_paths_from (ge_bonds g) min_strength max_hops start (F_Fin 1) 0 []" "distinct rs"
    using traverse_hot_exact [OF ok assms(3,5), of fuel 0 min_strength start "F_Fin 1" "[]"] assms(6) by auto
  define ps where "ps = sort_desc gp_total_amplitude (arrange_paths rs)"
  have m: "mset ps = mset rs"
    by (simp add: ps_def assms(4))
  have set: "set ps = set rs" and distinct: "distinct ps"
    using mset_eq_setD [OF m] mset_eq_imp_distinct_iff [OF m] rs(3) by simp_all
  have "unit_float (F_Fin 1)"
    by (simp add: unit_float_def)
  then have "a \<noteq> F_NaN" if "hot_walk (ge_bonds g) min_strength max_hops start (F_Fin 1) 0 ns = Some a" for ns a
    using hot_walk_unit [OF ok assms(2,5) that] unit_not_NaN by blast
  then have "\<forall>p \<in> set (arrange_paths rs). gp_total_amplitude p \<noteq> F_NaN"
    using mset_eq_setD [OF assms(4), of rs] rs(2) by (auto simp: hot_paths_from_def hot_path_def)
  then have "sorted_wrt (\<lambda>p q. \<not> f_less (gp_total_amplitude p) (gp_total_amplitude q)) ps"
    unfolding ps_def by (rule sorted_sort_desc)
  moreover have "set ps = {\<lparr>gp_nodes = start # ns, gp_total_amplitude = a, gp_hop_count = of_nat (length ns)\<rparr> |ns a.
       ns \<noteq> [] \<and> hot_walk (ge_bonds g) min_strength max_hops start (F_Fin 1) 0 ns = Some a}"
    unfolding set rs(2) hot_paths_from_def hot_path_def by (auto simp: Suc_le_eq)
  ultimately show ?thesis
    using distinct rs(1) by (auto simp: query_hot_paths_def ps_def)
qed

definition demo_glow :: GlowEngine where
  "demo_glow = fold glow_step [G_Record [1, 2, 3], G_Reinforce [1, 2] (F_Fin 2)] (new_glow (F_Fin (3 / 2)))"

theorem hot_paths_exact_witness:
  "\<exists>ps. query_hot_paths 14 rev rev 1 (F_Fin (1 / 2)) 12 10 demo_glow = Some (take 10 ps) \<and>
     sorted_wrt (\<lambda>p q. \<not> f_less (gp_total_amplitude p) (gp_total_amplitude q)) ps"
proof -
  have "glow_ok 1 demo_glow"
    unfolding demo_glow_def by (rule glow_history_ok) (simp_all add: nonneg_finite_def)
  then have "bonds_ok 1 (ge_bonds demo_glow)"
    by (simp add: glow_ok_def)
  from hot_paths_exact [OF this, of rev rev 12 14 1 "F_Fin (1 / 2)" 10] show ?thesis
    by auto
qed

text \<open>The excluded hop limit: on a single bond from a node to itself a search with the limit \<^verbatim>\<open>UINT32_MAX\<close> and a strength
  that nothing falls below runs out of any fuel.\<close>

lemma unlimited_hops_never_end:
  assumes "smap_find bonds x = Some [(x, b)]" and "gb_to_node b = x"
  shows "traverse_hot fuel (\<lambda>xs. xs) bonds F_NaN (- 1) x amp hops path = None"
proof (induction fuel arbitrary: amp hops path)
  case (Suc fuel)
  have "\<not> - 1 < hops" and "\<not> f_less amp F_NaN"
    by (simp add: not_less) (cases amp; simp)
  with Suc show ?case
    using assms by (simp add: Let_def sort_desc_def)
qed simp

subsection \<open>Deadlock\<close>

inductive mutex_step ::
  "(glow_lock \<Rightarrow> nat option) \<times> lock_op list list \<Rightarrow> (glow_lock \<Rightarrow> nat option) \<times> lock_op list list \<Rightarrow> bool" where
  acquire_mutex: "i < length ps \<Longrightarrow> ps ! i = Acquire l # r \<Longrightarrow> owner l = None \<Longrightarrow>
     mutex_step (owner, ps) (owner(l := Some i), ps[i := r])"
| release_mutex: "i < length ps \<Longrightarrow> ps ! i = Release l # r \<Longrightarrow> owner l = Some i \<Longrightarrow>
     mutex_step (owner, ps) (owner(l := None), ps[i := r])"

inductive_cases mutex_stepE: "mutex_step s s'"

theorem learning_and_stats_deadlock:
  "\<exists>s. mutex_step\<^sup>*\<^sup>* (\<lambda>_. None, [learning_locks, stats_locks]) s \<and> (\<forall>s'. \<not> mutex_step s s') \<and> (\<forall>p \<in> set (snd s). p \<noteq> [])"
proof -
  let ?o1 = "(\<lambda>_. None)(Bonds_Mutex := Some (0 :: nat))" and ?p1 = "[tl learning_locks, stats_locks]"
  let ?o2 = "?o1(Stats_Mutex := Some 1)" and ?p2 = "[tl learning_locks, tl stats_locks]"
  have "mutex_step (\<lambda>_. None, [learning_locks, stats_locks]) (?o1, ?p1)"
    using acquire_mutex [of 0 "[learning_locks, stats_locks]" Bonds_Mutex "tl learning_locks" "\<lambda>_. None"]
    by (simp add: learning_locks_def)
  moreover have "mutex_step (?o1, ?p1) (?o2, ?p2)"
    using acquire_mutex [of 1 ?p1 Stats_Mutex "tl stats_locks" ?o1] by (simp add: stats_locks_def)
  moreover have "\<not> mutex_step (?o2, ?p2) s'" for s'
    by (auto elim!: mutex_stepE simp: learning_locks_def stats_locks_def less_Suc_eq numeral_2_eq_2 nth_Cons' split: if_splits)
  moreover have "\<forall>p \<in> set ?p2. p \<noteq> []"
    by (simp add: learning_locks_def stats_locks_def)
  ultimately show ?thesis
    by (intro exI [of _ "(?o2, ?p2)"]) (auto intro: converse_rtranclp_into_rtranclp)
qed

subsection \<open>Names\<close>

theorem resolve_registered:
  assumes "normalize_phrase q = normalize_phrase p" and "normalize_phrase p \<noteq> []"
  shows "resolve arrange q (register_phrase p node_id phrases) =
     \<lparr>cr_found = True, cr_node_id = node_id, cr_matched_catchphrase = normalize_phrase p, cr_confidence = F_Fin 1\<rparr>"
  using assms by (simp add: resolve_def register_phrase_def Let_def)

end
