(* ===== verification/Metro.thy ===== *)
theory Metro
  imports Anbp_Protocol Float32 Std_Map Std_String
begin

text \<open>
  The monitoring station of \<^verbatim>\<open>code/src/cerberus_metro.cpp\<close>: sessions by client identity, length-prefixed requests, one trace per answered
  packet.

  The trace identifier, a clock reading, is an argument; the fading strength of a trace, a computation in double precision, and
  the time stamps are left out.  The hash table of sessions is a sorted map: identities are unique in it, so its order does not matter.
  The outcome \<open>None\<close> is an access outside a buffer.
\<close>

subsection \<open>The station\<close>

record MetroTrace =
  mt_trace_id :: u64
  mt_origin :: string
  mt_destination :: string
  mt_resonance :: rat
  mt_hop_count :: byte
  mt_persistent :: bool
  mt_waypoints :: "string list"

record MetroSession =
  ms_session_id :: u64
  ms_client_identity :: string
  ms_authenticated :: bool
  ms_permissions_mask :: u32

record MetroConfig =
  mc_station_id :: string
  mc_require_encryption :: bool
  mc_require_authentication :: bool

record MetroPipe =
  pi_read_fd :: int
  pi_write_fd :: int
  pi_is_open :: bool

record MetroStation =
  st_config :: MetroConfig
  st_inbound :: MetroPipe
  st_outbound :: MetroPipe
  st_sessions :: "(u64, MetroSession) smap"
  st_next_session_id :: u64
  st_traces :: "MetroTrace list"
  st_packets_in :: u64
  st_packets_out :: u64
  st_bytes_in :: u64
  st_bytes_out :: u64

definition closed_pipe :: MetroPipe where
  "closed_pipe = \<lparr>pi_read_fd = - 1, pi_write_fd = - 1, pi_is_open = False\<rparr>"

definition new_station :: "MetroConfig \<Rightarrow> MetroStation" where
  "new_station cfg = \<lparr>st_config = cfg, st_inbound = closed_pipe, st_outbound = closed_pipe, st_sessions = [], st_next_session_id = 1,
     st_traces = [], st_packets_in = 0, st_packets_out = 0, st_bytes_in = 0, st_bytes_out = 0\<rparr>"

definition global_config :: MetroConfig where
  "global_config = \<lparr>mc_station_id = ''cerberus_gate_01'', mc_require_encryption = False, mc_require_authentication = False\<rparr>"

definition metro_open :: "MetroStation \<Rightarrow> bool \<times> MetroStation" where
  "metro_open s =
     (if pi_is_open (st_inbound s) then (False, s)
      else (True, s\<lparr>st_inbound := \<lparr>pi_read_fd = 1, pi_write_fd = 2, pi_is_open = True\<rparr>,
                    st_outbound := \<lparr>pi_read_fd = 3, pi_write_fd = 4, pi_is_open = True\<rparr>\<rparr>))"

definition metro_close :: "MetroStation \<Rightarrow> MetroStation" where
  "metro_close s = s\<lparr>st_inbound := closed_pipe, st_outbound := closed_pipe, st_sessions := [], st_traces := []\<rparr>"

definition isOpen :: "MetroStation \<Rightarrow> bool" where
  "isOpen s \<longleftrightarrow> pi_is_open (st_inbound s) \<and> pi_is_open (st_outbound s)"

definition metro_createSession :: "string \<Rightarrow> MetroStation \<Rightarrow> u64 \<times> MetroStation" where
  "metro_createSession client_identity s =
     (case find_first (\<lambda>e. ms_client_identity (snd e) = client_identity) (st_sessions s) of
        Some i \<Rightarrow> (fst (st_sessions s ! i), s)
      | None \<Rightarrow>
          (let sid = st_next_session_id s
           in (sid, s\<lparr>st_next_session_id := sid + 1,
                     st_sessions := smap_put sid \<lparr>ms_session_id = sid, ms_client_identity = client_identity,
                       ms_authenticated = False, ms_permissions_mask = 0\<rparr> (st_sessions s)\<rparr>)))"

definition authenticateSession :: "u64 \<Rightarrow> u32 \<Rightarrow> MetroStation \<Rightarrow> bool \<times> MetroStation" where
  "authenticateSession sid permissions s = (case smap_find (st_sessions s) sid of
      None \<Rightarrow> (False, s)
    | Some sess \<Rightarrow>
        (True, s\<lparr>st_sessions := smap_put sid (sess\<lparr>ms_authenticated := True, ms_permissions_mask := permissions\<rparr>) (st_sessions s)\<rparr>))"

definition terminateSession :: "u64 \<Rightarrow> MetroStation \<Rightarrow> MetroStation" where
  "terminateSession sid s = s\<lparr>st_sessions := smap_erase sid (st_sessions s)\<rparr>"

definition activeSessions :: "MetroStation \<Rightarrow> nat" where
  "activeSessions s = length (st_sessions s)"

definition storeTrace :: "MetroTrace \<Rightarrow> MetroStation \<Rightarrow> MetroStation" where
  "storeTrace t s = s\<lparr>st_traces := st_traces s @ [t]\<rparr>"

subsection \<open>Packets\<close>

text \<open>The length is added to 4 at 32 bits, where it wraps around, and is used unwrapped afterwards.\<close>

definition unframe :: "byte list \<Rightarrow> byte list option" where
  "unframe request =
     (if 4 < length request then
        let len = (word_at 0 4 request :: u32)
        in if 0 < len \<and> unat (len + 4) \<le> length request then
             (if 4 + unat len \<le> length request then Some (take (unat len) (drop 4 request)) else None)
           else Some request
      else Some request)"

definition metro_frame :: "byte list \<Rightarrow> byte list option" where
  "metro_frame plain =
     (let len = (of_nat (length plain) :: u32)
      in if 4 + unat len \<le> unat (4 + len) then Some (word_bytes 4 len @ take (unat len) plain) else None)"

definition auth_required :: "byte list" where
  "auth_required = bytes_of_string ''AUTHENTICATION_REQUIRED''"

definition new_trace :: "u64 \<Rightarrow> string \<Rightarrow> u64 \<Rightarrow> MetroTrace" where
  "new_trace now station_id session_id =
     (let origin = station_id @ ''/session_'' @ nat_to_string (unat session_id)
      in \<lparr>mt_trace_id = now, mt_origin = origin, mt_destination = ''cerberus_runtime'', mt_resonance = 1 / 2, mt_hop_count = 0,
          mt_persistent = True, mt_waypoints = [origin]\<rparr>)"

definition authenticated :: "MetroStation \<Rightarrow> u64 \<Rightarrow> bool" where
  "authenticated s sid \<longleftrightarrow> (case smap_find (st_sessions s) sid of None \<Rightarrow> False | Some sess \<Rightarrow> ms_authenticated sess)"

definition respond :: "MetroConfig \<Rightarrow> byte list \<Rightarrow> byte list option" where
  "respond cfg plaintext =
     (let plain = (if plaintext = [] then bytes_of_string ''OK'' else plaintext)
      in if mc_require_encryption cfg then metro_frame plain else Some plain)"

definition processIncoming :: "u64 \<Rightarrow> byte list \<Rightarrow> string \<Rightarrow> MetroStation \<Rightarrow> (byte list \<times> MetroStation) option" where
  "processIncoming now request client_identity s =
     (case metro_createSession client_identity (s\<lparr>st_bytes_in := st_bytes_in s + of_nat (length request)\<rparr>) of (session_id, s1) \<Rightarrow>
        (case (if mc_require_encryption (st_config s) then unframe request else Some request) of
           None \<Rightarrow> None
         | Some plaintext \<Rightarrow>
             if mc_require_authentication (st_config s) \<and> \<not> authenticated s1 session_id then Some (auth_required, s1)
             else let s2 = storeTrace (new_trace now (mc_station_id (st_config s)) session_id) s1
                  in case respond (st_config s) plaintext of
                       None \<Rightarrow> None
                     | Some answer \<Rightarrow>
                         Some (answer, s2\<lparr>st_packets_in := st_packets_in s2 + 1, st_packets_out := st_packets_out s2 + 1,
                                          st_bytes_out := st_bytes_out s2 + of_nat (length answer)\<rparr>)))"

subsection \<open>What a packet does\<close>

text \<open>Identities are unique and identifiers below the next one.\<close>

definition station_ok :: "MetroStation \<Rightarrow> bool" where
  "station_ok s \<longleftrightarrow> smap_wf (st_sessions s) \<and> (\<forall>sid \<in> fst ` set (st_sessions s). sid < st_next_session_id s) \<and>
     distinct (map (ms_client_identity \<circ> snd) (st_sessions s))"

definition session_of :: "string \<Rightarrow> MetroStation \<Rightarrow> (u64 \<times> MetroSession) option" where
  "session_of c s = map_option (\<lambda>i. st_sessions s ! i) (find_first (\<lambda>e. ms_client_identity (snd e) = c) (st_sessions s))"

lemma session_of_bytes [simp]: "session_of c (s\<lparr>st_bytes_in := b\<rparr>) = session_of c s"
  by (simp add: session_of_def)

lemma session_of_SomeD: "session_of c s = Some (sid, sess) \<Longrightarrow> (sid, sess) \<in> set (st_sessions s) \<and> ms_client_identity sess = c"
  using find_first_SomeD [of "\<lambda>e. ms_client_identity (snd e) = c" "st_sessions s"]
  by (auto simp: session_of_def) (metis nth_mem)

lemma metro_createSession_cases:
  "metro_createSession c s = (case session_of c s of
      Some (sid, sess) \<Rightarrow> (sid, s)
    | None \<Rightarrow> (st_next_session_id s, s\<lparr>st_next_session_id := st_next_session_id s + 1,
        st_sessions := smap_put (st_next_session_id s) \<lparr>ms_session_id = st_next_session_id s, ms_client_identity = c,
          ms_authenticated = False, ms_permissions_mask = 0\<rparr> (st_sessions s)\<rparr>))"
  by (auto simp: metro_createSession_def session_of_def Let_def case_prod_beta split: option.splits)

lemma session_of_None: "session_of c s = None \<Longrightarrow> c \<notin> set (map (ms_client_identity \<circ> snd) (st_sessions s))"
  by (auto simp: session_of_def find_first_None)

lemma map_smap_put_same:
  "smap_find m x = Some v \<Longrightarrow> smap_wf m \<Longrightarrow> h w = h v \<Longrightarrow> map (h \<circ> snd) (smap_put x w m) = map (h \<circ> snd) m"
  by (induction m) (auto simp: smap_find_Cons smap_wf_Cons dest!: smap_find_in_set split: if_splits)

text \<open>Every operation keeps identities unique, as long as the counter of identifiers does not wrap around.\<close>

theorem station_invariant:
  "station_ok (new_station cfg)"
  "station_ok s \<Longrightarrow> st_next_session_id s + 1 \<noteq> 0 \<Longrightarrow> station_ok (snd (metro_createSession c s))"
  "station_ok s \<Longrightarrow> station_ok (snd (authenticateSession i p s))"
  "station_ok s \<Longrightarrow> station_ok (terminateSession i s)"
  "station_ok (metro_close s)"
proof -
  show "station_ok (new_station cfg)" "station_ok (metro_close s)"
    by (simp_all add: station_ok_def new_station_def metro_close_def)
  show "station_ok (terminateSession i s)" if "station_ok s"
    using that by (auto simp: station_ok_def terminateSession_def smap_erase_def smap_wf_def sorted_wrt_map sorted_wrt_filter
        intro: distinct_map_filter)
  show "station_ok (snd (authenticateSession i p s))" if ok: "station_ok s"
  proof (cases "smap_find (st_sessions s) i")
    case (Some sess)
    have "i \<in> fst ` set (st_sessions s)"
      using smap_find_in_set [OF Some] by force
    moreover have "smap_wf (st_sessions s)"
      using ok by (simp add: station_ok_def)
    ultimately show ?thesis
      using ok Some map_smap_put_same [OF Some, of ms_client_identity "sess\<lparr>ms_authenticated := True, ms_permissions_mask := p\<rparr>"]
      by (auto simp: station_ok_def authenticateSession_def fst_set_smap_put)
  qed (use ok in \<open>simp add: authenticateSession_def\<close>)
  show "station_ok (snd (metro_createSession c s))" if ok: "station_ok s" and w: "st_next_session_id s + 1 \<noteq> 0"
  proof (cases "session_of c s")
    case None
    have up: "st_next_session_id s < st_next_session_id s + 1"
      using w unatSuc [of "st_next_session_id s"] by (simp add: word_less_nat_alt add.commute)
    have "\<forall>x \<in> set (st_sessions s). fst x < st_next_session_id s"
      using ok by (auto simp: station_ok_def)
    from smap_put_append [OF this] show ?thesis
      using ok None session_of_None [OF None] up by (auto simp: station_ok_def metro_createSession_cases smap_wf_def sorted_wrt_append intro: less_trans)
  qed (use ok in \<open>auto simp: metro_createSession_cases\<close>)
qed

lemma authenticated_session:
  assumes "station_ok s" and "metro_createSession c s = (sid, s1)"
  shows "authenticated s1 sid \<longleftrightarrow> (\<exists>sess. session_of c s = Some (sid, sess) \<and> ms_authenticated sess)"
proof (cases "session_of c s")
  case None
  with assms(2) show ?thesis
    by (auto simp: metro_createSession_cases authenticated_def)
next
  case (Some e)
  then obtain i sess where e: "session_of c s = Some (i, sess)"
    by (cases e) auto
  then have "smap_find (st_sessions s) i = Some sess"
    using session_of_SomeD [OF e] assms(1) by (simp add: station_ok_def smap_find_entry)
  with e assms(2) show ?thesis
    by (auto simp: metro_createSession_cases authenticated_def)
qed

text \<open>A station that requires authentication answers a client without an authenticated session with the refusal only, stores no trace and
  counts no packet.\<close>

theorem unauthenticated_refused:
  assumes "station_ok s" and "mc_require_authentication (st_config s)" and "\<And>sid sess. session_of c s = Some (sid, sess) \<Longrightarrow> \<not> ms_authenticated sess"
    and "processIncoming now request c s = Some (answer, s')"
  shows "answer = auth_required \<and> st_traces s' = st_traces s \<and> st_packets_in s' = st_packets_in s \<and>
     st_packets_out s' = st_packets_out s"
proof -
  let ?s = "s\<lparr>st_bytes_in := st_bytes_in s + of_nat (length request)\<rparr>"
  obtain sid s1 where c: "metro_createSession c ?s = (sid, s1)"
    by fastforce
  have "station_ok ?s"
    using assms(1) by (simp add: station_ok_def)
  then have "\<not> authenticated s1 sid"
    using authenticated_session [OF _ c] assms(3) by auto
  moreover have "st_traces s1 = st_traces s \<and> st_packets_in s1 = st_packets_in s \<and> st_packets_out s1 = st_packets_out s"
    using c by (auto simp: metro_createSession_cases split: option.splits)
  ultimately show ?thesis
    using assms(2,4) c by (auto simp: processIncoming_def split: option.splits if_splits)
qed

text \<open>Reading the frame leaves the request exactly when the length field is one of the four largest numbers: adding 4 wraps around and the
  comparison lets it pass.\<close>

theorem unframe_out_of_bounds:
  assumes "length request < 2 ^ 32 - 4"
  shows "unframe request = None \<longleftrightarrow> 4 < length request \<and> 2 ^ 32 - 4 \<le> unat (word_at 0 4 request :: u32)"
proof (cases "4 < length request")
  case True
  define len where "len = (word_at 0 4 request :: u32)"
  have lt: "unat len < 2 ^ 32"
    using unsigned_less [of len, where 'a = nat] by simp
  have sum: "unat (len + 4) = (unat len + 4) mod 2 ^ 32"
    by (simp add: unat_word_ariths)
  have "0 < len \<longleftrightarrow> 0 < unat len"
    by (simp add: word_gt_0 unat_gt_0)
  then have "unframe request = None \<longleftrightarrow>
      0 < unat len \<and> (unat len + 4) mod 2 ^ 32 \<le> length request \<and> length request < 4 + unat len"
    using True sum by (auto simp: unframe_def len_def [symmetric] Let_def)
  also have "\<dots> \<longleftrightarrow> 2 ^ 32 - 4 \<le> unat len"
  proof (cases "2 ^ 32 - 4 \<le> unat len")
    case wrap: True
    then have "(unat len + 4) mod 2 ^ 32 = unat len + 4 - 2 ^ 32"
      using lt by (simp add: mod_if)
    with wrap lt True assms show ?thesis
      by simp
  next
    case False
    then have "(unat len + 4) mod 2 ^ 32 = unat len + 4"
      by simp
    with False show ?thesis
      by simp
  qed
  finally show ?thesis
    using True by (simp add: len_def)
qed (simp add: unframe_def)

text \<open>A framed command comes back as the frame it was sent in.\<close>

theorem framed_packet_echoed:
  assumes "mc_require_encryption (st_config s)" and "\<not> mc_require_authentication (st_config s)"
    and "payload \<noteq> []" and "length payload < 2 ^ 32 - 4" and "metro_frame payload = Some request"
  shows "\<exists>s'. processIncoming now request c s = Some (request, s') \<and> length (st_traces s') = Suc (length (st_traces s))"
proof -
  define len where "len = (of_nat (length payload) :: u32)"
  have len: "unat len = length payload"
    using assms(4) by (simp add: len_def unat_of_nat)
  have req: "request = word_bytes 4 len @ payload"
    using assms(5) len by (simp add: metro_frame_def len_def [symmetric] Let_def split: if_splits)
  have at: "(word_at 0 4 request :: u32) = len"
    using word_at_bytes [of "[]" 0 4 len payload] by (simp add: req)
  have "unat (len + 4) = length payload + 4"
    using assms(4) len by (simp add: unat_word_ariths)
  moreover have "0 < len"
    using assms(3) len by (simp add: word_gt_0 unat_gt_0 [symmetric])
  ultimately have "unframe request = Some payload"
    using at len assms(3) by (simp add: unframe_def Let_def req)
  moreover obtain sid s1 where c: "metro_createSession c (s\<lparr>st_bytes_in := st_bytes_in s + of_nat (length request)\<rparr>) = (sid, s1)"
    by fastforce
  moreover have "st_traces s1 = st_traces s"
    using c by (auto simp: metro_createSession_cases split: option.splits)
  ultimately show ?thesis
    using assms by (simp add: processIncoming_def respond_def storeTrace_def Let_def)
qed

end
