(* ===== verification/Npu_Pipeline.thy ===== *)
theory Npu_Pipeline
  imports Inference_Routes "HOL-Library.Multiset"
begin

text \<open>
  The slots between text encoder and GPU of \<^verbatim>\<open>code/src/npu_pipeline.cpp\<close> and its header, and the asynchronous generation of
  \<^verbatim>\<open>code/src/async_pipeline.cpp\<close> on top of them.

  The encoder, the outcome of every HIP call, the slot states seen while polling and the inner pipeline are arguments; so are the
  contents of fresh memory.  A call waits for ever when it needs a slot and none is free (\<open>Waits\<close>), and dereferences null or
  divides by zero in \<open>Crashes\<close>.  The double-precision averages and the fields nothing here reads are left out.

  An awaiter whose slot is ready answers without suspending.  Otherwise its own thread resumes the coroutine, which then destroys the
  awaiter, and with it that thread, from inside the thread: the join of a thread with itself ends the process, so a suspended
  \<open>await_npu\<close> is a crash.
\<close>

subsection \<open>Slots\<close>

datatype 'a outcome = Waits | Crashes | Returns 'a

datatype SlotState = Slot_IDLE | Slot_ENCODING | Slot_STAGING | Slot_READY | Slot_FAILED

record NpuDmaSlot =
  sl_state :: SlotState
  sl_host_buffer :: "float32 list"
  sl_device :: "float32 list option"
  sl_dma_stream :: bool

record NpuEncodeRequest =
  rq_prompt :: string
  rq_guidance_scale :: float32
  rq_seed :: int
  rq_width :: u32
  rq_height :: u32
  rq_num_steps :: u32

record NpuEncodeResult =
  er_embeddings :: "float32 list"
  er_npu_utilization :: float32
  er_npu_temperature :: float32

type_synonym npu_encoder = "NpuEncodeRequest \<Rightarrow> (string, NpuEncodeResult) expected"

record NpuTensorHandle =
  th_device_ptr :: bool
  th_element_count :: nat
  th_npu_util :: float32
  th_valid :: bool

definition handle_ok :: "NpuTensorHandle \<Rightarrow> bool" where
  "handle_ok h \<longleftrightarrow> th_valid h \<and> th_device_ptr h"

record NpuDmaConfig =
  dc_num_slots :: nat
  dc_embedding_bytes :: nat
  dc_enable_gpu_staging :: bool

record NpuDmaPipeline =
  np_cfg :: NpuDmaConfig
  np_slots :: "NpuDmaSlot list"
  np_encoder :: "npu_encoder option"
  np_last_util :: float32
  np_last_temp :: float32
  np_samples :: u64
  np_encodes_submitted :: u64
  np_encodes_completed :: u64
  np_dma_transfers :: u64
  np_dma_bytes :: u64
  np_free_slots :: "nat list"

text \<open>What the allocators and the stream creation give for the \<open>i\<close>-th slot.\<close>

record slot_memory =
  sm_host :: "nat \<Rightarrow> float32 list"
  sm_device :: "nat \<Rightarrow> float32 list option"
  sm_stream :: "nat \<Rightarrow> bool"

definition new_slot :: "bool \<Rightarrow> slot_memory \<Rightarrow> nat \<Rightarrow> NpuDmaSlot" where
  "new_slot gpu mem i = \<lparr>sl_state = Slot_IDLE, sl_host_buffer = sm_host mem i,
     sl_device = (if gpu then sm_device mem i else None), sl_dma_stream = (gpu \<and> sm_stream mem i)\<rparr>"

definition new_dma :: "bool \<Rightarrow> slot_memory \<Rightarrow> NpuDmaConfig \<Rightarrow> npu_encoder option \<Rightarrow> NpuDmaPipeline" where
  "new_dma has_hip mem cfg enc =
     (let ns = (if 0 < dc_num_slots cfg then dc_num_slots cfg else 3)
      in \<lparr>np_cfg = cfg, np_slots = map (new_slot (has_hip \<and> dc_enable_gpu_staging cfg) mem) [0..<ns], np_encoder = enc,
          np_last_util = F_Fin (- 1), np_last_temp = F_Fin 0, np_samples = 0, np_encodes_submitted = 0, np_encodes_completed = 0,
          np_dma_transfers = 0, np_dma_bytes = 0, np_free_slots = [0..<ns]\<rparr>)"

definition set_encoder :: "npu_encoder option \<Rightarrow> NpuDmaPipeline \<Rightarrow> NpuDmaPipeline" where
  "set_encoder enc p = p\<lparr>np_encoder := enc\<rparr>"

definition acquire_slot :: "NpuDmaPipeline \<Rightarrow> (nat \<times> NpuDmaPipeline) option" where
  "acquire_slot p = (case np_free_slots p of [] \<Rightarrow> None | i # is \<Rightarrow> Some (i, p\<lparr>np_free_slots := is\<rparr>))"

definition upd_slot :: "nat \<Rightarrow> (NpuDmaSlot \<Rightarrow> NpuDmaSlot) \<Rightarrow> NpuDmaPipeline \<Rightarrow> NpuDmaPipeline" where
  "upd_slot i f p = p\<lparr>np_slots := (np_slots p)[i := f (np_slots p ! i)]\<rparr>"

definition return_slot :: "nat \<Rightarrow> NpuDmaPipeline \<Rightarrow> NpuDmaPipeline" where
  "return_slot i p =
     (if length (np_slots p) \<le> i then p
      else (upd_slot i (\<lambda>s. s\<lparr>sl_state := Slot_IDLE\<rparr>) p)\<lparr>np_free_slots := np_free_slots p @ [i]\<rparr>)"

definition release_slot :: "nat \<Rightarrow> NpuDmaPipeline \<Rightarrow> NpuDmaPipeline" where
  "release_slot = return_slot"

text \<open>Whether the library is there, the copy is accepted and the event recorded.\<close>

record hip_calls =
  hc_present :: bool
  hc_copy_ok :: bool
  hc_event_ok :: bool

definition dma_copy :: "NpuDmaSlot \<Rightarrow> NpuDmaSlot" where
  "dma_copy s = s\<lparr>sl_device := map_option (\<lambda>d. sl_host_buffer s @ drop (length (sl_host_buffer s)) d) (sl_device s)\<rparr>"

definition stage_to_gpu :: "hip_calls \<Rightarrow> nat \<Rightarrow> NpuDmaPipeline \<Rightarrow> NpuDmaPipeline" where
  "stage_to_gpu hip i p =
     (let s = np_slots p ! i
      in if \<not> hc_present hip \<or> sl_device s = None \<or> \<not> sl_dma_stream s \<or> sl_host_buffer s = [] then p
         else let p1 = upd_slot i (\<lambda>s. s\<lparr>sl_state := Slot_STAGING\<rparr>) p
              in if \<not> hc_copy_ok hip then upd_slot i (\<lambda>s. s\<lparr>sl_state := Slot_FAILED\<rparr>) p1
                 else let p2 = upd_slot i dma_copy p1
                      in if \<not> hc_event_ok hip then upd_slot i (\<lambda>s. s\<lparr>sl_state := Slot_FAILED\<rparr>) p2
                         else p2\<lparr>np_dma_transfers := np_dma_transfers p2 + 1,
                                  np_dma_bytes := np_dma_bytes p2 + of_nat (4 * length (sl_host_buffer s))\<rparr>)"

definition run_encode :: "nat \<Rightarrow> NpuEncodeRequest \<Rightarrow> NpuDmaPipeline \<Rightarrow> NpuDmaPipeline option" where
  "run_encode i req p =
     (let p1 = upd_slot i (\<lambda>s. s\<lparr>sl_state := Slot_ENCODING\<rparr>) p
      in case np_encoder p of
           None \<Rightarrow> None
         | Some enc \<Rightarrow>
             (case enc req of
                Inl e \<Rightarrow> Some (upd_slot i (\<lambda>s. s\<lparr>sl_state := Slot_FAILED\<rparr>) p1)
              | Inr r \<Rightarrow>
                  let p2 = p1\<lparr>np_last_util := er_npu_utilization r, np_last_temp := er_npu_temperature r,
                              np_samples := np_samples p1 + 1, np_encodes_completed := np_encodes_completed p1 + 1\<rparr>
                  in Some (upd_slot i (\<lambda>s.
                       let n = min (length (sl_host_buffer s)) (length (er_embeddings r))
                       in s\<lparr>sl_host_buffer := take n (er_embeddings r) @ drop n (sl_host_buffer s)\<rparr>) p2)))"

text \<open>The body that \<^verbatim>\<open>submit\<close> runs in the caller and \<^verbatim>\<open>submit_async\<close> in a thread of its own.\<close>

definition encode_and_stage :: "hip_calls \<Rightarrow> nat \<Rightarrow> NpuEncodeRequest \<Rightarrow> NpuDmaPipeline \<Rightarrow> NpuDmaPipeline option" where
  "encode_and_stage hip i req p = (case run_encode i req p of
      None \<Rightarrow> None
    | Some p1 \<Rightarrow>
        Some (if dc_enable_gpu_staging (np_cfg p1)
              then upd_slot i (\<lambda>s. s\<lparr>sl_state := Slot_READY\<rparr>) (stage_to_gpu hip i p1) else p1))"

definition submit_async :: "NpuDmaPipeline \<Rightarrow> (nat \<times> NpuDmaPipeline) outcome" where
  "submit_async p = (case acquire_slot p of
      None \<Rightarrow> Waits
    | Some (i, p1) \<Rightarrow> Returns (i, p1\<lparr>np_encodes_submitted := np_encodes_submitted p1 + 1\<rparr>))"

definition submit :: "hip_calls \<Rightarrow> NpuEncodeRequest \<Rightarrow> NpuDmaPipeline \<Rightarrow> (nat \<times> NpuDmaPipeline) outcome" where
  "submit hip req p = (case submit_async p of
      Waits \<Rightarrow> Waits
    | Crashes \<Rightarrow> Crashes
    | Returns (i, p1) \<Rightarrow> (case encode_and_stage hip i req p1 of None \<Rightarrow> Crashes | Some p2 \<Rightarrow> Returns (i, p2)))"

definition slot_state :: "nat \<Rightarrow> NpuDmaPipeline \<Rightarrow> SlotState" where
  "slot_state i p = (if length (np_slots p) \<le> i then Slot_FAILED else sl_state (np_slots p ! i))"

definition tensor_handle :: "bool \<Rightarrow> nat \<Rightarrow> NpuDmaPipeline \<Rightarrow> NpuTensorHandle" where
  "tensor_handle valid i p =
     \<lparr>th_device_ptr = (sl_device (np_slots p ! i) \<noteq> None), th_element_count = length (sl_host_buffer (np_slots p ! i)),
      th_npu_util = np_last_util p, th_valid = valid\<rparr>"

fun poll_slot :: "SlotState list \<Rightarrow> nat \<Rightarrow> NpuDmaPipeline \<Rightarrow> (string, NpuTensorHandle) expected" where
  "poll_slot [] i p = Inl (''Timeout waiting for slot '' @ nat_to_string i)"
| "poll_slot (st # sts) i p =
     (if st = Slot_READY then Inr (tensor_handle True i p)
      else if st = Slot_FAILED then Inl (''Slot '' @ nat_to_string i @ '' in ERROR state'')
      else poll_slot sts i p)"

definition wait_gpu_ready :: "SlotState list \<Rightarrow> nat \<Rightarrow> NpuDmaPipeline \<Rightarrow> (string, NpuTensorHandle) expected" where
  "wait_gpu_ready polls i p =
     (if length (np_slots p) \<le> i then Inl (''Slot '' @ nat_to_string i @ '' out of range'') else poll_slot polls i p)"

definition try_get_gpu_handle :: "nat \<Rightarrow> NpuDmaPipeline \<Rightarrow> NpuTensorHandle option" where
  "try_get_gpu_handle i p =
     (if length (np_slots p) \<le> i \<or> sl_state (np_slots p ! i) \<noteq> Slot_READY then None
      else Some (tensor_handle (sl_device (np_slots p ! i) \<noteq> None) i p))"

definition active_slots :: "NpuDmaPipeline \<Rightarrow> u64" where
  "active_slots p = of_nat (dc_num_slots (np_cfg p)) - of_nat (length (np_free_slots p))"

subsection \<open>Asynchronous generation\<close>

record GeneratedImage =
  gi_pixels :: "byte list"
  gi_width :: u32
  gi_height :: u32
  gi_generation_time_ms :: float32

definition no_image :: GeneratedImage where
  "no_image = \<lparr>gi_pixels = [], gi_width = 0, gi_height = 0, gi_generation_time_ms = F_Fin 0\<rparr>"

record async_env =
  ae_hip :: "nat \<Rightarrow> hip_calls"
  ae_generate :: "GenerationRequest \<Rightarrow> GeneratedImage option"
  ae_total_ms :: float32

definition await_npu :: "nat \<Rightarrow> NpuDmaPipeline \<Rightarrow> NpuTensorHandle outcome" where
  "await_npu i p = (case try_get_gpu_handle i p of Some h \<Rightarrow> Returns h | None \<Rightarrow> Crashes)"

definition encode_request :: "GenerationRequest \<Rightarrow> NpuEncodeRequest" where
  "encode_request req = \<lparr>rq_prompt = gn_prompt req, rq_guidance_scale = gn_guidance_scale req, rq_seed = gn_seed req,
     rq_width = gn_width req, rq_height = gn_height req, rq_num_steps = gn_num_steps req\<rparr>"

definition uncond_request :: "GenerationRequest \<Rightarrow> NpuEncodeRequest" where
  "uncond_request req = (encode_request req)\<lparr>rq_prompt := [], rq_guidance_scale := F_Fin 1\<rparr>"

definition bad_size :: "GenerationRequest \<Rightarrow> bool" where
  "bad_size req \<longleftrightarrow> gn_width req = 0 \<or> gn_height req = 0 \<or> 2048 < gn_width req \<or> 2048 < gn_height req"

definition bad_steps :: "GenerationRequest \<Rightarrow> bool" where
  "bad_steps req \<longleftrightarrow> gn_num_steps req = 0 \<or> 150 < gn_num_steps req"

definition finish_generation :: "async_env \<Rightarrow> GenerationRequest \<Rightarrow> GeneratedImage" where
  "finish_generation env req = (case ae_generate env req of
      None \<Rightarrow> no_image
    | Some img \<Rightarrow> img\<lparr>gi_generation_time_ms := ae_total_ms env\<rparr>)"

text \<open>The second encoding, for guidance: the pipeline after it and the slot to release, if any.\<close>

definition encode_uncond :: "async_env \<Rightarrow> GenerationRequest \<Rightarrow> NpuDmaPipeline \<Rightarrow> (nat option \<times> NpuDmaPipeline) outcome" where
  "encode_uncond env req p =
     (if f_less (F_Fin 1) (gn_guidance_scale req) then
        (case submit (ae_hip env 1) (uncond_request req) p of
           Waits \<Rightarrow> Waits
         | Crashes \<Rightarrow> Crashes
         | Returns (u, p1) \<Rightarrow>
             (case await_npu u p1 of
                Returns h \<Rightarrow> Returns (if handle_ok h then Some u else None, p1)
              | _ \<Rightarrow> Crashes))
      else Returns (None, p))"

definition generate_async :: "async_env \<Rightarrow> GenerationRequest \<Rightarrow> NpuDmaPipeline \<Rightarrow> (GeneratedImage \<times> NpuDmaPipeline) outcome" where
  "generate_async env req p =
     (if bad_size req \<or> gn_width req mod 8 \<noteq> 0 \<or> gn_height req mod 8 \<noteq> 0 \<or> bad_steps req then Returns (no_image, p)
      else case submit (ae_hip env 0) (encode_request req) p of
             Waits \<Rightarrow> Waits
           | Crashes \<Rightarrow> Crashes
           | Returns (slot, p1) \<Rightarrow>
               (case await_npu slot p1 of
                  Returns h \<Rightarrow>
                    if \<not> handle_ok h then Returns (no_image, release_slot slot p1)
                    else (case encode_uncond env req p1 of
                            Waits \<Rightarrow> Waits
                          | Crashes \<Rightarrow> Crashes
                          | Returns (uncond, p2) \<Rightarrow>
                              let p3 = release_slot slot p2;
                                  p4 = (case uncond of None \<Rightarrow> p3 | Some u \<Rightarrow> release_slot u p3)
                              in Returns (finish_generation env req, p4))
                | _ \<Rightarrow> Crashes))"

subsection \<open>Streaming\<close>

definition step_latents :: "nat \<Rightarrow> byte list \<Rightarrow> float32 list option" where
  "step_latents latent_size pixels =
     (if latent_size = 0 then None
      else let stride = max 1 (length pixels div latent_size)
           in those (map (\<lambda>i. let src = (if pixels = [] then i * stride else min (i * stride) (length pixels - 1))
                              in if src < length pixels then Some (f_div (f_round (of_nat (unat (pixels ! src)))) (F_Fin 255)) else None)
                [0..<latent_size]))"

record StepResult =
  sr_step_index :: nat
  sr_latents :: "float32 list"

text \<open>The results of the steps from the given one on; a failed step repeats the previous preview.\<close>

fun stream_steps :: "(nat \<Rightarrow> GeneratedImage option) \<Rightarrow> nat \<Rightarrow> float32 list \<Rightarrow> nat list \<Rightarrow> StepResult list option" where
  "stream_steps gen latent_size latents [] = Some []"
| "stream_steps gen latent_size latents (k # ks) =
     (case (case gen k of None \<Rightarrow> Some latents | Some img \<Rightarrow> step_latents latent_size (gi_pixels img)) of
        None \<Rightarrow> None
      | Some l \<Rightarrow> map_option ((#) \<lparr>sr_step_index = k, sr_latents = l\<rparr>) (stream_steps gen latent_size l ks))"

definition latent_size_of :: "GenerationRequest \<Rightarrow> nat" where
  "latent_size_of req = 4 * (unat (gn_height req) div 8) * (unat (gn_width req) div 8)"

definition generate_streaming ::
  "async_env \<Rightarrow> (nat \<Rightarrow> GeneratedImage option) \<Rightarrow> GenerationRequest \<Rightarrow> NpuDmaPipeline \<Rightarrow> (StepResult list \<times> NpuDmaPipeline) outcome" where
  "generate_streaming env gen req p =
     (if bad_size req \<or> bad_steps req then Returns ([], p)
      else case submit (ae_hip env 0) (encode_request req) p of
             Waits \<Rightarrow> Waits
           | Crashes \<Rightarrow> Crashes
           | Returns (slot, p1) \<Rightarrow>
               (case await_npu slot p1 of
                  Returns h \<Rightarrow>
                    let p2 = release_slot slot p1
                    in if \<not> handle_ok h then Returns ([], p2)
                       else (case stream_steps gen (latent_size_of req) (replicate (latent_size_of req) (F_Fin 0))
                                   [0..<unat (gn_num_steps req)] of
                               None \<Rightarrow> Crashes
                             | Some rs \<Rightarrow> Returns (rs, p2))
                | _ \<Rightarrow> Crashes))"

end
