(* ===== verification/Npu_Props.thy ===== *)
theory Npu_Props
  imports Npu_Pipeline
begin

text \<open>
  What the slots of the NPU pipeline and the asynchronous generation guarantee: which slot a submission takes and what it leaves in
  it, how many slots a generation gives back, when it can wait for ever, and what a stream of steps delivers.
\<close>

subsection \<open>Specification vocabulary\<close>

definition has_device :: "NpuDmaPipeline \<Rightarrow> nat \<Rightarrow> bool" where
  "has_device p j \<longleftrightarrow> sl_device (np_slots p ! j) \<noteq> None"

definition slots_wf :: "NpuDmaPipeline \<Rightarrow> bool" where
  "slots_wf p \<longleftrightarrow> (\<forall>i\<in>set (np_free_slots p). i < length (np_slots p)) \<and> distinct (np_free_slots p)"

definition acceptable :: "GenerationRequest \<Rightarrow> bool" where
  "acceptable req \<longleftrightarrow> \<not> bad_size req \<and> gn_width req mod 8 = 0 \<and> gn_height req mod 8 = 0 \<and> \<not> bad_steps req"

definition guided :: "GenerationRequest \<Rightarrow> bool" where
  "guided req \<longleftrightarrow> f_less (F_Fin 1) (gn_guidance_scale req)"

text \<open>The second slot of a guided generation that has no device memory of its own.\<close>

definition lost_slots :: "GenerationRequest \<Rightarrow> NpuDmaPipeline \<Rightarrow> nat multiset" where
  "lost_slots req p = (case np_free_slots p of
      i # u # rest \<Rightarrow> if acceptable req \<and> guided req \<and> has_device p i \<and> \<not> has_device p u then {#u#} else {#}
    | _ \<Rightarrow> {#})"

subsection \<open>What an operation leaves alone\<close>

text \<open>The pipeline apart from the contents and states of its slots and its counters.\<close>

definition same_frame :: "NpuDmaPipeline \<Rightarrow> NpuDmaPipeline \<Rightarrow> bool" where
  "same_frame p q \<longleftrightarrow> np_cfg q = np_cfg p \<and> np_encoder q = np_encoder p \<and> length (np_slots q) = length (np_slots p) \<and>
     has_device q = has_device p"

lemma same_frame_refl [simp]: "same_frame p p"
  by (simp add: same_frame_def)

lemma same_frame_trans [trans]: "same_frame p q \<Longrightarrow> same_frame q r \<Longrightarrow> same_frame p r"
  by (simp add: same_frame_def)

lemma has_device_upd_slot:
  assumes "\<And>s. (sl_device (f s) = None) = (sl_device s = None)"
  shows "has_device (upd_slot i f p) = has_device p"
proof
  fix j
  show "has_device (upd_slot i f p) j = has_device p j"
  proof (cases "i < length (np_slots p)")
    case True
    then show ?thesis
      using assms by (cases "i = j") (simp_all add: has_device_def upd_slot_def del: not_None_eq)
  next
    case False
    then show ?thesis
      by (simp add: upd_slot_def list_update_beyond)
  qed
qed

text \<open>A frame is not touched by a write to a slot that keeps its device pointer, nor by a write to a counter.\<close>

lemma same_frame_upd_slot [simp]:
  "(\<And>s. (sl_device (f s) = None) = (sl_device s = None)) \<Longrightarrow> same_frame p (upd_slot i f q) \<longleftrightarrow> same_frame p q"
  using has_device_upd_slot [of f i q] by (simp add: same_frame_def upd_slot_def)

lemma same_frame_fields [simp]:
  "same_frame p (q\<lparr>np_free_slots := fs\<rparr>) \<longleftrightarrow> same_frame p q"
  "same_frame p (q\<lparr>np_encodes_submitted := n\<rparr>) \<longleftrightarrow> same_frame p q"
  "same_frame p (q\<lparr>np_dma_transfers := a, np_dma_bytes := b\<rparr>) \<longleftrightarrow> same_frame p q"
  "same_frame p (q\<lparr>np_last_util := u, np_last_temp := t, np_samples := a, np_encodes_completed := b\<rparr>) \<longleftrightarrow> same_frame p q"
  by (simp_all add: same_frame_def has_device_def fun_eq_iff)

lemma upd_slot_free [simp]: "np_free_slots (upd_slot i f p) = np_free_slots p"
  by (simp add: upd_slot_def)

lemma upd_slot_at [simp]: "i < length (np_slots p) \<Longrightarrow> np_slots (upd_slot i f p) ! i = f (np_slots p ! i)"
  by (simp add: upd_slot_def)

lemma upd_slot_length [simp]: "length (np_slots (upd_slot i f p)) = length (np_slots p)"
  by (simp add: upd_slot_def)

lemma dma_copy_device [simp]: "sl_device (dma_copy s) = None \<longleftrightarrow> sl_device s = None"
  by (simp add: dma_copy_def)

lemma dma_copy_host [simp]: "sl_host_buffer (dma_copy s) = sl_host_buffer s"
  by (simp add: dma_copy_def)

lemma stage_to_gpu_frame [simp]: "same_frame p (stage_to_gpu hip i q) \<longleftrightarrow> same_frame p q"
  by (simp add: stage_to_gpu_def Let_def)

lemma stage_to_gpu_free [simp]: "np_free_slots (stage_to_gpu hip i p) = np_free_slots p"
  by (simp add: stage_to_gpu_def Let_def)

lemma stage_to_gpu_length [simp]: "length (np_slots (stage_to_gpu hip i p)) = length (np_slots p)"
  by (simp add: stage_to_gpu_def Let_def)

lemma stage_to_gpu_completed [simp]: "np_encodes_completed (stage_to_gpu hip i p) = np_encodes_completed p"
  by (simp add: stage_to_gpu_def Let_def upd_slot_def)

lemma stage_to_gpu_host: "i < length (np_slots p) \<Longrightarrow> sl_host_buffer (np_slots (stage_to_gpu hip i p) ! i) = sl_host_buffer (np_slots p ! i)"
  by (simp add: stage_to_gpu_def Let_def)

lemma run_encode_frame: "run_encode i req p = Some q \<Longrightarrow> same_frame p q \<and> np_free_slots q = np_free_slots p"
  by (auto simp: run_encode_def Let_def split: option.splits sum.splits)

lemma encode_and_stage_total:
  assumes "np_encoder p = Some enc"
  obtains q where "encode_and_stage hip i req p = Some q" "same_frame p q" "np_free_slots q = np_free_slots p"
proof -
  obtain p1 where p1: "run_encode i req p = Some p1"
    using assms by (cases "enc req") (simp_all add: run_encode_def Let_def)
  show thesis
    using that run_encode_frame [OF p1] p1 by (simp add: encode_and_stage_def)
qed

lemma encode_and_stage_ready:
  assumes "encode_and_stage hip i req p = Some q" "dc_enable_gpu_staging (np_cfg p)" "i < length (np_slots p)"
  shows "sl_state (np_slots q ! i) = Slot_READY"
proof -
  obtain p1 where p1: "run_encode i req p = Some p1"
    using assms(1) by (auto simp: encode_and_stage_def split: option.splits)
  have "same_frame p (stage_to_gpu hip i p1)"
    using run_encode_frame [OF p1] by simp
  then show ?thesis
    using assms p1 run_encode_frame [OF p1] by (auto simp: encode_and_stage_def same_frame_def)
qed

text \<open>A submission to a pipeline with an encoder and a free slot: it takes the first one.\<close>

lemma submit_takes_first:
  assumes "np_encoder p = Some enc" "np_free_slots p = i # fs"
  obtains q where "submit hip req p = Returns (i, q)" "same_frame p q" "np_free_slots q = fs"
    "dc_enable_gpu_staging (np_cfg p) \<Longrightarrow> i < length (np_slots p) \<Longrightarrow> sl_state (np_slots q ! i) = Slot_READY"
proof -
  let ?p = "p\<lparr>np_free_slots := fs, np_encodes_submitted := np_encodes_submitted p + 1\<rparr>"
  obtain q where q: "encode_and_stage hip i req ?p = Some q" "same_frame ?p q" "np_free_slots q = fs"
    using assms by (rule_tac encode_and_stage_total [of ?p enc hip i req]) auto
  have "same_frame p ?p"
    by (simp add: same_frame_def has_device_def fun_eq_iff)
  then show thesis
    using that [of q] q same_frame_trans [of p ?p q] encode_and_stage_ready [OF q(1)] assms(2)
    by (simp add: submit_def submit_async_def acquire_slot_def)
qed

lemma submit_empty [simp]: "np_free_slots p = [] \<Longrightarrow> submit hip req p = Waits"
  by (simp add: submit_def submit_async_def acquire_slot_def)

lemma submit_without_encoder: "np_encoder p = None \<Longrightarrow> np_free_slots p = i # fs \<Longrightarrow> submit hip req p = Crashes"
  by (simp add: submit_def submit_async_def acquire_slot_def encode_and_stage_def run_encode_def)

text \<open>A slot that is ready is handed over at once, and is usable exactly when it has device memory.\<close>

lemma await_ready:
  "i < length (np_slots p) \<Longrightarrow> sl_state (np_slots p ! i) = Slot_READY \<Longrightarrow>
     \<exists>h. await_npu i p = Returns h \<and> handle_ok h = has_device p i"
  by (simp add: await_npu_def try_get_gpu_handle_def handle_ok_def tensor_handle_def has_device_def)

lemma release_slot_frame [simp]: "same_frame p (release_slot i q) \<longleftrightarrow> same_frame p q"
  by (simp add: release_slot_def return_slot_def)

lemma release_slot_free:
  "i < length (np_slots p) \<Longrightarrow> np_free_slots (release_slot i p) = np_free_slots p @ [i]"
  by (simp add: release_slot_def return_slot_def)

subsection \<open>The slots of a generation\<close>

text \<open>A pipeline a generation can run on: it has an encoder, stages to the GPU, and its free slots exist.\<close>

definition operational :: "NpuDmaPipeline \<Rightarrow> bool" where
  "operational p \<longleftrightarrow> np_encoder p \<noteq> None \<and> dc_enable_gpu_staging (np_cfg p) \<and> slots_wf p"

lemma slots_wf_rest: "slots_wf p \<Longrightarrow> np_free_slots p = i # fs \<Longrightarrow> same_frame p q \<Longrightarrow> np_free_slots q = fs \<Longrightarrow> slots_wf q"
  by (simp add: slots_wf_def same_frame_def)

lemma operational_rest: "operational p \<Longrightarrow> np_free_slots p = i # fs \<Longrightarrow> same_frame p q \<Longrightarrow> np_free_slots q = fs \<Longrightarrow> operational q"
  using slots_wf_rest by (auto simp: operational_def same_frame_def)

lemma operational_submit:
  assumes "operational p" "np_free_slots p = i # fs"
  obtains q where "submit hip req p = Returns (i, q)" "same_frame p q" "np_free_slots q = fs" "operational q"
    "i < length (np_slots q)" "\<exists>h. await_npu i q = Returns h \<and> handle_ok h = has_device p i"
proof -
  obtain enc where enc: "np_encoder p = Some enc"
    using assms(1) by (auto simp: operational_def)
  have i: "i < length (np_slots p)"
    using assms by (simp add: operational_def slots_wf_def)
  obtain q where q: "submit hip req p = Returns (i, q)" "same_frame p q" "np_free_slots q = fs"
    "dc_enable_gpu_staging (np_cfg p) \<Longrightarrow> i < length (np_slots p) \<Longrightarrow> sl_state (np_slots q ! i) = Slot_READY"
    using submit_takes_first [OF enc assms(2)] by blast
  have "i < length (np_slots q)" "has_device q = has_device p"
    using i q(2) by (simp_all add: same_frame_def)
  moreover have "sl_state (np_slots q ! i) = Slot_READY"
    using q(4) i assms(1) by (simp add: operational_def)
  ultimately show thesis
    using that [of q] q(1-3) operational_rest [OF assms q(2,3)] await_ready [of i q] by simp
qed

lemma encode_uncond_unguided: "\<not> guided req \<Longrightarrow> encode_uncond env req p = Returns (None, p)"
  by (simp add: encode_uncond_def guided_def)

lemma encode_uncond_empty: "guided req \<Longrightarrow> np_free_slots p = [] \<Longrightarrow> encode_uncond env req p = Waits"
  by (simp add: encode_uncond_def guided_def)

lemma encode_uncond_guided:
  assumes "guided req" "operational p" "np_free_slots p = u # fs"
  obtains q where "encode_uncond env req p = Returns (if has_device p u then Some u else None, q)"
    "same_frame p q" "np_free_slots q = fs" "u < length (np_slots q)"
proof -
  obtain q where "submit (ae_hip env 1) (uncond_request req) p = Returns (u, q)" "same_frame p q" "np_free_slots q = fs"
    "u < length (np_slots q)" "\<exists>h. await_npu u q = Returns h \<and> handle_ok h = has_device p u"
    using operational_submit [OF assms(2,3), where hip = "ae_hip env 1" and req = "uncond_request req"] by blast
  then show thesis
    using that [of q] assms(1) by (auto simp: encode_uncond_def guided_def)
qed

lemma generate_async_refused: "\<not> acceptable req \<Longrightarrow> generate_async env req p = Returns (no_image, p)"
  by (auto simp: generate_async_def acceptable_def)

text \<open>What a generation does with an operational pipeline, by the slots that are free.\<close>

lemma generate_async_no_slot: "acceptable req \<Longrightarrow> np_free_slots p = [] \<Longrightarrow> generate_async env req p = Waits"
  by (simp add: generate_async_def acceptable_def)

lemma generate_async_no_device:
  assumes "acceptable req" "operational p" "np_free_slots p = i # fs" "\<not> has_device p i"
  obtains q where "generate_async env req p = Returns (no_image, q)" "same_frame p q" "np_free_slots q = fs @ [i]"
proof -
  obtain q where "submit (ae_hip env 0) (encode_request req) p = Returns (i, q)" "same_frame p q" "np_free_slots q = fs"
    "i < length (np_slots q)" "\<exists>h. await_npu i q = Returns h \<and> handle_ok h = has_device p i"
    using operational_submit [OF assms(2,3), where hip = "ae_hip env 0" and req = "encode_request req"] by blast
  then show thesis
    using that [of "release_slot i q"] assms(1,4) by (auto simp: generate_async_def acceptable_def release_slot_free)
qed

text \<open>The end of a generation: the slots are released and the inner pipeline draws.\<close>

definition close_generation ::
  "async_env \<Rightarrow> GenerationRequest \<Rightarrow> nat \<Rightarrow> (nat option \<times> NpuDmaPipeline) outcome \<Rightarrow> (GeneratedImage \<times> NpuDmaPipeline) outcome" where
  "close_generation env req i res = (case res of
      Waits \<Rightarrow> Waits
    | Crashes \<Rightarrow> Crashes
    | Returns (uncond, r) \<Rightarrow>
        Returns (finish_generation env req,
          (case uncond of None \<Rightarrow> release_slot i r | Some u \<Rightarrow> release_slot u (release_slot i r))))"

lemma close_generation_simps [simp]:
  "close_generation env req i Waits = Waits"
  "close_generation env req i (Returns (None, r)) = Returns (finish_generation env req, release_slot i r)"
  "close_generation env req i (Returns (Some u, r)) = Returns (finish_generation env req, release_slot u (release_slot i r))"
  by (simp_all add: close_generation_def)

lemma generate_async_second:
  assumes "acceptable req" "operational p" "np_free_slots p = i # fs" "has_device p i"
  obtains q where "same_frame p q" "np_free_slots q = fs" "operational q" "i < length (np_slots q)"
    "generate_async env req p = close_generation env req i (encode_uncond env req q)"
proof -
  obtain q where q: "submit (ae_hip env 0) (encode_request req) p = Returns (i, q)" "same_frame p q" "np_free_slots q = fs"
    "operational q" "i < length (np_slots q)" "\<exists>h. await_npu i q = Returns h \<and> handle_ok h = has_device p i"
    using operational_submit [OF assms(2,3), where hip = "ae_hip env 0" and req = "encode_request req"] by blast
  have "generate_async env req p = close_generation env req i (encode_uncond env req q)"
    using q(1,6) assms(1,4) unfolding acceptable_def close_generation_def
    by (auto simp: generate_async_def Let_def split: outcome.splits prod.splits)
  then show thesis
    by (rule that [OF q(2-5)])
qed

lemma generate_async_unguided:
  assumes "acceptable req" "operational p" "np_free_slots p = i # fs" "has_device p i" "\<not> guided req"
  obtains q where "generate_async env req p = Returns (finish_generation env req, q)" "same_frame p q" "np_free_slots q = fs @ [i]"
proof -
  obtain q where q: "same_frame p q" "np_free_slots q = fs" "i < length (np_slots q)"
    and g: "generate_async env req p = close_generation env req i (encode_uncond env req q)"
    by (rule generate_async_second [OF assms(1-4)])
  show thesis
    using that [of "release_slot i q"] q g assms(5) by (simp add: encode_uncond_unguided release_slot_free)
qed

lemma generate_async_last_slot:
  assumes "acceptable req" "operational p" "np_free_slots p = [i]" "has_device p i" "guided req"
  shows "generate_async env req p = Waits"
  by (rule generate_async_second [OF assms(1-4)]) (simp add: encode_uncond_empty [OF assms(5)])

lemma generate_async_guided:
  assumes "acceptable req" "operational p" "np_free_slots p = i # u # fs" "has_device p i" "guided req"
  obtains q where "generate_async env req p = Returns (finish_generation env req, q)" "same_frame p q"
    "np_free_slots q = fs @ i # (if has_device p u then [u] else [])"
proof -
  obtain q where q: "same_frame p q" "np_free_slots q = u # fs" "operational q" "i < length (np_slots q)"
    and g: "generate_async env req p = close_generation env req i (encode_uncond env req q)"
    by (rule generate_async_second [OF assms(1-4)])
  obtain r where r: "encode_uncond env req q = Returns (if has_device q u then Some u else None, r)"
    "same_frame q r" "np_free_slots r = fs" "u < length (np_slots r)"
    by (rule encode_uncond_guided [OF assms(5) q(3,2)])
  have [simp]: "has_device q = has_device p" "i < length (np_slots r)" "same_frame p r"
    using q r same_frame_trans [OF q(1) r(2)] by (simp_all add: same_frame_def)
  have [simp]: "length (np_slots (release_slot i r)) = length (np_slots r)"
    by (simp add: release_slot_def return_slot_def)
  show thesis
    using that g r by (cases "has_device p u") (simp_all add: release_slot_free)
qed

lemma lost_slots_simps:
  "\<not> acceptable req \<Longrightarrow> lost_slots req p = {#}"
  "\<not> guided req \<Longrightarrow> lost_slots req p = {#}"
  "np_free_slots p = [i] \<Longrightarrow> lost_slots req p = {#}"
  "np_free_slots p = i # fs \<Longrightarrow> \<not> has_device p i \<Longrightarrow> lost_slots req p = {#}"
  "np_free_slots p = i # u # fs \<Longrightarrow> acceptable req \<Longrightarrow> guided req \<Longrightarrow> has_device p i \<Longrightarrow>
     lost_slots req p = (if has_device p u then {#} else {#u#})"
  by (simp_all add: lost_slots_def split: list.splits)

text \<open>
  A generation on a working pipeline returns every slot it took but one: of a guided request whose second slot has no device memory,
  that second slot stays taken for good.  Nothing else of the pipeline's set-up changes.
\<close>

theorem generation_slot_account:
  assumes "operational p" "generate_async env req p = Returns (img, q)"
  shows "mset (np_free_slots p) = mset (np_free_slots q) + lost_slots req p \<and> same_frame p q"
proof (cases "acceptable req")
  case False
  then show ?thesis
    using assms(2) by (simp add: generate_async_refused lost_slots_simps)
next
  case acc: True
  obtain i fs where free: "np_free_slots p = i # fs"
    using assms(2) generate_async_no_slot [OF acc, of p env] by (cases "np_free_slots p") auto
  show ?thesis
  proof (cases "has_device p i")
    case False
    then obtain r where "generate_async env req p = Returns (no_image, r)" "same_frame p r" "np_free_slots r = fs @ [i]"
      using generate_async_no_device [OF acc assms(1) free, of env] by blast
    then show ?thesis
      using assms(2) free False by (simp add: lost_slots_simps(4))
  next
    case dev: True
    show ?thesis
    proof (cases "guided req")
      case False
      then obtain r where "generate_async env req p = Returns (finish_generation env req, r)" "same_frame p r"
        "np_free_slots r = fs @ [i]"
        using generate_async_unguided [OF acc assms(1) free dev, of env] by blast
      then show ?thesis
        using assms(2) free False by (simp add: lost_slots_simps(2))
    next
      case gd: True
      obtain u gs where fs: "fs = u # gs"
        using assms(2) generate_async_last_slot [OF acc assms(1) _ dev gd, of env] free by (cases fs) auto
      obtain r where "generate_async env req p = Returns (finish_generation env req, r)" "same_frame p r"
        "np_free_slots r = gs @ i # (if has_device p u then [u] else [])"
        using generate_async_guided [OF acc assms(1) free [unfolded fs] dev gd, of env] by blast
      then show ?thesis
        using assms(2) free fs dev gd acc by (simp add: lost_slots_simps(5))
    qed
  qed
qed

text \<open>
  A generation waits for ever exactly when no slot is free, or when a guided request gets the last free slot: it holds that one
  while it asks for a second, which only itself could give back.
\<close>

theorem generation_waits_exactly:
  assumes "operational p"
  shows "generate_async env req p = Waits \<longleftrightarrow>
           acceptable req \<and> (np_free_slots p = [] \<or> (\<exists>i. np_free_slots p = [i] \<and> has_device p i \<and> guided req))"
proof (cases "acceptable req \<and> np_free_slots p \<noteq> []")
  case False
  then show ?thesis
    by (cases "acceptable req") (auto simp: generate_async_refused generate_async_no_slot)
next
  case True
  then obtain i fs where acc: "acceptable req" and free: "np_free_slots p = i # fs"
    by (cases "np_free_slots p") auto
  show ?thesis
  proof (cases "has_device p i \<and> guided req")
    case False
    then show ?thesis
      using generate_async_no_device [OF acc assms free, of env] generate_async_unguided [OF acc assms free, of env] free
      by (metis list.inject list.simps(3) outcome.distinct(3))
  next
    case dev: True
    show ?thesis
    proof (cases fs)
      case Nil
      then show ?thesis
        using generate_async_last_slot [OF acc assms] free dev acc by simp
    next
      case (Cons u gs)
      obtain r where "generate_async env req p = Returns (finish_generation env req, r)"
        using generate_async_guided [OF acc assms free [unfolded Cons], of env] dev by blast
      then show ?thesis
        using free Cons by simp
    qed
  qed
qed

text \<open>
  A failed encoding is handed over all the same: the slot is marked ready after the failure was recorded, its handle is usable, and
  the buffer behind it still holds what the previous request left there.
\<close>

theorem failed_encode_handed_over:
  assumes "operational p" "np_encoder p = Some enc" "enc req = Inl e" "np_free_slots p = i # fs" "has_device p i"
  shows "\<exists>q. submit hip req p = Returns (i, q) \<and> (\<exists>h. await_npu i q = Returns h \<and> handle_ok h) \<and>
             sl_host_buffer (np_slots q ! i) = sl_host_buffer (np_slots p ! i) \<and>
             np_encodes_completed q = np_encodes_completed p"
proof -
  obtain q where q: "submit hip req p = Returns (i, q)" "\<exists>h. await_npu i q = Returns h \<and> handle_ok h"
    using operational_submit [OF assms(1,4), where hip = hip and req = req] assms(5) by metis
  have i: "i < length (np_slots p)"
    using assms(1,4) by (simp add: operational_def slots_wf_def)
  have "sl_host_buffer (np_slots q ! i) = sl_host_buffer (np_slots p ! i) \<and> np_encodes_completed q = np_encodes_completed p"
    using q(1) assms(1-4) i
    by (auto simp: submit_def submit_async_def acquire_slot_def encode_and_stage_def run_encode_def Let_def operational_def
      stage_to_gpu_host upd_slot_def)
  then show ?thesis
    using q by blast
qed

text \<open>
  Without device memory, which is every pipeline built without HIP, no acceptable request yields an image; without an encoder, which is
  how the asynchronous pipeline builds its own, the first one dereferences null.
\<close>

theorem no_device_no_image:
  assumes "operational p" "\<forall>i. \<not> has_device p i" "generate_async env req p = Returns (img, q)"
  shows "img = no_image"
proof (cases "acceptable req \<and> np_free_slots p \<noteq> []")
  case True
  then obtain i fs where "acceptable req" "np_free_slots p = i # fs"
    by (cases "np_free_slots p") auto
  then show ?thesis
    using generate_async_no_device [OF _ assms(1), of req i fs env] assms(2,3) by auto
next
  case False
  then show ?thesis
    using assms(3) by (cases "acceptable req") (auto simp: generate_async_refused generate_async_no_slot)
qed

theorem no_encoder_crashes:
  "acceptable req \<Longrightarrow> generate_async env req (new_dma has_hip mem cfg None) = Crashes"
proof -
  obtain n fs where "np_free_slots (new_dma has_hip mem cfg None) = 0 # fs" "np_encoder (new_dma has_hip mem cfg None) = None"
    by (cases "dc_num_slots cfg") (auto simp: new_dma_def upt_rec)
  then show "acceptable req \<Longrightarrow> ?thesis"
    by (simp add: generate_async_def acceptable_def submit_without_encoder)
qed

text \<open>
  With staging switched off no slot ever becomes ready, so every acceptable request that gets a slot suspends and ends the process.
\<close>

theorem no_staging_crashes:
  assumes "acceptable req" "\<not> dc_enable_gpu_staging (np_cfg p)" "slots_wf p" "np_free_slots p = i # fs"
  shows "generate_async env req p = Crashes"
proof (cases "np_encoder p")
  case None
  then show ?thesis
    using assms(1,4) by (simp add: generate_async_def acceptable_def submit_without_encoder)
next
  case (Some enc)
  let ?p = "p\<lparr>np_free_slots := fs, np_encodes_submitted := np_encodes_submitted p + 1\<rparr>"
  obtain q where q: "run_encode i (encode_request req) ?p = Some q" "sl_state (np_slots q ! i) \<noteq> Slot_READY"
    using Some assms(3,4) by (cases "enc (encode_request req)") (simp_all add: run_encode_def Let_def upd_slot_def slots_wf_def)
  have "np_cfg q = np_cfg p"
    using run_encode_frame [OF q(1)] by (simp add: same_frame_def)
  then have "submit (ae_hip env 0) (encode_request req) p = Returns (i, q)"
    using q assms(2,4) by (simp add: submit_def submit_async_def acquire_slot_def encode_and_stage_def)
  then show ?thesis
    using q(2) assms(1) by (simp add: generate_async_def acceptable_def await_npu_def try_get_gpu_handle_def)
qed

subsection \<open>Streams\<close>

lemma those_all_Some: "(\<And>x. x \<in> set xs \<Longrightarrow> f x \<noteq> None) \<Longrightarrow> \<exists>ys. those (map f xs) = Some ys \<and> length ys = length xs"
proof (induction xs)
  case (Cons x xs)
  obtain ys where "those (map f xs) = Some ys" "length ys = length xs"
    using Cons by auto
  moreover obtain y where "f x = Some y"
    using Cons.prems by auto
  ultimately show ?case
    by simp
qed simp

lemma step_latents_total:
  assumes "0 < n" "pixels \<noteq> []"
  shows "\<exists>l. step_latents n pixels = Some l \<and> length l = n"
proof -
  let ?f = "\<lambda>i. let src = min (i * max 1 (length pixels div n)) (length pixels - 1)
                 in if src < length pixels then Some (f_div (f_round (of_nat (unat (pixels ! src)))) (F_Fin 255)) else None"
  have "min a (length pixels - 1) < length pixels" for a
    using assms(2) by (cases pixels) (simp_all add: min_def)
  then have "?f i \<noteq> None" for i
    by (simp only: Let_def if_True option.distinct not_False_eq_True)
  then have "\<exists>l. those (map ?f [0..<n]) = Some l \<and> length l = length [0..<n]"
    by (intro those_all_Some) blast
  then show ?thesis
    using assms by (simp add: step_latents_def Let_def)
qed

lemma stream_steps_total:
  assumes "0 < n" "\<And>k img. gen k = Some img \<Longrightarrow> gi_pixels img \<noteq> []" "length latents = n"
  shows "\<exists>rs. stream_steps gen n latents ks = Some rs \<and> map sr_step_index rs = ks \<and> (\<forall>r\<in>set rs. length (sr_latents r) = n)"
  using assms(3)
proof (induction ks arbitrary: latents)
  case (Cons k ks)
  obtain l where l: "(case gen k of None \<Rightarrow> Some latents | Some img \<Rightarrow> step_latents n (gi_pixels img)) = Some l" "length l = n"
    using step_latents_total [OF assms(1) assms(2) [of k]] Cons.prems by (cases "gen k") auto
  obtain rs where "stream_steps gen n l ks = Some rs" "map sr_step_index rs = ks" "\<forall>r\<in>set rs. length (sr_latents r) = n"
    using Cons.IH [OF l(2)] by blast
  then show ?case
    using l by simp
qed simp

text \<open>
  The generator delivers one result per requested step, in order, each with a preview of the size the dimensions give, as soon as
  both dimensions reach eight and the drawn images have pixels.
\<close>

theorem streaming_delivers_steps:
  assumes "operational p" "\<not> bad_size req" "\<not> bad_steps req" "8 \<le> unat (gn_width req)" "8 \<le> unat (gn_height req)"
    "np_free_slots p = i # fs" "has_device p i" "\<And>k img. gen k = Some img \<Longrightarrow> gi_pixels img \<noteq> []"
  shows "\<exists>rs q. generate_streaming env gen req p = Returns (rs, q) \<and> map sr_step_index rs = [0..<unat (gn_num_steps req)] \<and>
           (\<forall>r\<in>set rs. length (sr_latents r) = latent_size_of req) \<and> np_free_slots q = fs @ [i]"
proof -
  obtain q where q: "submit (ae_hip env 0) (encode_request req) p = Returns (i, q)" "np_free_slots q = fs"
    "i < length (np_slots q)" "\<exists>h. await_npu i q = Returns h \<and> handle_ok h"
    using operational_submit [OF assms(1,6), where hip = "ae_hip env 0" and req = "encode_request req"] assms(7) by metis
  have "0 < latent_size_of req"
    using assms(4,5) by (simp add: latent_size_of_def div_greater_zero_iff)
  then obtain rs where "stream_steps gen (latent_size_of req) (replicate (latent_size_of req) (F_Fin 0)) [0..<unat (gn_num_steps req)] = Some rs"
    "map sr_step_index rs = [0..<unat (gn_num_steps req)]" "\<forall>r\<in>set rs. length (sr_latents r) = latent_size_of req"
    using stream_steps_total assms(8) by (metis length_replicate)
  then show ?thesis
    using q assms(2,3) by (auto simp: generate_streaming_def Let_def release_slot_free)
qed

text \<open>
  A dimension below eight, which the streaming entry does not refuse, makes the first drawn step divide by zero.
\<close>

theorem streaming_small_size_crashes:
  assumes "operational p" "\<not> bad_size req" "\<not> bad_steps req" "unat (gn_width req) < 8 \<or> unat (gn_height req) < 8"
    "np_free_slots p = i # fs" "has_device p i" "gen 0 = Some img"
  shows "generate_streaming env gen req p = Crashes"
proof -
  obtain q where q: "submit (ae_hip env 0) (encode_request req) p = Returns (i, q)" "\<exists>h. await_npu i q = Returns h \<and> handle_ok h"
    using operational_submit [OF assms(1,5), where hip = "ae_hip env 0" and req = "encode_request req"] assms(6) by metis
  have "latent_size_of req = 0"
    using assms(4) by (auto simp: latent_size_of_def)
  moreover have "[0..<unat (gn_num_steps req)] = 0 # [1..<unat (gn_num_steps req)]"
    using assms(3) by (simp add: bad_steps_def upt_rec [of 0] unat_gt_0)
  ultimately show ?thesis
    using q assms(2,3,7) by (auto simp: generate_streaming_def Let_def step_latents_def)
qed

end
