(* ===== verification/Native_Backend.thy ===== *)
theory Native_Backend
  imports Execution_Coordinator Quantized_Kernels
begin

text \<open>
  The native back end of \<^verbatim>\<open>code/src/cerberus_native_backend.cpp\<close> and the kernels of \<^verbatim>\<open>code/src/cerberus_native_kernels.cpp\<close> that it
  dispatches to beside the products and sums of \<open>Matmul_Kernels\<close>: activations, row normalisation and convolution.

  The functions of the mathematics library are the argument \<open>libm\<close>; expressions are evaluated without contraction.  The blocks a kernel
  gets are separate, as the coordinator hands them over: the tiered inputs, the tiered outputs and the scratch vectors of the run.  A
  read or write outside a block, or a vector index out of range, is \<open>NR_undefined\<close>; a scratch vector that cannot be allocated is
  \<open>NR_throws\<close>.  Null pointers are \<open>None\<close>; an empty vector has one.
\<close>

subsection \<open>Kernels\<close>

record libm =
  lm_exp :: "float32 \<Rightarrow> float32"
  lm_tanh :: "float32 \<Rightarrow> float32"
  lm_sqrt :: "float32 \<Rightarrow> float32"

definition pointwise ::
  "(float32 \<Rightarrow> float32) \<Rightarrow> float32 list option \<Rightarrow> float32 list option \<Rightarrow> nat \<Rightarrow> (string, float32 list) expected option" where
  "pointwise f inp out elems = (case (inp, out) of
      (Some inp, Some out) \<Rightarrow>
        map_option Inr (for_each [0..<elems] (\<lambda>i out. do { x \<leftarrow> rd inp i; upd_at out i (\<lambda>_. f x) }) out)
    | _ \<Rightarrow> Some (Inl ''null pointer''))"

definition sigmoid :: "libm \<Rightarrow> float32 \<Rightarrow> float32" where
  "sigmoid lm x = f_div (F_Fin 1) (f_add (F_Fin 1) (lm_exp lm (f_neg x)))"

definition kernel_sigmoid ::
  "libm \<Rightarrow> float32 list option \<Rightarrow> float32 list option \<Rightarrow> nat \<Rightarrow> (string, float32 list) expected option" where
  "kernel_sigmoid lm = pointwise (sigmoid lm)"

definition gelu :: "libm \<Rightarrow> float32 \<Rightarrow> float32" where
  "gelu lm x =
     (let sqrt_2_over_pi = f_round (7978845608 / 10000000000); coef = f_round (44715 / 1000000);
          x3 = f_mul (f_mul x x) x;
          t = f_mul sqrt_2_over_pi (f_add x (f_mul coef x3))
      in f_mul (f_mul (F_Fin (1 / 2)) x) (f_add (F_Fin 1) (lm_tanh lm t)))"

definition kernel_gelu ::
  "libm \<Rightarrow> float32 list option \<Rightarrow> float32 list option \<Rightarrow> nat \<Rightarrow> (string, float32 list) expected option" where
  "kernel_gelu lm = pointwise (gelu lm)"

definition slice :: "'a list \<Rightarrow> nat \<Rightarrow> nat \<Rightarrow> 'a list option" where
  "slice xs i n = (if i + n \<le> length xs then Some (take n (drop i xs)) else None)"

definition put_slice :: "'a list \<Rightarrow> nat \<Rightarrow> 'a list \<Rightarrow> 'a list option" where
  "put_slice xs i vs = (if i + length vs \<le> length xs then Some (take i xs @ vs @ drop (i + length vs) xs) else None)"

text \<open>Both row kernels work through a function from a row to its result; \<open>None\<close> is a dereferenced end iterator.\<close>

definition rowwise ::
  "(float32 list \<Rightarrow> float32 list option) \<Rightarrow> float32 list option \<Rightarrow> float32 list option \<Rightarrow> nat \<Rightarrow> nat
   \<Rightarrow> (string, float32 list) expected option" where
  "rowwise f inp out rows cols = (case (inp, out) of
      (Some inp, Some out) \<Rightarrow>
        map_option Inr (for_each [0..<rows] (\<lambda>r out.
          do { row \<leftarrow> slice inp (r * cols) cols; vs \<leftarrow> f row; put_slice out (r * cols) vs }) out)
    | _ \<Rightarrow> Some (Inl ''null pointer''))"

fun max_element :: "float32 list \<Rightarrow> float32 option" where
  "max_element [] = None"
| "max_element (x # xs) = Some (foldl (\<lambda>mx y. if f_less mx y then y else mx) x xs)"

definition softmax_row :: "libm \<Rightarrow> float32 list \<Rightarrow> float32 list option" where
  "softmax_row lm row = do {
     mx \<leftarrow> max_element row;
     let es = map (\<lambda>x. lm_exp lm (f_sub x mx)) row;
     let total = foldl f_add (F_Fin 0) es;
     Some (map (\<lambda>e. f_div e total) es) }"

definition kernel_softmax ::
  "libm \<Rightarrow> float32 list option \<Rightarrow> float32 list option \<Rightarrow> nat \<Rightarrow> nat \<Rightarrow> (string, float32 list) expected option" where
  "kernel_softmax lm = rowwise (softmax_row lm)"

definition layernorm_row :: "libm \<Rightarrow> float32 \<Rightarrow> float32 list \<Rightarrow> float32 list option" where
  "layernorm_row lm eps row =
     (let cols = f_round (of_nat (length row));
          mean = f_div (foldl f_add (F_Fin 0) row) cols;
          var = f_div (foldl (\<lambda>v x. f_add v (f_mul (f_sub x mean) (f_sub x mean))) (F_Fin 0) row) cols;
          inv_std = f_div (F_Fin 1) (lm_sqrt lm (f_add var eps))
      in Some (map (\<lambda>x. f_mul (f_sub x mean) inv_std) row))"

definition layernorm_eps :: float32 where
  "layernorm_eps = f_round (1 / 1000000)"

definition kernel_layernorm ::
  "libm \<Rightarrow> float32 list option \<Rightarrow> float32 list option \<Rightarrow> nat \<Rightarrow> nat \<Rightarrow> (string, float32 list) expected option" where
  "kernel_layernorm lm = rowwise (layernorm_row lm layernorm_eps)"

definition conv_indices :: "nat \<Rightarrow> nat \<Rightarrow> nat \<Rightarrow> nat \<Rightarrow> nat \<Rightarrow> nat \<Rightarrow> (nat \<times> nat \<times> nat \<times> nat \<times> nat \<times> nat) list" where
  "conv_indices OC OH OW KH KW C =
     List.product [0..<OC] (List.product [0..<OH] (List.product [0..<OW] (List.product [0..<KH] (List.product [0..<KW] [0..<C]))))"

definition conv_accumulate ::
  "float32 list \<Rightarrow> float32 list \<Rightarrow> nat \<Rightarrow> nat \<Rightarrow> nat \<Rightarrow> nat \<Rightarrow> nat \<Rightarrow> (nat \<times> nat \<times> nat \<times> nat \<times> nat \<times> nat) list
   \<Rightarrow> float32 list \<Rightarrow> float32 list option" where
  "conv_accumulate input weight W C KW OC OW ixs = for_each ixs (\<lambda>(oc, oh, ow, kh, kw, c) out. do {
     iv \<leftarrow> rd input ((oh + kh) * W * C + (ow + kw) * C + c);
     wv \<leftarrow> rd weight (kh * KW * C * OC + kw * C * OC + c * OC + oc);
     upd_at out (oh * OW * OC + ow * OC + oc) (\<lambda>o'. f_add o' (f_mul iv wv)) })"

definition conv_bias :: "float32 list \<Rightarrow> nat \<Rightarrow> nat \<Rightarrow> nat \<Rightarrow> float32 list \<Rightarrow> float32 list option" where
  "conv_bias bias OH OW OC = for_each (List.product [0..<OH] (List.product [0..<OW] [0..<OC])) (\<lambda>(oh, ow, oc) out. do {
     b \<leftarrow> rd bias oc; upd_at out (oh * OW * OC + ow * OC + oc) (\<lambda>o'. f_add o' b) })"

definition kernel_conv2d ::
  "float32 list option \<Rightarrow> float32 list option \<Rightarrow> float32 list option \<Rightarrow> float32 list option
   \<Rightarrow> nat \<Rightarrow> nat \<Rightarrow> nat \<Rightarrow> nat \<Rightarrow> nat \<Rightarrow> nat \<Rightarrow> (string, float32 list) expected option" where
  "kernel_conv2d input weight bias output H W C KH KW OC = (case (input, weight, output) of
      (Some input, Some weight, Some output) \<Rightarrow>
        if H < KH \<or> W < KW then Some (Inl ''input smaller than kernel'')
        else let OH = H - KH + 1; OW = W - KW + 1
             in map_option Inr (do {
                  o1 \<leftarrow> put_slice output 0 (replicate (OH * OW * OC) (F_Fin 0));
                  o2 \<leftarrow> conv_accumulate input weight W C KW OC OW (conv_indices OC OH OW KH KW C) o1;
                  (case bias of None \<Rightarrow> Some o2 | Some bias \<Rightarrow> conv_bias bias OH OW OC o2) })
    | _ \<Rightarrow> Some (Inl ''null pointer''))"

subsection \<open>Compilation\<close>

definition produced_names :: "KernelGraph \<Rightarrow> string list" where
  "produced_names kg = concat (map kn_outputs (kg_nodes kg))"

definition consumed_names :: "KernelGraph \<Rightarrow> string list" where
  "consumed_names kg = concat (map kn_inputs (kg_nodes kg))"

text \<open>The names of a list that are not in a set, each at its first occurrence.\<close>

definition fresh_names :: "string list \<Rightarrow> string list \<Rightarrow> string list" where
  "fresh_names names excluded =
     fold (\<lambda>n acc. if n \<in> set excluded \<or> n \<in> set acc then acc else acc @ [n]) names []"

definition pad_descs :: "string list \<Rightarrow> TensorDesc list \<Rightarrow> TensorDesc list" where
  "pad_descs names ds =
     ds @ replicate (length names - length ds) \<lparr>td_name = [], td_shape = [4], td_dtype = DT_F32\<rparr>"

definition native_compile :: "KernelGraph \<Rightarrow> CompiledKernel" where
  "native_compile kg =
     (let ext_names = fresh_names (consumed_names kg) (produced_names kg);
          out_names = fresh_names (produced_names kg) (consumed_names kg)
      in \<lparr>ck_target_name = ''native'', ck_inputs = pad_descs ext_names (graph_inputs kg),
          ck_outputs = pad_descs out_names (graph_outputs kg), ck_input_names = ext_names, ck_output_names = out_names,
          ck_high_reuse_tensors = filter (\<lambda>o'. o' \<in> set (consumed_names kg)) (produced_names kg),
          ck_estimated_working_set_bytes =
            (case graph_inputs kg of [] \<Rightarrow> 0 | d # _ \<Rightarrow> td_size_bytes d) +
            (case graph_outputs kg of [] \<Rightarrow> 0 | d # _ \<Rightarrow> td_size_bytes d),
          ck_graph_nodes = kg_nodes kg, ck_compiled = True\<rparr>)"

definition can_compile_for :: "string \<Rightarrow> bool" where
  "can_compile_for target \<longleftrightarrow> target = ''native'' \<or> target = ''cpu''"

subsection \<open>Execution\<close>

datatype buffer = B_input nat | B_output nat | B_scratch nat

record native_state =
  ns_inputs :: "float32 list option list"
  ns_outputs :: "float32 list option list"
  ns_scratch :: "float32 list list"
  ns_tensor_map :: "string \<rightharpoonup> buffer"

datatype native_run = NR_ok native_state | NR_error string native_state | NR_throws | NR_undefined

text \<open>The mathematics library, the bytes behind a pointer to floats, and which vectors can be allocated.\<close>

record native_env =
  ne_libm :: libm
  ne_bytes :: "float32 list \<Rightarrow> byte list"
  ne_can_alloc :: "nat \<Rightarrow> bool"

definition load_buffer :: "native_state \<Rightarrow> buffer \<Rightarrow> float32 list option" where
  "load_buffer st b = (case b of
      B_input i \<Rightarrow> ns_inputs st ! i
    | B_output i \<Rightarrow> ns_outputs st ! i
    | B_scratch i \<Rightarrow> if ns_scratch st ! i = [] then None else Some (ns_scratch st ! i))"

definition store_buffer :: "buffer \<Rightarrow> float32 list \<Rightarrow> native_state \<Rightarrow> native_state" where
  "store_buffer b xs st = (case b of
      B_input i \<Rightarrow> st\<lparr>ns_inputs := (ns_inputs st)[i := Some xs]\<rparr>
    | B_output i \<Rightarrow> st\<lparr>ns_outputs := (ns_outputs st)[i := Some xs]\<rparr>
    | B_scratch i \<Rightarrow> st\<lparr>ns_scratch := (ns_scratch st)[i := xs]\<rparr>)"

definition int_attr :: "KernelNode \<Rightarrow> nat \<Rightarrow> nat \<Rightarrow> nat" where
  "int_attr n i dflt = (if i < length (int_attrs n) then to_size (int_attrs n ! i) else dflt)"

fun op_number :: "Op \<Rightarrow> nat" where
  "op_number Op_Unknown = 0"
| "op_number Op_MatMul = 1"
| "op_number Op_Add = 2"
| "op_number Op_Mul = 3"
| "op_number Op_Conv = 4"
| "op_number Op_Relu = 5"
| "op_number Op_Sigmoid = 6"
| "op_number Op_Reshape = 7"
| "op_number Op_Transpose = 8"
| "op_number Op_Softmax = 9"
| "op_number Op_LayerNorm = 10"
| "op_number Op_Gelu = 11"
| "op_number Op_Constant = 12"
| "op_number Op_FusedMatMulBiasRelu = 13"

definition is_low_precision :: "KernelNode \<Rightarrow> bool" where
  "is_low_precision n \<longleftrightarrow>
     weight_bits (kn_quant_profile n) = 4 \<or> weight_granularity (kn_quant_profile n) = PerBlock"

definition binary_kernel ::
  "(float32 list option \<Rightarrow> float32 list option \<Rightarrow> float32 list option \<Rightarrow> nat \<Rightarrow> (string, float32 list) expected option)
   \<Rightarrow> KernelNode \<Rightarrow> float32 list option list \<Rightarrow> float32 list option \<Rightarrow> (string, float32 list) expected option" where
  "binary_kernel f n ins out = do {
     a \<leftarrow> rd ins 0;
     b \<leftarrow> (if length ins = 1 \<and> float_attrs n \<noteq> [] then Some (Some (map f_of_bits (float_attrs n))) else rd ins 1);
     f a b out (int_attr n 0 4) }"

definition fused_kernel ::
  "KernelNode \<Rightarrow> float32 list option list \<Rightarrow> float32 list option \<Rightarrow> (string, float32 list) expected option" where
  "fused_kernel n ins out = do {
     a \<leftarrow> rd ins 0; b \<leftarrow> rd ins 1;
     let M = int_attr n 0 1; let N = int_attr n 1 1; let K = int_attr n 2 1;
     r1 \<leftarrow> kernel_matmul float_arith a b out M N K;
     (case r1 of
        Inl e \<Rightarrow> Some (Inl e)
      | Inr C \<Rightarrow> do {
          r2 \<leftarrow> (if float_attrs n \<noteq> [] then kernel_add (Some C) (Some (map f_of_bits (float_attrs n))) (Some C) N else Some (Inr C));
          (case r2 of Inl e \<Rightarrow> Some (Inl e) | Inr C2 \<Rightarrow> kernel_relu (Some C2) (Some C2) (M * N)) }) }"

text \<open>The kernel of a node, on the arrays behind its input pointers and behind its output pointer.\<close>

definition node_kernel ::
  "native_env \<Rightarrow> KernelNode \<Rightarrow> float32 list option list \<Rightarrow> float32 list option \<Rightarrow> (string, float32 list) expected option" where
  "node_kernel env n ins out = (case kn_op n of
      Op_MatMul \<Rightarrow> do {
        a \<leftarrow> rd ins 0; b \<leftarrow> rd ins 1;
        (if is_low_precision n
         then kernel_matmul_iq4_nl_block a (map_option (ne_bytes env) b) out (int_attr n 0 1) (int_attr n 1 1) (int_attr n 2 1)
         else kernel_matmul float_arith a b out (int_attr n 0 1) (int_attr n 1 1) (int_attr n 2 1)) }
    | Op_Add \<Rightarrow> binary_kernel kernel_add n ins out
    | Op_Mul \<Rightarrow> binary_kernel kernel_mul n ins out
    | Op_Relu \<Rightarrow> do { a \<leftarrow> rd ins 0; kernel_relu a out (int_attr n 0 4) }
    | Op_Sigmoid \<Rightarrow> do { a \<leftarrow> rd ins 0; kernel_sigmoid (ne_libm env) a out (int_attr n 0 4) }
    | Op_Softmax \<Rightarrow> do { a \<leftarrow> rd ins 0; kernel_softmax (ne_libm env) a out (int_attr n 0 1) (int_attr n 1 1) }
    | Op_Gelu \<Rightarrow> do { a \<leftarrow> rd ins 0; kernel_gelu (ne_libm env) a out (int_attr n 0 4) }
    | Op_LayerNorm \<Rightarrow> do { a \<leftarrow> rd ins 0; kernel_layernorm (ne_libm env) a out (int_attr n 0 1) (int_attr n 1 1) }
    | Op_Conv \<Rightarrow> do {
        a \<leftarrow> rd ins 0; b \<leftarrow> rd ins 1;
        kernel_conv2d a b (if 2 < length ins then ins ! 2 else None) out (int_attr n 0 1) (int_attr n 1 1) (int_attr n 2 1)
          (int_attr n 3 1) (int_attr n 4 1) (int_attr n 5 1) }
    | Op_FusedMatMulBiasRelu \<Rightarrow> fused_kernel n ins out
    | _ \<Rightarrow> Some (Inl (''unsupported op in native backend: '' @ nat_to_string (op_number (kn_op n)))))"

fun resolve_inputs :: "(string \<rightharpoonup> buffer) \<Rightarrow> string list \<Rightarrow> (string, buffer list) expected" where
  "resolve_inputs tm [] = Inr []"
| "resolve_inputs tm (x # xs) = (case tm x of
      None \<Rightarrow> Inl (''missing tensor: '' @ x)
    | Some b \<Rightarrow> (case resolve_inputs tm xs of Inl e \<Rightarrow> Inl e | Inr bs \<Rightarrow> Inr (b # bs)))"

definition graph_output :: "CompiledKernel \<Rightarrow> string \<Rightarrow> nat option" where
  "graph_output k out_name =
     find_first (\<lambda>n. n = out_name) (take (length (ck_outputs k)) (ck_output_names k))"

text \<open>The output buffer of a node and the state with it bound.\<close>

definition bind_output :: "native_env \<Rightarrow> CompiledKernel \<Rightarrow> KernelNode \<Rightarrow> string \<Rightarrow> native_state \<Rightarrow> (buffer \<times> native_state) option" where
  "bind_output env k n out_name st = (case graph_output k out_name of
      Some i \<Rightarrow> Some (B_output i, st\<lparr>ns_tensor_map := (ns_tensor_map st)(out_name \<mapsto> B_output i)\<rparr>)
    | None \<Rightarrow>
        (let b = B_scratch (length (ns_scratch st)); elems = int_attr n 0 4
         in if ne_can_alloc env elems
            then Some (b, st\<lparr>ns_scratch := ns_scratch st @ [replicate elems (F_Fin 0)],
                             ns_tensor_map := (ns_tensor_map st)(out_name \<mapsto> b)\<rparr>)
            else None))"

definition exec_node :: "native_env \<Rightarrow> CompiledKernel \<Rightarrow> KernelNode \<Rightarrow> native_state \<Rightarrow> native_run" where
  "exec_node env k n st = (case resolve_inputs (ns_tensor_map st) (kn_inputs n) of
      Inl e \<Rightarrow> NR_error e st
    | Inr ptrs \<Rightarrow>
        (case kn_outputs n of
           [] \<Rightarrow> NR_error ''node has no outputs'' st
         | out_name # _ \<Rightarrow>
             (case bind_output env k n out_name st of
                None \<Rightarrow> NR_throws
              | Some (b, st1) \<Rightarrow>
                  if (case b of B_output i \<Rightarrow> length (ns_outputs st1) \<le> i | _ \<Rightarrow> False) then NR_undefined
                  else (case node_kernel env n (map (load_buffer st1) ptrs) (load_buffer st1 b) of
                          None \<Rightarrow> NR_undefined
                        | Some (Inl e) \<Rightarrow> NR_error e st1
                        | Some (Inr xs) \<Rightarrow> NR_ok (store_buffer b xs st1)))))"

fun exec_nodes :: "native_env \<Rightarrow> CompiledKernel \<Rightarrow> KernelNode list \<Rightarrow> native_state \<Rightarrow> native_run" where
  "exec_nodes env k [] st = NR_ok st"
| "exec_nodes env k (n # ns) st = (case exec_node env k n st of
      NR_ok st1 \<Rightarrow> exec_nodes env k ns st1
    | r \<Rightarrow> r)"

definition bind_inputs :: "CompiledKernel \<Rightarrow> nat \<Rightarrow> (string \<rightharpoonup> buffer)" where
  "bind_inputs k n_inputs =
     fold (\<lambda>i tm. tm(ck_input_names k ! i \<mapsto> B_input i))
       [0..<min (min (length (ck_inputs k)) n_inputs) (length (ck_input_names k))] Map.empty"

definition native_execute ::
  "native_env \<Rightarrow> CompiledKernel \<Rightarrow> float32 list option list \<Rightarrow> float32 list option list \<Rightarrow> native_run" where
  "native_execute env k inputs outputs =
     (let st = \<lparr>ns_inputs = inputs, ns_outputs = outputs, ns_scratch = [], ns_tensor_map = bind_inputs k (length inputs)\<rparr>
      in if \<not> ck_compiled k \<or> ck_graph_nodes k = [] then NR_error ''not compiled or empty graph'' st
         else exec_nodes env k (ck_graph_nodes k) st)"

end
