(* ===== verification/Native_Props.thy ===== *)
theory Native_Props
  imports Native_Backend Quantized_Props
begin

text \<open>
  What the native back end guarantees: the names and descriptors a compilation derives, that a successful run respected the data flow,
  that a graph of elementwise operators computes its reference semantics, and where the sizes of scratch vectors and the fused bias go
  wrong.
\<close>

subsection \<open>Names\<close>

lemma fresh_names_fold:
  "distinct acc \<Longrightarrow>
     distinct (fold (\<lambda>n acc. if n \<in> set ex \<or> n \<in> set acc then acc else acc @ [n]) names acc) \<and>
     set (fold (\<lambda>n acc. if n \<in> set ex \<or> n \<in> set acc then acc else acc @ [n]) names acc) = set acc \<union> (set names - set ex)"
  by (induction names arbitrary: acc) auto

lemma fresh_names_distinct [simp]: "distinct (fresh_names names ex)"
  using fresh_names_fold [of "[]" ex names] by (simp add: fresh_names_def)

lemma fresh_names_set [simp]: "set (fresh_names names ex) = set names - set ex"
  using fresh_names_fold [of "[]" ex names] by (simp add: fresh_names_def)

lemma pad_descs_length [simp]: "length (pad_descs names ds) = max (length ds) (length names)"
  by (simp add: pad_descs_def)

text \<open>
  A compilation names every tensor from outside once, every result nobody consumes once, marks exactly the produced tensors that are
  consumed as reused, and has a descriptor for every name.
\<close>

theorem native_compile_names:
  fixes kg
  defines "k \<equiv> native_compile kg"
  shows "distinct (ck_input_names k) \<and> set (ck_input_names k) = set (consumed_names kg) - set (produced_names kg) \<and>
         distinct (ck_output_names k) \<and> set (ck_output_names k) = set (produced_names kg) - set (consumed_names kg) \<and>
         set (ck_high_reuse_tensors k) = set (produced_names kg) \<inter> set (consumed_names kg) \<and>
         length (ck_input_names k) \<le> length (ck_inputs k) \<and> length (ck_output_names k) \<le> length (ck_outputs k)"
  by (auto simp: k_def native_compile_def Let_def)

lemma native_compile_simps [simp]:
  "ck_input_names (native_compile kg) = fresh_names (consumed_names kg) (produced_names kg)"
  "ck_output_names (native_compile kg) = fresh_names (produced_names kg) (consumed_names kg)"
  "ck_graph_nodes (native_compile kg) = kg_nodes kg"
  "ck_compiled (native_compile kg)"
  "length (ck_inputs (native_compile kg)) = max (length (graph_inputs kg)) (length (fresh_names (consumed_names kg) (produced_names kg)))"
  "length (ck_outputs (native_compile kg)) = max (length (graph_outputs kg)) (length (fresh_names (produced_names kg) (consumed_names kg)))"
  by (simp_all add: native_compile_def Let_def)

subsection \<open>Data flow\<close>

text \<open>Every node reads only names that are known before it; its first output is known after it.\<close>

fun flow_ordered :: "string set \<Rightarrow> KernelNode list \<Rightarrow> bool" where
  "flow_ordered known [] \<longleftrightarrow> True"
| "flow_ordered known (n # ns) \<longleftrightarrow>
     set (kn_inputs n) \<subseteq> known \<and> kn_outputs n \<noteq> [] \<and> flow_ordered (insert (hd (kn_outputs n)) known) ns"

lemma resolve_inputs_Inr:
  "resolve_inputs tm xs = Inr bs \<longleftrightarrow> set xs \<subseteq> dom tm \<and> bs = map (the \<circ> tm) xs"
proof (induction xs arbitrary: bs)
  case (Cons x xs)
  then show ?case
    by (cases "tm x"; cases "resolve_inputs tm xs") (auto simp: domIff)
qed auto

lemma resolve_inputs_Inl:
  "resolve_inputs tm xs = Inl e \<Longrightarrow> \<exists>x \<in> set xs. x \<notin> dom tm \<and> e = ''missing tensor: '' @ x"
  by (induction xs) (auto split: option.splits sum.splits)

lemma bind_output_map:
  "bind_output env k n o' st = Some (b, st1) \<Longrightarrow> ns_tensor_map st1 = (ns_tensor_map st)(o' \<mapsto> b)"
  by (auto simp: bind_output_def Let_def split: option.splits if_splits)

lemma store_buffer_map [simp]: "ns_tensor_map (store_buffer b xs st) = ns_tensor_map st"
  by (simp add: store_buffer_def split: buffer.splits)

lemma exec_node_ok:
  assumes "exec_node env k n st = NR_ok st1"
  shows "set (kn_inputs n) \<subseteq> dom (ns_tensor_map st) \<and> kn_outputs n \<noteq> [] \<and>
         dom (ns_tensor_map st1) = insert (hd (kn_outputs n)) (dom (ns_tensor_map st))"
  using assms
  by (auto simp: exec_node_def resolve_inputs_Inr dest!: bind_output_map split: sum.splits list.splits option.splits prod.splits if_splits)

lemma exec_nodes_flow: "exec_nodes env k ns st = NR_ok st1 \<Longrightarrow> flow_ordered (dom (ns_tensor_map st)) ns"
proof (induction ns arbitrary: st)
  case (Cons n ns)
  then obtain st2 where st2: "exec_node env k n st = NR_ok st2" "exec_nodes env k ns st2 = NR_ok st1"
    by (auto split: native_run.splits)
  show ?case
    using exec_node_ok [OF st2(1)] Cons.IH [OF st2(2)] by simp
qed simp

lemma bind_inputs_dom:
  "dom (bind_inputs k m) = set (take (min (length (ck_inputs k)) m) (ck_input_names k))"
proof -
  have "dom (fold (\<lambda>i tm. tm(ck_input_names k ! i \<mapsto> B_input i)) is tm) = dom tm \<union> (\<lambda>i. ck_input_names k ! i) ` set is" for "is" tm
    by (induction "is" arbitrary: tm) auto
  moreover have "(!) (ck_input_names k) ` {0..<min (min (length (ck_inputs k)) m) (length (ck_input_names k))} =
      set (take (min (length (ck_inputs k)) m) (ck_input_names k))"
    by (subst nth_image) (auto simp: min_def)
  ultimately show ?thesis
    by (simp add: bind_inputs_def)
qed

text \<open>
  A run that succeeds has found its nodes in data-flow order: each reads only tensors from outside and results of nodes before it.
\<close>

theorem native_success_ordered:
  assumes "native_execute env (native_compile kg) inputs outputs = NR_ok st"
  shows "flow_ordered (set (consumed_names kg) - set (produced_names kg)) (kg_nodes kg)"
proof -
  have mono: "flow_ordered A ns \<Longrightarrow> A \<subseteq> B \<Longrightarrow> flow_ordered B ns" for A B ns
  proof (induction ns arbitrary: A B)
    case (Cons n ns)
    then show ?case
      using Cons.IH [of "insert (hd (kn_outputs n)) A" "insert (hd (kn_outputs n)) B"] by auto
  qed simp
  have "flow_ordered (dom (bind_inputs (native_compile kg) (length inputs))) (kg_nodes kg)"
    using assms exec_nodes_flow by (fastforce simp: native_execute_def Let_def split: if_splits)
  moreover have "dom (bind_inputs (native_compile kg) (length inputs)) \<subseteq> set (consumed_names kg) - set (produced_names kg)"
    using set_take_subset [of _ "fresh_names (consumed_names kg) (produced_names kg)"] by (auto simp: bind_inputs_dom)
  ultimately show ?thesis
    by (rule mono)
qed

subsection \<open>Elementwise kernels\<close>

lemma for_each_prefix:
  assumes "\<And>i s. i < n \<Longrightarrow> length s = length out \<Longrightarrow> f i s = Some (s[i := v i])" and "n \<le> length out"
  shows "for_each [0..<n] f out = Some (map v [0..<n] @ drop n out)"
  using assms
proof (induction n)
  case (Suc n)
  have "drop n out = out ! n # drop (Suc n) out"
    using Suc.prems(2) by (simp add: Cons_nth_drop_Suc)
  moreover have "for_each [0..<n] f out = Some (map v [0..<n] @ drop n out)"
    using Suc by simp
  ultimately show ?case
    using Suc.prems by (simp add: for_each_append list_update_append)
qed simp

lemma map_nth_take: "n \<le> length xs \<Longrightarrow> map (\<lambda>i. f (xs ! i)) [0..<n] = map f (take n xs)"
  by (rule nth_equalityI) auto

lemma elementwise_prefix:
  assumes "n \<le> length a" "n \<le> length b" "n \<le> length out"
  shows "elementwise f (Some a) (Some b) (Some out) n = Some (Inr (map2 f (take n a) (take n b) @ drop n out))"
proof -
  have "map (\<lambda>i. f (a ! i) (b ! i)) [0..<n] = map2 f (take n a) (take n b)"
    using assms by (intro nth_equalityI) auto
  moreover have "for_each [0..<n] (\<lambda>i out. do { x \<leftarrow> rd a i; y \<leftarrow> rd b i; upd_at out i (\<lambda>_. f x y) }) out =
      Some (map (\<lambda>i. f (a ! i) (b ! i)) [0..<n] @ drop n out)"
    using assms by (intro for_each_prefix) (auto simp: rd_def upd_at_def)
  ultimately show ?thesis
    by (simp add: elementwise_def)
qed

lemma pointwise_prefix:
  assumes "n \<le> length a" "n \<le> length out"
  shows "pointwise f (Some a) (Some out) n = Some (Inr (map f (take n a) @ drop n out))"
proof -
  have "for_each [0..<n] (\<lambda>i out. do { x \<leftarrow> rd a i; upd_at out i (\<lambda>_. f x) }) out = Some (map (\<lambda>i. f (a ! i)) [0..<n] @ drop n out)"
    using assms by (intro for_each_prefix) (auto simp: rd_def upd_at_def)
  then show ?thesis
    using assms by (simp add: pointwise_def map_nth_take)
qed

lemma kernel_relu_pointwise: "kernel_relu = pointwise relu"
  by (simp add: fun_eq_iff kernel_relu_def pointwise_def)

text \<open>The operators that work element by element, on \<open>N\<close> elements, and what they mean.\<close>

definition elementwise_node :: "nat \<Rightarrow> KernelNode \<Rightarrow> bool" where
  "elementwise_node N n \<longleftrightarrow> int_attrs n = [int N] \<and> (\<exists>o'. kn_outputs n = [o']) \<and>
     (kn_op n \<in> {Op_Add, Op_Mul} \<and> length (kn_inputs n) = 2 \<or>
      kn_op n \<in> {Op_Relu, Op_Sigmoid, Op_Gelu} \<and> length (kn_inputs n) = 1)"

definition node_value :: "libm \<Rightarrow> Op \<Rightarrow> float32 list list \<Rightarrow> float32 list" where
  "node_value lm op vs = (case op of
      Op_Add \<Rightarrow> map2 f_add (vs ! 0) (vs ! 1)
    | Op_Mul \<Rightarrow> map2 f_mul (vs ! 0) (vs ! 1)
    | Op_Relu \<Rightarrow> map relu (vs ! 0)
    | Op_Sigmoid \<Rightarrow> map (sigmoid lm) (vs ! 0)
    | Op_Gelu \<Rightarrow> map (gelu lm) (vs ! 0)
    | _ \<Rightarrow> [])"

definition graph_value :: "libm \<Rightarrow> KernelNode list \<Rightarrow> (string \<Rightarrow> float32 list) \<Rightarrow> string \<Rightarrow> float32 list" where
  "graph_value lm ns \<rho> = fold (\<lambda>n \<rho>. \<rho>(hd (kn_outputs n) := node_value lm (kn_op n) (map \<rho> (kn_inputs n)))) ns \<rho>"

lemma length_2: "length xs = 2 \<longleftrightarrow> (\<exists>a b. xs = [a, b])"
  by (auto simp: length_Suc_conv numeral_2_eq_2)

lemma node_kernel_elementwise:
  assumes "elementwise_node N n" "N < 2 ^ 64" "length xss = length (kn_inputs n)" "\<And>xs. xs \<in> set xss \<Longrightarrow> N \<le> length xs" "N \<le> length out"
  shows "node_kernel env n (map Some xss) (Some out) =
           Some (Inr (node_value (ne_libm env) (kn_op n) (map (take N) xss) @ drop N out))"
proof -
  have at: "int_attr n 0 d = N" for d
    using assms(1,2) by (simp add: int_attr_def elementwise_node_def to_size_def)
  consider a b where "xss = [a, b]" "kn_op n \<in> {Op_Add, Op_Mul}" | a where "xss = [a]" "kn_op n \<in> {Op_Relu, Op_Sigmoid, Op_Gelu}"
    using assms(1,3) by (auto simp: elementwise_node_def length_2 length_Suc_conv)
  then show ?thesis
    using assms(4,5)
    by cases (auto simp: node_kernel_def node_value_def binary_kernel_def rd_def at kernel_add_def kernel_mul_def kernel_relu_pointwise
      kernel_sigmoid_def kernel_gelu_def elementwise_prefix pointwise_prefix)
qed

subsection \<open>Elementwise graphs\<close>

text \<open>
  A state of a run represents values of the named tensors: behind each bound name stands an array that begins with its value.  A scratch
  vector has one name, an output buffer the name of its output, so a write changes one tensor.
\<close>

definition array_holds :: "nat \<Rightarrow> native_state \<Rightarrow> buffer \<Rightarrow> float32 list \<Rightarrow> bool" where
  "array_holds N st b v \<longleftrightarrow> (\<exists>xs. load_buffer st b = Some xs \<and> N \<le> length xs \<and> take N xs = v)"

definition owned :: "CompiledKernel \<Rightarrow> native_state \<Rightarrow> string \<Rightarrow> buffer \<Rightarrow> bool" where
  "owned k st a b = (case b of
      B_input i \<Rightarrow> graph_output k a = None
    | B_output i \<Rightarrow> graph_output k a = Some i
    | B_scratch j \<Rightarrow> graph_output k a = None \<and> j < length (ns_scratch st) \<and> (\<forall>a'. ns_tensor_map st a' = Some b \<longrightarrow> a' = a))"

definition represents :: "nat \<Rightarrow> CompiledKernel \<Rightarrow> (string \<Rightarrow> float32 list) \<Rightarrow> native_state \<Rightarrow> bool" where
  "represents N k \<rho> st \<longleftrightarrow>
     (\<forall>a b. ns_tensor_map st a = Some b \<longrightarrow> array_holds N st b (\<rho> a) \<and> owned k st a b) \<and>
     length (ck_outputs k) \<le> length (ns_outputs st) \<and>
     (\<forall>i < length (ck_outputs k). \<exists>ys. ns_outputs st ! i = Some ys \<and> N \<le> length ys)"

lemma graph_output_SomeD: "graph_output k a = Some i \<Longrightarrow> i < length (ck_outputs k) \<and> i < length (ck_output_names k) \<and> ck_output_names k ! i = a"
  using find_first_SomeD [of "\<lambda>n. n = a" "take (length (ck_outputs k)) (ck_output_names k)" i] by (auto simp: graph_output_def)

lemma representsD:
  "represents N k \<rho> st \<Longrightarrow> ns_tensor_map st a = Some b \<Longrightarrow> array_holds N st b (\<rho> a)"
  "represents N k \<rho> st \<Longrightarrow> ns_tensor_map st a = Some b \<Longrightarrow> owned k st a b"
  by (auto simp: represents_def)

lemma owned_mono:
  assumes "owned k st a c" "ns_tensor_map st1 = (ns_tensor_map st)(o' \<mapsto> b)" "c \<noteq> b" "length (ns_scratch st) \<le> length (ns_scratch st1)"
  shows "owned k st1 a c"
proof (cases c)
  case (B_scratch j)
  have "a' = a" if "ns_tensor_map st1 a' = Some c" for a'
    using that assms(1-3) B_scratch by (cases "a' = o'") (auto simp: owned_def)
  then show ?thesis
    using assms(1,4) B_scratch by (simp add: owned_def)
qed (use assms(1) in \<open>simp_all add: owned_def\<close>)

text \<open>After the output of a node is bound, its buffer has room and no other name leads to it.\<close>

lemma bind_output_represents:
  assumes rep: "represents N k \<rho> st" and "0 < N" "int_attr n 0 4 = N" "ne_can_alloc env N"
  obtains b st1 ys where "bind_output env k n o' st = Some (b, st1)" "load_buffer st1 b = Some ys" "N \<le> length ys"
    "ns_tensor_map st1 = (ns_tensor_map st)(o' \<mapsto> b)" "\<And>a c. ns_tensor_map st a = Some c \<Longrightarrow> load_buffer st1 c = load_buffer st c"
    "\<And>a. a \<noteq> o' \<Longrightarrow> ns_tensor_map st a \<noteq> Some b" "owned k st1 o' b"
    "\<And>a c. a \<noteq> o' \<Longrightarrow> ns_tensor_map st a = Some c \<Longrightarrow> owned k st1 a c" "ns_outputs st1 = ns_outputs st"
    "(case b of B_input i \<Rightarrow> False | B_output i \<Rightarrow> i < length (ck_outputs k) | B_scratch j \<Rightarrow> j < length (ns_scratch st1))"
proof (cases "graph_output k o'")
  case (Some i)
  let ?st1 = "st\<lparr>ns_tensor_map := (ns_tensor_map st)(o' \<mapsto> B_output i)\<rparr>"
  note i = graph_output_SomeD [OF Some]
  obtain ys where ys: "ns_outputs st ! i = Some ys" "N \<le> length ys"
    using rep i by (auto simp: represents_def)
  have ld: "load_buffer ?st1 c = load_buffer st c" for c
    by (simp add: load_buffer_def split: buffer.splits)
  have new: "ns_tensor_map st a \<noteq> Some (B_output i)" if "a \<noteq> o'" for a
  proof
    assume "ns_tensor_map st a = Some (B_output i)"
    then have "graph_output k a = Some i"
      using representsD(2) [OF rep] by (fastforce simp: owned_def)
    then show False
      using graph_output_SomeD [of k a i] i that by simp
  qed
  have old: "owned k ?st1 a c" if "a \<noteq> o'" "ns_tensor_map st a = Some c" for a c
    using new [OF that(1)] that(2) by (intro owned_mono [OF representsD(2) [OF rep that(2)], where o' = o' and b = "B_output i"]) auto
  have b: "bind_output env k n o' st = Some (B_output i, ?st1)" "load_buffer ?st1 (B_output i) = Some ys" "owned k ?st1 o' (B_output i)"
    using Some ys by (simp_all add: bind_output_def load_buffer_def owned_def)
  show thesis
    by (rule that [OF b(1,2) ys(2) _ ld new b(3) old]) (simp_all add: i)
next
  case None
  let ?b = "B_scratch (length (ns_scratch st))"
  let ?st1 = "st\<lparr>ns_scratch := ns_scratch st @ [replicate N (F_Fin 0)], ns_tensor_map := (ns_tensor_map st)(o' \<mapsto> ?b)\<rparr>"
  have new: "ns_tensor_map st a \<noteq> Some ?b" for a
    using representsD(2) [OF rep, of a ?b] by (auto simp: owned_def)
  have same: "load_buffer ?st1 c = load_buffer st c" if "ns_tensor_map st a = Some c" for a c
    using representsD(2) [OF rep that] by (auto simp: owned_def load_buffer_def nth_append split: buffer.splits)
  have old: "owned k ?st1 a c" if "a \<noteq> o'" "ns_tensor_map st a = Some c" for a c
    using new [of a] that(2) by (intro owned_mono [OF representsD(2) [OF rep that(2)], where o' = o' and b = ?b]) auto
  have own: "owned k ?st1 o' ?b"
    using new None by (simp add: owned_def)
  have b: "bind_output env k n o' st = Some (?b, ?st1)" "load_buffer ?st1 ?b = Some (replicate N (F_Fin 0))"
    using None assms(2-4) by (simp_all add: bind_output_def load_buffer_def Let_def)
  show thesis
    by (rule that [OF b _ _ same new own old]) simp_all
qed

lemma store_buffer_load:
  "(case b of B_input i \<Rightarrow> False | B_output i \<Rightarrow> i < length (ns_outputs st) | B_scratch j \<Rightarrow> j < length (ns_scratch st)) \<Longrightarrow>
   xs \<noteq> [] \<Longrightarrow> load_buffer (store_buffer b xs st) c = (if c = b then Some xs else load_buffer st c)"
  by (cases b; cases c) (auto simp: load_buffer_def store_buffer_def nth_list_update)

lemma store_buffer_owned [simp]: "owned k (store_buffer b xs st) a c = owned k st a c"
  by (simp add: owned_def store_buffer_def split: buffer.splits)

lemma outputs_upd:
  "\<forall>i < m. \<exists>ys. outs ! i = Some ys \<and> N \<le> length ys \<Longrightarrow> m \<le> length outs \<Longrightarrow> N \<le> length zs \<Longrightarrow>
   \<forall>i < m. \<exists>ys. outs[j := Some zs] ! i = Some ys \<and> N \<le> length ys"
  by (metis nth_list_update_eq nth_list_update_neq order_less_le_trans)

lemma exec_node_represents:
  assumes rep: "represents N k \<rho> st" and N: "0 < N" "N < 2 ^ 64" "ne_can_alloc env N" and nd: "elementwise_node N n"
    and inp: "set (kn_inputs n) \<subseteq> dom (ns_tensor_map st)"
  obtains st1 where "exec_node env k n st = NR_ok st1"
    "represents N k (\<rho>(hd (kn_outputs n) := node_value (ne_libm env) (kn_op n) (map \<rho> (kn_inputs n)))) st1"
    "dom (ns_tensor_map st1) = insert (hd (kn_outputs n)) (dom (ns_tensor_map st))"
proof -
  obtain o' where o': "kn_outputs n = [o']"
    using nd by (auto simp: elementwise_node_def)
  have at: "int_attr n 0 4 = N"
    using nd N by (simp add: int_attr_def elementwise_node_def to_size_def)
  obtain b st1 ys where b: "bind_output env k n o' st = Some (b, st1)" "load_buffer st1 b = Some ys" "N \<le> length ys"
      "ns_tensor_map st1 = (ns_tensor_map st)(o' \<mapsto> b)" "\<And>a c. ns_tensor_map st a = Some c \<Longrightarrow> load_buffer st1 c = load_buffer st c"
      "\<And>a. a \<noteq> o' \<Longrightarrow> ns_tensor_map st a \<noteq> Some b" "owned k st1 o' b"
      "\<And>a c. a \<noteq> o' \<Longrightarrow> ns_tensor_map st a = Some c \<Longrightarrow> owned k st1 a c" "ns_outputs st1 = ns_outputs st"
      "(case b of B_input i \<Rightarrow> False | B_output i \<Rightarrow> i < length (ck_outputs k) | B_scratch j \<Rightarrow> j < length (ns_scratch st1))"
    using bind_output_represents [OF rep N(1) at N(3)] by blast
  define arr where "arr a = the (load_buffer st (the (ns_tensor_map st a)))" for a
  have arr: "load_buffer st1 (the (ns_tensor_map st a)) = Some (arr a) \<and> N \<le> length (arr a) \<and> take N (arr a) = \<rho> a"
    if a: "a \<in> set (kn_inputs n)" for a
  proof -
    obtain c where c: "ns_tensor_map st a = Some c"
      using a inp by blast
    then show ?thesis
      using representsD(1) [OF rep c] b(5) [OF c] by (auto simp: arr_def array_holds_def)
  qed
  define v where "v = node_value (ne_libm env) (kn_op n) (map \<rho> (kn_inputs n))"
  have load: "map (load_buffer st1) (map (the \<circ> ns_tensor_map st) (kn_inputs n)) = map Some (map arr (kn_inputs n))"
    using arr by simp
  have val: "map (take N) (map arr (kn_inputs n)) = map \<rho> (kn_inputs n)"
    using arr by simp
  have ker: "node_kernel env n (map Some (map arr (kn_inputs n))) (Some ys) = Some (Inr (v @ drop N ys))"
    unfolding v_def val [symmetric] using arr b(3) by (intro node_kernel_elementwise [OF nd N(2)]) auto
  have "length (\<rho> a) = N" if "a \<in> set (kn_inputs n)" for a
    using arr [OF that] by (metis length_take min.absorb2)
  then have lv: "length v = N"
    using nd by (auto simp: v_def node_value_def elementwise_node_def length_2 length_Suc_conv)
  have room: "\<not> (case b of B_output i \<Rightarrow> length (ns_outputs st1) \<le> i | _ \<Rightarrow> False)"
      "(case b of B_input i \<Rightarrow> False | B_output i \<Rightarrow> i < length (ns_outputs st1) | B_scratch j \<Rightarrow> j < length (ns_scratch st1))"
    using b(9,10) rep by (auto simp: represents_def split: buffer.splits)
  have res: "resolve_inputs (ns_tensor_map st) (kn_inputs n) = Inr (map (the \<circ> ns_tensor_map st) (kn_inputs n))"
    using inp by (simp add: resolve_inputs_Inr)
  let ?st2 = "store_buffer b (v @ drop N ys) st1"
  have run: "exec_node env k n st = NR_ok ?st2"
    unfolding exec_node_def res o' by (simp add: b(1,2) room(1) load ker del: map_map comp_apply)
  have ld: "load_buffer ?st2 c = (if c = b then Some (v @ drop N ys) else load_buffer st1 c)" for c
    using lv N(1) by (intro store_buffer_load [OF room(2)]) auto
  have outs: "length (ns_outputs ?st2) = length (ns_outputs st)"
      "\<forall>i < length (ck_outputs k). \<exists>ys. ns_outputs ?st2 ! i = Some ys \<and> N \<le> length ys"
    using rep b(9) lv outputs_upd [of "length (ck_outputs k)" "ns_outputs st" N "v @ drop N ys"]
    by (cases b; simp add: store_buffer_def represents_def)+
  have "represents N k (\<rho>(o' := v)) ?st2"
    unfolding represents_def
  proof (intro conjI allI impI)
    fix a c
    assume "ns_tensor_map ?st2 a = Some c"
    then have c: "((ns_tensor_map st)(o' \<mapsto> b)) a = Some c"
      by (simp add: b(4))
    show "array_holds N ?st2 c ((\<rho>(o' := v)) a)"
    proof (cases "a = o'")
      case True
      then show ?thesis
        using c lv ld [of b] by (auto simp: array_holds_def)
    next
      case False
      then show ?thesis
        using c representsD(1) [OF rep, of a c] b(5) [of a c] b(6) [of a] by (auto simp: array_holds_def ld)
    qed
    show "owned k ?st2 a c"
      using c b(7) b(8) [of a c] by (cases "a = o'") auto
  qed (use outs rep in \<open>auto simp: represents_def\<close>)
  then show thesis
    using that [OF run] o' by (simp add: v_def b(4))
qed

lemma exec_nodes_represents:
  assumes "0 < N" "N < 2 ^ 64" "ne_can_alloc env N" "\<And>n. n \<in> set ns \<Longrightarrow> elementwise_node N n"
    "represents N k \<rho> st" "flow_ordered (dom (ns_tensor_map st)) ns"
  shows "\<exists>st1. exec_nodes env k ns st = NR_ok st1 \<and> represents N k (graph_value (ne_libm env) ns \<rho>) st1 \<and>
           (\<lambda>n. hd (kn_outputs n)) ` set ns \<subseteq> dom (ns_tensor_map st1) \<and> dom (ns_tensor_map st) \<subseteq> dom (ns_tensor_map st1)"
  using assms(4-6)
proof (induction ns arbitrary: \<rho> st)
  case (Cons n ns)
  obtain st1 where st1: "exec_node env k n st = NR_ok st1"
      "represents N k (\<rho>(hd (kn_outputs n) := node_value (ne_libm env) (kn_op n) (map \<rho> (kn_inputs n)))) st1"
      "dom (ns_tensor_map st1) = insert (hd (kn_outputs n)) (dom (ns_tensor_map st))"
    using exec_node_represents [OF Cons.prems(2) assms(1-3)] Cons.prems(1,3) by (metis flow_ordered.simps(2) list.set_intros(1))
  then show ?case
    using Cons.IH [OF _ st1(2)] Cons.prems(1,3) by (fastforce simp: graph_value_def)
qed (simp add: graph_value_def)

lemma bind_inputs_at:
  assumes "distinct (ck_input_names k)"
  shows "bind_inputs k m a = Some b \<longleftrightarrow>
    (\<exists>i. b = B_input i \<and> i < length (ck_inputs k) \<and> i < m \<and> i < length (ck_input_names k) \<and> ck_input_names k ! i = a)"
proof -
  have "fold (\<lambda>i tm. tm(ck_input_names k ! i \<mapsto> B_input i)) [0..<l] Map.empty a = Some b \<longleftrightarrow>
      (\<exists>i < l. b = B_input i \<and> ck_input_names k ! i = a)" if "l \<le> length (ck_input_names k)" for l
    using that assms by (induction l) (auto simp: less_Suc_eq nth_eq_iff_index_eq)
  from this [of "min (min (length (ck_inputs k)) m) (length (ck_input_names k))"] show ?thesis
    by (auto simp: bind_inputs_def)
qed

lemma graph_output_compile:
  "graph_output (native_compile kg) a = None \<longleftrightarrow> a \<notin> set (produced_names kg) - set (consumed_names kg)"
  by (auto simp: graph_output_def find_first_None)

text \<open>C25.
  On a graph of elementwise operators over \<open>N\<close> elements, listed in data-flow order, the compiled kernel runs to its end, and every
  output buffer begins with the value that the reference semantics of the graph gives to its name.
\<close>

theorem elementwise_graph_computes:
  assumes N: "0 < N" "N < 2 ^ 64" "ne_can_alloc env N"
    and nodes: "kg_nodes kg \<noteq> []" "\<forall>n \<in> set (kg_nodes kg). elementwise_node N n"
      "flow_ordered (set (consumed_names kg) - set (produced_names kg)) (kg_nodes kg)"
    and ins: "length (ck_inputs (native_compile kg)) \<le> length inputs"
      "\<forall>i < length (ck_input_names (native_compile kg)). \<exists>xs. inputs ! i = Some xs \<and> N \<le> length xs \<and>
         \<rho> (ck_input_names (native_compile kg) ! i) = take N xs"
    and outs: "length outputs = length (ck_outputs (native_compile kg))" "\<forall>out \<in> set outputs. \<exists>ys. out = Some ys \<and> N \<le> length ys"
  shows "\<exists>st. native_execute env (native_compile kg) inputs outputs = NR_ok st \<and>
    (\<forall>i < length (ck_output_names (native_compile kg)). \<exists>ys. ns_outputs st ! i = Some ys \<and>
       take N ys = graph_value (ne_libm env) (kg_nodes kg) \<rho> (ck_output_names (native_compile kg) ! i))"
proof -
  let ?k = "native_compile kg"
  let ?st = "\<lparr>ns_inputs = inputs, ns_outputs = outputs, ns_scratch = [], ns_tensor_map = bind_inputs ?k (length inputs)\<rparr>"
  have dist: "distinct (ck_input_names ?k)" "distinct (ck_output_names ?k)"
    by simp_all
  have "dom (ns_tensor_map ?st) = set (consumed_names kg) - set (produced_names kg)"
    using ins(1) by (simp add: bind_inputs_dom min_def)
  then have flow: "flow_ordered (dom (ns_tensor_map ?st)) (kg_nodes kg)"
    using nodes(3) by simp
  have "represents N ?k \<rho> ?st"
    unfolding represents_def
  proof (intro conjI allI impI)
    fix a b
    assume "ns_tensor_map ?st a = Some b"
    then obtain i where i: "b = B_input i" "i < length (ck_input_names ?k)" "ck_input_names ?k ! i = a"
      using bind_inputs_at [OF dist(1)] by auto
    then have "a \<in> set (consumed_names kg) - set (produced_names kg)"
      using nth_mem [OF i(2)] by simp
    then show "owned ?k ?st a b"
      using i graph_output_compile [of kg a] by (simp add: owned_def)
    show "array_holds N ?st b (\<rho> a)"
      using ins(2) i by (auto simp: array_holds_def load_buffer_def)
  qed (use outs nth_mem in \<open>fastforce+\<close>)
  then obtain st1 where st1: "exec_nodes env ?k (kg_nodes kg) ?st = NR_ok st1"
      "represents N ?k (graph_value (ne_libm env) (kg_nodes kg) \<rho>) st1"
      "(\<lambda>n. hd (kn_outputs n)) ` set (kg_nodes kg) \<subseteq> dom (ns_tensor_map st1)"
    using exec_nodes_represents [OF N _ _ flow] nodes(2) by blast
  have "\<exists>ys. ns_outputs st1 ! i = Some ys \<and> take N ys = graph_value (ne_libm env) (kg_nodes kg) \<rho> (ck_output_names ?k ! i)"
    if i: "i < length (ck_output_names ?k)" for i
  proof -
    let ?a = "ck_output_names ?k ! i"
    have a: "?a \<in> set (produced_names kg) - set (consumed_names kg)"
      using nth_mem [OF i] by simp
    then obtain n where n: "n \<in> set (kg_nodes kg)" "?a = hd (kn_outputs n)"
      using nodes(2) by (auto simp: produced_names_def elementwise_node_def)
    then obtain b where b: "ns_tensor_map st1 ?a = Some b"
      using st1(3) by (metis (mono_tags, lifting) domD image_eqI subsetD)
    obtain j where j: "graph_output ?k ?a = Some j"
      using a graph_output_compile [of kg ?a] by fastforce
    then have "j = i"
      using graph_output_SomeD [OF j] dist(2) i nth_eq_iff_index_eq by blast
    then have "b = B_output i"
      using representsD(2) [OF st1(2) b] j by (cases b) (auto simp: owned_def)
    then show ?thesis
      using representsD(1) [OF st1(2) b] by (auto simp: array_holds_def load_buffer_def)
  qed
  then show ?thesis
    using st1(1) nodes(1) by (simp add: native_execute_def Let_def)
qed

text \<open>The rectified \<open>x * y + x\<close> on two elements.\<close>

definition demo_kernel_node :: "Op \<Rightarrow> string list \<Rightarrow> string \<Rightarrow> KernelNode" where
  "demo_kernel_node op ins o' = \<lparr>kn_op = op, kn_name = [], kn_inputs = ins, kn_outputs = [o'], float_attrs = [], int_attrs = [2],
     kn_quant_profile = \<lparr>qp_method = QM_None, activation_bits = 32, weight_bits = 32, act_granularity = PerTensor,
       weight_granularity = PerTensor\<rparr>\<rparr>"

definition demo_kernel_graph :: KernelGraph where
  "demo_kernel_graph = \<lparr>kg_nodes = [demo_kernel_node Op_Mul [''x'', ''y''] ''p'', demo_kernel_node Op_Add [''p'', ''x''] ''s'',
     demo_kernel_node Op_Relu [''s''] ''r''], graph_inputs = [], graph_outputs = []\<rparr>"

definition demo_native_env :: native_env where
  "demo_native_env = \<lparr>ne_libm = \<lparr>lm_exp = (\<lambda>x. x), lm_tanh = (\<lambda>x. x), lm_sqrt = (\<lambda>x. x)\<rparr>, ne_bytes = (\<lambda>xs. []),
     ne_can_alloc = (\<lambda>n. n < 1000)\<rparr>"

definition demo_tensors :: "string \<Rightarrow> float32 list" where
  "demo_tensors a = (if a = ''x'' then [F_Fin 1, F_Fin (- 2)] else [F_Fin 3, F_Fin 4])"

lemma demo_compiled:
  "ck_input_names (native_compile demo_kernel_graph) = [''x'', ''y'']" "ck_output_names (native_compile demo_kernel_graph) = [''r'']"
  "length (ck_inputs (native_compile demo_kernel_graph)) = 2" "length (ck_outputs (native_compile demo_kernel_graph)) = 1"
  by (simp_all add: demo_kernel_graph_def demo_kernel_node_def fresh_names_def consumed_names_def produced_names_def)

lemma demo_value:
  "graph_value (ne_libm demo_native_env) (kg_nodes demo_kernel_graph) demo_tensors ''r'' = [F_Fin 4, F_Fin 0]"
  by code_simp

theorem elementwise_graph_computes_witness:
  "\<exists>st ys. native_execute demo_native_env (native_compile demo_kernel_graph) [Some (demo_tensors ''x''), Some (demo_tensors ''y'')]
       [Some [F_Fin 9, F_Fin 9]] = NR_ok st \<and> ns_outputs st ! 0 = Some ys \<and> take 2 ys = [F_Fin 4, F_Fin 0]"
proof -
  have "\<exists>st. native_execute demo_native_env (native_compile demo_kernel_graph) [Some (demo_tensors ''x''), Some (demo_tensors ''y'')]
       [Some [F_Fin 9, F_Fin 9]] = NR_ok st \<and>
    (\<forall>i < length (ck_output_names (native_compile demo_kernel_graph)). \<exists>ys. ns_outputs st ! i = Some ys \<and>
       take 2 ys = graph_value (ne_libm demo_native_env) (kg_nodes demo_kernel_graph) demo_tensors
         (ck_output_names (native_compile demo_kernel_graph) ! i))"
  proof (rule elementwise_graph_computes)
    show "flow_ordered (set (consumed_names demo_kernel_graph) - set (produced_names demo_kernel_graph)) (kg_nodes demo_kernel_graph)"
      by (simp add: demo_kernel_graph_def demo_kernel_node_def consumed_names_def produced_names_def)
    show "\<forall>n \<in> set (kg_nodes demo_kernel_graph). elementwise_node 2 n"
      by (simp add: demo_kernel_graph_def demo_kernel_node_def elementwise_node_def)
    show "kg_nodes demo_kernel_graph \<noteq> []"
      by (simp add: demo_kernel_graph_def)
  qed (auto simp: demo_compiled less_2_cases_iff less_Suc_eq demo_tensors_def demo_native_env_def simp del: native_compile_simps)
  then show ?thesis
    using demo_value by (auto simp: demo_compiled simp del: native_compile_simps)
qed

subsection \<open>Sizes of results\<close>

lemma for_each_fails:
  assumes "\<And>y s s'. length s = l \<Longrightarrow> f y s = Some s' \<Longrightarrow> length s' = l" "\<And>s. length s = l \<Longrightarrow> f x s = None"
    "x \<in> set xs" "length s = l"
  shows "for_each xs f s = None"
  using assms(3,4)
proof (induction xs arbitrary: s)
  case (Cons y xs)
  then show ?case
    using assms(1,2) by (cases "x = y"; cases "f y s") auto
qed simp

lemma kernel_matmul_overflow:
  assumes "0 < M" "0 < N" "0 < K" "length C < M * N"
  shows "kernel_matmul ar (Some A) (Some B) (Some C) M N K = None"
proof -
  have "(M - 1, N - 1) \<in> set (List.product [0..<M] [0..<N])"
    using assms by simp
  moreover have "\<not> (M - 1) * N + (N - 1) < length C"
    using assms by (cases M; cases N) auto
  ultimately have "for_each (List.product [0..<M] [0..<N])
      (\<lambda>(m, n) C. do { v \<leftarrow> matmul_cell ar A B N K m n; upd_at C (m * N + n) (\<lambda>_. v) }) C = None"
    by (intro for_each_fails [where l = "length C" and x = "(M - 1, N - 1)"])
      (auto simp: upd_at_def split: Option.bind_splits if_splits)
  then show ?thesis
    using assms(1-3) by (simp add: kernel_matmul_def)
qed

text \<open>
  The scratch vector of a product that another node consumes has as many elements as the product has rows: with two columns or more
  the product is written behind its end.
\<close>

theorem matmul_scratch_overflow:
  assumes "kn_op n = Op_MatMul" "\<not> is_low_precision n" "int_attrs n = [int M, int N, int K]" "0 < M" "2 \<le> N" "0 < K"
    "M < 2 ^ 64" "N < 2 ^ 64" "K < 2 ^ 64"
    "kn_outputs n = o' # os" "graph_output k o' = None" "ne_can_alloc env M"
    "kn_inputs n = [a, b]" "ns_tensor_map st a = Some (B_input i)" "ns_tensor_map st b = Some (B_input j)"
    "ns_inputs st ! i = Some A" "ns_inputs st ! j = Some B"
  shows "exec_node env k n st = NR_undefined"
proof -
  have at: "int_attr n 0 d = M" "int_attr n (Suc 0) d = N" "int_attr n 2 d = K" for d
    using assms(3,7-9) by (simp_all add: int_attr_def to_size_def)
  have "M < M * N"
    using assms(4,5) by (cases N) auto
  then have "kernel_matmul float_arith (Some A) (Some B) (Some (replicate M (F_Fin 0))) M N K = None"
    using assms(4-6) by (intro kernel_matmul_overflow) auto
  moreover have "replicate M (F_Fin 0) \<noteq> []"
    using assms(4) by simp
  ultimately show ?thesis
    using assms by (simp add: exec_node_def bind_output_def Let_def load_buffer_def node_kernel_def rd_def at)
qed

text \<open>
  The fused operator adds its bias to the first row of the product only; the other rows are rectified without it.
\<close>

theorem fused_bias_first_row:
  assumes "kernel_matmul float_arith (Some A) (Some B) out (int_attr n 0 1) (int_attr n 1 1) (int_attr n 2 1) = Some (Inr C)"
    "float_attrs n \<noteq> []" "int_attr n 1 1 \<le> length (float_attrs n)" "length C = int_attr n 0 1 * int_attr n 1 1" "0 < int_attr n 0 1"
  shows "fused_kernel n [Some A, Some B] out =
    Some (Inr (map relu (map2 f_add (take (int_attr n 1 1) C) (map f_of_bits (take (int_attr n 1 1) (float_attrs n))) @
                         drop (int_attr n 1 1) C)))"
proof -
  have "int_attr n 1 1 \<le> length C"
    using assms(4,5) by (cases "int_attr n 0 1") auto
  then show ?thesis
    using assms by (simp add: fused_kernel_def rd_def kernel_add_def elementwise_prefix kernel_relu_pointwise pointwise_prefix take_map Let_def)
qed

end
