(* ===== verification/Spec2Isabelle.thy ===== *)
theory Spec2Isabelle
  imports Maintenance_Store Tiered_Props User_Lockout Jwt_Props Command_Props Gguf_Props
    Decision_Props Predictor Execution_Props Watchdog_Props Health_Props Cluster_Props
    Gateway_Props Clip_Props Server_Props Slipstream_Props Staging_Pool Quantized_Props Glow_Props Metro
    Npu_Props Native_Props
begin

text \<open>
  Verification of the core of Cerberus, a C++ inference runtime for consumer hardware.

  \<^bold>\<open>The program.\<close>  A command text or an API call reaches the runtime, is parsed
  (\<^verbatim>\<open>cerberus_command_parser\<close>), authenticated by a session token (\<^verbatim>\<open>cerberus_jwt_session\<close>) and, for
  the operations that need a person, by a PIN and a memorable word (\<^verbatim>\<open>cerberus_user_security\<close>).  A
  model file is read by the GGUF parser (\<^verbatim>\<open>cerberus_gguf_parser\<close>), its operators become a graph that
  is sorted and rewritten (\<^verbatim>\<open>cerberus_graph_engine\<close>); the decision engine
  (\<^verbatim>\<open>cerberus_decision_engine\<close>) turns the graph into an execution plan, and the predictor
  (\<^verbatim>\<open>cerberus_predictor\<close>) remembers plans that were executed.  Tensors live in the four-tier memory
  manager (\<^verbatim>\<open>tiered_memory_manager\<close>), and the execution coordinator
  (\<^verbatim>\<open>cerberus_execution_coordinator\<close>) stages them there for a back end.  While a model runs, the watchdog
  (\<^verbatim>\<open>utilization_watchdog\<close>) recovers stalled devices and the health score (\<^verbatim>\<open>health_score\<close>) grades the
  pipeline; the cluster transport (\<^verbatim>\<open>cluster_transport\<close>) uses that score to pick a worker node.  Prompts become tokens
  in the CLIP tokenizer (\<^verbatim>\<open>clip_tokenizer\<close>).  Two front ends serve other programs: the binary API gateway
  (\<^verbatim>\<open>cerberus_api_gateway\<close>) and the HTTP inference server (\<^verbatim>\<open>inference_server\<close>); both reach the inference history in
  the maintenance database behind the PIN and the word.  History, policies, licences and the offline queue live in the
  local maintenance database (\<^verbatim>\<open>cerberus_local_maintenance_db\<close>), which is written to an encrypted
  file.  Beside them run a message bus of worker threads (\<^verbatim>\<open>cerberus_slipstream\<close>), the pool of staging buffers
  (\<^verbatim>\<open>staging_manager\<close>), the recorder of hot paths (\<^verbatim>\<open>cerberus_glow_engine\<close>), the monitoring station (\<^verbatim>\<open>cerberus_metro\<close>) and the CPU
  kernels.  All paths below are under \<^verbatim>\<open>src/code\<close>.

  \<^bold>\<open>The library underneath.\<close>  \<open>Prelude\<close> names the widths (\<open>byte\<close>, \<open>u32\<close>, \<open>u64\<close>) and relates
  byte sequences with strings.  \<open>Std_Map\<close> is \<^verbatim>\<open>std::map\<close> as a list sorted by key; the locale
  \<open>ordered_map\<close> states its interface and \<open>smap\<close> interprets it.  \<open>Std_String\<close> is the part of the C++
  string library that is used: \<^verbatim>\<open>find\<close>, \<^verbatim>\<open>substr\<close>, trimming, tokenising, \<^verbatim>\<open>to_string\<close>, \<^verbatim>\<open>stoi\<close>.
  \<open>Float32\<close> is single-precision arithmetic on rationals, infinities and not-a-number, rounded once per
  operation.

  \<^bold>\<open>Maintenance database\<close> (\<^verbatim>\<open>src/cerberus_local_maintenance_db.cpp\<close> and its header).
  \<^item> \<open>Maintenance_Records\<close>: one \<open>record\<close> per persisted structure with its \<^verbatim>\<open>to_map\<close> and
    \<^verbatim>\<open>from_map\<close>; the locale \<open>map_codec\<close> is the contract of such a pair.
  \<^item> \<open>Maintenance_DB\<close>: the object (\<open>MaintenanceDB\<close>, one field per member) and one definition per operation, with
    its guards, its dirty flag and its offline queueing.  An operation returns its result beside the
    new state; \<^verbatim>\<open>false\<close> results are values.  Every call holds the mutex, so a call is one step.
  \<^item> \<open>Maintenance_Ops\<close>: histories of calls.  Tables stay ordered maps (\<open>run_ops_wf\<close>), a refused write
    changes nothing (\<open>failed_op_no_effect\<close>), which writes queue a record (\<open>sync_queue_contract\<close>); what a replay of
    the queue does, record by record (C4), and that it drains it when the server accepts (\<open>replay_drains\<close>).
  \<^item> \<open>Maintenance_Laws\<close>: what readers see.  The locale \<open>record_store\<close> is the contract of a table of
    structures.  Outside the numbered list: the three-strikes counter, queries, store and
    load, the inference history, soft delete, licences and the project list.
  \<^item> \<open>Maintenance_Store\<close>: the byte format (locale \<open>stream_codec\<close>), the encrypted file and the life
    cycle.  What a session wrote is there in the next one (C1), shutdown and reopen give the same
    database (C13), a key that does not open the file leaves database and file alone (C14); two
    defects: burns are not durable (\<open>burn_not_durable\<close>) and six tables survive a shutdown (\<open>shutdown_leaks_tables\<close>).

  \<^bold>\<open>Tiered memory\<close> (\<^verbatim>\<open>src/tiered_memory_manager.cpp\<close> and its header).
  \<^item> \<open>Tiered_Memory\<close>: the object \<open>Tmm\<close> (registry, LRU lists, byte counters, memory resources) together
    with the heap and the spill files its pointers and paths refer to; every operation of the class.
  \<^item> \<open>Tiered_Laws\<close>, \<open>Tiered_Migration\<close>: the invariant that ties these parts together, and that each
    operation keeps it.
  \<^item> \<open>Tiered_Props\<close>: every history, evictions and resets included, keeps the invariant and the capacities (C17), free undoes allocate
    (\<open>allocate_free_restores\<close>), migration keeps the data (C20), eviction ends (C21); defects: migrated blocks leave the LRU
    lists (\<open>migration_leaves_lru\<close>), eviction of the coldest tier diverges (\<open>pressure_evict_cold_diverges\<close>), data that went to the coldest tier is
    lost (\<open>cold_round_trip_loses_data\<close>), sizes near \<open>2 ^ 64\<close> wrap to empty blocks (\<open>allocate_wraps\<close>).

  \<^bold>\<open>Execution coordinator\<close> (\<^verbatim>\<open>src/cerberus_execution_coordinator.cpp\<close>).  \<open>Execution_Coordinator\<close> is the whole run
  on top of the memory manager; \<open>Execution_Props\<close> shows that it gives back what it allocates on every path,
  changes only the output buffers and returns what the back end computed (C10).  The locale
  \<open>scoped_resource\<close> is the contract of the scope guard.

  \<^bold>\<open>User security\<close> (\<^verbatim>\<open>src/cerberus_user_security.cpp\<close>).
  \<^item> \<open>User_Security\<close>: the tables of PIN and word states and all operations.
  \<^item> \<open>User_Security_Props\<close>: shape of a PIN, enrolment, soundness of the confirmation (C27),
    the burn policy over the reachable states (C28), the lock of a burned node, failing open without the hash library (\<open>pin_check_fails_open\<close>).
  \<^item> \<open>User_Lockout\<close>: the same policy as a small automaton per node that cannot be unlocked; the locale
    \<open>step_refinement\<close> lifts a step-wise simulation to call sequences, and its interpretation shows that
    the tables implement the automaton between two enrolments of the node (C39).

  \<^bold>\<open>Session tokens\<close> (\<^verbatim>\<open>src/cerberus_jwt_session.cpp\<close>).  \<open>Base64url\<close> is the codec with its round
  trip, \<open>Jwt_Session\<close> the claim extractor, the structural checks, signing, validation, refresh and
  revocation, \<open>Jwt_Laws\<close> the lemmas on token texts.  \<open>Jwt_Props\<close>: issued tokens are accepted until
  they expire (C31), accepted tokens are authentic (C32), the constant-time comparison is equality
  (\<open>signature_check_exact\<close>), a refreshed token stays revoked (C34).

  \<^bold>\<open>Command parser\<close> (\<^verbatim>\<open>src/cerberus_command_parser.cpp\<close>).  \<open>Command_Parser\<close> is the whole parser;
  \<open>Command_Props\<close> has the round trips of the protocol form (C35) and of the short form (C36), the parameter that a
  closing semicolon loses (\<open>parse_command_text\<close>), and that every result is trimmed.

  \<^bold>\<open>GGUF parser\<close> (\<^verbatim>\<open>src/cerberus_gguf_parser.cpp\<close>).  \<open>Gguf_Parser\<close> works on an in-memory stream with
  position and failure flag; \<open>Gguf_Props\<close> shows that a file in the layout of the format is read back
  entirely (C37) and that an 80-byte file makes the parser diverge (\<open>looping_file_diverges\<close>).

  \<^bold>\<open>Graph, plan, predictor\<close>.  \<open>Graph_Engine\<close> and \<open>Graph_Props\<close>
  (\<^verbatim>\<open>src/cerberus_graph_engine.cpp\<close>): the topological sort ends, succeeds exactly on orderable graphs and
  installs a topological order (C40).  \<open>Decision_Engine\<close> and \<open>Decision_Props\<close>
  (\<^verbatim>\<open>src/cerberus_decision_engine.cpp\<close>): a plan covers exactly the nodes of the graph (C12).
  \<open>Predictor\<close> (\<^verbatim>\<open>src/cerberus_predictor.cpp\<close>): the table implements a bounded queue ordered by last
  update, and what a client of the cache gets from it (C11).

  \<^bold>\<open>Watchdog and health.\<close>  \<open>Watchdog\<close> (\<^verbatim>\<open>src/utilization_watchdog.cpp\<close>) is the state machine of both
  devices with the log of its alerts; \<open>Watchdog_Props\<close> bounds the recoveries of every run (C7), gives the
  exact answers to an episode of critical samples (C16), and has the defects as lemmas.  \<open>Health_Score\<close>
  (\<^verbatim>\<open>src/health_score.cpp\<close>) computes in \<open>Float32\<close>; \<open>Health_Props\<close> shows that the score stays between 0 and 100
  and matches its grade (C24).

  \<^bold>\<open>Cluster transport\<close> (\<^verbatim>\<open>src/cluster_transport.cpp\<close>).  \<open>Cluster_Wire\<close> is the framing over reads and
  writes that transfer less than asked for, with its round trip (C19) and the ways it breaks;
  \<open>Cluster_Transport\<close> is the object with its threads as steps, the accept thread with its two blocking calls;
  \<open>Cluster_Props\<close> accounts for every open descriptor over all histories and says when \<^verbatim>\<open>stop\<close> waits (C6), shows the
  connection that a reconnect loses, and characterises
  the worker the load balancer picks (C26).

  \<^bold>\<open>API gateway\<close> (\<^verbatim>\<open>src/cerberus_api_gateway.cpp\<close> and its header).  \<open>Anbp_Protocol\<close> is the binary message format with its round trip (C2),
  \<open>Api_Gateway\<close> the sessions, the permission gate and the request handler.  \<open>Gateway_Props\<close>: the database changes
  only by a clear from an authenticated session of mode EXECUTE with an accepted second factor (C9); no sequence of
  client calls reaches such a session without the operator (C15); every request is answered under its
  sequence number; the weak spots (authentication without a proof, the unreachable end of the handshake, the
  loop on a full session table) are lemmas.

  \<^bold>\<open>CLIP tokenizer\<close> (\<^verbatim>\<open>src/clip_tokenizer.cpp\<close>).  \<open>Clip_Tokenizer\<close> is segmentation, vocabulary, encoding and
  decoding, with the built-in and the loaded table; \<open>Clip_Props\<close>: prompts of known words are decoded to themselves (C5)
  and an encoded prompt has the requested length and form (\<open>encode_shape\<close>).

  \<^bold>\<open>HTTP server\<close> (\<^verbatim>\<open>src/inference_server.cpp\<close> and its header).  \<open>Http_Parser\<close> is the request parser with the JSON helpers
  and the rendering of answers, \<open>Inference_Server\<close> the model registry and the load balancer, \<open>Inference_Routes\<close> the
  chat messages, the handlers and the accept loop.  \<open>Http_Props\<close>: a printed request is read back (C8) and, without
  chunked coding, the cutting of the bytes does not matter (C29).  \<open>Server_Props\<close>: which requests change the database, what a connection is
  answered, which device is picked, and that no chat message is ever read.  At the end of this theory, a clear
  request from the bytes of the socket through parser, route and second factor to the database (C23).

  \<^bold>\<open>Slipstream bus\<close> (\<^verbatim>\<open>src/cerberus_slipstream.cpp\<close> and its header).  \<open>Slipstream\<close> has the frames, the depots and the engine; a
  worker thread is a program counter and a run is a list of actions of owner, clients, workers and monitor.
  \<open>Slipstream_Props\<close>: frames are read back, the locale \<open>bounded_fifo\<close> is the contract of a depot, and over every interleaving
  no command is lost, duplicated or reordered (C38).

  \<^bold>\<open>Staging pool\<close> (\<^verbatim>\<open>src/staging_manager.cpp\<close>).  \<open>Staging_Pool\<close>: clients that release what they hold never share a buffer
  (C30); a double release breaks that, and empty buffers drain the pool.

  \<^bold>\<open>Matrix kernels\<close> (\<^verbatim>\<open>src/cerberus_native_kernels.cpp\<close>, \<^verbatim>\<open>src/cerberus_fused_kernels.cpp\<close>).  \<open>Matmul_Kernels\<close> has the plain, blocked,
  AVX2 and AVX-512 products over any arithmetic, with every array access checked; \<open>Matmul_Laws\<close> treats nested loops as scattered
  updates; \<open>Matmul_Props\<close>: in exact arithmetic the blocked and AVX2 kernels are the plain triple loop (C22), in any
  arithmetic they stay in bounds and add block-wise dot products (\<open>blocked_kernels_compute\<close>), and the AVX-512 kernel transposes its tiles.

  \<^bold>\<open>Native back end\<close> (\<^verbatim>\<open>src/cerberus_native_backend.cpp\<close> and the activation, row and convolution kernels of
  \<^verbatim>\<open>src/cerberus_native_kernels.cpp\<close>).  \<open>Native_Backend\<close> compiles a kernel graph and executes it node by node over input, output and
  scratch buffers.  \<open>Native_Props\<close>: the names and descriptors of a compilation, success only in data-flow order, elementwise graphs
  compute their reference semantics (C25), the overflow of scratch vectors of products, and the bias of the fused operator that
  reaches the first row only.

  \<^bold>\<open>Quantised kernels and snapshots\<close> (\<^verbatim>\<open>src/cerberus_quantized_kernels.cpp\<close>, \<^verbatim>\<open>src/cerberus_shadow_state.cpp\<close>).  In \<open>Quantized_Kernels\<close> every
  overflow and undefined conversion is an error.  \<open>Quantized_Props\<close>: the 32-bit accumulator is exact up to 33025 columns (C18) and
  overflows at the next; the dynamic path overflows on ordinary values; a snapshot with one changed byte is never restored (C3).

  \<^bold>\<open>Glow engine\<close> (\<^verbatim>\<open>src/cerberus_glow_engine.cpp\<close> and its header).  \<open>Glow_Engine\<close> has the bonds, their learning and decay, the search for hot
  paths and the registry of names.  \<open>Glow_Props\<close>: weights stay within their cap over every history, a query returns the
  strongest of exactly the hot paths (C33), and two threads can deadlock on the two mutexes.

  \<^bold>\<open>Metro station\<close> (\<^verbatim>\<open>src/cerberus_metro.cpp\<close>).  \<open>Metro\<close>: sessions stay unique per identity, clients without authentication are only
  refused, framed packets are echoed, and which length field makes the station read behind the request.

  \<^bold>\<open>NPU slots and asynchronous generation\<close> (\<^verbatim>\<open>src/npu_pipeline.cpp\<close>, \<^verbatim>\<open>src/async_pipeline.cpp\<close>).  \<open>Npu_Pipeline\<close> models the
  slot queue, encoding, staging and polling, and the two generation coroutines as functions of what the encoder, the HIP calls and the
  inner pipeline deliver.  \<open>Npu_Props\<close>: the exact account of slots over a generation, with the one slot that is lost, the exact condition
  under which a generation waits for ever, the hand-over of a failed encoding, the crashes without encoder or staging, and the results
  of a stream.

  \<^bold>\<open>Parameters.\<close>  Code outside the repository is an argument of the definitions that use it: the
  AES-256-GCM and hash functions of the dynamically loaded LFSSL library, the allocator and the
  creation of spill files, the server callback of the sync replay, the back end and the recovery callback,
  what the kernel answers to socket calls, the entries of a model directory, the readings of the device monitors,
  the answer of the image pipeline, the functions of the mathematics library.  Clock readings and random draws
  are arguments too; so are the iteration order of an \<^verbatim>\<open>unordered_map\<close> where a result depends on it
  and the hardware readings of the decision engine.  What a theorem needs of them is a named
  hypothesis (\<open>lfssl_sound\<close>, \<open>env_ok\<close>, non-empty digests), and its witness instantiates it.

  \<^bold>\<open>Machine integers, loops, divergence.\<close>  Sizes, handles, lengths, tensor counts and token times are
  words of their width.  Structural loops are \<open>fun\<close> or folds; loops that consume a string have a
  termination proof by length.  The topological sort, the rewrite loop and the skipping of GGUF arrays
  may not end, so they are \<open>partial_function (option)\<close>: \<open>None\<close> is divergence, ending is proved as
  \<open>\<exists>y. f x = Some y\<close> and divergence as \<open>f x = None\<close>.  The eviction loop carries fuel, the number of its
  rounds: one more than the length of the LRU list of the tier always suffices (C21), and for the
  coldest tier no amount does.  The search for hot paths carries fuel for its depth; two more than the hop limit suffice (C33), unless the limit is
  the largest \<^verbatim>\<open>uint32_t\<close>.

  \<^bold>\<open>Not modelled.\<close>  Hardware access and its threads (GPU, NPU and Hailo monitors, backends, encoders,
  pinned staging, the coroutine types), the schedulers, the command executor and the C interface, logging, the test harness of \<^verbatim>\<open>david_propup_engine.cpp\<close>, command-line programs and
  vendored headers.  Within the modelled files: the GPU branches of the memory manager, floating-point
  statistics, the JSON, CSV and Markdown exports of the database, the loading of shared libraries and
  the scrubbing of freed memory.  Races inside one call of the memory manager are out of scope: a call
  is one atomic step.
\<close>

subsection \<open>A clear request from the socket to the database\<close>

lemma clear_handler:
  assumes "sv_lcmd s = Some db"
  shows "sv_lcmd (snd (handle_inference_clear ev req s)) =
       Some (if http_confirmed ev (hq_body req) s then snd (clear_inference_records db) else db)"
    and "(hp_status_code (fst (handle_inference_clear ev req s)) = 200) = http_confirmed ev (hq_body req) s"
proof -
  define s0 where "s0 = s\<lparr>sv_stats := (sv_stats s)\<lparr>ss_clear_requests := ss_clear_requests (sv_stats s) + 1\<rparr>\<rparr>"
  obtain g s1 where g: "rbpc_gate ev ''both pin and word required for clear'' (hq_body req) s0 = (g, s1)"
    by fastforce
  have db: "sv_lcmd s0 = Some db" "sv_lcmd s1 = Some db"
    using assms rbpc_gate_lcmd [OF g] by (simp_all add: s0_def)
  have c: "(g = None) = http_confirmed ev (hq_body req) s"
    using rbpc_gate_exact [OF g] by (simp add: s0_def)
  have r: "\<forall>r. g = Some r \<longrightarrow> hp_status_code r \<noteq> 200"
    using rbpc_gate_refusal g by blast
  have h: "handle_inference_clear ev req s = (case g of Some refusal \<Rightarrow> (refusal, s1)
      | None \<Rightarrow> (json_response 200 (hp_body (fst (handle_inference_clear ev req s))),
                 s1\<lparr>sv_lcmd := Some (snd (clear_inference_records db))\<rparr>))"
    using g db assms unfolding s0_def
    by (auto simp: handle_inference_clear_def json_response_def Let_def split: option.splits prod.splits)
  show "sv_lcmd (snd (handle_inference_clear ev req s)) =
       Some (if http_confirmed ev (hq_body req) s then snd (clear_inference_records db) else db)"
    using c db by (subst h) (cases g, simp_all)
  show "(hp_status_code (fst (handle_inference_clear ev req s)) = 200) = http_confirmed ev (hq_body req) s"
    using c r by (subst h) (cases g, simp_all add: json_response_def)
qed

text \<open>C23. A clear request from the socket to the database: when the bytes of a printed clear request arrive in
  one read, the server answers, the answer has the status 200 exactly when the user security accepts the PIN and the word
  of the body (or none is configured), and exactly then the inference history is emptied; otherwise the
  database is as it was.\<close>

theorem http_clear_end_to_end:
  assumes "sv_lcmd s = Some db" and "\<forall>h \<in> set hs. header_ok h"
    and "length (request_text POST ''/v1/inference/clear'' hs body) \<le> 65535"
  shows "\<exists>r s'. serve ev (request_text POST ''/v1/inference/clear'' hs body) s = (Some (render r), s') \<and>
     (hp_status_code r = 200) = http_confirmed ev body s \<and>
     sv_lcmd s' = Some (if http_confirmed ev body s then snd (clear_inference_records db) else db)"
proof -
  let ?d = "request_text POST ''/v1/inference/clear'' hs body"
  define s1 where "s1 = s\<lparr>sv_stats := (sv_stats s)\<lparr>ss_requests_served := ss_requests_served (sv_stats s) + 1\<rparr>\<rparr>"
  have len: "length body < 2 ^ 64"
  proof -
    have "length body \<le> length ?d"
      by (simp add: request_text_def)
    then show ?thesis
      using assms(3) by (simp add: order_le_less_trans)
  qed
  have ne: "?d \<noteq> []"
    by (simp add: request_text_def)
  obtain hd where req: "fst (feed ?d new_parser) =
      Some \<lparr>hq_method = POST, hq_path = ''/v1/inference/clear'', hq_body = body, hq_headers = hd\<rparr>"
    using feed_request [of POST "''/v1/inference/clear''" hs body "[]"] assms(2) len by (simp add: path_ok_def)
  define q where "q = \<lparr>hq_method = POST, hq_path = ''/v1/inference/clear'', hq_body = body, hq_headers = hd\<rparr>"
  have sv: "serve ev ?d s = (Some (render (fst (handle_inference_clear ev q s1))), snd (handle_inference_clear ev q s1))"
    unfolding serve_def Let_def RECV_BUF_SIZE_def using ne req assms(3)
    by (simp add: q_def s1_def sv_dispatch_def Let_def case_prod_beta)
  have s1: "sv_lcmd s1 = Some db" "http_confirmed ev (hq_body q) s1 = http_confirmed ev body s"
    using assms(1) by (simp_all add: s1_def q_def)
  show ?thesis
    using clear_handler [OF s1(1), of ev q] sv s1(2) by metis
qed

definition demo_env_sv :: sv_env where
  "demo_env_sv = \<lparr>sn_clock = 0, sn_time = 100, sn_temp_dir = ''/tmp'', sn_export = False,
     sn_timing = (''0.000000'', ''0.000000''), sn_crypto = \<lparr>cr_sha256 = (\<lambda>_. []), cr_hmac_sha256 = (\<lambda>_ _. [])\<rparr>,
     sn_pipeline = (\<lambda>_ _. Inl ''no pipeline'')\<rparr>"

definition demo_sv :: "UserSecurity option \<Rightarrow> InferenceServer" where
  "demo_sv us = new_server 0 [] [] False False
     (Some (empty_db\<lparr>db_inference_records := [(''i1'', [(''status'', ''success'')])]\<rparr>)) us []"

definition demo_body :: string where
  "demo_body = ''{'' @ in_quotes ''pin'' @ '':'' @ in_quotes ''123456'' @ '','' @ in_quotes ''word'' @ '':'' @
     in_quotes ''memorable'' @ ''}''"

theorem http_clear_end_to_end_witness:
  "(\<exists>r s'. serve demo_env_sv (request_text POST ''/v1/inference/clear'' [] demo_body) (demo_sv None) = (Some (render r), s') \<and>
      hp_status_code r = 200 \<and> map_option db_inference_records (sv_lcmd s') = Some []) \<and>
   (\<exists>r s'. serve demo_env_sv (request_text POST ''/v1/inference/clear'' [] demo_body) (demo_sv (Some empty_security)) =
        (Some (render r), s') \<and>
      hp_status_code r \<noteq> 200 \<and> sv_lcmd s' = sv_lcmd (demo_sv None))"
proof -
  let ?db = "empty_db\<lparr>db_inference_records := [(''i1'', [(''status'', ''success'')])]\<rparr>"
  have db: "sv_lcmd (demo_sv us) = Some ?db" for us
    by (simp add: demo_sv_def new_server_def)
  have len: "length (request_text POST ''/v1/inference/clear'' [] demo_body) \<le> 65535"
    by (simp add: request_text_def demo_body_def in_quotes_def quote_def header_text_def length_header_def crlf_def
        nat_to_string.simps)
  have yes: "http_confirmed demo_env_sv demo_body (demo_sv None)"
    by (simp add: http_confirmed_def demo_sv_def new_server_def)
  have no: "\<not> http_confirmed demo_env_sv demo_body (demo_sv (Some empty_security))"
    by (simp add: http_confirmed_def demo_sv_def new_server_def verify_confirmation_def empty_security_def)
  show ?thesis
    using http_clear_end_to_end [OF db _ len, of demo_env_sv None] http_clear_end_to_end [OF db _ len, of demo_env_sv "Some empty_security"]
      yes no db [of None] by (auto simp: clear_inference_records_def mark_dirty_def)
qed

end
